(* ===== verification/Wdm_Prelude.thy ===== *)
theory Wdm_Prelude
  imports Main "HOL-Library.List_Lexorder" "HOL-Library.Char_ord" "HOL-Library.AList"
begin

text \<open>
  Shared vocabulary of the development. A Go function that only returns an \<open>error\<close> is
  modelled by a value of type \<open>'e option\<close> (\<open>None\<close> is Go's \<open>nil\<close>); a function that returns
  a value and an error is a sum \<open>'e + 'a\<close> with the error on the left. Go maps are association
  lists in some iteration order, and loops over sorted keys go through \<open>sorted_keys\<close>.
\<close>

named_theorems err_simps \<open>how the error combinators decide\<close>
named_theorems go_eval \<open>evaluation of Go's text functions on literals\<close>
named_theorems gomap_simps \<open>look-ups and key sets of Go maps\<close>

subsection \<open>Errors\<close>

text \<open>
  The exit-code classes of \<open>pkg/types/error.go\<close>. The constructors are the Go constants; the
  exit status a code maps to is \<open>exit_status\<close>.
\<close>

datatype error_code =
    ErrCodeUnknown
  | ErrCodeGeneric
  | ErrCodeUsageValidation
  | ErrCodeVerificationFailed
  | ErrCodeRuntimeLockHeld
  | ErrCodeDockerUnavailable
  | ErrCodePermissionDenied
  | ErrCodeUserCanceled
  | ErrCodeNetworkFailure
  | ErrCodeMigrationFailure

fun exit_status :: "error_code \<Rightarrow> nat" where
  "exit_status ErrCodeUnknown = 0"
| "exit_status ErrCodeGeneric = 1"
| "exit_status ErrCodeUsageValidation = 2"
| "exit_status ErrCodeVerificationFailed = 3"
| "exit_status ErrCodeRuntimeLockHeld = 4"
| "exit_status ErrCodeDockerUnavailable = 5"
| "exit_status ErrCodePermissionDenied = 6"
| "exit_status ErrCodeUserCanceled = 7"
| "exit_status ErrCodeNetworkFailure = 8"
| "exit_status ErrCodeMigrationFailure = 9"

text \<open>
  The error constructors of \<open>internal/core\<close>. \<open>'r\<close> is the reason of a component: one
  constructor per message of the source, carrying the operands the Go cause formats.
  \<open>RedactedVerification\<close> is \<open>redactedVerificationError\<close> (the cause passed through the
  operation's redactor), \<open>CatalogVerification\<close> is \<open>catalogVerificationError\<close>,
  \<open>UsageValidation\<close> is \<open>usageValidationError\<close>, \<open>Untyped\<close> is an error that carries no code
  of its own (\<open>fmt.Errorf\<close>), and \<open>Coded\<close> is \<open>types.NewError\<close> or \<open>types.WrapError\<close> called directly
  with a code.
\<close>

datatype 'r wdm_error =
    UsageValidation 'r
  | CatalogVerification 'r
  | RedactedVerification 'r
  | Untyped 'r
  | Coded error_code 'r

fun code_of :: "'r wdm_error \<Rightarrow> error_code option" where
  "code_of (UsageValidation r) = Some ErrCodeUsageValidation"
| "code_of (CatalogVerification r) = Some ErrCodeVerificationFailed"
| "code_of (RedactedVerification r) = Some ErrCodeVerificationFailed"
| "code_of (Untyped r) = None"
| "code_of (Coded c r) = Some c"

fun reason_of :: "'r wdm_error \<Rightarrow> 'r" where
  "reason_of (UsageValidation r) = r"
| "reason_of (CatalogVerification r) = r"
| "reason_of (RedactedVerification r) = r"
| "reason_of (Untyped r) = r"
| "reason_of (Coded c r) = r"

lemma code_of_map [simp]: "code_of (map_wdm_error f e) = code_of e"
  by (cases e) simp_all

text \<open>What the code asks of an operating-system error: \<open>errors.Is\<close> with one of two sentinels.\<close>

datatype os_error = NotExist | AccessDenied | OtherOsError string

subsection \<open>Early returns\<close>

text \<open>
  \<open>if err := a; err != nil { return err }; return b\<close> is \<open>or_else a b\<close>;
  \<open>if c { return e }\<close> is \<open>refuse_if c e\<close>; a \<open>for\<close> loop whose body may return an error is
  \<open>first_err\<close>.
\<close>

definition or_else :: "'e option \<Rightarrow> 'e option \<Rightarrow> 'e option" where
  "or_else a b = (case a of None \<Rightarrow> b | Some e \<Rightarrow> Some e)"

definition refuse_if :: "bool \<Rightarrow> 'e \<Rightarrow> 'e option" where
  "refuse_if c e = (if c then Some e else None)"

fun first_err :: "('a \<Rightarrow> 'e option) \<Rightarrow> 'a list \<Rightarrow> 'e option" where
  "first_err f [] = None"
| "first_err f (x # xs) = (case f x of None \<Rightarrow> first_err f xs | Some e \<Rightarrow> Some e)"

lemma or_else_None [err_simps]: "or_else a b = None \<longleftrightarrow> a = None \<and> b = None"
  by (auto simp: or_else_def split: option.splits)

lemma or_else_Some: "or_else a b = Some e \<Longrightarrow> a = Some e \<or> (a = None \<and> b = Some e)"
  by (auto simp: or_else_def split: option.splits)

lemma refuse_if_None [err_simps]: "refuse_if c e = None \<longleftrightarrow> \<not> c"
  by (simp add: refuse_if_def)

lemma refuse_if_Some: "refuse_if c e = Some e' \<longleftrightarrow> c \<and> e' = e"
  by (auto simp: refuse_if_def)

lemma first_err_None [err_simps]: "first_err f xs = None \<longleftrightarrow> (\<forall>x \<in> set xs. f x = None)"
  by (induction xs) (auto split: option.splits)

lemma first_err_Some: "first_err f xs = Some e \<Longrightarrow> \<exists>x \<in> set xs. f x = Some e"
  by (induction xs) (auto split: option.splits)

lemma first_err_append: "first_err f (xs @ ys) = or_else (first_err f xs) (first_err f ys)"
  by (induction xs) (auto simp: or_else_def split: option.splits)

text \<open>
  Every error a check can return satisfies \<open>P\<close>. The three rules lift it over the
  combinators, so the error class of a whole handler is read off its leaves.
\<close>

definition errs_in :: "('e \<Rightarrow> bool) \<Rightarrow> 'e option \<Rightarrow> bool" where
  "errs_in P a \<longleftrightarrow> (\<forall>e. a = Some e \<longrightarrow> P e)"

lemma errs_in_None [intro!, simp]: "errs_in P None"
  by (simp add: errs_in_def)

lemma errs_in_Some [simp]: "errs_in P (Some e) = P e"
  by (simp add: errs_in_def)

lemma errs_in_or_else [intro!]: "errs_in P a \<Longrightarrow> errs_in P b \<Longrightarrow> errs_in P (or_else a b)"
  by (auto simp: errs_in_def or_else_def split: option.splits)

lemma errs_in_refuse_if [intro!]: "P e \<Longrightarrow> errs_in P (refuse_if c e)"
  by (auto simp: errs_in_def refuse_if_def)

lemma errs_in_first_err [intro!]:
  "(\<And>x. x \<in> set xs \<Longrightarrow> errs_in P (f x)) \<Longrightarrow> errs_in P (first_err f xs)"
  unfolding errs_in_def using first_err_Some by fast

lemma errs_inD: "errs_in P a \<Longrightarrow> a = Some e \<Longrightarrow> P e"
  by (simp add: errs_in_def)

definition verification_class :: "'r wdm_error \<Rightarrow> bool" where
  "verification_class e \<longleftrightarrow> code_of e = Some ErrCodeVerificationFailed"

lemma verification_class_simps [simp]:
  "verification_class (CatalogVerification r)"
  "verification_class (RedactedVerification r)"
  "\<not> verification_class (UsageValidation r)"
  "\<not> verification_class (Untyped r)"
  "verification_class (Coded c r) \<longleftrightarrow> c = ErrCodeVerificationFailed"
  by (simp_all add: verification_class_def)

subsection \<open>Values with errors\<close>

definition bindE :: "'e + 'a \<Rightarrow> ('a \<Rightarrow> 'e + 'b) \<Rightarrow> 'e + 'b" where
  "bindE m f = (case m of Inl e \<Rightarrow> Inl e | Inr x \<Rightarrow> f x)"

lemma bindE_simps [simp]: "bindE (Inl e) f = Inl e" "bindE (Inr x) f = f x"
  by (simp_all add: bindE_def)

lemma bindE_Inr [err_simps]: "bindE m f = Inr y \<longleftrightarrow> (\<exists>x. m = Inr x \<and> f x = Inr y)"
  by (cases m) auto

lemma bindE_Inl: "bindE m f = Inl e \<longleftrightarrow> m = Inl e \<or> (\<exists>x. m = Inr x \<and> f x = Inl e)"
  by (cases m) auto

text \<open>A check that returns only an error, in front of a value.\<close>

definition guardE :: "'e option \<Rightarrow> 'e + 'a \<Rightarrow> 'e + 'a" where
  "guardE a m = (case a of None \<Rightarrow> m | Some e \<Rightarrow> Inl e)"

lemma guardE_Inr [err_simps]: "guardE a m = Inr y \<longleftrightarrow> a = None \<and> m = Inr y"
  by (auto simp: guardE_def split: option.splits)

lemma guardE_Inl: "guardE a m = Inl e \<longleftrightarrow> a = Some e \<or> (a = None \<and> m = Inl e)"
  by (auto simp: guardE_def split: option.splits)

lemma guardE_simps [simp]: "guardE None m = m" "guardE (Some e) m = Inl e"
  by (simp_all add: guardE_def)

fun foldE :: "('s \<Rightarrow> 'a \<Rightarrow> 'e + 's) \<Rightarrow> 's \<Rightarrow> 'a list \<Rightarrow> 'e + 's" where
  "foldE f s [] = Inr s"
| "foldE f s (x # xs) = bindE (f s x) (\<lambda>s'. foldE f s' xs)"

lemma foldE_append: "foldE f s (xs @ ys) = bindE (foldE f s xs) (\<lambda>s'. foldE f s' ys)"
  by (induction xs arbitrary: s) (auto simp: bindE_def split: sum.splits)

text \<open>An invariant of the loop body is an invariant of the loop.\<close>

lemma foldE_invariant:
  assumes "foldE f s xs = Inr t" "I s"
    and "\<And>s x s'. x \<in> set xs \<Longrightarrow> I s \<Longrightarrow> f s x = Inr s' \<Longrightarrow> I s'"
  shows "I t"
  using assms
  by (induction xs arbitrary: s) (auto simp: err_simps)

lemma foldE_Inl:
  assumes "foldE f s xs = Inl e"
  shows "\<exists>s' x. x \<in> set xs \<and> f s' x = Inl e"
  using assms by (induction xs arbitrary: s) (fastforce simp: bindE_Inl)+

subsection \<open>Go maps\<close>

type_synonym ('k, 'v) gomap = "('k \<times> 'v) list"

definition keys_of :: "('k, 'v) gomap \<Rightarrow> 'k set" where
  "keys_of m = fst ` set m"

definition sorted_keys :: "('k::linorder, 'v) gomap \<Rightarrow> 'k list" where
  "sorted_keys m = sort (remdups (map fst m))"

lemma set_sorted_keys [gomap_simps, simp]: "set (sorted_keys m) = keys_of m"
  by (simp add: sorted_keys_def keys_of_def)

lemma sorted_sorted_keys [simp]: "sorted (sorted_keys m)" "distinct (sorted_keys m)"
  by (simp_all add: sorted_keys_def)

lemma keys_of_iff [gomap_simps]: "k \<in> keys_of m \<longleftrightarrow> map_of m k \<noteq> None"
  by (simp add: keys_of_def map_of_eq_None_iff)

lemma keys_of_dom: "keys_of m = dom (map_of m)"
  by (simp add: keys_of_def dom_map_of_conv_image_fst)

lemma keys_of_update [gomap_simps, simp]: "keys_of (AList.update k v m) = insert k (keys_of m)"
  by (simp add: keys_of_dom update_conv' dom_fun_upd)

lemma map_of_update [gomap_simps, simp]:
  "map_of (AList.update k v m) j = (if j = k then Some v else map_of m j)"
  by (simp add: update_conv')

lemma keys_of_Nil [simp]: "keys_of [] = {}"
  by (simp add: keys_of_def)

text \<open>\<open>m[k]\<close> of a missing key reads the zero value of the element type.\<close>

definition get_or :: "'v \<Rightarrow> ('k, 'v) gomap \<Rightarrow> 'k \<Rightarrow> 'v" where
  "get_or z m k = (case map_of m k of None \<Rightarrow> z | Some v \<Rightarrow> v)"

lemma get_or_simps [gomap_simps]:
  "map_of m k = None \<Longrightarrow> get_or z m k = z"
  "map_of m k = Some v \<Longrightarrow> get_or z m k = v"
  by (simp_all add: get_or_def)

lemma all_keys:
  "(\<forall>k \<in> keys_of m. P k (get_or z m k)) \<longleftrightarrow> (\<forall>k v. map_of m k = Some v \<longrightarrow> P k v)"
  by (auto simp: keys_of_iff get_or_def split: option.splits)

text \<open>A nested loop that threads one state is one loop over the pairs.\<close>

lemma foldE_nested:
  "foldE (\<lambda>m k. foldE (f k) m (g k)) m ks
     = foldE (\<lambda>m kx. f (fst kx) m (snd kx)) m (concat (map (\<lambda>k. map (Pair k) (g k)) ks))"
proof (induction ks arbitrary: m)
  case (Cons k ks)
  have "foldE (f k) m' xs = foldE (\<lambda>m kx. f (fst kx) m (snd kx)) m' (map (Pair k) xs)" for m' xs
    by (induction xs arbitrary: m') auto
  then show ?case by (simp add: Cons.IH foldE_append)
qed simp

text \<open>
  Loops that fill a map: an element is skipped, is refused, or stores something under a key. The
  keys of the result are then the keys of the elements, whatever is stored under them and in
  whatever order.
\<close>

locale key_collector =
  fixes step :: "('k, 'v) gomap \<Rightarrow> 'a \<Rightarrow> 'e + ('k, 'v) gomap"
    and key :: "'a \<Rightarrow> 'k option option"
  assumes skip: "key x = None \<Longrightarrow> step m x = Inr m"
    and reject: "key x = Some None \<Longrightarrow> \<exists>e. step m x = Inl e"
    and keep: "key x = Some (Some k) \<Longrightarrow> \<exists>v. step m x = Inr (AList.update k v m)"
begin

lemma collects:
  "foldE step m xs = Inr m' \<Longrightarrow>
     keys_of m' = keys_of m \<union> {k. \<exists>x \<in> set xs. key x = Some (Some k)}
     \<and> (\<forall>x \<in> set xs. key x \<noteq> Some None)"
proof (induction xs arbitrary: m)
  case (Cons x xs)
  consider "key x = None" | "key x = Some None" | k where "key x = Some (Some k)"
    by (cases "key x") auto
  then show ?case
  proof cases
    case 1
    with Cons show ?thesis by (simp add: skip)
  next
    case 2
    with Cons.prems reject [of x m] show ?thesis by auto
  next
    case 3
    from keep [OF 3] obtain v where "step m x = Inr (AList.update k v m)" by blast
    with Cons.prems have "foldE step (AList.update k v m) xs = Inr m'" by simp
    from Cons.IH [OF this] 3 show ?thesis by auto
  qed
qed simp

lemma rejects: "foldE step m xs = Inl e \<Longrightarrow> \<exists>x \<in> set xs. key x = Some None"
proof (induction xs arbitrary: m)
  case (Cons x xs)
  consider "key x = None" | "key x = Some None" | k where "key x = Some (Some k)"
    by (cases "key x") auto
  then show ?case
  proof cases
    case 1
    with Cons show ?thesis by (simp add: skip)
  next
    case 3
    from keep [OF 3] obtain v where "step m x = Inr (AList.update k v m)" by blast
    with Cons.prems have "foldE step (AList.update k v m) xs = Inl e" by simp
    from Cons.IH [OF this] show ?thesis by auto
  qed simp
qed simp

end

text \<open>
  \<open>stringSetsEqual\<close> and \<open>stringMapsEqual\<close> compare two Go maps by length and one inclusion.
  On maps (distinct keys) that is equality of the sets and of the look-up functions.
\<close>

lemma card_subset_keys_eq:
  assumes "distinct xs" "distinct ys" "length xs = length ys" "set xs \<subseteq> set ys"
  shows "set xs = set ys"
  using assms by (metis List.finite_set card_subset_eq distinct_card)

end
