(* ===== verification/Go_Strings.thy ===== *)
theory Go_Strings
  imports Wdm_Prelude
begin

text \<open>
  The part of Go's standard library on strings that the modelled code uses: \<open>strings\<close>,
  \<open>strconv\<close>, \<open>path\<close> and \<open>path/filepath\<close> on Unix. A Go string is a list of bytes (\<open>char\<close>), so
  a character outside ASCII is its UTF-8 bytes. The order of strings is Go's byte-wise order
  (the library's lexicographic order on lists of characters).
\<close>

named_theorems str_simps \<open>decisions of the string functions\<close>

subsection \<open>Cut, split, join\<close>

text \<open>\<open>strings.Cut(s, sep)\<close> for a one-byte separator: before, after, found.\<close>

definition cut :: "char \<Rightarrow> string \<Rightarrow> string \<times> string \<times> bool" where
  "cut c s = (case dropWhile (\<lambda>x. x \<noteq> c) s of
      [] \<Rightarrow> (s, [], False)
    | _ # r \<Rightarrow> (takeWhile (\<lambda>x. x \<noteq> c) s, r, True))"

fun split_on :: "char \<Rightarrow> string \<Rightarrow> string list" where
  "split_on c [] = [[]]"
| "split_on c (x # xs) =
     (if x = c then [] # split_on c xs
      else (case split_on c xs of [] \<Rightarrow> [[x]] | w # ws \<Rightarrow> (x # w) # ws))"

fun join_with :: "string \<Rightarrow> string list \<Rightarrow> string" where
  "join_with sep [] = []"
| "join_with sep [w] = w"
| "join_with sep (w # v # ws) = w @ sep @ join_with sep (v # ws)"

lemma split_on_not_Nil [simp]: "split_on c s \<noteq> []"
  by (cases s) (auto split: list.splits)

lemma join_split: "join_with [c] (split_on c s) = s"
proof (induction s)
  case (Cons x xs)
  then show ?case
    by (cases "split_on c xs"; cases "tl (split_on c xs)") auto
qed simp

lemma split_on_parts: "w \<in> set (split_on c s) \<Longrightarrow> c \<notin> set w"
  by (induction s arbitrary: w) (auto split: if_splits list.splits)

lemma split_on_chars: "w \<in> set (split_on c s) \<Longrightarrow> set w \<subseteq> set s"
  by (induction s arbitrary: w) (fastforce split: if_splits list.splits)+

lemma split_on_free: "c \<notin> set w \<Longrightarrow> split_on c w = [w]"
  by (induction w) auto

lemma split_on_sep: "c \<notin> set w \<Longrightarrow> split_on c (w @ c # s) = w # split_on c s"
  by (induction w) auto

lemma split_join:
  "ws \<noteq> [] \<Longrightarrow> \<forall>w \<in> set ws. c \<notin> set w \<Longrightarrow> split_on c (join_with [c] ws) = ws"
  by (induction ws rule: induct_list012) (auto simp: split_on_free split_on_sep)

lemma scan_to:
  "c \<notin> set w \<Longrightarrow> dropWhile (\<lambda>x. x \<noteq> c) (w @ c # r) = c # r"
  "c \<notin> set w \<Longrightarrow> takeWhile (\<lambda>x. x \<noteq> c) (w @ c # r) = w"
  "c \<notin> set w \<Longrightarrow> dropWhile (\<lambda>x. x \<noteq> c) w = []"
  by (induction w) auto

lemma cut_found: "c \<notin> set w \<Longrightarrow> cut c (w @ c # r) = (w, r, True)"
  by (simp add: cut_def scan_to)

lemma cut_missing: "c \<notin> set s \<Longrightarrow> cut c s = (s, [], False)"
  by (simp add: cut_def scan_to)

lemma cut_Some:
  assumes "cut c s = (a, b, True)"
  shows "s = a @ c # b \<and> c \<notin> set a"
proof -
  obtain r where d: "dropWhile (\<lambda>x. x \<noteq> c) s = c # b" "a = takeWhile (\<lambda>x. x \<noteq> c) s"
    using assms by (auto simp: cut_def split: list.splits dest: dropWhile_eq_Cons_conv[THEN iffD1])
  then show ?thesis
    by (metis takeWhile_dropWhile_id set_takeWhileD)
qed

lemma cut_None: "cut c s = (a, b, False) \<Longrightarrow> a = s \<and> b = [] \<and> c \<notin> set s"
  by (auto simp: cut_def dropWhile_eq_Nil_conv split: list.splits)

subsection \<open>Prefixes, suffixes and sub-strings\<close>

fun has_prefix :: "string \<Rightarrow> string \<Rightarrow> bool" where
  "has_prefix s [] = True"
| "has_prefix [] (p # ps) = False"
| "has_prefix (x # xs) (p # ps) = (x = p \<and> has_prefix xs ps)"

lemma has_prefix_iff: "has_prefix s p \<longleftrightarrow> (\<exists>r. s = p @ r)"
  by (induction s p rule: has_prefix.induct) auto

lemma has_prefix_append [simp]: "has_prefix (p @ r) p"
  by (auto simp: has_prefix_iff)

definition trim_prefix :: "string \<Rightarrow> string \<Rightarrow> string" where
  "trim_prefix s p = (if has_prefix s p then drop (length p) s else s)"

definition trim_suffix :: "string \<Rightarrow> string \<Rightarrow> string" where
  "trim_suffix s p = (if has_prefix (rev s) (rev p) then take (length s - length p) s else s)"

text \<open>\<open>strings.Contains\<close> and \<open>bytes.Contains\<close>: the empty string is in every string.\<close>

fun contains :: "string \<Rightarrow> string \<Rightarrow> bool" where
  "contains [] p = (p = [])"
| "contains (x # xs) p = (has_prefix (x # xs) p \<or> contains xs p)"

lemma contains_iff: "contains s p \<longleftrightarrow> (\<exists>a b. s = a @ p @ b)"
proof (induction s)
  case (Cons x xs)
  note IH = Cons.IH
  show ?case
  proof
    assume "contains (x # xs) p"
    then consider "has_prefix (x # xs) p" | "contains xs p" by auto
    then show "\<exists>a b. x # xs = a @ p @ b"
    proof cases
      case 1
      then obtain r where "x # xs = [] @ p @ r" by (auto simp: has_prefix_iff)
      then show ?thesis by blast
    next
      case 2
      then obtain a b where "x # xs = (x # a) @ p @ b" using IH by auto
      then show ?thesis by blast
    qed
  next
    assume "\<exists>a b. x # xs = a @ p @ b"
    then obtain a b where ab: "x # xs = a @ p @ b" by blast
    show "contains (x # xs) p"
    proof (cases a)
      case Nil
      with ab have "has_prefix (x # xs) p" by simp
      then show ?thesis by simp
    next
      case (Cons y a')
      with ab have "xs = a' @ p @ b" by simp
      with IH show ?thesis by auto
    qed
  qed
qed auto

definition contains_any :: "string \<Rightarrow> string \<Rightarrow> bool" where
  "contains_any s cs = list_ex (\<lambda>c. c \<in> set cs) s"

lemma contains_any_iff: "contains_any s cs \<longleftrightarrow> set s \<inter> set cs \<noteq> {}"
  by (auto simp: contains_any_def list_ex_iff)

subsection \<open>Character classes and case\<close>

definition byte :: "char \<Rightarrow> nat" where
  "byte c = of_char c"

definition is_digit :: "char \<Rightarrow> bool" where
  "is_digit c \<longleftrightarrow> 48 \<le> byte c \<and> byte c \<le> 57"

definition is_lower :: "char \<Rightarrow> bool" where
  "is_lower c \<longleftrightarrow> 97 \<le> byte c \<and> byte c \<le> 122"

definition is_upper :: "char \<Rightarrow> bool" where
  "is_upper c \<longleftrightarrow> 65 \<le> byte c \<and> byte c \<le> 90"

definition is_ascii :: "char \<Rightarrow> bool" where
  "is_ascii c \<longleftrightarrow> byte c \<le> 127"

lemma byte_char_of [simp]: "n < 256 \<Longrightarrow> byte (char_of n) = n"
  by (simp add: byte_def)

lemma byte_inject [simp]: "byte a = byte b \<longleftrightarrow> a = b"
  by (simp add: byte_def)

lemma byte_bound: "byte c < 256"
  using range_nat_of_char unfolding byte_def by (metis atLeastLessThan_iff rangeI)

text \<open>
  \<open>strings.ToUpper\<close>. Two letters outside ASCII have an ASCII upper-case form: U+017F (bytes C5 BF)
  becomes S and U+0131 (bytes C4 B1) becomes I. Every other multi-byte character stays outside ASCII
  under \<open>ToUpper\<close>; the model leaves its bytes alone. The code compares results of \<open>ToUpper\<close> only
  with ASCII names or reads their ASCII letters, where the two agree.
\<close>

definition upper_char :: "char \<Rightarrow> char" where
  "upper_char c = (if is_lower c then char_of (byte c - 32) else c)"

definition lower_char :: "char \<Rightarrow> char" where
  "lower_char c = (if is_upper c then char_of (byte c + 32) else c)"

fun to_upper :: "string \<Rightarrow> string" where
  "to_upper [] = []"
| "to_upper [x] = [upper_char x]"
| "to_upper (x # y # r) =
     (if byte x = 197 \<and> byte y = 191 then CHR ''S'' # to_upper r
      else if byte x = 196 \<and> byte y = 177 then CHR ''I'' # to_upper r
      else upper_char x # to_upper (y # r))"

text \<open>
  \<open>strings.ToLower\<close>, likewise: U+0130 (bytes C4 B0) becomes i and U+212A (bytes E2 84 AA) becomes k;
  every other character outside ASCII stays outside ASCII and the model leaves its bytes alone.
\<close>

fun to_lower :: "string \<Rightarrow> string" where
  "to_lower [] = []"
| "to_lower (x # r) =
     (case r of
        [] \<Rightarrow> [lower_char x]
      | y # r' \<Rightarrow>
          (if byte x = 196 \<and> byte y = 176 then CHR ''i'' # to_lower r'
           else (case r' of
             [] \<Rightarrow> lower_char x # to_lower r
           | z # r'' \<Rightarrow>
               (if byte x = 226 \<and> byte y = 132 \<and> byte z = 170 then CHR ''k'' # to_lower r''
                else lower_char x # to_lower r))))"

text \<open>\<open>strings.ToLower\<close> on ASCII text (the only text the modelled code applies it to).\<close>

definition to_lower_ascii :: "string \<Rightarrow> string" where
  "to_lower_ascii s = map lower_char s"

text \<open>
  \<open>strings.EqualFold(s, t)\<close> for an ASCII \<open>t\<close>: Unicode simple folding identifies U+017F with s and
  U+212A (bytes E2 84 AA) with k, and no other character outside ASCII with an ASCII letter.
\<close>

fun fold_case :: "string \<Rightarrow> string" where
  "fold_case [] = []"
| "fold_case (x # r) =
     (case r of
        y # r' \<Rightarrow>
          (if byte x = 197 \<and> byte y = 191 then CHR ''s'' # fold_case r'
           else (case r' of
             z # r'' \<Rightarrow>
               (if byte x = 226 \<and> byte y = 132 \<and> byte z = 170 then CHR ''k'' # fold_case r''
                else lower_char x # fold_case r)
           | [] \<Rightarrow> lower_char x # fold_case r))
      | [] \<Rightarrow> [lower_char x])"

definition equal_fold_ascii :: "string \<Rightarrow> string \<Rightarrow> bool" where
  "equal_fold_ascii s t \<longleftrightarrow> fold_case s = to_lower_ascii t"

subsection \<open>TrimSpace\<close>

text \<open>
  \<open>strings.TrimSpace\<close> removes leading and trailing Unicode white space. The UTF-8 codes of the white
  space characters are listed; no code is a prefix or a suffix of another one.
\<close>

definition space_codes :: "string list" where
  "space_codes = map (map char_of)
     ([[9], [10], [11], [12], [13], [32], [194, 133], [194, 160], [225, 154, 128],
       [226, 128, 168], [226, 128, 169], [226, 128, 175], [226, 129, 159], [227, 128, 128],
       [226, 128, 128], [226, 128, 129], [226, 128, 130], [226, 128, 131], [226, 128, 132],
       [226, 128, 133], [226, 128, 134], [226, 128, 135], [226, 128, 136], [226, 128, 137],
       [226, 128, 138]] :: nat list list)"

fun strip_any :: "string list \<Rightarrow> string \<Rightarrow> string option" where
  "strip_any [] s = None"
| "strip_any (p # ps) s =
     (if p \<noteq> [] \<and> has_prefix s p then Some (drop (length p) s) else strip_any ps s)"

lemma strip_any_shorter: "strip_any ps s = Some r \<Longrightarrow> length r < length s"
  by (induction ps) (auto simp: has_prefix_iff split: if_splits)

function trim_start :: "string list \<Rightarrow> string \<Rightarrow> string" where
  "trim_start ps s = (case strip_any ps s of None \<Rightarrow> s | Some r \<Rightarrow> trim_start ps r)"
  by pat_completeness auto
termination
  by (relation "measure (\<lambda>(ps, s). length s)") (auto simp: strip_any_shorter)

declare trim_start.simps [simp del]

definition trim_space :: "string \<Rightarrow> string" where
  "trim_space s =
     (let t = trim_start space_codes s
      in rev (trim_start (map rev space_codes) (rev t)))"

lemma strip_any_None: "strip_any ps s = None \<longleftrightarrow> (\<forall>p \<in> set ps. p \<noteq> [] \<longrightarrow> \<not> has_prefix s p)"
  by (induction ps) auto

lemma trim_start_stop: "strip_any ps (trim_start ps s) = None"
  by (induction ps s rule: trim_start.induct) (subst trim_start.simps, auto split: option.splits)

lemma trim_start_id: "strip_any ps s = None \<Longrightarrow> trim_start ps s = s"
  by (subst trim_start.simps) simp

lemma strip_any_suffix: "strip_any ps s = Some r \<Longrightarrow> \<exists>p. s = p @ r"
  by (induction ps) (auto simp: has_prefix_iff split: if_splits)

lemma trim_start_suffix: "\<exists>p. s = p @ trim_start ps s"
proof (induction ps s rule: trim_start.induct)
  case (1 ps s)
  show ?case
  proof (cases "strip_any ps s")
    case None
    then show ?thesis by (simp add: trim_start_id)
  next
    case (Some r)
    from "1.IH" [OF Some] obtain q where "r = q @ trim_start ps r" by blast
    moreover obtain p where "s = p @ r" using strip_any_suffix [OF Some] by blast
    moreover have "trim_start ps s = trim_start ps r" using Some by (subst trim_start.simps) simp
    ultimately show ?thesis by (metis append.assoc)
  qed
qed

lemma trim_space_front: "strip_any space_codes (trim_space s) = None"
proof -
  let ?u = "trim_start space_codes s" and ?v = "trim_start (map rev space_codes) (rev (trim_start space_codes s))"
  obtain p where "rev ?u = p @ ?v" using trim_start_suffix by blast
  then have "?u = rev ?v @ rev p" by (metis rev_append rev_rev_ident)
  moreover have "trim_space s = rev ?v" by (simp add: trim_space_def)
  ultimately show ?thesis
    using trim_start_stop [of space_codes s] by (auto simp: strip_any_None has_prefix_iff)
qed

lemma trim_space_id:
  assumes "strip_any space_codes s = None" "strip_any (map rev space_codes) (rev s) = None"
  shows "trim_space s = s"
  using assms by (simp add: trim_space_def trim_start_id)

text \<open>A character of no space code survives trimming.\<close>

lemma strip_any_code: "strip_any ps s = Some r \<Longrightarrow> \<exists>p \<in> set ps. s = p @ r"
  by (induction ps) (auto simp: has_prefix_iff split: if_splits)

lemma trim_start_keeps:
  "c \<in> set s \<Longrightarrow> \<forall>p \<in> set ps. c \<notin> set p \<Longrightarrow> c \<in> set (trim_start ps s)"
proof (induction ps s rule: trim_start.induct)
  case (1 ps s)
  show ?case
  proof (cases "strip_any ps s")
    case None
    with 1 show ?thesis by (simp add: trim_start_id)
  next
    case (Some r)
    then obtain p where "p \<in> set ps" "s = p @ r" using strip_any_code by blast
    with 1 Some have "c \<in> set (trim_start ps r)" by auto
    with Some show ?thesis by (subst trim_start.simps) simp
  qed
qed

lemma trim_space_keeps:
  assumes "c \<in> set s" "\<forall>p \<in> set space_codes. c \<notin> set p"
  shows "c \<in> set (trim_space s)"
  using assms trim_start_keeps [of c s space_codes]
    trim_start_keeps [of c "rev (trim_start space_codes s)" "map rev space_codes"]
  by (simp add: trim_space_def)

lemmas trim_eval = trim_space_def trim_start.simps space_codes_def char_of_def bit_Suc_0_iff

lemmas case_eval = equal_fold_ascii_def to_lower_ascii_def lower_char_def upper_char_def is_upper_def
  is_lower_def byte_def

end
