(* ===== verification/Catalog.thy ===== *)
theory Catalog
  imports Go_Strings
begin

text \<open>
  The signed catalog's data model (\<open>internal/catalog/types.go\<close>): one record per Go struct, with the
  Go fields in their order. A Go pointer that may be nil is an \<open>option\<close>. Timestamps are kept as
  their RFC 3339 text. A placeholder's \<open>Default any\<close> is what YAML leaves there: nothing, a string, a
  boolean, or a number with the text that \<open>fmt.Sprint\<close> prints for it.
\<close>

datatype any_value = AnyString string | AnyBool bool | AnyNumber string

fun fmt_sprint :: "any_value \<Rightarrow> string" where
  "fmt_sprint (AnyString s) = s"
| "fmt_sprint (AnyBool b) = (if b then ''true'' else ''false'')"
| "fmt_sprint (AnyNumber t) = t"

record placeholder =
  ph_name :: string
  ph_type :: string
  ph_required :: bool
  ph_encoding :: string
  ph_default :: "any_value option"
  ph_regenerable :: "bool option"
  ph_sensitive :: bool

record catalog_port =
  port_service :: string
  port_container :: int
  port_host :: int
  port_protocol :: string
  port_public :: bool
  port_host_range :: string
  port_container_range :: string

record image_pin =
  pin_service :: string
  pin_image :: string
  pin_tag :: string
  pin_digest :: string

record ipam_address =
  addr_service :: string
  addr_ipv4 :: string

record network_ipam =
  ipam_subnet :: string
  ipam_gateway :: string
  ipam_addresses :: "ipam_address list"

record network =
  net_name :: string
  net_internal :: bool
  net_ipam :: "network_ipam option"

record additional_file =
  af_src :: string
  af_dest :: string
  af_mode :: string
  af_mount :: string

record sysctl =
  sysctl_name :: string
  sysctl_value :: string

record capabilities =
  cap_add :: "string list"

record nofile_limit =
  nofile_soft :: int
  nofile_hard :: int

record ulimits =
  ul_nofile :: "nofile_limit option"

record service_hardening =
  hard_service :: string
  hard_capabilities :: "capabilities option"
  hard_sysctls :: "sysctl list"
  hard_devices :: "string list"
  hard_privileged :: bool
  hard_ulimits :: "ulimits option"
  hard_host_module_mount :: bool

record socket_proxy =
  sp_enabled :: bool
  sp_service :: string
  sp_allowed_api :: "string list"
  sp_network :: string

record config_generation_artifact =
  cg_template :: string
  cg_dest :: string
  cg_mode :: string
  cg_mount :: string

record memory_band =
  mem_min :: string
  mem_recommended :: string
  mem_max :: string

record cpu_band =
  cpu_min :: string
  cpu_recommended :: string
  cpu_max :: string

record pids_band =
  pids_default :: int
  pids_max :: int

record resource_profile =
  rp_service :: string
  rp_memory :: memory_band
  rp_cpus :: cpu_band
  rp_pids :: pids_band
  rp_allow_override :: bool

record pangolin_guidance =
  pg_target_url :: string
  pg_recommended_subdomain :: string
  pg_notes :: "string list"

record supported_versions =
  sv_docker :: string
  sv_compose :: string

record app =
  app_id :: string
  app_name :: string
  app_summary :: string
  app_description :: string
  app_template_name :: string
  app_template_version :: string
  app_compose_template :: string
  app_env_template :: string
  app_placeholders :: "placeholder list"
  app_supported_versions :: supported_versions
  app_ports :: "catalog_port list"
  app_image_pins :: "image_pin list"
  app_networks :: "network list"
  app_additional_files :: "additional_file list"
  app_resources :: "resource_profile list"
  app_service_hardening :: "service_hardening list"
  app_socket_proxy :: "socket_proxy option"
  app_config_generation :: "config_generation_artifact list"
  app_local_target_url_template :: string
  app_pangolin_guidance :: pangolin_guidance
  app_first_run_notes :: "string list"
  app_completed_services :: "string list"
  app_risk_classification :: "string list"

record catalog_doc =
  cat_schema_version :: int
  cat_channel :: string
  cat_generated_at :: string
  cat_apps :: "app list"

text \<open>The Go zero value of an app, which the concrete examples of the development start from.\<close>

definition zero_app :: app where
  "zero_app = \<lparr>
     app_id = [], app_name = [], app_summary = [], app_description = [],
     app_template_name = [], app_template_version = [], app_compose_template = [],
     app_env_template = [], app_placeholders = [],
     app_supported_versions = \<lparr>sv_docker = [], sv_compose = []\<rparr>,
     app_ports = [], app_image_pins = [], app_networks = [], app_additional_files = [],
     app_resources = [], app_service_hardening = [], app_socket_proxy = None,
     app_config_generation = [], app_local_target_url_template = [],
     app_pangolin_guidance =
       \<lparr>pg_target_url = [], pg_recommended_subdomain = [], pg_notes = []\<rparr>,
     app_first_run_notes = [], app_completed_services = [], app_risk_classification = []\<rparr>"

definition zero_port :: catalog_port where
  "zero_port = \<lparr>port_service = [], port_container = 0, port_host = 0, port_protocol = [],
     port_public = False, port_host_range = [], port_container_range = []\<rparr>"

definition zero_hardening :: service_hardening where
  "zero_hardening = \<lparr>hard_service = [], hard_capabilities = None, hard_sysctls = [],
     hard_devices = [], hard_privileged = False, hard_ulimits = None,
     hard_host_module_mount = False\<rparr>"

end
