(* ===== verification/Compose_Yaml.thy ===== *)
theory Compose_Yaml
  imports Go_Strings
begin

text \<open>
  How the verification passes read the rendered \<open>docker-compose.yml\<close>
  (\<open>internal/core/install_phase_validate.go\<close>, the \<open>compose*Projection\<close> types and their
  \<open>UnmarshalYAML\<close> methods).

  The parser gopkg.in/yaml.v3 is not part of the repository, so it is a parameter, a
  \<open>yaml_lib\<close>: for each projection type, the services it decodes from the bytes (\<open>None\<close> when
  \<open>yaml.Unmarshal\<close> fails), where a field with an \<open>UnmarshalYAML\<close> method holds the node the library
  hands to that method, \<open>None\<close> for a null or absent node, which the library leaves at the zero value
  without calling it; and, for each struct a method decodes a node into, the result of
  \<open>node.Decode\<close>. Nothing is assumed of these functions.
\<close>

datatype yaml_node =
    ScalarNode string
  | MappingNode "(yaml_node \<times> yaml_node) list"
  | SequenceNode "yaml_node list"
  | AliasNode string
  | DocumentNode "yaml_node list"

subsection \<open>Decoded shapes\<close>

record composePortLong =
  long_host_ip :: string
  long_published :: string
  long_target :: string
  long_protocol :: string

record composePortEntry =
  pe_host_ip :: string
  pe_published :: string
  pe_protocol :: string
  pe_raw :: string

record composePortsService =
  ps_ports :: "composePortEntry list"
  ps_network_mode :: string

record composePrivilegeService =
  pv_cap_add :: "string list"
  pv_cap_drop :: "string list"
  pv_sysctls :: "(string, string) gomap"
  pv_devices :: "string list"
  pv_privileged :: bool

record composeModuleVolume =
  mv_source :: string
  mv_target :: string
  mv_read_only :: bool

text \<open>What the library decodes before any method of the source runs.\<close>

record raw_ports_service =
  raw_ports :: "yaml_node option list"
  raw_network_mode :: string

record raw_privilege_service =
  raw_cap_add :: "string list"
  raw_cap_drop :: "string list"
  raw_sysctls :: "yaml_node option"
  raw_devices :: "string list"
  raw_privileged :: bool

record yaml_lib =
  um_images :: "string \<Rightarrow> (string, string) gomap option"
  um_ports :: "string \<Rightarrow> (string, raw_ports_service) gomap option"
  um_privilege :: "string \<Rightarrow> (string, raw_privilege_service) gomap option"
  um_volumes :: "string \<Rightarrow> (string, yaml_node option list) gomap option"
  um_networks :: "string \<Rightarrow> (string, yaml_node option) gomap option"
  dec_port_long :: "yaml_node \<Rightarrow> composePortLong option"
  dec_string :: "yaml_node \<Rightarrow> string option"
  dec_string_list :: "yaml_node \<Rightarrow> string list option"
  dec_string_map :: "yaml_node \<Rightarrow> (string, string) gomap option"
  dec_source :: "yaml_node \<Rightarrow> string option"
  dec_module :: "yaml_node \<Rightarrow> composeModuleVolume option"
  dec_attachments :: "yaml_node \<Rightarrow> (string, string) gomap option"

subsection \<open>Decoding the services\<close>

text \<open>A map is decoded value by value; one failing value fails the whole \<open>Unmarshal\<close>.\<close>

fun decode_list :: "('a \<Rightarrow> 'b option) \<Rightarrow> 'a list \<Rightarrow> 'b list option" where
  "decode_list f [] = Some []"
| "decode_list f (x # xs) =
     (case f x of None \<Rightarrow> None
      | Some y \<Rightarrow> (case decode_list f xs of None \<Rightarrow> None | Some ys \<Rightarrow> Some (y # ys)))"

fun decode_map :: "('a \<Rightarrow> 'b option) \<Rightarrow> ('k, 'a) gomap \<Rightarrow> ('k, 'b) gomap option" where
  "decode_map f [] = Some []"
| "decode_map f ((k, x) # xs) =
     (case f x of None \<Rightarrow> None
      | Some y \<Rightarrow> (case decode_map f xs of None \<Rightarrow> None | Some ys \<Rightarrow> Some ((k, y) # ys)))"

text \<open>A node that may be null: the zero value, or the method's result.\<close>

definition decode_node :: "'a \<Rightarrow> (yaml_node \<Rightarrow> 'a option) \<Rightarrow> yaml_node option \<Rightarrow> 'a option" where
  "decode_node zero f n = (case n of None \<Rightarrow> Some zero | Some node \<Rightarrow> f node)"

lemma decode_map_keys: "decode_map f m = Some m' \<Longrightarrow> map fst m' = map fst m"
  by (induction f m arbitrary: m' rule: decode_map.induct) (auto split: option.splits)

lemma decode_map_lookup:
  "decode_map f m = Some m' \<Longrightarrow> map_of m' k = Option.bind (map_of m k) f"
  by (induction f m arbitrary: m' rule: decode_map.induct) (auto split: option.splits)

lemma decode_map_None:
  "decode_map f m = None \<longleftrightarrow> (\<exists>(k, x) \<in> set m. f x = None)"
  by (induction f m rule: decode_map.induct) (auto split: option.splits)

lemma decode_list_length: "decode_list f xs = Some ys \<Longrightarrow> length ys = length xs"
  by (induction xs arbitrary: ys) (auto split: option.splits)

lemma decode_list_map: "decode_list f xs = Some ys \<Longrightarrow> map f xs = map Some ys"
  by (induction xs arbitrary: ys) (auto split: option.splits)

lemma decode_list_None: "decode_list f xs = None \<longleftrightarrow> (\<exists>x \<in> set xs. f x = None)"
  by (induction xs) (auto split: option.splits)

subsection \<open>Ports\<close>

text \<open>\<open>parseShortPort\<close>: host IP, published port or range, protocol.\<close>

definition parseShortPort :: "string \<Rightarrow> string \<times> string \<times> string" where
  "parseShortPort value =
     (let (spec, proto, hasProto) = cut (CHR ''/'') value;
          protocol = (if hasProto then proto else [])
      in case split_on (CHR '':'') spec of
           [a, b, c] \<Rightarrow> (a, b, protocol)
         | [a, b] \<Rightarrow> ([], a, protocol)
         | _ \<Rightarrow> ([], spec, protocol))"

fun unmarshalPortEntry :: "yaml_lib \<Rightarrow> yaml_node \<Rightarrow> composePortEntry option" where
  "unmarshalPortEntry lib (ScalarNode v) =
     (case parseShortPort v of (ip, pub, proto) \<Rightarrow>
        Some \<lparr>pe_host_ip = ip, pe_published = pub, pe_protocol = proto, pe_raw = v\<rparr>)"
| "unmarshalPortEntry lib (MappingNode kvs) =
     (case dec_port_long lib (MappingNode kvs) of
        None \<Rightarrow> None
      | Some long \<Rightarrow>
          (let published = (if long_published long = [] then long_target long else long_published long)
           in Some \<lparr>pe_host_ip = long_host_ip long, pe_published = published,
                    pe_protocol = long_protocol long,
                    pe_raw = long_host_ip long @ '':'' @ published @ ''/'' @ long_protocol long\<rparr>))"
| "unmarshalPortEntry lib _ = None"

definition zero_port_entry :: composePortEntry where
  "zero_port_entry = \<lparr>pe_host_ip = [], pe_published = [], pe_protocol = [], pe_raw = []\<rparr>"

definition decode_ports :: "yaml_lib \<Rightarrow> string \<Rightarrow> (string, composePortsService) gomap option" where
  "decode_ports lib bytes =
     (case um_ports lib bytes of None \<Rightarrow> None
      | Some raw \<Rightarrow>
          decode_map (\<lambda>s.
            case decode_list (decode_node zero_port_entry (unmarshalPortEntry lib)) (raw_ports s) of
              None \<Rightarrow> None
            | Some ps \<Rightarrow> Some \<lparr>ps_ports = ps, ps_network_mode = raw_network_mode s\<rparr>) raw)"

subsection \<open>Sysctls\<close>

text \<open>\<open>composeSysctls.UnmarshalYAML\<close>: a mapping, or a sequence of \<open>name=value\<close> items.\<close>

fun sysctl_items :: "(string, string) gomap \<Rightarrow> string list \<Rightarrow> (string, string) gomap option" where
  "sysctl_items m [] = Some m"
| "sysctl_items m (item # items) =
     (case cut (CHR ''='') item of (name, v, ok) \<Rightarrow>
        (if ok then sysctl_items (AList.update name v m) items else None))"

fun unmarshalSysctls :: "yaml_lib \<Rightarrow> yaml_node \<Rightarrow> (string, string) gomap option" where
  "unmarshalSysctls lib (MappingNode kvs) = dec_string_map lib (MappingNode kvs)"
| "unmarshalSysctls lib (SequenceNode ns) =
     (case dec_string_list lib (SequenceNode ns) of
        None \<Rightarrow> None | Some items \<Rightarrow> sysctl_items [] items)"
| "unmarshalSysctls lib _ = None"

definition decode_privilege ::
  "yaml_lib \<Rightarrow> string \<Rightarrow> (string, composePrivilegeService) gomap option" where
  "decode_privilege lib bytes =
     (case um_privilege lib bytes of None \<Rightarrow> None
      | Some raw \<Rightarrow>
          decode_map (\<lambda>s.
            case decode_node [] (unmarshalSysctls lib) (raw_sysctls s) of
              None \<Rightarrow> None
            | Some sys \<Rightarrow> Some \<lparr>pv_cap_add = raw_cap_add s, pv_cap_drop = raw_cap_drop s,
                pv_sysctls = sys, pv_devices = raw_devices s, pv_privileged = raw_privileged s\<rparr>) raw)"

lemma sysctl_items_lookup:
  "sysctl_items m items = Some m' \<Longrightarrow>
   map_of m' k = (case filter (\<lambda>i. fst (cut (CHR ''='') i) = k) (rev items) of
      [] \<Rightarrow> map_of m k | i # _ \<Rightarrow> Some (fst (snd (cut (CHR ''='') i))))"
  by (induction m items rule: sysctl_items.induct)
    (auto split: prod.splits if_splits list.splits simp: Cons_eq_append_conv append_eq_Cons_conv)

lemma sysctl_items_distinct:
  "sysctl_items m items = Some m' \<Longrightarrow> distinct (map fst m) \<Longrightarrow> distinct (map fst m')"
  by (induction m items rule: sysctl_items.induct)
    (auto split: prod.splits if_splits simp: distinct_update)

subsection \<open>Volumes\<close>

text \<open>\<open>composeVolume.UnmarshalYAML\<close>: the host-side source of a volume entry.\<close>

fun unmarshalVolume :: "yaml_lib \<Rightarrow> yaml_node \<Rightarrow> string option" where
  "unmarshalVolume lib (ScalarNode v) =
     (case dec_string lib (ScalarNode v) of None \<Rightarrow> None
      | Some raw \<Rightarrow> Some (fst (cut (CHR '':'') raw)))"
| "unmarshalVolume lib (MappingNode kvs) = dec_source lib (MappingNode kvs)"
| "unmarshalVolume lib _ = None"

definition decode_socket :: "yaml_lib \<Rightarrow> string \<Rightarrow> (string, string list) gomap option" where
  "decode_socket lib bytes =
     (case um_volumes lib bytes of None \<Rightarrow> None
      | Some raw \<Rightarrow> decode_map (decode_list (decode_node [] (unmarshalVolume lib))) raw)"

text \<open>\<open>shortVolumeModeIsReadOnly\<close>: some element of the mode list is \<open>ro\<close>.\<close>

definition shortVolumeModeIsReadOnly :: "string \<Rightarrow> bool" where
  "shortVolumeModeIsReadOnly mode =
     list_ex (\<lambda>part. equal_fold_ascii (trim_space part) ''ro'') (split_on (CHR '','') mode)"

fun unmarshalModuleVolume :: "yaml_lib \<Rightarrow> yaml_node \<Rightarrow> composeModuleVolume option" where
  "unmarshalModuleVolume lib (ScalarNode v) =
     (case dec_string lib (ScalarNode v) of None \<Rightarrow> None
      | Some raw \<Rightarrow>
          (case cut (CHR '':'') raw of (source, rest, hasRest) \<Rightarrow>
             (if hasRest then
                (case cut (CHR '':'') rest of (target, mode, hasMode) \<Rightarrow>
                   Some \<lparr>mv_source = source, mv_target = target,
                         mv_read_only = (hasMode \<and> shortVolumeModeIsReadOnly mode)\<rparr>)
              else Some \<lparr>mv_source = source, mv_target = [], mv_read_only = False\<rparr>)))"
| "unmarshalModuleVolume lib (MappingNode kvs) = dec_module lib (MappingNode kvs)"
| "unmarshalModuleVolume lib _ = None"

definition zero_module_volume :: composeModuleVolume where
  "zero_module_volume = \<lparr>mv_source = [], mv_target = [], mv_read_only = False\<rparr>"

definition decode_module :: "yaml_lib \<Rightarrow> string \<Rightarrow> (string, composeModuleVolume list) gomap option" where
  "decode_module lib bytes =
     (case um_volumes lib bytes of None \<Rightarrow> None
      | Some raw \<Rightarrow>
          decode_map (decode_list (decode_node zero_module_volume (unmarshalModuleVolume lib))) raw)"

subsection \<open>Networks\<close>

text \<open>\<open>composeServiceNetworks.UnmarshalYAML\<close>: attached networks with their static address.\<close>

fun unmarshalServiceNetworks :: "yaml_lib \<Rightarrow> yaml_node \<Rightarrow> (string, string) gomap option" where
  "unmarshalServiceNetworks lib (SequenceNode ns) =
     (case dec_string_list lib (SequenceNode ns) of None \<Rightarrow> None
      | Some names \<Rightarrow> Some (foldl (\<lambda>m name. AList.update name [] m) [] names))"
| "unmarshalServiceNetworks lib (MappingNode kvs) = dec_attachments lib (MappingNode kvs)"
| "unmarshalServiceNetworks lib _ = None"

definition decode_ipam :: "yaml_lib \<Rightarrow> string \<Rightarrow> (string, (string, string) gomap) gomap option" where
  "decode_ipam lib bytes =
     (case um_networks lib bytes of None \<Rightarrow> None
      | Some raw \<Rightarrow> decode_map (decode_node [] (unmarshalServiceNetworks lib)) raw)"

lemma keys_foldl_update:
  "keys_of (foldl (\<lambda>m name. AList.update name v m) m names) = keys_of m \<union> set names"
  by (induction names arbitrary: m) auto

end
