(* ===== verification/Demo_Stack.thy ===== *)
theory Demo_Stack
  imports Catalog Compose_Yaml
begin

text \<open>
  One concrete app and one concrete rendered compose, on which the verification passes are evaluated:
  a VPN service with a public UDP port, an added capability, a sysctl, a kernel-module mount and a
  static address; a socket proxy on an internal network; a seed job that is completed by design. The
  YAML decoder of the example reads scalars, lists and maps of scalars from the node tree.
\<close>

definition demo_compose :: string where
  "demo_compose = ''services''"

fun scalar_text :: "yaml_node \<Rightarrow> string option" where
  "scalar_text (ScalarNode v) = Some v"
| "scalar_text _ = None"

fun scalar_list :: "yaml_node \<Rightarrow> string list option" where
  "scalar_list (SequenceNode ns) = decode_list scalar_text ns"
| "scalar_list _ = None"

fun attachment_address :: "yaml_node \<Rightarrow> string option" where
  "attachment_address (MappingNode [(ScalarNode k, ScalarNode v)]) =
     (if k = ''ipv4_address'' then Some v else Some [])"
| "attachment_address _ = None"

fun attachments :: "yaml_node \<Rightarrow> (string, string) gomap option" where
  "attachments (MappingNode kvs) =
     decode_list (\<lambda>(k, v). case (scalar_text k, attachment_address v) of
        (Some name, Some ip) \<Rightarrow> Some (name, ip) | _ \<Rightarrow> None) kvs"
| "attachments _ = None"

definition only_demo :: "'a \<Rightarrow> string \<Rightarrow> 'a option" where
  "only_demo v bytes = (if bytes = demo_compose then Some v else None)"

definition demo_yaml :: yaml_lib where
  "demo_yaml = \<lparr>
     um_images = only_demo [(''vpn'', ''vpn:1''), (''proxy'', ''px:1''), (''seed'', ''seed:1'')],
     um_ports = only_demo
       [(''vpn'', \<lparr>raw_ports = [Some (ScalarNode ''51820:51820/udp'')], raw_network_mode = []\<rparr>),
        (''proxy'', \<lparr>raw_ports = [], raw_network_mode = []\<rparr>),
        (''seed'', \<lparr>raw_ports = [], raw_network_mode = []\<rparr>)],
     um_privilege = only_demo
       [(''vpn'', \<lparr>raw_cap_add = [''CAP_NET_ADMIN''], raw_cap_drop = [''ALL''],
           raw_sysctls = Some (SequenceNode [ScalarNode ''net.ipv4.ip_forward=1'']),
           raw_devices = [], raw_privileged = False\<rparr>),
        (''proxy'', \<lparr>raw_cap_add = [], raw_cap_drop = [''ALL''], raw_sysctls = None,
           raw_devices = [], raw_privileged = False\<rparr>),
        (''seed'', \<lparr>raw_cap_add = [], raw_cap_drop = [''ALL''], raw_sysctls = None,
           raw_devices = [], raw_privileged = False\<rparr>)],
     um_volumes = only_demo
       [(''vpn'', [Some (ScalarNode ''/lib/modules:/lib/modules:ro'')]),
        (''proxy'', [Some (ScalarNode ''/var/run/docker.sock:/var/run/docker.sock:ro'')]),
        (''seed'', [])],
     um_networks = only_demo
       [(''vpn'', Some (MappingNode [(ScalarNode ''net'',
           MappingNode [(ScalarNode ''ipv4_address'', ScalarNode ''10.8.0.2'')])])),
        (''proxy'', Some (SequenceNode [ScalarNode ''sock''])),
        (''seed'', None)],
     dec_port_long = (\<lambda>_. None), dec_string = scalar_text, dec_string_list = scalar_list,
     dec_string_map = (\<lambda>_. None), dec_source = (\<lambda>_. None), dec_module = (\<lambda>_. None),
     dec_attachments = attachments\<rparr>"

definition demo_pin :: "string \<Rightarrow> string \<Rightarrow> image_pin" where
  "demo_pin service img = \<lparr>pin_service = service, pin_image = img, pin_tag = ''1'', pin_digest = []\<rparr>"

definition demo_app :: app where
  "demo_app = zero_app\<lparr>app_id := ''wg'',
     app_ports := [zero_port\<lparr>port_service := ''vpn'', port_container := 51820, port_host := 51820,
       port_protocol := ''udp'', port_public := True\<rparr>],
     app_image_pins := [demo_pin ''vpn'' ''vpn'', demo_pin ''proxy'' ''px'', demo_pin ''seed'' ''seed''],
     app_networks :=
       [\<lparr>net_name = ''net'', net_internal = False, net_ipam = Some \<lparr>ipam_subnet = ''10.8.0.0/24'',
          ipam_gateway = ''10.8.0.1'',
          ipam_addresses = [\<lparr>addr_service = ''vpn'', addr_ipv4 = ''10.8.0.2''\<rparr>]\<rparr>\<rparr>,
        \<lparr>net_name = ''sock'', net_internal = True, net_ipam = None\<rparr>],
     app_service_hardening := [zero_hardening\<lparr>hard_service := ''vpn'',
       hard_capabilities := Some \<lparr>cap_add = [''NET_ADMIN'']\<rparr>,
       hard_sysctls := [\<lparr>sysctl_name = ''net.ipv4.ip_forward'', sysctl_value = ''1''\<rparr>],
       hard_host_module_mount := True\<rparr>],
     app_socket_proxy := Some \<lparr>sp_enabled = True, sp_service = ''proxy'',
       sp_allowed_api = [''CONTAINERS''], sp_network = ''sock''\<rparr>,
     app_completed_services := [''seed'']\<rparr>"

lemmas demo_defs = demo_app_def demo_pin_def zero_app_def zero_port_def zero_hardening_def

subsection \<open>What the projections of the example are\<close>

lemma demo_images:
  "um_images demo_yaml demo_compose
     = Some [(''vpn'', ''vpn:1''), (''proxy'', ''px:1''), (''seed'', ''seed:1'')]"
  by (simp add: demo_yaml_def only_demo_def)

lemma demo_ports:
  "decode_ports demo_yaml demo_compose = Some
     [(''vpn'', \<lparr>ps_ports = [\<lparr>pe_host_ip = [], pe_published = ''51820'', pe_protocol = ''udp'',
         pe_raw = ''51820:51820/udp''\<rparr>], ps_network_mode = []\<rparr>),
      (''proxy'', \<lparr>ps_ports = [], ps_network_mode = []\<rparr>),
      (''seed'', \<lparr>ps_ports = [], ps_network_mode = []\<rparr>)]"
  by (simp add: decode_ports_def demo_yaml_def only_demo_def decode_node_def parseShortPort_def cut_def)

lemma demo_privilege:
  "decode_privilege demo_yaml demo_compose = Some
     [(''vpn'', \<lparr>pv_cap_add = [''CAP_NET_ADMIN''], pv_cap_drop = [''ALL''],
         pv_sysctls = [(''net.ipv4.ip_forward'', ''1'')], pv_devices = [], pv_privileged = False\<rparr>),
      (''proxy'', \<lparr>pv_cap_add = [], pv_cap_drop = [''ALL''], pv_sysctls = [], pv_devices = [],
         pv_privileged = False\<rparr>),
      (''seed'', \<lparr>pv_cap_add = [], pv_cap_drop = [''ALL''], pv_sysctls = [], pv_devices = [],
         pv_privileged = False\<rparr>)]"
  by (simp add: decode_privilege_def demo_yaml_def only_demo_def decode_node_def cut_def)

lemma demo_sources:
  "decode_socket demo_yaml demo_compose = Some
     [(''vpn'', [''/lib/modules'']), (''proxy'', [''/var/run/docker.sock'']), (''seed'', [])]"
  by (simp add: decode_socket_def demo_yaml_def only_demo_def decode_node_def cut_def)

lemma demo_modules:
  "decode_module demo_yaml demo_compose = Some
     [(''vpn'', [\<lparr>mv_source = ''/lib/modules'', mv_target = ''/lib/modules'', mv_read_only = True\<rparr>]),
      (''proxy'', [\<lparr>mv_source = ''/var/run/docker.sock'', mv_target = ''/var/run/docker.sock'',
         mv_read_only = True\<rparr>]),
      (''seed'', [])]"
  by (simp add: decode_module_def demo_yaml_def only_demo_def decode_node_def cut_def
      shortVolumeModeIsReadOnly_def trim_eval case_eval)

lemma demo_networks:
  "decode_ipam demo_yaml demo_compose = Some
     [(''vpn'', [(''net'', ''10.8.0.2'')]), (''proxy'', [(''sock'', [])]), (''seed'', [])]"
  by (simp add: decode_ipam_def demo_yaml_def only_demo_def decode_node_def)

end
