(* ===== verification/Verify_Contract.thy ===== *)
theory Verify_Contract
  imports Wdm_Prelude
begin

text \<open>
  The contract every verification pass of \<open>renderInstall\<close> and \<open>rewriteUpdateStack\<close> is written
  against: a pass reads its input and returns nil or an error; nil means a stated policy holds, and
  every refusal has the exit-code class \<open>ErrCodeVerificationFailed\<close>. The passes are composed by
  early return, and the composition keeps the contract (\<open>policy_pair\<close>).
\<close>

locale policy =
  fixes check :: "'x \<Rightarrow> 'r wdm_error option"
    and holds :: "'x \<Rightarrow> bool"
  assumes accepts: "check x = None \<longleftrightarrow> holds x"
    and fails_closed: "errs_in verification_class (check x)"
begin

lemma refuses: "\<not> holds x \<Longrightarrow> \<exists>e. check x = Some e \<and> verification_class e"
proof -
  assume "\<not> holds x"
  then obtain e where e: "check x = Some e" using accepts by (cases "check x") auto
  with fails_closed show ?thesis by (auto dest: errs_inD)
qed

lemma refusal_status: "check x = Some e \<Longrightarrow> map_option exit_status (code_of e) = Some 3"
proof -
  assume "check x = Some e"
  with fails_closed have "verification_class e" by (rule errs_inD)
  then show ?thesis by (simp add: verification_class_def)
qed

end

text \<open>Two passes over the same input, run one after the other.\<close>

locale policy_pair = p: policy check1 holds1 + q: policy check2 holds2
  for check1 :: "'x \<Rightarrow> 'r wdm_error option" and holds1
    and check2 :: "'x \<Rightarrow> 'r wdm_error option" and holds2
begin

lemma pair_accepts: "or_else (check1 x) (check2 x) = None \<longleftrightarrow> holds1 x \<and> holds2 x"
  by (simp add: or_else_None p.accepts q.accepts)

lemma pair_fails_closed: "errs_in verification_class (or_else (check1 x) (check2 x))"
  by (intro errs_in_or_else p.fails_closed q.fails_closed)

lemma pair_order: "\<not> holds1 x \<Longrightarrow> or_else (check1 x) (check2 x) = check1 x"
  using p.refuses [of x] by (auto simp: or_else_def)

end

sublocale policy_pair \<subseteq> both: policy "\<lambda>x. or_else (check1 x) (check2 x)" "\<lambda>x. holds1 x \<and> holds2 x"
  by unfold_locales (rule pair_accepts, rule pair_fails_closed)

text \<open>Renaming the reasons of a pass changes neither what it accepts nor its error class.\<close>

definition lift_check :: "('r \<Rightarrow> 's) \<Rightarrow> 'r wdm_error option \<Rightarrow> 's wdm_error option" where
  "lift_check f a = map_option (map_wdm_error f) a"

lemma lift_check_None [err_simps]: "lift_check f a = None \<longleftrightarrow> a = None"
  by (simp add: lift_check_def)

lemma lift_check_class [intro!]:
  "errs_in verification_class a \<Longrightarrow> errs_in verification_class (lift_check f a)"
  by (cases a) (simp_all add: lift_check_def verification_class_def)

end
