(* ===== verification/Image_Pins.thy ===== *)
theory Image_Pins
  imports Demo_Stack Catalog Compose_Yaml Verify_Contract
begin

text \<open>
  \<open>verifyImagePinsMatchTemplate\<close>: every service the catalog pins is deployed by the rendered compose
  with exactly the pinned image reference.
\<close>

datatype pins_reason =
    PinsUnparsed string
  | PinServiceAbsent string string string
  | PinImageMismatch string string string string

definition updateImageRef :: "string \<Rightarrow> string \<Rightarrow> string" where
  "updateImageRef img tag = (if tag = [] then img else img @ '':'' @ tag)"

text \<open>The loop over the pins; \<open>seen\<close> are the services met before.\<close>

fun verify_pins :: "string \<Rightarrow> (string, string) gomap \<Rightarrow> string list \<Rightarrow> image_pin list
    \<Rightarrow> pins_reason wdm_error option" where
  "verify_pins aid services seen [] = None"
| "verify_pins aid services seen (pin # pins) =
     (if pin_service pin = [] then verify_pins aid services seen pins
      else if pin_service pin \<in> set seen then verify_pins aid services seen pins
      else
        (let seen' = pin_service pin # seen;
             pinnedRef = updateImageRef (pin_image pin) (pin_tag pin)
         in case map_of services (pin_service pin) of
              None \<Rightarrow> Some (RedactedVerification (PinServiceAbsent aid pinnedRef (pin_service pin)))
            | Some img \<Rightarrow>
                (if img \<noteq> pinnedRef
                 then Some (RedactedVerification
                   (PinImageMismatch aid (pin_service pin) pinnedRef img))
                 else verify_pins aid services seen' pins)))"

definition verifyImagePinsMatchTemplate ::
  "yaml_lib \<Rightarrow> app \<Rightarrow> string \<Rightarrow> pins_reason wdm_error option" where
  "verifyImagePinsMatchTemplate lib a bytes =
     (case um_images lib bytes of
        None \<Rightarrow> Some (RedactedVerification (PinsUnparsed (app_id a)))
      | Some services \<Rightarrow> verify_pins (app_id a) services [] (app_image_pins a))"

text \<open>
  The policy: for every named service, the first pin of that service is the reference the compose
  deploys for it.
\<close>

definition pins_match :: "(string, string) gomap \<Rightarrow> image_pin list \<Rightarrow> bool" where
  "pins_match services pins \<longleftrightarrow>
     (\<forall>svc pin. svc \<noteq> [] \<longrightarrow> List.find (\<lambda>p. pin_service p = svc) pins = Some pin \<longrightarrow>
        map_of services svc = Some (updateImageRef (pin_image pin) (pin_tag pin)))"

definition pins_policy :: "yaml_lib \<Rightarrow> app \<times> string \<Rightarrow> bool" where
  "pins_policy lib x = (case x of (a, bytes) \<Rightarrow>
     \<exists>services. um_images lib bytes = Some services \<and> pins_match services (app_image_pins a))"

lemma verify_pins_None:
  "verify_pins aid services seen pins = None \<longleftrightarrow>
     (\<forall>svc pin. svc \<noteq> [] \<longrightarrow> svc \<notin> set seen \<longrightarrow>
        List.find (\<lambda>p. pin_service p = svc) pins = Some pin \<longrightarrow>
        map_of services svc = Some (updateImageRef (pin_image pin) (pin_tag pin)))"
proof (induction aid services seen pins rule: verify_pins.induct)
  case (2 aid services seen pin pins)
  consider "pin_service pin = []" | "pin_service pin \<noteq> []" "pin_service pin \<in> set seen"
    | "pin_service pin \<noteq> []" "pin_service pin \<notin> set seen"
    by blast
  then show ?case
  proof cases
    case 1
    then show ?thesis using "2.IH"(1) by auto
  next
    case 2
    then show ?thesis using "2.IH"(2) by auto
  next
    case 3
    let ?ref = "updateImageRef (pin_image pin) (pin_tag pin)"
    show ?thesis
    proof (cases "map_of services (pin_service pin) = Some ?ref")
      case True
      with 3 have "verify_pins aid services seen (pin # pins) =
          verify_pins aid services (pin_service pin # seen) pins"
        by simp
      with "2.IH"(3) [OF 3] True show ?thesis by auto
    next
      case False
      with 3 have "verify_pins aid services seen (pin # pins) \<noteq> None"
        by (auto simp: Let_def split: option.splits)
      with False 3 show ?thesis by fastforce
    qed
  qed
qed simp

lemma verify_pins_class: "errs_in verification_class (verify_pins aid services seen pins)"
  by (induction aid services seen pins rule: verify_pins.induct)
    (auto simp: Let_def split: option.splits)

lemma pins_accepts: "verifyImagePinsMatchTemplate lib a bytes = None \<longleftrightarrow> pins_policy lib (a, bytes)"
  by (auto simp: verifyImagePinsMatchTemplate_def pins_policy_def verify_pins_None pins_match_def
      split: option.splits)

lemma pins_class: "errs_in verification_class (verifyImagePinsMatchTemplate lib a bytes)"
  by (auto simp: verifyImagePinsMatchTemplate_def verify_pins_class split: option.splits)

interpretation pins: policy "\<lambda>(a, bytes). verifyImagePinsMatchTemplate lib a bytes" "pins_policy lib"
  for lib
  by unfold_locales (auto simp: pins_accepts pins_class)

subsection \<open>Properties\<close>

text \<open>
  The image check accepts a rendered compose exactly when every service that a catalog pin names
  is deployed with the reference of its first pin; a missing service, a different reference or an
  unreadable compose is refused.
\<close>

lemma image_pins_enforced:
  "verifyImagePinsMatchTemplate lib a bytes = None \<longleftrightarrow>
     (\<exists>services. um_images lib bytes = Some services \<and> pins_match services (app_image_pins a))"
  using pins.accepts [of lib "(a, bytes)"] by (simp add: pins_policy_def)

lemma image_pins_enforced_witness:
  "verifyImagePinsMatchTemplate demo_yaml demo_app demo_compose = None"
proof -
  have "pins_match [(''vpn'', ''vpn:1''), (''proxy'', ''px:1''), (''seed'', ''seed:1'')] (app_image_pins demo_app)"
    by (auto simp: pins_match_def demo_defs updateImageRef_def split: if_splits)
  then show ?thesis by (simp add: image_pins_enforced demo_images)
qed

end
