(* ===== verification/Go_Strconv.thy ===== *)
theory Go_Strconv
  imports Go_Strings "HOL-Library.Word"
begin

text \<open>
  Go's \<open>strconv\<close> as the modelled code uses it: \<open>Atoi\<close> and \<open>Itoa\<close> on 64-bit \<open>int\<close>,
  \<open>ParseUint(s, 10, 64)\<close>, \<open>ParseBool\<close> and \<open>FormatBool\<close>. A parse error is \<open>None\<close>.
\<close>

subsection \<open>Decimal digits\<close>

definition digit_val :: "char \<Rightarrow> nat" where
  "digit_val c = byte c - 48"

fun dec_val :: "nat \<Rightarrow> string \<Rightarrow> nat option" where
  "dec_val acc [] = Some acc"
| "dec_val acc (c # cs) = (if is_digit c then dec_val (10 * acc + digit_val c) cs else None)"

definition parse_dec :: "string \<Rightarrow> nat option" where
  "parse_dec s = (if s = [] then None else dec_val 0 s)"

fun dec_digits :: "nat \<Rightarrow> string" where
  "dec_digits n =
     (if n < 10 then [char_of (48 + n)] else dec_digits (n div 10) @ [char_of (48 + n mod 10)])"

declare dec_digits.simps [simp del]

lemma dec_val_append:
  "dec_val a (xs @ ys) = (case dec_val a xs of None \<Rightarrow> None | Some b \<Rightarrow> dec_val b ys)"
  by (induction xs arbitrary: a) auto

lemma digit_char: "n < 10 \<Longrightarrow> is_digit (char_of (48 + n)) \<and> digit_val (char_of (48 + n)) = n"
  by (simp add: is_digit_def digit_val_def)

lemma dec_digits_not_Nil [simp]: "dec_digits n \<noteq> []"
  by (subst dec_digits.simps) simp

lemma dec_val_digits: "dec_val 0 (dec_digits n) = Some n"
proof (induction n rule: dec_digits.induct)
  case (1 n)
  show ?case
  proof (cases "n < 10")
    case True
    then show ?thesis by (subst dec_digits.simps) (simp add: digit_char)
  next
    case False
    have "n mod 10 < 10" by simp
    note d = digit_char [OF this]
    from False show ?thesis
      by (subst dec_digits.simps) (simp add: dec_val_append "1.IH" d)
  qed
qed

lemma parse_dec_digits [simp]: "parse_dec (dec_digits n) = Some n"
  by (simp add: parse_dec_def dec_val_digits)

lemma dec_digits_inject [simp]: "dec_digits m = dec_digits n \<longleftrightarrow> m = n"
  by (metis option.inject parse_dec_digits)

lemma dec_digits_are_digits: "c \<in> set (dec_digits n) \<Longrightarrow> is_digit c"
proof (induction n rule: dec_digits.induct)
  case (1 n)
  have d: "is_digit (char_of (48 + n mod 10))" by (rule digit_char [THEN conjunct1]) simp
  show ?case
  proof (cases "n < 10")
    case True
    with "1.prems" show ?thesis by (subst (asm) dec_digits.simps) (auto simp: digit_char)
  next
    case False
    with "1.prems" consider "c \<in> set (dec_digits (n div 10))" | "c = char_of (48 + n mod 10)"
      by (subst (asm) dec_digits.simps) auto
    then show ?thesis using "1.IH" False d by cases auto
  qed
qed

lemma not_digit [simp]:
  "\<not> is_digit (CHR ''-'')" "\<not> is_digit (CHR ''/'')" "\<not> is_digit (CHR ''+'')"
  "\<not> is_digit (CHR '':'')" "\<not> is_digit (CHR ''.'')"
  by (simp_all add: is_digit_def byte_def)

lemma dec_digits_free [simp]:
  "CHR ''-'' \<notin> set (dec_digits n)" "CHR ''/'' \<notin> set (dec_digits n)"
  "CHR ''+'' \<notin> set (dec_digits n)" "CHR '':'' \<notin> set (dec_digits n)"
  using dec_digits_are_digits not_digit by blast+

lemma parse_dec_digits_only: "parse_dec s = Some n \<Longrightarrow> s \<noteq> [] \<and> (\<forall>c \<in> set s. is_digit c)"
proof -
  have "dec_val a s = Some n \<Longrightarrow> \<forall>c \<in> set s. is_digit c" for a
    by (induction s arbitrary: a) (auto split: if_splits)
  then show "parse_dec s = Some n \<Longrightarrow> s \<noteq> [] \<and> (\<forall>c \<in> set s. is_digit c)"
    by (auto simp: parse_dec_def split: if_splits)
qed

subsection \<open>Atoi and Itoa\<close>

definition atoi :: "string \<Rightarrow> int option" where
  "atoi s = (case s of
      [] \<Rightarrow> None
    | c # r \<Rightarrow>
        (if c = CHR ''-'' then
           (case parse_dec r of None \<Rightarrow> None
            | Some n \<Rightarrow> if n \<le> 2 ^ 63 then Some (- int n) else None)
         else
           (case parse_dec (if c = CHR ''+'' then r else s) of None \<Rightarrow> None
            | Some n \<Rightarrow> if n < 2 ^ 63 then Some (int n) else None)))"

definition itoa :: "int \<Rightarrow> string" where
  "itoa i = (if i < 0 then CHR ''-'' # dec_digits (nat (- i)) else dec_digits (nat i))"

definition int64_range :: "int \<Rightarrow> bool" where
  "int64_range i \<longleftrightarrow> - (2 ^ 63) \<le> i \<and> i < 2 ^ 63"

lemma itoa_first: "0 \<le> i \<Longrightarrow> \<exists>d r. itoa i = d # r \<and> is_digit d"
proof -
  assume "0 \<le> i"
  obtain d r where "dec_digits (nat i) = d # r" by (cases "dec_digits (nat i)") auto
  moreover from this have "is_digit d" using dec_digits_are_digits [of d "nat i"] by simp
  ultimately show ?thesis using \<open>0 \<le> i\<close> by (simp add: itoa_def)
qed

lemma atoi_itoa: "int64_range i \<Longrightarrow> atoi (itoa i) = Some i"
proof (cases "i < 0")
  case True
  assume "int64_range i"
  with True show ?thesis by (simp add: itoa_def atoi_def int64_range_def)
next
  case False
  assume r: "int64_range i"
  from False have "0 \<le> i" by simp
  then obtain d ds where d: "itoa i = d # ds" "is_digit d" using itoa_first by blast
  then have "d \<noteq> CHR ''-''" "d \<noteq> CHR ''+''" by auto
  moreover have "parse_dec (d # ds) = Some (nat i)"
    using False d by (metis itoa_def parse_dec_digits)
  ultimately show ?thesis using r False d by (simp add: atoi_def int64_range_def nat_less_iff)
qed

lemma atoi_range: "atoi s = Some i \<Longrightarrow> int64_range i"
  by (auto simp: atoi_def int64_range_def split: list.splits if_splits option.splits)

lemma itoa_inject [simp]: "itoa i = itoa j \<longleftrightarrow> i = j"
proof
  assume eq: "itoa i = itoa j"
  show "i = j"
  proof (cases "i < 0"; cases "j < 0")
    assume "i < 0" "j < 0"
    with eq show ?thesis by (simp add: itoa_def)
  next
    assume "i < 0" "\<not> j < 0"
    with eq itoa_first [of j] show ?thesis by (auto simp: itoa_def)
  next
    assume "\<not> i < 0" "j < 0"
    with eq itoa_first [of i] show ?thesis by (auto simp: itoa_def)
  next
    assume "\<not> i < 0" "\<not> j < 0"
    with eq show ?thesis by (simp add: itoa_def)
  qed
qed simp

lemma itoa_free [simp]: "CHR ''/'' \<notin> set (itoa i)" "CHR '':'' \<notin> set (itoa i)"
  by (auto simp: itoa_def)

lemma itoa_nonneg_free [simp]: "0 \<le> i \<Longrightarrow> CHR ''-'' \<notin> set (itoa i)"
  by (simp add: itoa_def)

subsection \<open>ParseUint and ParseBool\<close>

definition parse_uint64 :: "string \<Rightarrow> 64 word option" where
  "parse_uint64 s = (case parse_dec s of None \<Rightarrow> None
     | Some n \<Rightarrow> if n < 2 ^ 64 then Some (word_of_nat n) else None)"

lemma parse_uint64_Some:
  "parse_uint64 s = Some w \<Longrightarrow> parse_dec s = Some (unat w)"
  by (auto simp: parse_uint64_def of_nat_inverse split: option.splits if_splits)

definition parse_bool :: "string \<Rightarrow> bool option" where
  "parse_bool s =
     (if s \<in> set [''1'', ''t'', ''T'', ''TRUE'', ''true'', ''True''] then Some True
      else if s \<in> set [''0'', ''f'', ''F'', ''FALSE'', ''false'', ''False''] then Some False
      else None)"

definition format_bool :: "bool \<Rightarrow> string" where
  "format_bool b = (if b then ''true'' else ''false'')"

lemma parse_format_bool [simp]: "parse_bool (format_bool b) = Some b"
  by (cases b) (simp_all add: parse_bool_def format_bool_def)

subsection \<open>Evaluation on literals\<close>

lemma digit_chars [go_eval]:
  "char_of (48::nat) = CHR ''0''" "char_of (49::nat) = CHR ''1''" "char_of (50::nat) = CHR ''2''"
  "char_of (51::nat) = CHR ''3''" "char_of (52::nat) = CHR ''4''" "char_of (53::nat) = CHR ''5''"
  "char_of (54::nat) = CHR ''6''" "char_of (55::nat) = CHR ''7''" "char_of (56::nat) = CHR ''8''"
  "char_of (57::nat) = CHR ''9''"
  by (simp_all add: char_of_eq_iff take_bit_eq_mod)

lemma dec_digits_numeral [go_eval]:
  "dec_digits 0 = ''0''" "dec_digits (Suc 0) = ''1''"
  "dec_digits (numeral k) =
     (if numeral k < (10::nat) then [char_of (48 + numeral k :: nat)]
      else dec_digits (numeral k div 10) @ [char_of (48 + numeral k mod 10 :: nat)])"
  by (subst dec_digits.simps, simp add: go_eval)+

declare itoa_def [go_eval] atoi_def [go_eval] parse_dec_def [go_eval] is_digit_def [go_eval]
  digit_val_def [go_eval] byte_def [go_eval]

end
