(* ===== verification/Port_Ranges.thy ===== *)
theory Port_Ranges
  imports Catalog Go_Strconv
begin

text \<open>
  Catalog port entries and their expansion into host bindings (\<open>parsePortRange\<close>,
  \<open>rangePortBindings\<close>, \<open>portBindings\<close> of \<open>internal/core/install_phase_plan.go\<close>,
  \<open>PortBinding\<close> of \<open>pkg/types/lifecycle.go\<close>). The bind interface comes from the catalog's
  \<open>public\<close> flag alone.
\<close>

record port_binding =
  pb_service :: string
  pb_host_ip :: string
  pb_host_port :: int
  pb_container_port :: int
  pb_protocol :: string

datatype range_reason =
    RangeMalformed string string
  | RangeNonNumeric string string
  | RangeOutOfBounds string string
  | RangeReversed string string

definition valid_port :: "int \<Rightarrow> bool" where
  "valid_port p \<longleftrightarrow> 1 \<le> p \<and> p \<le> 65535"

definition parsePortRange :: "string \<Rightarrow> string \<Rightarrow> range_reason wdm_error + int \<times> int" where
  "parsePortRange service spec =
     (case cut (CHR ''-'') spec of (before, after, ok) \<Rightarrow>
        (if \<not> ok then Inl (CatalogVerification (RangeMalformed service spec))
         else (case (atoi before, atoi after) of
             (Some lo, Some hi) \<Rightarrow>
               (if lo < 1 \<or> lo > 65535 \<or> hi < 1 \<or> hi > 65535
                then Inl (CatalogVerification (RangeOutOfBounds service spec))
                else if lo > hi then Inl (CatalogVerification (RangeReversed service spec))
                else Inr (lo, hi))
           | _ \<Rightarrow> Inl (CatalogVerification (RangeNonNumeric service spec)))))"

lemma parsePortRange_bounds:
  "parsePortRange service spec = Inr (lo, hi) \<Longrightarrow> valid_port lo \<and> valid_port hi \<and> lo \<le> hi"
  by (auto simp: parsePortRange_def valid_port_def split: prod.splits if_splits option.splits)

lemma parsePortRange_class: "parsePortRange service spec = Inl e \<Longrightarrow> verification_class e"
  by (auto simp: parsePortRange_def split: prod.splits if_splits option.splits)

lemma valid_port_int64: "valid_port p \<Longrightarrow> int64_range p"
  by (simp add: valid_port_def int64_range_def)

text \<open>The decimal form of a range reads back as the range.\<close>

lemma parsePortRange_print:
  assumes "valid_port lo" "valid_port hi" "lo \<le> hi"
  shows "parsePortRange service (itoa lo @ ''-'' @ itoa hi) = Inr (lo, hi)"
proof -
  have "0 \<le> lo" using assms(1) by (simp add: valid_port_def)
  then have "cut (CHR ''-'') (itoa lo @ CHR ''-'' # itoa hi) = (itoa lo, itoa hi, True)"
    by (intro cut_found) simp
  with assms show ?thesis
    by (simp add: parsePortRange_def atoi_itoa valid_port_int64) (simp add: valid_port_def)
qed

datatype ports_reason =
    PortInvalid string int int
  | PortRangeIncomplete string string string
  | PortRangeSpans string string string
  | PortRangeMixed string int int int int
  | PortRangeBad range_reason

definition rangePortBindings ::
  "catalog_port \<Rightarrow> string \<Rightarrow> string \<Rightarrow> ports_reason wdm_error + port_binding list" where
  "rangePortBindings p protocol hostIP =
     (if port_host_range p = [] \<or> port_container_range p = []
      then Inl (CatalogVerification
        (PortRangeIncomplete (port_service p) (port_host_range p) (port_container_range p)))
      else case parsePortRange (port_service p) (port_host_range p) of
        Inl e \<Rightarrow> Inl (map_wdm_error PortRangeBad e)
      | Inr (hostLo, hostHi) \<Rightarrow>
      (case parsePortRange (port_service p) (port_container_range p) of
        Inl e \<Rightarrow> Inl (map_wdm_error PortRangeBad e)
      | Inr (containerLo, containerHi) \<Rightarrow>
        (if hostHi - hostLo \<noteq> containerHi - containerLo
         then Inl (CatalogVerification
           (PortRangeSpans (port_service p) (port_host_range p) (port_container_range p)))
         else if (port_host p \<noteq> 0 \<and> port_host p \<noteq> hostLo)
               \<or> (port_container p \<noteq> 0 \<and> port_container p \<noteq> containerLo)
         then Inl (CatalogVerification
           (PortRangeMixed (port_service p) (port_host p) (port_container p) hostLo containerLo))
         else Inr (map (\<lambda>offset.
           \<lparr>pb_service = port_service p, pb_host_ip = hostIP, pb_host_port = hostLo + offset,
            pb_container_port = containerLo + offset, pb_protocol = protocol\<rparr>)
             [0..hostHi - hostLo]))))"

definition port_protocol_or_tcp :: "string \<Rightarrow> string" where
  "port_protocol_or_tcp proto = (if proto = [] then ''tcp'' else proto)"

definition portBindings :: "catalog_port \<Rightarrow> ports_reason wdm_error + port_binding list" where
  "portBindings p =
     (let protocol = port_protocol_or_tcp (port_protocol p);
          hostIP = (if port_public p then ''0.0.0.0'' else ''127.0.0.1'')
      in if port_host_range p \<noteq> [] \<or> port_container_range p \<noteq> []
         then rangePortBindings p protocol hostIP
         else if port_host p < 1 \<or> port_host p > 65535
               \<or> port_container p < 1 \<or> port_container p > 65535
         then Inl (CatalogVerification
           (PortInvalid (port_service p) (port_host p) (port_container p)))
         else Inr [\<lparr>pb_service = port_service p, pb_host_ip = hostIP, pb_host_port = port_host p,
           pb_container_port = port_container p, pb_protocol = protocol\<rparr>])"

subsection \<open>What an expansion yields\<close>

lemma upto_ports: "x \<in> set [0..h - l] \<Longrightarrow> l \<le> l + x \<and> l + x \<le> (h::int)"
  by simp

lemma rangePortBindings_Inr:
  assumes "rangePortBindings p protocol ip = Inr bs"
  obtains hl hh cl ch where
    "parsePortRange (port_service p) (port_host_range p) = Inr (hl, hh)"
    "parsePortRange (port_service p) (port_container_range p) = Inr (cl, ch)"
    "hh - hl = ch - cl"
    "bs = map (\<lambda>offset. \<lparr>pb_service = port_service p, pb_host_ip = ip, pb_host_port = hl + offset,
            pb_container_port = cl + offset, pb_protocol = protocol\<rparr>) [0..hh - hl]"
  using assms
  by (auto simp: rangePortBindings_def split: if_splits sum.splits prod.splits)

lemma rangePortBindings_wf:
  assumes "rangePortBindings p protocol ip = Inr bs" "b \<in> set bs"
  shows "valid_port (pb_host_port b) \<and> valid_port (pb_container_port b) \<and> pb_host_ip b = ip
    \<and> pb_service b = port_service p \<and> pb_protocol b = protocol"
proof -
  from assms(1) obtain hl hh cl ch where r:
    "parsePortRange (port_service p) (port_host_range p) = Inr (hl, hh)"
    "parsePortRange (port_service p) (port_container_range p) = Inr (cl, ch)"
    "hh - hl = ch - cl"
    and bs: "bs = map (\<lambda>offset. \<lparr>pb_service = port_service p, pb_host_ip = ip,
       pb_host_port = hl + offset, pb_container_port = cl + offset, pb_protocol = protocol\<rparr>)
       [0..hh - hl]"
    by (rule rangePortBindings_Inr)
  from r(1,2) have v: "valid_port hl" "valid_port hh" "valid_port cl" "valid_port ch"
    by (auto dest: parsePortRange_bounds)
  from assms(2) bs obtain k where k: "0 \<le> k" "k \<le> hh - hl" and
    b: "b = \<lparr>pb_service = port_service p, pb_host_ip = ip, pb_host_port = hl + k,
       pb_container_port = cl + k, pb_protocol = protocol\<rparr>"
    by auto
  from k v r(3) have "valid_port (hl + k)" "valid_port (cl + k)"
    by (auto simp: valid_port_def)
  with b show ?thesis by simp
qed

lemma portBindings_wf:
  assumes "portBindings p = Inr bs" "b \<in> set bs"
  shows "valid_port (pb_host_port b) \<and> valid_port (pb_container_port b)
    \<and> pb_host_ip b = (if port_public p then ''0.0.0.0'' else ''127.0.0.1'')
    \<and> pb_service b = port_service p
    \<and> pb_protocol b = port_protocol_or_tcp (port_protocol p)"
proof (cases "port_host_range p \<noteq> [] \<or> port_container_range p \<noteq> []")
  case True
  with assms(1) have "rangePortBindings p (port_protocol_or_tcp (port_protocol p))
      (if port_public p then ''0.0.0.0'' else ''127.0.0.1'') = Inr bs"
    by (simp add: portBindings_def)
  from rangePortBindings_wf [OF this assms(2)] show ?thesis by simp
next
  case False
  with assms show ?thesis
    by (auto simp: portBindings_def valid_port_def split: if_splits)
qed

lemma portBindings_not_Nil: "portBindings p = Inr bs \<Longrightarrow> bs \<noteq> []"
proof (cases "port_host_range p \<noteq> [] \<or> port_container_range p \<noteq> []")
  case True
  assume "portBindings p = Inr bs"
  with True have "rangePortBindings p (port_protocol_or_tcp (port_protocol p))
      (if port_public p then ''0.0.0.0'' else ''127.0.0.1'') = Inr bs"
    by (simp add: portBindings_def)
  then show ?thesis
    by (elim rangePortBindings_Inr) (auto dest!: parsePortRange_bounds)
next
  case False
  assume "portBindings p = Inr bs"
  with False show ?thesis by (auto simp: portBindings_def split: if_splits)
qed

lemma portBindings_class: "portBindings p = Inl e \<Longrightarrow> verification_class e"
  by (auto simp: portBindings_def rangePortBindings_def Let_def verification_class_def
      dest!: parsePortRange_class split: if_splits sum.splits prod.splits)

subsection \<open>Properties\<close>

lemma upto_shift: "map (\<lambda>x. l + x) [0..h - l] = [l..(h::int)]"
proof (rule nth_equalityI)
  show "length (map (\<lambda>x. l + x) [0..h - l]) = length [l..h]" by simp
qed (simp add: nth_upto)

text \<open>
  A range entry expands to one binding per port, in order, over exactly the two declared spans,
  which have equal length.
\<close>

lemma port_range_expansion:
  assumes "portBindings p = Inr bs" "port_host_range p \<noteq> [] \<or> port_container_range p \<noteq> []"
  shows "\<exists>hl hh cl ch. parsePortRange (port_service p) (port_host_range p) = Inr (hl, hh)
    \<and> parsePortRange (port_service p) (port_container_range p) = Inr (cl, ch)
    \<and> map pb_host_port bs = [hl..hh] \<and> map pb_container_port bs = [cl..ch]
    \<and> length bs = nat (hh - hl + 1)"
proof -
  from assms have "rangePortBindings p (port_protocol_or_tcp (port_protocol p))
      (if port_public p then ''0.0.0.0'' else ''127.0.0.1'') = Inr bs"
    by (simp add: portBindings_def)
  then obtain hl hh cl ch where r: "parsePortRange (port_service p) (port_host_range p) = Inr (hl, hh)"
    "parsePortRange (port_service p) (port_container_range p) = Inr (cl, ch)" "hh - hl = ch - cl"
    and bs: "bs = map (\<lambda>offset. \<lparr>pb_service = port_service p,
            pb_host_ip = (if port_public p then ''0.0.0.0'' else ''127.0.0.1''), pb_host_port = hl + offset,
            pb_container_port = cl + offset, pb_protocol = port_protocol_or_tcp (port_protocol p)\<rparr>) [0..hh - hl]"
    by (rule rangePortBindings_Inr)
  have "map pb_host_port bs = [hl..hh]" using upto_shift [of hl hh] by (simp add: bs comp_def)
  moreover have "map pb_container_port bs = [cl..ch]"
    using upto_shift [of cl ch] r(3) by (simp add: bs comp_def)
  ultimately show ?thesis using r by (auto simp: bs)
qed

lemma port_range_expansion_witness:
  "\<exists>bs. portBindings (zero_port\<lparr>port_host_range := ''7000-7002'', port_container_range := ''80-82''\<rparr>) = Inr bs
     \<and> map pb_host_port bs = [7000..7002]"
proof -
  let ?p = "zero_port\<lparr>port_host_range := ''7000-7002'', port_container_range := ''80-82''\<rparr>"
  have "\<exists>bs. portBindings ?p = Inr bs"
    by (simp add: portBindings_def rangePortBindings_def parsePortRange_def cut_def zero_port_def go_eval
        port_protocol_or_tcp_def)
  then obtain bs where bs: "portBindings ?p = Inr bs" ..
  have "parsePortRange (port_service ?p) (port_host_range ?p) = Inr (7000, 7002)"
    by (simp add: parsePortRange_def cut_def go_eval)
  with port_range_expansion [OF bs] bs show ?thesis by auto
qed

text \<open>
  Printing a valid span and parsing it gives the span back, and whatever parses lies in 1..65535
  with its bounds in order.
\<close>

lemma port_range_roundtrip:
  "(valid_port lo \<and> valid_port hi \<and> lo \<le> hi) \<longleftrightarrow>
     parsePortRange service (itoa lo @ ''-'' @ itoa hi) = Inr (lo, hi)"
  using parsePortRange_print parsePortRange_bounds by blast

end
