(* ===== verification/Go_Net.thy ===== *)
theory Go_Net
  imports Go_Strconv
begin

unbundle bit_operations_syntax

text \<open>
  Go's \<open>net.ParseIP\<close>, \<open>IP.IsLoopback\<close>, and the IPv4 part of \<open>net/netip\<close>: \<open>ParseAddr\<close>,
  \<open>ParsePrefix\<close>, \<open>Prefix.Masked\<close>, \<open>Prefix.Contains\<close> and \<open>Addr.String\<close>. An IPv4 address is a
  32-bit word, an IPv6 address its eight 16-bit groups.
\<close>

subsection \<open>IPv4 addresses\<close>

type_synonym addr4 = "32 word"

definition octet :: "string \<Rightarrow> nat option" where
  "octet w = (case parse_dec w of None \<Rightarrow> None
     | Some n \<Rightarrow> if n \<le> 255 \<and> (length w = 1 \<or> hd w \<noteq> CHR ''0'') then Some n else None)"

definition parse_octets :: "string \<Rightarrow> (nat \<times> nat \<times> nat \<times> nat) option" where
  "parse_octets s = (case map octet (split_on (CHR ''.'') s) of
      [Some a, Some b, Some c, Some d] \<Rightarrow> Some (a, b, c, d)
    | _ \<Rightarrow> None)"

definition addr_of_octets :: "nat \<times> nat \<times> nat \<times> nat \<Rightarrow> addr4" where
  "addr_of_octets q = (case q of (a, b, c, d) \<Rightarrow>
     word_of_nat (((a * 256 + b) * 256 + c) * 256 + d))"

definition parse_addr4 :: "string \<Rightarrow> addr4 option" where
  "parse_addr4 s = map_option addr_of_octets (parse_octets s)"

definition format_addr4 :: "addr4 \<Rightarrow> string" where
  "format_addr4 w =
     (let n = unat w in join_with ''.''
        [dec_digits (n div 16777216), dec_digits (n div 65536 mod 256),
         dec_digits (n div 256 mod 256), dec_digits (n mod 256)])"

lemma dec_digits_hd_zero: "0 < n \<Longrightarrow> hd (dec_digits n) \<noteq> CHR ''0''"
proof (induction n rule: dec_digits.induct)
  case (1 n)
  show ?case
  proof (cases "n < 10")
    case True
    then have "byte (hd (dec_digits n)) = 48 + n" by (subst dec_digits.simps) simp
    moreover have "byte (CHR ''0'') = 48" by (simp add: byte_def)
    ultimately show ?thesis using "1.prems" by auto
  next
    case False
    then have "0 < n div 10" by simp
    with "1.IH" False show ?thesis by (subst dec_digits.simps) simp
  qed
qed

lemma octet_digits: "n \<le> 255 \<Longrightarrow> octet (dec_digits n) = Some n"
proof (cases "n = 0")
  case True
  then show ?thesis by (simp add: octet_def) (simp add: dec_digits.simps)
next
  case False
  assume "n \<le> 255"
  with False dec_digits_hd_zero [of n] show ?thesis by (simp add: octet_def)
qed

lemma dec_digits_no_dot [simp]: "CHR ''.'' \<notin> set (dec_digits n)"
  using dec_digits_are_digits not_digit(5) by blast

lemma octets_value:
  "n < 4294967296 \<Longrightarrow>
   ((n div 16777216 * 256 + n div 65536 mod 256) * 256 + n div 256 mod 256) * 256 + n mod 256 = (n::nat)"
proof -
  have a: "n div 256 div 256 = n div 65536" "n div 65536 div 256 = n div 16777216"
    by (simp_all add: div_mult2_eq [symmetric])
  have "n = n div 256 * 256 + n mod 256" by simp
  moreover have "n div 256 = n div 65536 * 256 + n div 256 mod 256"
    using a(1) by (metis div_mod_decomp)
  moreover have "n div 65536 = n div 16777216 * 256 + n div 65536 mod 256"
    using a(2) by (metis div_mod_decomp)
  ultimately show ?thesis by simp
qed

lemma parse_format_addr4 [simp]: "parse_addr4 (format_addr4 w) = Some w"
proof -
  let ?n = "unat w"
  have b: "?n < 4294967296" using unsigned_less [of w] by simp
  have "split_on (CHR ''.'') (format_addr4 w) =
     [dec_digits (?n div 16777216), dec_digits (?n div 65536 mod 256),
      dec_digits (?n div 256 mod 256), dec_digits (?n mod 256)]"
    unfolding format_addr4_def Let_def by (rule split_join) simp_all
  moreover have "?n div 16777216 \<le> 255" using b by simp
  moreover have "?n div 65536 mod 256 \<le> 255" "?n div 256 mod 256 \<le> 255" "?n mod 256 \<le> 255"
    by (simp_all add: less_Suc_eq_le [symmetric])
  ultimately have "parse_octets (format_addr4 w) =
     Some (?n div 16777216, ?n div 65536 mod 256, ?n div 256 mod 256, ?n mod 256)"
    by (simp add: parse_octets_def octet_digits)
  moreover have "addr_of_octets (?n div 16777216, ?n div 65536 mod 256, ?n div 256 mod 256, ?n mod 256)
      = word_of_nat ?n"
    by (simp only: addr_of_octets_def prod.case octets_value [OF b])
  ultimately show ?thesis by (simp add: parse_addr4_def)
qed

lemma format_addr4_inject [simp]: "format_addr4 v = format_addr4 w \<longleftrightarrow> v = w"
  by (metis option.inject parse_format_addr4)

subsection \<open>IPv4 prefixes\<close>

text \<open>
  \<open>ParsePrefix\<close> takes the bits after the last slash: no sign and no leading zero, at most 32.
\<close>

definition rcut :: "char \<Rightarrow> string \<Rightarrow> (string \<times> string) option" where
  "rcut c s = (case cut c (rev s) of (b, a, found) \<Rightarrow> if found then Some (rev a, rev b) else None)"

definition parse_prefix4 :: "string \<Rightarrow> (addr4 \<times> nat) option" where
  "parse_prefix4 s = (case rcut (CHR ''/'') s of
      None \<Rightarrow> None
    | Some (a, bits) \<Rightarrow>
        (case parse_addr4 a of
           None \<Rightarrow> None
         | Some ip \<Rightarrow>
             (if length bits > 1 \<and> \<not> (49 \<le> byte (hd bits) \<and> byte (hd bits) \<le> 57) then None
              else case atoi bits of
                None \<Rightarrow> None
              | Some n \<Rightarrow> if n < 0 \<or> n > 32 then None else Some (ip, nat n))))"

definition masked :: "addr4 \<times> nat \<Rightarrow> addr4 \<times> nat" where
  "masked p = (case p of (ip, n) \<Rightarrow> (push_bit (32 - n) (drop_bit (32 - n) ip), n))"

definition prefix_contains :: "addr4 \<times> nat \<Rightarrow> addr4 \<Rightarrow> bool" where
  "prefix_contains p a = (case p of (ip, n) \<Rightarrow> drop_bit (32 - n) (ip XOR a) = 0)"

lemma prefix_contains_drop:
  "prefix_contains (ip, n) a \<longleftrightarrow> drop_bit (32 - n) ip = drop_bit (32 - n) a"
  by (auto simp: prefix_contains_def bit_eq_iff bit_drop_bit_eq bit_xor_iff)

lemma prefix_contains_div:
  "prefix_contains (ip, n) a \<longleftrightarrow> unat ip div 2 ^ (32 - n) = unat a div 2 ^ (32 - n)"
  unfolding prefix_contains_drop word_unat_eq_iff unat_drop_bit_eq
  unfolding drop_bit_eq_div by (rule refl)

lemma drop_push_drop: "drop_bit k (push_bit k (drop_bit k w)) = drop_bit k (w :: addr4)"
  by (rule bit_eqI) (auto simp: bit_drop_bit_eq bit_push_bit_iff dest: bit_imp_le_length)

lemma prefix_contains_masked:
  "prefix_contains (masked (ip, n)) a \<longleftrightarrow> prefix_contains (ip, n) a"
  by (simp add: masked_def prefix_contains_drop drop_push_drop)

lemma parse_prefix4_bits: "parse_prefix4 s = Some (ip, n) \<Longrightarrow> n \<le> 32"
  by (auto simp: parse_prefix4_def split: option.splits prod.splits if_splits)

subsection \<open>ParseIP\<close>

datatype ip = IP4 addr4 | IP6 "nat list"

definition is_hex :: "char \<Rightarrow> bool" where
  "is_hex c \<longleftrightarrow> is_digit c \<or> (97 \<le> byte c \<and> byte c \<le> 102) \<or> (65 \<le> byte c \<and> byte c \<le> 70)"

definition hex_val :: "char \<Rightarrow> nat" where
  "hex_val c = (if is_digit c then byte c - 48 else if 97 \<le> byte c then byte c - 87 else byte c - 55)"

definition hex_num :: "string \<Rightarrow> nat" where
  "hex_num s = foldl (\<lambda>a c. 16 * a + hex_val c) 0 s"

text \<open>
  The loop of \<open>parseIPv6\<close>: the first argument counts the groups still allowed, then the groups read,
  the position of the ellipsis if one was seen, and the rest of the text.
\<close>

fun v6_loop :: "nat \<Rightarrow> nat list \<Rightarrow> nat option \<Rightarrow> string \<Rightarrow> (nat list \<times> nat option \<times> string) option" where
  "v6_loop 0 gs e s = Some (gs, e, s)"
| "v6_loop (Suc k) gs e s =
     (let run = takeWhile is_hex s; rest = dropWhile is_hex s in
      if run = [] \<or> length run > 4 then None
      else if has_prefix rest ''.'' then
        (if e = None \<and> length gs \<noteq> 6 then None
         else if length gs + 2 > 8 then None
         else (case parse_octets s of None \<Rightarrow> None
               | Some (a, b, c, d) \<Rightarrow> Some (gs @ [a * 256 + b, c * 256 + d], e, [])))
      else
        (let gs' = gs @ [hex_num run] in
         case rest of
           [] \<Rightarrow> Some (gs', e, [])
         | c # r \<Rightarrow>
             (if c \<noteq> CHR '':'' then None
              else case r of
                [] \<Rightarrow> None
              | d # r' \<Rightarrow>
                  (if d = CHR '':'' then
                     (if e \<noteq> None then None
                      else if r' = [] then Some (gs', Some (length gs'), [])
                      else v6_loop k gs' (Some (length gs')) r')
                   else v6_loop k gs' e r))))"

definition parse_ipv6 :: "string \<Rightarrow> nat list option" where
  "parse_ipv6 s =
     (let start = (if has_prefix s ''::'' then (Some 0, drop 2 s) else (None, s)) in
      if start = (Some 0, []) then Some (replicate 8 0)
      else case v6_loop 8 [] (fst start) (snd start) of
        None \<Rightarrow> None
      | Some (gs, e, rest) \<Rightarrow>
          (if rest \<noteq> [] then None
           else if length gs < 8 then
             (case e of None \<Rightarrow> None
              | Some p \<Rightarrow> Some (take p gs @ replicate (8 - length gs) 0 @ drop p gs))
           else (case e of None \<Rightarrow> Some gs | Some _ \<Rightarrow> None)))"

definition parse_ip :: "string \<Rightarrow> ip option" where
  "parse_ip s = (case List.find (\<lambda>c. c = CHR ''.'' \<or> c = CHR '':'' \<or> c = CHR ''%'') s of
      None \<Rightarrow> None
    | Some c \<Rightarrow>
        (if c = CHR ''.'' then map_option IP4 (parse_addr4 s)
         else if c = CHR '':'' then
           (if CHR ''%'' \<in> set s then None else map_option IP6 (parse_ipv6 s))
         else None))"

text \<open>\<open>IP.IsLoopback\<close>: 127.0.0.0/8, also in its IPv4-mapped form, and ::1.\<close>

fun is_loopback :: "ip \<Rightarrow> bool" where
  "is_loopback (IP4 a) = (unat a div 16777216 = 127)"
| "is_loopback (IP6 gs) =
     (if take 6 gs = [0, 0, 0, 0, 0, 65535] then gs ! 6 div 256 = 127
      else gs = [0, 0, 0, 0, 0, 0, 0, 1])"

lemma v6_loop_length:
  "v6_loop k gs e s = Some (gs', e', r) \<Longrightarrow> length gs + k \<le> 8 \<Longrightarrow> length gs' \<le> 8"
proof (induction k gs e s rule: v6_loop.induct)
  case (2 k gs e s)
  then show ?case
    by (auto simp: Let_def split: if_splits list.splits option.splits prod.splits)
qed simp

end
