(* ===== verification/Public_Binds.thy ===== *)
theory Public_Binds
  imports Demo_Stack Compose_Yaml Verify_Contract Port_Ranges Go_Net
begin

text \<open>
  \<open>verifyPublicBindsMatchCatalog\<close>: the ports the rendered compose publishes on a non-loopback
  address are exactly the ports the signed catalog declares public, and no service runs on the host
  network.
\<close>

subsection \<open>Model\<close>

datatype binds_reason =
    BindsUnparsed string
  | HostNetwork string string
  | DeclarationInvalid range_reason
  | BindUnclassified string string string
  | BindUndeclared string string string
  | DeclaredNotBound string string string

definition isLoopbackBind :: "string \<Rightarrow> bool" where
  "isLoopbackBind hostIP =
     (if hostIP = [] then False
      else (case parse_ip hostIP of None \<Rightarrow> False | Some ip \<Rightarrow> is_loopback ip))"

definition fmt_port_key :: "string \<Rightarrow> int \<Rightarrow> string" where
  "fmt_port_key protocol p = protocol @ ''/'' @ itoa p"

definition fmt_range_key :: "string \<Rightarrow> int \<Rightarrow> int \<Rightarrow> string" where
  "fmt_range_key protocol lo hi = protocol @ ''/'' @ itoa lo @ ''-'' @ itoa hi"

fun declared_step :: "(string, string) gomap \<Rightarrow> catalog_port
    \<Rightarrow> range_reason wdm_error + (string, string) gomap" where
  "declared_step declared p =
     (if \<not> port_public p then Inr declared
      else
        (let protocol = port_protocol_or_tcp (port_protocol p)
         in if port_host_range p \<noteq> []
            then (case parsePortRange (port_service p) (port_host_range p) of
                    Inl e \<Rightarrow> Inl e
                  | Inr (lo, hi) \<Rightarrow>
                      Inr (AList.update (fmt_range_key protocol lo hi) (port_service p) declared))
            else Inr (AList.update (fmt_port_key protocol (port_host p)) (port_service p) declared)))"

declare declared_step.simps [simp del]

definition declaredPublicBinds :: "app \<Rightarrow> range_reason wdm_error + (string, string) gomap" where
  "declaredPublicBinds a = foldE declared_step [] (app_ports a)"

text \<open>The error of \<open>publicBindKey\<close> is the text of the entry it could not classify.\<close>

definition publicBindKey :: "string \<Rightarrow> composePortEntry \<Rightarrow> string + string" where
  "publicBindKey protocol entry =
     (if pe_published entry = [] then Inl (pe_raw entry)
      else case cut (CHR ''-'') (pe_published entry) of (lo, hi, ok) \<Rightarrow>
        (if ok then
           (case (atoi lo, atoi hi) of
              (Some l, Some h) \<Rightarrow> Inr (fmt_range_key protocol l h)
            | _ \<Rightarrow> Inl (pe_raw entry))
         else
           (case atoi (pe_published entry) of
              None \<Rightarrow> Inl (pe_raw entry)
            | Some p \<Rightarrow> Inr (fmt_port_key protocol p))))"

fun rendered_step :: "string \<Rightarrow> (string, string) gomap \<Rightarrow> composePortEntry
    \<Rightarrow> (string \<times> string) + (string, string) gomap" where
  "rendered_step service rendered entry =
     (if isLoopbackBind (pe_host_ip entry) then Inr rendered
      else case publicBindKey (port_protocol_or_tcp (pe_protocol entry)) entry of
        Inl raw \<Rightarrow> Inl (service, raw)
      | Inr key \<Rightarrow> Inr (AList.update key service rendered))"

declare rendered_step.simps [simp del]

definition ports_of :: "(string, composePortsService) gomap \<Rightarrow> string \<Rightarrow> composePortEntry list" where
  "ports_of proj svc = (case map_of proj svc of None \<Rightarrow> [] | Some s \<Rightarrow> ps_ports s)"

definition network_mode_of :: "(string, composePortsService) gomap \<Rightarrow> string \<Rightarrow> string" where
  "network_mode_of proj svc = (case map_of proj svc of None \<Rightarrow> [] | Some s \<Rightarrow> ps_network_mode s)"

definition renderedPublicBinds :: "(string, composePortsService) gomap
    \<Rightarrow> (string \<times> string) + (string, string) gomap" where
  "renderedPublicBinds proj =
     foldE (\<lambda>m svc. foldE (rendered_step svc) m (ports_of proj svc)) [] (sorted_keys proj)"

definition is_host_network :: "string \<Rightarrow> bool" where
  "is_host_network mode = equal_fold_ascii (trim_space mode) ''host''"

definition verify_binds :: "app \<Rightarrow> (string, composePortsService) gomap
    \<Rightarrow> binds_reason wdm_error option" where
  "verify_binds a proj =
     or_else
       (first_err (\<lambda>name. refuse_if (is_host_network (network_mode_of proj name))
          (RedactedVerification (HostNetwork (app_id a) name))) (sorted_keys proj))
       (case declaredPublicBinds a of
          Inl e \<Rightarrow> Some (RedactedVerification (DeclarationInvalid (reason_of e)))
        | Inr declared \<Rightarrow>
       (case renderedPublicBinds proj of
          Inl (svc, raw) \<Rightarrow> Some (RedactedVerification (BindUnclassified (app_id a) svc raw))
        | Inr rendered \<Rightarrow>
            or_else
              (first_err (\<lambda>key. refuse_if (map_of declared key = None)
                 (RedactedVerification
                   (BindUndeclared (app_id a) (get_or [] rendered key) key))) (sorted_keys rendered))
              (first_err (\<lambda>key. refuse_if (map_of rendered key = None)
                 (RedactedVerification
                   (DeclaredNotBound (app_id a) (get_or [] declared key) key))) (sorted_keys declared))))"

definition verifyPublicBindsMatchCatalog ::
  "yaml_lib \<Rightarrow> app \<Rightarrow> string \<Rightarrow> binds_reason wdm_error option" where
  "verifyPublicBindsMatchCatalog lib a bytes =
     (case decode_ports lib bytes of
        None \<Rightarrow> Some (RedactedVerification (BindsUnparsed (app_id a)))
      | Some proj \<Rightarrow> verify_binds a proj)"

subsection \<open>The policy, over binds instead of their texts\<close>

text \<open>
  A public bind is a protocol with a port or a range. The code compares them through the texts it
  formats; \<open>bind_key_inject\<close> shows that two binds the code can meet have the same text only if they
  are the same.
\<close>

datatype bind = PortBind string int | RangeBind string int int

fun bind_key :: "bind \<Rightarrow> string" where
  "bind_key (PortBind proto p) = fmt_port_key proto p"
| "bind_key (RangeBind proto lo hi) = fmt_range_key proto lo hi"

fun wf_bind :: "bind \<Rightarrow> bool" where
  "wf_bind (PortBind proto p) = True"
| "wf_bind (RangeBind proto lo hi) = (0 \<le> lo)"

lemma last_slash:
  assumes "p @ CHR ''/'' # s = q @ CHR ''/'' # t" "CHR ''/'' \<notin> set s" "CHR ''/'' \<notin> set t"
  shows "p = q \<and> s = t"
proof -
  from assms(1) have "rev s @ CHR ''/'' # rev p = rev t @ CHR ''/'' # rev q"
    by (metis append.assoc append_Cons append_Nil rev.simps(2) rev_append)
  moreover have "CHR ''/'' \<notin> set (rev s)" "CHR ''/'' \<notin> set (rev t)" using assms by auto
  ultimately have "rev s = rev t" "rev p = rev q"
    by (metis cut_found prod.inject)+
  then show ?thesis by simp
qed

lemma first_dash:
  assumes "a @ CHR ''-'' # b = c @ CHR ''-'' # d" "CHR ''-'' \<notin> set a" "CHR ''-'' \<notin> set c"
  shows "a = c \<and> b = d"
  using assms by (metis cut_found prod.inject)

lemma port_not_range: "0 \<le> lo \<Longrightarrow> itoa p \<noteq> itoa lo @ CHR ''-'' # itoa hi"
proof
  assume lo: "0 \<le> lo" and eq: "itoa p = itoa lo @ CHR ''-'' # itoa hi"
  show False
  proof (cases "p < 0")
    case True
    from lo obtain d r where "itoa lo = d # r" "is_digit d" using itoa_first by blast
    with eq True show False by (auto simp: itoa_def)
  next
    case False
    then have "CHR ''-'' \<notin> set (itoa p)" by simp
    with eq show False by simp
  qed
qed

lemma bind_key_inject:
  assumes "wf_bind b" "wf_bind c"
  shows "bind_key b = bind_key c \<longleftrightarrow> b = c"
proof
  assume eq: "bind_key b = bind_key c"
  show "b = c"
  proof (cases b; cases c)
    fix p1 n1 p2 n2
    assume "b = PortBind p1 n1" "c = PortBind p2 n2"
    with eq show "b = c" using last_slash [of p1 "itoa n1" p2 "itoa n2"]
      by (simp add: fmt_port_key_def)
  next
    fix p1 n1 p2 l2 h2
    assume bc: "b = PortBind p1 n1" "c = RangeBind p2 l2 h2"
    with eq have "itoa n1 = itoa l2 @ CHR ''-'' # itoa h2"
      using last_slash [of p1 "itoa n1" p2 "itoa l2 @ CHR ''-'' # itoa h2"]
      by (simp add: fmt_port_key_def fmt_range_key_def)
    with bc assms port_not_range show "b = c" by simp
  next
    fix p1 l1 h1 p2 n2
    assume bc: "b = RangeBind p1 l1 h1" "c = PortBind p2 n2"
    with eq have "itoa n2 = itoa l1 @ CHR ''-'' # itoa h1"
      using last_slash [of p1 "itoa l1 @ CHR ''-'' # itoa h1" p2 "itoa n2"]
      by (simp add: fmt_port_key_def fmt_range_key_def)
    with bc assms port_not_range show "b = c" by simp
  next
    fix p1 l1 h1 p2 l2 h2
    assume bc: "b = RangeBind p1 l1 h1" "c = RangeBind p2 l2 h2"
    with eq have "p1 = p2 \<and> itoa l1 @ CHR ''-'' # itoa h1 = itoa l2 @ CHR ''-'' # itoa h2"
      using last_slash [of p1 "itoa l1 @ CHR ''-'' # itoa h1" p2 "itoa l2 @ CHR ''-'' # itoa h2"]
      by (simp add: fmt_range_key_def)
    moreover have "CHR ''-'' \<notin> set (itoa l1)" "CHR ''-'' \<notin> set (itoa l2)" using bc assms by simp_all
    ultimately show "b = c" using bc first_dash [of "itoa l1" "itoa h1" "itoa l2" "itoa h2"] by simp
  qed
qed simp

text \<open>The bind a catalog entry declares, and the bind a compose entry publishes.\<close>

definition declared_bind :: "catalog_port \<Rightarrow> bind option" where
  "declared_bind p =
     (let proto = port_protocol_or_tcp (port_protocol p)
      in if port_host_range p \<noteq> []
         then (case parsePortRange (port_service p) (port_host_range p) of
                 Inl _ \<Rightarrow> None | Inr (lo, hi) \<Rightarrow> Some (RangeBind proto lo hi))
         else Some (PortBind proto (port_host p)))"

definition published_bind :: "composePortEntry \<Rightarrow> bind option" where
  "published_bind e =
     (let proto = port_protocol_or_tcp (pe_protocol e)
      in if pe_published e = [] then None
         else case cut (CHR ''-'') (pe_published e) of (lo, hi, ok) \<Rightarrow>
           (if ok then (case (atoi lo, atoi hi) of
                          (Some l, Some h) \<Rightarrow> Some (RangeBind proto l h) | _ \<Rightarrow> None)
            else map_option (PortBind proto) (atoi (pe_published e))))"

definition public_decls :: "app \<Rightarrow> catalog_port set" where
  "public_decls a = {p \<in> set (app_ports a). port_public p}"

definition public_entries :: "(string, composePortsService) gomap \<Rightarrow> composePortEntry set" where
  "public_entries proj =
     {e. \<exists>svc \<in> keys_of proj. e \<in> set (ports_of proj svc) \<and> \<not> isLoopbackBind (pe_host_ip e)}"

definition declared_binds :: "app \<Rightarrow> bind set" where
  "declared_binds a = {b. \<exists>p \<in> public_decls a. declared_bind p = Some b}"

definition published_binds :: "(string, composePortsService) gomap \<Rightarrow> bind set" where
  "published_binds proj = {b. \<exists>e \<in> public_entries proj. published_bind e = Some b}"

definition binds_match :: "app \<Rightarrow> (string, composePortsService) gomap \<Rightarrow> bool" where
  "binds_match a proj \<longleftrightarrow>
     (\<forall>svc \<in> keys_of proj. \<not> is_host_network (network_mode_of proj svc))
     \<and> (\<forall>p \<in> public_decls a. declared_bind p \<noteq> None)
     \<and> (\<forall>e \<in> public_entries proj. published_bind e \<noteq> None)
     \<and> declared_binds a = published_binds proj"

definition binds_policy :: "yaml_lib \<Rightarrow> app \<times> string \<Rightarrow> bool" where
  "binds_policy lib x = (case x of (a, bytes) \<Rightarrow>
     \<exists>proj. decode_ports lib bytes = Some proj \<and> binds_match a proj)"

subsection \<open>Correctness\<close>

definition declared_key :: "catalog_port \<Rightarrow> string option option" where
  "declared_key p = (if port_public p then Some (map_option bind_key (declared_bind p)) else None)"

definition rendered_key :: "composePortEntry \<Rightarrow> string option option" where
  "rendered_key e = (if isLoopbackBind (pe_host_ip e) then None
     else Some (map_option bind_key (published_bind e)))"

lemma publicBindKey_bind:
  "(case publicBindKey (port_protocol_or_tcp (pe_protocol e)) e of Inl _ \<Rightarrow> None | Inr k \<Rightarrow> Some k)
     = map_option bind_key (published_bind e)"
  by (auto simp: publicBindKey_def published_bind_def Let_def split: prod.splits option.splits)

lemma declared_key_iff:
  "declared_key p = Some (Some k) \<longleftrightarrow> port_public p \<and> (\<exists>b. declared_bind p = Some b \<and> k = bind_key b)"
  "declared_key p = Some None \<longleftrightarrow> port_public p \<and> declared_bind p = None"
  by (auto simp: declared_key_def)

lemma rendered_key_iff:
  "rendered_key e = Some (Some k) \<longleftrightarrow>
     \<not> isLoopbackBind (pe_host_ip e) \<and> (\<exists>b. published_bind e = Some b \<and> k = bind_key b)"
  "rendered_key e = Some None \<longleftrightarrow> \<not> isLoopbackBind (pe_host_ip e) \<and> published_bind e = None"
  by (auto simp: rendered_key_def)

interpretation declared: key_collector declared_step declared_key
  by unfold_locales
    (auto simp: declared_step.simps declared_key_def declared_bind_def Let_def
      split: if_splits sum.splits prod.splits)

interpretation rendered: key_collector
    "\<lambda>m svc_e. rendered_step (fst svc_e) m (snd svc_e)" "\<lambda>svc_e. rendered_key (snd svc_e)"
proof unfold_locales
  fix x :: "string \<times> composePortEntry" and m k
  note eq = publicBindKey_bind [of "snd x"]
  show "rendered_key (snd x) = None \<Longrightarrow> rendered_step (fst x) m (snd x) = Inr m"
    by (simp add: rendered_step.simps rendered_key_def split: if_splits)
  show "rendered_key (snd x) = Some None \<Longrightarrow> \<exists>e. rendered_step (fst x) m (snd x) = Inl e"
    using eq by (auto simp: rendered_step.simps rendered_key_def split: if_splits sum.splits)
  show "rendered_key (snd x) = Some (Some k) \<Longrightarrow>
      \<exists>v. rendered_step (fst x) m (snd x) = Inr (AList.update k v m)"
    using eq by (auto simp: rendered_step.simps rendered_key_def split: if_splits sum.splits)
qed

lemma published_wf: "published_bind e = Some b \<Longrightarrow> wf_bind b"
proof -
  assume b: "published_bind e = Some b"
  have "atoi lo = Some l \<Longrightarrow> CHR ''-'' \<notin> set lo \<Longrightarrow> 0 \<le> l" for lo l
    by (auto simp: atoi_def split: list.splits if_splits option.splits)
  with b cut_Some show "wf_bind b"
    by (force simp: published_bind_def Let_def split: if_splits prod.splits option.splits)
qed

lemma declared_wf: "declared_bind p = Some b \<Longrightarrow> wf_bind b"
  by (auto simp: declared_bind_def Let_def valid_port_def dest!: parsePortRange_bounds
      split: if_splits sum.splits prod.splits)

lemma declaredPublicBinds_keys:
  assumes "declaredPublicBinds a = Inr m"
  shows "keys_of m = bind_key ` declared_binds a
    \<and> (\<forall>p \<in> public_decls a. declared_bind p \<noteq> None)"
proof -
  from declared.collects [OF assms [unfolded declaredPublicBinds_def]]
  have k: "keys_of m = {k. \<exists>p \<in> set (app_ports a). declared_key p = Some (Some k)}"
    and n: "\<forall>p \<in> set (app_ports a). declared_key p \<noteq> Some None"
    by auto
  from k have "keys_of m = bind_key ` declared_binds a"
    by (auto simp: declared_key_iff public_decls_def declared_binds_def image_iff)
  with n show ?thesis by (simp add: declared_key_iff public_decls_def)
qed

lemma declaredPublicBinds_fails:
  "declaredPublicBinds a = Inl e \<Longrightarrow> \<exists>p \<in> public_decls a. declared_bind p = None"
  using declared.rejects [of "[]" "app_ports a" e]
  by (auto simp: declaredPublicBinds_def declared_key_def public_decls_def split: if_splits)

lemma rendered_entries:
  "set (concat (map (\<lambda>svc. map (Pair svc) (ports_of proj svc)) (sorted_keys proj)))
     = {(svc, e). svc \<in> keys_of proj \<and> e \<in> set (ports_of proj svc)}"
  by auto

lemma renderedPublicBinds_keys:
  assumes "renderedPublicBinds proj = Inr m"
  shows "keys_of m = bind_key ` published_binds proj
    \<and> (\<forall>e \<in> public_entries proj. published_bind e \<noteq> None)"
proof -
  from rendered.collects [OF assms [unfolded renderedPublicBinds_def foldE_nested]]
  have k: "keys_of m = {k. \<exists>svc e. svc \<in> keys_of proj \<and> e \<in> set (ports_of proj svc)
        \<and> rendered_key e = Some (Some k)}"
    and n: "\<forall>svc \<in> keys_of proj. \<forall>e \<in> set (ports_of proj svc). rendered_key e \<noteq> Some None"
    unfolding rendered_entries by auto
  from k have "keys_of m = bind_key ` published_binds proj"
    by (auto simp: rendered_key_iff public_entries_def published_binds_def image_iff)
  moreover from n have "\<forall>e \<in> public_entries proj. published_bind e \<noteq> None"
    by (fastforce simp: rendered_key_iff public_entries_def)
  ultimately show ?thesis by blast
qed

lemma renderedPublicBinds_fails:
  assumes "renderedPublicBinds proj = Inl x"
  shows "\<exists>e \<in> public_entries proj. published_bind e = None"
proof -
  from rendered.rejects [OF assms [unfolded renderedPublicBinds_def foldE_nested]]
  show ?thesis unfolding rendered_entries
    by (auto simp: rendered_key_def public_entries_def split: if_splits)
qed

lemma keys_equal_iff:
  "(\<forall>k \<in> keys_of r. map_of d k \<noteq> None) \<and> (\<forall>k \<in> keys_of d. map_of r k \<noteq> None)
     \<longleftrightarrow> keys_of d = keys_of r"
  by (auto simp: keys_of_iff)

lemma bind_keys_eq:
  assumes "\<forall>b \<in> A \<union> B. wf_bind b"
  shows "bind_key ` A = bind_key ` B \<longleftrightarrow> A = B"
proof -
  have "inj_on bind_key (A \<union> B)"
    using assms bind_key_inject by (intro inj_onI) blast
  then show ?thesis by (simp add: inj_on_Un_image_eq_iff)
qed

lemma key_sets_match:
  assumes "declaredPublicBinds a = Inr d" "renderedPublicBinds proj = Inr r"
  shows "keys_of d = keys_of r
    \<longleftrightarrow> declared_binds a = published_binds proj"
proof -
  note D = declaredPublicBinds_keys [OF assms(1)]
  note R = renderedPublicBinds_keys [OF assms(2)]
  have "\<forall>b \<in> declared_binds a \<union> published_binds proj. wf_bind b"
    by (auto simp: declared_binds_def published_binds_def intro: declared_wf published_wf)
  with D R show ?thesis by (simp add: bind_keys_eq)
qed

lemma verify_binds_accepts: "verify_binds a proj = None \<longleftrightarrow> binds_match a proj"
proof (cases "declaredPublicBinds a")
  case (Inl e)
  with declaredPublicBinds_fails show ?thesis
    by (fastforce simp: verify_binds_def err_simps binds_match_def)
next
  case D: (Inr d)
  show ?thesis
  proof (cases "renderedPublicBinds proj")
    case (Inl x)
    with renderedPublicBinds_fails D show ?thesis
      by (cases x) (fastforce simp: verify_binds_def err_simps binds_match_def)
  next
    case R: (Inr r)
    have "verify_binds a proj = None \<longleftrightarrow>
        (\<forall>svc \<in> keys_of proj. \<not> is_host_network (network_mode_of proj svc)) \<and> keys_of d = keys_of r"
      unfolding keys_equal_iff [symmetric] by (simp add: verify_binds_def D R err_simps)
    with key_sets_match [OF D R] declaredPublicBinds_keys [OF D] renderedPublicBinds_keys [OF R]
    show ?thesis by (auto simp: binds_match_def)
  qed
qed

lemma verify_binds_class: "errs_in verification_class (verify_binds a proj)"
  by (auto simp: verify_binds_def split: sum.splits)

lemma binds_accepts: "verifyPublicBindsMatchCatalog lib a bytes = None \<longleftrightarrow> binds_policy lib (a, bytes)"
  by (auto simp: verifyPublicBindsMatchCatalog_def binds_policy_def verify_binds_accepts
      split: option.splits)

lemma binds_class: "errs_in verification_class (verifyPublicBindsMatchCatalog lib a bytes)"
  by (auto simp: verifyPublicBindsMatchCatalog_def verify_binds_class split: option.splits)

interpretation binds: policy "\<lambda>(a, bytes). verifyPublicBindsMatchCatalog lib a bytes" "binds_policy lib"
  for lib
  by unfold_locales (auto simp: binds_accepts binds_class)

subsection \<open>Properties\<close>

text \<open>
  C4: the bind check accepts a rendered compose exactly when no service uses the host network, every
  public declaration and every published entry outside loopback can be classified, and the set of
  binds published outside loopback equals the set of binds the catalog declares public.
\<close>

theorem public_binds_enforced:
  "verifyPublicBindsMatchCatalog lib a bytes = None \<longleftrightarrow>
     (\<exists>proj. decode_ports lib bytes = Some proj
        \<and> (\<forall>svc \<in> keys_of proj. \<not> is_host_network (network_mode_of proj svc))
        \<and> (\<forall>p \<in> public_decls a. declared_bind p \<noteq> None)
        \<and> (\<forall>e \<in> public_entries proj. published_bind e \<noteq> None)
        \<and> declared_binds a = published_binds proj)"
  using binds.accepts [of lib "(a, bytes)"] by (simp add: binds_policy_def binds_match_def)

definition demo_entry :: composePortEntry where
  "demo_entry = \<lparr>pe_host_ip = [], pe_published = ''51820'', pe_protocol = ''udp'',
     pe_raw = ''51820:51820/udp''\<rparr>"

lemma demo_public_entries:
  "public_entries
     [(''vpn'', \<lparr>ps_ports = [\<lparr>pe_host_ip = [], pe_published = ''51820'', pe_protocol = ''udp'',
         pe_raw = ''51820:51820/udp''\<rparr>], ps_network_mode = []\<rparr>),
      (''proxy'', \<lparr>ps_ports = [], ps_network_mode = []\<rparr>),
      (''seed'', \<lparr>ps_ports = [], ps_network_mode = []\<rparr>)] = {demo_entry}"
  by (auto simp: public_entries_def ports_of_def keys_of_def isLoopbackBind_def demo_entry_def
      split: if_splits)

lemma demo_bind: "published_bind demo_entry = Some (PortBind ''udp'' 51820)"
  by (simp add: published_bind_def demo_entry_def port_protocol_or_tcp_def cut_def go_eval)

lemma demo_decls:
  "p \<in> public_decls demo_app \<Longrightarrow> declared_bind p = Some (PortBind ''udp'' 51820)"
  "declared_binds demo_app = {PortBind ''udp'' 51820}"
  unfolding declared_binds_def
  by (auto simp: public_decls_def declared_bind_def demo_defs port_protocol_or_tcp_def)

theorem public_binds_enforced_witness:
  "verifyPublicBindsMatchCatalog demo_yaml demo_app demo_compose = None
   \<and> declared_binds demo_app = {PortBind ''udp'' 51820}"
  unfolding public_binds_enforced demo_ports
  by (simp add: demo_public_entries demo_decls published_binds_def demo_bind keys_of_def
      network_mode_of_def is_host_network_def trim_eval case_eval)

end
