(* ===== verification/Privilege.thy ===== *)
theory Privilege
  imports Demo_Stack Catalog Compose_Yaml Verify_Contract
begin

text \<open>
  \<open>verifyContainerPrivilegeMatchCatalog\<close>: the closed container-privilege allow-list. Check (A) reads
  the catalog, (B) bounds every rendered service, (C) demands parity for the services the catalog
  hardens.
\<close>

subsection \<open>Model\<close>

datatype privilege_reason =
    PrivUnparsed string
  | CatCapability string string string
  | CatSysctl string string string
  | CatDevices string string nat
  | CatPrivileged string string
  | CapUnbacked string string
  | SysctlUnbacked string string
  | CapOutside string string string
  | SysctlOutside string string string
  | DevicesRendered string string nat
  | PrivilegedRendered string string
  | CapDropMissing string string
  | HardenedAbsent string string
  | CapsDiffer string string "string list" "string list"
  | SysctlsDiffer string string "string list" "string list"
  | PrivilegedDiffers string string bool bool

definition allowedCapabilities :: "string list" where
  "allowedCapabilities =
     [''NET_BIND_SERVICE'', ''CHOWN'', ''SETUID'', ''SETGID'', ''DAC_OVERRIDE'', ''FOWNER'',
      ''NET_ADMIN'', ''NET_RAW'']"

definition allowedSysctls :: "string list" where
  "allowedSysctls = [''net.ipv4.ip_forward'', ''net.ipv4.conf.all.src_valid_mark'']"

definition normalizeCapability :: "string \<Rightarrow> string" where
  "normalizeCapability name = trim_prefix (to_upper (trim_space name)) ''CAP_''"

definition cap_allowed :: "string \<Rightarrow> bool" where
  "cap_allowed c \<longleftrightarrow> normalizeCapability c \<in> set allowedCapabilities"

definition sysctl_allowed :: "string \<Rightarrow> bool" where
  "sysctl_allowed n \<longleftrightarrow> n \<in> set allowedSysctls"

definition declared_caps :: "service_hardening \<Rightarrow> string list" where
  "declared_caps h = (case hard_capabilities h of None \<Rightarrow> [] | Some c \<Rightarrow> cap_add c)"

text \<open>Check (A), one hardening entry after the other.\<close>

definition verify_hardening_decl :: "string \<Rightarrow> service_hardening \<Rightarrow> privilege_reason wdm_error option" where
  "verify_hardening_decl aid h =
     or_else (first_err (\<lambda>c. refuse_if (\<not> cap_allowed c)
                (CatalogVerification (CatCapability aid (hard_service h) c))) (declared_caps h))
    (or_else (first_err (\<lambda>s. refuse_if (\<not> sysctl_allowed (sysctl_name s))
                (CatalogVerification (CatSysctl aid (hard_service h) (sysctl_name s)))) (hard_sysctls h))
    (or_else (refuse_if (hard_devices h \<noteq> [])
                (CatalogVerification (CatDevices aid (hard_service h) (length (hard_devices h)))))
             (refuse_if (hard_privileged h)
                (CatalogVerification (CatPrivileged aid (hard_service h))))))"

definition verifyCatalogPrivilegeDeclarations :: "app \<Rightarrow> privilege_reason wdm_error option" where
  "verifyCatalogPrivilegeDeclarations a =
     first_err (verify_hardening_decl (app_id a)) (app_service_hardening a)"

definition declaredHardeningServices :: "app \<Rightarrow> string set" where
  "declaredHardeningServices a = hard_service ` set (app_service_hardening a)"

definition capDropContainsAll :: "string list \<Rightarrow> bool" where
  "capDropContainsAll capDrop = list_ex (\<lambda>d. equal_fold_ascii (trim_space d) ''ALL'') capDrop"

text \<open>
  Check (B). Go ranges over the sysctls of a service in an unspecified order, which decides only
  which of several refusals is reported; the model takes the order of the list.
\<close>

definition verify_service_bounds ::
  "string \<Rightarrow> string set \<Rightarrow> string \<Rightarrow> composePrivilegeService \<Rightarrow> privilege_reason wdm_error option" where
  "verify_service_bounds aid declared name s =
     or_else (if name \<in> declared then None
        else or_else
          (refuse_if (pv_cap_add s \<noteq> []) (RedactedVerification (CapUnbacked aid name)))
          (refuse_if (pv_sysctls s \<noteq> []) (RedactedVerification (SysctlUnbacked aid name))))
    (or_else (first_err (\<lambda>c. refuse_if (\<not> cap_allowed c)
        (RedactedVerification (CapOutside aid name c))) (pv_cap_add s))
    (or_else (first_err (\<lambda>n. refuse_if (\<not> sysctl_allowed n)
        (RedactedVerification (SysctlOutside aid name n))) (map fst (pv_sysctls s)))
    (or_else (refuse_if (pv_devices s \<noteq> [])
        (RedactedVerification (DevicesRendered aid name (length (pv_devices s)))))
    (or_else (refuse_if (pv_privileged s) (RedactedVerification (PrivilegedRendered aid name)))
        (refuse_if (pv_cap_add s \<noteq> [] \<and> \<not> capDropContainsAll (pv_cap_drop s))
           (RedactedVerification (CapDropMissing aid name)))))))"

definition zero_privilege_service :: composePrivilegeService where
  "zero_privilege_service = \<lparr>pv_cap_add = [], pv_cap_drop = [], pv_sysctls = [], pv_devices = [],
     pv_privileged = False\<rparr>"

definition verifyRenderedPrivilegeBounds ::
  "app \<Rightarrow> (string, composePrivilegeService) gomap \<Rightarrow> string set \<Rightarrow> privilege_reason wdm_error option" where
  "verifyRenderedPrivilegeBounds a proj declared =
     first_err (\<lambda>name. verify_service_bounds (app_id a) declared name
        (get_or zero_privilege_service proj name)) (sorted_keys proj)"

text \<open>
  Check (C). A Go set is the list of its distinct members; \<open>stringSetsEqual\<close> and
  \<open>stringMapsEqual\<close> compare the number of keys and one inclusion.
\<close>

definition stringSetsEqual :: "string list \<Rightarrow> string list \<Rightarrow> bool" where
  "stringSetsEqual xs ys =
     (if length xs \<noteq> length ys then False else list_all (\<lambda>k. k \<in> set ys) xs)"

definition stringMapsEqual :: "(string, string) gomap \<Rightarrow> (string, string) gomap \<Rightarrow> bool" where
  "stringMapsEqual m n =
     (if length (remdups (map fst m)) \<noteq> length (remdups (map fst n)) then False
      else list_all (\<lambda>k. map_of n k = map_of m k) (remdups (map fst m)))"

definition capability_set :: "string list \<Rightarrow> string list" where
  "capability_set cs = remdups (map normalizeCapability cs)"

definition sysctl_map :: "sysctl list \<Rightarrow> (string, string) gomap" where
  "sysctl_map ss = foldl (\<lambda>m s. AList.update (sysctl_name s) (sysctl_value s) m) [] ss"

definition sortedSysctlPairs :: "(string, string) gomap \<Rightarrow> string list" where
  "sortedSysctlPairs m = sort (map (\<lambda>(n, v). n @ ''='' @ v) m)"

definition verify_service_parity ::
  "string \<Rightarrow> (string, composePrivilegeService) gomap \<Rightarrow> service_hardening
     \<Rightarrow> privilege_reason wdm_error option" where
  "verify_service_parity aid proj h =
     (case map_of proj (hard_service h) of
        None \<Rightarrow> Some (RedactedVerification (HardenedAbsent aid (hard_service h)))
      | Some s \<Rightarrow>
          (let declaredCaps = capability_set (declared_caps h);
               renderedCaps = capability_set (pv_cap_add s);
               declaredSysctls = sysctl_map (hard_sysctls h)
           in or_else (refuse_if (\<not> stringSetsEqual declaredCaps renderedCaps)
                 (RedactedVerification
                   (CapsDiffer aid (hard_service h) (sort declaredCaps) (sort renderedCaps))))
             (or_else (refuse_if (\<not> stringMapsEqual declaredSysctls (pv_sysctls s))
                 (RedactedVerification (SysctlsDiffer aid (hard_service h)
                    (sortedSysctlPairs declaredSysctls) (sortedSysctlPairs (pv_sysctls s)))))
               (refuse_if (pv_privileged s \<noteq> hard_privileged h)
                 (RedactedVerification
                   (PrivilegedDiffers aid (hard_service h) (hard_privileged h) (pv_privileged s)))))))"

definition verifyRenderedPrivilegeParity ::
  "app \<Rightarrow> (string, composePrivilegeService) gomap \<Rightarrow> privilege_reason wdm_error option" where
  "verifyRenderedPrivilegeParity a proj =
     first_err (verify_service_parity (app_id a) proj) (app_service_hardening a)"

definition verifyContainerPrivilegeMatchCatalog ::
  "yaml_lib \<Rightarrow> app \<Rightarrow> string \<Rightarrow> privilege_reason wdm_error option" where
  "verifyContainerPrivilegeMatchCatalog lib a bytes =
     or_else (verifyCatalogPrivilegeDeclarations a)
       (case decode_privilege lib bytes of
          None \<Rightarrow> Some (RedactedVerification (PrivUnparsed (app_id a)))
        | Some proj \<Rightarrow>
            or_else (verifyRenderedPrivilegeBounds a proj (declaredHardeningServices a))
              (verifyRenderedPrivilegeParity a proj))"

subsection \<open>The set and map comparisons\<close>

lemma stringSetsEqual_set:
  assumes "distinct xs" "distinct ys"
  shows "stringSetsEqual xs ys \<longleftrightarrow> set xs = set ys"
proof
  assume "stringSetsEqual xs ys"
  then have "length xs = length ys" "set xs \<subseteq> set ys"
    by (auto simp: stringSetsEqual_def list_all_iff split: if_splits)
  with assms show "set xs = set ys" by (intro card_subset_keys_eq)
next
  assume "set xs = set ys"
  with assms show "stringSetsEqual xs ys"
    by (simp add: stringSetsEqual_def list_all_iff distinct_card [symmetric])
qed

lemma stringMapsEqual_map: "stringMapsEqual m n \<longleftrightarrow> map_of m = map_of n"
proof
  let ?M = "remdups (map fst m)" and ?N = "remdups (map fst n)"
  assume "stringMapsEqual m n"
  then have len: "length ?M = length ?N" and eq: "\<forall>k \<in> keys_of m. map_of n k = map_of m k"
    by (auto simp: stringMapsEqual_def list_all_iff keys_of_def split: if_splits)
  from eq have "set ?M \<subseteq> set ?N"
    by (metis keys_of_def keys_of_iff list.set_map set_remdups subsetI)
  with len have "set ?M = set ?N" by (intro card_subset_keys_eq) auto
  then have k: "keys_of m = keys_of n" by (simp add: keys_of_def)
  show "map_of m = map_of n"
  proof
    fix x show "map_of m x = map_of n x"
      using eq k by (metis keys_of_iff)
  qed
next
  assume eq: "map_of m = map_of n"
  then have "set (remdups (map fst m)) = set (remdups (map fst n))"
    by (metis keys_of_def keys_of_dom list.set_map set_remdups)
  then have "length (remdups (map fst m)) = length (remdups (map fst n))"
    by (metis distinct_card distinct_remdups)
  with eq show "stringMapsEqual m n" by (simp add: stringMapsEqual_def list_all_iff)
qed

lemma capability_set_eq:
  "stringSetsEqual (capability_set xs) (capability_set ys)
     \<longleftrightarrow> normalizeCapability ` set xs = normalizeCapability ` set ys"
  by (simp add: capability_set_def stringSetsEqual_set)

subsection \<open>The policy\<close>

definition hardening_allowed :: "service_hardening \<Rightarrow> bool" where
  "hardening_allowed h \<longleftrightarrow>
     (\<forall>c \<in> set (declared_caps h). cap_allowed c)
     \<and> (\<forall>s \<in> set (hard_sysctls h). sysctl_allowed (sysctl_name s))
     \<and> hard_devices h = [] \<and> \<not> hard_privileged h"

definition service_bounded :: "bool \<Rightarrow> composePrivilegeService \<Rightarrow> bool" where
  "service_bounded declared s \<longleftrightarrow>
     (\<not> declared \<longrightarrow> pv_cap_add s = [] \<and> pv_sysctls s = [])
     \<and> (\<forall>c \<in> set (pv_cap_add s). cap_allowed c)
     \<and> (\<forall>n \<in> keys_of (pv_sysctls s). sysctl_allowed n)
     \<and> pv_devices s = [] \<and> \<not> pv_privileged s
     \<and> (pv_cap_add s \<noteq> [] \<longrightarrow> capDropContainsAll (pv_cap_drop s))"

definition service_parity :: "service_hardening \<Rightarrow> composePrivilegeService \<Rightarrow> bool" where
  "service_parity h s \<longleftrightarrow>
     normalizeCapability ` set (declared_caps h) = normalizeCapability ` set (pv_cap_add s)
     \<and> map_of (sysctl_map (hard_sysctls h)) = map_of (pv_sysctls s)
     \<and> pv_privileged s = hard_privileged h"

definition privilege_match :: "app \<Rightarrow> (string, composePrivilegeService) gomap \<Rightarrow> bool" where
  "privilege_match a proj \<longleftrightarrow>
     (\<forall>h \<in> set (app_service_hardening a). hardening_allowed h)
     \<and> (\<forall>name s. map_of proj name = Some s \<longrightarrow>
          service_bounded (name \<in> declaredHardeningServices a) s)
     \<and> (\<forall>h \<in> set (app_service_hardening a).
          \<exists>s. map_of proj (hard_service h) = Some s \<and> service_parity h s)"

definition privilege_policy :: "yaml_lib \<Rightarrow> app \<times> string \<Rightarrow> bool" where
  "privilege_policy lib x = (case x of (a, bytes) \<Rightarrow>
     \<exists>proj. decode_privilege lib bytes = Some proj \<and> privilege_match a proj)"

subsection \<open>Correctness\<close>

lemma hardening_decl_accepts: "verify_hardening_decl aid h = None \<longleftrightarrow> hardening_allowed h"
  by (auto simp: verify_hardening_decl_def hardening_allowed_def err_simps)

lemma service_bounds_accepts:
  "verify_service_bounds aid declared name s = None \<longleftrightarrow> service_bounded (name \<in> declared) s"
  by (auto simp: verify_service_bounds_def service_bounded_def err_simps keys_of_def)

lemma service_parity_accepts:
  "verify_service_parity aid proj h = None
     \<longleftrightarrow> (\<exists>s. map_of proj (hard_service h) = Some s \<and> service_parity h s)"
  by (auto simp: verify_service_parity_def service_parity_def Let_def err_simps capability_set_eq
      stringMapsEqual_map split: option.splits)

lemma privilege_accepts:
  "verifyContainerPrivilegeMatchCatalog lib a bytes = None \<longleftrightarrow> privilege_policy lib (a, bytes)"
  by (auto simp: verifyContainerPrivilegeMatchCatalog_def privilege_policy_def privilege_match_def
      verifyCatalogPrivilegeDeclarations_def verifyRenderedPrivilegeBounds_def
      verifyRenderedPrivilegeParity_def err_simps hardening_decl_accepts service_bounds_accepts
      service_parity_accepts all_keys [where P = "\<lambda>k v. service_bounded (k \<in> _) v"]
      split: option.splits)

lemma service_parity_class: "errs_in verification_class (verify_service_parity aid proj h)"
  by (auto simp: verify_service_parity_def Let_def split: option.splits)

lemma privilege_class: "errs_in verification_class (verifyContainerPrivilegeMatchCatalog lib a bytes)"
  by (auto simp: verifyContainerPrivilegeMatchCatalog_def verifyCatalogPrivilegeDeclarations_def
      verifyRenderedPrivilegeBounds_def verifyRenderedPrivilegeParity_def verify_hardening_decl_def
      verify_service_bounds_def service_parity_class split: option.splits)

interpretation privilege: policy
    "\<lambda>(a, bytes). verifyContainerPrivilegeMatchCatalog lib a bytes" "privilege_policy lib" for lib
  by unfold_locales (auto simp: privilege_accepts privilege_class)

subsection \<open>Consequences\<close>

lemma cap_allowed_names: "cap_allowed c \<Longrightarrow> normalizeCapability c \<noteq> ''SYS_MODULE''"
  by (auto simp: cap_allowed_def allowedCapabilities_def)

lemma accepted_service_bounded:
  assumes "privilege_match a proj" "map_of proj name = Some s"
  shows "\<not> pv_privileged s" "pv_devices s = []" "c \<in> set (pv_cap_add s) \<Longrightarrow> cap_allowed c"
    "pv_cap_add s \<noteq> [] \<Longrightarrow> name \<in> declaredHardeningServices a \<and> capDropContainsAll (pv_cap_drop s)"
  using assms by (auto simp: privilege_match_def service_bounded_def)

subsection \<open>Properties\<close>

text \<open>
  C3: the privilege check accepts a rendered compose exactly when the catalog's declarations stay
  inside the allow-lists, every rendered service stays inside them (no privileged mode, no device,
  capabilities only with cap_drop ALL and only where declared), and every declaring service renders
  exactly the capabilities and sysctls it declares.
\<close>

theorem privilege_enforced:
  "verifyContainerPrivilegeMatchCatalog lib a bytes = None \<longleftrightarrow>
     (\<exists>proj. decode_privilege lib bytes = Some proj
        \<and> (\<forall>h \<in> set (app_service_hardening a). hardening_allowed h)
        \<and> (\<forall>name s. map_of proj name = Some s \<longrightarrow>
             service_bounded (name \<in> declaredHardeningServices a) s)
        \<and> (\<forall>h \<in> set (app_service_hardening a).
             \<exists>s. map_of proj (hard_service h) = Some s \<and> service_parity h s))"
  using privilege.accepts [of lib "(a, bytes)"] by (simp add: privilege_policy_def privilege_match_def)

lemma demo_caps:
  "normalizeCapability ''CAP_NET_ADMIN'' = ''NET_ADMIN''" "normalizeCapability ''NET_ADMIN'' = ''NET_ADMIN''"
  by (simp_all add: normalizeCapability_def trim_prefix_def trim_eval case_eval)

lemma demo_drop: "capDropContainsAll [''ALL'']"
  by (simp add: capDropContainsAll_def trim_eval case_eval)

lemma demo_hardening:
  "app_service_hardening demo_app = [zero_hardening\<lparr>hard_service := ''vpn'',
       hard_capabilities := Some \<lparr>cap_add = [''NET_ADMIN'']\<rparr>,
       hard_sysctls := [\<lparr>sysctl_name = ''net.ipv4.ip_forward'', sysctl_value = ''1''\<rparr>],
       hard_host_module_mount := True\<rparr>]"
  by (simp add: demo_app_def)

lemma demo_hardening_ok:
  assumes "h \<in> set (app_service_hardening demo_app)"
  shows "hard_service h = ''vpn''" "declared_caps h = [''NET_ADMIN'']"
    "sysctl_map (hard_sysctls h) = [(''net.ipv4.ip_forward'', ''1'')]"
    "hard_privileged h = False" "hardening_allowed h"
  using assms
  by (simp_all add: demo_hardening zero_hardening_def hardening_allowed_def declared_caps_def cap_allowed_def
      demo_caps allowedCapabilities_def sysctl_allowed_def allowedSysctls_def sysctl_map_def)

lemma demo_declared: "declaredHardeningServices demo_app = {''vpn''}"
  by (simp add: declaredHardeningServices_def demo_hardening zero_hardening_def)

lemma demo_bounded:
  "service_bounded True \<lparr>pv_cap_add = [''CAP_NET_ADMIN''], pv_cap_drop = [''ALL''],
         pv_sysctls = [(''net.ipv4.ip_forward'', ''1'')], pv_devices = [], pv_privileged = False\<rparr>"
  "service_bounded False \<lparr>pv_cap_add = [], pv_cap_drop = [''ALL''], pv_sysctls = [], pv_devices = [],
         pv_privileged = False\<rparr>"
  by (simp_all add: service_bounded_def cap_allowed_def demo_caps allowedCapabilities_def sysctl_allowed_def
      allowedSysctls_def keys_of_def demo_drop)

theorem privilege_enforced_witness:
  "verifyContainerPrivilegeMatchCatalog demo_yaml demo_app demo_compose = None"
proof -
  let ?s = "\<lparr>pv_cap_add = [''CAP_NET_ADMIN''], pv_cap_drop = [''ALL''],
         pv_sysctls = [(''net.ipv4.ip_forward'', ''1'')], pv_devices = [], pv_privileged = False\<rparr>"
  have "service_parity h ?s" if "h \<in> set (app_service_hardening demo_app)" for h
    by (simp add: service_parity_def demo_hardening_ok [OF that] demo_caps)
  then show ?thesis
    unfolding privilege_enforced demo_privilege demo_declared
    by (auto simp: demo_hardening_ok demo_bounded split: if_splits)
qed

end
