(* ===== verification/Go_Paths.thy ===== *)
theory Go_Paths
  imports Go_Strings
begin

text \<open>
  Go's lexical path functions on Unix: \<open>path.Clean\<close> (which \<open>filepath.Clean\<close> is there),
  \<open>path.Base\<close>, \<open>filepath.Join\<close>, \<open>IsAbs\<close>, \<open>IsLocal\<close> and \<open>Rel\<close>. A path is treated through
  its components between slashes.
\<close>

subsection \<open>Clean\<close>

text \<open>The components kept so far are on a stack, last one first.\<close>

fun clean_comps :: "bool \<Rightarrow> string list \<Rightarrow> string list \<Rightarrow> string list" where
  "clean_comps rooted out [] = rev out"
| "clean_comps rooted out (w # ws) =
     (if w = [] \<or> w = ''.'' then clean_comps rooted out ws
      else if w = ''..'' then
        (case out of
           [] \<Rightarrow> (if rooted then clean_comps rooted [] ws else clean_comps rooted [''..''] ws)
         | x # xs \<Rightarrow>
             (if x = ''..'' then clean_comps rooted (''..'' # out) ws
              else clean_comps rooted xs ws))
      else clean_comps rooted (w # out) ws)"

definition is_abs :: "string \<Rightarrow> bool" where
  "is_abs s = has_prefix s ''/''"

definition path_clean :: "string \<Rightarrow> string" where
  "path_clean s =
     (let rooted = is_abs s;
          body = join_with ''/'' (clean_comps rooted [] (split_on (CHR ''/'') s))
      in if rooted then ''/'' @ body else if body = [] then ''.'' else body)"

text \<open>The components of a path as a file system reads them.\<close>

definition comps :: "string \<Rightarrow> string list" where
  "comps s = filter (\<lambda>w. w \<noteq> []) (split_on (CHR ''/'') s)"

text \<open>Components a cleaned absolute path is made of.\<close>

definition plain_comp :: "string \<Rightarrow> bool" where
  "plain_comp w \<longleftrightarrow> w \<noteq> [] \<and> w \<noteq> ''.'' \<and> w \<noteq> ''..'' \<and> CHR ''/'' \<notin> set w"

lemma clean_comps_plain:
  assumes "\<forall>w \<in> set ws. CHR ''/'' \<notin> set w" "list_all plain_comp out"
  shows "list_all plain_comp (clean_comps True out ws)"
  using assms
proof (induction ws arbitrary: out)
  case Nil
  then show ?case by (simp add: list_all_iff)
next
  case (Cons w ws)
  consider "w = [] \<or> w = ''.''" | "w = ''..''" | "plain_comp w"
    using Cons.prems(1) by (auto simp: plain_comp_def)
  then show ?case
  proof cases
    case 1
    with Cons show ?thesis by auto
  next
    case 2
    with Cons show ?thesis by (cases out) (auto simp: plain_comp_def)
  next
    case 3
    then have "clean_comps True out (w # ws) = clean_comps True (w # out) ws"
      by (simp add: plain_comp_def)
    with 3 Cons show ?thesis by simp
  qed
qed

lemma clean_comps_id:
  "list_all plain_comp ws \<Longrightarrow> clean_comps True out ws = rev out @ ws"
  by (induction ws arbitrary: out) (auto simp: plain_comp_def)

lemma is_abs_iff: "is_abs s \<longleftrightarrow> (\<exists>r. s = CHR ''/'' # r)"
  by (cases s) (auto simp: is_abs_def)

lemma clean_comps_blank: "clean_comps r out ([] # ws) = clean_comps r out ws"
  by simp

definition clean_abs :: "string \<Rightarrow> string list" where
  "clean_abs s = clean_comps True [] (split_on (CHR ''/'') s)"

lemma clean_abs_plain: "list_all plain_comp (clean_abs s)"
  unfolding clean_abs_def using split_on_parts by (intro clean_comps_plain) auto

lemma path_clean_abs: "is_abs s \<Longrightarrow> path_clean s = CHR ''/'' # join_with ''/'' (clean_abs s)"
  by (simp add: path_clean_def clean_abs_def)

lemma is_abs_clean: "is_abs s \<Longrightarrow> is_abs (path_clean s)"
  by (simp add: path_clean_abs is_abs_iff)

lemma comps_abs_join:
  assumes "list_all plain_comp ws"
  shows "comps (CHR ''/'' # join_with ''/'' ws) = ws"
proof (cases "ws = []")
  case True
  then show ?thesis by (simp add: comps_def)
next
  case False
  have "\<forall>w \<in> set ws. CHR ''/'' \<notin> set w" using assms by (auto simp: list_all_iff plain_comp_def)
  with False have "split_on (CHR ''/'') (join_with ''/'' ws) = ws"
    using split_join by blast
  moreover have "filter (\<lambda>w. w \<noteq> []) ws = ws"
    using assms by (auto simp: list_all_iff plain_comp_def intro: filter_True)
  ultimately show ?thesis by (simp add: comps_def)
qed

lemma comps_path_clean: "is_abs s \<Longrightarrow> comps (path_clean s) = clean_abs s"
  by (simp add: path_clean_abs comps_abs_join clean_abs_plain)

lemma clean_abs_join: "list_all plain_comp ws \<Longrightarrow> clean_abs (CHR ''/'' # join_with ''/'' ws) = ws"
proof -
  assume a: "list_all plain_comp ws"
  show ?thesis
  proof (cases "ws = []")
    case True
    then show ?thesis by (simp add: clean_abs_def)
  next
    case False
    have "\<forall>w \<in> set ws. CHR ''/'' \<notin> set w" using a by (auto simp: list_all_iff plain_comp_def)
    with False have "split_on (CHR ''/'') (join_with ''/'' ws) = ws"
      using split_join by blast
    with a show ?thesis by (simp add: clean_abs_def clean_comps_id)
  qed
qed

lemma clean_abs_idem: "is_abs s \<Longrightarrow> clean_abs (path_clean s) = clean_abs s"
  by (simp add: path_clean_abs clean_abs_join clean_abs_plain)

lemma path_clean_idem: "is_abs s \<Longrightarrow> path_clean (path_clean s) = path_clean s"
  by (simp add: path_clean_abs [of "path_clean s"] is_abs_clean clean_abs_idem)
    (simp add: path_clean_abs)

lemma path_clean_inject:
  assumes "is_abs s" "is_abs t"
  shows "path_clean s = path_clean t \<longleftrightarrow> clean_abs s = clean_abs t"
  using assms comps_path_clean by (metis path_clean_abs)

subsection \<open>Base and Join\<close>

definition path_base :: "string \<Rightarrow> string" where
  "path_base s =
     (if s = [] then ''.''
      else let t = rev (dropWhile (\<lambda>c. c = CHR ''/'') (rev s));
               b = last (split_on (CHR ''/'') t)
           in if b = [] then ''/'' else b)"

definition path_join :: "string \<Rightarrow> string \<Rightarrow> string" where
  "path_join a b =
     (if a \<noteq> [] then path_clean (a @ ''/'' @ b)
      else if b \<noteq> [] then path_clean b else [])"

text \<open>The base of a cleaned absolute path is its last component.\<close>

lemma join_with_last:
  "ws \<noteq> [] \<Longrightarrow> last ws \<noteq> [] \<Longrightarrow> join_with sep ws \<noteq> [] \<and> last (join_with sep ws) = last (last ws)"
  by (induction ws rule: induct_list012) (auto split: if_splits)

lemma path_base_clean:
  assumes "is_abs s"
  shows "path_base (path_clean s) = (if clean_abs s = [] then ''/'' else last (clean_abs s))"
proof (cases "clean_abs s = []")
  case True
  with assms show ?thesis by (simp add: path_clean_abs path_base_def)
next
  case False
  let ?ws = "clean_abs s"
  from False clean_abs_plain [of s] have last: "plain_comp (last ?ws)"
    by (simp add: list_all_iff)
  then have "last ?ws \<noteq> []" by (simp add: plain_comp_def)
  with False join_with_last have j: "join_with ''/'' ?ws \<noteq> []"
    "last (join_with ''/'' ?ws) = last (last ?ws)" by blast+
  have "last (last ?ws) \<noteq> CHR ''/''"
    using last by (metis last_in_set plain_comp_def)
  with j have "last (path_clean s) \<noteq> CHR ''/''" by (simp add: path_clean_abs assms)
  then have "dropWhile (\<lambda>c. c = CHR ''/'') (rev (path_clean s)) = rev (path_clean s)"
    by (cases "path_clean s" rule: rev_cases) auto
  moreover have "split_on (CHR ''/'') (path_clean s) = [] # ?ws"
  proof -
    have "\<forall>w \<in> set ?ws. CHR ''/'' \<notin> set w"
      using clean_abs_plain [of s] by (auto simp: list_all_iff plain_comp_def)
    with False have "split_on (CHR ''/'') (join_with ''/'' ?ws) = ?ws" using split_join by blast
    then show ?thesis by (simp add: path_clean_abs assms)
  qed
  ultimately show ?thesis
    using False \<open>last ?ws \<noteq> []\<close> assms by (simp add: path_base_def path_clean_abs)
qed

subsection \<open>IsLocal and Rel\<close>

definition is_local :: "string \<Rightarrow> bool" where
  "is_local s =
     (if is_abs s \<or> s = [] then False
      else let dots = list_ex (\<lambda>w. w = ''.'' \<or> w = ''..'') (split_on (CHR ''/'') s);
               p = (if dots then path_clean s else s)
           in \<not> (p = ''..'' \<or> has_prefix p ''../''))"

fun strip_common :: "string list \<Rightarrow> string list \<Rightarrow> string list \<times> string list" where
  "strip_common (b # bs) (t # ts) = (if b = t then strip_common bs ts else (b # bs, t # ts))"
| "strip_common bs ts = (bs, ts)"

text \<open>
  \<open>filepath.Rel\<close> on two absolute paths: both are cleaned, the common leading components dropped,
  and one \<open>..\<close> is written for every component of the base that is left. On absolute paths it does
  not fail: no component of a cleaned absolute path is \<open>..\<close>.
\<close>

definition rel_abs :: "string \<Rightarrow> string \<Rightarrow> string" where
  "rel_abs base targ =
     (case strip_common (clean_abs base) (clean_abs targ) of
        (bs, ts) \<Rightarrow>
          (if bs = [] \<and> ts = [] then ''.''
           else join_with ''/'' (map (\<lambda>_. ''..'') bs @ ts)))"

lemma strip_common_prefix: "strip_common xs ys = ([], ts) \<Longrightarrow> ys = xs @ ts"
  by (induction xs ys rule: strip_common.induct) (auto split: if_splits)

lemma strip_common_append [simp]: "strip_common xs (xs @ ts) = ([], ts)"
  by (induction xs) (cases ts, auto)

lemma strip_common_rest: "strip_common xs ys = (bs, ts) \<Longrightarrow> set ts \<subseteq> set ys"
  by (induction xs ys rule: strip_common.induct) (auto split: if_splits)

subsection \<open>Dir and ValidPath\<close>

definition path_dir :: "string \<Rightarrow> string" where
  "path_dir s = path_clean (rev (dropWhile (\<lambda>c. c \<noteq> CHR ''/'') (rev s)))"

text \<open>
  \<open>utf8.ValidString\<close>: a lead byte says how many continuation bytes follow and bounds the first.
\<close>

definition utf8_lead :: "nat \<Rightarrow> (nat \<times> nat \<times> nat) option" where
  "utf8_lead b =
     (if b < 128 then Some (0, 128, 191)
      else if 194 \<le> b \<and> b \<le> 223 then Some (1, 128, 191)
      else if b = 224 then Some (2, 160, 191)
      else if b = 237 then Some (2, 128, 159)
      else if 225 \<le> b \<and> b \<le> 239 then Some (2, 128, 191)
      else if b = 240 then Some (3, 144, 191)
      else if 241 \<le> b \<and> b \<le> 243 then Some (3, 128, 191)
      else if b = 244 then Some (3, 128, 143)
      else None)"

fun utf8_from :: "nat \<Rightarrow> nat \<Rightarrow> nat \<Rightarrow> string \<Rightarrow> bool" where
  "utf8_from n lo hi [] = (n = 0)"
| "utf8_from 0 lo hi (c # s) =
     (case utf8_lead (byte c) of None \<Rightarrow> False | Some (n, lo', hi') \<Rightarrow> utf8_from n lo' hi' s)"
| "utf8_from (Suc n) lo hi (c # s) = (lo \<le> byte c \<and> byte c \<le> hi \<and> utf8_from n 128 191 s)"

definition valid_utf8 :: "string \<Rightarrow> bool" where
  "valid_utf8 s = utf8_from 0 128 191 s"

lemma utf8_ascii: "\<forall>c \<in> set s. byte c < 128 \<Longrightarrow> utf8_from 0 lo hi s"
  by (induction s arbitrary: lo hi) (auto simp: utf8_lead_def)

text \<open>\<open>fs.ValidPath\<close>: the rooted-nowhere slash paths of an \<open>fs.FS\<close>.\<close>

definition valid_path :: "string \<Rightarrow> bool" where
  "valid_path s \<longleftrightarrow> valid_utf8 s \<and>
     (s = ''.'' \<or> list_all (\<lambda>w. w \<noteq> [] \<and> w \<noteq> ''.'' \<and> w \<noteq> ''..'') (split_on (CHR ''/'') s))"

lemma valid_path_plain:
  assumes "valid_path s" "s \<noteq> ''.''"
  shows "list_all plain_comp (split_on (CHR ''/'') s)"
  using assms split_on_parts [of _ "CHR ''/''" s] by (auto simp: valid_path_def list_all_iff plain_comp_def)

text \<open>Joined under an absolute directory, such a path names something strictly below it.\<close>

lemma split_on_append_sep: "split_on c (a @ c # b) = split_on c a @ split_on c b"
proof (induction a)
  case (Cons x a)
  then show ?case by (cases "split_on c a") (auto split: list.splits)
qed simp

lemma clean_comps_append_plain:
  "list_all plain_comp ws \<Longrightarrow> clean_comps True out (vs @ ws) = clean_comps True out vs @ ws"
proof (induction vs arbitrary: out)
  case Nil
  then show ?case
  proof (induction ws arbitrary: out)
    case (Cons w ws)
    then show ?case by (simp add: plain_comp_def)
  qed simp
next
  case (Cons v vs)
  then show ?case by (auto split: list.splits)
qed

lemma join_valid_path:
  assumes "is_abs d" "valid_path s" "s \<noteq> ''.''"
  shows "clean_abs (path_join d s) = clean_abs d @ split_on (CHR ''/'') s"
proof -
  note p = valid_path_plain [OF assms(2,3)]
  have abs: "is_abs (d @ ''/'' @ s)" "d \<noteq> []" using assms(1) by (auto simp: is_abs_iff)
  have "clean_abs (path_join d s) = clean_abs (d @ ''/'' @ s)"
    using abs by (simp add: path_join_def clean_abs_idem)
  also have "\<dots> = clean_abs d @ split_on (CHR ''/'') s"
    using split_on_append_sep [of "CHR ''/''" d s] clean_comps_append_plain [OF p] by (simp add: clean_abs_def)
  finally show ?thesis .
qed

end
