(* ===== verification/Socket_Policy.thy ===== *)
theory Socket_Policy
  imports Demo_Stack Catalog Compose_Yaml Verify_Contract Go_Paths
begin

text \<open>
  \<open>verifySocketPolicyMatchCatalog\<close>: the Docker socket reaches a container only through a declared,
  enabled proxy sidecar, whose networks are all internal.
\<close>

subsection \<open>Model\<close>

datatype socket_reason =
    SocketUnparsed string
  | PermissionOutside string string
  | ProxyNetworkUnknown string string
  | ProxyNetworkPublic string string
  | ProxyUnpinned string string
  | DirectSocketMount string string
  | ProxyNetworksUnparsed string
  | ProxyAbsent string string
  | ProxyUnattached string string
  | ProxyOnPublicNetwork string string string

definition allowedSocketProxyPermissions :: "string list" where
  "allowedSocketProxyPermissions =
     [''CONTAINERS'', ''IMAGES'', ''NETWORKS'', ''VOLUMES'', ''INFO'', ''EVENTS'', ''PING'',
      ''VERSION'', ''POST'']"

definition normalizeSocketPermission :: "string \<Rightarrow> string" where
  "normalizeSocketPermission name = to_upper (trim_space name)"

definition socketProxyAllowsControl :: "string list \<Rightarrow> bool" where
  "socketProxyAllowsControl allowedAPI =
     list_ex (\<lambda>perm. normalizeSocketPermission perm = ''POST'') allowedAPI"

definition isDockerSocketSource :: "string \<Rightarrow> bool" where
  "isDockerSocketSource source =
     (let trimmed = trim_space source
      in if trimmed = [] then False else path_base (path_clean trimmed) = ''docker.sock'')"

definition permission_allowed :: "string \<Rightarrow> bool" where
  "permission_allowed perm \<longleftrightarrow> normalizeSocketPermission perm \<in> set allowedSocketProxyPermissions"

definition verifyCatalogSocketDeclaration :: "app \<Rightarrow> socket_reason wdm_error option" where
  "verifyCatalogSocketDeclaration a =
     (case app_socket_proxy a of
        None \<Rightarrow> None
      | Some proxy \<Rightarrow>
          or_else (first_err (\<lambda>perm. refuse_if (\<not> permission_allowed perm)
             (CatalogVerification (PermissionOutside (app_id a) perm))) (sp_allowed_api proxy))
          (case List.find (\<lambda>n. net_name n = sp_network proxy) (app_networks a) of
             None \<Rightarrow> Some (CatalogVerification (ProxyNetworkUnknown (app_id a) (sp_network proxy)))
           | Some n \<Rightarrow>
               (if \<not> net_internal n
                then Some (CatalogVerification (ProxyNetworkPublic (app_id a) (sp_network proxy)))
                else if list_ex (\<lambda>pin. pin_service pin = sp_service proxy) (app_image_pins a) then None
                else Some (CatalogVerification (ProxyUnpinned (app_id a) (sp_service proxy))))))"

text \<open>The service the checks (B) and (C) treat as the proxy: declared, enabled, named.\<close>

definition active_proxy :: "app \<Rightarrow> string option" where
  "active_proxy a =
     (case app_socket_proxy a of
        None \<Rightarrow> None
      | Some proxy \<Rightarrow> if sp_enabled proxy \<and> sp_service proxy \<noteq> [] then Some (sp_service proxy) else None)"

definition verifyRenderedNoDirectSocketMount ::
  "app \<Rightarrow> (string, string list) gomap \<Rightarrow> socket_reason wdm_error option" where
  "verifyRenderedNoDirectSocketMount a proj =
     first_err (\<lambda>name.
       if active_proxy a = Some name then None
       else first_err (\<lambda>source. refuse_if (isDockerSocketSource source)
              (RedactedVerification (DirectSocketMount (app_id a) name))) (get_or [] proj name))
       (sorted_keys proj)"

definition internalNetworkNames :: "app \<Rightarrow> string set" where
  "internalNetworkNames a = net_name ` {n \<in> set (app_networks a). net_internal n}"

definition verifyRenderedProxyNetworkInternal ::
  "yaml_lib \<Rightarrow> app \<Rightarrow> string \<Rightarrow> socket_reason wdm_error option" where
  "verifyRenderedProxyNetworkInternal lib a bytes =
     (case active_proxy a of
        None \<Rightarrow> None
      | Some proxy \<Rightarrow>
     (case decode_ipam lib bytes of
        None \<Rightarrow> Some (RedactedVerification (ProxyNetworksUnparsed (app_id a)))
      | Some proj \<Rightarrow>
     (case map_of proj proxy of
        None \<Rightarrow> Some (RedactedVerification (ProxyAbsent (app_id a) proxy))
      | Some nets \<Rightarrow>
          (let attached = sorted_keys nets
           in if attached = [] then Some (RedactedVerification (ProxyUnattached (app_id a) proxy))
              else first_err (\<lambda>n. refuse_if (n \<notin> internalNetworkNames a)
                (RedactedVerification (ProxyOnPublicNetwork (app_id a) proxy n))) attached))))"

definition verifySocketPolicyMatchCatalog ::
  "yaml_lib \<Rightarrow> app \<Rightarrow> string \<Rightarrow> socket_reason wdm_error option" where
  "verifySocketPolicyMatchCatalog lib a bytes =
     or_else (verifyCatalogSocketDeclaration a)
       (case decode_socket lib bytes of
          None \<Rightarrow> Some (RedactedVerification (SocketUnparsed (app_id a)))
        | Some proj \<Rightarrow>
            or_else (verifyRenderedNoDirectSocketMount a proj)
              (verifyRenderedProxyNetworkInternal lib a bytes))"

subsection \<open>The policy\<close>

definition proxy_declaration_ok :: "app \<Rightarrow> bool" where
  "proxy_declaration_ok a \<longleftrightarrow>
     (\<forall>proxy. app_socket_proxy a = Some proxy \<longrightarrow>
        (\<forall>perm \<in> set (sp_allowed_api proxy). permission_allowed perm)
        \<and> (\<exists>n. List.find (\<lambda>n. net_name n = sp_network proxy) (app_networks a) = Some n \<and> net_internal n)
        \<and> (\<exists>pin \<in> set (app_image_pins a). pin_service pin = sp_service proxy))"

definition socket_only_in_proxy :: "app \<Rightarrow> (string, string list) gomap \<Rightarrow> bool" where
  "socket_only_in_proxy a proj \<longleftrightarrow>
     (\<forall>name sources source. map_of proj name = Some sources \<longrightarrow> source \<in> set sources \<longrightarrow>
        isDockerSocketSource source \<longrightarrow> active_proxy a = Some name)"

definition proxy_isolated :: "app \<Rightarrow> (string, (string, string) gomap) gomap \<Rightarrow> bool" where
  "proxy_isolated a nets \<longleftrightarrow>
     (\<forall>proxy. active_proxy a = Some proxy \<longrightarrow>
        (\<exists>m. map_of nets proxy = Some m \<and> keys_of m \<noteq> {} \<and> keys_of m \<subseteq> internalNetworkNames a))"

definition socket_policy :: "yaml_lib \<Rightarrow> app \<times> string \<Rightarrow> bool" where
  "socket_policy lib x = (case x of (a, bytes) \<Rightarrow>
     proxy_declaration_ok a
     \<and> (\<exists>proj. decode_socket lib bytes = Some proj \<and> socket_only_in_proxy a proj)
     \<and> (active_proxy a = None \<or> (\<exists>nets. decode_ipam lib bytes = Some nets \<and> proxy_isolated a nets)))"

subsection \<open>Correctness\<close>

lemma socket_declaration_accepts: "verifyCatalogSocketDeclaration a = None \<longleftrightarrow> proxy_declaration_ok a"
  by (auto simp: verifyCatalogSocketDeclaration_def proxy_declaration_ok_def err_simps list_ex_iff
      split: option.splits)

lemma direct_mount_accepts:
  "verifyRenderedNoDirectSocketMount a proj = None \<longleftrightarrow> socket_only_in_proxy a proj"
  by (auto simp: verifyRenderedNoDirectSocketMount_def socket_only_in_proxy_def err_simps keys_of_iff
      get_or_def split: option.splits if_splits)

lemma sorted_keys_Nil [simp]: "sorted_keys m = [] \<longleftrightarrow> keys_of m = {}"
  by (metis set_empty set_sorted_keys)

lemma proxy_network_accepts:
  "verifyRenderedProxyNetworkInternal lib a bytes = None
     \<longleftrightarrow> active_proxy a = None \<or> (\<exists>nets. decode_ipam lib bytes = Some nets \<and> proxy_isolated a nets)"
  by (auto simp: verifyRenderedProxyNetworkInternal_def proxy_isolated_def Let_def err_simps
      split: option.splits)

lemma socket_accepts: "verifySocketPolicyMatchCatalog lib a bytes = None \<longleftrightarrow> socket_policy lib (a, bytes)"
  by (auto simp: verifySocketPolicyMatchCatalog_def socket_policy_def err_simps
      socket_declaration_accepts direct_mount_accepts proxy_network_accepts split: option.splits)

lemma socket_class: "errs_in verification_class (verifySocketPolicyMatchCatalog lib a bytes)"
  by (auto simp: verifySocketPolicyMatchCatalog_def verifyCatalogSocketDeclaration_def
      verifyRenderedNoDirectSocketMount_def verifyRenderedProxyNetworkInternal_def Let_def
      split: option.splits)

interpretation socket: policy
    "\<lambda>(a, bytes). verifySocketPolicyMatchCatalog lib a bytes" "socket_policy lib" for lib
  by unfold_locales (auto simp: socket_accepts socket_class)

text \<open>An absolute source is the socket exactly when its last component, after resolving dots, is.\<close>

lemma socket_source_abs:
  assumes "is_abs (trim_space source)"
  shows "isDockerSocketSource source \<longleftrightarrow>
    clean_abs (trim_space source) \<noteq> [] \<and> last (clean_abs (trim_space source)) = ''docker.sock''"
  using assms by (auto simp: isDockerSocketSource_def Let_def path_base_clean is_abs_iff)

subsection \<open>Properties\<close>

text \<open>
  C8: the socket check accepts a rendered compose exactly when the declared proxy asks only for the nine recognised
  permissions (the eight read scopes and the write switch \<open>POST\<close>), names a network the catalog declares and
  declares internal, and runs a service with an image pin; no service but the enabled proxy mounts a
  Docker socket; and the enabled proxy is attached to at least one network and only to networks
  the catalog declares internal.
\<close>

theorem socket_policy_enforced:
  "verifySocketPolicyMatchCatalog lib a bytes = None \<longleftrightarrow>
     (\<forall>proxy. app_socket_proxy a = Some proxy \<longrightarrow>
        (\<forall>perm \<in> set (sp_allowed_api proxy). normalizeSocketPermission perm \<in>
           {''CONTAINERS'', ''IMAGES'', ''NETWORKS'', ''VOLUMES'', ''INFO'', ''EVENTS'', ''PING'', ''VERSION'', ''POST''})
        \<and> (\<exists>n. List.find (\<lambda>n. net_name n = sp_network proxy) (app_networks a) = Some n \<and> net_internal n)
        \<and> (\<exists>pin \<in> set (app_image_pins a). pin_service pin = sp_service proxy))
     \<and> (\<exists>proj. decode_socket lib bytes = Some proj \<and> socket_only_in_proxy a proj)
     \<and> (active_proxy a = None \<or> (\<exists>nets. decode_ipam lib bytes = Some nets \<and> proxy_isolated a nets))"
  using socket.accepts [of lib "(a, bytes)"]
  by (simp add: socket_policy_def proxy_declaration_ok_def permission_allowed_def allowedSocketProxyPermissions_def)

lemma demo_proxy: "active_proxy demo_app = Some ''proxy''" "proxy_declaration_ok demo_app"
  by (simp_all add: demo_defs active_proxy_def proxy_declaration_ok_def permission_allowed_def
      normalizeSocketPermission_def allowedSocketProxyPermissions_def trim_eval case_eval)

lemma demo_internal: "internalNetworkNames demo_app = {''sock''}"
  by (force simp: internalNetworkNames_def demo_defs)

lemma demo_not_socket: "\<not> isDockerSocketSource ''/lib/modules''"
  by (simp add: isDockerSocketSource_def path_clean_def is_abs_def Let_def path_base_def trim_eval)

theorem socket_policy_enforced_witness:
  "verifySocketPolicyMatchCatalog demo_yaml demo_app demo_compose = None"
  unfolding socket_policy_enforced demo_sources demo_networks
  using demo_proxy(2) unfolding proxy_declaration_ok_def permission_allowed_def allowedSocketProxyPermissions_def
  by (auto simp: demo_proxy(1) demo_internal socket_only_in_proxy_def proxy_isolated_def keys_of_def
      demo_not_socket split: if_splits)

end
