(* ===== verification/Module_Mount.thy ===== *)
theory Module_Mount
  imports Demo_Stack Catalog Compose_Yaml Verify_Contract Go_Paths
begin

text \<open>
  \<open>verifyHostModuleMountMatchCatalog\<close>: only services the catalog declares may bind the host's
  \<open>/lib/modules\<close>, and a declaring service binds it read-only at the same path.
\<close>

subsection \<open>Model\<close>

datatype module_reason =
    ModulesUnparsed string
  | ModuleMountUndeclared string string
  | ModuleServiceAbsent string string
  | ModuleMountMissing string string
  | ModuleTargetWrong string string string
  | ModuleMountWritable string string

definition hostModulePath :: string where
  "hostModulePath = ''/lib/modules''"

definition isHostModuleSource :: "string \<Rightarrow> bool" where
  "isHostModuleSource source =
     (let trimmed = trim_space source
      in if trimmed = [] then False else path_clean trimmed = hostModulePath)"

definition declaredModuleMountServices :: "app \<Rightarrow> string list" where
  "declaredModuleMountServices a =
     remdups (map hard_service (filter hard_host_module_mount (app_service_hardening a)))"

definition verifyRenderedModuleMountBounds ::
  "app \<Rightarrow> (string, composeModuleVolume list) gomap \<Rightarrow> string list \<Rightarrow> module_reason wdm_error option" where
  "verifyRenderedModuleMountBounds a proj declared =
     first_err (\<lambda>name.
       if name \<in> set declared then None
       else first_err (\<lambda>v. refuse_if (isHostModuleSource (mv_source v))
              (RedactedVerification (ModuleMountUndeclared (app_id a) name))) (get_or [] proj name))
       (sorted_keys proj)"

definition verify_module_parity ::
  "string \<Rightarrow> (string, composeModuleVolume list) gomap \<Rightarrow> string \<Rightarrow> module_reason wdm_error option" where
  "verify_module_parity aid proj name =
     (case map_of proj name of
        None \<Rightarrow> Some (RedactedVerification (ModuleServiceAbsent aid name))
      | Some volumes \<Rightarrow>
     (case List.find (\<lambda>v. isHostModuleSource (mv_source v)) volumes of
        None \<Rightarrow> Some (RedactedVerification (ModuleMountMissing aid name))
      | Some v \<Rightarrow>
          (if path_clean (trim_space (mv_target v)) \<noteq> hostModulePath
           then Some (RedactedVerification (ModuleTargetWrong aid name (mv_target v)))
           else if \<not> mv_read_only v
           then Some (RedactedVerification (ModuleMountWritable aid name))
           else None)))"

definition verifyRenderedModuleMountParity ::
  "app \<Rightarrow> (string, composeModuleVolume list) gomap \<Rightarrow> string list \<Rightarrow> module_reason wdm_error option" where
  "verifyRenderedModuleMountParity a proj declared =
     first_err (verify_module_parity (app_id a) proj) (sort declared)"

definition verifyHostModuleMountMatchCatalog ::
  "yaml_lib \<Rightarrow> app \<Rightarrow> string \<Rightarrow> module_reason wdm_error option" where
  "verifyHostModuleMountMatchCatalog lib a bytes =
     (case decode_module lib bytes of
        None \<Rightarrow> Some (RedactedVerification (ModulesUnparsed (app_id a)))
      | Some proj \<Rightarrow>
          (let declared = declaredModuleMountServices a
           in or_else (verifyRenderedModuleMountBounds a proj declared)
                (verifyRenderedModuleMountParity a proj declared)))"

subsection \<open>The policy\<close>

definition module_mount :: "composeModuleVolume \<Rightarrow> bool" where
  "module_mount v \<longleftrightarrow> isHostModuleSource (mv_source v)"

definition module_mount_ok :: "composeModuleVolume \<Rightarrow> bool" where
  "module_mount_ok v \<longleftrightarrow> path_clean (trim_space (mv_target v)) = hostModulePath \<and> mv_read_only v"

definition modules_match :: "app \<Rightarrow> (string, composeModuleVolume list) gomap \<Rightarrow> bool" where
  "modules_match a proj \<longleftrightarrow>
     (\<forall>name volumes. map_of proj name = Some volumes \<longrightarrow>
        (\<exists>v \<in> set volumes. module_mount v) \<longrightarrow> name \<in> set (declaredModuleMountServices a))
     \<and> (\<forall>name \<in> set (declaredModuleMountServices a).
          \<exists>volumes v. map_of proj name = Some volumes \<and> List.find module_mount volumes = Some v
            \<and> module_mount_ok v)"

definition modules_policy :: "yaml_lib \<Rightarrow> app \<times> string \<Rightarrow> bool" where
  "modules_policy lib x = (case x of (a, bytes) \<Rightarrow>
     \<exists>proj. decode_module lib bytes = Some proj \<and> modules_match a proj)"

subsection \<open>Correctness\<close>

lemma module_parity_accepts:
  "verify_module_parity aid proj name = None \<longleftrightarrow>
     (\<exists>volumes v. map_of proj name = Some volumes \<and> List.find module_mount volumes = Some v
        \<and> module_mount_ok v)"
  unfolding module_mount_def [abs_def]
  by (auto simp: verify_module_parity_def module_mount_ok_def split: option.splits)

lemma module_bounds_accepts:
  "verifyRenderedModuleMountBounds a proj declared = None \<longleftrightarrow>
     (\<forall>name volumes. map_of proj name = Some volumes \<longrightarrow>
        (\<exists>v \<in> set volumes. module_mount v) \<longrightarrow> name \<in> set declared)"
  by (fastforce simp: verifyRenderedModuleMountBounds_def module_mount_def err_simps keys_of_iff
      get_or_def split: option.splits if_splits)

lemma modules_accepts:
  "verifyHostModuleMountMatchCatalog lib a bytes = None \<longleftrightarrow> modules_policy lib (a, bytes)"
  by (simp add: verifyHostModuleMountMatchCatalog_def modules_policy_def modules_match_def
      module_bounds_accepts verifyRenderedModuleMountParity_def module_parity_accepts err_simps
      Let_def split: option.splits)

lemma modules_class: "errs_in verification_class (verifyHostModuleMountMatchCatalog lib a bytes)"
  by (auto simp: verifyHostModuleMountMatchCatalog_def verifyRenderedModuleMountBounds_def
      verifyRenderedModuleMountParity_def verify_module_parity_def Let_def split: option.splits)

interpretation modules: policy
    "\<lambda>(a, bytes). verifyHostModuleMountMatchCatalog lib a bytes" "modules_policy lib" for lib
  by unfold_locales (auto simp: modules_accepts modules_class)

lemma module_source_abs:
  assumes "is_abs (trim_space source)"
  shows "isHostModuleSource source \<longleftrightarrow> clean_abs (trim_space source) = [''lib'', ''modules'']"
proof -
  have "is_abs hostModulePath" "clean_abs hostModulePath = [''lib'', ''modules'']"
    "path_clean hostModulePath = hostModulePath"
    by (simp_all add: hostModulePath_def is_abs_def clean_abs_def path_clean_def)
  then have "path_clean (trim_space source) = hostModulePath
      \<longleftrightarrow> clean_abs (trim_space source) = [''lib'', ''modules'']"
    using path_clean_inject [OF assms, of hostModulePath] by simp
  then show ?thesis using assms by (auto simp: isHostModuleSource_def is_abs_iff Let_def)
qed

subsection \<open>Properties\<close>

text \<open>
  The module check accepts a rendered compose exactly when only declaring services bind the host's
  kernel modules and the first such mount of every declaring service is read-only at the same path.
\<close>

lemma module_mounts_enforced:
  "verifyHostModuleMountMatchCatalog lib a bytes = None \<longleftrightarrow>
     (\<exists>proj. decode_module lib bytes = Some proj
        \<and> (\<forall>name volumes. map_of proj name = Some volumes \<longrightarrow>
             (\<exists>v \<in> set volumes. module_mount v) \<longrightarrow> name \<in> set (declaredModuleMountServices a))
        \<and> (\<forall>name \<in> set (declaredModuleMountServices a).
             \<exists>volumes v. map_of proj name = Some volumes \<and> List.find module_mount volumes = Some v
               \<and> module_mount_ok v))"
  using modules.accepts [of lib "(a, bytes)"] by (simp add: modules_policy_def modules_match_def)

lemma module_mounts_enforced_witness:
  "verifyHostModuleMountMatchCatalog demo_yaml demo_app demo_compose = None"
  unfolding module_mounts_enforced demo_modules
  by (simp add: demo_defs declaredModuleMountServices_def module_mount_def module_mount_ok_def isHostModuleSource_def
      path_clean_def is_abs_def Let_def trim_eval hostModulePath_def)

text \<open>
  After the first, further mounts of the kernel modules are not looked at: in a declaring service
  with one good mount, any list of other mounts may follow, read-write ones included.
\<close>

lemma module_mount_only_first:
  assumes "module_mount v" "module_mount_ok v"
  shows "verify_module_parity aid [(name, v # others)] name = None"
  using assms by (simp add: module_parity_accepts)

lemma module_mount_only_first_witness:
  "verify_module_parity ''app''
     [(''vpn'', [\<lparr>mv_source = ''/lib/modules'', mv_target = ''/lib/modules'', mv_read_only = True\<rparr>,
                 \<lparr>mv_source = ''/lib/modules'', mv_target = ''/mnt'', mv_read_only = False\<rparr>])] ''vpn'' = None"
proof -
  let ?v = "\<lparr>mv_source = ''/lib/modules'', mv_target = ''/lib/modules'', mv_read_only = True\<rparr>"
  have "trim_space ''/lib/modules'' = ''/lib/modules''"
    by (simp add: trim_space_def trim_start.simps space_codes_def char_of_def)
  then have "module_mount ?v" "module_mount_ok ?v"
    by (simp_all add: module_mount_def module_mount_ok_def isHostModuleSource_def hostModulePath_def
        path_clean_def is_abs_def Let_def)
  then show ?thesis by (rule module_mount_only_first)
qed

end
