(* ===== verification/Ipam_Policy.thy ===== *)
theory Ipam_Policy
  imports Demo_Stack Catalog Compose_Yaml Verify_Contract Go_Net
begin

text \<open>
  \<open>verifyNetworkIPAMMatchCatalog\<close>: the static IPv4 addresses of the rendered compose are exactly the
  addresses the catalog's IPAM declares, and those are well-formed.
\<close>

subsection \<open>Keys\<close>

text \<open>\<open>ipamAddressKey\<close>, ordered as \<open>sortedIPAMKeys\<close> orders it: by network, then by service.\<close>

datatype ipam_key = IpamKey (key_network: string) (key_service: string)

definition ipam_before :: "ipam_key \<Rightarrow> ipam_key \<Rightarrow> bool" where
  "ipam_before a b \<longleftrightarrow> (if key_network a \<noteq> key_network b
     then key_network a < key_network b else key_service a < key_service b)"

instantiation ipam_key :: linorder
begin

definition less_eq_ipam_key :: "ipam_key \<Rightarrow> ipam_key \<Rightarrow> bool" where
  "less_eq_ipam_key a b \<longleftrightarrow> (if key_network a \<noteq> key_network b
     then key_network a < key_network b else key_service a \<le> key_service b)"

definition less_ipam_key :: "ipam_key \<Rightarrow> ipam_key \<Rightarrow> bool" where
  "less_ipam_key a b \<longleftrightarrow> ipam_before a b"

instance
  by standard
    (auto simp: less_eq_ipam_key_def less_ipam_key_def ipam_before_def split: if_splits intro: ipam_key.expand)

end

subsection \<open>Model\<close>

datatype ipam_reason =
    SubnetInvalid string string string
  | GatewayOutside string string string string
  | AddressOutside string string string string
  | AddressServiceUnknown string string string
  | IpamUnparsed string
  | IpamServiceAbsent string string
  | StaticIpDiffers string string string string string
  | StaticIpUndeclared string string string

definition serviceDeclaredInCatalog :: "app \<Rightarrow> string \<Rightarrow> bool" where
  "serviceDeclaredInCatalog a service \<longleftrightarrow>
     list_ex (\<lambda>pin. pin_service pin = service) (app_image_pins a)
     \<or> list_ex (\<lambda>p. port_service p = service) (app_ports a)"

definition address_step :: "app \<Rightarrow> network \<Rightarrow> network_ipam \<Rightarrow> addr4 \<times> nat
    \<Rightarrow> (ipam_key, string) gomap \<Rightarrow> ipam_address \<Rightarrow> ipam_reason wdm_error + (ipam_key, string) gomap" where
  "address_step a n ipam subnet declared x =
     (case parse_addr4 (addr_ipv4 x) of
        None \<Rightarrow> Inl (CatalogVerification
          (AddressOutside (app_id a) (net_name n) (addr_ipv4 x) (ipam_subnet ipam)))
      | Some addr \<Rightarrow>
          (if \<not> prefix_contains subnet addr
           then Inl (CatalogVerification
             (AddressOutside (app_id a) (net_name n) (addr_ipv4 x) (ipam_subnet ipam)))
           else if \<not> serviceDeclaredInCatalog a (addr_service x)
           then Inl (CatalogVerification
             (AddressServiceUnknown (app_id a) (net_name n) (addr_service x)))
           else Inr (AList.update (IpamKey (net_name n) (addr_service x)) (format_addr4 addr) declared)))"

definition gateway_ok :: "addr4 \<times> nat \<Rightarrow> string \<Rightarrow> bool" where
  "gateway_ok subnet gw \<longleftrightarrow> gw = []
     \<or> (case parse_addr4 gw of None \<Rightarrow> False | Some g \<Rightarrow> prefix_contains subnet g)"

definition network_step :: "app \<Rightarrow> (ipam_key, string) gomap \<Rightarrow> network
    \<Rightarrow> ipam_reason wdm_error + (ipam_key, string) gomap" where
  "network_step a declared n =
     (case net_ipam n of
        None \<Rightarrow> Inr declared
      | Some ipam \<Rightarrow>
     (case parse_prefix4 (ipam_subnet ipam) of
        None \<Rightarrow> Inl (CatalogVerification
          (SubnetInvalid (app_id a) (net_name n) (ipam_subnet ipam)))
      | Some prefix \<Rightarrow>
          (let canonicalSubnet = masked prefix
           in guardE (refuse_if (\<not> gateway_ok canonicalSubnet (ipam_gateway ipam))
                 (CatalogVerification (GatewayOutside (app_id a) (net_name n)
                    (ipam_gateway ipam) (ipam_subnet ipam))))
                (foldE (address_step a n ipam canonicalSubnet) declared (ipam_addresses ipam)))))"

definition validateCatalogIPAMDeclarations ::
  "app \<Rightarrow> ipam_reason wdm_error + (ipam_key, string) gomap" where
  "validateCatalogIPAMDeclarations a = foldE (network_step a) [] (app_networks a)"

definition verifyRenderedIPAMParity :: "app \<Rightarrow> (string, (string, string) gomap) gomap
    \<Rightarrow> (ipam_key, string) gomap \<Rightarrow> ipam_reason wdm_error option" where
  "verifyRenderedIPAMParity a proj declared =
     first_err (\<lambda>key.
       case map_of proj (key_service key) of
         None \<Rightarrow> Some (RedactedVerification (IpamServiceAbsent (app_id a) (key_service key)))
       | Some nets \<Rightarrow>
           refuse_if (map_of nets (key_network key) \<noteq> Some (get_or [] declared key))
             (RedactedVerification (StaticIpDiffers (app_id a) (key_service key) (key_network key)
                (get_or [] declared key) (get_or [] nets (key_network key)))))
       (sorted_keys declared)"

definition verifyRenderedIPAMBounds :: "app \<Rightarrow> (string, (string, string) gomap) gomap
    \<Rightarrow> (ipam_key, string) gomap \<Rightarrow> ipam_reason wdm_error option" where
  "verifyRenderedIPAMBounds a proj declared =
     first_err (\<lambda>svc.
       let nets = get_or [] proj svc
       in first_err (\<lambda>net.
            if get_or [] nets net = [] then None
            else refuse_if (map_of declared (IpamKey net svc) = None)
              (RedactedVerification (StaticIpUndeclared (app_id a) svc net)))
          (sorted_keys nets))
       (sorted_keys proj)"

definition verifyNetworkIPAMMatchCatalog ::
  "yaml_lib \<Rightarrow> app \<Rightarrow> string \<Rightarrow> ipam_reason wdm_error option" where
  "verifyNetworkIPAMMatchCatalog lib a bytes =
     (case validateCatalogIPAMDeclarations a of
        Inl e \<Rightarrow> Some e
      | Inr declared \<Rightarrow>
     (case decode_ipam lib bytes of
        None \<Rightarrow> Some (RedactedVerification (IpamUnparsed (app_id a)))
      | Some proj \<Rightarrow>
          or_else (verifyRenderedIPAMParity a proj declared)
            (verifyRenderedIPAMBounds a proj declared)))"

subsection \<open>The policy\<close>

text \<open>A static address a service pins on a network; an empty text pins none.\<close>

definition pinned_ip :: "(string, (string, string) gomap) gomap \<Rightarrow> string \<Rightarrow> string \<Rightarrow> string option" where
  "pinned_ip proj svc net =
     (case map_of proj svc of None \<Rightarrow> None
      | Some nets \<Rightarrow> (case map_of nets net of None \<Rightarrow> None
          | Some ip \<Rightarrow> if ip = [] then None else Some ip))"

definition address_valid :: "app \<Rightarrow> addr4 \<times> nat \<Rightarrow> ipam_address \<Rightarrow> bool" where
  "address_valid a subnet x \<longleftrightarrow>
     (\<exists>addr. parse_addr4 (addr_ipv4 x) = Some addr \<and> prefix_contains subnet addr)
     \<and> serviceDeclaredInCatalog a (addr_service x)"

definition network_valid :: "app \<Rightarrow> network \<Rightarrow> bool" where
  "network_valid a n \<longleftrightarrow> (\<forall>ipam. net_ipam n = Some ipam \<longrightarrow>
     (\<exists>subnet. parse_prefix4 (ipam_subnet ipam) = Some subnet
        \<and> gateway_ok subnet (ipam_gateway ipam)
        \<and> (\<forall>x \<in> set (ipam_addresses ipam). address_valid a subnet x)))"

definition canonical_ip :: "string \<Rightarrow> string" where
  "canonical_ip s = (case parse_addr4 s of None \<Rightarrow> [] | Some addr \<Rightarrow> format_addr4 addr)"

definition declared_pairs :: "network \<Rightarrow> (ipam_key \<times> string) list" where
  "declared_pairs n = (case net_ipam n of None \<Rightarrow> []
     | Some ipam \<Rightarrow> map (\<lambda>x. (IpamKey (net_name n) (addr_service x), canonical_ip (addr_ipv4 x)))
         (ipam_addresses ipam))"

text \<open>The address declared for a service on a network; of several declarations the last one counts.\<close>

definition declared_ip :: "app \<Rightarrow> string \<Rightarrow> string \<Rightarrow> string option" where
  "declared_ip a svc net = map_of (rev (concat (map declared_pairs (app_networks a)))) (IpamKey net svc)"

definition ipam_policy :: "yaml_lib \<Rightarrow> app \<times> string \<Rightarrow> bool" where
  "ipam_policy lib x = (case x of (a, bytes) \<Rightarrow>
     (\<forall>n \<in> set (app_networks a). network_valid a n)
     \<and> (\<exists>proj. decode_ipam lib bytes = Some proj \<and> (\<forall>svc net. pinned_ip proj svc net = declared_ip a svc net)))"

subsection \<open>What the declarations amount to\<close>

lemma gateway_ok_masked: "gateway_ok (masked p) gw = gateway_ok p gw"
  by (cases p) (simp add: gateway_ok_def prefix_contains_masked split: option.splits)

lemma prefix_contains_masked': "prefix_contains (masked p) a = prefix_contains p a"
  by (cases p) (simp add: prefix_contains_masked)

lemma address_step_Inr:
  "address_step a n ipam (masked p) m x =
     (if address_valid a p x
      then Inr (AList.update (IpamKey (net_name n) (addr_service x)) (canonical_ip (addr_ipv4 x)) m)
      else address_step a n ipam (masked p) m x)"
  "\<not> address_valid a p x \<Longrightarrow> \<exists>e. address_step a n ipam (masked p) m x = Inl e"
  by (auto simp: address_step_def address_valid_def canonical_ip_def prefix_contains_masked'
      split: option.splits)

lemma map_of_updates_rev:
  "map_of (foldl (\<lambda>m kv. AList.update (fst kv) (snd kv) m) m kvs) = map_of m ++ map_of (rev kvs)"
  by (induction kvs arbitrary: m) (auto simp: map_add_def fun_eq_iff split: option.splits)

lemma addresses_fold:
  "foldE (address_step a n ipam (masked p)) m xs = Inr m' \<Longrightarrow>
     (\<forall>x \<in> set xs. address_valid a p x)
     \<and> m' = foldl (\<lambda>m kv. AList.update (fst kv) (snd kv) m) m
         (map (\<lambda>x. (IpamKey (net_name n) (addr_service x), canonical_ip (addr_ipv4 x))) xs)"
proof (induction xs arbitrary: m)
  case (Cons x xs)
  have v: "address_valid a p x"
  proof (rule ccontr)
    assume "\<not> address_valid a p x"
    from address_step_Inr(2) [OF this] obtain e where
      "address_step a n ipam (masked p) m x = Inl e" by blast
    with Cons.prems show False by simp
  qed
  then have "address_step a n ipam (masked p) m x =
      Inr (AList.update (IpamKey (net_name n) (addr_service x)) (canonical_ip (addr_ipv4 x)) m)"
    using address_step_Inr(1) [of a n ipam p m x] by simp
  with Cons.prems v Cons.IH show ?case by simp
qed simp

lemma addresses_fold_ok:
  "\<forall>x \<in> set xs. address_valid a p x \<Longrightarrow> \<exists>m'. foldE (address_step a n ipam (masked p)) m xs = Inr m'"
proof (induction xs arbitrary: m)
  case (Cons x xs)
  then have "address_step a n ipam (masked p) m x =
      Inr (AList.update (IpamKey (net_name n) (addr_service x)) (canonical_ip (addr_ipv4 x)) m)"
    using address_step_Inr(1) [of a n ipam p m x] by simp
  with Cons show ?case by simp
qed simp

lemma network_step_Inr:
  "network_step a m n = Inr m' \<Longrightarrow>
     network_valid a n \<and> m' = foldl (\<lambda>m kv. AList.update (fst kv) (snd kv) m) m (declared_pairs n)"
  by (cases "net_ipam n")
    (auto simp: network_step_def network_valid_def declared_pairs_def Let_def err_simps
      gateway_ok_masked dest!: addresses_fold split: option.splits)

lemma network_step_ok: "network_valid a n \<Longrightarrow> \<exists>m'. network_step a m n = Inr m'"
  by (cases "net_ipam n")
    (auto simp: network_step_def network_valid_def Let_def gateway_ok_masked guardE_def refuse_if_def
      intro: addresses_fold_ok)

lemma declarations_Inr:
  "foldE (network_step a) m ns = Inr m' \<Longrightarrow>
     (\<forall>n \<in> set ns. network_valid a n)
     \<and> m' = foldl (\<lambda>m kv. AList.update (fst kv) (snd kv) m) m (concat (map declared_pairs ns))"
  by (induction ns arbitrary: m) (auto simp: err_simps dest!: network_step_Inr)

lemma declarations_ok:
  "\<forall>n \<in> set ns. network_valid a n \<Longrightarrow> \<exists>m'. foldE (network_step a) m ns = Inr m'"
proof (induction ns arbitrary: m)
  case (Cons n ns)
  then obtain m1 where "network_step a m n = Inr m1" using network_step_ok by force
  with Cons show ?case by simp
qed simp

lemma validate_lookup:
  assumes "validateCatalogIPAMDeclarations a = Inr d"
  shows "map_of d (IpamKey net svc) = declared_ip a svc net"
  using declarations_Inr [OF assms [unfolded validateCatalogIPAMDeclarations_def]]
  by (simp add: map_of_updates_rev declared_ip_def)

lemma validate_total:
  "(\<exists>d. validateCatalogIPAMDeclarations a = Inr d) \<longleftrightarrow> (\<forall>n \<in> set (app_networks a). network_valid a n)"
  unfolding validateCatalogIPAMDeclarations_def
  using declarations_Inr declarations_ok by blast

lemma format_addr4_not_Nil [simp]: "format_addr4 w \<noteq> []"
  by (simp add: format_addr4_def Let_def)

lemma declared_ip_not_Nil:
  assumes "\<forall>n \<in> set (app_networks a). network_valid a n" "declared_ip a svc net = Some ip"
  shows "ip \<noteq> []"
proof -
  from assms(2) have "(IpamKey net svc, ip) \<in> set (concat (map declared_pairs (app_networks a)))"
    unfolding declared_ip_def by (metis map_of_SomeD set_rev)
  then obtain n where n: "n \<in> set (app_networks a)" and dp: "(IpamKey net svc, ip) \<in> set (declared_pairs n)"
    by auto
  from dp obtain ipam where ipam: "net_ipam n = Some ipam"
    by (cases "net_ipam n") (auto simp: declared_pairs_def)
  with dp obtain x where x: "x \<in> set (ipam_addresses ipam)" and ip: "ip = canonical_ip (addr_ipv4 x)"
    by (auto simp: declared_pairs_def)
  from n ipam x assms(1) obtain addr where "parse_addr4 (addr_ipv4 x) = Some addr"
    by (fastforce simp: network_valid_def address_valid_def)
  with ip show ?thesis by (simp add: canonical_ip_def)
qed

lemma pinned_ip_Some:
  "ip \<noteq> [] \<Longrightarrow> pinned_ip proj svc net = Some ip
     \<longleftrightarrow> (\<exists>nets. map_of proj svc = Some nets \<and> map_of nets net = Some ip)"
  by (auto simp: pinned_ip_def split: option.splits)

subsection \<open>Correctness\<close>

lemma ipam_parity_accepts:
  assumes "validateCatalogIPAMDeclarations a = Inr d"
  shows "verifyRenderedIPAMParity a proj d = None \<longleftrightarrow>
    (\<forall>svc net ip. declared_ip a svc net = Some ip \<longrightarrow> pinned_ip proj svc net = Some ip)"
proof -
  note valid = validate_total [THEN iffD1, OF exI, OF assms]
  have "verifyRenderedIPAMParity a proj d = None \<longleftrightarrow>
      (\<forall>svc net ip. map_of d (IpamKey net svc) = Some ip \<longrightarrow>
         (\<exists>nets. map_of proj svc = Some nets \<and> map_of nets net = Some ip))"
    (is "_ \<longleftrightarrow> ?R")
  proof -
    have "verifyRenderedIPAMParity a proj d = None \<longleftrightarrow>
      (\<forall>k \<in> keys_of d. \<exists>nets. map_of proj (key_service k) = Some nets
          \<and> map_of nets (key_network k) = Some (get_or [] d k))"
      by (auto simp: verifyRenderedIPAMParity_def err_simps split: option.splits)
    also have "\<dots> \<longleftrightarrow> ?R"
    proof (subst all_keys [where P = "\<lambda>k v. \<exists>nets. map_of proj (key_service k) = Some nets
          \<and> map_of nets (key_network k) = Some v"], intro iffI allI impI)
      fix k v
      assume R: ?R and kv: "map_of d k = Some v"
      from kv have "map_of d (IpamKey (key_network k) (key_service k)) = Some v" by simp
      from R [rule_format, OF this]
      show "\<exists>nets. map_of proj (key_service k) = Some nets \<and> map_of nets (key_network k) = Some v" .
    next
      fix svc net ip
      assume "\<forall>k v. map_of d k = Some v \<longrightarrow> (\<exists>nets. map_of proj (key_service k) = Some nets
          \<and> map_of nets (key_network k) = Some v)" "map_of d (IpamKey net svc) = Some ip"
      from this(1) [rule_format, OF this(2)]
      show "\<exists>nets. map_of proj svc = Some nets \<and> map_of nets net = Some ip" by simp
    qed
    finally show ?thesis .
  qed
  also have "\<dots> \<longleftrightarrow> (\<forall>svc net ip. declared_ip a svc net = Some ip \<longrightarrow> pinned_ip proj svc net = Some ip)"
    unfolding validate_lookup [OF assms]
    by (intro all_cong1 imp_cong refl pinned_ip_Some [symmetric]) (erule declared_ip_not_Nil [OF valid])
  finally show ?thesis .
qed

lemma ipam_bounds_accepts:
  assumes "validateCatalogIPAMDeclarations a = Inr d"
  shows "verifyRenderedIPAMBounds a proj d = None \<longleftrightarrow>
    (\<forall>svc net ip. pinned_ip proj svc net = Some ip \<longrightarrow> declared_ip a svc net \<noteq> None)"
proof -
  have inner: "(\<forall>net \<in> keys_of nets. get_or [] nets net \<noteq> [] \<longrightarrow> map_of d (IpamKey net svc) \<noteq> None)
      \<longleftrightarrow> (\<forall>net ip. map_of nets net = Some ip \<longrightarrow> ip \<noteq> [] \<longrightarrow> map_of d (IpamKey net svc) \<noteq> None)"
    for nets svc
    by (rule all_keys [where P = "\<lambda>net ip. ip \<noteq> [] \<longrightarrow> map_of d (IpamKey net svc) \<noteq> None"])
  have "verifyRenderedIPAMBounds a proj d = None \<longleftrightarrow>
     (\<forall>svc \<in> keys_of proj. \<forall>net \<in> keys_of (get_or [] proj svc).
        get_or [] (get_or [] proj svc) net \<noteq> [] \<longrightarrow> map_of d (IpamKey net svc) \<noteq> None)"
    by (auto simp: verifyRenderedIPAMBounds_def Let_def first_err_None refuse_if_None
        simp del: not_None_eq not_Some_eq)
  also have "\<dots> \<longleftrightarrow>
     (\<forall>svc nets. map_of proj svc = Some nets \<longrightarrow> (\<forall>net ip. map_of nets net = Some ip \<longrightarrow>
        ip \<noteq> [] \<longrightarrow> map_of d (IpamKey net svc) \<noteq> None))"
    unfolding inner by (rule all_keys [where P = "\<lambda>svc nets. \<forall>net ip. map_of nets net = Some ip \<longrightarrow>
        ip \<noteq> [] \<longrightarrow> map_of d (IpamKey net svc) \<noteq> None"])
  also have "\<dots> \<longleftrightarrow> (\<forall>svc net ip. pinned_ip proj svc net = Some ip \<longrightarrow> declared_ip a svc net \<noteq> None)"
    unfolding validate_lookup [OF assms] by (auto simp: pinned_ip_def split: option.splits)
  finally show ?thesis .
qed

lemma ipam_accepts: "verifyNetworkIPAMMatchCatalog lib a bytes = None \<longleftrightarrow> ipam_policy lib (a, bytes)"
proof (cases "validateCatalogIPAMDeclarations a")
  case (Inl e)
  then have "\<not> (\<forall>n \<in> set (app_networks a). network_valid a n)"
    unfolding validate_total [symmetric] by simp
  with Inl show ?thesis by (auto simp: verifyNetworkIPAMMatchCatalog_def ipam_policy_def)
next
  case (Inr d)
  then have "\<forall>n \<in> set (app_networks a). network_valid a n" using validate_total by blast
  moreover have "(\<forall>svc net ip. declared_ip a svc net = Some ip \<longrightarrow> pinned_ip proj svc net = Some ip)
      \<and> (\<forall>svc net ip. pinned_ip proj svc net = Some ip \<longrightarrow> declared_ip a svc net \<noteq> None)
      \<longleftrightarrow> (\<forall>svc net. pinned_ip proj svc net = declared_ip a svc net)" for proj
    by (metis not_Some_eq)
  ultimately show ?thesis using Inr
    by (auto simp: verifyNetworkIPAMMatchCatalog_def ipam_policy_def or_else_None
        ipam_parity_accepts [OF Inr] ipam_bounds_accepts [OF Inr] split: option.splits)
qed

lemma network_step_class: "network_step a m n = Inl e \<Longrightarrow> verification_class e"
  by (auto simp: network_step_def address_step_def Let_def guardE_Inl refuse_if_Some
      dest!: foldE_Inl split: option.splits if_splits)

lemma ipam_class: "errs_in verification_class (verifyNetworkIPAMMatchCatalog lib a bytes)"
  by (auto simp: verifyNetworkIPAMMatchCatalog_def validateCatalogIPAMDeclarations_def
      verifyRenderedIPAMParity_def verifyRenderedIPAMBounds_def Let_def
      dest!: foldE_Inl network_step_class split: option.splits sum.splits)

interpretation ipam: policy "\<lambda>(a, bytes). verifyNetworkIPAMMatchCatalog lib a bytes" "ipam_policy lib"
  for lib
  by unfold_locales (auto simp: ipam_accepts ipam_class)

subsection \<open>Properties\<close>

text \<open>
  C9: the addressing check accepts a rendered compose exactly when the catalog's IPAM declarations are
  well-formed and the static address each service has on each network is the declared one (and there
  is none where none is declared).
\<close>

theorem static_addresses_enforced:
  "verifyNetworkIPAMMatchCatalog lib a bytes = None \<longleftrightarrow>
     (\<forall>n \<in> set (app_networks a). network_valid a n)
     \<and> (\<exists>proj. decode_ipam lib bytes = Some proj
          \<and> (\<forall>svc net. pinned_ip proj svc net = declared_ip a svc net))"
  using ipam.accepts [of lib "(a, bytes)"] by (simp add: ipam_policy_def)

lemma demo_subnet:
  "parse_prefix4 ''10.8.0.0/24'' = Some (168296448, 24)"
  "prefix_contains (168296448, 24) 168296450" "prefix_contains (168296448, 24) 168296449"
  by (simp_all add: parse_prefix4_def rcut_def cut_def parse_addr4_def parse_octets_def octet_def
      addr_of_octets_def go_eval prefix_contains_def)

lemma demo_addresses:
  "parse_addr4 ''10.8.0.2'' = Some 168296450" "parse_addr4 ''10.8.0.1'' = Some 168296449"
  "format_addr4 168296450 = ''10.8.0.2''"
  by (simp_all add: parse_addr4_def parse_octets_def octet_def go_eval addr_of_octets_def
      format_addr4_def Let_def)

theorem static_addresses_enforced_witness:
  "verifyNetworkIPAMMatchCatalog demo_yaml demo_app demo_compose = None"
proof -
  have valid: "\<forall>n \<in> set (app_networks demo_app). network_valid demo_app n"
    by (simp add: demo_defs network_valid_def address_valid_def gateway_ok_def serviceDeclaredInCatalog_def
        demo_subnet demo_addresses)
  have "pinned_ip [(''vpn'', [(''net'', ''10.8.0.2'')]), (''proxy'', [(''sock'', [])]), (''seed'', [])] svc net
      = declared_ip demo_app svc net" for svc net
    by (simp add: pinned_ip_def declared_ip_def declared_pairs_def canonical_ip_def demo_defs demo_addresses)
  with valid show ?thesis by (simp add: static_addresses_enforced demo_networks)
qed

end
