(* ===== verification/Completed_Services.thy ===== *)
theory Completed_Services
  imports Demo_Stack Catalog Verify_Contract Go_Strings
begin

text \<open>
  \<open>verifyCompletedServicesMatchCatalog\<close>: a service earns the exemption of one-shot containers only
  when it has a plain name, is pinned by the catalog and is rendered.
\<close>

subsection \<open>Model\<close>

datatype completed_reason =
    CompletedNameInvalid string string
  | CompletedNotPinned string string
  | CompletedNotRendered string string

text \<open>The pattern \<open>^[a-zA-Z0-9][a-zA-Z0-9_.-]*$\<close>.\<close>

definition name_head :: "char \<Rightarrow> bool" where
  "name_head c \<longleftrightarrow> is_lower c \<or> is_upper c \<or> is_digit c"

definition name_tail :: "char \<Rightarrow> bool" where
  "name_tail c \<longleftrightarrow> name_head c \<or> c \<in> set ''_.-''"

fun completedServiceNamePattern :: "string \<Rightarrow> bool" where
  "completedServiceNamePattern [] = False"
| "completedServiceNamePattern (c # cs) = (name_head c \<and> list_all name_tail cs)"

definition verifyCompletedServicesMatchCatalog ::
  "app \<Rightarrow> (string, (string, string) gomap) gomap \<Rightarrow> completed_reason wdm_error option" where
  "verifyCompletedServicesMatchCatalog a serviceLabels =
     (if app_completed_services a = [] then None
      else let pinned = filter (\<lambda>s. s \<noteq> []) (map pin_service (app_image_pins a))
      in first_err (\<lambda>service.
           or_else (refuse_if (\<not> completedServiceNamePattern service)
             (CatalogVerification (CompletedNameInvalid (app_id a) service)))
           (or_else (refuse_if (service \<notin> set pinned)
             (CatalogVerification (CompletedNotPinned (app_id a) service)))
           (refuse_if (map_of serviceLabels service = None)
             (CatalogVerification (CompletedNotRendered (app_id a) service)))))
         (app_completed_services a))"

subsection \<open>The policy\<close>

definition completed_policy :: "app \<times> (string, (string, string) gomap) gomap \<Rightarrow> bool" where
  "completed_policy x = (case x of (a, labels) \<Rightarrow>
     \<forall>service \<in> set (app_completed_services a).
       completedServiceNamePattern service
       \<and> (\<exists>pin \<in> set (app_image_pins a). pin_service pin = service)
       \<and> service \<in> keys_of labels)"

lemma completed_accepts:
  "verifyCompletedServicesMatchCatalog a labels = None \<longleftrightarrow> completed_policy (a, labels)"
proof (cases "app_completed_services a = []")
  case False
  have "completedServiceNamePattern s \<Longrightarrow> s \<noteq> []" for s by (cases s) simp_all
  then have pinned: "completedServiceNamePattern s \<Longrightarrow>
      s \<in> set (filter (\<lambda>s. s \<noteq> []) (map pin_service (app_image_pins a)))
      \<longleftrightarrow> (\<exists>pin \<in> set (app_image_pins a). pin_service pin = s)" for s
    by auto
  from False show ?thesis
    by (simp add: verifyCompletedServicesMatchCatalog_def completed_policy_def Let_def err_simps
        keys_of_iff del: set_filter set_map not_None_eq)
      (metis pinned)
qed (simp add: verifyCompletedServicesMatchCatalog_def completed_policy_def)

lemma completed_class: "errs_in verification_class (verifyCompletedServicesMatchCatalog a labels)"
  by (auto simp: verifyCompletedServicesMatchCatalog_def Let_def)

interpretation completed: policy "\<lambda>(a, labels). verifyCompletedServicesMatchCatalog a labels"
    completed_policy
  by unfold_locales (auto simp: completed_accepts completed_class)

text \<open>A completed service is never a path or a name with a space.\<close>

lemma completed_name_chars:
  assumes "completedServiceNamePattern s" "c \<in> set s"
  shows "c \<notin> set ''/ ''"
proof -
  from assms have "name_tail c" by (cases s) (auto simp: list_all_iff name_tail_def)
  then show ?thesis
    by (auto simp: name_tail_def name_head_def is_lower_def is_upper_def is_digit_def byte_def)
qed

subsection \<open>Properties\<close>

text \<open>
  The catalog's list of completed services is accepted exactly when each entry has a plain
  service name, is pinned in image_pins and is a service of the rendered compose.
\<close>

lemma completed_services_enforced:
  "verifyCompletedServicesMatchCatalog a labels = None \<longleftrightarrow>
     (\<forall>service \<in> set (app_completed_services a).
        completedServiceNamePattern service
        \<and> (\<exists>pin \<in> set (app_image_pins a). pin_service pin = service)
        \<and> service \<in> keys_of labels)"
  using completed.accepts [of "(a, labels)"] by (simp add: completed_policy_def)

lemma completed_services_enforced_witness:
  "verifyCompletedServicesMatchCatalog demo_app [(''vpn'', []), (''proxy'', []), (''seed'', [])] = None"
  unfolding completed_services_enforced
  by (simp add: demo_defs keys_of_def name_head_def name_tail_def is_digit_def is_lower_def is_upper_def byte_def)

end
