(* ===== verification/Leak_Check.thy ===== *)
theory Leak_Check
  imports Demo_Stack Verify_Contract Go_Strings
begin

text \<open>
  \<open>verifyRenderedNonSecretArtifacts\<close>: no secret of the operation occurs in an artifact that is not
  a secret sink (the compose file, the guidance shown to the operator, and every additional or
  generated file whose mode is not 0600).
\<close>

subsection \<open>Data\<close>

text \<open>\<open>render.RenderedFile\<close> and \<open>render.RenderedStack\<close>.\<close>

record rendered_file =
  file_dest :: string
  file_mode :: string
  file_bytes :: string

record rendered_stack =
  compose_bytes :: string
  env_bytes :: string
  additional_files :: "rendered_file list"
  config_artifacts :: "rendered_file list"
  volume_mounts :: "string list"
  service_labels :: "(string, (string, string) gomap) gomap"

text \<open>\<open>types.PostInstallGuidance\<close> and its parts.\<close>

record pangolin_next_steps =
  target_url :: string
  recommended_subdomain :: string
  next_notes :: "string list"

record generated_credential =
  cred_label :: string
  cred_value :: string
  cred_note :: string

record post_install_guidance =
  local_target_url :: string
  pangolin_next :: "pangolin_next_steps option"
  guidance_notes :: "string list"
  generated_credentials :: "generated_credential list"

subsection \<open>Model\<close>

definition guidance_parts :: "post_install_guidance \<Rightarrow> string list" where
  "guidance_parts g = local_target_url g # guidance_notes g @
     (case pangolin_next g of None \<Rightarrow> []
      | Some p \<Rightarrow> target_url p # recommended_subdomain p # next_notes p)"

definition guidanceText :: "post_install_guidance option \<Rightarrow> string" where
  "guidanceText guidance = (case guidance of None \<Rightarrow> []
     | Some g \<Rightarrow> join_with [CHR 0x0A] (guidance_parts g))"

datatype leak_reason = ContainsSecret string string

definition public_files :: "rendered_file list \<Rightarrow> (string \<times> string) list" where
  "public_files files = map (\<lambda>f. (file_dest f, file_bytes f)) (filter (\<lambda>f. file_mode f \<noteq> ''0600'') files)"

definition non_secret_artifacts ::
  "rendered_stack \<Rightarrow> post_install_guidance option \<Rightarrow> (string \<times> string) list" where
  "non_secret_artifacts stack guidance =
     [(''docker-compose.yml'', compose_bytes stack), (''post-install guidance'', guidanceText guidance)]
     @ public_files (additional_files stack) @ public_files (config_artifacts stack)"

definition verifyRenderedNonSecretArtifacts :: "string list \<Rightarrow> rendered_stack
    \<Rightarrow> post_install_guidance option \<Rightarrow> leak_reason wdm_error option" where
  "verifyRenderedNonSecretArtifacts secrets stack guidance =
     first_err (\<lambda>(name, bytes).
         first_err (\<lambda>secret.
             if secret = [] \<or> \<not> contains bytes secret then None
             else Some (RedactedVerification (ContainsSecret name secret)))
           secrets)
       (non_secret_artifacts stack guidance)"

subsection \<open>The policy\<close>

text \<open>
  What is not a secret: the compose file, what the operator is shown, and the rendered files that are not
  private to the owner.
\<close>

definition holds_secret :: "string \<Rightarrow> string \<Rightarrow> bool" where
  "holds_secret secret t \<longleftrightarrow> (\<exists>pre post. t = pre @ secret @ post)"

definition leak_free :: "string list \<times> rendered_stack \<times> post_install_guidance option \<Rightarrow> bool" where
  "leak_free x = (case x of (secrets, stack, guidance) \<Rightarrow>
     \<forall>secret \<in> set secrets. secret \<noteq> [] \<longrightarrow>
       \<not> holds_secret secret (compose_bytes stack) \<and> \<not> holds_secret secret (guidanceText guidance)
       \<and> (\<forall>f \<in> set (additional_files stack) \<union> set (config_artifacts stack).
            file_mode f \<noteq> ''0600'' \<longrightarrow> \<not> holds_secret secret (file_bytes f)))"

lemma leak_accepts:
  "verifyRenderedNonSecretArtifacts secrets stack guidance = None \<longleftrightarrow> leak_free (secrets, stack, guidance)"
proof -
  have "verifyRenderedNonSecretArtifacts secrets stack guidance = None \<longleftrightarrow>
      (\<forall>(name, bytes) \<in> set (non_secret_artifacts stack guidance). \<forall>secret \<in> set secrets.
         secret = [] \<or> \<not> contains bytes secret)"
    by (simp add: verifyRenderedNonSecretArtifacts_def err_simps case_prod_unfold)
  also have "\<dots> \<longleftrightarrow> leak_free (secrets, stack, guidance)"
    unfolding leak_free_def holds_secret_def contains_iff [symmetric] non_secret_artifacts_def public_files_def
      set_append set_map set_filter ball_Un
    by (simp add: ball_Un) blast
  finally show ?thesis .
qed

lemma leak_class: "errs_in verification_class (verifyRenderedNonSecretArtifacts secrets stack guidance)"
  by (auto simp: verifyRenderedNonSecretArtifacts_def)

interpretation leak: policy
    "\<lambda>(secrets, stack, guidance). verifyRenderedNonSecretArtifacts secrets stack guidance" leak_free
  by unfold_locales (auto simp: leak_accepts leak_class)

text \<open>The joined guidance text hides no part: a secret inside any line the operator sees is found.\<close>

lemma join_with_part: "p \<in> set ps \<Longrightarrow> \<exists>pre post. join_with sep ps = pre @ p @ post"
proof (induction sep ps rule: join_with.induct)
  case (3 sep x y zs)
  show ?case
  proof (cases "p = x")
    case False
    with "3.prems" have "p \<in> set (y # zs)" by simp
    from "3.IH" [OF this] obtain pre post where "join_with sep (y # zs) = pre @ p @ post" by blast
    then have "join_with sep (x # y # zs) = (x @ sep @ pre) @ p @ post" by simp
    then show ?thesis by blast
  next
    case True
    then have "join_with sep (x # y # zs) = [] @ p @ (sep @ join_with sep (y # zs))" by simp
    then show ?thesis by blast
  qed
next
  case (2 sep w)
  then have "join_with sep [w] = [] @ p @ []" by simp
  then show ?case by blast
qed simp

lemma leak_free_guidance:
  assumes "leak_free (secrets, stack, Some g)" "secret \<in> set secrets" "secret \<noteq> []"
    and "p \<in> set (guidance_parts g)"
  shows "\<not> contains p secret"
proof
  assume "contains p secret"
  then obtain a b where "p = a @ secret @ b" by (auto simp: contains_iff)
  moreover obtain pre post where "guidanceText (Some g) = pre @ p @ post"
    using join_with_part [OF assms(4), of "[CHR 0x0A]"] by (auto simp: guidanceText_def)
  ultimately have "guidanceText (Some g) = (pre @ a) @ secret @ (b @ post)" by simp
  then have "holds_secret secret (guidanceText (Some g))" unfolding holds_secret_def by blast
  with assms(1-3) show False by (auto simp: leak_free_def)
qed

subsection \<open>Properties\<close>

definition demo_guidance :: post_install_guidance where
  "demo_guidance = \<lparr>local_target_url = ''http://127.0.0.1:8080'', pangolin_next = None,
     guidance_notes = [''Log in as admin''], generated_credentials = []\<rparr>"

definition demo_stack :: rendered_stack where
  "demo_stack = \<lparr>compose_bytes = ''services: {}'', env_bytes = ''PW=s3cret'',
     additional_files = [\<lparr>file_dest = ''init.sql'', file_mode = ''0600'', file_bytes = ''s3cret''\<rparr>],
     config_artifacts = [], volume_mounts = [], service_labels = []\<rparr>"

text \<open>
  C6: the leak check accepts exactly when no non-empty secret is a sub-string of the compose file, of
  the guidance text, or of any rendered file whose mode is not 0600.
\<close>

theorem leak_check_exact:
  "verifyRenderedNonSecretArtifacts secrets stack guidance = None \<longleftrightarrow>
     (\<forall>secret \<in> set secrets. secret \<noteq> [] \<longrightarrow>
       \<not> holds_secret secret (compose_bytes stack) \<and> \<not> holds_secret secret (guidanceText guidance)
       \<and> (\<forall>f \<in> set (additional_files stack) \<union> set (config_artifacts stack).
            file_mode f \<noteq> ''0600'' \<longrightarrow> \<not> holds_secret secret (file_bytes f)))"
  using leak.accepts [of "(secrets, stack, guidance)"] by (simp add: leak_free_def)

theorem leak_check_exact_witness:
  "verifyRenderedNonSecretArtifacts [''s3cret''] demo_stack (Some demo_guidance) = None"
  unfolding leak_check_exact holds_secret_def contains_iff [symmetric]
  by (simp add: demo_stack_def demo_guidance_def guidanceText_def guidance_parts_def)

text \<open>
  Joining the guidance lines hides nothing: when the check accepts, no line the operator is shown
  contains a secret.
\<close>

lemma leak_check_guidance_lines:
  assumes "verifyRenderedNonSecretArtifacts secrets stack (Some g) = None"
    and "secret \<in> set secrets" "secret \<noteq> []" "line \<in> set (guidance_parts g)"
  shows "\<not> contains line secret"
  using leak.accepts [of "(secrets, stack, Some g)"] assms leak_free_guidance by simp

lemma leak_check_guidance_lines_witness:
  "verifyRenderedNonSecretArtifacts [''s3cret''] demo_stack (Some demo_guidance) = None
   \<and> \<not> contains ''Log in as admin'' ''s3cret''"
proof -
  have run: "verifyRenderedNonSecretArtifacts [''s3cret''] demo_stack (Some demo_guidance) = None"
    by (simp add: verifyRenderedNonSecretArtifacts_def non_secret_artifacts_def public_files_def
        demo_stack_def demo_guidance_def guidanceText_def guidance_parts_def)
  have "''Log in as admin'' \<in> set (guidance_parts demo_guidance)"
    by (simp add: guidance_parts_def demo_guidance_def)
  from leak_check_guidance_lines [OF run _ _ this, of "''s3cret''"] run show ?thesis by simp
qed

end
