(* ===== verification/Security_Paths.thy ===== *)
theory Security_Paths
  imports Wdm_Prelude Go_Paths
begin

text \<open>
  The lexical path policy of \<open>internal/security/paths.go\<close>: the deny-list of write roots, containment
  in a root, the join of a trusted root with an untrusted sub-path, and the symlink-aware containment
  that destructive verbs run before a removal. \<open>filepath.EvalSymlinks\<close> reads the disk and is an
  argument.
\<close>

subsection \<open>Model\<close>

text \<open>
  \<open>ErrUnsafePath\<close> and \<open>ErrPathEscape\<close> with the operands of their messages; \<open>EvalFailed\<close> is an error
  of \<open>EvalSymlinks\<close> passed through unwrapped.
\<close>

datatype path_error =
    ErrUnsafePath string string
  | ErrPathEscape string string
  | EvalFailed os_error

definition unsafeRoots :: "string list" where
  "unsafeRoots =
     [''/'',
      ''/bin'', ''/sbin'', ''/boot'',
      ''/dev'', ''/proc'', ''/sys'',
      ''/etc'',
      ''/lib'', ''/lib32'', ''/lib64'',
      ''/usr'',
      ''/var'',
      ''/root'']"

definition RejectUnsafeRoot :: "string \<Rightarrow> path_error option" where
  "RejectUnsafeRoot path =
     (if path = [] then Some (ErrUnsafePath ''empty'' path)
      else if \<not> is_abs path then Some (ErrUnsafePath ''is not absolute'' path)
      else let cleaned = path_clean path
      in first_err (\<lambda>bad.
           if cleaned = bad then Some (ErrUnsafePath ''is a reserved system path'' cleaned)
           else if bad = ''/'' then None
           else refuse_if (has_prefix cleaned (bad @ ''/'')) (ErrUnsafePath ''is under reserved'' cleaned))
         unsafeRoots)"

definition EnsureWithinRoot :: "string \<Rightarrow> string \<Rightarrow> path_error option" where
  "EnsureWithinRoot root candidate =
     (if root = [] \<or> candidate = [] then Some (ErrUnsafePath ''empty root or candidate'' [])
      else if \<not> is_abs root \<or> \<not> is_abs candidate
      then Some (ErrUnsafePath ''root and candidate must be absolute'' [])
      else let cleanedRoot = path_clean root; cleanedCandidate = path_clean candidate;
               rel = rel_abs cleanedRoot cleanedCandidate
      in refuse_if (\<not> is_local rel) (ErrPathEscape cleanedCandidate cleanedRoot))"

definition SafeJoin :: "string \<Rightarrow> string \<Rightarrow> path_error + string" where
  "SafeJoin root untrustedSub =
     (if root = [] then Inl (ErrUnsafePath ''empty root'' [])
      else if \<not> is_abs root then Inl (ErrUnsafePath ''root must be absolute'' root)
      else if untrustedSub = [] then Inl (ErrUnsafePath ''empty subpath'' [])
      else if \<not> is_local untrustedSub then Inl (ErrPathEscape untrustedSub root)
      else let joined = path_join (path_clean root) untrustedSub
      in guardE (EnsureWithinRoot root joined) (Inr joined))"

text \<open>\<open>strings.Trim(s, "/")\<close>.\<close>

definition trim_slashes :: "string \<Rightarrow> string" where
  "trim_slashes s = rev (dropWhile (\<lambda>c. c = CHR ''/'') (rev (dropWhile (\<lambda>c. c = CHR ''/'') s)))"

definition IsSuspiciouslyShallowPath :: "string \<Rightarrow> bool" where
  "IsSuspiciouslyShallowPath cleaned =
     (let trimmed = trim_slashes cleaned
      in if trimmed = [] then True else \<not> contains trimmed ''/'')"

definition evalCleanPath :: "(string \<Rightarrow> os_error + string) \<Rightarrow> string \<Rightarrow> path_error + string" where
  "evalCleanPath evalSymlinks path =
     (case evalSymlinks path of
        Inl e \<Rightarrow> Inl (EvalFailed e)
      | Inr resolved \<Rightarrow> Inr (path_clean resolved))"

text \<open>The two values and the error of \<open>ResolveContainedPath\<close>.\<close>

definition ResolveContainedPath ::
  "(string \<Rightarrow> os_error + string) \<Rightarrow> string \<Rightarrow> string \<Rightarrow> string \<times> string \<times> path_error option" where
  "ResolveContainedPath evalSymlinks root candidate =
     (case evalCleanPath evalSymlinks root of
        Inl e \<Rightarrow> ([], [], Some e)
      | Inr resolvedRoot \<Rightarrow>
     (case evalCleanPath evalSymlinks candidate of
        Inl e \<Rightarrow> (resolvedRoot, [], Some e)
      | Inr resolvedCandidate \<Rightarrow>
          (resolvedRoot, resolvedCandidate, EnsureWithinRoot resolvedRoot resolvedCandidate)))"

subsection \<open>Containment\<close>

text \<open>The components of \<open>path\<close> start with those of \<open>root\<close>.\<close>

definition under :: "string \<Rightarrow> string \<Rightarrow> bool" where
  "under root path \<longleftrightarrow> (\<exists>ts. clean_abs path = clean_abs root @ ts)"

lemma clean_comps_dotdots:
  "list_all plain_comp ts \<Longrightarrow>
     clean_comps False (replicate k ''..'') (replicate n ''..'' @ ts) = replicate (k + n) ''..'' @ ts"
proof (induction n arbitrary: k)
  case 0
  have "clean_comps False out ts = rev out @ ts" for out
    using 0 by (induction ts arbitrary: out) (auto simp: plain_comp_def)
  then show ?case by simp
next
  case (Suc n)
  have "clean_comps False (replicate k ''..'') (replicate (Suc n) ''..'' @ ts)
      = clean_comps False (replicate (Suc k) ''..'') (replicate n ''..'' @ ts)"
    by (cases k) simp_all
  also have "\<dots> = replicate (Suc k + n) ''..'' @ ts" by (rule Suc.IH [OF Suc.prems])
  finally show ?case by simp
qed

lemma split_plain:
  "list_all plain_comp ws \<Longrightarrow> ws \<noteq> [] \<Longrightarrow> split_on (CHR ''/'') (join_with ''/'' ws) = ws"
  by (rule split_join) (auto simp: list_all_iff plain_comp_def)

lemma prefix_split:
  assumes "list_all plain_comp ws" "ws \<noteq> []" "CHR ''/'' \<notin> set c"
  shows "has_prefix (join_with ''/'' ws) (c @ ''/'') \<longleftrightarrow> hd ws = c \<and> tl ws \<noteq> []"
proof
  assume "has_prefix (join_with ''/'' ws) (c @ ''/'')"
  then obtain r where "join_with ''/'' ws = c @ CHR ''/'' # r" by (auto simp: has_prefix_iff)
  then have "ws = c # split_on (CHR ''/'') r"
    using split_plain [OF assms(1,2)] split_on_sep [OF assms(3)] by metis
  then show "hd ws = c \<and> tl ws \<noteq> []" by simp
next
  assume "hd ws = c \<and> tl ws \<noteq> []"
  then obtain v vs where "ws = c # v # vs" using assms(2) by (cases ws; cases "tl ws") auto
  then show "has_prefix (join_with ''/'' ws) (c @ ''/'')"
    by (simp add: has_prefix_iff)
qed

lemma local_plain:
  assumes "list_all plain_comp ws" "ws \<noteq> []"
  shows "is_local (join_with ''/'' ws)"
proof -
  obtain v vs where ws: "ws = v # vs" using assms(2) by (cases ws) auto
  with assms(1) have v: "v \<noteq> []" "v \<noteq> ''..''" "CHR ''/'' \<notin> set v" by (auto simp: plain_comp_def)
  have split: "split_on (CHR ''/'') (join_with ''/'' ws) = ws" using split_plain assms by blast
  have "\<not> is_abs (join_with ''/'' ws)"
    using v unfolding ws by (cases v; cases vs) (auto simp: is_abs_iff)
  moreover have "join_with ''/'' ws \<noteq> []" using v unfolding ws by (cases vs) auto
  moreover have "join_with ''/'' ws \<noteq> ''..''"
  proof
    assume "join_with ''/'' ws = ''..''"
    with split have "ws = split_on (CHR ''/'') ''..''" by simp
    with v ws show False by simp
  qed
  moreover have "\<not> has_prefix (join_with ''/'' ws) ''../''"
    using prefix_split [OF assms, of "''..''"] v unfolding ws by simp
  moreover have "\<not> list_ex (\<lambda>w. w = ''.'' \<or> w = ''..'') ws"
    using assms(1) by (auto simp: list_all_iff list_ex_iff plain_comp_def)
  ultimately show ?thesis by (simp add: is_local_def split)
qed

lemma not_local_dotdots:
  assumes "list_all plain_comp ts" "n > 0"
  shows "\<not> is_local (join_with ''/'' (replicate n ''..'' @ ts))"
proof -
  let ?ws = "replicate n ''..'' @ ts"
  obtain m where n: "n = Suc m" using assms(2) by (cases n) auto
  have "split_on (CHR ''/'') (join_with ''/'' ?ws) = ?ws"
    using assms by (intro split_join) (auto simp: list_all_iff plain_comp_def)
  moreover have "clean_comps False [] ?ws = ?ws"
    using clean_comps_dotdots [OF assms(1), of 0 n] by simp
  moreover have "\<not> is_abs (join_with ''/'' ?ws)"
    unfolding n by (cases "replicate m ''..'' @ ts") (auto simp: is_abs_iff)
  ultimately have "path_clean (join_with ''/'' ?ws) = join_with ''/'' ?ws"
    unfolding n by (cases "replicate m ''..'' @ ts") (auto simp: path_clean_def Let_def)
  moreover have "join_with ''/'' ?ws = ''..'' \<or> has_prefix (join_with ''/'' ?ws) ''../''"
    unfolding n by (cases "replicate m ''..'' @ ts") auto
  moreover have "list_ex (\<lambda>w. w = ''.'' \<or> w = ''..'') ?ws" unfolding n by simp
  ultimately show ?thesis
    using \<open>split_on (CHR ''/'') (join_with ''/'' ?ws) = ?ws\<close> by (simp add: is_local_def Let_def)
qed

lemma rel_local: "is_local (rel_abs root path) \<longleftrightarrow> under root path"
proof -
  obtain bs ts where st: "strip_common (clean_abs root) (clean_abs path) = (bs, ts)" by fastforce
  then have ts: "list_all plain_comp ts"
    using strip_common_rest clean_abs_plain [of path] by (fastforce simp: list_all_iff)
  show ?thesis
  proof (cases "bs = []")
    case True
    with st have eq: "clean_abs path = clean_abs root @ ts" by (simp add: strip_common_prefix)
    have "is_local (rel_abs root path)"
    proof (cases "ts = []")
      case True
      with st \<open>bs = []\<close> show ?thesis
        by (simp add: rel_abs_def is_local_def is_abs_iff path_clean_def Let_def)
    next
      case False
      with st \<open>bs = []\<close> local_plain [OF ts False] show ?thesis by (simp add: rel_abs_def)
    qed
    with eq show ?thesis by (auto simp: under_def)
  next
    case False
    have dots: "map (\<lambda>_. ''..'') bs = replicate (length bs) ''..''" by (simp add: map_replicate_const)
    from False st have "rel_abs root path = join_with ''/'' (replicate (length bs) ''..'' @ ts)"
      by (simp add: rel_abs_def dots)
    with False not_local_dotdots [OF ts, of "length bs"] have "\<not> is_local (rel_abs root path)" by simp
    moreover have "\<not> under root path"
      using False st by (auto simp: under_def)
    ultimately show ?thesis by blast
  qed
qed

subsection \<open>Joining\<close>

lemma clean_comps_stuck:
  "hd (clean_comps False (xs @ [''..'']) ws) = ''..'' \<and> clean_comps False (xs @ [''..'']) ws \<noteq> []"
proof (induction ws arbitrary: xs)
  case (Cons w ws)
  show ?case
  proof (cases xs)
    case Nil
    then show ?thesis using Cons.IH [of "[]"] Cons.IH [of "[''..'']"] Cons.IH [of "[w]"] by simp
  next
    case (Cons y ys)
    then show ?thesis
      using Cons.IH [of "y # ys"] Cons.IH [of ys] Cons.IH [of "''..'' # y # ys"] Cons.IH [of "w # y # ys"]
      by (cases "y = ''..''"; cases "w = ''..''") simp_all
  qed
qed simp

text \<open>A relative path that does not climb stays above whatever it is appended to.\<close>

lemma clean_comps_on_top:
  assumes "hd (clean_comps False out ws @ [[]]) \<noteq> ''..''" "''..'' \<notin> set out"
  shows "clean_comps True (out @ base) ws = rev base @ clean_comps False out ws"
  using assms
proof (induction ws arbitrary: out)
  case (Cons w ws)
  consider "w = [] \<or> w = ''.''" | "w = ''..''" "out = []" | x xs where "w = ''..''" "out = x # xs"
    | "w \<noteq> []" "w \<noteq> ''.''" "w \<noteq> ''..''"
    by (cases out) auto
  then show ?case
  proof cases
    case 2
    then have "clean_comps False out (w # ws) = clean_comps False [''..''] ws" by simp
    with Cons.prems(1) clean_comps_stuck [of "[]" ws] show ?thesis by (simp add: hd_append)
  next
    case 3
    with Cons.prems have "x \<noteq> ''..''" by auto
    with 3 Cons.prems Cons.IH [of xs] show ?thesis by simp
  next
    case 4
    with Cons.prems Cons.IH [of "w # out"] show ?thesis by simp
  qed (use Cons in auto)
qed simp

lemma local_no_climb:
  assumes "is_local sub"
  shows "hd (clean_comps False [] (split_on (CHR ''/'') sub) @ [[]]) \<noteq> ''..''"
proof (cases "list_ex (\<lambda>w. w = ''.'' \<or> w = ''..'') (split_on (CHR ''/'') sub)")
  case True
  let ?c = "clean_comps False [] (split_on (CHR ''/'') sub)"
  from True assms have c: "path_clean sub \<noteq> ''..''" "\<not> has_prefix (path_clean sub) ''../''" "\<not> is_abs sub"
    by (auto simp: is_local_def split: if_splits)
  show ?thesis
  proof
    assume h: "hd (?c @ [[]]) = ''..''"
    then obtain vs where vs: "?c = ''..'' # vs" by (cases ?c) auto
    with c(3) have "path_clean sub = join_with ''/'' (''..'' # vs)"
      by (cases vs) (simp_all add: path_clean_def Let_def)
    with c(1,2) show False by (cases vs) simp_all
  qed
next
  case False
  have "\<forall>w \<in> set ws. w \<noteq> ''.'' \<and> w \<noteq> ''..'' \<Longrightarrow>
      set (clean_comps False out ws) \<subseteq> set out \<union> set ws" for ws out
  proof (induction ws arbitrary: out)
    case (Cons w ws)
    have "set (clean_comps False (w # out) ws) \<subseteq> insert w (set out) \<union> set ws"
      using Cons.IH [of "w # out"] Cons.prems by simp
    moreover have "set (clean_comps False out ws) \<subseteq> set out \<union> set ws"
      using Cons.IH [of out] Cons.prems by simp
    ultimately show ?case using Cons.prems by (simp add: subset_eq)
  qed simp
  from this [of "split_on (CHR ''/'') sub" "[]"] False
  have "''..'' \<notin> set (clean_comps False [] (split_on (CHR ''/'') sub))"
    by (auto simp: list_ex_iff)
  then show ?thesis
    by (cases "clean_comps False [] (split_on (CHR ''/'') sub)") auto
qed

lemma split_abs_join:
  assumes "list_all plain_comp ws"
  shows "clean_comps True [] (split_on (CHR ''/'') (CHR ''/'' # join_with ''/'' ws @ CHR ''/'' # sub))
     = clean_comps True (rev ws) (split_on (CHR ''/'') sub)"
proof -
  have free: "\<forall>w \<in> set ws. CHR ''/'' \<notin> set w" using assms by (auto simp: list_all_iff plain_comp_def)
  have split: "split_on (CHR ''/'') (join_with ''/'' ws @ CHR ''/'' # sub)
      = (if ws = [] then [[]] else ws) @ split_on (CHR ''/'') sub"
    using free by (induction ws rule: induct_list012) (auto simp: split_on_sep)
  have "clean_comps True out (ws @ vs) = clean_comps True (rev ws @ out) vs" for vs out
    using assms by (induction ws arbitrary: out) (auto simp: plain_comp_def)
  with split show ?thesis by simp
qed

lemma join_comps:
  assumes "is_abs root" "is_local sub"
  shows "clean_abs (path_join (path_clean root) sub)
     = clean_abs root @ clean_comps False [] (split_on (CHR ''/'') sub)"
proof -
  have abs: "is_abs (path_clean root @ ''/'' @ sub)"
    using is_abs_clean [OF assms(1)] by (auto simp: is_abs_iff)
  have "path_join (path_clean root) sub = path_clean (path_clean root @ ''/'' @ sub)"
    using is_abs_clean [OF assms(1)] by (auto simp: path_join_def is_abs_iff)
  then have "clean_abs (path_join (path_clean root) sub) = clean_abs (path_clean root @ ''/'' @ sub)"
    using abs by (simp add: clean_abs_idem)
  also have "\<dots> = clean_comps True (rev (clean_abs root)) (split_on (CHR ''/'') sub)"
    using split_abs_join [OF clean_abs_plain, of root sub] assms(1)
    by (simp add: path_clean_abs clean_abs_def)
  also have "\<dots> = clean_abs root @ clean_comps False [] (split_on (CHR ''/'') sub)"
    using clean_comps_on_top [OF local_no_climb [OF assms(2)], of "rev (clean_abs root)"] by simp
  finally show ?thesis .
qed

subsection \<open>Correctness\<close>

lemma ensure_within_None:
  "EnsureWithinRoot root candidate = None \<longleftrightarrow> is_abs root \<and> is_abs candidate \<and> under root candidate"
proof -
  have "under (path_clean root) (path_clean candidate) \<longleftrightarrow> under root candidate"
    if "is_abs root" "is_abs candidate"
    using that by (simp add: under_def clean_abs_idem)
  then show ?thesis
    by (auto simp: EnsureWithinRoot_def Let_def err_simps rel_local is_abs_def)
qed

lemma path_clean_join: "is_abs root \<Longrightarrow> is_abs (path_join (path_clean root) sub)"
proof -
  assume a: "is_abs root"
  then have "is_abs (path_clean root @ ''/'' @ sub)"
    using is_abs_clean [OF a] by (auto simp: is_abs_iff)
  then have "is_abs (path_clean (path_clean root @ ''/'' @ sub))" by (rule is_abs_clean)
  moreover have "path_clean root \<noteq> []" using is_abs_clean [OF a] by (auto simp: is_abs_iff)
  ultimately show ?thesis by (simp add: path_join_def)
qed

lemma safe_join_under: "is_abs root \<Longrightarrow> is_local sub \<Longrightarrow> under root (path_join (path_clean root) sub)"
  by (auto simp: under_def join_comps)

lemma safe_join_Inr:
  "SafeJoin root sub = Inr joined \<longleftrightarrow>
     is_abs root \<and> is_local sub \<and> joined = path_join (path_clean root) sub"
proof -
  have "root \<noteq> []" if "is_abs root" using that by (auto simp: is_abs_iff)
  moreover have "sub \<noteq> []" if "is_local sub" using that by (auto simp: is_local_def)
  moreover have "EnsureWithinRoot root (path_join (path_clean root) sub) = None"
    if "is_abs root" "is_local sub"
    using that by (simp add: ensure_within_None path_clean_join safe_join_under)
  ultimately show ?thesis
    by (auto simp: SafeJoin_def Let_def)
qed

lemma under_refl: "under p p"
  by (simp add: under_def)

lemma under_trans: "under a b \<Longrightarrow> under b c \<Longrightarrow> under a c"
  by (auto simp: under_def)

lemma under_antisym: "is_abs a \<Longrightarrow> is_abs b \<Longrightarrow> under a b \<Longrightarrow> under b a \<Longrightarrow> path_clean a = path_clean b"
  by (auto simp: under_def path_clean_inject)

text \<open>The directories the deny-list protects: the first component of a path decides.\<close>

definition reserved_dirs :: "string list" where
  "reserved_dirs = [''bin'', ''sbin'', ''boot'', ''dev'', ''proc'', ''sys'', ''etc'', ''lib'',
     ''lib32'', ''lib64'', ''usr'', ''var'', ''root'']"

lemma unsafeRoots_reserved: "unsafeRoots = ''/'' # map ((@) ''/'') reserved_dirs"
  by (simp add: unsafeRoots_def reserved_dirs_def)

lemma reserved_free: "c \<in> set reserved_dirs \<Longrightarrow> CHR ''/'' \<notin> set c \<and> c \<noteq> []"
  by (auto simp: reserved_dirs_def)

lemma clean_under_reserved:
  assumes "is_abs p" "CHR ''/'' \<notin> set c" "c \<noteq> []"
  shows "path_clean p = ''/'' @ c \<or> has_prefix (path_clean p) (''/'' @ c @ ''/'')
     \<longleftrightarrow> clean_abs p \<noteq> [] \<and> hd (clean_abs p) = c"
proof (cases "clean_abs p = []")
  case True
  have "\<not> has_prefix [] (c @ ''/'')" by (simp add: has_prefix_iff)
  with True assms show ?thesis by (simp add: path_clean_abs)
next
  case False
  have "path_clean p = ''/'' @ c \<longleftrightarrow> clean_abs p = [c]"
  proof
    assume "path_clean p = ''/'' @ c"
    with assms(1) have "join_with ''/'' (clean_abs p) = c" by (simp add: path_clean_abs)
    with split_plain [OF clean_abs_plain False] split_on_free [OF assms(2)] show "clean_abs p = [c]"
      by simp
  qed (simp add: path_clean_abs assms(1))
  moreover have "has_prefix (path_clean p) (''/'' @ c @ ''/'')
      \<longleftrightarrow> hd (clean_abs p) = c \<and> tl (clean_abs p) \<noteq> []"
    using prefix_split [OF clean_abs_plain False assms(2)] assms(1) by (simp add: path_clean_abs)
  ultimately show ?thesis using False by (cases "clean_abs p") auto
qed

lemma reject_unsafe_None:
  "RejectUnsafeRoot p = None \<longleftrightarrow>
     is_abs p \<and> clean_abs p \<noteq> [] \<and> hd (clean_abs p) \<notin> set reserved_dirs"
proof (cases "is_abs p")
  case True
  then have "p \<noteq> []" by (auto simp: is_abs_iff)
  have root: "path_clean p = ''/'' \<longleftrightarrow> clean_abs p = []"
    using True clean_abs_plain [of p]
    by (cases "clean_abs p"; cases "tl (clean_abs p)")
      (auto simp: path_clean_abs plain_comp_def)
  have "RejectUnsafeRoot p = None \<longleftrightarrow> path_clean p \<noteq> ''/''
      \<and> (\<forall>c \<in> set reserved_dirs. \<not> (path_clean p = ''/'' @ c \<or> has_prefix (path_clean p) (''/'' @ c @ ''/'')))"
    using True \<open>p \<noteq> []\<close> reserved_free
    by (auto simp: RejectUnsafeRoot_def Let_def unsafeRoots_reserved err_simps)
  also have "\<dots> \<longleftrightarrow> clean_abs p \<noteq> [] \<and> hd (clean_abs p) \<notin> set reserved_dirs"
    using root clean_under_reserved [OF True] reserved_free by blast
  finally show ?thesis using True by simp
qed (simp add: RejectUnsafeRoot_def)

text \<open>Whatever lies under an accepted root is accepted as well.\<close>

lemma reject_unsafe_under:
  "RejectUnsafeRoot root = None \<Longrightarrow> is_abs p \<Longrightarrow> under root p \<Longrightarrow> RejectUnsafeRoot p = None"
  unfolding reject_unsafe_None under_def by auto

text \<open>A shallow path is the root or one component.\<close>

lemma trim_slashes_clean:
  assumes "is_abs p"
  shows "trim_slashes (path_clean p) = join_with ''/'' (clean_abs p)"
proof (cases "clean_abs p = []")
  case True
  with assms show ?thesis by (simp add: path_clean_abs trim_slashes_def)
next
  case False
  let ?j = "join_with ''/'' (clean_abs p)"
  obtain v vs where ws: "clean_abs p = v # vs" using False by (cases "clean_abs p") auto
  have "plain_comp v" "plain_comp (last (clean_abs p))"
    using clean_abs_plain [of p] last_in_set [OF False] by (auto simp: list_all_iff ws)
  then obtain c cs where v: "v = c # cs" "c \<noteq> CHR ''/''"
    and la: "last (clean_abs p) \<noteq> []" "CHR ''/'' \<notin> set (last (clean_abs p))"
    by (cases v) (auto simp: plain_comp_def)
  have "\<exists>r. ?j = c # r" unfolding ws v(1) by (cases vs) auto
  then have "dropWhile (\<lambda>c. c = CHR ''/'') (path_clean p) = ?j"
    using v(2) assms by (auto simp: path_clean_abs)
  moreover have "dropWhile (\<lambda>c. c = CHR ''/'') (rev ?j) = rev ?j"
  proof -
    from join_with_last [OF False la(1), of "''/''"] have j: "?j \<noteq> []" "last ?j = last (last (clean_abs p))"
      by blast+
    from la have "last (last (clean_abs p)) \<noteq> CHR ''/''" by (metis last_in_set)
    with j have "hd (rev ?j) \<noteq> CHR ''/''" by (simp add: hd_rev)
    with j(1) show ?thesis by (cases "rev ?j") auto
  qed
  ultimately show ?thesis by (simp add: trim_slashes_def)
qed

lemma shallow_iff:
  assumes "is_abs p"
  shows "IsSuspiciouslyShallowPath (path_clean p) \<longleftrightarrow> length (clean_abs p) \<le> 1"
proof -
  have slash: "contains s ''/'' \<longleftrightarrow> CHR ''/'' \<in> set s" for s
    unfolding contains_iff by (simp add: in_set_conv_decomp [of "CHR ''/''" s])
  have "contains (join_with ''/'' ws) ''/'' \<longleftrightarrow> length ws > 1" if "list_all plain_comp ws" for ws
    unfolding slash using that
  proof (induction ws rule: induct_list012)
    case (3 v w ws)
    then show ?case by simp
  qed (simp_all add: plain_comp_def)
  then have c: "contains (join_with ''/'' (clean_abs p)) ''/'' \<longleftrightarrow> length (clean_abs p) > 1"
    using clean_abs_plain by blast
  have "join_with ''/'' (clean_abs p) = [] \<Longrightarrow> length (clean_abs p) \<le> 1"
    using c unfolding slash by simp
  then show ?thesis
    unfolding IsSuspiciouslyShallowPath_def trim_slashes_clean [OF assms] Let_def c by auto
qed

subsection \<open>Properties\<close>

text \<open>
  A root is accepted exactly when it is absolute and its first component, after cleaning, exists
  and is none of the reserved system directories; spelling the path with dots or double slashes makes
  no difference.
\<close>

lemma unsafe_roots_rejected:
  "RejectUnsafeRoot p = None \<longleftrightarrow>
     is_abs p \<and> clean_abs p \<noteq> [] \<and> hd (clean_abs p) \<notin> set reserved_dirs"
  by (rule reject_unsafe_None)

text \<open>
  C5: the join of a trusted root with an untrusted sub-path succeeds exactly when the root is absolute
  and the sub-path is local, and the result always lies under the root: the second containment check
  of the code never has to refuse.
\<close>

theorem safe_join_contained:
  "(SafeJoin root sub = Inr joined \<longleftrightarrow>
     is_abs root \<and> is_local sub \<and> joined = path_join (path_clean root) sub \<and> under root joined)"
  unfolding safe_join_Inr using safe_join_under by blast

text \<open>
  When symlink-aware containment succeeds, both paths were resolved, and the components of the
  resolved candidate start with those of the resolved root.
\<close>

lemma resolved_path_contained:
  assumes "ResolveContainedPath evalSymlinks root candidate = (r, c, None)"
  shows "\<exists>r0 c0. evalSymlinks root = Inr r0 \<and> evalSymlinks candidate = Inr c0
    \<and> r = path_clean r0 \<and> c = path_clean c0 \<and> is_abs r \<and> is_abs c \<and> under r c"
  using assms
  by (auto simp: ResolveContainedPath_def evalCleanPath_def ensure_within_None split: sum.splits)

lemma resolved_path_contained_witness:
  "ResolveContainedPath (\<lambda>p. Inr (''/data'' @ p)) ''/stacks'' ''/stacks/web''
     = (''/data/stacks'', ''/data/stacks/web'', None)
   \<and> under ''/data/stacks'' ''/data/stacks/web''"
proof -
  have run: "ResolveContainedPath (\<lambda>p. Inr (''/data'' @ p)) ''/stacks'' ''/stacks/web''
     = (''/data/stacks'', ''/data/stacks/web'', None)"
    by (simp add: ResolveContainedPath_def evalCleanPath_def EnsureWithinRoot_def path_clean_def
        is_abs_def clean_abs_def rel_abs_def is_local_def refuse_if_def Let_def)
  from resolved_path_contained [OF run] run show ?thesis by blast
qed

text \<open>
  Of the absolute clean paths, the shallow ones are the file-system root and the paths of one
  component, and no others.
\<close>

lemma shallow_paths:
  assumes "is_abs p"
  shows "IsSuspiciouslyShallowPath (path_clean p) \<longleftrightarrow> length (clean_abs p) \<le> 1"
  by (rule shallow_iff [OF assms])

lemma shallow_paths_witness:
  "IsSuspiciouslyShallowPath (path_clean ''/data/'') \<and> \<not> IsSuspiciouslyShallowPath (path_clean ''/data/app'')"
proof -
  have "is_abs ''/data/''" "is_abs ''/data/app''" by (simp_all add: is_abs_def)
  from this [THEN shallow_paths] show ?thesis by (simp add: clean_abs_def)
qed

end
