(* ===== verification/Go_Float.thy ===== *)
theory Go_Float
  imports Go_Strconv Complex_Main
begin

text \<open>
  Go's \<open>float64\<close> as the resource planner uses it: \<open>strconv.ParseFloat(s, 64)\<close>, addition and the
  comparisons. A finite value is the rational number it denotes, rounded to 53 significant bits with
  ties to even and with the exponent range of binary64; the sign of zero is not kept, because no
  comparison sees it.
\<close>

datatype go_float = NaN | Infinite bool | Finite rat

subsection \<open>Rounding\<close>

definition pow2 :: "int \<Rightarrow> rat" where
  "pow2 k = (if 0 \<le> k then 2 ^ nat k else 1 / 2 ^ nat (- k))"

definition round_even :: "rat \<Rightarrow> int" where
  "round_even r =
     (let f = floor r; d = r - of_int f
      in if d < 1 / 2 then f else if d > 1 / 2 then f + 1 else if even f then f else f + 1)"

fun bit_length :: "nat \<Rightarrow> nat" where
  "bit_length n = (if n = 0 then 0 else Suc (bit_length (n div 2)))"

declare bit_length.simps [simp del]

text \<open>The exponent \<open>e\<close> of a positive rational, \<open>2 ^ e \<le> r < 2 ^ (e + 1)\<close>.\<close>

definition exponent2 :: "rat \<Rightarrow> int" where
  "exponent2 r =
     (case quotient_of r of (p, q) \<Rightarrow>
        let e = int (bit_length (nat p)) - int (bit_length (nat q))
        in if pow2 e \<le> r then e else e - 1)"

definition round_pos :: "rat \<Rightarrow> rat" where
  "round_pos r = (let k = max (exponent2 r - 52) (- 1074) in of_int (round_even (r / pow2 k)) * pow2 k)"

definition round64 :: "rat \<Rightarrow> go_float" where
  "round64 r =
     (let m = (if r = 0 then 0 else round_pos (abs r))
      in if m \<ge> pow2 1024 then Infinite (r < 0) else Finite (if r < 0 then - m else m))"

subsection \<open>Arithmetic and comparison\<close>

fun float_add :: "go_float \<Rightarrow> go_float \<Rightarrow> go_float" where
  "float_add (Finite a) (Finite b) = round64 (a + b)"
| "float_add (Infinite s) (Finite b) = Infinite s"
| "float_add (Finite a) (Infinite s) = Infinite s"
| "float_add (Infinite s) (Infinite t) = (if s = t then Infinite s else NaN)"
| "float_add NaN y = NaN"
| "float_add x NaN = NaN"

fun float_less :: "go_float \<Rightarrow> go_float \<Rightarrow> bool" where
  "float_less (Finite a) (Finite b) = (a < b)"
| "float_less (Infinite s) (Finite b) = s"
| "float_less (Finite a) (Infinite s) = (\<not> s)"
| "float_less (Infinite s) (Infinite t) = (s \<and> \<not> t)"
| "float_less NaN y = False"
| "float_less x NaN = False"

definition float_le :: "go_float \<Rightarrow> go_float \<Rightarrow> bool" where
  "float_le x y = (float_less x y \<or> (x = y \<and> x \<noteq> NaN))"

definition float_of_int :: "int \<Rightarrow> go_float" where
  "float_of_int n = round64 (of_int n)"

subsection \<open>ParseFloat\<close>

text \<open>\<open>c | 0x20\<close>, the package's \<open>lower\<close>.\<close>

definition lower_byte :: "char \<Rightarrow> nat" where
  "lower_byte c = or (byte c) 32"

definition is_hex_letter :: "char \<Rightarrow> bool" where
  "is_hex_letter c \<longleftrightarrow> 97 \<le> lower_byte c \<and> lower_byte c \<le> 102"

text \<open>\<open>special\<close>: a signed infinity or an unsigned NaN, in any case.\<close>

definition parse_special :: "string \<Rightarrow> go_float option" where
  "parse_special s =
     (let l = map lower_char s;
          inf = (\<lambda>t. t = ''inf'' \<or> t = ''infinity'')
      in if l = ''nan'' then Some NaN
         else if inf l then Some (Infinite False)
         else (case l of [] \<Rightarrow> None
           | c # t \<Rightarrow> if inf t \<and> (c = CHR ''+'' \<or> c = CHR ''-'') then Some (Infinite (c = CHR ''-''))
                     else None))"

text \<open>\<open>underscoreOK\<close>: what was seen last is a digit, an underscore, something else or nothing yet.\<close>

datatype seen = Start | SeenDigit | SeenUnderscore | SeenOther

fun underscores_between :: "bool \<Rightarrow> seen \<Rightarrow> string \<Rightarrow> bool" where
  "underscores_between hex sn [] = (sn \<noteq> SeenUnderscore)"
| "underscores_between hex sn (c # cs) =
     (if is_digit c \<or> (hex \<and> is_hex_letter c) then underscores_between hex SeenDigit cs
      else if c = CHR ''_'' then sn = SeenDigit \<and> underscores_between hex SeenUnderscore cs
      else sn \<noteq> SeenUnderscore \<and> underscores_between hex SeenOther cs)"

definition drop_sign :: "string \<Rightarrow> bool \<times> string" where
  "drop_sign s = (case s of [] \<Rightarrow> (False, [])
     | c # t \<Rightarrow> if c = CHR ''+'' then (False, t) else if c = CHR ''-'' then (True, t) else (False, s))"

definition hex_prefix :: "string \<Rightarrow> bool" where
  "hex_prefix s = (case s of a # b # r \<Rightarrow> a = CHR ''0'' \<and> lower_byte b = 120 | _ \<Rightarrow> False)"

definition base_prefix :: "string \<Rightarrow> bool" where
  "base_prefix s = (case s of a # b # r \<Rightarrow>
     a = CHR ''0'' \<and> (lower_byte b = 98 \<or> lower_byte b = 111 \<or> lower_byte b = 120) | _ \<Rightarrow> False)"

definition underscoreOK :: "string \<Rightarrow> bool" where
  "underscoreOK s =
     (let t = snd (drop_sign s)
      in if base_prefix t then underscores_between (hex_prefix t) SeenDigit (drop 2 t)
         else underscores_between False Start t)"

text \<open>
  The mantissa: its digits as one number, how many stood after the point, whether there was a point,
  whether there was a digit, and the rest of the text.
\<close>

record mantissa =
  mant_val :: nat
  mant_frac :: nat
  mant_dot :: bool
  mant_any :: bool

fun read_mantissa :: "bool \<Rightarrow> mantissa \<Rightarrow> string \<Rightarrow> mantissa \<times> string" where
  "read_mantissa hex m [] = (m, [])"
| "read_mantissa hex m (c # cs) =
     (if c = CHR ''_'' then read_mantissa hex m cs
      else if c = CHR ''.'' then
        (if mant_dot m then (m, c # cs) else read_mantissa hex (m\<lparr>mant_dot := True\<rparr>) cs)
      else if is_digit c \<or> (hex \<and> is_hex_letter c) then
        (let d = (if is_digit c then digit_val c else lower_byte c - 87)
         in read_mantissa hex
              (m\<lparr>mant_val := (if hex then 16 else 10) * mant_val m + d,
                 mant_frac := (if mant_dot m then Suc (mant_frac m) else mant_frac m),
                 mant_any := True\<rparr>) cs)
      else (m, c # cs))"

text \<open>The exponent's digits; from 10000 on further digits are read and ignored.\<close>

fun read_exponent :: "nat \<Rightarrow> string \<Rightarrow> nat \<times> string" where
  "read_exponent e [] = (e, [])"
| "read_exponent e (c # cs) =
     (if is_digit c then read_exponent (if e < 10000 then 10 * e + digit_val c else e) cs
      else if c = CHR ''_'' then read_exponent e cs
      else (e, c # cs))"

definition scale10 :: "nat \<Rightarrow> int \<Rightarrow> rat" where
  "scale10 m k = (if 0 \<le> k then of_nat m * 10 ^ nat k else of_nat m / 10 ^ nat (- k))"

definition read_float :: "string \<Rightarrow> rat option" where
  "read_float s =
     (case drop_sign s of (neg, t) \<Rightarrow>
      (let hex = hex_prefix t \<and> length t > 2;
           (m, rest) = read_mantissa hex \<lparr>mant_val = 0, mant_frac = 0, mant_dot = False, mant_any = False\<rparr>
             (if hex then drop 2 t else t);
           finish = (\<lambda>e. let v = (if hex then of_nat (mant_val m) * pow2 (e - 4 * int (mant_frac m))
                                  else scale10 (mant_val m) (e - int (mant_frac m)))
                         in if CHR ''_'' \<in> set s \<and> \<not> underscoreOK s then None
                            else Some (if neg then - v else v))
       in if \<not> mant_any m then None
          else (case rest of
             [] \<Rightarrow> if hex then None else finish 0
           | c # r \<Rightarrow>
               if lower_byte c \<noteq> (if hex then 112 else 101) then None
               else (case drop_sign r of (eneg, ds) \<Rightarrow>
                  (case ds of [] \<Rightarrow> None
                   | d # _ \<Rightarrow> if \<not> is_digit d then None
                     else (case read_exponent 0 ds of (e, left) \<Rightarrow>
                        if left \<noteq> [] then None else finish (if eneg then - int e else int e)))))))"

text \<open>\<open>None\<close> for a syntax or a range error.\<close>

definition parse_float :: "string \<Rightarrow> go_float option" where
  "parse_float s =
     (case parse_special s of Some x \<Rightarrow> Some x
      | None \<Rightarrow> (case read_float s of None \<Rightarrow> None
          | Some r \<Rightarrow> (case round64 r of Finite v \<Rightarrow> Some (Finite v) | _ \<Rightarrow> None)))"

subsection \<open>Order\<close>

lemma float_less_irrefl [simp]: "\<not> float_less x x"
  by (cases x) auto

lemma float_less_trans: "float_less x y \<Longrightarrow> float_less y z \<Longrightarrow> float_less x z"
  by (cases x; cases y; cases z) auto

text \<open>Two numbers are comparable; NaN is not comparable with anything.\<close>

lemma float_linear: "x \<noteq> NaN \<Longrightarrow> y \<noteq> NaN \<Longrightarrow> float_less x y \<or> float_le y x"
  by (cases x; cases y) (auto simp: float_le_def)

lemma float_nan [simp]: "\<not> float_less NaN y" "\<not> float_less x NaN" "\<not> float_le NaN y" "\<not> float_le x NaN"
  by (cases x; auto simp: float_le_def)+

lemma parse_float_nan: "parse_float ''nan'' = Some NaN"
  by code_simp

end
