(* ===== verification/Install_Plan.thy ===== *)
theory Install_Plan
  imports Catalog Port_Ranges Leak_Check Go_Float
begin

text \<open>
  The state of an install (\<open>internal/core/install.go\<close>): the request, the plan that the planning
  phases fill field by field, and the boundary \<open>freeze\<close> after which the plan is only read. A Go map
  of the plan is an association list with distinct keys.
\<close>

subsection \<open>Requests\<close>

record resource_override =
  ov_service :: string
  ov_memory :: string
  ov_cpus :: string
  ov_pids :: int

record install_request =
  req_app_id :: string
  req_domain :: string
  req_stack_path :: string
  req_placeholder_values :: "(string, string) gomap"
  req_resource_profile :: string
  req_resource_overrides :: "resource_override list"
  req_port_overrides :: "(int, int) gomap"
  req_auto_port :: bool
  req_force :: bool

subsection \<open>The plan\<close>

text \<open>\<open>render.Placeholder\<close>.\<close>

record render_placeholder =
  rp_name :: string
  rp_type :: string
  rp_required :: bool
  rp_default :: "any_value option"
  rp_regenerable :: "bool option"

text \<open>\<open>state.RecommendedResources\<close>.\<close>

record recommended_resources =
  rec_memory_bytes :: "64 word"
  rec_cpus :: go_float

record install_plan =
  plan_app :: app
  stack_path :: string
  compose_project :: string
  catalog_channel :: string
  catalog_version :: string
  selected_domain :: string
  plan_placeholders :: "render_placeholder list"
  resolved_values :: "(string, string) gomap"
  generated_fields :: "string list"
  generated_values :: "string list"
  reused_secret_values :: "string list"
  local_ports :: "port_binding list"
  plan_rendered :: rendered_stack
  plan_guidance :: "post_install_guidance option"
  recommended :: "recommended_resources option"
  shown_credentials :: "generated_credential list"
  port_overrides :: "(int, int) gomap"
  auto_port :: bool
  frozen :: bool

text \<open>A plan with nothing planned yet, which the concrete examples start from.\<close>

definition zero_plan :: "app \<Rightarrow> install_plan" where
  "zero_plan a = \<lparr>plan_app = a, stack_path = ''/home/u/docker/demo'',
     compose_project = ''wdm-'' @ app_id a, catalog_channel = ''stable'', catalog_version = [],
     selected_domain = [], plan_placeholders = [], resolved_values = [], generated_fields = [],
     generated_values = [], reused_secret_values = [], local_ports = [],
     plan_rendered = \<lparr>compose_bytes = [], env_bytes = [], additional_files = [],
       config_artifacts = [], volume_mounts = [], service_labels = []\<rparr>,
     plan_guidance = None, recommended = None, shown_credentials = [], port_overrides = [],
     auto_port = False, frozen = False\<rparr>"

subsection \<open>Boundary\<close>

datatype freeze_error = StackPlanAlreadyProduced

definition freeze :: "install_plan \<Rightarrow> freeze_error + install_plan" where
  "freeze p = (if frozen p then Inl StackPlanAlreadyProduced else Inr (p\<lparr>frozen := True\<rparr>))"

lemma freeze_once: "freeze p = Inr p' \<Longrightarrow> freeze p' = Inl StackPlanAlreadyProduced"
  by (auto simp: freeze_def split: if_splits)

subsection \<open>Built-in template values\<close>

datatype synthetic_reason = ReservedPlaceholder string

definition addSyntheticResolvedValue ::
  "string \<Rightarrow> string \<Rightarrow> install_plan \<Rightarrow> synthetic_reason wdm_error + install_plan" where
  "addSyntheticResolvedValue name v p =
     (if map_of (resolved_values p) name \<noteq> None
      then Inl (CatalogVerification (ReservedPlaceholder name))
      else Inr (p\<lparr>plan_placeholders := plan_placeholders p @
             [\<lparr>rp_name = name, rp_type = ''string'', rp_required = True, rp_default = None,
               rp_regenerable = None\<rparr>],
           resolved_values := AList.update name v (resolved_values p)\<rparr>))"

lemma synthetic_Inr:
  assumes "addSyntheticResolvedValue name v p = Inr p'"
  shows "name \<notin> keys_of (resolved_values p)
    \<and> resolved_values p' = AList.update name v (resolved_values p)"
  using assms by (auto simp: addSyntheticResolvedValue_def keys_of_iff split: if_splits)

text \<open>A built-in value never replaces a value that was resolved before.\<close>

lemma synthetic_keeps:
  assumes "addSyntheticResolvedValue name v p = Inr p'" "map_of (resolved_values p) k = Some w"
  shows "map_of (resolved_values p') k = Some w"
  using synthetic_Inr [OF assms(1)] assms(2) by (auto simp: keys_of_iff)

end
