(* ===== verification/Placeholders.thy ===== *)
theory Placeholders
  imports Install_Plan Security_Paths Go_Net
begin

text \<open>
  The first half of install planning (\<open>internal/core/install_phase_plan.go\<close>): the choice of the app,
  the stack path, and the resolution of every placeholder of the catalog entry. What the code reads
  from the host (home directory, environment, files, symbolic links, the time zone database, the
  process ids) is the record \<open>host_env\<close>.
\<close>

record host_env =
  user_home_dir :: "string option"
  lookup_env :: "string \<Rightarrow> string option"
  read_file :: "string \<Rightarrow> os_error + string"
  read_link :: "string \<Rightarrow> os_error + string"
  load_location :: "string \<Rightarrow> bool"
  eval_symlinks :: "string \<Rightarrow> os_error + string"
  host_uid :: int
  host_gid :: int

subsection \<open>Errors\<close>

datatype domain_reason =
    DomainEmpty
  | DomainIsUrl string
  | DomainNotAscii string
  | DomainNotAllowed string
  | DomainIsIp string
  | DomainTooLong string
  | LabelLength string
  | LabelCharacter string char
  | LabelHyphen string

datatype plan_reason =
    AppIdRequired
  | DuplicateAppId string
  | UnknownAppId string
  | StackBaseUnsafe path_error
  | StackPathUnsafe path_error
  | StackPathTraversal string
  | StackPathRelative string
  | HomeUnknown string
  | DuplicatePlaceholder string
  | UndeclaredValue string
  | UnknownPlaceholderType string string
  | PlaceholderRequired string
  | DomainInvalid domain_reason
  | TimezoneUndetected
  | TimezoneInvalid string
  | PathRelative string string
  | PathMissing os_error
  | PathInsideStack string string string
  | ControlCharacter string
  | BoolInvalid string
  | PortInvalidValue string string
  | SyntheticValue synthetic_reason

type_synonym plan_error = "plan_reason wdm_error"

subsection \<open>The app and the stack path\<close>

fun select_loop :: "string \<Rightarrow> app option \<Rightarrow> app list \<Rightarrow> plan_error + app option" where
  "select_loop appID selected [] = Inr selected"
| "select_loop appID selected (a # as) =
     (if app_id a \<noteq> appID then select_loop appID selected as
      else if selected \<noteq> None then Inl (CatalogVerification (DuplicateAppId appID))
      else select_loop appID (Some a) as)"

definition selectCatalogApp :: "catalog_doc \<Rightarrow> string \<Rightarrow> plan_error + app" where
  "selectCatalogApp cat appID =
     bindE (select_loop appID None (cat_apps cat)) (\<lambda>selected.
       case selected of None \<Rightarrow> Inl (UsageValidation (UnknownAppId appID)) | Some a \<Rightarrow> Inr a)"

definition hasTraversalSegment :: "string \<Rightarrow> bool" where
  "hasTraversalSegment p \<longleftrightarrow> list_ex (\<lambda>part. part = ''..'') (split_on (CHR ''/'') p)"

definition expandHome :: "host_env \<Rightarrow> string \<Rightarrow> string option" where
  "expandHome env path =
     (if path = ''~'' then user_home_dir env
      else if has_prefix path ''~/''
      then map_option (\<lambda>home. path_join home (drop 2 path)) (user_home_dir env)
      else Some path)"

definition planInstallStackPath :: "host_env \<Rightarrow> string \<Rightarrow> install_request \<Rightarrow> app \<Rightarrow> plan_error + string" where
  "planInstallStackPath env stackBase req a =
     (case RejectUnsafeRoot stackBase of
        Some e \<Rightarrow> Inl (UsageValidation (StackBaseUnsafe e))
      | None \<Rightarrow>
     (if req_stack_path req = [] then
        (case SafeJoin stackBase (app_id a) of
           Inl e \<Rightarrow> Inl (UsageValidation (StackPathUnsafe e)) | Inr p \<Rightarrow> Inr p)
      else if hasTraversalSegment (req_stack_path req)
      then Inl (UsageValidation (StackPathTraversal (req_stack_path req)))
      else (case expandHome env (req_stack_path req) of
         None \<Rightarrow> Inl (Untyped (HomeUnknown (req_stack_path req)))
       | Some expanded \<Rightarrow>
           (if \<not> is_abs expanded
            then Inl (UsageValidation (StackPathRelative (req_stack_path req)))
            else (case RejectUnsafeRoot expanded of
               Some e \<Rightarrow> Inl (UsageValidation (StackPathUnsafe e))
             | None \<Rightarrow> Inr (path_clean expanded))))))"

subsection \<open>Domains\<close>

fun label_loop :: "string \<Rightarrow> nat \<Rightarrow> string \<Rightarrow> domain_reason option" where
  "label_loop label i [] = None"
| "label_loop label i (r # rs) =
     (if \<not> is_lower r \<and> \<not> is_digit r \<and> r \<noteq> CHR ''-'' then Some (LabelCharacter label r)
      else if r = CHR ''-'' \<and> (i = 0 \<or> i = length label - 1) then Some (LabelHyphen label)
      else label_loop label (Suc i) rs)"

definition validateDomainLabel :: "string \<Rightarrow> domain_reason option" where
  "validateDomainLabel label =
     (if label = [] \<or> length label > 63 then Some (LabelLength label) else label_loop label 0 label)"

definition validateDomainLabels :: "string \<Rightarrow> domain_reason option" where
  "validateDomainLabels host = first_err validateDomainLabel (split_on (CHR ''.'') host)"

text \<open>A byte above 127 is part of a rune above 127.\<close>

definition validateDomainASCII :: "string \<Rightarrow> domain_reason option" where
  "validateDomainASCII s = refuse_if (list_ex (\<lambda>c. \<not> is_ascii c) s) (DomainNotAscii s)"

definition normalizeDomain :: "string \<Rightarrow> domain_reason + string" where
  "normalizeDomain value =
     (if value = [] then Inl DomainEmpty
      else if contains value ''://'' \<or> contains_any value ''/:@'' then Inl (DomainIsUrl value)
      else guardE (validateDomainASCII value)
        (let host = to_lower_ascii (trim_suffix value ''.'')
         in if host = [] \<or> host = ''localhost'' \<or> has_prefix host ''*.'' then Inl (DomainNotAllowed value)
            else if parse_ip host \<noteq> None then Inl (DomainIsIp value)
            else if length host > 253 then Inl (DomainTooLong value)
            else guardE (validateDomainLabels host) (Inr host)))"

definition resolveDomainPlaceholder :: "placeholder \<Rightarrow> string \<Rightarrow> plan_error + string" where
  "resolveDomainPlaceholder ph value =
     (if value = [] \<and> ph_required ph then Inl (UsageValidation (PlaceholderRequired (ph_name ph)))
      else (case normalizeDomain value of
              Inl e \<Rightarrow> Inl (UsageValidation (DomainInvalid e)) | Inr host \<Rightarrow> Inr host))"

subsection \<open>Time zones\<close>

definition validateTimezone :: "host_env \<Rightarrow> string \<Rightarrow> plan_error + string" where
  "validateTimezone env value =
     (let tz = trim_space value
      in if tz = [] then Inl (UsageValidation (TimezoneInvalid value))
         else if \<not> load_location env tz then Inl (UsageValidation (TimezoneInvalid value))
         else Inr tz)"

text \<open>The part of a string from the last occurrence of a marker on (\<open>strings.LastIndex\<close>).\<close>

fun from_last :: "string \<Rightarrow> string \<Rightarrow> string option" where
  "from_last marker [] = None"
| "from_last marker (c # cs) =
     (case from_last marker cs of
        Some r \<Rightarrow> Some r
      | None \<Rightarrow> if has_prefix (c # cs) marker then Some (c # cs) else None)"

definition timezoneFromLocaltimeLink :: "string \<Rightarrow> string option" where
  "timezoneFromLocaltimeLink link =
     (case from_last ''zoneinfo/'' link of
        None \<Rightarrow> None
      | Some r \<Rightarrow> (let tz = trim_prefix r ''zoneinfo/'' in if tz = [] then None else Some tz))"

text \<open>The last two sources: a file that does not exist is passed over, another error ends the search.\<close>

definition timezone_from_link :: "host_env \<Rightarrow> plan_error + string" where
  "timezone_from_link env =
     (case read_link env ''/etc/localtime'' of
        Inr link \<Rightarrow> (case timezoneFromLocaltimeLink link of
            Some tz \<Rightarrow> validateTimezone env tz
          | None \<Rightarrow> Inl (UsageValidation TimezoneUndetected))
      | Inl e \<Rightarrow> Inl (UsageValidation TimezoneUndetected))"

definition timezone_from_files :: "host_env \<Rightarrow> plan_error + string" where
  "timezone_from_files env =
     (case read_file env ''/etc/timezone'' of
        Inr raw \<Rightarrow> (if trim_space raw \<noteq> [] then validateTimezone env (trim_space raw)
                    else timezone_from_link env)
      | Inl e \<Rightarrow> (if e \<noteq> NotExist then Inl (UsageValidation TimezoneUndetected)
                 else timezone_from_link env))"

definition resolveTimezone :: "host_env \<Rightarrow> string \<Rightarrow> plan_error + string" where
  "resolveTimezone env value =
     (if value \<noteq> [] then validateTimezone env value
      else case lookup_env env ''TZ'' of
        Some envTZ \<Rightarrow> (if trim_space envTZ \<noteq> [] then validateTimezone env (trim_space envTZ)
                       else timezone_from_files env)
      | None \<Rightarrow> timezone_from_files env)"

subsection \<open>Paths, strings, booleans and ports\<close>

definition stringDefault :: "any_value option \<Rightarrow> string option" where
  "stringDefault v = map_option fmt_sprint v"

text \<open>A required path has no default; an optional one without a value and a default is empty.\<close>

definition path_value :: "placeholder \<Rightarrow> string \<Rightarrow> bool \<Rightarrow> plan_error + string option" where
  "path_value ph value hasRequestValue =
     (if \<not> hasRequestValue \<or> value = [] then
        (if ph_required ph then Inl (UsageValidation (PlaceholderRequired (ph_name ph)))
         else (case stringDefault (ph_default ph) of
                 None \<Rightarrow> Inr None
               | Some d \<Rightarrow> if d = [] then Inr None else Inr (Some d)))
      else Inr (Some value))"

definition resolve_host_path :: "host_env \<Rightarrow> string \<Rightarrow> placeholder \<Rightarrow> string \<Rightarrow> plan_error + string" where
  "resolve_host_path env stackPath ph value =
     (case expandHome env value of
        None \<Rightarrow> Inl (Untyped (HomeUnknown value))
      | Some expanded \<Rightarrow>
     (if \<not> is_abs expanded then Inl (UsageValidation (PathRelative (ph_name ph) value))
      else (case eval_symlinks env expanded of
         Inl e \<Rightarrow> Inl (UsageValidation (PathMissing e))
       | Inr resolved \<Rightarrow>
           (if EnsureWithinRoot (path_clean stackPath) (path_clean resolved) = None
            then Inl (UsageValidation (PathInsideStack (ph_name ph) resolved stackPath))
            else Inr resolved))))"

definition resolvePathPlaceholder ::
  "host_env \<Rightarrow> string \<Rightarrow> placeholder \<Rightarrow> string \<Rightarrow> bool \<Rightarrow> plan_error + string" where
  "resolvePathPlaceholder env stackPath ph value hasRequestValue =
     bindE (path_value ph value hasRequestValue) (\<lambda>v.
       case v of None \<Rightarrow> Inr [] | Some path \<Rightarrow> resolve_host_path env stackPath ph path)"

definition control_chars :: string where
  "control_chars = [CHR 0x0D, CHR 0x0A, CHR 0x00]"

definition validateStringPlaceholderValue :: "string \<Rightarrow> string \<Rightarrow> plan_error option" where
  "validateStringPlaceholderValue name value =
     refuse_if (contains_any value control_chars) (UsageValidation (ControlCharacter name))"

definition resolveStringPlaceholder :: "placeholder \<Rightarrow> string \<Rightarrow> bool \<Rightarrow> plan_error + string" where
  "resolveStringPlaceholder ph value hasRequestValue =
     (if hasRequestValue then guardE (validateStringPlaceholderValue (ph_name ph) value) (Inr value)
      else (case stringDefault (ph_default ph) of
         Some d \<Rightarrow> guardE (validateStringPlaceholderValue (ph_name ph) d) (Inr d)
       | None \<Rightarrow> if ph_required ph then Inl (UsageValidation (PlaceholderRequired (ph_name ph))) else Inr []))"

text \<open>The value of a boolean or a port: the request's, else the default's text, else none.\<close>

definition scalar_value :: "placeholder \<Rightarrow> string \<Rightarrow> bool \<Rightarrow> plan_error + string option" where
  "scalar_value ph value hasRequestValue =
     (if hasRequestValue then Inr (Some value)
      else (case ph_default ph of
         Some d \<Rightarrow> Inr (Some (fmt_sprint d))
       | None \<Rightarrow> if ph_required ph then Inl (UsageValidation (PlaceholderRequired (ph_name ph))) else Inr None))"

definition resolveBoolPlaceholder :: "placeholder \<Rightarrow> string \<Rightarrow> bool \<Rightarrow> plan_error + string" where
  "resolveBoolPlaceholder ph value hasRequestValue =
     bindE (scalar_value ph value hasRequestValue) (\<lambda>v.
       case v of None \<Rightarrow> Inr []
       | Some text \<Rightarrow> (case parse_bool text of
            None \<Rightarrow> Inl (UsageValidation (BoolInvalid text)) | Some b \<Rightarrow> Inr (format_bool b)))"

definition resolvePortPlaceholder :: "placeholder \<Rightarrow> string \<Rightarrow> bool \<Rightarrow> plan_error + string" where
  "resolvePortPlaceholder ph value hasRequestValue =
     bindE (scalar_value ph value hasRequestValue) (\<lambda>v.
       case v of None \<Rightarrow> Inr []
       | Some text \<Rightarrow> (case atoi text of
            None \<Rightarrow> Inl (UsageValidation (PortInvalidValue (ph_name ph) text))
          | Some port \<Rightarrow>
              (if port < 1 \<or> port > 65535
               then Inl (UsageValidation (PortInvalidValue (ph_name ph) text))
               else Inr (itoa port))))"

subsection \<open>The planning step\<close>

definition dockerSocketSourceValueName :: string where
  "dockerSocketSourceValueName = ''DOCKER_SOCKET_SOURCE''"

definition resolveDockerSocketSource :: "host_env \<Rightarrow> string" where
  "resolveDockerSocketSource env =
     (let dir = trim_space (case lookup_env env ''XDG_RUNTIME_DIR'' of None \<Rightarrow> [] | Some d \<Rightarrow> d)
      in if dir \<noteq> [] then path_join dir ''docker.sock''
         else ''/run/user/'' @ itoa (host_uid env) @ ''/docker.sock'')"

text \<open>The first loop: duplicate names are refused, and every placeholder is projected for the renderer.\<close>

fun declare_placeholders :: "string list \<Rightarrow> install_plan \<Rightarrow> placeholder list \<Rightarrow> plan_error + install_plan" where
  "declare_placeholders declared p [] = Inr p"
| "declare_placeholders declared p (ph # phs) =
     (if ph_name ph \<in> set declared then Inl (CatalogVerification (DuplicatePlaceholder (ph_name ph)))
      else declare_placeholders (ph_name ph # declared)
        (p\<lparr>plan_placeholders := plan_placeholders p @
            [\<lparr>rp_name = ph_name ph, rp_type = ph_type ph, rp_required = ph_required ph,
              rp_default = ph_default ph, rp_regenerable = ph_regenerable ph\<rparr>]\<rparr>) phs)"

text \<open>One value of the second loop; a secret has none yet.\<close>

definition resolve_value ::
  "host_env \<Rightarrow> string \<Rightarrow> install_request \<Rightarrow> string \<Rightarrow> placeholder \<Rightarrow> plan_error + string" where
  "resolve_value env settingsTimezone req stackPath ph =
     (let hasRequestValue = (map_of (req_placeholder_values req) (ph_name ph) \<noteq> None);
          value = get_or [] (req_placeholder_values req) (ph_name ph)
      in if ph_type ph = ''domain''
         then resolveDomainPlaceholder ph (if hasRequestValue then value else req_domain req)
         else if ph_type ph = ''timezone''
         then resolveTimezone env (if hasRequestValue then value else settingsTimezone)
         else if ph_type ph = ''path'' then resolvePathPlaceholder env stackPath ph value hasRequestValue
         else if ph_type ph = ''string'' then resolveStringPlaceholder ph value hasRequestValue
         else if ph_type ph = ''bool'' then resolveBoolPlaceholder ph value hasRequestValue
         else if ph_type ph = ''port'' then resolvePortPlaceholder ph value hasRequestValue
         else Inl (CatalogVerification (UnknownPlaceholderType (ph_name ph) (ph_type ph))))"

definition resolve_placeholder ::
  "host_env \<Rightarrow> string \<Rightarrow> install_request \<Rightarrow> install_plan \<Rightarrow> placeholder \<Rightarrow> plan_error + install_plan" where
  "resolve_placeholder env settingsTimezone req p ph =
     (if ph_type ph = ''secret'' then Inr (p\<lparr>generated_fields := generated_fields p @ [ph_name ph]\<rparr>)
      else bindE (resolve_value env settingsTimezone req (stack_path p) ph) (\<lambda>v.
        Inr (p\<lparr>selected_domain := (if ph_type ph = ''domain'' \<and> selected_domain p = [] then v else selected_domain p),
               resolved_values := AList.update (ph_name ph) v (resolved_values p)\<rparr>)))"

definition add_builtin :: "string \<times> string \<Rightarrow> install_plan \<Rightarrow> plan_error + install_plan" where
  "add_builtin nv p =
     (case addSyntheticResolvedValue (fst nv) (snd nv) p of
        Inl e \<Rightarrow> Inl (map_wdm_error SyntheticValue e) | Inr p' \<Rightarrow> Inr p')"

definition builtin_values :: "host_env \<Rightarrow> (string \<times> string) list" where
  "builtin_values env =
     [(''UID'', itoa (host_uid env)), (''GID'', itoa (host_gid env)),
      (dockerSocketSourceValueName, resolveDockerSocketSource env)]"

definition planPlaceholders ::
  "host_env \<Rightarrow> string \<Rightarrow> install_request \<Rightarrow> install_plan \<Rightarrow> plan_error + install_plan" where
  "planPlaceholders env settingsTimezone req p =
     (let phs = app_placeholders (plan_app p) in
      bindE (declare_placeholders [] p phs) (\<lambda>p.
      guardE (first_err (\<lambda>kv. refuse_if (fst kv \<notin> set (map ph_name phs))
                (UsageValidation (UndeclaredValue (fst kv)))) (req_placeholder_values req))
      (bindE (foldE (resolve_placeholder env settingsTimezone req) p phs) (\<lambda>p.
         foldE (\<lambda>p nv. add_builtin nv p) p (builtin_values env)))))"

subsection \<open>The app and the stack path\<close>

lemma select_loop_Inr:
  "select_loop appID sel as = Inr r \<longleftrightarrow>
     (case filter (\<lambda>a. app_id a = appID) as of
        [] \<Rightarrow> r = sel
      | [a] \<Rightarrow> sel = None \<and> r = Some a
      | _ \<Rightarrow> False)"
proof (induction as arbitrary: sel)
  case (Cons a as)
  show ?case
  proof (cases "app_id a = appID \<and> sel = None")
    case True
    with Cons.IH [of "Some a"] show ?thesis by (auto split: list.splits)
  next
    case False
    with Cons.IH [of sel] show ?thesis by (auto split: list.splits)
  qed
qed auto

text \<open>
  An app is selected exactly when it is the only entry of the catalog with the requested id; an
  id that occurs twice is refused like one that does not occur.
\<close>

lemma select_app_unique:
  "selectCatalogApp cat appID = Inr a \<longleftrightarrow> filter (\<lambda>a. app_id a = appID) (cat_apps cat) = [a]"
proof (cases "filter (\<lambda>a. app_id a = appID) (cat_apps cat)")
  case (Cons b bs)
  then show ?thesis
    by (cases bs) (auto simp: selectCatalogApp_def err_simps select_loop_Inr split: option.splits)
qed (auto simp: selectCatalogApp_def err_simps select_loop_Inr split: option.splits)


text \<open>A path a stack may be written to: absolute, clean, and under no reserved directory.\<close>

definition stack_path_ok :: "string \<Rightarrow> bool" where
  "stack_path_ok p \<longleftrightarrow> is_abs p \<and> path_clean p = p
     \<and> clean_abs p \<noteq> [] \<and> hd (clean_abs p) \<notin> set reserved_dirs"

lemma reject_clean: "is_abs p \<Longrightarrow> RejectUnsafeRoot (path_clean p) = None \<longleftrightarrow> RejectUnsafeRoot p = None"
  unfolding reject_unsafe_None by (simp add: is_abs_clean clean_abs_idem)

lemma joined_clean: "is_abs base \<Longrightarrow> path_clean (path_join (path_clean base) sub) = path_join (path_clean base) sub"
proof -
  assume a: "is_abs base"
  then have "is_abs (path_clean base @ ''/'' @ sub)"
    using is_abs_clean [OF a] by (auto simp: is_abs_iff)
  moreover have "path_clean base \<noteq> []" using is_abs_clean [OF a] by (auto simp: is_abs_iff)
  ultimately show ?thesis by (simp add: path_join_def path_clean_idem)
qed

text \<open>
  The stack path planning settles on is absolute and clean and lies under no system directory of
  the deny-list; without \<open>--stack-path\<close> it lies under the configured stack base.
\<close>

lemma stack_path_safe:
  assumes "planInstallStackPath env stackBase req a = Inr p"
  shows "stack_path_ok p \<and> (req_stack_path req = [] \<longrightarrow> under stackBase p)"
proof (cases "req_stack_path req = []")
  case True
  with assms have base: "RejectUnsafeRoot stackBase = None" and j: "SafeJoin stackBase (app_id a) = Inr p"
    by (auto simp: planInstallStackPath_def split: option.splits sum.splits)
  from j have p: "is_abs stackBase" "is_local (app_id a)" "p = path_join (path_clean stackBase) (app_id a)"
    by (simp_all add: safe_join_Inr)
  have u: "under stackBase p" "is_abs p" using p safe_join_under path_clean_join by auto
  from reject_unsafe_under [OF base u(2,1)] have "RejectUnsafeRoot p = None" .
  with u p(1) joined_clean show ?thesis
    by (simp add: stack_path_ok_def reject_unsafe_None) (simp add: p(3))
next
  case False
  with assms obtain e where e: "is_abs e" "RejectUnsafeRoot e = None" "p = path_clean e"
    by (auto simp: planInstallStackPath_def split: option.splits if_splits)
  then have "RejectUnsafeRoot p = None" by (simp add: reject_clean)
  with e False show ?thesis
    by (simp add: stack_path_ok_def reject_unsafe_None path_clean_idem)
qed

definition demo_host_env :: host_env where
  "demo_host_env = \<lparr>user_home_dir = Some ''/home/u'',
     lookup_env = (\<lambda>n. if n = ''TZ'' then Some ''UTC'' else None),
     read_file = (\<lambda>_. Inl NotExist), read_link = (\<lambda>_. Inl NotExist),
     load_location = (\<lambda>tz. tz = ''UTC''),
     eval_symlinks = (\<lambda>p. Inr p), host_uid = 1000, host_gid = 1000\<rparr>"

definition empty_request :: "string \<Rightarrow> install_request" where
  "empty_request aid = \<lparr>req_app_id = aid, req_domain = [], req_stack_path = [],
     req_placeholder_values = [], req_resource_profile = [], req_resource_overrides = [],
     req_port_overrides = [], req_auto_port = False, req_force = False\<rparr>"

lemma stack_path_safe_witness:
  "planInstallStackPath demo_host_env ''/home/u/docker'' (empty_request ''web'') (zero_app\<lparr>app_id := ''web''\<rparr>)
     = Inr ''/home/u/docker/web'' \<and> stack_path_ok ''/home/u/docker/web''"
proof -
  have run: "planInstallStackPath demo_host_env ''/home/u/docker'' (empty_request ''web'')
      (zero_app\<lparr>app_id := ''web''\<rparr>) = Inr ''/home/u/docker/web''"
    by (simp add: planInstallStackPath_def RejectUnsafeRoot_def unsafeRoots_def SafeJoin_def
        EnsureWithinRoot_def empty_request_def zero_app_def is_abs_def path_clean_def path_join_def
        rel_abs_def clean_abs_def is_local_def refuse_if_def guardE_def Let_def)
  from stack_path_safe [OF run] run show ?thesis by blast
qed

subsection \<open>Domains\<close>

definition label_char :: "char \<Rightarrow> bool" where
  "label_char c \<longleftrightarrow> is_lower c \<or> is_digit c \<or> c = CHR ''-''"

definition label_ok :: "string \<Rightarrow> bool" where
  "label_ok label \<longleftrightarrow> label \<noteq> [] \<and> length label \<le> 63 \<and> (\<forall>c \<in> set label. label_char c)
     \<and> hd label \<noteq> CHR ''-'' \<and> last label \<noteq> CHR ''-''"

lemma label_loop_None:
  "label = pre @ rs \<Longrightarrow> label_loop label (length pre) rs = None \<longleftrightarrow> (\<forall>c \<in> set rs. label_char c)
     \<and> (rs \<noteq> [] \<longrightarrow> last rs \<noteq> CHR ''-'' \<and> (pre = [] \<longrightarrow> hd rs \<noteq> CHR ''-''))"
proof (induction rs arbitrary: pre)
  case (Cons r rs)
  from Cons.prems have "label = (pre @ [r]) @ rs" by simp
  note IH = Cons.IH [OF this]
  have "length pre = length label - 1 \<longleftrightarrow> rs = []" "length pre = 0 \<longleftrightarrow> pre = []"
    using Cons.prems by auto
  with IH show ?case by (cases rs) (auto simp: label_char_def)
qed simp

lemma label_None: "validateDomainLabel label = None \<longleftrightarrow> label_ok label"
  using label_loop_None [of label "[]" label]
  by (auto simp: validateDomainLabel_def label_ok_def not_less)

text \<open>What a host name of the plan looks like.\<close>

definition host_ok :: "string \<Rightarrow> bool" where
  "host_ok host \<longleftrightarrow> length host \<le> 253 \<and> host \<noteq> ''localhost'' \<and> parse_ip host = None
     \<and> (\<forall>label \<in> set (split_on (CHR ''.'') host). label_ok label)"

lemma join_chars: "set (join_with sep ws) \<subseteq> set sep \<union> \<Union> (set (map set ws))"
  by (induction sep ws rule: join_with.induct) auto

lemma host_chars:
  assumes "host_ok host" "c \<in> set host"
  shows "label_char c \<or> c = CHR ''.''"
proof -
  have "c \<in> set (join_with ''.'' (split_on (CHR ''.'') host))" using assms(2) by (simp add: join_split)
  with join_chars have "c \<in> set ''.'' \<union> \<Union> (set (map set (split_on (CHR ''.'') host)))" by blast
  with assms(1) show ?thesis by (auto simp: host_ok_def label_ok_def)
qed

lemma label_char_bytes: "label_char c \<or> c = CHR ''.'' \<Longrightarrow>
    is_ascii c \<and> \<not> is_upper c \<and> c \<notin> set ''/:@*%''"
  by (auto simp: label_char_def is_lower_def is_digit_def is_upper_def is_ascii_def byte_def)

lemma split_last: "s \<noteq> [] \<Longrightarrow> last s = c \<Longrightarrow> [] \<in> set (split_on c s)"
proof -
  have "\<exists>w ws. split_on c (t @ [c]) = w # ws \<and> ws \<noteq> [] \<and> last ws = []" for t
    by (induction t) auto
  then have "[] \<in> set (split_on c (t @ [c]))" for t
    by (metis last_in_set list.set_intros(2))
  then show "s \<noteq> [] \<Longrightarrow> last s = c \<Longrightarrow> [] \<in> set (split_on c s)"
    by (metis append_butlast_last_id)
qed

lemma host_fixed:
  assumes "host_ok host" "host \<noteq> []"
  shows "normalizeDomain host = Inr host"
proof -
  note ch = host_chars [OF assms(1)] 
  have bytes: "is_ascii c" "\<not> is_upper c" "c \<notin> set ''/:@*%''" if "c \<in> set host" for c
    using label_char_bytes [OF ch [OF that]] by blast+
  have "\<not> contains_any host ''/:@''" using bytes(3) by (auto simp: contains_any_iff)
  moreover have "\<not> contains host ''://''"
  proof
    assume "contains host ''://''"
    then have "CHR '':'' \<in> set host" by (auto simp: contains_iff)
    with bytes(3) show False by auto
  qed
  moreover have "validateDomainASCII host = None"
    using bytes(1) by (auto simp: validateDomainASCII_def refuse_if_def list_ex_iff)
  moreover have "trim_suffix host ''.'' = host"
  proof -
    have "last host \<noteq> CHR ''.''"
      using split_last [OF assms(2), of "CHR ''.''"] assms(1) by (auto simp: host_ok_def label_ok_def)
    then have "\<not> has_prefix (rev host) (rev ''.'')"
      using assms(2) by (cases host rule: rev_cases) (auto simp: has_prefix_iff)
    then show ?thesis by (simp add: trim_suffix_def)
  qed
  moreover have "to_lower_ascii host = host"
    using bytes(2) by (simp add: to_lower_ascii_def lower_char_def map_idI)
  moreover have "\<not> has_prefix host ''*.''"
  proof
    assume "has_prefix host ''*.''"
    then have "CHR ''*'' \<in> set host" by (auto simp: has_prefix_iff)
    with bytes(3) show False by auto
  qed
  moreover have "validateDomainLabels host = None"
    using assms(1) by (simp add: validateDomainLabels_def first_err_None label_None host_ok_def)
  ultimately show ?thesis
    using assms by (simp add: normalizeDomain_def Let_def host_ok_def not_less)
qed

lemma normalize_ok:
  assumes "normalizeDomain value = Inr host"
  shows "host_ok host \<and> host \<noteq> []"
  using assms
  by (auto simp: normalizeDomain_def Let_def err_simps host_ok_def validateDomainLabels_def label_None
      split: if_splits)

text \<open>
  A domain that is accepted is a lower-case ASCII host name of DNS labels (1 to 63 letters, digits
  and inner hyphens, 253 bytes in all), neither localhost nor an IP literal, and normalising it
  again changes nothing.
\<close>

lemma normalize_domain_sound:
  assumes "normalizeDomain value = Inr host"
  shows "host_ok host \<and> host \<noteq> [] \<and> normalizeDomain host = Inr host"
  using normalize_ok [OF assms] host_fixed by blast

lemma normalize_domain_sound_witness:
  "normalizeDomain ''App.Example.com.'' = Inr ''app.example.com'' \<and> host_ok ''app.example.com''
   \<and> normalizeDomain ''app.example.com'' = Inr ''app.example.com''"
proof -
  have run: "normalizeDomain ''App.Example.com.'' = Inr ''app.example.com''"
    by (simp add: normalizeDomain_def contains_any_def validateDomainASCII_def is_ascii_def refuse_if_def
        guardE_def to_lower_ascii_def trim_suffix_def lower_char_def is_upper_def go_eval char_of_def
        bit_Suc_0_iff parse_ip_def parse_addr4_def parse_octets_def octet_def validateDomainLabels_def validateDomainLabel_def is_lower_def)
  from normalize_domain_sound [OF run] run show ?thesis by blast
qed

subsection \<open>Placeholder values\<close>

definition plain_value :: "string \<Rightarrow> bool" where
  "plain_value v \<longleftrightarrow> set v \<inter> set control_chars = {}"

lemma validate_string_None: "validateStringPlaceholderValue name v = None \<longleftrightarrow> plain_value v"
  by (simp add: validateStringPlaceholderValue_def refuse_if_def contains_any_iff plain_value_def)

text \<open>What a value of each placeholder type is.\<close>

definition typed_value :: "host_env \<Rightarrow> string \<Rightarrow> string \<Rightarrow> string \<Rightarrow> bool" where
  "typed_value env stackPath t v \<longleftrightarrow>
     (if t = ''domain'' then host_ok v \<and> v \<noteq> []
      else if t = ''timezone'' then v \<noteq> [] \<and> load_location env v
      else if t = ''path'' then v = [] \<or>
          ((\<exists>p. is_abs p \<and> eval_symlinks env p = Inr v)
           \<and> (is_abs (path_clean stackPath) \<longrightarrow> is_abs (path_clean v) \<longrightarrow> \<not> under (path_clean stackPath) (path_clean v)))
      else if t = ''string'' then plain_value v
      else if t = ''bool'' then v \<in> {[], ''true'', ''false''}
      else if t = ''port'' then v = [] \<or> (\<exists>n. v = itoa n \<and> valid_port n)
      else False)"

lemma typed_simps:
  "typed_value env sp ''domain'' v \<longleftrightarrow> host_ok v \<and> v \<noteq> []"
  "typed_value env sp ''timezone'' v \<longleftrightarrow> v \<noteq> [] \<and> load_location env v"
  "typed_value env sp ''path'' v \<longleftrightarrow> v = [] \<or>
     ((\<exists>p. is_abs p \<and> eval_symlinks env p = Inr v)
      \<and> (is_abs (path_clean sp) \<longrightarrow> is_abs (path_clean v) \<longrightarrow> \<not> under (path_clean sp) (path_clean v)))"
  "typed_value env sp ''string'' v \<longleftrightarrow> plain_value v"
  "typed_value env sp ''bool'' v \<longleftrightarrow> v \<in> {[], ''true'', ''false''}"
  "typed_value env sp ''port'' v \<longleftrightarrow> v = [] \<or> (\<exists>n. v = itoa n \<and> valid_port n)"
  by (simp_all add: typed_value_def)

lemma typed_cases:
  assumes "typed_value env sp t v"
  shows "t = ''domain'' \<or> t = ''timezone'' \<or> t = ''path'' \<or> t = ''string'' \<or> t = ''bool'' \<or> t = ''port''"
  using assms unfolding typed_value_def by (simp split: if_splits)

lemma validate_timezone_Inr: "validateTimezone env v = Inr tz \<Longrightarrow> tz \<noteq> [] \<and> load_location env tz"
  by (auto simp: validateTimezone_def Let_def split: if_splits)

lemma resolve_timezone_Inr: "resolveTimezone env v = Inr tz \<Longrightarrow> tz \<noteq> [] \<and> load_location env tz"
  by (auto simp: resolveTimezone_def timezone_from_files_def timezone_from_link_def
      dest: validate_timezone_Inr split: if_splits option.splits sum.splits)

lemma host_path_Inr:
  "resolve_host_path env stack ph v = Inr r \<Longrightarrow>
     (\<exists>p. is_abs p \<and> eval_symlinks env p = Inr r)
     \<and> (is_abs (path_clean stack) \<longrightarrow> is_abs (path_clean r) \<longrightarrow> \<not> under (path_clean stack) (path_clean r))"
  by (auto simp: resolve_host_path_def ensure_within_None split: option.splits if_splits sum.splits)

lemma resolve_value_typed:
  assumes "resolve_value env tz req stack ph = Inr v"
  shows "typed_value env stack (ph_type ph) v"
proof -
  have dom: "resolveDomainPlaceholder ph x = Inr v \<Longrightarrow> host_ok v \<and> v \<noteq> []" for x
    using normalize_ok by (auto simp: resolveDomainPlaceholder_def split: if_splits sum.splits)
  have pth: "resolvePathPlaceholder env stack ph x h = Inr v \<Longrightarrow> v = [] \<or>
      ((\<exists>p. is_abs p \<and> eval_symlinks env p = Inr v)
      \<and> (is_abs (path_clean stack) \<longrightarrow> is_abs (path_clean v) \<longrightarrow> \<not> under (path_clean stack) (path_clean v)))" for x h
    using host_path_Inr by (auto simp: resolvePathPlaceholder_def err_simps split: option.splits)
  have str: "resolveStringPlaceholder ph x h = Inr v \<Longrightarrow> plain_value v" for x h
    by (auto simp: resolveStringPlaceholder_def err_simps validate_string_None plain_value_def
        split: if_splits option.splits)
  have boo: "resolveBoolPlaceholder ph x h = Inr v \<Longrightarrow> v \<in> {[], ''true'', ''false''}" for x h
    by (auto simp: resolveBoolPlaceholder_def err_simps format_bool_def split: option.splits if_splits)
  have prt: "v = [] \<or> (\<exists>n. v = itoa n \<and> valid_port n)" if r: "resolvePortPlaceholder ph x h = Inr v" for x h
  proof -
    from r obtain y where y: "(case y of None \<Rightarrow> Inr [] | Some text \<Rightarrow> (case atoi text of
        None \<Rightarrow> Inl (UsageValidation (PortInvalidValue (ph_name ph) text))
      | Some port \<Rightarrow> (if port < 1 \<or> port > 65535
           then Inl (UsageValidation (PortInvalidValue (ph_name ph) text))
           else Inr (itoa port)))) = (Inr v :: plan_error + string)"
      unfolding resolvePortPlaceholder_def bindE_Inr by blast
    show ?thesis
    proof (cases y)
      case (Some t)
      with y show ?thesis by (cases "atoi t") (auto simp: valid_port_def split: if_splits)
    qed (use y in simp)
  qed
  let ?v = "get_or [] (req_placeholder_values req) (ph_name ph)"
  note r = assms [unfolded resolve_value_def Let_def]
  consider "ph_type ph = ''domain''" | "ph_type ph = ''timezone''" | "ph_type ph = ''path''"
    | "ph_type ph = ''string''" | "ph_type ph = ''bool''" | "ph_type ph = ''port''"
    using r by (auto split: if_splits)
  then show ?thesis
  proof cases
    case 1
    with r show ?thesis unfolding 1 typed_simps by (intro dom) simp
  next
    case 2
    with r show ?thesis unfolding 2 typed_simps by (intro resolve_timezone_Inr) simp
  next
    case 3
    with r show ?thesis unfolding 3 typed_simps by (intro pth) simp
  next
    case 4
    with r show ?thesis unfolding 4 typed_simps by (intro str) simp
  next
    case 5
    with r show ?thesis unfolding 5 typed_simps by (intro boo) simp
  next
    case 6
    with r show ?thesis unfolding 6 typed_simps by (intro prt) simp
  qed
qed

lemma plain_itoa: "plain_value (itoa n)"
proof -
  have "c \<in> set (itoa n) \<Longrightarrow> is_digit c \<or> c = CHR ''-''" for c
    by (auto simp: itoa_def dec_digits_are_digits split: if_splits)
  then show ?thesis
    by (fastforce simp: plain_value_def control_chars_def is_digit_def byte_def)
qed

lemma label_plain: "label_char c \<or> c = CHR ''.'' \<Longrightarrow> c \<notin> set control_chars"
  by (auto simp: label_char_def is_lower_def is_digit_def byte_def control_chars_def)

lemma plain_host: "host_ok v \<Longrightarrow> plain_value v"
  using host_chars label_plain unfolding plain_value_def by blast

lemma plain_typed:
  assumes "typed_value env stack t v" "t \<noteq> ''path''" "t \<noteq> ''timezone''"
  shows "plain_value v"
proof -
  have words: "plain_value ''true''" "plain_value ''false''" "plain_value []"
    by (simp_all add: plain_value_def control_chars_def)
  from typed_cases [OF assms(1)] show ?thesis
  proof (elim disjE)
    assume "t = ''domain''"
    with assms(1) plain_host show ?thesis by (simp add: typed_simps)
  next
    assume "t = ''string''"
    with assms(1) show ?thesis by (simp add: typed_simps)
  next
    assume "t = ''bool''"
    with assms(1) have "v = [] \<or> v = ''true'' \<or> v = ''false''" by (simp add: typed_simps)
    with words show ?thesis by (elim disjE) simp_all
  next
    assume "t = ''port''"
    with assms(1) have "v = [] \<or> (\<exists>n. v = itoa n)" by (simp add: typed_simps) blast
    with words plain_itoa show ?thesis by (elim disjE exE) simp_all
  qed (use assms(2,3) in simp_all)
qed

subsection \<open>The planning step\<close>

lemma declare_Inr:
  "declare_placeholders ds p phs = Inr p' \<Longrightarrow>
     distinct (map ph_name phs) \<and> set (map ph_name phs) \<inter> set ds = {}
     \<and> resolved_values p' = resolved_values p \<and> stack_path p' = stack_path p"
  by (induction phs arbitrary: ds p) (force split: if_splits)+

lemma resolve_fold:
  assumes "foldE (resolve_placeholder env tz req) p phs = Inr p'" "distinct (map ph_name phs)"
  shows "stack_path p' = stack_path p
    \<and> (\<forall>ph \<in> set phs. ph_type ph \<noteq> ''secret'' \<longrightarrow>
         (\<exists>v. map_of (resolved_values p') (ph_name ph) = Some v \<and> typed_value env (stack_path p) (ph_type ph) v))
    \<and> (\<forall>n. n \<notin> ph_name ` set phs \<longrightarrow> map_of (resolved_values p') n = map_of (resolved_values p) n)"
  using assms
proof (induction phs arbitrary: p)
  case (Cons ph phs)
  then obtain p1 where one: "resolve_placeholder env tz req p ph = Inr p1"
    and rest: "foldE (resolve_placeholder env tz req) p1 phs = Inr p'" by (auto simp: err_simps)
  from Cons.prems(2) have d: "distinct (map ph_name phs)" "ph_name ph \<notin> ph_name ` set phs" by auto
  note IH = Cons.IH [OF rest d(1)]
  show ?case
  proof (cases "ph_type ph = ''secret''")
    case True
    with one have "resolved_values p1 = resolved_values p" "stack_path p1 = stack_path p"
      by (auto simp: resolve_placeholder_def)
    with IH True show ?thesis by auto
  next
    case False
    with one obtain v where v: "resolve_value env tz req (stack_path p) ph = Inr v"
      and p1: "resolved_values p1 = AList.update (ph_name ph) v (resolved_values p)" "stack_path p1 = stack_path p"
      by (auto simp: resolve_placeholder_def err_simps)
    from IH d(2) p1 have "map_of (resolved_values p') (ph_name ph) = Some v" by simp
    with resolve_value_typed [OF v] IH p1 show ?thesis by auto
  qed
qed simp

lemma builtin_fold:
  assumes "foldE (\<lambda>p nv. add_builtin nv p) p nvs = Inr p'"
  shows "(\<forall>k v. map_of (resolved_values p) k = Some v \<longrightarrow> map_of (resolved_values p') k = Some v)
    \<and> (\<forall>nv \<in> set nvs. map_of (resolved_values p') (fst nv) = Some (snd nv)
         \<and> fst nv \<notin> keys_of (resolved_values p))
    \<and> stack_path p' = stack_path p"
  using assms
proof (induction nvs arbitrary: p)
  case (Cons nv nvs)
  then obtain p1 where one: "addSyntheticResolvedValue (fst nv) (snd nv) p = Inr p1"
    and rest: "foldE (\<lambda>p nv. add_builtin nv p) p1 nvs = Inr p'"
    by (auto simp: add_builtin_def err_simps split: sum.splits)
  note o = synthetic_Inr [OF one]
  have keep: "map_of (resolved_values p1) k = Some v" if "map_of (resolved_values p) k = Some v" for k v
    by (rule synthetic_keeps [OF one that])
  have "map_of (resolved_values p1) (fst nv) = Some (snd nv)" using o by simp
  moreover have "stack_path p1 = stack_path p"
    using one by (auto simp: addSyntheticResolvedValue_def split: if_splits)
  ultimately show ?case using Cons.IH [OF rest] keep o by (auto simp: keys_of_iff)
qed simp

lemma plan_placeholders_all:
  assumes "planPlaceholders env tz req p = Inr p'" "resolved_values p = []"
  shows "(\<forall>ph \<in> set (app_placeholders (plan_app p)). ph_type ph \<noteq> ''secret'' \<longrightarrow>
      ph_name ph \<notin> fst ` set (builtin_values env)
      \<and> (\<exists>v. map_of (resolved_values p') (ph_name ph) = Some v
            \<and> typed_value env (stack_path p) (ph_type ph) v))
    \<and> (\<forall>nv \<in> set (builtin_values env). map_of (resolved_values p') (fst nv) = Some (snd nv))"
proof -
  from assms(1) obtain p1 p2 where
    d: "declare_placeholders [] p (app_placeholders (plan_app p)) = Inr p1"
    and r: "foldE (resolve_placeholder env tz req) p1 (app_placeholders (plan_app p)) = Inr p2"
    and b: "foldE (\<lambda>p nv. add_builtin nv p) p2 (builtin_values env) = Inr p'"
    by (auto simp: planPlaceholders_def Let_def err_simps)
  note D = declare_Inr [OF d]
  note R = resolve_fold [OF r conjunct1 [OF D]]
  note B = builtin_fold [OF b]
  have "ph_name ph \<notin> fst ` set (builtin_values env)
      \<and> (\<exists>v. map_of (resolved_values p') (ph_name ph) = Some v \<and> typed_value env (stack_path p) (ph_type ph) v)"
    if ph: "ph \<in> set (app_placeholders (plan_app p))" "ph_type ph \<noteq> ''secret''" for ph
  proof -
    from R ph D obtain v where v: "map_of (resolved_values p2) (ph_name ph) = Some v"
      "typed_value env (stack_path p) (ph_type ph) v" by fastforce
    then have "ph_name ph \<in> keys_of (resolved_values p2)" by (simp add: keys_of_iff)
    with B have "ph_name ph \<notin> fst ` set (builtin_values env)" by fastforce
    moreover from B v have "map_of (resolved_values p') (ph_name ph) = Some v" by simp
    ultimately show ?thesis using v(2) by blast
  qed
  with B show ?thesis by blast
qed

lemma plan_placeholders_values:
  assumes "planPlaceholders env tz req p = Inr p'" "resolved_values p = []"
    and "ph \<in> set (app_placeholders (plan_app p))" "ph_type ph \<noteq> ''secret''"
  shows "\<exists>v. map_of (resolved_values p') (ph_name ph) = Some v \<and> typed_value env (stack_path p) (ph_type ph) v"
  using plan_placeholders_all [OF assms(1,2)] assms(3,4) by blast

text \<open>
  C7: after placeholder planning every placeholder of the catalog that is not a secret has a value of
  its type (a normalised host name, a loadable time zone, an existing host path outside the stack, a
  text without control characters, a boolean, a port), the three built-in values are in place, and no
  placeholder value was resolved under one of their names.
\<close>

theorem plan_placeholders_typed:
  assumes "planPlaceholders env tz req p = Inr p'" "resolved_values p = []"
  shows "(\<forall>ph \<in> set (app_placeholders (plan_app p)). ph_type ph \<noteq> ''secret'' \<longrightarrow>
      ph_name ph \<notin> fst ` set (builtin_values env)
      \<and> (\<exists>v. map_of (resolved_values p') (ph_name ph) = Some v
            \<and> typed_value env (stack_path p) (ph_type ph) v))
    \<and> (\<forall>nv \<in> set (builtin_values env). map_of (resolved_values p') (fst nv) = Some (snd nv))"
  using assms by (rule plan_placeholders_all)

definition zero_placeholder :: placeholder where
  "zero_placeholder = \<lparr>ph_name = [], ph_type = [], ph_required = False, ph_encoding = [],
     ph_default = None, ph_regenerable = None, ph_sensitive = False\<rparr>"

definition demo_placeholders :: "placeholder list" where
  "demo_placeholders =
     [zero_placeholder\<lparr>ph_name := ''TITLE'', ph_type := ''string'', ph_required := True\<rparr>,
      zero_placeholder\<lparr>ph_name := ''DEBUG'', ph_type := ''bool'', ph_default := Some (AnyBool False)\<rparr>,
      zero_placeholder\<lparr>ph_name := ''UID'', ph_type := ''secret'', ph_encoding := ''hex''\<rparr>,
      zero_placeholder\<lparr>ph_name := ''DATA'', ph_type := ''path''\<rparr>]"

definition demo_ph_plan :: install_plan where
  "demo_ph_plan = zero_plan (zero_app\<lparr>app_placeholders := demo_placeholders\<rparr>)"

definition demo_ph_request :: install_request where
  "demo_ph_request = (empty_request ''demo'')\<lparr>req_placeholder_values :=
     [(''TITLE'', ''My app''), (''DATA'', ''/srv/a'' @ [CHR 0x0A] @ ''ADMIN=1'')]\<rparr>"

lemmas placeholder_eval = planPlaceholders_def zero_plan_def zero_app_def zero_placeholder_def
  empty_request_def refuse_if_def guardE_def bindE_def resolve_placeholder_def resolve_value_def
  get_or_def resolveStringPlaceholder_def validateStringPlaceholderValue_def contains_any_def
  control_chars_def resolveBoolPlaceholder_def scalar_value_def parse_bool_def format_bool_def
  resolvePathPlaceholder_def path_value_def resolve_host_path_def expandHome_def is_abs_def
  EnsureWithinRoot_def path_clean_def rel_abs_def clean_abs_def is_local_def add_builtin_def
  builtin_values_def addSyntheticResolvedValue_def dockerSocketSourceValueName_def
  resolveDockerSocketSource_def trim_space_def trim_start.simps space_codes_def stringDefault_def

lemma demo_placeholders_run:
  "\<exists>p'. planPlaceholders demo_host_env ''UTC'' demo_ph_request demo_ph_plan = Inr p'
     \<and> map_of (resolved_values p') ''DATA'' = Some (''/srv/a'' @ [CHR 0x0A] @ ''ADMIN=1'')
     \<and> map_of (resolved_values p') ''UID'' = Some ''1000''"
  by (simp add: placeholder_eval go_eval demo_host_env_def demo_ph_request_def demo_ph_plan_def
      demo_placeholders_def)

theorem plan_placeholders_typed_witness:
  "\<exists>p' v. planPlaceholders demo_host_env ''UTC'' demo_ph_request demo_ph_plan = Inr p'
     \<and> map_of (resolved_values p') ''TITLE'' = Some v \<and> plain_value v
     \<and> map_of (resolved_values p') ''GID'' = Some (itoa 1000)"
proof -
  from demo_placeholders_run obtain p' where
    run: "planPlaceholders demo_host_env ''UTC'' demo_ph_request demo_ph_plan = Inr p'" by blast
  have init: "resolved_values demo_ph_plan = []" by (simp add: demo_ph_plan_def zero_plan_def)
  let ?title = "zero_placeholder\<lparr>ph_name := ''TITLE'', ph_type := ''string'', ph_required := True\<rparr>"
  have "?title \<in> set (app_placeholders (plan_app demo_ph_plan))"
    by (simp add: demo_ph_plan_def zero_plan_def demo_placeholders_def)
  with plan_placeholders_typed [OF run init] obtain v where
    "map_of (resolved_values p') ''TITLE'' = Some v" "typed_value demo_host_env (stack_path demo_ph_plan) ''string'' v"
    by force
  moreover have "map_of (resolved_values p') ''GID'' = Some (itoa 1000)"
    using plan_placeholders_typed [OF run init] by (simp add: builtin_values_def demo_host_env_def)
  ultimately show ?thesis using run by (auto simp: typed_simps)
qed

text \<open>
  No carriage return, line feed or NUL reaches the template values through a placeholder of type
  string, bool, port or domain, whatever the request, the default and the host say, so none of them
  can add a line to the .env file.
\<close>

lemma plan_values_one_line:
  assumes "planPlaceholders env tz req p = Inr p'" "resolved_values p = []"
    and "ph \<in> set (app_placeholders (plan_app p))"
    and "ph_type ph = ''string'' \<or> ph_type ph = ''bool'' \<or> ph_type ph = ''port'' \<or> ph_type ph = ''domain''"
  shows "\<exists>v. map_of (resolved_values p') (ph_name ph) = Some v \<and> set v \<inter> set control_chars = {}"
proof -
  have t: "ph_type ph \<noteq> ''secret''" "ph_type ph \<noteq> ''path''" "ph_type ph \<noteq> ''timezone''"
    using assms(4) by auto
  from plan_placeholders_values [OF assms(1,2,3) t(1)] plain_typed t(2,3) show ?thesis
    unfolding plain_value_def by blast
qed

lemma plan_values_one_line_witness:
  "\<exists>p' v. planPlaceholders demo_host_env ''UTC'' demo_ph_request demo_ph_plan = Inr p'
     \<and> map_of (resolved_values p') ''DEBUG'' = Some v \<and> set v \<inter> set control_chars = {}"
proof -
  from demo_placeholders_run obtain p' where
    run: "planPlaceholders demo_host_env ''UTC'' demo_ph_request demo_ph_plan = Inr p'" by blast
  have init: "resolved_values demo_ph_plan = []" by (simp add: demo_ph_plan_def zero_plan_def)
  let ?debug = "zero_placeholder\<lparr>ph_name := ''DEBUG'', ph_type := ''bool'', ph_default := Some (AnyBool False)\<rparr>"
  have "?debug \<in> set (app_placeholders (plan_app demo_ph_plan))"
    by (simp add: demo_ph_plan_def zero_plan_def demo_placeholders_def)
  from plan_values_one_line [OF run init this] run show ?thesis by auto
qed

text \<open>
  The two exceptions planning leaves open. A path placeholder keeps the line feeds of the host
  path it names, so a request can put a second line into the .env file through it; and a secret
  placeholder may carry the name of a built-in value, because the check of reserved names sees only
  the values resolved so far and a secret has none yet.
\<close>

lemma plan_values_exceptions:
  "\<exists>p'. planPlaceholders demo_host_env ''UTC'' demo_ph_request demo_ph_plan = Inr p'
     \<and> map_of (resolved_values p') ''DATA'' = Some (''/srv/a'' @ [CHR 0x0A] @ ''ADMIN=1'')
     \<and> map_of (resolved_values p') ''UID'' = Some ''1000''
     \<and> (\<exists>ph \<in> set (app_placeholders (plan_app demo_ph_plan)). ph_type ph = ''secret'' \<and> ph_name ph = ''UID'')"
  using demo_placeholders_run
  by (auto simp: demo_ph_plan_def zero_plan_def demo_placeholders_def)

end
