(* ===== verification/Port_Plan.thy ===== *)
theory Port_Plan
  imports Install_Plan Verify_Contract
begin

text \<open>
  Port planning (\<open>planPorts\<close> and what it calls in \<open>internal/core/install_phase_plan.go\<close>,
  \<open>PortConflictError\<close> of \<open>pkg/types/port_conflict.go\<close>). Probing a port asks the operating system,
  whose state \<open>'w\<close> is passed along: \<open>probe w b\<close> is the probe's error and the state after it. A
  \<open>map[int]struct{}\<close> is the list of its keys. \<open>url.Parse\<close> and \<open>text/template\<close> are arguments.
\<close>

subsection \<open>Errors\<close>

datatype probe_reason =
    NeedsPrivilege int os_error
  | AlreadyInUse int os_error
  | CloseFailed os_error
  | ProtocolInvalid string string

text \<open>\<open>errors.Is(err, syscall.EACCES)\<close> walks to the cause.\<close>

fun is_eacces :: "probe_reason \<Rightarrow> bool" where
  "is_eacces (NeedsPrivilege p e) = (e = AccessDenied)"
| "is_eacces (AlreadyInUse p e) = (e = AccessDenied)"
| "is_eacces (CloseFailed e) = (e = AccessDenied)"
| "is_eacces (ProtocolInvalid s q) = False"

text \<open>
  \<open>PortConflict\<close> is \<open>PortConflictError\<close>: service, container port, conflicting and suggested host
  port, and what the probe said.
\<close>

datatype plan_ports_reason =
    CatalogPort ports_reason
  | DuplicateHostPort string
  | AdminPortPublic string int
  | LocalTargetUrl string
  | OverrideUnplanned int int
  | OverrideRange int int
  | OverridePublic int int
  | OverrideTarget int int
  | OverrideCollision string
  | Probed probe_reason
  | PortConflict string int int int probe_reason

type_synonym ports_error = "plan_ports_reason wdm_error"
type_synonym 'w probe = "'w \<Rightarrow> port_binding \<Rightarrow> probe_reason wdm_error option \<times> 'w"

subsection \<open>Probing\<close>

text \<open>\<open>Listen\<close> or \<open>ListenPacket\<close> fails, or listens and is closed again.\<close>

datatype listen_result = ListenFailed os_error | Listened "os_error option"

definition join_host_port :: "string \<Rightarrow> string \<Rightarrow> string" where
  "join_host_port host p =
     (if CHR '':'' \<in> set host then ''['' @ host @ '']:'' @ p else host @ '':'' @ p)"

definition classifyPortBindError :: "int \<Rightarrow> os_error \<Rightarrow> probe_reason wdm_error" where
  "classifyPortBindError hostPort err =
     (if err = AccessDenied then UsageValidation (NeedsPrivilege hostPort err)
      else UsageValidation (AlreadyInUse hostPort err))"

definition probed_result :: "int \<Rightarrow> listen_result \<Rightarrow> probe_reason wdm_error option" where
  "probed_result hostPort r =
     (case r of
        ListenFailed e \<Rightarrow> Some (classifyPortBindError hostPort e)
      | Listened None \<Rightarrow> None
      | Listened (Some e) \<Rightarrow> Some (Untyped (CloseFailed e)))"

definition checkPortAvailable ::
  "('w \<Rightarrow> string \<Rightarrow> string \<Rightarrow> listen_result \<times> 'w) \<Rightarrow> 'w probe" where
  "checkPortAvailable listen w b =
     (let addr = join_host_port (pb_host_ip b) (itoa (pb_host_port b))
      in if pb_protocol b = ''tcp'' \<or> pb_protocol b = ''udp''
         then (case listen w (pb_protocol b) addr of (r, w') \<Rightarrow> (probed_result (pb_host_port b) r, w'))
         else (Some (CatalogVerification (ProtocolInvalid (pb_service b) (pb_protocol b))), w))"

subsection \<open>The catalog's bindings\<close>

record port_index =
  ix_base :: "port_binding list"
  ix_seen :: "string list"
  ix_public :: "int list"
  ix_range :: "int list"

definition host_key :: "port_binding \<Rightarrow> string" where
  "host_key b = pb_protocol b @ ''/'' @ itoa (pb_host_port b)"

definition index_binding :: "catalog_port \<Rightarrow> port_index \<Rightarrow> port_binding \<Rightarrow> ports_error + port_index" where
  "index_binding port ix b =
     (if host_key b \<in> set (ix_seen ix)
      then Inl (CatalogVerification (DuplicateHostPort (host_key b)))
      else Inr \<lparr>ix_base = ix_base ix @ [b],
                ix_seen = host_key b # ix_seen ix,
                ix_public = (if port_public port then pb_host_port b # ix_public ix else ix_public ix),
                ix_range = (if port_host_range port \<noteq> [] \<or> port_container_range port \<noteq> []
                            then pb_host_port b # ix_range ix else ix_range ix)\<rparr>)"

definition index_port :: "port_index \<Rightarrow> catalog_port \<Rightarrow> ports_error + port_index" where
  "index_port ix port =
     (case portBindings port of
        Inl e \<Rightarrow> Inl (map_wdm_error CatalogPort e)
      | Inr bindings \<Rightarrow> foldE (index_binding port) ix bindings)"

definition catalogPortBindings :: "app \<Rightarrow> ports_error + port_index" where
  "catalogPortBindings a =
     foldE index_port \<lparr>ix_base = [], ix_seen = [], ix_public = [], ix_range = []\<rparr> (app_ports a)"

subsection \<open>Admin ports\<close>

record url_lib =
  url_port :: "string \<Rightarrow> string option"
  render_template :: "string \<Rightarrow> (string, string) gomap \<Rightarrow> string option"

definition renderInstallLocalTargetURL :: "url_lib \<Rightarrow> install_plan \<Rightarrow> ports_error + string" where
  "renderInstallLocalTargetURL lib p =
     (if app_local_target_url_template (plan_app p) = []
      then (case local_ports p of [] \<Rightarrow> Inr []
            | b # bs \<Rightarrow> Inr (''http://127.0.0.1:'' @ itoa (pb_host_port b)))
      else (case render_template lib (app_local_target_url_template (plan_app p)) (resolved_values p) of
              None \<Rightarrow> Inl (Untyped (LocalTargetUrl (app_local_target_url_template (plan_app p))))
            | Some url \<Rightarrow> Inr url))"

definition hostPortFromURL :: "url_lib \<Rightarrow> string \<Rightarrow> int option" where
  "hostPortFromURL lib raw =
     (if raw = [] then None
      else case url_port lib raw of
        None \<Rightarrow> None
      | Some portText \<Rightarrow> if portText = [] then None else atoi portText)"

definition identifyAdminHostPorts ::
  "url_lib \<Rightarrow> install_plan \<Rightarrow> port_binding list \<Rightarrow> int list \<Rightarrow> ports_error + int list" where
  "identifyAdminHostPorts lib p planned publicPorts =
     bindE (if app_local_target_url_template (plan_app p) = []
            then Inr (case List.find (\<lambda>b. pb_host_port b \<notin> set publicPorts) planned of
                        None \<Rightarrow> [] | Some b \<Rightarrow> [pb_host_port b])
            else bindE (renderInstallLocalTargetURL lib p) (\<lambda>url.
                   Inr (case hostPortFromURL lib url of None \<Rightarrow> [] | Some port \<Rightarrow> [port])))
       (\<lambda>admin. Inr (case hostPortFromURL lib (pg_target_url (app_pangolin_guidance (plan_app p))) of
                       None \<Rightarrow> admin | Some port \<Rightarrow> port # admin))"

definition refusePublicAdminPorts ::
  "url_lib \<Rightarrow> install_plan \<Rightarrow> port_binding list \<Rightarrow> int list \<Rightarrow> ports_error option" where
  "refusePublicAdminPorts lib p planned publicPorts =
     (if publicPorts = [] then None
      else case identifyAdminHostPorts lib p planned publicPorts of
        Inl e \<Rightarrow> Some e
      | Inr adminPorts \<Rightarrow>
          first_err (\<lambda>b.
            if pb_host_port b \<notin> set publicPorts then None
            else if pb_host_port b \<notin> set adminPorts then None
            else Some (CatalogVerification (AdminPortPublic (pb_service b) (pb_host_port b))))
          planned)"

subsection \<open>Overrides\<close>

text \<open>The index of the first binding on a host port.\<close>

fun first_binding :: "int \<Rightarrow> port_binding list \<Rightarrow> nat option" where
  "first_binding port [] = None"
| "first_binding port (b # bs) =
     (if pb_host_port b = port then Some 0 else map_option Suc (first_binding port bs))"

definition override_step :: "port_binding list \<Rightarrow> int list \<Rightarrow> int list
    \<Rightarrow> (nat \<times> int) list \<Rightarrow> int \<times> int \<Rightarrow> ports_error + (nat \<times> int) list" where
  "override_step planned rangeHostPorts publicPorts rewrites ov =
     (case ov of (oldPort, newPort) \<Rightarrow>
        (case first_binding oldPort planned of
           None \<Rightarrow> Inl (UsageValidation (OverrideUnplanned oldPort newPort))
         | Some idx \<Rightarrow>
             (if oldPort \<in> set rangeHostPorts then Inl (UsageValidation (OverrideRange oldPort newPort))
              else if oldPort \<in> set publicPorts then Inl (UsageValidation (OverridePublic oldPort newPort))
              else if newPort \<le> 1024 \<or> newPort > 65535
              then Inl (UsageValidation (OverrideTarget oldPort newPort))
              else Inr (rewrites @ [(idx, newPort)]))))"

definition rewrite_port :: "port_binding list \<Rightarrow> nat \<times> int \<Rightarrow> port_binding list" where
  "rewrite_port planned rw =
     planned[fst rw := (planned ! fst rw)\<lparr>pb_host_port := snd rw\<rparr>]"

definition dup_step :: "string list \<Rightarrow> port_binding \<Rightarrow> ports_error + string list" where
  "dup_step seen b =
     (if host_key b \<in> set seen then Inl (UsageValidation (OverrideCollision (host_key b)))
      else Inr (host_key b # seen))"

text \<open>\<open>overrides\<close> lists the map in the order Go happens to iterate it.\<close>

definition applyPortOverrides :: "port_binding list \<Rightarrow> (int, int) gomap \<Rightarrow> int list \<Rightarrow> int list
    \<Rightarrow> ports_error + port_binding list" where
  "applyPortOverrides planned overrides rangeHostPorts publicPorts =
     (if overrides = [] then Inr planned
      else bindE (foldE (override_step planned rangeHostPorts publicPorts) [] overrides) (\<lambda>rewrites.
             let rewritten = foldl rewrite_port planned rewrites
             in bindE (foldE dup_step [] rewritten) (\<lambda>_. Inr rewritten)))"

subsection \<open>Suggestions\<close>

definition portSuggestScanWindow :: int where
  "portSuggestScanWindow = 1024"

definition autoPortMaxAttempts :: nat where
  "autoPortMaxAttempts = 64"

text \<open>
  The scan of \<open>suggestFreePort\<close>: candidate by candidate up to the last one; 0 when none is free.
\<close>

function scan_ports :: "'w probe \<Rightarrow> port_binding \<Rightarrow> int list \<Rightarrow> 'w \<Rightarrow> int \<Rightarrow> int \<Rightarrow> int \<times> 'w" where
  "scan_ports probe conflict planned w candidate stop =
     (if candidate > stop then (0, w)
      else if candidate \<in> set planned then scan_ports probe conflict planned w (candidate + 1) stop
      else (case probe w (conflict\<lparr>pb_host_port := candidate\<rparr>) of
              (None, w') \<Rightarrow> (candidate, w')
            | (Some e, w') \<Rightarrow> scan_ports probe conflict planned w' (candidate + 1) stop))"
  by pat_completeness auto
termination
  by (relation "measure (\<lambda>(probe, conflict, planned, w, candidate, stop). nat (stop + 1 - candidate))") auto

declare scan_ports.simps [simp del]

definition suggest_start :: "int \<Rightarrow> int" where
  "suggest_start port = (if port + 1 \<le> 1024 then 1025 else port + 1)"

text \<open>The loop runs while the candidate is inside the window and at most 65535.\<close>

definition suggest_stop :: "int \<Rightarrow> int" where
  "suggest_stop port = min (suggest_start port + portSuggestScanWindow - 1) 65535"

definition suggestFreePort :: "'w probe \<Rightarrow> 'w \<Rightarrow> port_binding \<Rightarrow> int list \<Rightarrow> int \<times> 'w" where
  "suggestFreePort probe w conflict plannedHostPorts =
     scan_ports probe conflict plannedHostPorts w
       (suggest_start (pb_host_port conflict)) (suggest_stop (pb_host_port conflict))"

definition enrichPortConflict :: "'w probe \<Rightarrow> 'w \<Rightarrow> port_binding \<Rightarrow> int list \<Rightarrow> int list \<Rightarrow> int list
    \<Rightarrow> probe_reason wdm_error \<Rightarrow> ports_error \<times> 'w" where
  "enrichPortConflict probe w b rangeHostPorts publicPorts plannedHostPorts probeErr =
     (let plain = map_wdm_error Probed probeErr
      in if is_eacces (reason_of probeErr) then (plain, w)
         else if pb_host_ip b \<noteq> ''127.0.0.1'' then (plain, w)
         else if pb_host_port b \<in> set rangeHostPorts then (plain, w)
         else if pb_host_port b \<in> set publicPorts then (plain, w)
         else (case suggestFreePort probe w b plannedHostPorts of (suggested, w') \<Rightarrow>
                 (UsageValidation (PortConflict (pb_service b) (pb_container_port b) (pb_host_port b)
                    suggested (reason_of probeErr)), w')))"

subsection \<open>The planning loop\<close>

text \<open>Probes the planned bindings in order, up to the first that is not free.\<close>

fun probe_all :: "'w probe \<Rightarrow> 'w \<Rightarrow> nat \<Rightarrow> port_binding list
    \<Rightarrow> (nat \<times> port_binding \<times> probe_reason wdm_error) option \<times> 'w" where
  "probe_all probe w i [] = (None, w)"
| "probe_all probe w i (b # bs) =
     (case probe w b of
        (None, w') \<Rightarrow> probe_all probe w' (Suc i) bs
      | (Some e, w') \<Rightarrow> (Some (i, b, e), w'))"

text \<open>\<open>errors.As(conflictErr, &conflict)\<close> and a suggestion other than 0.\<close>

definition suggestion_of :: "ports_error \<Rightarrow> int option" where
  "suggestion_of e = (case reason_of e of
     PortConflict svc cport hport suggested why \<Rightarrow> (if suggested = 0 then None else Some suggested)
   | _ \<Rightarrow> None)"

datatype attempt_outcome =
    Bound "port_binding list"
  | Refused ports_error
  | Retry "(int, int) gomap"

text \<open>The body of the loop of \<open>planPorts\<close>.\<close>

definition plan_attempt :: "'w probe \<Rightarrow> bool \<Rightarrow> (int, int) gomap \<Rightarrow> port_index \<Rightarrow> nat
    \<Rightarrow> (int, int) gomap \<Rightarrow> 'w \<Rightarrow> attempt_outcome \<times> 'w" where
  "plan_attempt probe auto explicit ix attempt overrides w =
     (case applyPortOverrides (ix_base ix) overrides (ix_range ix) (ix_public ix) of
        Inl e \<Rightarrow> (Refused e, w)
      | Inr planned \<Rightarrow>
     (case probe_all probe w 0 planned of
        (None, w1) \<Rightarrow> (Bound planned, w1)
      | (Some (conflictIdx, b, probeErr), w1) \<Rightarrow>
     (case enrichPortConflict probe w1 b (ix_range ix) (ix_public ix) (map pb_host_port planned) probeErr of
        (conflictErr, w2) \<Rightarrow>
          (let catalogPort = pb_host_port (ix_base ix ! conflictIdx)
           in if \<not> auto \<or> map_of explicit catalogPort \<noteq> None \<or> attempt \<ge> autoPortMaxAttempts
              then (Refused conflictErr, w2)
              else (case suggestion_of conflictErr of
                      None \<Rightarrow> (Refused conflictErr, w2)
                    | Some port \<Rightarrow> (Retry (AList.update catalogPort port overrides), w2))))))"

lemma plan_attempt_Retry:
  "plan_attempt probe auto explicit ix attempt overrides w = (Retry ov, w') \<Longrightarrow>
     attempt < autoPortMaxAttempts"
  by (auto simp: plan_attempt_def Let_def split: sum.splits prod.splits option.splits if_splits)

text \<open>The loop ends, because an attempt from number \<open>autoPortMaxAttempts\<close> on never asks for another.\<close>

function plan_loop :: "'w probe \<Rightarrow> bool \<Rightarrow> (int, int) gomap \<Rightarrow> port_index \<Rightarrow> nat
    \<Rightarrow> (int, int) gomap \<Rightarrow> 'w \<Rightarrow> (ports_error + port_binding list \<times> (int, int) gomap) \<times> 'w" where
  "plan_loop probe auto explicit ix attempt overrides w =
     (case plan_attempt probe auto explicit ix attempt overrides w of
        (Bound planned, w') \<Rightarrow> (Inr (planned, overrides), w')
      | (Refused e, w') \<Rightarrow> (Inl e, w')
      | (Retry overrides', w') \<Rightarrow> plan_loop probe auto explicit ix (Suc attempt) overrides' w')"
  by pat_completeness auto
termination
  by (relation "measure (\<lambda>(probe, auto, explicit, ix, attempt, overrides, w). autoPortMaxAttempts - attempt)")
    (auto dest!: plan_attempt_Retry [OF sym])

declare plan_loop.simps [simp del]

definition planPorts :: "url_lib \<Rightarrow> 'w probe \<Rightarrow> 'w \<Rightarrow> install_plan \<Rightarrow> (ports_error + install_plan) \<times> 'w" where
  "planPorts lib probe w p =
     (case catalogPortBindings (plan_app p) of
        Inl e \<Rightarrow> (Inl e, w)
      | Inr ix \<Rightarrow>
     (case refusePublicAdminPorts lib p (ix_base ix) (ix_public ix) of
        Some e \<Rightarrow> (Inl e, w)
      | None \<Rightarrow>
     (case plan_loop probe (auto_port p) (port_overrides p) ix 0 (port_overrides p) w of
        (Inl e, w') \<Rightarrow> (Inl e, w')
      | (Inr (bound, overrides), w') \<Rightarrow>
          (Inr (p\<lparr>local_ports := bound, port_overrides := overrides\<rparr>), w'))))"

text \<open>The second check, immediately before the deployment.\<close>

fun recheckPorts :: "'w probe \<Rightarrow> 'w \<Rightarrow> port_binding list \<Rightarrow> ports_error option \<times> 'w" where
  "recheckPorts probe w [] = (None, w)"
| "recheckPorts probe w (b # bs) =
     (case probe w b of
        (None, w') \<Rightarrow> recheckPorts probe w' bs
      | (Some e, w') \<Rightarrow> (Some (map_wdm_error Probed e), w'))"

end
