(* ===== verification/Port_Safety.thy ===== *)
theory Port_Safety
  imports Port_Plan
begin

text \<open>
  What port planning guarantees: the bindings that are deployed come from the catalog one by one, only
  single loopback ports move and only to unprivileged ports, no two bindings collide, the result does
  not depend on the order Go iterates the overrides in, and the number of probes is bounded.
\<close>

subsection \<open>The catalog's bindings\<close>

definition is_range_port :: "catalog_port \<Rightarrow> bool" where
  "is_range_port port \<longleftrightarrow> port_host_range port \<noteq> [] \<or> port_container_range port \<noteq> []"

text \<open>Binding \<open>b\<close> is one of those catalog entry \<open>port\<close> expands to.\<close>

definition comes_from :: "catalog_port \<Rightarrow> port_binding \<Rightarrow> bool" where
  "comes_from port b \<longleftrightarrow>
     valid_port (pb_host_port b) \<and> valid_port (pb_container_port b)
     \<and> pb_host_ip b = (if port_public port then ''0.0.0.0'' else ''127.0.0.1'')
     \<and> pb_service b = port_service port
     \<and> pb_protocol b = port_protocol_or_tcp (port_protocol port)"

definition expands_to :: "catalog_port \<Rightarrow> port_binding \<Rightarrow> bool" where
  "expands_to port b \<longleftrightarrow> (\<exists>bs. portBindings port = Inr bs \<and> b \<in> set bs)"

definition indexed :: "port_index \<Rightarrow> catalog_port \<Rightarrow> port_binding \<Rightarrow> bool" where
  "indexed ix port b \<longleftrightarrow> comes_from port b \<and> expands_to port b
     \<and> (port_public port \<longrightarrow> pb_host_port b \<in> set (ix_public ix))
     \<and> (is_range_port port \<longrightarrow> pb_host_port b \<in> set (ix_range ix))"

definition index_inv :: "catalog_port list \<Rightarrow> port_index \<Rightarrow> bool" where
  "index_inv ports ix \<longleftrightarrow>
     distinct (map host_key (ix_base ix))
     \<and> set (ix_seen ix) = host_key ` set (ix_base ix)
     \<and> (\<forall>b \<in> set (ix_base ix). \<exists>port \<in> set ports. indexed ix port b)
     \<and> (\<forall>x \<in> set (ix_public ix). \<exists>b \<in> set (ix_base ix). pb_host_port b = x \<and> pb_host_ip b = ''0.0.0.0'')"

lemma index_binding_inv:
  assumes "index_binding port ix b = Inr ix'" "index_inv ports ix"
    and "comes_from port b" "expands_to port b" "port \<in> set ports"
  shows "index_inv ports ix'"
proof -
  from assms(1) have new: "host_key b \<notin> set (ix_seen ix)" and ix':
    "ix' = \<lparr>ix_base = ix_base ix @ [b], ix_seen = host_key b # ix_seen ix,
       ix_public = (if port_public port then pb_host_port b # ix_public ix else ix_public ix),
       ix_range = (if is_range_port port then pb_host_port b # ix_range ix else ix_range ix)\<rparr>"
    by (auto simp: index_binding_def is_range_port_def split: if_splits)
  have keep: "indexed ix q c \<Longrightarrow> indexed ix' q c" for q c
    by (auto simp: indexed_def ix')
  have "indexed ix' port b" using assms(3,4) by (simp add: indexed_def ix')
  with assms keep new show ?thesis
    unfolding index_inv_def by (fastforce simp: ix' comes_from_def)
qed

lemma index_port_inv:
  assumes "index_port ix port = Inr ix'" "index_inv ports ix" "port \<in> set ports"
  shows "index_inv ports ix'"
proof -
  from assms(1) obtain bs where bs: "portBindings port = Inr bs" "foldE (index_binding port) ix bs = Inr ix'"
    by (auto simp: index_port_def split: sum.splits)
  have "comes_from port b" "expands_to port b" if "b \<in> set bs" for b
    using portBindings_wf [OF bs(1) that] bs(1) that by (auto simp: comes_from_def expands_to_def)
  with foldE_invariant [OF bs(2), of "index_inv ports"] assms(2,3) show ?thesis
    using index_binding_inv by blast
qed

lemma catalog_index_inv:
  assumes "catalogPortBindings a = Inr ix"
  shows "index_inv (app_ports a) ix"
proof -
  have "index_inv (app_ports a) \<lparr>ix_base = [], ix_seen = [], ix_public = [], ix_range = []\<rparr>"
    by (simp add: index_inv_def)
  with assms foldE_invariant [of index_port _ "app_ports a" ix "index_inv (app_ports a)"]
    index_port_inv show ?thesis
    unfolding catalogPortBindings_def by blast
qed

lemma index_loopback:
  assumes "index_inv ports ix" "b \<in> set (ix_base ix)" "pb_host_port b \<notin> set (ix_public ix)"
  shows "pb_host_ip b = ''127.0.0.1''"
  using assms by (auto simp: index_inv_def indexed_def comes_from_def)

text \<open>Equal keys are an equal protocol and an equal port.\<close>

lemma host_key_inject:
  "host_key b = host_key c \<longleftrightarrow> pb_protocol b = pb_protocol c \<and> pb_host_port b = pb_host_port c"
proof
  assume "host_key b = host_key c"
  then have "rev (itoa (pb_host_port b)) @ CHR ''/'' # rev (pb_protocol b)
      = rev (itoa (pb_host_port c)) @ CHR ''/'' # rev (pb_protocol c)"
    unfolding host_key_def by (metis append_Cons append_assoc append_eq_Cons_conv rev.simps(2) rev_append rev_rev_ident append.left_neutral)
  moreover have "CHR ''/'' \<notin> set (rev (itoa n))" for n by (simp add: itoa_free)
  ultimately have "rev (itoa (pb_host_port b)) = rev (itoa (pb_host_port c))"
    "rev (pb_protocol b) = rev (pb_protocol c)"
    by (metis cut_found prod.inject)+
  then show "pb_protocol b = pb_protocol c \<and> pb_host_port b = pb_host_port c"
    by (simp add: itoa_inject)
qed (simp add: host_key_def)

subsection \<open>Overrides\<close>

lemma first_binding_Some:
  "first_binding port bs = Some i \<Longrightarrow> i < length bs \<and> pb_host_port (bs ! i) = port"
  by (induction bs arbitrary: i) (auto split: if_splits)

lemma first_binding_None: "first_binding port bs = None \<longleftrightarrow> port \<notin> pb_host_port ` set bs"
  by (induction bs) auto

text \<open>The reference: what one binding of the plan becomes, read off the override map alone.\<close>

definition override_for :: "port_binding list \<Rightarrow> (int, int) gomap \<Rightarrow> nat \<Rightarrow> int option" where
  "override_for planned overrides i =
     (let port = pb_host_port (planned ! i)
      in if first_binding port planned = Some i then map_of overrides port else None)"

definition remap :: "port_binding list \<Rightarrow> (int, int) gomap \<Rightarrow> port_binding list" where
  "remap planned overrides =
     map (\<lambda>i. case override_for planned overrides i of
                None \<Rightarrow> planned ! i
              | Some new \<Rightarrow> (planned ! i)\<lparr>pb_host_port := new\<rparr>)
       [0..<length planned]"

definition override_ok :: "port_binding list \<Rightarrow> int list \<Rightarrow> int list \<Rightarrow> int \<times> int \<Rightarrow> bool" where
  "override_ok planned rangeHostPorts publicPorts ov \<longleftrightarrow>
     fst ov \<in> pb_host_port ` set planned \<and> fst ov \<notin> set rangeHostPorts
     \<and> fst ov \<notin> set publicPorts \<and> 1024 < snd ov \<and> snd ov \<le> 65535"

lemma override_fold:
  "foldE (override_step planned ranges publics) rws ovs = Inr rws' \<longleftrightarrow>
     (\<forall>ov \<in> set ovs. override_ok planned ranges publics ov)
     \<and> rws' = rws @ map (\<lambda>ov. (the (first_binding (fst ov) planned), snd ov)) ovs"
proof (induction ovs arbitrary: rws)
  case (Cons ov ovs)
  show ?case
  proof (cases "override_ok planned ranges publics ov")
    case True
    then obtain i where i: "first_binding (fst ov) planned = Some i"
      using first_binding_None [of "fst ov" planned] by (auto simp: override_ok_def)
    with True have "override_step planned ranges publics rws ov = Inr (rws @ [(i, snd ov)])"
      by (cases ov) (simp add: override_step_def override_ok_def)
    with True i Cons.IH [of "rws @ [(i, snd ov)]"] show ?thesis by simp
  next
    case False
    then have "\<exists>e. override_step planned ranges publics rws ov = Inl e"
      using first_binding_None [of "fst ov" planned]
      by (cases ov) (auto simp: override_step_def override_ok_def split: option.splits)
    with False show ?thesis by auto
  qed
qed auto

lemma length_rewrites: "length (foldl rewrite_port planned rws) = length planned"
  by (induction rws arbitrary: planned) (simp_all add: rewrite_port_def)

lemma rewrites_nth:
  assumes "distinct (map fst rws)" "\<forall>rw \<in> set rws. fst rw < length planned" "i < length planned"
  shows "length (foldl rewrite_port planned rws) = length planned
    \<and> foldl rewrite_port planned rws ! i = (case map_of rws i of None \<Rightarrow> planned ! i
        | Some new \<Rightarrow> (planned ! i)\<lparr>pb_host_port := new\<rparr>)"
  using assms
proof (induction rws arbitrary: planned)
  case (Cons rw rws)
  let ?p = "rewrite_port planned rw"
  have len: "length ?p = length planned" by (simp add: rewrite_port_def)
  from Cons.prems have "length (foldl rewrite_port ?p rws) = length ?p
    \<and> foldl rewrite_port ?p rws ! i = (case map_of rws i of None \<Rightarrow> ?p ! i
        | Some new \<Rightarrow> (?p ! i)\<lparr>pb_host_port := new\<rparr>)"
    by (intro Cons.IH) (auto simp: len)
  moreover have "?p ! i = (if fst rw = i then (planned ! i)\<lparr>pb_host_port := snd rw\<rparr> else planned ! i)"
    using Cons.prems(3) by (auto simp: rewrite_port_def)
  moreover have "fst rw = i \<Longrightarrow> map_of rws i = None"
    using Cons.prems(1) by (auto simp: map_of_eq_None_iff)
  ultimately show ?case by (auto simp: len split: option.splits)
qed simp

text \<open>The rewrites the overrides amount to, under the index of the binding they rewrite.\<close>

definition port_rewrites :: "port_binding list \<Rightarrow> (int, int) gomap \<Rightarrow> (nat \<times> int) list" where
  "port_rewrites planned ovs = map (\<lambda>ov. (the (first_binding (fst ov) planned), snd ov)) ovs"

lemma first_binding_of:
  assumes "\<forall>ov \<in> set ovs. fst ov \<in> pb_host_port ` set planned" "ov \<in> set ovs"
  shows "first_binding (fst ov) planned = Some (the (first_binding (fst ov) planned))"
  using assms first_binding_None [of "fst ov" planned] by (cases "first_binding (fst ov) planned") auto

lemma rewrites_in:
  assumes "\<forall>ov \<in> set ovs. fst ov \<in> pb_host_port ` set planned"
  shows "(i, new) \<in> set (port_rewrites planned ovs)
    \<longleftrightarrow> (\<exists>port. first_binding port planned = Some i \<and> (port, new) \<in> set ovs)"
proof
  assume "(i, new) \<in> set (port_rewrites planned ovs)"
  then obtain ov where "ov \<in> set ovs" "i = the (first_binding (fst ov) planned)" "new = snd ov"
    by (auto simp: port_rewrites_def)
  with first_binding_of [OF assms] show "\<exists>port. first_binding port planned = Some i \<and> (port, new) \<in> set ovs"
    by (metis prod.collapse)
next
  assume "\<exists>port. first_binding port planned = Some i \<and> (port, new) \<in> set ovs"
  then show "(i, new) \<in> set (port_rewrites planned ovs)"
    by (force simp: port_rewrites_def)
qed

lemma rewrites_distinct:
  assumes "distinct (map fst ovs)" "\<forall>ov \<in> set ovs. fst ov \<in> pb_host_port ` set planned"
  shows "distinct (map fst (port_rewrites planned ovs))"
  using assms
proof (induction ovs)
  case (Cons ov ovs)
  have "the (first_binding (fst ov) planned) \<noteq> the (first_binding (fst ov') planned)" if "ov' \<in> set ovs" for ov'
  proof -
    have "first_binding (fst ov) planned = Some (the (first_binding (fst ov) planned))"
      "first_binding (fst ov') planned = Some (the (first_binding (fst ov') planned))"
      by (rule first_binding_of [OF Cons.prems(2)]; use that in simp)+
    then have "pb_host_port (planned ! the (first_binding (fst ov) planned)) = fst ov"
      "pb_host_port (planned ! the (first_binding (fst ov') planned)) = fst ov'"
      using first_binding_Some by blast+
    moreover have "fst ov \<noteq> fst ov'" using Cons.prems(1) that by auto
    ultimately show ?thesis by auto
  qed
  with Cons show ?case by (fastforce simp: port_rewrites_def)
qed (simp add: port_rewrites_def)

lemma rewrites_lookup:
  assumes "distinct (map fst ovs)" "\<forall>ov \<in> set ovs. fst ov \<in> pb_host_port ` set planned"
  shows "map_of (port_rewrites planned ovs) i = override_for planned ovs i"
proof (rule option.expand)
  have iff: "map_of (port_rewrites planned ovs) i = Some new \<longleftrightarrow> override_for planned ovs i = Some new" for new
  proof -
    have "map_of (port_rewrites planned ovs) i = Some new \<longleftrightarrow> (i, new) \<in> set (port_rewrites planned ovs)"
      using rewrites_distinct [OF assms] by (rule map_of_eq_Some_iff)
    also have "\<dots> \<longleftrightarrow> (\<exists>port. first_binding port planned = Some i \<and> map_of ovs port = Some new)"
      unfolding rewrites_in [OF assms(2)] using map_of_eq_Some_iff [OF assms(1)] by metis
    also have "\<dots> \<longleftrightarrow> override_for planned ovs i = Some new"
    proof -
      have "override_for planned ovs i = Some new \<longleftrightarrow>
          first_binding (pb_host_port (planned ! i)) planned = Some i
          \<and> map_of ovs (pb_host_port (planned ! i)) = Some new"
        by (simp add: override_for_def Let_def)
      then show ?thesis using first_binding_Some by metis
    qed
    finally show ?thesis .
  qed
  then show "(map_of (port_rewrites planned ovs) i = None) = (override_for planned ovs i = None)"
    by (metis not_Some_eq)
  assume "map_of (port_rewrites planned ovs) i \<noteq> None" "override_for planned ovs i \<noteq> None"
  with iff show "the (map_of (port_rewrites planned ovs) i) = the (override_for planned ovs i)"
    by (metis option.collapse option.sel)
qed

lemma foldl_remap:
  assumes "distinct (map fst ovs)" "\<forall>ov \<in> set ovs. fst ov \<in> pb_host_port ` set planned"
  shows "foldl rewrite_port planned (port_rewrites planned ovs) = remap planned ovs"
proof (rule nth_equalityI)
  note dist = rewrites_distinct [OF assms]
  have "\<forall>rw \<in> set (port_rewrites planned ovs). fst rw < length planned"
    using rewrites_in [OF assms(2)] first_binding_Some by (metis prod.collapse)
  note nth = rewrites_nth [OF dist this]
  show len: "length (foldl rewrite_port planned (port_rewrites planned ovs)) = length (remap planned ovs)"
    by (simp add: length_rewrites remap_def)
  fix i
  assume "i < length (foldl rewrite_port planned (port_rewrites planned ovs))"
  then have "i < length planned" unfolding len by (simp add: remap_def)
  with nth [OF this] show "foldl rewrite_port planned (port_rewrites planned ovs) ! i = remap planned ovs ! i"
    by (simp add: remap_def rewrites_lookup [OF assms] split: option.splits)
qed

lemma dup_fold:
  "(\<exists>r. foldE dup_step seen bs = Inr r) \<longleftrightarrow>
     distinct (map host_key bs) \<and> host_key ` set bs \<inter> set seen = {}"
proof (induction bs arbitrary: seen)
  case (Cons b bs)
  show ?case
  proof (cases "host_key b \<in> set seen")
    case False
    then have "foldE dup_step seen (b # bs) = foldE dup_step (host_key b # seen) bs"
      by (simp add: dup_step_def)
    with Cons.IH [of "host_key b # seen"] False show ?thesis by auto
  qed (simp add: dup_step_def)
qed simp

text \<open>
  When the overrides are accepted and what they make of the plan; nothing here depends on the order
  of the association list but its look-ups.
\<close>

lemma apply_overrides_Inr:
  assumes "distinct (map fst ovs)" "ovs \<noteq> []"
  shows "applyPortOverrides planned ovs ranges publics = Inr planned' \<longleftrightarrow>
    (\<forall>ov \<in> set ovs. override_ok planned ranges publics ov)
    \<and> planned' = remap planned ovs \<and> distinct (map host_key planned')"
proof -
  let ?rws = "map (\<lambda>ov. (the (first_binding (fst ov) planned), snd ov)) ovs"
  have eq: "foldl rewrite_port planned ?rws = remap planned ovs"
    if "\<forall>ov \<in> set ovs. override_ok planned ranges publics ov"
    using foldl_remap [OF assms(1), of planned] that by (simp add: override_ok_def port_rewrites_def)
  have "applyPortOverrides planned ovs ranges publics = Inr planned' \<longleftrightarrow>
     (\<forall>ov \<in> set ovs. override_ok planned ranges publics ov)
     \<and> planned' = foldl rewrite_port planned ?rws \<and> (\<exists>r. foldE dup_step [] planned' = Inr r)"
    using assms(2) by (auto simp: applyPortOverrides_def err_simps Let_def override_fold)
  also have "\<dots> \<longleftrightarrow> (\<forall>ov \<in> set ovs. override_ok planned ranges publics ov)
    \<and> planned' = remap planned ovs \<and> distinct (map host_key planned')"
    using eq by (auto simp: dup_fold)
  finally show ?thesis .
qed

lemma remap_Nil [simp]: "remap planned [] = planned"
proof -
  have "override_for planned [] i = None" for i by (simp add: override_for_def Let_def)
  then show ?thesis by (simp add: remap_def map_nth)
qed

lemma apply_overrides_remap:
  assumes "distinct (map fst ovs)" "distinct (map host_key planned)"
    and "applyPortOverrides planned ovs ranges publics = Inr planned'"
  shows "(\<forall>ov \<in> set ovs. override_ok planned ranges publics ov)
    \<and> planned' = remap planned ovs \<and> distinct (map host_key planned')"
proof (cases "ovs = []")
  case True
  with assms show ?thesis by (simp add: applyPortOverrides_def)
next
  case False
  from assms(3) show ?thesis unfolding apply_overrides_Inr [OF assms(1) False] .
qed

text \<open>What may happen to one binding of the catalog.\<close>

definition moved_ok :: "port_index \<Rightarrow> port_binding \<Rightarrow> port_binding \<Rightarrow> bool" where
  "moved_ok ix b b' \<longleftrightarrow> b' = b \<or>
     (\<exists>new. b' = b\<lparr>pb_host_port := new\<rparr> \<and> 1024 < new \<and> new \<le> 65535
        \<and> pb_host_port b \<notin> set (ix_range ix) \<and> pb_host_port b \<notin> set (ix_public ix)
        \<and> pb_host_ip b = ''127.0.0.1'')"

lemma remap_moved:
  assumes inv: "index_inv ports ix" and d: "distinct (map fst ovs)"
    and ok: "\<forall>ov \<in> set ovs. override_ok (ix_base ix) (ix_range ix) (ix_public ix) ov"
  shows "list_all2 (moved_ok ix) (ix_base ix) (remap (ix_base ix) ovs)"
proof (rule list_all2_all_nthI)
  show "length (ix_base ix) = length (remap (ix_base ix) ovs)" by (simp add: remap_def)
  fix i
  assume i: "i < length (ix_base ix)"
  show "moved_ok ix (ix_base ix ! i) (remap (ix_base ix) ovs ! i)"
  proof (cases "override_for (ix_base ix) ovs i")
    case None
    with i show ?thesis by (simp add: moved_ok_def remap_def)
  next
    case (Some new)
    then have "(pb_host_port (ix_base ix ! i), new) \<in> set ovs"
      by (auto simp: override_for_def Let_def split: if_splits dest: map_of_SomeD)
    with ok have "override_ok (ix_base ix) (ix_range ix) (ix_public ix) (pb_host_port (ix_base ix ! i), new)"
      by blast
    with index_loopback [OF inv nth_mem [OF i]] i Some show ?thesis
      by (auto simp: moved_ok_def remap_def override_ok_def)
  qed
qed

subsection \<open>The loop\<close>

lemma attempt_Bound:
  assumes "plan_attempt probe auto explicit ix attempt ov w = (Bound planned, w')"
  shows "applyPortOverrides (ix_base ix) ov (ix_range ix) (ix_public ix) = Inr planned
    \<and> probe_all probe w 0 planned = (None, w')"
  using assms
  by (auto simp: plan_attempt_def Let_def split: sum.splits prod.splits option.splits if_splits)

lemma attempt_Retry:
  assumes "plan_attempt probe auto explicit ix attempt ov w = (Retry ov', w')"
  shows "auto \<and> (\<exists>port new. ov' = AList.update port new ov \<and> map_of explicit port = None)"
  using assms
  by (auto simp: plan_attempt_def Let_def split: sum.splits prod.splits option.splits if_splits)

lemma distinct_update: "distinct (map fst m) \<Longrightarrow> distinct (map fst (AList.update k v m))"
  by (rule distinct_update)

lemma plan_loop_Inr:
  assumes "plan_loop probe auto explicit ix attempt ov w = (Inr (planned, ov'), w')"
    and "distinct (map fst ov)"
  shows "distinct (map fst ov')
    \<and> applyPortOverrides (ix_base ix) ov' (ix_range ix) (ix_public ix) = Inr planned
    \<and> (\<exists>w1. probe_all probe w1 0 planned = (None, w'))
    \<and> (\<forall>k. map_of explicit k \<noteq> None \<longrightarrow> map_of ov' k = map_of ov k)
    \<and> (\<not> auto \<longrightarrow> ov' = ov)"
  using assms
proof (induction probe auto explicit ix attempt ov w rule: plan_loop.induct)
  case (1 probe auto explicit ix attempt ov w)
  obtain out w1 where att: "plan_attempt probe auto explicit ix attempt ov w = (out, w1)" by fastforce
  show ?case
  proof (cases out)
    case (Bound ps)
    with att "1.prems" have "ps = planned" "ov' = ov" "w1 = w'" by (auto simp: plan_loop.simps)
    with attempt_Bound [of probe auto explicit ix attempt ov w planned w'] att Bound "1.prems"(2)
    show ?thesis by auto
  next
    case (Refused e)
    with att "1.prems" show ?thesis by (simp add: plan_loop.simps)
  next
    case (Retry ov1)
    from attempt_Retry [OF att [unfolded Retry]] obtain port new where
      r: "auto" "ov1 = AList.update port new ov" "map_of explicit port = None" by blast
    from att Retry "1.prems"(1) have
      "plan_loop probe auto explicit ix (Suc attempt) ov1 w1 = (Inr (planned, ov'), w')"
      by (simp add: plan_loop.simps [of _ _ _ _ attempt])
    from "1.IH" [OF att [symmetric] Retry this] "1.prems"(2) r
    show ?thesis by (auto simp: distinct_update)
  qed
qed

lemma probe_all_None:
  assumes "probe_all probe w i bs = (None, w')" "b \<in> set bs"
  shows "\<exists>w1. fst (probe w1 b) = None"
  using assms
proof (induction bs arbitrary: w i)
  case (Cons c cs)
  obtain r w1 where p: "probe w c = (r, w1)" by fastforce
  with Cons.prems(1) have "r = None" "probe_all probe w1 (Suc i) cs = (None, w')"
    by (auto split: option.splits)
  with Cons p show ?case by (metis fst_conv set_ConsD)
qed simp

subsection \<open>The number of probes\<close>

text \<open>\<open>n\<close> counts probes when one probe adds at most one to it.\<close>

definition counts_probes :: "('w \<Rightarrow> nat) \<Rightarrow> 'w probe \<Rightarrow> bool" where
  "counts_probes n probe \<longleftrightarrow> (\<forall>w b. n (snd (probe w b)) \<le> Suc (n w))"

lemma count_probe: "counts_probes n probe \<Longrightarrow> probe w b = (r, w') \<Longrightarrow> n w' \<le> Suc (n w)"
  unfolding counts_probes_def by (metis snd_conv)

lemma count_probe_all:
  "counts_probes n probe \<Longrightarrow> n (snd (probe_all probe w i bs)) \<le> n w + length bs"
proof (induction bs arbitrary: w i)
  case (Cons b bs)
  obtain r w1 where p: "probe w b = (r, w1)" by fastforce
  have "n w1 \<le> Suc (n w)" by (rule count_probe [OF Cons.prems p])
  with Cons.IH [OF Cons.prems, of w1 "Suc i"] p show ?case by (cases r) auto
qed simp

lemma count_scan:
  "counts_probes n probe \<Longrightarrow> n (snd (scan_ports probe b planned w c stop)) \<le> n w + nat (stop + 1 - c)"
proof (induction probe b planned w c stop rule: scan_ports.induct)
  case (1 probe b planned w c stop)
  obtain r w1 where p: "probe w (b\<lparr>pb_host_port := c\<rparr>) = (r, w1)" by fastforce
  have w1: "n w1 \<le> Suc (n w)" by (rule count_probe [OF "1.prems" p])
  consider "c > stop" | "c \<le> stop" "c \<in> set planned" | "c \<le> stop" "c \<notin> set planned" "r = None"
    | e where "c \<le> stop" "c \<notin> set planned" "r = Some e" by (cases r) fastforce+
  then show ?case
  proof cases
    case 2
    with "1.IH"(1) "1.prems" show ?thesis by (subst scan_ports.simps) auto
  next
    case 4
    with "1.IH"(2) [OF _ _ p [symmetric] 4(3)] "1.prems" w1 p show ?thesis
      by (subst scan_ports.simps) auto
  qed (use w1 p in \<open>auto simp: scan_ports.simps [of probe b planned w]\<close>)
qed

lemma length_window: "nat (suggest_stop port + 1 - suggest_start port) \<le> 1024"
  by (simp add: suggest_stop_def portSuggestScanWindow_def)

lemma count_enrich:
  "counts_probes n probe \<Longrightarrow>
     n (snd (enrichPortConflict probe w b ranges publics planned e)) \<le> n w + 1024"
  using count_scan [of n probe b planned w "suggest_start (pb_host_port b)" "suggest_stop (pb_host_port b)"]
    length_window [of "pb_host_port b"]
  by (auto simp: enrichPortConflict_def suggestFreePort_def Let_def split: prod.splits)

lemma length_apply:
  "applyPortOverrides planned ov ranges publics = Inr planned' \<Longrightarrow> length planned' = length planned"
  by (auto simp: applyPortOverrides_def err_simps Let_def length_rewrites split: if_splits)

lemma count_attempt:
  assumes "counts_probes n probe"
  shows "n (snd (plan_attempt probe auto explicit ix attempt ov w)) \<le> n w + length (ix_base ix) + 1024"
proof (cases "applyPortOverrides (ix_base ix) ov (ix_range ix) (ix_public ix)")
  case (Inr planned)
  obtain r w1 where pa: "probe_all probe w 0 planned = (r, w1)" by fastforce
  have w1: "n w1 \<le> n w + length (ix_base ix)"
    using count_probe_all [OF assms, of w 0 planned] pa length_apply [OF Inr] by simp
  show ?thesis
  proof (cases r)
    case None
    with Inr pa w1 show ?thesis by (simp add: plan_attempt_def)
  next
    case (Some x)
    obtain i b e where x: "x = (i, b, e)" by (cases x)
    obtain ce w2 where en: "enrichPortConflict probe w1 b (ix_range ix) (ix_public ix)
        (map pb_host_port planned) e = (ce, w2)" by fastforce
    have "n w2 \<le> n w1 + 1024" using count_enrich [OF assms, of w1] en by (metis snd_conv)
    moreover have "snd (plan_attempt probe auto explicit ix attempt ov w) = w2"
      by (auto simp: plan_attempt_def Inr pa Some x en Let_def split: option.splits)
    ultimately show ?thesis using w1 by simp
  qed
qed (simp add: plan_attempt_def)

lemma count_loop:
  assumes "counts_probes n probe" "attempt \<le> autoPortMaxAttempts"
  shows "n (snd (plan_loop probe auto explicit ix attempt ov w))
    \<le> n w + (Suc autoPortMaxAttempts - attempt) * (length (ix_base ix) + 1024)"
  using assms
proof (induction probe auto explicit ix attempt ov w rule: plan_loop.induct)
  case (1 probe auto explicit ix attempt ov w)
  let ?m = "length (ix_base ix) + 1024"
  obtain out w1 where att: "plan_attempt probe auto explicit ix attempt ov w = (out, w1)" by fastforce
  have w1: "n w1 \<le> n w + ?m" using count_attempt [OF "1.prems"(1)] att by (metis add.assoc snd_conv)
  have "?m \<le> (Suc autoPortMaxAttempts - attempt) * ?m" using "1.prems"(2) by simp
  with w1 have le: "n w1 \<le> n w + (Suc autoPortMaxAttempts - attempt) * ?m" by linarith
  show ?case
  proof (cases out)
    case (Retry ov1)
    have lt: "attempt < autoPortMaxAttempts" by (rule plan_attempt_Retry [OF att [unfolded Retry]])
    have "n (snd (plan_loop probe auto explicit ix (Suc attempt) ov1 w1))
        \<le> n w1 + (Suc autoPortMaxAttempts - Suc attempt) * ?m"
      using "1.IH" [OF att [symmetric] Retry "1.prems"(1)] lt by simp
    moreover have "(Suc autoPortMaxAttempts - attempt) * ?m = ?m + (Suc autoPortMaxAttempts - Suc attempt) * ?m"
      using lt by (simp add: Suc_diff_le)
    ultimately show ?thesis
      using w1 att Retry by (simp add: plan_loop.simps [of _ _ _ _ attempt])
  qed (use att le in \<open>simp_all add: plan_loop.simps\<close>)
qed

subsection \<open>The whole planning step\<close>

lemma planPorts_Inr:
  assumes "planPorts lib probe w p = (Inr p', w')" "distinct (map fst (port_overrides p))"
  obtains ix where "catalogPortBindings (plan_app p) = Inr ix"
    and "refusePublicAdminPorts lib p (ix_base ix) (ix_public ix) = None"
    and "p' = p\<lparr>local_ports := local_ports p', port_overrides := port_overrides p'\<rparr>"
    and "\<forall>ov \<in> set (port_overrides p'). override_ok (ix_base ix) (ix_range ix) (ix_public ix) ov"
    and "local_ports p' = remap (ix_base ix) (port_overrides p')"
    and "distinct (map host_key (local_ports p'))"
    and "distinct (map fst (port_overrides p'))"
    and "\<exists>w1. probe_all probe w1 0 (local_ports p') = (None, w')"
    and "\<forall>k. map_of (port_overrides p) k \<noteq> None \<longrightarrow> map_of (port_overrides p') k = map_of (port_overrides p) k"
    and "\<not> auto_port p \<longrightarrow> port_overrides p' = port_overrides p"
proof -
  from assms(1) obtain ix bound ov where ix: "catalogPortBindings (plan_app p) = Inr ix"
    and adm: "refusePublicAdminPorts lib p (ix_base ix) (ix_public ix) = None"
    and loop: "plan_loop probe (auto_port p) (port_overrides p) ix 0 (port_overrides p) w = (Inr (bound, ov), w')"
    and p': "p' = p\<lparr>local_ports := bound, port_overrides := ov\<rparr>"
    by (auto simp: planPorts_def split: sum.splits option.splits prod.splits)
  note l = plan_loop_Inr [OF loop assms(2)]
  have "distinct (map host_key (ix_base ix))"
    using catalog_index_inv [OF ix] by (simp add: index_inv_def)
  from apply_overrides_remap [OF _ this] l have r:
    "\<forall>v \<in> set ov. override_ok (ix_base ix) (ix_range ix) (ix_public ix) v"
    "bound = remap (ix_base ix) ov" "distinct (map host_key bound)" by blast+
  have f: "local_ports p' = bound" "port_overrides p' = ov" using p' by simp_all
  show ?thesis
    by (rule that [OF ix adm]; unfold f) (use p' r l in \<open>blast+\<close>)
qed

lemma moved_valid:
  assumes "index_inv ports ix" "list_all2 (moved_ok ix) (ix_base ix) bs" "b \<in> set bs"
  shows "valid_port (pb_host_port b) \<and> valid_port (pb_container_port b)
    \<and> (\<exists>port \<in> set ports. \<exists>c. expands_to port c \<and> b = c\<lparr>pb_host_port := pb_host_port b\<rparr>
          \<and> pb_host_ip b = (if port_public port then ''0.0.0.0'' else ''127.0.0.1'')
          \<and> (port_public port \<longrightarrow> b = c \<and> b \<in> set (ix_base ix) \<and> pb_host_port b \<in> set (ix_public ix)))"
proof -
  from assms(3) obtain i where i: "i < length bs" "bs ! i = b" by (auto simp: in_set_conv_nth)
  with assms(2) have "i < length (ix_base ix)" "moved_ok ix (ix_base ix ! i) b"
    by (auto simp: list_all2_conv_all_nth)
  then obtain c where c: "c \<in> set (ix_base ix)" "moved_ok ix c b" using nth_mem by blast
  with assms(1) obtain port where port: "port \<in> set ports" "indexed ix port c"
    by (auto simp: index_inv_def)
  from c(2) consider "b = c"
    | new where "b = c\<lparr>pb_host_port := new\<rparr>" "1024 < new" "new \<le> 65535" "pb_host_ip c = ''127.0.0.1''"
    unfolding moved_ok_def by blast
  then show ?thesis
  proof cases
    case 1
    with port c(1) show ?thesis unfolding indexed_def by (auto simp: comes_from_def intro!: bexI [of _ port] exI [of _ c])
  next
    case 2
    with port(2) have "\<not> port_public port" by (auto simp: indexed_def comes_from_def)
    with 2 port show ?thesis
      by (auto simp: indexed_def comes_from_def valid_port_def intro!: bexI [of _ port] exI [of _ c])
  qed
qed

lemma admin_refused:
  assumes "refusePublicAdminPorts lib p planned publics = None" "publics \<noteq> []"
  shows "\<exists>admin. identifyAdminHostPorts lib p planned publics = Inr admin
    \<and> (\<forall>b \<in> set planned. pb_host_port b \<in> set publics \<longrightarrow> pb_host_port b \<notin> set admin)"
  using assms by (auto simp: refusePublicAdminPorts_def err_simps split: sum.splits if_splits)

subsection \<open>Probes that change nothing\<close>

text \<open>
  A probe that leaves the system as it found it (the listener is closed again): the verdict on a
  binding is then a function of the state.
\<close>

locale steady_probe =
  fixes probe :: "'w probe"
    and verdict :: "'w \<Rightarrow> port_binding \<Rightarrow> probe_reason wdm_error option"
  assumes steady: "probe w b = (verdict w b, w)"
begin

definition usable :: "'w \<Rightarrow> port_binding \<Rightarrow> int list \<Rightarrow> int \<Rightarrow> bool" where
  "usable w b planned c \<longleftrightarrow> c \<notin> set planned \<and> verdict w (b\<lparr>pb_host_port := c\<rparr>) = None"

text \<open>The scan stops at the least usable port of the window, and 0 says there is none.\<close>

lemma scan_least:
  assumes "scan_ports probe b planned w c stop = (s, w')"
  shows "(s = 0 \<and> (\<forall>d. c \<le> d \<longrightarrow> d \<le> stop \<longrightarrow> \<not> usable w b planned d))
    \<or> (c \<le> s \<and> s \<le> stop \<and> usable w b planned s \<and> (\<forall>d. c \<le> d \<longrightarrow> d < s \<longrightarrow> \<not> usable w b planned d))"
  using assms
proof (induction "nat (stop + 1 - c)" arbitrary: c)
  case 0
  then show ?case by (simp add: scan_ports.simps)
next
  case (Suc k)
  from Suc(2) have le: "c \<le> stop" by linarith
  have step: "d = c \<or> c + 1 \<le> d" if "c \<le> d" for d using that by linarith
  show ?case
  proof (cases "usable w b planned c")
    case True
    then have "scan_ports probe b planned w c stop = (c, w)"
      using le by (simp add: scan_ports.simps [of _ _ _ _ c] usable_def steady)
    with Suc(3) True le show ?thesis by auto
  next
    case False
    then have "scan_ports probe b planned w c stop = scan_ports probe b planned w (c + 1) stop"
      using le by (subst scan_ports.simps) (auto simp: usable_def steady split: option.splits)
    with Suc(3) have "scan_ports probe b planned w (c + 1) stop = (s, w')" by simp
    with Suc(1) [of "c + 1"] Suc(2) False step show ?thesis by force
  qed
qed

end

definition os_probe :: "('w \<Rightarrow> string \<Rightarrow> string \<Rightarrow> listen_result) \<Rightarrow> 'w probe" where
  "os_probe os = checkPortAvailable (\<lambda>w net addr. (os w net addr, w))"

interpretation os: steady_probe "os_probe os" "\<lambda>w b. fst (os_probe os w b)" for os
  by unfold_locales (simp add: os_probe_def checkPortAvailable_def Let_def)

subsection \<open>Properties\<close>

text \<open>An app with a loopback port that is taken and a public port, planned with \<open>--auto-port\<close>.\<close>

definition demo_ports_app :: app where
  "demo_ports_app = zero_app\<lparr>app_ports :=
     [zero_port\<lparr>port_service := ''web'', port_container := 80, port_host := 8080\<rparr>,
      zero_port\<lparr>port_service := ''dns'', port_container := 53, port_host := 5353,
        port_protocol := ''udp'', port_public := True\<rparr>]\<rparr>"

definition demo_url_lib :: url_lib where
  "demo_url_lib = \<lparr>url_port = \<lambda>_. None, render_template = \<lambda>_ _. None\<rparr>"

definition demo_plan :: install_plan where
  "demo_plan = (zero_plan demo_ports_app)\<lparr>auto_port := True\<rparr>"

definition demo_probe :: "nat probe" where
  "demo_probe w b =
     (if pb_host_port b = 8080 then Some (UsageValidation (AlreadyInUse 8080 (OtherOsError ''in use'')))
      else None, Suc w)"

definition demo_bound :: "port_binding list" where
  "demo_bound =
     [\<lparr>pb_service = ''web'', pb_host_ip = ''127.0.0.1'', pb_host_port = 8081, pb_container_port = 80,
       pb_protocol = ''tcp''\<rparr>,
      \<lparr>pb_service = ''dns'', pb_host_ip = ''0.0.0.0'', pb_host_port = 5353, pb_container_port = 53,
       pb_protocol = ''udp''\<rparr>]"

lemmas ports_eval = go_eval planPorts_def catalogPortBindings_def index_port_def portBindings_def
  index_binding_def host_key_def refusePublicAdminPorts_def identifyAdminHostPorts_def
  hostPortFromURL_def plan_loop.simps plan_attempt_def applyPortOverrides_def override_step_def
  rewrite_port_def dup_step_def enrichPortConflict_def suggestFreePort_def suggest_start_def
  suggest_stop_def portSuggestScanWindow_def scan_ports.simps suggestion_of_def
  autoPortMaxAttempts_def port_protocol_or_tcp_def zero_app_def zero_port_def bindE_def

lemma demo_run:
  "planPorts demo_url_lib demo_probe 0 demo_plan =
     (Inr (demo_plan\<lparr>local_ports := demo_bound, port_overrides := [(8080, 8081)]\<rparr>), 4)"
  by (simp add: ports_eval demo_url_lib_def demo_probe_def demo_plan_def zero_plan_def demo_ports_app_def
      demo_bound_def)

text \<open>
  Every binding that planning settles on is one binding of the catalog's ports, in order, and it
  is unchanged but for the host port of a single loopback port, which can only move to an unprivileged
  port (1025 to 65535). A range port or a public port never moves, and no host interface changes.
\<close>

lemma plan_ports_from_catalog:
  assumes "planPorts lib probe w p = (Inr p', w')" "distinct (map fst (port_overrides p))"
  shows "\<exists>ix. catalogPortBindings (plan_app p) = Inr ix
    \<and> list_all2 (moved_ok ix) (ix_base ix) (local_ports p')"
proof -
  from assms obtain ix where ix: "catalogPortBindings (plan_app p) = Inr ix"
    and ok: "\<forall>ov \<in> set (port_overrides p'). override_ok (ix_base ix) (ix_range ix) (ix_public ix) ov"
    and eq: "local_ports p' = remap (ix_base ix) (port_overrides p')"
    and d: "distinct (map fst (port_overrides p'))"
    by (rule planPorts_Inr)
  from remap_moved [OF catalog_index_inv [OF ix] d ok] ix eq show ?thesis by metis
qed

lemma demo_no_overrides: "distinct (map fst (port_overrides demo_plan))"
  by (simp add: demo_plan_def zero_plan_def)

lemma plan_ports_from_catalog_witness:
  "\<exists>ix. catalogPortBindings demo_ports_app = Inr ix \<and> list_all2 (moved_ok ix) (ix_base ix) demo_bound"
  using plan_ports_from_catalog [OF demo_run demo_no_overrides] by (simp add: demo_plan_def zero_plan_def)

text \<open>The host and container ports a catalog entry declares: its pair, or the pairs of its two ranges.\<close>

definition declares :: "catalog_port \<Rightarrow> int \<Rightarrow> int \<Rightarrow> bool" where
  "declares port host container \<longleftrightarrow>
     (if port_host_range port = [] \<and> port_container_range port = []
      then host = port_host port \<and> container = port_container port
      else (\<exists>hl hh cl ch. parsePortRange (port_service port) (port_host_range port) = Inr (hl, hh)
        \<and> parsePortRange (port_service port) (port_container_range port) = Inr (cl, ch)
        \<and> hl \<le> host \<and> host \<le> hh \<and> host - hl = container - cl))"

lemma range_declared:
  assumes "rangePortBindings port proto ip = Inr bs" "c \<in> set bs"
    "\<not> (port_host_range port = [] \<and> port_container_range port = [])"
  shows "declares port (pb_host_port c) (pb_container_port c)"
proof -
  from assms(1) obtain hl hh cl ch where r:
    "parsePortRange (port_service port) (port_host_range port) = Inr (hl, hh)"
    "parsePortRange (port_service port) (port_container_range port) = Inr (cl, ch)"
    "hh - hl = ch - cl"
    and bs: "bs = map (\<lambda>offset. \<lparr>pb_service = port_service port, pb_host_ip = ip,
       pb_host_port = hl + offset, pb_container_port = cl + offset, pb_protocol = proto\<rparr>)
       [0..hh - hl]"
    by (rule rangePortBindings_Inr)
  from assms(2) bs obtain k where k: "0 \<le> k" "k \<le> hh - hl" and
    c: "c = \<lparr>pb_service = port_service port, pb_host_ip = ip, pb_host_port = hl + k,
       pb_container_port = cl + k, pb_protocol = proto\<rparr>"
    by auto
  from k have "hl \<le> hl + k \<and> hl + k \<le> hh \<and> (hl + k) - hl = (cl + k) - cl" by simp
  with r(1,2) have "\<exists>hl' hh cl' ch. parsePortRange (port_service port) (port_host_range port) = Inr (hl', hh)
        \<and> parsePortRange (port_service port) (port_container_range port) = Inr (cl', ch)
        \<and> hl' \<le> hl + k \<and> hl + k \<le> hh \<and> (hl + k) - hl' = (cl + k) - cl'" by blast
  with assms(3) show ?thesis unfolding declares_def c by (simp only: port_binding.simps if_False)
qed

lemma pair_declared:
  assumes "portBindings port = Inr bs" "c \<in> set bs"
    "port_host_range port = [] \<and> port_container_range port = []"
  shows "declares port (pb_host_port c) (pb_container_port c)"
  using assms by (auto simp add: declares_def portBindings_def Let_def split: if_split_asm)

lemma expansion_declared:
  assumes "expands_to port c"
  shows "declares port (pb_host_port c) (pb_container_port c) \<and> comes_from port c"
proof -
  from assms obtain bs where bs: "portBindings port = Inr bs" "c \<in> set bs" by (auto simp: expands_to_def)
  have "rangePortBindings port (port_protocol_or_tcp (port_protocol port))
      (if port_public port then ''0.0.0.0'' else ''127.0.0.1'') = Inr bs"
    if "\<not> (port_host_range port = [] \<and> port_container_range port = [])"
    using that bs(1) by (auto simp: portBindings_def Let_def)
  from range_declared [OF this bs(2)] pair_declared [OF bs]
  have "declares port (pb_host_port c) (pb_container_port c)" by blast
  moreover have "comes_from port c"
    using portBindings_wf [OF bs] by (simp add: comes_from_def)
  ultimately show ?thesis by blast
qed

lemma planned_from_catalog:
  assumes "planPorts lib probe w p = (Inr p', w')" "distinct (map fst (port_overrides p))"
    and "b \<in> set (local_ports p')"
  shows "\<exists>port \<in> set (app_ports (plan_app p)). \<exists>c ix admin. expands_to port c
    \<and> b = c\<lparr>pb_host_port := pb_host_port b\<rparr>
    \<and> pb_host_ip b = (if port_public port then ''0.0.0.0'' else ''127.0.0.1'')
    \<and> (port_public port \<longrightarrow> b = c \<and> catalogPortBindings (plan_app p) = Inr ix
        \<and> identifyAdminHostPorts lib p (ix_base ix) (ix_public ix) = Inr admin \<and> pb_host_port b \<notin> set admin)"
proof -
  from assms(1,2) obtain ix where ix: "catalogPortBindings (plan_app p) = Inr ix"
    and adm: "refusePublicAdminPorts lib p (ix_base ix) (ix_public ix) = None"
    and ok: "\<forall>ov \<in> set (port_overrides p'). override_ok (ix_base ix) (ix_range ix) (ix_public ix) ov"
    and eq: "local_ports p' = remap (ix_base ix) (port_overrides p')"
    and d: "distinct (map fst (port_overrides p'))"
    by (rule planPorts_Inr)
  note inv = catalog_index_inv [OF ix]
  from moved_valid [OF inv remap_moved [OF inv d ok] assms(3) [unfolded eq]]
  obtain port c where port: "port \<in> set (app_ports (plan_app p))" "expands_to port c" "b = c\<lparr>pb_host_port := pb_host_port b\<rparr>"
    "pb_host_ip b = (if port_public port then ''0.0.0.0'' else ''127.0.0.1'')"
    and pub: "port_public port \<Longrightarrow> b = c \<and> b \<in> set (ix_base ix) \<and> pb_host_port b \<in> set (ix_public ix)" by blast
  have "\<exists>admin. identifyAdminHostPorts lib p (ix_base ix) (ix_public ix) = Inr admin \<and> pb_host_port b \<notin> set admin"
    if "port_public port"
    using admin_refused [OF adm] pub [OF that] by (cases "ix_public ix") auto
  with port pub ix show ?thesis by blast
qed

text \<open>
  C2: every binding of a plan is one that an entry of the signed catalog declares, with that entry's service,
  container port and protocol. When the entry is public the binding is on all interfaces, at exactly the host port of
  the catalog, and that port is not one the planner takes for the admin surface; every other binding is
  on 127.0.0.1, and only its host port may differ from the declared one.
\<close>

theorem plan_ports_public_is_declared:
  assumes "planPorts lib probe w p = (Inr p', w')" "distinct (map fst (port_overrides p))"
    and "b \<in> set (local_ports p')"
  shows "\<exists>port \<in> set (app_ports (plan_app p)). \<exists>host ix admin. declares port host (pb_container_port b)
    \<and> pb_service b = port_service port \<and> pb_protocol b = port_protocol_or_tcp (port_protocol port)
    \<and> pb_host_ip b = (if port_public port then ''0.0.0.0'' else ''127.0.0.1'')
    \<and> (port_public port \<longrightarrow> pb_host_port b = host \<and> catalogPortBindings (plan_app p) = Inr ix
        \<and> identifyAdminHostPorts lib p (ix_base ix) (ix_public ix) = Inr admin \<and> pb_host_port b \<notin> set admin)"
proof -
  from planned_from_catalog [OF assms] obtain port c ix admin where
    b: "port \<in> set (app_ports (plan_app p))" "expands_to port c" "b = c\<lparr>pb_host_port := pb_host_port b\<rparr>"
    "pb_host_ip b = (if port_public port then ''0.0.0.0'' else ''127.0.0.1'')"
    "port_public port \<longrightarrow> b = c \<and> catalogPortBindings (plan_app p) = Inr ix
        \<and> identifyAdminHostPorts lib p (ix_base ix) (ix_public ix) = Inr admin \<and> pb_host_port b \<notin> set admin"
    by blast
  have same: "pb_container_port b = pb_container_port c" "pb_service b = pb_service c" "pb_protocol b = pb_protocol c"
    by (subst b(3), simp)+
  from expansion_declared [OF b(2)] b(1,4,5) show ?thesis
    unfolding same comes_from_def by metis
qed

theorem plan_ports_public_is_declared_witness:
  "\<exists>port \<in> set (app_ports demo_ports_app). port_public port \<and> declares port 5353 53"
proof -
  have "demo_bound ! 1 \<in> set (local_ports (demo_plan\<lparr>local_ports := demo_bound, port_overrides := [(8080, 8081)]\<rparr>))"
    by (simp add: demo_bound_def)
  from plan_ports_public_is_declared [OF demo_run demo_no_overrides this]
  obtain port host where port: "port \<in> set (app_ports demo_ports_app)" "declares port host 53"
    "''0.0.0.0'' = (if port_public port then ''0.0.0.0'' else ''127.0.0.1'')" "port_public port \<longrightarrow> 5353 = host"
    by (auto simp: demo_plan_def zero_plan_def demo_bound_def)
  then have "port_public port" by (auto split: if_splits)
  with port show ?thesis by blast
qed

text \<open>
  C1: no two planned bindings share a protocol and a host port, every port number is a valid one,
  and the last thing planning did was to probe exactly these bindings and find every one of them free.
\<close>

theorem plan_ports_no_collision:
  assumes "planPorts lib probe w p = (Inr p', w')" "distinct (map fst (port_overrides p))"
  shows "distinct (map (\<lambda>b. (pb_protocol b, pb_host_port b)) (local_ports p'))
    \<and> (\<forall>b \<in> set (local_ports p'). valid_port (pb_host_port b) \<and> valid_port (pb_container_port b))
    \<and> (\<exists>w1. probe_all probe w1 0 (local_ports p') = (None, w'))"
proof -
  from assms obtain ix where ix: "catalogPortBindings (plan_app p) = Inr ix"
    and ok: "\<forall>ov \<in> set (port_overrides p'). override_ok (ix_base ix) (ix_range ix) (ix_public ix) ov"
    and eq: "local_ports p' = remap (ix_base ix) (port_overrides p')"
    and keys: "distinct (map host_key (local_ports p'))"
    and d: "distinct (map fst (port_overrides p'))"
    and free: "\<exists>w1. probe_all probe w1 0 (local_ports p') = (None, w')"
    by (rule planPorts_Inr)
  note inv = catalog_index_inv [OF ix]
  have "distinct (map (\<lambda>b. (pb_protocol b, pb_host_port b)) (local_ports p'))"
    using keys by (auto simp: distinct_map inj_on_def host_key_inject)
  moreover have "valid_port (pb_host_port b) \<and> valid_port (pb_container_port b)"
    if "b \<in> set (local_ports p')" for b
    using moved_valid [OF inv remap_moved [OF inv d ok]] that unfolding eq by blast
  ultimately show ?thesis using free by blast
qed

theorem plan_ports_no_collision_witness:
  "distinct (map (\<lambda>b. (pb_protocol b, pb_host_port b)) demo_bound)"
  using plan_ports_no_collision [OF demo_run demo_no_overrides] by simp

text \<open>
  An explicit override always wins: it is in force in the plan as the user gave it, whatever
  \<open>--auto-port\<close> adds, and without \<open>--auto-port\<close> nothing is added. Planning touches no other field.
\<close>

lemma plan_ports_explicit_wins:
  assumes "planPorts lib probe w p = (Inr p', w')" "distinct (map fst (port_overrides p))"
  shows "(\<forall>old new. map_of (port_overrides p) old = Some new \<longrightarrow>
      map_of (port_overrides p') old = Some new)
    \<and> (\<not> auto_port p \<longrightarrow> port_overrides p' = port_overrides p)
    \<and> p' = p\<lparr>local_ports := local_ports p', port_overrides := port_overrides p'\<rparr>"
  using assms by (rule planPorts_Inr) auto

definition demo_override_plan :: install_plan where
  "demo_override_plan = demo_plan\<lparr>port_overrides := [(8080, 9000)]\<rparr>"

definition demo_moved :: "port_binding list" where
  "demo_moved = [(demo_bound ! 0)\<lparr>pb_host_port := 9000\<rparr>, demo_bound ! 1]"

lemma demo_override_run:
  "planPorts demo_url_lib demo_probe 0 demo_override_plan =
     (Inr (demo_override_plan\<lparr>local_ports := demo_moved\<rparr>), 2)"
  by (simp add: ports_eval demo_url_lib_def demo_probe_def demo_plan_def zero_plan_def demo_ports_app_def
      demo_bound_def demo_override_plan_def demo_moved_def)

lemma plan_ports_explicit_wins_witness:
  "map_of (port_overrides (demo_override_plan\<lparr>local_ports := demo_moved\<rparr>)) 8080 = Some 9000"
proof -
  have "distinct (map fst (port_overrides demo_override_plan))"
    "map_of (port_overrides demo_override_plan) 8080 = Some 9000"
    by (simp_all add: demo_override_plan_def)
  with plan_ports_explicit_wins [OF demo_override_run] show ?thesis by blast
qed

text \<open>
  C10: planning ends after a bounded number of probes, whatever the host answers: at most 65 rounds,
  each of which probes every binding and scans at most 1024 candidates.
\<close>

theorem plan_ports_probe_bound:
  assumes "counts_probes n probe" "catalogPortBindings (plan_app p) = Inr ix"
  shows "n (snd (planPorts lib probe w p)) \<le> n w + 65 * (length (ix_base ix) + 1024)"
proof -
  have "n (snd (plan_loop probe (auto_port p) (port_overrides p) ix 0 (port_overrides p) w))
      \<le> n w + 65 * (length (ix_base ix) + 1024)"
    using count_loop [OF assms(1), of 0] by (simp add: autoPortMaxAttempts_def)
  then show ?thesis
    using assms(2) by (auto simp: planPorts_def split: option.splits prod.splits sum.splits)
qed

theorem plan_ports_probe_bound_witness:
  "\<exists>ix. catalogPortBindings demo_ports_app = Inr ix \<and>
     snd (planPorts demo_url_lib demo_probe 0 demo_plan) \<le> 65 * (length (ix_base ix) + 1024)"
proof -
  have "counts_probes id demo_probe" by (simp add: counts_probes_def demo_probe_def)
  moreover obtain ix where "catalogPortBindings (plan_app demo_plan) = Inr ix"
    by (simp add: ports_eval demo_plan_def zero_plan_def demo_ports_app_def)
  ultimately show ?thesis
    using plan_ports_probe_bound [of id demo_probe demo_plan ix demo_url_lib 0]
    by (auto simp: demo_plan_def zero_plan_def)
qed

text \<open>
  What the overrides make of the plan does not depend on the order in which Go iterates the map,
  although the code walks it and mutates the plan as it goes.
\<close>

lemma port_overrides_order:
  assumes "distinct (map fst ovs)" "distinct (map fst ovs')" "set ovs = set ovs'"
  shows "applyPortOverrides planned ovs ranges publics = Inr planned'
     \<longleftrightarrow> applyPortOverrides planned ovs' ranges publics = Inr planned'"
proof (cases "ovs = []")
  case True
  with assms(3) show ?thesis by simp
next
  case False
  with assms(3) have "ovs' \<noteq> []" by auto
  moreover have "map_of ovs = map_of ovs'" using assms by (rule map_of_inject_set [THEN iffD2])
  then have "remap planned ovs = remap planned ovs'" by (simp only: remap_def override_for_def)
  ultimately show ?thesis
    unfolding apply_overrides_Inr [OF assms(1) False] by (simp add: apply_overrides_Inr [OF assms(2)] assms(3))
qed

lemma port_overrides_order_witness:
  "applyPortOverrides demo_bound [(8081, 9000), (5353, 9001)] [] []
     = applyPortOverrides demo_bound [(5353, 9001), (8081, 9000)] [] []
   \<and> (\<exists>planned'. applyPortOverrides demo_bound [(8081, 9000), (5353, 9001)] [] [] = Inr planned')"
proof -
  have "\<exists>planned'. applyPortOverrides demo_bound [(8081, 9000), (5353, 9001)] [] [] = Inr planned'"
    by (simp add: ports_eval demo_bound_def)
  then obtain planned' where "applyPortOverrides demo_bound [(8081, 9000), (5353, 9001)] [] [] = Inr planned'" ..
  with port_overrides_order [of "[(8081, 9000), (5353, 9001)]" "[(5353, 9001), (8081, 9000)]"
      demo_bound "[]" "[]" planned'] show ?thesis
    by (simp add: insert_commute)
qed

text \<open>
  The port suggested for a conflict is the first unplanned port above the conflicting one (and
  above 1024) that the host lets wdm bind within the scan window; 0 says the window has none.
\<close>

lemma suggestion_is_least:
  assumes "suggestFreePort (os_probe os) w b planned = (s, w')"
  shows "(s = 0 \<and> (\<forall>d. suggest_start (pb_host_port b) \<le> d \<longrightarrow> d \<le> suggest_stop (pb_host_port b) \<longrightarrow>
             d \<in> set planned \<or> fst (os_probe os w (b\<lparr>pb_host_port := d\<rparr>)) \<noteq> None))
    \<or> (suggest_start (pb_host_port b) \<le> s \<and> s \<le> suggest_stop (pb_host_port b)
        \<and> s \<notin> set planned \<and> fst (os_probe os w (b\<lparr>pb_host_port := s\<rparr>)) = None
        \<and> (\<forall>d. suggest_start (pb_host_port b) \<le> d \<longrightarrow> d < s \<longrightarrow>
             d \<in> set planned \<or> fst (os_probe os w (b\<lparr>pb_host_port := d\<rparr>)) \<noteq> None))"
  using os.scan_least [of os b planned w "suggest_start (pb_host_port b)" "suggest_stop (pb_host_port b)" s w']
    assms
  unfolding suggestFreePort_def os.usable_def by auto

definition demo_os :: "unit \<Rightarrow> string \<Rightarrow> string \<Rightarrow> listen_result" where
  "demo_os w net addr =
     (if addr = ''127.0.0.1:8082'' then ListenFailed (OtherOsError ''in use'') else Listened None)"

lemma suggestion_is_least_witness:
  "suggestFreePort (os_probe demo_os) () (demo_bound ! 0) [8081] = (8083, ())
   \<and> fst (os_probe demo_os () ((demo_bound ! 0)\<lparr>pb_host_port := 8083\<rparr>)) = None
   \<and> fst (os_probe demo_os () ((demo_bound ! 0)\<lparr>pb_host_port := 8082\<rparr>)) \<noteq> None"
proof -
  have b: "pb_host_port (demo_bound ! 0) = 8081" by (simp add: demo_bound_def)
  have run: "suggestFreePort (os_probe demo_os) () (demo_bound ! 0) [8081] = (8083, ())"
    by (simp add: ports_eval os_probe_def checkPortAvailable_def demo_os_def demo_bound_def
        join_host_port_def probed_result_def)
  from suggestion_is_least [OF run] show ?thesis
    using run unfolding b by (auto simp: suggest_start_def dest: spec [of _ 8082])
qed

end
