(* ===== verification/Resources.thy ===== *)
theory Resources
  imports Install_Plan Verify_Contract
begin

text \<open>
  Resource planning (\<open>planResources\<close> and what it calls in \<open>internal/core/install_phase_plan.go\<close>,
  \<open>serviceKey\<close> of \<open>internal/core/install.go\<close>). Memory is a 64-bit unsigned integer and its additions
  wrap; CPU values are \<open>float64\<close>. The progress event of a degraded profile carries no data and is not
  modelled.
\<close>

subsection \<open>Errors\<close>

datatype resource_reason =
    HostUndetected int "64 word"
  | ProfileUnknown string
  | ProfileDuplicate string
  | ServiceKeyEmpty string
  | ServiceKeyCollision string string string
  | MemoryLimitBad string
  | CpuLimitBad string
  | OverrideUnknownService string
  | OverrideForbidden string
  | MemoryOverrideBad string
  | MemoryOverrideOutside string string
  | CpuOverrideBad string
  | CpuOverrideOutside string string
  | PidsOverrideOutside string int
  | Synthetic synthetic_reason

type_synonym resource_error = "resource_reason wdm_error"

record host_resources =
  cpu_cores :: int
  total_memory_bytes :: "64 word"

subsection \<open>Service keys\<close>

definition key_char :: "char \<Rightarrow> bool" where
  "key_char c \<longleftrightarrow> is_upper c \<or> is_digit c"

text \<open>The loop over the runes; every run of other characters becomes one underscore.\<close>

fun key_loop :: "bool \<Rightarrow> string \<Rightarrow> string" where
  "key_loop lastUnderscore [] = []"
| "key_loop lastUnderscore (r # rs) =
     (if key_char r then r # key_loop False rs
      else if \<not> lastUnderscore then CHR ''_'' # key_loop True rs
      else key_loop True rs)"

definition trim_char :: "char \<Rightarrow> string \<Rightarrow> string" where
  "trim_char c s = rev (dropWhile (\<lambda>x. x = c) (rev (dropWhile (\<lambda>x. x = c) s)))"

definition serviceKey :: "string \<Rightarrow> string" where
  "serviceKey service = trim_char (CHR ''_'') (key_loop False (to_upper service))"

subsection \<open>Memory values\<close>

definition memory_unit :: "char \<Rightarrow> 64 word option" where
  "memory_unit c =
     (if c = CHR ''b'' then Some 1
      else if c = CHR ''k'' then Some 1024
      else if c = CHR ''m'' then Some (1024 * 1024)
      else if c = CHR ''g'' then Some (1024 * 1024 * 1024)
      else None)"

text \<open>\<open>None\<close> is any of the errors; \<open>math.MaxUint64\<close> is \<open>-1\<close>.\<close>

definition parseMemoryBytes :: "string \<Rightarrow> 64 word option" where
  "parseMemoryBytes value =
     (if value = [] then None
      else case memory_unit (last value) of
        None \<Rightarrow> None
      | Some multiplier \<Rightarrow>
     (case parse_uint64 (butlast value) of
        None \<Rightarrow> None
      | Some amount \<Rightarrow>
          (if amount = 0 then None
           else if amount > - 1 div multiplier then None
           else Some (amount * multiplier))))"

subsection \<open>Inputs and profiles\<close>

definition validateInstallResourceInputs ::
  "install_request \<Rightarrow> host_resources \<Rightarrow> resource_error option" where
  "validateInstallResourceInputs req host =
     (if cpu_cores host \<le> 0 \<or> total_memory_bytes host = 0
      then Some (UsageValidation (HostUndetected (cpu_cores host) (total_memory_bytes host)))
      else if req_resource_profile req = [] \<or> req_resource_profile req = ''recommended''
           \<or> req_resource_profile req = ''min'' then None
      else Some (UsageValidation (ProfileUnknown (req_resource_profile req))))"

type_synonym profile_index = "(string, resource_profile) gomap \<times> (string, string) gomap"

definition indexResourceProfile :: "profile_index \<Rightarrow> resource_profile \<Rightarrow> resource_error + profile_index" where
  "indexResourceProfile ix profile =
     (case ix of (profiles, serviceKeys) \<Rightarrow>
        if map_of profiles (rp_service profile) \<noteq> None
        then Inl (CatalogVerification (ProfileDuplicate (rp_service profile)))
        else let key = serviceKey (rp_service profile)
        in if key = [] then Inl (CatalogVerification (ServiceKeyEmpty (rp_service profile)))
           else (case map_of serviceKeys key of
               Some other \<Rightarrow> Inl (CatalogVerification (ServiceKeyCollision other (rp_service profile) key))
             | None \<Rightarrow> Inr (AList.update (rp_service profile) profile profiles,
                           AList.update key (rp_service profile) serviceKeys)))"

definition indexResourceProfiles ::
  "resource_profile list \<Rightarrow> resource_error + (string, resource_profile) gomap" where
  "indexResourceProfiles resources =
     bindE (foldE indexResourceProfile ([], []) resources) (\<lambda>ix. Inr (fst ix))"

subsection \<open>Totals\<close>

datatype band = Recommended | Minimum

fun band_texts :: "band \<Rightarrow> resource_profile \<Rightarrow> string \<times> string" where
  "band_texts Recommended r = (mem_recommended (rp_memory r), cpu_recommended (rp_cpus r))"
| "band_texts Minimum r = (mem_min (rp_memory r), cpu_min (rp_cpus r))"

definition sum_step :: "band \<Rightarrow> 64 word \<times> go_float \<Rightarrow> resource_profile
    \<Rightarrow> resource_error + 64 word \<times> go_float" where
  "sum_step bd acc r =
     (case band_texts bd r of (memText, cpuText) \<Rightarrow>
        (case parseMemoryBytes memText of
           None \<Rightarrow> Inl (CatalogVerification (MemoryLimitBad memText))
         | Some memBytes \<Rightarrow>
        (case parse_float cpuText of
           None \<Rightarrow> Inl (CatalogVerification (CpuLimitBad cpuText))
         | Some cpuValue \<Rightarrow>
             (if float_le cpuValue (Finite 0) then Inl (CatalogVerification (CpuLimitBad cpuText))
              else Inr (fst acc + memBytes, float_add (snd acc) cpuValue)))))"

text \<open>The callers pass one of the two profile constants, so the default branch is not reached.\<close>

definition sumResourceBand :: "resource_profile list \<Rightarrow> band \<Rightarrow> resource_error + 64 word \<times> go_float" where
  "sumResourceBand resources bd = foldE (sum_step bd) (0, Finite 0) resources"

definition installHostMemoryReserveBytes :: "64 word" where
  "installHostMemoryReserveBytes = 1024 * 1024 * 1024"

definition installResourceGuidanceBudget :: "host_resources \<Rightarrow> 64 word \<times> go_float" where
  "installResourceGuidanceBudget host =
     (if total_memory_bytes host > installHostMemoryReserveBytes
      then total_memory_bytes host - installHostMemoryReserveBytes else 0,
      float_of_int (cpu_cores host))"

definition chooseMinimumResourceProfile :: "app \<Rightarrow> recommended_resources \<Rightarrow> install_request
    \<Rightarrow> host_resources \<Rightarrow> resource_error + bool" where
  "chooseMinimumResourceProfile a rec req host =
     (case installResourceGuidanceBudget host of (availableMemory, availableCPU) \<Rightarrow>
        let useMin = (req_resource_profile req = ''min''
              \<or> rec_memory_bytes rec > availableMemory \<or> float_less availableCPU (rec_cpus rec))
        in if \<not> useMin then Inr False
           else bindE (sumResourceBand (app_resources a) Minimum) (\<lambda>_. Inr True))"

subsection \<open>Selection and overrides\<close>

record selected_resource =
  sel_memory :: string
  sel_cpus :: string
  sel_pids :: int

definition choose_profile :: "bool \<Rightarrow> resource_profile \<Rightarrow> selected_resource" where
  "choose_profile useMin r =
     \<lparr>sel_memory = (if useMin then mem_min (rp_memory r) else mem_recommended (rp_memory r)),
      sel_cpus = (if useMin then cpu_min (rp_cpus r) else cpu_recommended (rp_cpus r)),
      sel_pids = pids_default (rp_pids r)\<rparr>"

definition selectResourceProfiles ::
  "resource_profile list \<Rightarrow> bool \<Rightarrow> (string, selected_resource) gomap" where
  "selectResourceProfiles resources useMin =
     foldl (\<lambda>m r. AList.update (rp_service r) (choose_profile useMin r) m) [] resources"

definition validateMemoryOverride :: "resource_profile \<Rightarrow> string \<Rightarrow> resource_error option" where
  "validateMemoryOverride profile value =
     (case parseMemoryBytes value of
        None \<Rightarrow> Some (UsageValidation (MemoryOverrideBad value))
      | Some got \<Rightarrow>
     (case parseMemoryBytes (mem_min (rp_memory profile)) of
        None \<Rightarrow> Some (CatalogVerification (MemoryLimitBad (mem_min (rp_memory profile))))
      | Some minValue \<Rightarrow>
     (case parseMemoryBytes (mem_max (rp_memory profile)) of
        None \<Rightarrow> Some (CatalogVerification (MemoryLimitBad (mem_max (rp_memory profile))))
      | Some maxValue \<Rightarrow>
          refuse_if (got < minValue \<or> got > maxValue)
            (UsageValidation (MemoryOverrideOutside (rp_service profile) value)))))"

definition validateCPUOverride :: "resource_profile \<Rightarrow> string \<Rightarrow> resource_error option" where
  "validateCPUOverride profile value =
     (case parse_float value of
        None \<Rightarrow> Some (UsageValidation (CpuOverrideBad value))
      | Some got \<Rightarrow>
          (if float_le got (Finite 0) then Some (UsageValidation (CpuOverrideBad value))
           else (case parse_float (cpu_min (rp_cpus profile)) of
              None \<Rightarrow> Some (CatalogVerification (CpuLimitBad (cpu_min (rp_cpus profile))))
            | Some minValue \<Rightarrow>
           (case parse_float (cpu_max (rp_cpus profile)) of
              None \<Rightarrow> Some (CatalogVerification (CpuLimitBad (cpu_max (rp_cpus profile))))
            | Some maxValue \<Rightarrow>
                refuse_if (float_less got minValue \<or> float_less maxValue got)
                  (UsageValidation (CpuOverrideOutside (rp_service profile) value))))))"

definition validatePIDsOverride :: "resource_profile \<Rightarrow> int \<Rightarrow> resource_error option" where
  "validatePIDsOverride profile pids =
     (if pids \<ge> 1 \<and> pids \<le> pids_max (rp_pids profile) then None
      else Some (UsageValidation (PidsOverrideOutside (rp_service profile) pids)))"

definition applyResourceLimitOverride :: "selected_resource \<Rightarrow> resource_profile \<Rightarrow> resource_override
    \<Rightarrow> resource_error + selected_resource" where
  "applyResourceLimitOverride chosen profile ov =
     bindE (if ov_memory ov \<noteq> []
            then guardE (validateMemoryOverride profile (ov_memory ov)) (Inr (chosen\<lparr>sel_memory := ov_memory ov\<rparr>))
            else Inr chosen) (\<lambda>chosen.
     bindE (if ov_cpus ov \<noteq> []
            then guardE (validateCPUOverride profile (ov_cpus ov)) (Inr (chosen\<lparr>sel_cpus := ov_cpus ov\<rparr>))
            else Inr chosen) (\<lambda>chosen.
     (if ov_pids ov \<noteq> 0
      then guardE (validatePIDsOverride profile (ov_pids ov)) (Inr (chosen\<lparr>sel_pids := ov_pids ov\<rparr>))
      else Inr chosen)))"

definition zero_selected :: selected_resource where
  "zero_selected = \<lparr>sel_memory = [], sel_cpus = [], sel_pids = 0\<rparr>"

definition applyResourceOverride :: "(string, resource_profile) gomap \<Rightarrow> (string, selected_resource) gomap
    \<Rightarrow> resource_override \<Rightarrow> resource_error + (string, selected_resource) gomap" where
  "applyResourceOverride profiles selected ov =
     (case map_of profiles (ov_service ov) of
        None \<Rightarrow> Inl (UsageValidation (OverrideUnknownService (ov_service ov)))
      | Some profile \<Rightarrow>
          (if \<not> rp_allow_override profile
           then Inl (UsageValidation (OverrideForbidden (ov_service ov)))
           else bindE (applyResourceLimitOverride (get_or zero_selected selected (ov_service ov)) profile ov)
             (\<lambda>chosen. Inr (AList.update (ov_service ov) chosen selected))))"

definition applyResourceOverrides :: "(string, resource_profile) gomap \<Rightarrow> (string, selected_resource) gomap
    \<Rightarrow> resource_override list \<Rightarrow> resource_error + (string, selected_resource) gomap" where
  "applyResourceOverrides profiles selected ovs = foldE (applyResourceOverride profiles) selected ovs"

subsection \<open>The planning step\<close>

definition add_synthetic :: "string \<Rightarrow> string \<Rightarrow> install_plan \<Rightarrow> resource_error + install_plan" where
  "add_synthetic name v p =
     (case addSyntheticResolvedValue name v p of
        Inl e \<Rightarrow> Inl (map_wdm_error Synthetic e) | Inr p' \<Rightarrow> Inr p')"

definition resource_values :: "selected_resource \<Rightarrow> string \<Rightarrow> (string \<times> string) list" where
  "resource_values chosen key =
     [(''MEMORY_LIMIT_'' @ key, sel_memory chosen), (''CPUS_LIMIT_'' @ key, sel_cpus chosen),
      (''PIDS_LIMIT_'' @ key, itoa (sel_pids chosen))]"

definition addSelectedResourceValues ::
  "(string, selected_resource) gomap \<Rightarrow> install_plan \<Rightarrow> resource_error + install_plan" where
  "addSelectedResourceValues selected p =
     foldE (\<lambda>p r. foldE (\<lambda>p nv. add_synthetic (fst nv) (snd nv) p) p
              (resource_values (get_or zero_selected selected (rp_service r)) (serviceKey (rp_service r))))
       p (app_resources (plan_app p))"

definition planResources ::
  "install_request \<Rightarrow> host_resources \<Rightarrow> install_plan \<Rightarrow> resource_error + install_plan" where
  "planResources req host p =
     (let a = plan_app p in
      if app_resources a = [] then Inr p
      else guardE (validateInstallResourceInputs req host)
        (bindE (indexResourceProfiles (app_resources a)) (\<lambda>profiles.
         bindE (sumResourceBand (app_resources a) Recommended) (\<lambda>total.
         let rec = \<lparr>rec_memory_bytes = fst total, rec_cpus = snd total\<rparr>;
             p = p\<lparr>recommended := Some rec\<rparr>
         in bindE (chooseMinimumResourceProfile a rec req host) (\<lambda>useMin.
            bindE (applyResourceOverrides profiles (selectResourceProfiles (app_resources a) useMin)
                     (req_resource_overrides req)) (\<lambda>selected.
            addSelectedResourceValues selected p))))))"

subsection \<open>Memory values\<close>

lemma unit_cases:
  "memory_unit c = Some m \<Longrightarrow> unat m \<in> {1, 1024, 1024 * 1024, 1024 * 1024 * 1024}"
  by (auto simp: memory_unit_def split: if_splits)

lemma word_times_bound:
  fixes w m :: "64 word"
  assumes "m \<noteq> 0"
  shows "\<not> w > - 1 div m \<longleftrightarrow> unat w * unat m < 2 ^ 64"
proof -
  have "unat m > 0" using assms by (simp add: unat_gt_0)
  have max: "unat (- 1 :: 64 word) = 2 ^ 64 - 1" by (simp add: unsigned_minus_1_eq_mask mask_eq_exp_minus_1)
  have "\<not> w > - 1 div m \<longleftrightarrow> unat w \<le> (2 ^ 64 - 1) div unat m"
    by (simp add: not_less word_le_nat_alt unat_div max)
  also have "\<dots> \<longleftrightarrow> unat w * unat m \<le> 2 ^ 64 - 1"
    using \<open>unat m > 0\<close> by (simp add: less_eq_div_iff_mult_less_eq)
  finally have "\<not> w > - 1 div m \<longleftrightarrow> unat w * unat m \<le> 2 ^ 64 - 1" .
  then show ?thesis by auto
qed

text \<open>
  C11: a memory value is a positive decimal number and a unit, and its bytes are the exact product; a
  product that does not fit 64 bits is refused and never wraps.
\<close>

theorem parse_memory_exact:
  "parseMemoryBytes value = Some b \<longleftrightarrow>
     value \<noteq> [] \<and> (\<exists>m n. memory_unit (last value) = Some m \<and> parse_dec (butlast value) = Some n
       \<and> 0 < n \<and> n * unat m < 2 ^ 64 \<and> unat b = n * unat m)"
proof (cases "value = [] \<or> memory_unit (last value) = None")
  case True
  then show ?thesis by (auto simp: parseMemoryBytes_def)
next
  case False
  then obtain m where m: "memory_unit (last value) = Some m" and "value \<noteq> []" by auto
  have "m \<noteq> 0" using unit_cases [OF m] by auto
  then have "0 < unat m" by (simp add: unat_gt_0)
  have small: "n < 2 ^ 64" if "n * unat m < 2 ^ 64" for n
    using that \<open>0 < unat m\<close> by (metis le_less_trans mult.right_neutral mult_le_mono2 Suc_leI One_nat_def)
  have prod: "(word_of_nat n * m = b) \<longleftrightarrow> unat b = n * unat m" if "n * unat m < 2 ^ 64" for n
  proof -
    have "unat (word_of_nat n * m) = n * unat m"
      using that small [OF that] by (simp add: unat_word_ariths unat_of_nat take_bit_nat_eq_self)
    then show ?thesis by (auto simp: word_unat_eq_iff)
  qed
  have z: "word_of_nat n = (0 :: 64 word) \<longleftrightarrow> n = 0" if "n < 2 ^ 64" for n
  proof -
    have "unat (word_of_nat n :: 64 word) = n" using that by (simp add: unat_of_nat take_bit_nat_eq_self)
    then show ?thesis by (metis unat_eq_0 of_nat_0)
  qed
  show ?thesis
  proof (cases "parse_dec (butlast value)")
    case None
    with m \<open>value \<noteq> []\<close> show ?thesis by (simp add: parseMemoryBytes_def parse_uint64_def)
  next
    case (Some n)
    show ?thesis
    proof (cases "n < 2 ^ 64")
      case True
      then have u: "unat (word_of_nat n :: 64 word) = n"
        by (simp add: unat_of_nat take_bit_nat_eq_self)
      have "parseMemoryBytes value =
          (if n = 0 then None else if n * unat m < 2 ^ 64 then Some (word_of_nat n * m) else None)"
        using m \<open>value \<noteq> []\<close> Some True z [OF True] word_times_bound [OF \<open>m \<noteq> 0\<close>, of "word_of_nat n"]
        by (auto simp: parseMemoryBytes_def parse_uint64_def u)
      with m \<open>value \<noteq> []\<close> Some prod [of n] show ?thesis by auto
    next
      case False
      with m \<open>value \<noteq> []\<close> Some small [of n] show ?thesis
        by (auto simp: parseMemoryBytes_def parse_uint64_def)
    qed
  qed
qed

subsection \<open>Service keys\<close>

lemma key_loop_chars: "c \<in> set (key_loop b s) \<Longrightarrow> key_char c \<or> c = CHR ''_''"
  by (induction b s rule: key_loop.induct) (auto split: if_splits)

lemma trim_char_set: "set (trim_char c s) \<subseteq> set s"
  by (auto simp: trim_char_def dest!: set_dropWhileD)

lemma trim_char_ends:
  assumes "trim_char c s \<noteq> []"
  shows "hd (trim_char c s) \<noteq> c \<and> last (trim_char c s) \<noteq> c"
proof -
  let ?l = "dropWhile (\<lambda>x. x = c) s"
  let ?r = "dropWhile (\<lambda>x. x = c) (rev ?l)"
  have r: "?r \<noteq> []" using assms by (simp add: trim_char_def)
  from hd_dropWhile [OF this] have "hd ?r \<noteq> c" .
  moreover have "last (trim_char c s) = hd ?r" unfolding trim_char_def by (rule last_rev)
  ultimately have la: "last (trim_char c s) \<noteq> c" by simp
  have "?l \<noteq> []" using r by (metis dropWhile.simps(1) rev.simps(1))
  from hd_dropWhile [OF this] have "hd ?l \<noteq> c" .
  moreover obtain us where "rev ?l = us @ ?r" by (metis takeWhile_dropWhile_id)
  then have "?l = rev ?r @ rev us" by (metis rev_append rev_rev_ident)
  then have "hd ?l = hd (rev ?r)" using r by (metis hd_append2 rev_is_Nil_conv)
  ultimately show ?thesis using la by (simp add: trim_char_def)
qed

text \<open>
  A service key is made of capital letters, digits and underscores and neither starts nor ends
  with an underscore, so \<open>MEMORY_LIMIT_<key>\<close> is a well-formed name for the .env file.
\<close>

lemma service_key_wellformed:
  "(\<forall>c \<in> set (serviceKey service). is_upper c \<or> is_digit c \<or> c = CHR ''_'')
   \<and> (serviceKey service = [] \<or>
       (hd (serviceKey service) \<noteq> CHR ''_'' \<and> last (serviceKey service) \<noteq> CHR ''_''))"
  using trim_char_set [of "CHR ''_''"] key_loop_chars trim_char_ends [of "CHR ''_''"]
  unfolding serviceKey_def key_char_def by blast

lemma service_key_wellformed_witness:
  "serviceKey ''wg-easy.1'' = ''WG_EASY_1'' \<and> hd (serviceKey ''wg-easy.1'') \<noteq> CHR ''_''"
proof -
  have key: "serviceKey ''wg-easy.1'' = ''WG_EASY_1''"
    by (simp add: serviceKey_def trim_char_def key_char_def upper_char_def is_lower_def is_upper_def
        is_digit_def byte_def char_of_def bit_Suc_0_iff)
  with service_key_wellformed [of "''wg-easy.1''"] show ?thesis by simp
qed

subsection \<open>What the plan records\<close>

text \<open>The profile index has one entry per service, and services differ in their keys as well.\<close>

lemma index_profile_Inr:
  assumes "indexResourceProfile (ps, ks) r = Inr (ps', ks')"
  shows "map_of ps (rp_service r) = None \<and> map_of ks (serviceKey (rp_service r)) = None
    \<and> serviceKey (rp_service r) \<noteq> []
    \<and> ps' = AList.update (rp_service r) r ps \<and> ks' = AList.update (serviceKey (rp_service r)) (rp_service r) ks"
  using assms by (auto simp: indexResourceProfile_def Let_def split: if_splits option.splits)

lemma index_profiles_fold:
  assumes "foldE indexResourceProfile (ps, ks) rs = Inr (ps', ks')"
  shows "distinct (map rp_service rs) \<and> distinct (map (serviceKey \<circ> rp_service) rs)
    \<and> (\<forall>r \<in> set rs. map_of ps (rp_service r) = None \<and> map_of ks (serviceKey (rp_service r)) = None
         \<and> serviceKey (rp_service r) \<noteq> [] \<and> map_of ps' (rp_service r) = Some r)
    \<and> (\<forall>s q. map_of ps s = Some q \<longrightarrow> map_of ps' s = Some q)
    \<and> (\<forall>s q. map_of ps' s = Some q \<longrightarrow> map_of ps s = Some q \<or> (q \<in> set rs \<and> rp_service q = s))"
  using assms
proof (induction rs arbitrary: ps ks)
  case (Cons r rs)
  then obtain ps1 ks1 where one: "indexResourceProfile (ps, ks) r = Inr (ps1, ks1)"
    and rest: "foldE indexResourceProfile (ps1, ks1) rs = Inr (ps', ks')"
    by (auto simp: err_simps)
  note o = index_profile_Inr [OF one]
  note IH = Cons.IH [OF rest]
  from o have p1: "map_of ps1 = (map_of ps)(rp_service r \<mapsto> r)"
    "map_of ks1 = (map_of ks)(serviceKey (rp_service r) \<mapsto> rp_service r)"
    by (simp_all add: update_conv')
  have fresh: "rp_service q \<noteq> rp_service r \<and> map_of ps (rp_service q) = None
      \<and> serviceKey (rp_service q) \<noteq> serviceKey (rp_service r) \<and> map_of ks (serviceKey (rp_service q)) = None"
    if "q \<in> set rs" for q
    using IH that unfolding p1 by (metis fun_upd_apply option.distinct(1))
  have keep: "\<forall>s q. map_of ps s = Some q \<longrightarrow> map_of ps' s = Some q"
    using IH o unfolding p1 by (metis fun_upd_apply option.distinct(1))
  have self: "map_of ps' (rp_service r) = Some r"
    using IH unfolding p1 by (metis fun_upd_same)
  have origin: "\<forall>s q. map_of ps' s = Some q \<longrightarrow> map_of ps s = Some q \<or> (q \<in> set (r # rs) \<and> rp_service q = s)"
    using IH unfolding p1 by (metis fun_upd_apply list.set_intros option.inject)
  have "rp_service r \<notin> set (map rp_service rs)" "serviceKey (rp_service r) \<notin> set (map (serviceKey \<circ> rp_service) rs)"
    using fresh by force+
  then have "distinct (map rp_service (r # rs))" "distinct (map (serviceKey \<circ> rp_service) (r # rs))"
    using IH by (simp_all add: comp_def)
  moreover have "\<forall>q \<in> set (r # rs). map_of ps (rp_service q) = None
      \<and> map_of ks (serviceKey (rp_service q)) = None
      \<and> serviceKey (rp_service q) \<noteq> [] \<and> map_of ps' (rp_service q) = Some q"
    using IH o fresh self by auto
  ultimately show ?case using keep origin by blast
qed simp

lemma index_profiles_Inr:
  assumes "indexResourceProfiles rs = Inr profiles"
  shows "distinct (map rp_service rs) \<and> distinct (map (serviceKey \<circ> rp_service) rs)
    \<and> (\<forall>s q. map_of profiles s = Some q \<longleftrightarrow> q \<in> set rs \<and> rp_service q = s)"
proof -
  from assms obtain ks where "foldE indexResourceProfile ([], []) rs = Inr (profiles, ks)"
    by (auto simp: indexResourceProfiles_def err_simps)
  from index_profiles_fold [OF this] show ?thesis by auto
qed

lemma select_lookup:
  assumes "distinct (map rp_service rs)" "r \<in> set rs"
  shows "map_of (selectResourceProfiles rs useMin) (rp_service r) = Some (choose_profile useMin r)"
proof -
  have "map_of (foldl (\<lambda>m r. AList.update (rp_service r) (choose_profile useMin r) m) m rs) s
      = (case List.find (\<lambda>r. rp_service r = s) (rev rs) of None \<Rightarrow> map_of m s
         | Some r \<Rightarrow> Some (choose_profile useMin r))" for m s
    by (induction rs rule: rev_induct) auto
  moreover have "List.find (\<lambda>q. rp_service q = rp_service r) (rev rs) = Some r"
  proof (cases "List.find (\<lambda>q. rp_service q = rp_service r) (rev rs)")
    case None
    with assms(2) show ?thesis by (auto simp: find_None_iff)
  next
    case (Some q)
    then have "q \<in> set (rev rs)" "rp_service q = rp_service r"
      by (auto simp: find_Some_iff simp del: set_rev intro: nth_mem)
    then have "q \<in> set rs" "rp_service q = rp_service r" by simp_all
    with assms show ?thesis using Some by (metis distinct_map inj_onD)
  qed
  ultimately show ?thesis by (simp add: selectResourceProfiles_def)
qed

text \<open>The limits a service may end up with.\<close>

definition memory_within :: "resource_profile \<Rightarrow> string \<Rightarrow> bool" where
  "memory_within r v \<longleftrightarrow> (\<exists>got lo hi. parseMemoryBytes v = Some got
     \<and> parseMemoryBytes (mem_min (rp_memory r)) = Some lo \<and> parseMemoryBytes (mem_max (rp_memory r)) = Some hi
     \<and> lo \<le> got \<and> got \<le> hi)"

definition cpus_within :: "resource_profile \<Rightarrow> string \<Rightarrow> bool" where
  "cpus_within r v \<longleftrightarrow> (\<exists>got lo hi. parse_float v = Some got
     \<and> parse_float (cpu_min (rp_cpus r)) = Some lo \<and> parse_float (cpu_max (rp_cpus r)) = Some hi
     \<and> \<not> float_le got (Finite 0) \<and> \<not> float_less got lo \<and> \<not> float_less hi got)"

definition limits_ok :: "bool \<Rightarrow> resource_profile \<Rightarrow> selected_resource \<Rightarrow> bool" where
  "limits_ok useMin r c \<longleftrightarrow>
     (sel_memory c = sel_memory (choose_profile useMin r) \<or> memory_within r (sel_memory c))
     \<and> (sel_cpus c = sel_cpus (choose_profile useMin r) \<or> cpus_within r (sel_cpus c))
     \<and> (sel_pids c = pids_default (rp_pids r) \<or> (1 \<le> sel_pids c \<and> sel_pids c \<le> pids_max (rp_pids r)))
     \<and> (rp_allow_override r \<or> c = choose_profile useMin r)"

lemma memory_override_None: "validateMemoryOverride r v = None \<longleftrightarrow> memory_within r v"
  by (auto simp: validateMemoryOverride_def memory_within_def err_simps not_less split: option.splits)

lemma cpu_override_None: "validateCPUOverride r v = None \<longleftrightarrow> cpus_within r v"
  by (auto simp: validateCPUOverride_def cpus_within_def err_simps split: option.splits)

lemma limit_override_ok:
  assumes "applyResourceLimitOverride c r ov = Inr c'" "limits_ok useMin r c" "rp_allow_override r"
  shows "limits_ok useMin r c'"
  using assms
  by (auto simp: applyResourceLimitOverride_def limits_ok_def err_simps memory_override_None
      cpu_override_None validatePIDsOverride_def split: if_splits)

definition selection_ok :: "resource_profile list \<Rightarrow> bool \<Rightarrow> (string, selected_resource) gomap \<Rightarrow> bool" where
  "selection_ok rs useMin sel \<longleftrightarrow>
     (\<forall>r \<in> set rs. \<exists>c. map_of sel (rp_service r) = Some c \<and> limits_ok useMin r c)"

lemma override_selection:
  assumes "applyResourceOverride profiles sel ov = Inr sel'" "selection_ok rs useMin sel"
    and "distinct (map rp_service rs)"
    and "\<forall>s q. map_of profiles s = Some q \<longleftrightarrow> q \<in> set rs \<and> rp_service q = s"
  shows "selection_ok rs useMin sel'"
proof -
  from assms(1) obtain r c where r: "map_of profiles (ov_service ov) = Some r" "rp_allow_override r"
    and c: "applyResourceLimitOverride (get_or zero_selected sel (ov_service ov)) r ov = Inr c"
    and sel': "sel' = AList.update (ov_service ov) c sel"
    by (auto simp: applyResourceOverride_def err_simps split: option.splits if_splits)
  from r(1) assms(4) have rs: "r \<in> set rs" "rp_service r = ov_service ov" by auto
  with assms(2) obtain c0 where c0: "map_of sel (ov_service ov) = Some c0" "limits_ok useMin r c0"
    by (auto simp: selection_ok_def)
  with limit_override_ok [OF c] r(2) have ok: "limits_ok useMin r c" by (simp add: get_or_def)
  have "q = r" if "q \<in> set rs" "rp_service q = ov_service ov" for q
    using that rs assms(3) by (metis distinct_map inj_onD)
  with assms(2) ok show ?thesis unfolding selection_ok_def sel' by auto
qed

lemma add_values_fold:
  assumes "foldE (\<lambda>p nv. add_synthetic (fst nv) (snd nv) p) p nvs = Inr p'"
  shows "(\<forall>k v. map_of (resolved_values p) k = Some v \<longrightarrow> map_of (resolved_values p') k = Some v)
    \<and> (\<forall>nv \<in> set nvs. map_of (resolved_values p') (fst nv) = Some (snd nv)
         \<and> fst nv \<notin> keys_of (resolved_values p))"
  using assms
proof (induction nvs arbitrary: p)
  case (Cons nv nvs)
  then obtain p1 where one: "addSyntheticResolvedValue (fst nv) (snd nv) p = Inr p1"
    and rest: "foldE (\<lambda>p nv. add_synthetic (fst nv) (snd nv) p) p1 nvs = Inr p'"
    by (auto simp: add_synthetic_def err_simps split: sum.splits)
  note o = synthetic_Inr [OF one]
  have keep: "map_of (resolved_values p1) k = Some v" if "map_of (resolved_values p) k = Some v" for k v
    by (rule synthetic_keeps [OF one that])
  have "map_of (resolved_values p1) (fst nv) = Some (snd nv)" using o by simp
  with Cons.IH [OF rest] keep o show ?case by (auto simp: keys_of_iff)
qed simp

lemma add_selected_fold:
  assumes "foldE (\<lambda>p r. foldE (\<lambda>p nv. add_synthetic (fst nv) (snd nv) p) p (vals r)) p rs = Inr p'"
  shows "(\<forall>k v. map_of (resolved_values p) k = Some v \<longrightarrow> map_of (resolved_values p') k = Some v)
    \<and> (\<forall>r \<in> set rs. \<forall>nv \<in> set (vals r). map_of (resolved_values p') (fst nv) = Some (snd nv))"
  using assms
proof (induction rs arbitrary: p)
  case (Cons r rs)
  then obtain p1 where one: "foldE (\<lambda>p nv. add_synthetic (fst nv) (snd nv) p) p (vals r) = Inr p1"
    and rest: "foldE (\<lambda>p r. foldE (\<lambda>p nv. add_synthetic (fst nv) (snd nv) p) p (vals r)) p1 rs = Inr p'"
    by (auto simp: err_simps)
  from add_values_fold [OF one] Cons.IH [OF rest] show ?case by auto
qed simp

text \<open>
  After resource planning every service of the app has its three limit values in the template
  values, and they are the catalog's own (of the recommended or of the minimum band) unless the user
  overrode them, which only happens for services that allow it and only inside the catalog's bands.
  No value resolved before is touched.
\<close>

lemma plan_resources_limits:
  assumes "planResources req host p = Inr p'" "app_resources (plan_app p) \<noteq> []"
  shows "(\<exists>useMin. \<forall>r \<in> set (app_resources (plan_app p)). \<exists>c. limits_ok useMin r c
      \<and> (\<forall>nv \<in> set (resource_values c (serviceKey (rp_service r))).
            map_of (resolved_values p') (fst nv) = Some (snd nv)))
    \<and> (\<forall>k v. map_of (resolved_values p) k = Some v \<longrightarrow> map_of (resolved_values p') k = Some v)"
proof -
  let ?rs = "app_resources (plan_app p)"
  from assms obtain profiles total useMin sel rec where
    ix: "indexResourceProfiles ?rs = Inr profiles"
    and ov: "applyResourceOverrides profiles (selectResourceProfiles ?rs useMin)
               (req_resource_overrides req) = Inr sel"
    and add: "addSelectedResourceValues sel (p\<lparr>recommended := rec\<rparr>) = Inr p'"
    by (auto simp: planResources_def Let_def err_simps)
  note ix = index_profiles_Inr [OF ix]
  have "selection_ok ?rs useMin (selectResourceProfiles ?rs useMin)"
    using select_lookup ix by (auto simp: selection_ok_def limits_ok_def choose_profile_def)
  then have sel: "selection_ok ?rs useMin sel"
    using foldE_invariant [OF ov [unfolded applyResourceOverrides_def], of "selection_ok ?rs useMin"]
      override_selection ix by blast
  note vals = add_selected_fold [OF add [unfolded addSelectedResourceValues_def]]
  have "\<exists>c. limits_ok useMin r c \<and> (\<forall>nv \<in> set (resource_values c (serviceKey (rp_service r))).
            map_of (resolved_values p') (fst nv) = Some (snd nv))" if "r \<in> set ?rs" for r
  proof -
    from sel that obtain c where "map_of sel (rp_service r) = Some c" "limits_ok useMin r c"
      by (auto simp: selection_ok_def)
    moreover from this have "get_or zero_selected sel (rp_service r) = c" by (simp add: get_or_def)
    ultimately show ?thesis using vals that by auto
  qed
  with vals show ?thesis by auto
qed

definition demo_profile :: resource_profile where
  "demo_profile =
     \<lparr>rp_service = ''web'', rp_memory = \<lparr>mem_min = ''128m'', mem_recommended = ''256m'', mem_max = ''1g''\<rparr>,
      rp_cpus = \<lparr>cpu_min = ''1'', cpu_recommended = ''1'', cpu_max = ''2''\<rparr>,
      rp_pids = \<lparr>pids_default = 100, pids_max = 500\<rparr>, rp_allow_override = True\<rparr>"

lemmas float_eval = go_eval parse_float_def parse_special_def lower_char_def read_float_def
  drop_sign_def hex_prefix_def is_upper_def lower_byte_def scale10_def round64_def round_pos_def
  exponent2_def bit_length.simps pow2_def round_even_def

lemmas resource_eval = float_eval char_of_def bit_Suc_0_iff planResources_def
  validateInstallResourceInputs_def indexResourceProfiles_def indexResourceProfile_def
  serviceKey_def trim_char_def key_char_def is_lower_def upper_char_def
  sumResourceBand_def sum_step_def parseMemoryBytes_def memory_unit_def parse_uint64_def
  float_le_def chooseMinimumResourceProfile_def installResourceGuidanceBudget_def
  installHostMemoryReserveBytes_def float_of_int_def selectResourceProfiles_def choose_profile_def
  applyResourceOverrides_def applyResourceOverride_def applyResourceLimitOverride_def get_or_def
  validateMemoryOverride_def refuse_if_def addSelectedResourceValues_def add_synthetic_def
  addSyntheticResolvedValue_def resource_values_def bindE_def guardE_def

definition demo_resource_app :: app where
  "demo_resource_app = zero_app\<lparr>app_resources := [demo_profile]\<rparr>"

definition demo_request :: install_request where
  "demo_request = \<lparr>req_app_id = ''demo'', req_domain = [], req_stack_path = [],
     req_placeholder_values = [], req_resource_profile = ''min'',
     req_resource_overrides = [\<lparr>ov_service = ''web'', ov_memory = ''512m'', ov_cpus = [], ov_pids = 0\<rparr>],
     req_port_overrides = [], req_auto_port = False, req_force = False\<rparr>"

definition demo_host :: host_resources where
  "demo_host = \<lparr>cpu_cores = 4, total_memory_bytes = 8589934592\<rparr>"

definition demo_resource_plan :: install_plan where
  "demo_resource_plan = (zero_plan demo_resource_app)\<lparr>resolved_values := [(''TZ'', ''UTC'')]\<rparr>"

lemma demo_resources:
  "\<exists>p'. planResources demo_request demo_host demo_resource_plan = Inr p'"
  by (simp add: resource_eval demo_request_def demo_host_def demo_resource_plan_def zero_plan_def
      demo_resource_app_def demo_profile_def zero_app_def)

lemma plan_resources_limits_witness:
  "\<exists>p' useMin c. planResources demo_request demo_host demo_resource_plan = Inr p'
     \<and> limits_ok useMin demo_profile c
     \<and> map_of (resolved_values p') ''PIDS_LIMIT_WEB'' = Some (itoa (sel_pids c))
     \<and> map_of (resolved_values p') ''TZ'' = Some ''UTC''"
proof -
  obtain p' where p': "planResources demo_request demo_host demo_resource_plan = Inr p'"
    using demo_resources ..
  have app: "app_resources (plan_app demo_resource_plan) = [demo_profile]"
    "map_of (resolved_values demo_resource_plan) ''TZ'' = Some ''UTC''"
    by (simp_all add: demo_resource_plan_def zero_plan_def demo_resource_app_def)
  have "serviceKey (rp_service demo_profile) = ''WEB''"
    by (simp add: resource_eval demo_profile_def)
  with plan_resources_limits [OF p'] p' app show ?thesis
    by (auto simp: resource_values_def)
qed

text \<open>
  A CPU override that is not a number passes the override check of every service with readable
  CPU bands: \<open>ParseFloat\<close> accepts the text \<open>nan\<close>, and none of the three comparisons that should
  refuse it is true of NaN. The override becomes the CPU limit of the service.
\<close>

lemma cpu_override_accepts_nan:
  assumes "parse_float (cpu_min (rp_cpus r)) = Some lo" "parse_float (cpu_max (rp_cpus r)) = Some hi"
  shows "validateCPUOverride r ''nan'' = None
    \<and> applyResourceLimitOverride c r \<lparr>ov_service = svc, ov_memory = [], ov_cpus = ''nan'', ov_pids = 0\<rparr>
      = Inr (c\<lparr>sel_cpus := ''nan''\<rparr>)"
proof -
  have "validateCPUOverride r ''nan'' = None"
    using assms parse_float_nan by (simp add: cpu_override_None cpus_within_def)
  then show ?thesis by (simp add: applyResourceLimitOverride_def)
qed

lemma cpu_override_accepts_nan_witness:
  "validateCPUOverride demo_profile ''nan'' = None"
proof -
  have "parse_float (cpu_min (rp_cpus demo_profile)) = Some (Finite 1)"
    "parse_float (cpu_max (rp_cpus demo_profile)) = Some (Finite 2)"
    by (simp_all add: demo_profile_def float_eval)
  from cpu_override_accepts_nan [OF this] show ?thesis by blast
qed

text \<open>
  The totals add 64-bit values without a check: two services of \<open>2 ^ 63\<close> bytes each need, by the
  total, no memory at all.
\<close>

lemma memory_total_wraps:
  "\<exists>r. sumResourceBand [r, r] Recommended = Inr (0, Finite 2)"
proof -
  let ?r = "demo_profile\<lparr>rp_memory := \<lparr>mem_min = [], mem_recommended = ''9223372036854775808b'', mem_max = []\<rparr>\<rparr>"
  have "sumResourceBand [?r, ?r] Recommended = Inr (0, Finite 2)"
    by (simp add: resource_eval demo_profile_def)
  then show ?thesis ..
qed

end
