(* ===== verification/Registry_Reference.thy ===== *)
theory Registry_Reference
  imports Wdm_Prelude Go_Strings
begin

text \<open>
  \<open>internal/registry/reference.go\<close>: parsing of image references into registry host, repository and
  tag. A Go loop over a byte index is a recursion over the rest of the string.
\<close>

subsection \<open>Data\<close>

record reference =
  ref_registry :: string
  ref_repository :: string
  ref_tag :: string

datatype reference_reason =
    ReferenceEmpty
  | ReferenceTooLong
  | ReferenceDigest
  | TagEmpty
  | RepositoryEmpty
  | RepositoryInvalid
  | TagInvalid
  | TagStart

type_synonym reference_error = "reference_reason wdm_error"

definition defaultRegistry :: string where
  "defaultRegistry = ''registry-1.docker.io''"

definition defaultNamespace :: string where
  "defaultNamespace = ''library''"

definition defaultTag :: string where
  "defaultTag = ''latest''"

definition localhostHost :: string where
  "localhostHost = ''localhost''"

definition maxReferenceLen :: nat where
  "maxReferenceLen = 4096"

subsection \<open>Splitting\<close>

definition isRegistryHost :: "string \<Rightarrow> bool" where
  "isRegistryHost segment =
     (if CHR ''.'' \<in> set segment \<or> segment = localhostHost then True
      else (case cut (CHR '':'') segment of (host, p, found) \<Rightarrow>
        if \<not> found \<or> host = [] \<or> p = [] then False else list_all is_digit p))"

definition splitRegistry :: "string \<Rightarrow> string \<times> string" where
  "splitRegistry ref =
     (case cut (CHR ''/'') ref of (first, rest, found) \<Rightarrow>
        if \<not> found then (defaultRegistry, ref)
        else if isRegistryHost first then (first, rest)
        else (defaultRegistry, ref))"

text \<open>\<open>strings.LastIndex\<close> of a one-byte separator.\<close>

definition last_index :: "char \<Rightarrow> string \<Rightarrow> int" where
  "last_index c s =
     (if c \<in> set s then int (length s) - 1 - int (length (takeWhile (\<lambda>x. x \<noteq> c) (rev s))) else -1)"

definition splitRepositoryTag :: "string \<Rightarrow> reference_error + string \<times> string" where
  "splitRepositoryTag remainder =
     (let lastSlash = last_index (CHR ''/'') remainder;
          lastColon = last_index (CHR '':'') remainder
      in bindE
           (if lastColon > lastSlash
            then (let tag = drop (nat lastColon + 1) remainder
                  in if tag = [] then Inl (UsageValidation TagEmpty)
                     else Inr (take (nat lastColon) remainder, tag))
            else Inr (remainder, defaultTag))
           (\<lambda>(repository, tag).
              if repository = [] then Inl (UsageValidation RepositoryEmpty) else Inr (repository, tag)))"

subsection \<open>Validation\<close>

definition isAlphanumericLower :: "char \<Rightarrow> bool" where
  "isAlphanumericLower b \<longleftrightarrow> is_lower b \<or> is_digit b"

definition isTagByte :: "char \<Rightarrow> bool" where
  "isTagByte b \<longleftrightarrow> is_upper b \<or> is_lower b \<or> is_digit b \<or> b = CHR ''_'' \<or> b = CHR ''.'' \<or> b = CHR ''-''"

text \<open>One separator at the front: the rest behind it.\<close>

fun separator_rest :: "string \<Rightarrow> string option" where
  "separator_rest [] = None"
| "separator_rest (c # r) =
     (if c = CHR ''.'' \<or> c = CHR ''-'' then Some r
      else if c = CHR ''_'' then
        (case r of [] \<Rightarrow> Some [] | d # r' \<Rightarrow> if d = CHR ''_'' then Some r' else Some r)
      else None)"

lemma separator_rest_shorter: "separator_rest s = Some r \<Longrightarrow> length r < length s"
  by (cases s) (auto split: if_splits list.splits)

text \<open>The second loop: groups of a separator and an alphanumeric run.\<close>

function separator_groups :: "string \<Rightarrow> bool" where
  "separator_groups s =
     (if s = [] then True
      else (case separator_rest s of
              None \<Rightarrow> False
            | Some r \<Rightarrow>
                (let rest = dropWhile isAlphanumericLower r
                 in if rest = r then False else separator_groups rest)))"
  by pat_completeness auto
termination
proof (relation "measure length", goal_cases)
  case (2 s r rest)
  have "length rest \<le> length r" using 2(3) by (simp add: length_dropWhile_le)
  with separator_rest_shorter [OF 2(2)] show ?case by simp
qed simp

declare separator_groups.simps [simp del]

definition validRepositoryComponent :: "string \<Rightarrow> bool" where
  "validRepositoryComponent component =
     (if component = [] then False
      else (let rest = dropWhile isAlphanumericLower component
            in if rest = component then False else separator_groups rest))"

definition validateRepository :: "string \<Rightarrow> reference_error option" where
  "validateRepository repository =
     (if repository = [] then Some (UsageValidation RepositoryEmpty)
      else first_err (\<lambda>component. refuse_if (\<not> validRepositoryComponent component)
             (UsageValidation RepositoryInvalid)) (split_on (CHR ''/'') repository))"

definition validateTag :: "string \<Rightarrow> reference_error option" where
  "validateTag tag =
     (if tag = [] \<or> length tag > 128 then Some (UsageValidation TagInvalid)
      else if hd tag = CHR ''.'' \<or> hd tag = CHR ''-'' then Some (UsageValidation TagStart)
      else first_err (\<lambda>b. refuse_if (\<not> isTagByte b) (UsageValidation TagInvalid)) tag)"

subsection \<open>Parsing\<close>

definition with_namespace :: "string \<Rightarrow> string \<Rightarrow> string" where
  "with_namespace registry repository =
     (if registry = defaultRegistry \<and> CHR ''/'' \<notin> set repository
      then defaultNamespace @ ''/'' @ repository else repository)"

definition ParseReference :: "string \<Rightarrow> reference_error + reference" where
  "ParseReference ref =
     (let trimmed = trim_space ref
      in guardE (refuse_if (trimmed = []) (UsageValidation ReferenceEmpty))
        (guardE (refuse_if (length trimmed > maxReferenceLen) (UsageValidation ReferenceTooLong))
        (guardE (refuse_if (CHR ''@'' \<in> set trimmed) (UsageValidation ReferenceDigest))
        (case splitRegistry trimmed of (registry, remainder) \<Rightarrow>
          bindE (splitRepositoryTag remainder) (\<lambda>(repository, tag).
            (let repository = with_namespace registry repository
             in guardE (validateRepository repository)
               (guardE (validateTag tag)
                 (Inr \<lparr>ref_registry = registry, ref_repository = repository, ref_tag = tag\<rparr>))))))))"

subsection \<open>The grammar\<close>

text \<open>
  A path component of the OCI grammar: an alphanumeric run, then groups of a separator and another run.
\<close>

definition separators :: "string list" where
  "separators = [''.'', ''-'', ''_'', ''__'']"

definition alnum_run :: "string \<Rightarrow> bool" where
  "alnum_run r \<longleftrightarrow> r \<noteq> [] \<and> (\<forall>c \<in> set r. isAlphanumericLower c)"

definition groups_ok :: "(string \<times> string) list \<Rightarrow> bool" where
  "groups_ok gs \<longleftrightarrow> (\<forall>(sep, r) \<in> set gs. sep \<in> set separators \<and> alnum_run r)"

definition groups_text :: "(string \<times> string) list \<Rightarrow> string" where
  "groups_text gs = concat (map (\<lambda>(sep, r). sep @ r) gs)"

definition component_ok :: "string \<Rightarrow> bool" where
  "component_ok s \<longleftrightarrow> (\<exists>r gs. alnum_run r \<and> groups_ok gs \<and> s = r @ groups_text gs)"

lemma separator_not_alnum: "\<not> isAlphanumericLower (CHR ''.'')" "\<not> isAlphanumericLower (CHR ''-'')"
  "\<not> isAlphanumericLower (CHR ''_'')"
  by (simp_all add: isAlphanumericLower_def is_lower_def is_digit_def byte_def)

lemma groups_hd: "groups_ok gs \<Longrightarrow> groups_text gs \<noteq> [] \<Longrightarrow> \<not> isAlphanumericLower (hd (groups_text gs))"
  by (cases gs) (auto simp: groups_ok_def groups_text_def separators_def separator_not_alnum)

lemma run_then_groups:
  assumes "alnum_run r" "groups_ok gs"
  shows "dropWhile isAlphanumericLower (r @ groups_text gs) = groups_text gs"
  using assms groups_hd [OF assms(2)]
  by (cases "groups_text gs") (auto simp: alnum_run_def dropWhile_append)

lemma separator_rest_run:
  assumes "sep \<in> set separators" "alnum_run r"
  shows "separator_rest (sep @ r @ t) = Some (r @ t)"
proof -
  obtain c r' where "r = c # r'" "isAlphanumericLower c" using assms(2) by (cases r) (auto simp: alnum_run_def)
  then show ?thesis using assms(1) separator_not_alnum by (auto simp: separators_def)
qed

lemma separator_rest_Some:
  "separator_rest s = Some r \<Longrightarrow> \<exists>sep \<in> set separators. s = sep @ r"
  by (cases s) (auto simp: separators_def split: if_splits list.splits)

lemma groups_accept: "groups_ok gs \<Longrightarrow> separator_groups (groups_text gs)"
proof (induction gs)
  case (Cons g gs)
  obtain sep r where g: "g = (sep, r)" by (cases g)
  with Cons.prems have ok: "sep \<in> set separators" "alnum_run r" "groups_ok gs" by (auto simp: groups_ok_def)
  have shape: "groups_text (g # gs) = sep @ r @ groups_text gs" by (simp add: groups_text_def g)
  have "r \<noteq> []" using ok(2) by (simp add: alnum_run_def)
  with ok shape Cons.IH show ?case
    by (subst separator_groups.simps) (simp add: separator_rest_run run_then_groups)
qed (simp add: groups_text_def separator_groups.simps)

lemma groups_only: "separator_groups s \<Longrightarrow> \<exists>gs. groups_ok gs \<and> s = groups_text gs"
proof (induction s rule: separator_groups.induct)
  case (1 s)
  show ?case
  proof (cases "s = []")
    case True
    then show ?thesis by (intro exI [of _ "[]"]) (simp add: groups_ok_def groups_text_def)
  next
    case False
    with "1.prems" obtain r where r: "separator_rest s = Some r"
      by (subst (asm) separator_groups.simps) (auto split: option.splits)
    let ?rest = "dropWhile isAlphanumericLower r"
    let ?run = "takeWhile isAlphanumericLower r"
    from "1.prems" False r have go: "?rest \<noteq> r" "separator_groups ?rest"
      by (subst (asm) separator_groups.simps, simp add: Let_def split: if_splits)+
    from "1.IH" [OF False r refl go] obtain gs where gs: "groups_ok gs" "?rest = groups_text gs" by blast
    obtain sep where sep: "sep \<in> set separators" "s = sep @ r" using separator_rest_Some [OF r] by blast
    have "?run \<noteq> []"
      using go(1) by (cases r) (auto split: if_splits)
    then have "alnum_run ?run" by (auto simp: alnum_run_def dest: set_takeWhileD)
    moreover have "s = sep @ ?run @ groups_text gs" using sep(2) gs(2) by (metis takeWhile_dropWhile_id)
    ultimately show ?thesis using gs(1) sep(1)
      by (intro exI [of _ "(sep, ?run) # gs"]) (auto simp: groups_ok_def groups_text_def)
  qed
qed

lemma component_exact: "validRepositoryComponent s \<longleftrightarrow> component_ok s"
proof
  assume v: "validRepositoryComponent s"
  let ?rest = "dropWhile isAlphanumericLower s"
  let ?run = "takeWhile isAlphanumericLower s"
  from v have go: "s \<noteq> []" "?rest \<noteq> s" "separator_groups ?rest"
    by (auto simp: validRepositoryComponent_def Let_def split: if_splits)
  from groups_only [OF go(3)] obtain gs where gs: "groups_ok gs" "?rest = groups_text gs" by blast
  have "?run \<noteq> []" using go(2) by (cases s) (auto split: if_splits)
  then have "alnum_run ?run" by (auto simp: alnum_run_def dest: set_takeWhileD)
  moreover have "s = ?run @ groups_text gs" using gs(2) by (metis takeWhile_dropWhile_id)
  ultimately show "component_ok s" using gs(1) unfolding component_ok_def by blast
next
  assume "component_ok s"
  then obtain r gs where s: "alnum_run r" "groups_ok gs" "s = r @ groups_text gs"
    by (auto simp: component_ok_def)
  moreover have "r \<noteq> []" using s(1) by (simp add: alnum_run_def)
  ultimately show "validRepositoryComponent s"
    by (simp add: validRepositoryComponent_def run_then_groups groups_accept)
qed

lemma component_chars:
  assumes "component_ok s" "c \<in> set s"
  shows "isAlphanumericLower c \<or> c = CHR ''.'' \<or> c = CHR ''-'' \<or> c = CHR ''_''"
proof -
  obtain r gs where s: "alnum_run r" "groups_ok gs" "s = r @ groups_text gs"
    using assms(1) by (auto simp: component_ok_def)
  from assms(2) s(3) consider "c \<in> set r" | sep t where "(sep, t) \<in> set gs" "c \<in> set sep \<or> c \<in> set t"
    by (auto simp: groups_text_def)
  then show ?thesis
  proof cases
    case 1
    with s(1) show ?thesis by (simp add: alnum_run_def)
  next
    case 2
    with s(2) have "sep \<in> set separators" "alnum_run t" by (auto simp: groups_ok_def)
    with 2(2) show ?thesis by (auto simp: alnum_run_def separators_def)
  qed
qed

lemma component_not_Nil: "component_ok s \<Longrightarrow> s \<noteq> [] \<and> isAlphanumericLower (hd s)"
  by (auto simp: component_ok_def alnum_run_def)

definition tag_ok :: "string \<Rightarrow> bool" where
  "tag_ok t \<longleftrightarrow> t \<noteq> [] \<and> length t \<le> 128 \<and> hd t \<noteq> CHR ''.'' \<and> hd t \<noteq> CHR ''-'' \<and> (\<forall>b \<in> set t. isTagByte b)"

lemma tag_exact: "validateTag t = None \<longleftrightarrow> tag_ok t"
  by (auto simp: validateTag_def tag_ok_def err_simps)

definition repository_ok :: "string \<Rightarrow> bool" where
  "repository_ok s \<longleftrightarrow> (\<forall>w \<in> set (split_on (CHR ''/'') s). component_ok w)"

lemma repository_exact: "validateRepository s = None \<longleftrightarrow> repository_ok s"
proof -
  have "\<not> component_ok []" using component_not_Nil by blast
  then show ?thesis
    by (auto simp: validateRepository_def repository_ok_def err_simps component_exact)
qed

subsection \<open>What a parsed reference looks like\<close>

definition reference_ok :: "reference \<Rightarrow> bool" where
  "reference_ok r \<longleftrightarrow>
     (ref_registry r = defaultRegistry \<or> isRegistryHost (ref_registry r))
     \<and> CHR ''/'' \<notin> set (ref_registry r) \<and> CHR ''@'' \<notin> set (ref_registry r)
     \<and> (ref_registry r = defaultRegistry \<longrightarrow> CHR ''/'' \<in> set (ref_repository r))
     \<and> repository_ok (ref_repository r) \<and> tag_ok (ref_tag r)"

definition print_reference :: "reference \<Rightarrow> string" where
  "print_reference r = ref_registry r @ ''/'' @ ref_repository r @ '':'' @ ref_tag r"

lemma default_registry_host: "isRegistryHost defaultRegistry" "CHR ''/'' \<notin> set defaultRegistry"
  "CHR ''@'' \<notin> set defaultRegistry"
  by (simp_all add: isRegistryHost_def defaultRegistry_def)

lemma split_registry:
  assumes "splitRegistry t = (reg, rest)"
  shows "isRegistryHost reg \<and> CHR ''/'' \<notin> set reg \<and>
    (t = reg @ ''/'' @ rest \<or> (reg = defaultRegistry \<and> rest = t))"
proof -
  obtain a b found where c: "cut (CHR ''/'') t = (a, b, found)" by (cases "cut (CHR ''/'') t") auto
  show ?thesis
    using assms c cut_Some [of "CHR ''/''" t a b] default_registry_host
    by (cases found) (auto simp: splitRegistry_def split: if_splits)
qed

lemma with_namespace_slash:
  "registry = defaultRegistry \<Longrightarrow> CHR ''/'' \<in> set (with_namespace registry repository)"
  by (simp add: with_namespace_def)

lemma parse_reference_Inr:
  assumes "ParseReference s = Inr r"
  shows "reference_ok r"
proof -
  let ?t = "trim_space s"
  obtain reg rest where sp: "splitRegistry ?t = (reg, rest)" by (cases "splitRegistry ?t")
  from assms sp obtain repo tag where
    at: "CHR ''@'' \<notin> set ?t" and st: "splitRepositoryTag rest = Inr (repo, tag)"
    and v: "repository_ok (with_namespace reg repo)" "tag_ok tag"
    and r: "r = \<lparr>ref_registry = reg, ref_repository = with_namespace reg repo, ref_tag = tag\<rparr>"
    by (auto simp: ParseReference_def Let_def err_simps repository_exact tag_exact)
  from split_registry [OF sp] at default_registry_host
  have "isRegistryHost reg" "CHR ''/'' \<notin> set reg" "CHR ''@'' \<notin> set reg" by auto
  with v r with_namespace_slash show ?thesis by (simp add: reference_ok_def)
qed

lemma last_index_behind: "c \<notin> set t \<Longrightarrow> last_index c (w @ c # t) = int (length w)"
proof -
  assume c: "c \<notin> set t"
  then have "takeWhile (\<lambda>x. x \<noteq> c) (rev t @ c # rev w) = rev t"
    using scan_to(2) [of c "rev t" "rev w"] by simp
  then show ?thesis by (simp add: last_index_def)
qed

lemma last_index_before: "c \<notin> set t \<Longrightarrow> last_index c (w @ t) < int (length w)"
  by (induction t rule: rev_induct) (auto simp: last_index_def)

lemma tag_chars: "tag_ok t \<Longrightarrow> CHR '':'' \<notin> set t \<and> CHR ''/'' \<notin> set t \<and> CHR ''@'' \<notin> set t"
  by (auto simp: tag_ok_def isTagByte_def is_upper_def is_lower_def is_digit_def byte_def)

lemma split_repository_tag:
  assumes "tag_ok tag" "repo \<noteq> []"
  shows "splitRepositoryTag (repo @ '':'' @ tag) = Inr (repo, tag)"
proof -
  have t: "CHR '':'' \<notin> set tag" "CHR ''/'' \<notin> set tag" "tag \<noteq> []" using tag_chars assms(1) by (auto simp: tag_ok_def)
  have "last_index (CHR '':'') (repo @ '':'' @ tag) = int (length repo)"
    using last_index_behind [OF t(1), of repo] by simp
  moreover have "last_index (CHR ''/'') (repo @ '':'' @ tag) < int (length repo)"
    using last_index_before [of "CHR ''/''" "'':'' @ tag" repo] t(2) by simp
  ultimately show ?thesis using t(3) assms(2) by (simp add: splitRepositoryTag_def)
qed

subsection \<open>Trimming\<close>

lemma space_code_shape:
  assumes "p \<in> set space_codes"
  shows "p \<noteq> []" "CHR ''/'' \<notin> set p" "\<not> isTagByte (last p)" "hd p \<noteq> CHR ''r''"
  using assms
  by (auto simp: space_codes_def isTagByte_def is_upper_def is_lower_def is_digit_def byte_def
      char_of_def bit_Suc_0_iff)

lemma prefix_before_slash:
  "CHR ''/'' \<notin> set p \<Longrightarrow> has_prefix (a @ CHR ''/'' # b) p \<longleftrightarrow> has_prefix a p"
proof (induction a p rule: has_prefix.induct)
  case (2 q qs)
  then show ?case by auto
qed auto

lemma trim_print:
  assumes "strip_any space_codes reg = None" "tag_ok tag"
  shows "trim_space (reg @ ''/'' @ repo @ '':'' @ tag) = reg @ ''/'' @ repo @ '':'' @ tag"
proof (rule trim_space_id)
  show "strip_any space_codes (reg @ ''/'' @ repo @ '':'' @ tag) = None"
    using assms(1) prefix_before_slash space_code_shape(2) by (auto simp: strip_any_None)
  obtain t b where tb: "tag = t @ [b]" using assms(2) by (cases tag rule: rev_cases) (auto simp: tag_ok_def)
  then have "isTagByte b" using assms(2) by (auto simp: tag_ok_def)
  then have "\<not> has_prefix (rev (reg @ ''/'' @ repo @ '':'' @ tag)) (rev p)" if "p \<in> set space_codes" for p
    using space_code_shape(1,3) [OF that] tb by (cases p rule: rev_cases) auto
  then show "strip_any (map rev space_codes) (rev (reg @ ''/'' @ repo @ '':'' @ tag)) = None"
    by (auto simp: strip_any_None)
qed

subsection \<open>Reading back a printed reference\<close>

lemma repository_chars:
  assumes "repository_ok s" "c \<in> set s"
  shows "c = CHR ''/'' \<or> isAlphanumericLower c \<or> c = CHR ''.'' \<or> c = CHR ''-'' \<or> c = CHR ''_''"
proof (cases "c = CHR ''/''")
  case False
  have "\<exists>w \<in> set (split_on (CHR ''/'') s). c \<in> set w" using assms(2) False
    by (induction s) (auto split: list.splits if_splits)
  with assms(1) component_chars show ?thesis unfolding repository_ok_def by blast
qed simp

lemma repository_no_at: "repository_ok s \<Longrightarrow> CHR ''@'' \<notin> set s \<and> s \<noteq> []"
proof -
  assume ok: "repository_ok s"
  have "\<not> isAlphanumericLower (CHR ''@'')"
    by (simp add: isAlphanumericLower_def is_lower_def is_digit_def byte_def)
  then have "CHR ''@'' \<notin> set s" using repository_chars [OF ok, of "CHR ''@''"] by auto
  moreover have "s \<noteq> []" using ok component_not_Nil [of "[]"] by (auto simp: repository_ok_def)
  ultimately show ?thesis by simp
qed

lemma parse_print:
  assumes "reference_ok r" "strip_any space_codes (ref_registry r) = None"
    and "length (print_reference r) \<le> maxReferenceLen"
  shows "ParseReference (print_reference r) = Inr r"
proof -
  let ?reg = "ref_registry r" and ?repo = "ref_repository r" and ?tag = "ref_tag r"
  from assms(1) have ok: "isRegistryHost ?reg" "CHR ''/'' \<notin> set ?reg" "CHR ''@'' \<notin> set ?reg"
    "repository_ok ?repo" "tag_ok ?tag" and ns: "with_namespace ?reg ?repo = ?repo"
    using default_registry_host by (auto simp: reference_ok_def with_namespace_def)
  have trim: "trim_space (print_reference r) = print_reference r"
    unfolding print_reference_def by (rule trim_print [OF assms(2) ok(5)])
  have "cut (CHR ''/'') (print_reference r) = (?reg, ?repo @ '':'' @ ?tag, True)"
    using cut_found [OF ok(2)] by (simp add: print_reference_def)
  then have split: "splitRegistry (print_reference r) = (?reg, ?repo @ '':'' @ ?tag)"
    using ok(1) by (simp add: splitRegistry_def)
  have parts: "splitRepositoryTag (?repo @ '':'' @ ?tag) = Inr (?repo, ?tag)"
    using split_repository_tag ok(4,5) repository_no_at by blast
  have "CHR ''@'' \<notin> set (print_reference r)"
    using ok(3-5) repository_no_at tag_chars by (simp add: print_reference_def)
  moreover have "print_reference r \<noteq> []" by (simp add: print_reference_def)
  moreover have "validateRepository ?repo = None" "validateTag ?tag = None"
    using ok(4,5) by (simp_all add: repository_exact tag_exact)
  ultimately show ?thesis
    using trim split parts assms(3) ns
    by (simp add: ParseReference_def Let_def refuse_if_def)
qed


lemma parse_registry_front:
  assumes "ParseReference s = Inr r"
  shows "strip_any space_codes (ref_registry r) = None"
proof -
  obtain reg rest where sp: "splitRegistry (trim_space s) = (reg, rest)" by (cases "splitRegistry (trim_space s)")
  with assms have r: "ref_registry r = reg"
    by (auto simp: ParseReference_def Let_def err_simps)
  from split_registry [OF sp] consider "trim_space s = reg @ ''/'' @ rest" | "reg = defaultRegistry" by auto
  then show ?thesis
  proof cases
    case 1
    with trim_space_front [of s] show ?thesis
      unfolding r strip_any_None using prefix_before_slash space_code_shape(2) by fastforce
  next
    case 2
    have "\<not> has_prefix defaultRegistry p" if "p \<in> set space_codes" for p
      using space_code_shape(1,4) [OF that] by (cases p) (auto simp: defaultRegistry_def)
    with 2 r show ?thesis by (auto simp: strip_any_None)
  qed
qed

subsection \<open>Properties\<close>

text \<open>
  Whatever text is parsed, an accepted reference has a repository whose path segments all follow
  the OCI grammar (so none is empty and none is "..", and no "?", "#", "%" or "@" reaches the URL
  through it), a well-formed tag, a host-shaped registry, and a namespace when the registry is Docker
  Hub's.
\<close>

lemma parsed_reference_wf:
  assumes "ParseReference s = Inr r"
  shows "(\<forall>w \<in> set (split_on (CHR ''/'') (ref_repository r)). component_ok w \<and> w \<noteq> ''..'')
    \<and> tag_ok (ref_tag r) \<and> isRegistryHost (ref_registry r)
    \<and> (ref_registry r = defaultRegistry \<longrightarrow> CHR ''/'' \<in> set (ref_repository r))"
proof -
  have "\<not> component_ok ''..''" using component_not_Nil [of "''..''"] separator_not_alnum by auto
  with parse_reference_Inr [OF assms] default_registry_host show ?thesis
    by (auto simp: reference_ok_def repository_ok_def)
qed

lemma demo_reference:
  "ParseReference ''nginx'' = Inr \<lparr>ref_registry = ''registry-1.docker.io'',
     ref_repository = ''library/nginx'', ref_tag = ''latest''\<rparr>"
  by (simp add: ParseReference_def Let_def refuse_if_def maxReferenceLen_def splitRegistry_def cut_def
      splitRepositoryTag_def last_index_def with_namespace_def defaultRegistry_def defaultNamespace_def
      defaultTag_def validateRepository_def validRepositoryComponent_def separator_groups.simps
      validateTag_def isAlphanumericLower_def isTagByte_def is_digit_def trim_eval case_eval)

lemma parsed_reference_wf_witness:
  "component_ok ''nginx'' \<and> tag_ok ''latest''"
  using parsed_reference_wf [OF demo_reference] by simp

text \<open>
  Parsing is a normalisation: printing an accepted reference and parsing the text again gives the
  same reference (as long as the printed text still fits the length bound).
\<close>

lemma reference_roundtrip:
  assumes "ParseReference s = Inr r" "length (print_reference r) \<le> maxReferenceLen"
  shows "ParseReference (print_reference r) = Inr r"
  using parse_print parse_reference_Inr [OF assms(1)] parse_registry_front [OF assms(1)] assms(2) .

lemma reference_roundtrip_witness:
  "ParseReference ''registry-1.docker.io/library/nginx:latest''
     = Inr \<lparr>ref_registry = ''registry-1.docker.io'', ref_repository = ''library/nginx'', ref_tag = ''latest''\<rparr>"
  using reference_roundtrip [OF demo_reference] by (simp add: print_reference_def maxReferenceLen_def)

text \<open>
  The registry part is not validated beyond its shape: any text with a dot and without a slash or
  an at sign is taken as the registry host, so characters that end a host in a URL ("?", "#") or a
  blank get there.
\<close>

lemma registry_host_unchecked:
  assumes "CHR ''.'' \<in> set host" "CHR ''/'' \<notin> set host" "CHR ''@'' \<notin> set host"
    and "strip_any space_codes host = None" "length host \<le> 4000" "host \<noteq> defaultRegistry"
  shows "ParseReference (host @ ''/app:1'') = Inr \<lparr>ref_registry = host, ref_repository = ''app'', ref_tag = ''1''\<rparr>"
proof -
  let ?r = "\<lparr>ref_registry = host, ref_repository = ''app'', ref_tag = ''1''\<rparr>"
  have "component_ok ''app''"
    unfolding component_ok_def
    by (intro exI [of _ "''app''"] exI [of _ "[]"])
      (simp add: alnum_run_def groups_ok_def groups_text_def isAlphanumericLower_def is_lower_def byte_def)
  then have "reference_ok ?r"
    using assms by (auto simp: reference_ok_def isRegistryHost_def repository_ok_def tag_ok_def isTagByte_def
        is_digit_def byte_def)
  moreover have "print_reference ?r = host @ ''/app:1''" by (simp add: print_reference_def)
  ultimately show ?thesis using parse_print [of ?r] assms(4,5) by (simp add: maxReferenceLen_def)
qed

lemma registry_host_unchecked_witness:
  "ParseReference ''a.b?c=#/app:1'' = Inr \<lparr>ref_registry = ''a.b?c=#'', ref_repository = ''app'', ref_tag = ''1''\<rparr>"
  using registry_host_unchecked [of "''a.b?c=#''"]
  by (simp add: defaultRegistry_def space_codes_def char_of_def bit_Suc_0_iff)

end
