(* ===== verification/Go_Encoding.thy ===== *)
theory Go_Encoding
  imports Go_Strings
begin

text \<open>
  The part of Go's \<open>encoding/hex\<close> and \<open>encoding/base64\<close> that the modelled code uses. Bytes are
  characters; a digit of the code is a position in its alphabet.
\<close>

subsection \<open>Bytes\<close>

lemma byte_char_of_mod: "byte (char_of (n::nat)) = n mod 256"
  by (simp add: byte_def)

lemma char_of_byte [simp]: "char_of (byte c) = c"
  by (simp add: byte_def)

subsection \<open>Hexadecimal\<close>

definition hex_alphabet :: string where
  "hex_alphabet = ''0123456789abcdef''"

definition hex_pair :: "char \<Rightarrow> string" where
  "hex_pair c = [hex_alphabet ! (byte c div 16), hex_alphabet ! (byte c mod 16)]"

definition hex_encode :: "string \<Rightarrow> string" where
  "hex_encode s = concat (map hex_pair s)"

definition hex_digit :: "char \<Rightarrow> nat option" where
  "hex_digit c =
     (if is_digit c then Some (byte c - 48)
      else if 97 \<le> byte c \<and> byte c \<le> 102 then Some (byte c - 87)
      else if 65 \<le> byte c \<and> byte c \<le> 70 then Some (byte c - 55) else None)"

fun hex_decode :: "string \<Rightarrow> string option" where
  "hex_decode [] = Some []"
| "hex_decode [c] = None"
| "hex_decode (c # d # r) =
     (case (hex_digit c, hex_digit d, hex_decode r) of
        (Some h, Some l, Some bs) \<Rightarrow> Some (char_of (16 * h + l) # bs)
      | _ \<Rightarrow> None)"

definition lower_hex :: "char \<Rightarrow> bool" where
  "lower_hex c \<longleftrightarrow> is_digit c \<or> (97 \<le> byte c \<and> byte c \<le> 102)"

lemma hex_alphabet_nth: "n < 16 \<Longrightarrow> byte (hex_alphabet ! n) = (if n < 10 then 48 + n else 87 + n)"
proof -
  have "\<forall>n \<in> set [0..<16]. byte (hex_alphabet ! n) = (if n < 10 then 48 + n else 87 + n)"
    by (simp add: upt_rec hex_alphabet_def byte_def)
  then show "n < 16 \<Longrightarrow> ?thesis" by simp
qed

lemma hex_digit_alphabet: "n < 16 \<Longrightarrow> hex_digit (hex_alphabet ! n) = Some n \<and> lower_hex (hex_alphabet ! n)"
  by (simp add: hex_digit_def lower_hex_def is_digit_def hex_alphabet_nth)

lemma hex_decode_encode: "hex_decode (hex_encode s) = Some s"
proof (induction s)
  case (Cons c s)
  have "byte c div 16 < 16" "byte c mod 16 < 16" using byte_bound [of c] by (auto simp: less_mult_imp_div_less)
  then show ?case using Cons
    by (simp add: hex_encode_def hex_pair_def hex_digit_alphabet)
qed (simp add: hex_encode_def)

lemma hex_encode_length [simp]: "length (hex_encode s) = 2 * length s"
  by (induction s) (simp_all add: hex_encode_def hex_pair_def)

lemma hex_encode_lower: "c \<in> set (hex_encode s) \<Longrightarrow> lower_hex c"
proof (induction s)
  case (Cons d s)
  have "byte d div 16 < 16" "byte d mod 16 < 16" using byte_bound [of d] by (auto simp: less_mult_imp_div_less)
  with Cons show ?case by (auto simp: hex_encode_def hex_pair_def hex_digit_alphabet)
qed (simp add: hex_encode_def)

lemma lower_hex_digit:
  assumes "lower_hex c"
  obtains n where "n < 16" "hex_digit c = Some n" "hex_alphabet ! n = c"
proof -
  from assms have "48 \<le> byte c \<and> byte c \<le> 57 \<or> 97 \<le> byte c \<and> byte c \<le> 102"
    by (simp add: lower_hex_def is_digit_def)
  then obtain n where n: "n < 16" "byte c = (if n < 10 then 48 + n else 87 + n)"
  proof
    assume "48 \<le> byte c \<and> byte c \<le> 57"
    then show thesis by (intro that [of "byte c - 48"]) auto
  next
    assume "97 \<le> byte c \<and> byte c \<le> 102"
    then show thesis by (intro that [of "byte c - 87"]) auto
  qed
  then have "hex_alphabet ! n = c" using hex_alphabet_nth byte_inject by metis
  with n(1) hex_digit_alphabet [of n] that show ?thesis by metis
qed

lemma hex_decode_lower:
  "\<forall>c \<in> set s. lower_hex c \<Longrightarrow> hex_decode s = Some bs \<longleftrightarrow> s = hex_encode bs"
proof (induction s arbitrary: bs rule: hex_decode.induct)
  case 1
  then show ?case by (cases bs) (auto simp: hex_encode_def hex_pair_def)
next
  case (2 c)
  then show ?case by (cases bs) (auto simp: hex_encode_def hex_pair_def)
next
  case (3 c d r)
  obtain h where h: "h < 16" "hex_digit c = Some h" "hex_alphabet ! h = c" using "3.prems" lower_hex_digit [of c] by auto
  obtain l where l: "l < 16" "hex_digit d = Some l" "hex_alphabet ! l = d" using "3.prems" lower_hex_digit [of d] by auto
  have b: "byte (char_of (16 * h + l)) = 16 * h + l" using h(1) l(1) by (simp add: byte_char_of_mod)
  have pair: "hex_pair x = [c, d] \<longleftrightarrow> x = char_of (16 * h + l)" for x
  proof
    assume "hex_pair x = [c, d]"
    then have "hex_alphabet ! (byte x div 16) = c" "hex_alphabet ! (byte x mod 16) = d" by (simp_all add: hex_pair_def)
    moreover have "byte x div 16 < 16" "byte x mod 16 < 16" using byte_bound [of x] by (auto simp: less_mult_imp_div_less)
    ultimately have "byte x div 16 = h" "byte x mod 16 = l"
      using h(2) l(2) hex_digit_alphabet by (metis option.inject)+
    then have "byte x = 16 * h + l" by (metis mult_div_mod_eq)
    then show "x = char_of (16 * h + l)" by (metis char_of_byte)
  next
    assume "x = char_of (16 * h + l)"
    then have "byte x = 16 * h + l" using b by simp
    then show "hex_pair x = [c, d]" using h l by (simp add: hex_pair_def)
  qed
  have IH: "hex_decode r = Some bs' \<longleftrightarrow> r = hex_encode bs'" for bs' using "3.IH" "3.prems" h(2) l(2) by simp
  show ?case
  proof (cases bs)
    case Nil
    then show ?thesis using h l by (auto simp: hex_encode_def split: option.splits)
  next
    case (Cons x xs)
    have "hex_decode (c # d # r) = Some bs \<longleftrightarrow> hex_decode r = Some xs \<and> x = char_of (16 * h + l)"
      using h(2) l(2) Cons by (auto split: option.splits)
    also have "\<dots> \<longleftrightarrow> r = hex_encode xs \<and> hex_pair x = [c, d]" by (simp add: IH pair)
    also have "\<dots> \<longleftrightarrow> c # d # r = hex_encode bs" by (auto simp: Cons hex_encode_def hex_pair_def)
    finally show ?thesis .
  qed
qed

subsection \<open>Base64\<close>

definition base64_letters :: string where
  "base64_letters = ''ABCDEFGHIJKLMNOPQRSTUVWXYZabcdefghijklmnopqrstuvwxyz0123456789''"

definition std_alphabet :: string where
  "std_alphabet = base64_letters @ ''+/''"

definition url_alphabet :: string where
  "url_alphabet = base64_letters @ ''-_''"

fun base64 :: "string \<Rightarrow> bool \<Rightarrow> string \<Rightarrow> string" where
  "base64 al pad [] = []"
| "base64 al pad [a] =
     al ! (byte a div 4) # al ! (byte a mod 4 * 16) # (if pad then ''=='' else [])"
| "base64 al pad [a, b] =
     al ! (byte a div 4) # al ! (byte a mod 4 * 16 + byte b div 16) # al ! (byte b mod 16 * 4)
       # (if pad then ''='' else [])"
| "base64 al pad (a # b # c # r) =
     al ! (byte a div 4) # al ! (byte a mod 4 * 16 + byte b div 16)
       # al ! (byte b mod 16 * 4 + byte c div 64) # al ! (byte c mod 64) # base64 al pad r"

lemma base64_alphabets:
  "length base64_letters = 62" "length std_alphabet = 64" "length url_alphabet = 64"
  "distinct std_alphabet" "distinct url_alphabet"
  "CHR ''='' \<notin> set std_alphabet" "CHR ''='' \<notin> set url_alphabet"
  by (simp_all add: base64_letters_def std_alphabet_def url_alphabet_def)

lemma base64_digits:
  "byte a div 4 < 64" "byte a mod 4 * 16 < 64" "byte a mod 4 * 16 + byte b div 16 < 64"
  "byte b mod 16 * 4 < 64" "byte b mod 16 * 4 + byte c div 64 < 64" "byte c mod 64 < 64"
proof -
  have "byte a < 256" "byte b < 256" "byte c < 256" by (rule byte_bound)+
  then show "byte a div 4 < 64" "byte a mod 4 * 16 < 64" "byte a mod 4 * 16 + byte b div 16 < 64"
    "byte b mod 16 * 4 < 64" "byte b mod 16 * 4 + byte c div 64 < 64" "byte c mod 64 < 64"
    by linarith+
qed

lemma base64_length_raw: "length (base64 al False s) = (4 * length s + 2) div 3"
  by (induction al "False" s rule: base64.induct) simp_all

lemma base64_length_padded: "length (base64 al True s) = 4 * ((length s + 2) div 3)"
proof (induction al "True" s rule: base64.induct)
  case (4 al a b c r)
  have "(5 + length r) div 3 = Suc ((2 + length r) div 3)" by presburger
  with 4 show ?case by simp
qed simp_all

lemma base64_chars:
  assumes "length al = 64"
  shows "set (base64 al pad s) \<subseteq> set al \<union> (if pad then {CHR ''=''} else {})"
  using assms
proof (induction al pad s rule: base64.induct)
  case (2 al pad a)
  then show ?case by (simp add: base64_digits)
next
  case (3 al pad a b)
  then show ?case by (simp add: base64_digits)
next
  case (4 al pad a b c r)
  then show ?case by (simp add: base64_digits)
qed simp

lemma two_digits:
  fixes x x' y y' k :: nat
  assumes "y < k" "y' < k" "x * k + y = x' * k + y'"
  shows "x = x'" "y = y'"
proof -
  have "(x * k + y) div k = x" "(x' * k + y') div k = x'" "(x * k + y) mod k = y" "(x' * k + y') mod k = y'"
    using assms(1,2) by simp_all
  with assms(3) show "x = x'" "y = y'" by simp_all
qed

lemma digits_determine:
  fixes a a' b b' :: nat
  assumes "a div 4 = a' div 4" "a mod 4 * 16 + b div 16 = a' mod 4 * 16 + b' div 16" "b < 256" "b' < 256"
  shows "a = a'" "b div 16 = b' div 16"
proof -
  have "b div 16 < 16" "b' div 16 < 16" using assms(3,4) by (simp_all add: less_mult_imp_div_less)
  note m = two_digits [OF this assms(2)]
  then show "b div 16 = b' div 16" by simp
  from m(1) assms(1) show "a = a'" by (metis div_mult_mod_eq)
qed

lemma digits_determine':
  fixes b b' c c' :: nat
  assumes "b div 16 = b' div 16" "b mod 16 * 4 + c div 64 = b' mod 16 * 4 + c' div 64" "c < 256" "c' < 256"
  shows "b = b'" "c div 64 = c' div 64"
proof -
  have "c div 64 < 4" "c' div 64 < 4" using assms(3,4) by (simp_all add: less_mult_imp_div_less)
  note m = two_digits [OF this assms(2)]
  then show "c div 64 = c' div 64" by simp
  from m(1) assms(1) show "b = b'" by (metis div_mult_mod_eq)
qed

text \<open>The encoding loses nothing: texts of the same length with the same code are equal.\<close>

lemma base64_inject:
  assumes "length al = 64" "distinct al" "length s = length t" "base64 al pad s = base64 al pad t"
  shows "s = t"
  using assms
proof (induction al pad s arbitrary: t rule: base64.induct)
  case (2 al pad a)
  then obtain a' where t: "t = [a']" by (cases t) auto
  have "byte a div 4 = byte a' div 4" "byte a mod 4 * 16 = byte a' mod 4 * 16"
    using 2 t by (simp_all add: nth_eq_iff_index_eq base64_digits)
  then have "byte a = byte a'" using digits_determine(1) [of "byte a" "byte a'" 0 0] by simp
  then show ?case using t by simp
next
  case (3 al pad a b)
  then have "length t = Suc (Suc 0)" by simp
  then obtain a' b' where t: "t = [a', b']" by (auto simp: length_Suc_conv)
  have e: "byte a div 4 = byte a' div 4" "byte a mod 4 * 16 + byte b div 16 = byte a' mod 4 * 16 + byte b' div 16"
    "byte b mod 16 * 4 = byte b' mod 16 * 4"
    using 3 t by (simp_all add: nth_eq_iff_index_eq base64_digits)
  note d = digits_determine [OF e(1,2) byte_bound byte_bound]
  then have "byte b = byte b'" using digits_determine' (1) [of "byte b" "byte b'" 0 0] e(3) by simp
  then show ?case using t d(1) by simp
next
  case (4 al pad a b c r)
  then have "length t = Suc (Suc (Suc (length r)))" by simp
  then obtain a' b' c' r' where t: "t = a' # b' # c' # r'" by (auto simp: length_Suc_conv)
  have e: "byte a div 4 = byte a' div 4" "byte a mod 4 * 16 + byte b div 16 = byte a' mod 4 * 16 + byte b' div 16"
    "byte b mod 16 * 4 + byte c div 64 = byte b' mod 16 * 4 + byte c' div 64" "byte c mod 64 = byte c' mod 64"
    using 4 t by (simp_all add: nth_eq_iff_index_eq base64_digits)
  note d = digits_determine [OF e(1,2) byte_bound byte_bound]
  note d' = digits_determine' [OF d(2) e(3) byte_bound byte_bound]
  from d'(2) e(4) have "byte c = byte c'" by (metis div_mult_mod_eq)
  moreover have "r = r'" using "4.IH" [of r'] "4.prems" t by simp
  ultimately show ?case using t d(1) d'(1) by simp
qed simp

end
