(* ===== verification/Checksums.thy ===== *)
theory Checksums
  imports Go_Encoding
begin

text \<open>
  \<open>internal/release/checksum.go\<close>: the SHA256SUMS file every release artifact is checked against. The
  digest function is an argument, so what is proved holds whatever the digest function is.
\<close>

subsection \<open>Lines\<close>

text \<open>
  \<open>bufio.Scanner\<close> with the default split function: lines without their line feed and one trailing
  carriage return, no empty line at the end of the input. A line that does not fit the buffer of one
  MiB together with its line feed stops the scan with an error.
\<close>

definition drop_cr :: "string \<Rightarrow> string" where
  "drop_cr l = (if l \<noteq> [] \<and> last l = CHR 0x0D then butlast l else l)"

definition max_scan_token :: nat where
  "max_scan_token = 1024 * 1024"

definition raw_lines :: "string \<Rightarrow> string list" where
  "raw_lines s = (let ls = split_on (CHR 0x0A) s in if last ls = [] then butlast ls else ls)"

subsection \<open>Parsing\<close>

datatype sums_reason =
    SumsEmpty
  | SumsNoEntries
  | LineMalformed string
  | NameMissing string
  | DigestMalformed string
  | NameTwice string
  | LineTooLong
  | ArtifactEmpty
  | ArtifactUnlisted string
  | ExpectedNotHex string
  | ChecksumMismatch string

type_synonym sums_error = "sums_reason wdm_error"

definition verificationError :: "sums_reason \<Rightarrow> sums_error" where
  "verificationError r = Coded ErrCodeVerificationFailed r"

definition isHexSHA256 :: "string \<Rightarrow> bool" where
  "isHexSHA256 s \<longleftrightarrow> length s = 64 \<and> list_all lower_hex s"

text \<open>Name and digest of one line.\<close>

definition parseSumLine :: "string \<Rightarrow> sums_error + string \<times> string" where
  "parseSumLine line =
     (case cut (CHR '' '') line of (digestField, rest, found) \<Rightarrow>
        if \<not> found \<or> digestField = [] then Inl (verificationError (LineMalformed line))
        else
          (let name = trim_prefix (dropWhile (\<lambda>c. c = CHR '' '') rest) ''*'';
               digest = to_lower_ascii digestField
           in if name = [] then Inl (verificationError (NameMissing line))
              else if \<not> isHexSHA256 digest then Inl (verificationError (DigestMalformed line))
              else Inr (name, digest)))"

definition skipped_line :: "string \<Rightarrow> bool" where
  "skipped_line line \<longleftrightarrow> trim_space line = [] \<or> has_prefix line ''#''"

definition sums_step :: "(string, string) gomap \<Rightarrow> string \<Rightarrow> sums_error + (string, string) gomap" where
  "sums_step digests raw =
     (if length raw \<ge> max_scan_token then Inl (verificationError LineTooLong)
      else
        (let line = drop_cr raw
         in if skipped_line line then Inr digests
            else bindE (parseSumLine line) (\<lambda>(name, digest).
              if map_of digests name \<noteq> None then Inl (verificationError (NameTwice name))
              else Inr (AList.update name digest digests))))"

definition ParseSHA256SUMS :: "string \<Rightarrow> sums_error + (string, string) gomap" where
  "ParseSHA256SUMS sums =
     (if trim_space sums = [] then Inl (verificationError SumsEmpty)
      else bindE (foldE sums_step [] (raw_lines sums)) (\<lambda>digests.
        if digests = [] then Inl (verificationError SumsNoEntries) else Inr digests))"

definition VerifyChecksum ::
  "(string \<Rightarrow> string) \<Rightarrow> (string, string) gomap \<Rightarrow> string \<Rightarrow> string \<Rightarrow> sums_error option" where
  "VerifyChecksum sha256 sums name artifact =
     (if artifact = [] then Some (verificationError ArtifactEmpty)
      else (case map_of sums name of
        None \<Rightarrow> Some (verificationError (ArtifactUnlisted name))
      | Some expectedHex \<Rightarrow>
          (case hex_decode expectedHex of
             None \<Rightarrow> Some (verificationError (ExpectedNotHex name))
           | Some expected \<Rightarrow>
               (if sha256 artifact \<noteq> expected then Some (verificationError (ChecksumMismatch name))
                else None))))"

subsection \<open>What a parsed file says\<close>

text \<open>The entries of the file: the lines that are not skipped, in order.\<close>

definition entry_lines :: "string \<Rightarrow> string list" where
  "entry_lines s = filter (\<lambda>l. \<not> skipped_line l) (map drop_cr (raw_lines s))"

definition entries_of :: "string list \<Rightarrow> (string \<times> string) list" where
  "entries_of ls = map (\<lambda>l. case parseSumLine l of Inr e \<Rightarrow> e | Inl _ \<Rightarrow> ([], [])) ls"

lemma parseSumLine_hex: "parseSumLine l = Inr (name, digest) \<Longrightarrow> isHexSHA256 digest \<and> name \<noteq> []"
  by (auto simp: parseSumLine_def Let_def split: prod.splits if_splits)

lemma sums_step_Inr:
  "sums_step m raw = Inr m' \<longleftrightarrow> length raw < max_scan_token \<and>
     (if skipped_line (drop_cr raw) then m' = m
      else \<exists>name digest. parseSumLine (drop_cr raw) = Inr (name, digest) \<and> map_of m name = None
        \<and> m' = AList.update name digest m)"
  by (auto simp: sums_step_def Let_def err_simps split: if_splits)

lemma update_fresh: "map_of m k = None \<Longrightarrow> AList.update k v m = m @ [(k, v)]"
  by (induction m) (auto split: if_splits)

lemma sums_fold:
  "foldE sums_step m raws = Inr m' \<longleftrightarrow>
     (\<forall>raw \<in> set raws. length raw < max_scan_token)
     \<and> (let ls = filter (\<lambda>l. \<not> skipped_line l) (map drop_cr raws) in
         (\<forall>l \<in> set ls. \<exists>e. parseSumLine l = Inr e)
         \<and> distinct (map fst (entries_of ls)) \<and> fst ` set (entries_of ls) \<inter> fst ` set m = {}
         \<and> m' = m @ entries_of ls)"
proof (induction raws arbitrary: m)
  case Nil
  then show ?case by (auto simp: entries_of_def)
next
  case (Cons raw raws)
  show ?case
  proof (cases "skipped_line (drop_cr raw)")
    case True
    then show ?thesis by (auto simp: err_simps sums_step_Inr Cons.IH Let_def)
  next
    case False
    show ?thesis
    proof (cases "\<exists>n d. parseSumLine (drop_cr raw) = Inr (n, d)")
      case no: False
      then have "\<not> (\<exists>e. parseSumLine (drop_cr raw) = Inr e)" by auto
      with no show ?thesis using False by (auto simp: err_simps sums_step_Inr Let_def)
    next
      case True
      then obtain n d where p: "parseSumLine (drop_cr raw) = Inr (n, d)" by blast
      have "foldE sums_step m (raw # raws) = Inr m' \<longleftrightarrow>
          length raw < max_scan_token \<and> map_of m n = None \<and> foldE sums_step (m @ [(n, d)]) raws = Inr m'"
        using False p by (auto simp: err_simps sums_step_Inr update_fresh)
      then show ?thesis
        using False p by (auto simp: Cons.IH Let_def entries_of_def map_of_eq_None_iff)
    qed
  qed
qed

subsection \<open>Printed files\<close>

definition sum_line :: "string \<times> string \<Rightarrow> string" where
  "sum_line e = (case e of (name, digest) \<Rightarrow> digest @ ''  '' @ name)"

definition print_sums :: "(string, string) gomap \<Rightarrow> string" where
  "print_sums m = concat (map (\<lambda>e. sum_line e @ [CHR 0x0A]) m)"

definition plain_entry :: "string \<times> string \<Rightarrow> bool" where
  "plain_entry e = (case e of (name, digest) \<Rightarrow>
     isHexSHA256 digest \<and> name \<noteq> [] \<and> hd name \<noteq> CHR '' '' \<and> hd name \<noteq> CHR ''*''
     \<and> CHR 0x0A \<notin> set name \<and> last name \<noteq> CHR 0x0D \<and> length name < 1000000)"

lemma lower_hex_not:
  "\<not> lower_hex (CHR '' '')" "\<not> lower_hex (CHR 0x0A)" "\<not> lower_hex (CHR 0x0D)" "\<not> lower_hex (CHR ''#'')"
  by (simp_all add: lower_hex_def is_digit_def byte_def)

lemma lower_hex_lower: "lower_hex c \<Longrightarrow> lower_char c = c"
  by (auto simp: lower_hex_def is_digit_def lower_char_def is_upper_def)

lemma hex_no_space: "lower_hex c \<Longrightarrow> p \<in> set space_codes \<Longrightarrow> c \<notin> set p"
  by (auto simp: space_codes_def lower_hex_def is_digit_def)

lemma parse_sum_line:
  assumes "plain_entry e"
  shows "parseSumLine (sum_line e) = Inr e" "\<not> skipped_line (sum_line e)" "drop_cr (sum_line e) = sum_line e"
    "length (sum_line e) < max_scan_token" "CHR 0x0A \<notin> set (sum_line e)"
proof -
  obtain name digest where e: "e = (name, digest)" by (cases e)
  with assms have d: "length digest = 64" "\<forall>c \<in> set digest. lower_hex c" and n: "name \<noteq> []" "hd name \<noteq> CHR '' ''"
    "hd name \<noteq> CHR ''*''" "CHR 0x0A \<notin> set name" "last name \<noteq> CHR 0x0D" "length name < 1000000"
    by (auto simp: plain_entry_def isHexSHA256_def list_all_iff)
  have line: "sum_line e = digest @ CHR '' '' # CHR '' '' # name" by (simp add: sum_line_def e)
  have blank: "CHR '' '' \<notin> set digest" using d(2) lower_hex_not by auto
  obtain c r where name: "name = c # r" using n(1) by (cases name) auto
  have dig: "to_lower_ascii digest = digest"
    using d(2) by (simp add: to_lower_ascii_def map_idI lower_hex_lower)
  have "parseSumLine (digest @ CHR '' '' # CHR '' '' # name) = Inr (name, digest)"
    using cut_found [OF blank, of "CHR '' '' # name"] d n(2,3)
    by (auto simp: parseSumLine_def dig isHexSHA256_def list_all_iff name trim_prefix_def)
  then show "parseSumLine (sum_line e) = Inr e" unfolding line by (simp add: e)
  obtain x ds where digest: "digest = x # ds" "lower_hex x" using d by (cases digest) auto
  have "x \<in> set (trim_space (sum_line e))"
    using trim_space_keeps [of x "sum_line e"] hex_no_space digest by (auto simp: line)
  then show "\<not> skipped_line (sum_line e)"
    using digest lower_hex_not by (auto simp: skipped_line_def line)
  show "drop_cr (sum_line e) = sum_line e" using n(1,5) by (simp add: drop_cr_def line)
  show "length (sum_line e) < max_scan_token" using d(1) n(6) by (simp add: line max_scan_token_def)
  show "CHR 0x0A \<notin> set (sum_line e)" using d(2) n(4) lower_hex_not by (auto simp: line)
qed

lemma raw_lines_print:
  "\<forall>l \<in> set ls. CHR 0x0A \<notin> set l \<Longrightarrow> raw_lines (concat (map (\<lambda>l. l @ [CHR 0x0A]) ls)) = ls"
proof -
  assume "\<forall>l \<in> set ls. CHR 0x0A \<notin> set l"
  then have "split_on (CHR 0x0A) (concat (map (\<lambda>l. l @ [CHR 0x0A]) ls)) = ls @ [[]]"
    by (induction ls) (auto simp: split_on_sep)
  then show ?thesis by (simp add: raw_lines_def)
qed

lemma sums_exact:
  "ParseSHA256SUMS s = Inr m \<longleftrightarrow>
     trim_space s \<noteq> [] \<and> (\<forall>raw \<in> set (raw_lines s). length raw < max_scan_token)
     \<and> (\<forall>l \<in> set (entry_lines s). \<exists>e. parseSumLine l = Inr e)
     \<and> distinct (map fst m) \<and> m \<noteq> [] \<and> m = entries_of (entry_lines s)"
  by (auto simp: ParseSHA256SUMS_def err_simps sums_fold entry_lines_def Let_def)

lemma sums_digests:
  assumes "ParseSHA256SUMS s = Inr m" "(name, digest) \<in> set m"
  shows "isHexSHA256 digest"
proof -
  from assms obtain l where "l \<in> set (entry_lines s)" "\<exists>e. parseSumLine l = Inr e"
    "(name, digest) = (case parseSumLine l of Inr e \<Rightarrow> e | Inl _ \<Rightarrow> ([], []))"
    by (auto simp: sums_exact entries_of_def)
  then show ?thesis using parseSumLine_hex by fastforce
qed

lemma sums_print_parse:
  assumes "m \<noteq> []" "distinct (map fst m)" "\<forall>e \<in> set m. plain_entry e"
  shows "ParseSHA256SUMS (print_sums m) = Inr m"
proof -
  have raw: "raw_lines (print_sums m) = map sum_line m"
    using raw_lines_print [of "map sum_line m"] assms(3) parse_sum_line(5)
    by (simp add: print_sums_def comp_def)
  have lines: "entry_lines (print_sums m) = map sum_line m"
    using assms(3) parse_sum_line(2,3) by (auto simp: entry_lines_def raw comp_def)
  have "entries_of (map sum_line m) = m"
    using assms(3) parse_sum_line(1) by (auto simp: entries_of_def comp_def intro!: map_idI)
  moreover obtain e where e: "e \<in> set m" using assms(1) by (cases m) auto
  have "length (snd e) = 64" "\<forall>c \<in> set (snd e). lower_hex c"
    using assms(3) e by (auto simp: plain_entry_def isHexSHA256_def list_all_iff)
  then obtain x where x: "x \<in> set (snd e)" "lower_hex x" by (cases "snd e") auto
  have "x \<in> set (sum_line e)" using x(1) by (cases e) (simp add: sum_line_def)
  then have "x \<in> set (print_sums m)" using e unfolding print_sums_def by auto
  then have "trim_space (print_sums m) \<noteq> []"
    using trim_space_keeps [of x "print_sums m"] hex_no_space x(2) by auto
  ultimately show ?thesis using assms parse_sum_line(1,4)
    unfolding sums_exact by (auto simp: raw lines)
qed

text \<open>An artifact of the length of a digest, to be read with the identity as digest function.\<close>

definition demo_artifact :: string where
  "demo_artifact = ''0123456789abcdef0123456789ABCDEF''"

definition demo_sums :: "(string, string) gomap" where
  "demo_sums = [(''wdm'', hex_encode demo_artifact)]"

lemma demo_sums_plain: "e \<in> set demo_sums \<Longrightarrow> plain_entry e"
  by (auto simp: demo_sums_def plain_entry_def isHexSHA256_def list_all_iff hex_encode_lower demo_artifact_def)

lemma demo_sums_printed: "ParseSHA256SUMS (print_sums demo_sums) = Inr demo_sums"
  using demo_sums_plain by (intro sums_print_parse) (auto simp: demo_sums_def)

subsection \<open>Properties\<close>

text \<open>
  The checksum file is read completely or refused: a result is the list of exactly the entries of
  its lines, in order, every line that is neither blank nor a comment is an entry, and no name occurs
  twice.
\<close>

lemma sums_parsed_exactly:
  "ParseSHA256SUMS s = Inr m \<longleftrightarrow>
     trim_space s \<noteq> [] \<and> (\<forall>raw \<in> set (raw_lines s). length raw < max_scan_token)
     \<and> (\<forall>l \<in> set (entry_lines s). \<exists>e. parseSumLine l = Inr e)
     \<and> distinct (map fst m) \<and> m \<noteq> [] \<and> m = entries_of (entry_lines s)"
  by (rule sums_exact)

text \<open>
  C19: an artifact is accepted under a parsed checksum file exactly when it is not empty and the file
  lists, for its name, the lower-case hexadecimal digest of its bytes.
\<close>

theorem checksum_accepts_exactly:
  assumes "ParseSHA256SUMS s = Inr m"
  shows "VerifyChecksum sha256 m name artifact = None \<longleftrightarrow>
     artifact \<noteq> [] \<and> map_of m name = Some (hex_encode (sha256 artifact))"
proof (cases "map_of m name")
  case (Some d)
  then have "isHexSHA256 d" using sums_digests [OF assms] map_of_SomeD by metis
  then have "hex_decode d = Some bs \<longleftrightarrow> d = hex_encode bs" for bs
    using hex_decode_lower by (simp add: isHexSHA256_def list_all_iff)
  then show ?thesis using Some hex_decode_encode by (auto simp: VerifyChecksum_def split: option.splits)
qed (simp add: VerifyChecksum_def)

theorem checksum_accepts_exactly_witness:
  "VerifyChecksum (\<lambda>a. a) demo_sums ''wdm'' demo_artifact = None
   \<and> VerifyChecksum (\<lambda>a. a) demo_sums ''wdm'' ''other'' \<noteq> None"
proof -
  have "hex_encode demo_artifact \<noteq> hex_encode ''other''"
    using hex_encode_length [of demo_artifact] hex_encode_length [of "''other''"]
    by (auto simp: demo_artifact_def dest: arg_cong [of _ _ length])
  then show ?thesis
    using checksum_accepts_exactly [OF demo_sums_printed, of "\<lambda>a. a" "''wdm''"]
    by (simp add: demo_sums_def demo_artifact_def)
qed

text \<open>
  A checksum file printed from a table of names and digests is read back as that table.
\<close>

lemma sums_roundtrip:
  assumes "m \<noteq> []" "distinct (map fst m)" "\<forall>e \<in> set m. plain_entry e"
  shows "ParseSHA256SUMS (print_sums m) = Inr m"
  using assms by (rule sums_print_parse)

lemma sums_roundtrip_witness:
  "ParseSHA256SUMS (print_sums demo_sums) = Inr demo_sums"
  using sums_roundtrip [of demo_sums] demo_sums_plain by (simp add: demo_sums_def)

end
