(* ===== verification/Secrets.thy ===== *)
theory Secrets
  imports Install_Plan Go_Encoding
begin

text \<open>
  Secret generation: \<open>internal/security/secret.go\<close> and
  \<open>internal/core/install_phase_secrets.go\<close>. The entropy source is an argument with a state \<open>'w\<close> that
  is passed along (\<open>read w n\<close> is \<open>io.ReadFull\<close> of \<open>n\<close> bytes: the bytes or an error, and the state
  after it); so is \<open>argon2.IDKey\<close>.
\<close>

subsection \<open>Generating one secret\<close>

datatype secret_reason =
    UnknownEncoding string
  | EntropyUnavailable os_error
  | GeneratorRequired
  | EncodingInvalid string string

type_synonym secret_error = "secret_reason wdm_error"
type_synonym 'w entropy = "'w \<Rightarrow> nat \<Rightarrow> (os_error + string) \<times> 'w"

definition EncodingBase64URL :: string where "EncodingBase64URL = ''base64url''"
definition EncodingHex :: string where "EncodingHex = ''hex''"
definition EncodingBase64Std :: string where "EncodingBase64Std = ''base64std''"
definition EncodingArgon2id :: string where "EncodingArgon2id = ''argon2id''"

lemmas encoding_names = EncodingBase64URL_def EncodingHex_def EncodingBase64Std_def EncodingArgon2id_def

definition secretEntropyBytes :: nat where
  "secretEntropyBytes = 32"

definition encoder :: "string \<Rightarrow> (string \<Rightarrow> string) option" where
  "encoder enc =
     (if enc = EncodingBase64URL then Some (base64 url_alphabet False)
      else if enc = EncodingBase64Std then Some (base64 std_alphabet True)
      else if enc = EncodingHex then Some hex_encode
      else None)"

definition GenerateSecret :: "'w entropy \<Rightarrow> string \<Rightarrow> 'w \<Rightarrow> (secret_error + string) \<times> 'w" where
  "GenerateSecret read enc w =
     (case encoder enc of
        None \<Rightarrow> (Inl (Untyped (UnknownEncoding enc)), w)
      | Some encode \<Rightarrow>
          (case read w secretEntropyBytes of
             (Inl e, w') \<Rightarrow> (Inl (Coded ErrCodeGeneric (EntropyUnavailable e)), w')
           | (Inr buf, w') \<Rightarrow> (Inr (encode buf), w')))"

definition argon2idTimeCost :: nat where "argon2idTimeCost = 3"
definition argon2idMemoryKiB :: nat where "argon2idMemoryKiB = 65536"
definition argon2idThreads :: nat where "argon2idThreads = 4"
definition argon2idKeyBytes :: nat where "argon2idKeyBytes = 32"
definition argon2idSaltBytes :: nat where "argon2idSaltBytes = 16"
definition argon2idPHCVersion :: nat where "argon2idPHCVersion = 19"

definition format_phc :: "string \<Rightarrow> string \<Rightarrow> string" where
  "format_phc salt hash =
     ''$argon2id$v='' @ itoa (int argon2idPHCVersion) @ ''$m='' @ itoa (int argon2idMemoryKiB)
     @ '',t='' @ itoa (int argon2idTimeCost) @ '',p='' @ itoa (int argon2idThreads)
     @ ''$'' @ base64 std_alphabet False salt @ ''$'' @ base64 std_alphabet False hash"

definition GenerateArgon2idCredential ::
  "(string \<Rightarrow> string \<Rightarrow> nat \<Rightarrow> nat \<Rightarrow> nat \<Rightarrow> nat \<Rightarrow> string) \<Rightarrow> 'w entropy \<Rightarrow> 'w
     \<Rightarrow> (secret_error + string \<times> string) \<times> 'w" where
  "GenerateArgon2idCredential idkey read w =
     (case GenerateSecret read EncodingBase64URL w of
        (Inl e, w') \<Rightarrow> (Inl e, w')
      | (Inr plaintext, w') \<Rightarrow>
          (case read w' argon2idSaltBytes of
             (Inl e, w'') \<Rightarrow> (Inl (Coded ErrCodeGeneric (EntropyUnavailable e)), w'')
           | (Inr salt, w'') \<Rightarrow>
               (let hash = idkey plaintext salt argon2idTimeCost argon2idMemoryKiB argon2idThreads argon2idKeyBytes
                in (Inr (plaintext, format_phc salt hash), w''))))"

subsection \<open>The secrets of an install\<close>

fun installEnvEscapeDollar :: "string \<Rightarrow> string" where
  "installEnvEscapeDollar [] = []"
| "installEnvEscapeDollar (c # s) =
     (if c = CHR ''$'' then ''$$'' @ installEnvEscapeDollar s else c # installEnvEscapeDollar s)"

definition generatedCredentialNote :: string where
  "generatedCredentialNote =
     ''Store this now '' @ map char_of [226, 128, 148 :: nat] @ '' it cannot be recovered.''"

type_synonym 'w generator = "string \<Rightarrow> 'w \<Rightarrow> (secret_error + string) \<times> 'w"
type_synonym 'w credential_generator = "'w \<Rightarrow> (secret_error + string \<times> string) \<times> 'w"

definition bind_secret :: "placeholder \<Rightarrow> string \<Rightarrow> install_plan \<Rightarrow> install_plan" where
  "bind_secret ph v p =
     p\<lparr>resolved_values := AList.update (ph_name ph) v (resolved_values p),
       generated_values := generated_values p @ [v]\<rparr>"

definition generateArgon2idSecret :: "'w credential_generator \<Rightarrow> placeholder \<Rightarrow> install_plan \<times> 'w
    \<Rightarrow> secret_error + install_plan \<times> 'w" where
  "generateArgon2idSecret generateArgon2id ph s =
     (case s of (p, w) \<Rightarrow>
       (case generateArgon2id w of
          (Inl e, w') \<Rightarrow> Inl e
        | (Inr (plaintext, phc), w') \<Rightarrow>
            Inr ((bind_secret ph (installEnvEscapeDollar phc) p)\<lparr>shown_credentials := shown_credentials p @
              [\<lparr>cred_label = trim_space (app_name (plan_app p) @ '' '' @ ph_name ph),
                cred_value = plaintext, cred_note = generatedCredentialNote\<rparr>]\<rparr>, w')))"

definition secret_step :: "'w generator \<Rightarrow> 'w credential_generator \<Rightarrow> install_plan \<times> 'w \<Rightarrow> placeholder
    \<Rightarrow> secret_error + install_plan \<times> 'w" where
  "secret_step generate generateArgon2id s ph =
     (case s of (p, w) \<Rightarrow>
       (if ph_type ph \<noteq> ''secret'' then Inr (p, w)
        else if ph_encoding ph \<in> {EncodingBase64URL, EncodingBase64Std, EncodingHex} then
          (case generate (ph_encoding ph) w of
             (Inl e, w') \<Rightarrow> Inl e
           | (Inr v, w') \<Rightarrow> Inr (bind_secret ph v p, w'))
        else if ph_encoding ph = EncodingArgon2id then generateArgon2idSecret generateArgon2id ph (p, w)
        else Inl (CatalogVerification (EncodingInvalid (ph_name ph) (ph_encoding ph)))))"

definition generateInstallSecrets :: "'w generator option \<Rightarrow> 'w credential_generator option
    \<Rightarrow> install_plan \<times> 'w \<Rightarrow> secret_error + install_plan \<times> 'w" where
  "generateInstallSecrets generate generateArgon2id s =
     (case (generate, generateArgon2id) of
        (Some g, Some ga) \<Rightarrow> foldE (secret_step g ga) s (app_placeholders (plan_app (fst s)))
      | _ \<Rightarrow> Inl (UsageValidation GeneratorRequired))"

text \<open>
  The redactor of the phase is bound to what was generated, in one step with the generation; a redactor
  is the list of its secrets.
\<close>

definition generateSecretsAndBindRedactor :: "'w generator option \<Rightarrow> 'w credential_generator option
    \<Rightarrow> install_plan \<times> 'w \<Rightarrow> secret_error + string list \<times> install_plan \<times> 'w" where
  "generateSecretsAndBindRedactor generate generateArgon2id s =
     bindE (generateInstallSecrets generate generateArgon2id s)
       (\<lambda>(p, w). Inr (generated_values p, p, w))"

definition sensitiveSetValues :: "install_plan \<Rightarrow> string list" where
  "sensitiveSetValues p =
     filter (\<lambda>v. v \<noteq> []) (map (\<lambda>ph. get_or [] (resolved_values p) (ph_name ph))
       (filter ph_sensitive (app_placeholders (plan_app p))))"

definition installRedactionSecrets :: "install_plan \<Rightarrow> string list" where
  "installRedactionSecrets p =
     generated_values p @ map cred_value (shown_credentials p) @ sensitiveSetValues p"

lemma bind_redactor_Inr:
  "generateSecretsAndBindRedactor g ga s = Inr (redactor, p, w) \<longleftrightarrow>
     generateInstallSecrets g ga s = Inr (p, w) \<and> redactor = generated_values p"
  by (auto simp: generateSecretsAndBindRedactor_def err_simps)

subsection \<open>What generation does to the plan\<close>

definition secret_placeholders :: "app \<Rightarrow> placeholder list" where
  "secret_placeholders a = filter (\<lambda>ph. ph_type ph = ''secret'') (app_placeholders a)"

definition value_of :: "install_plan \<Rightarrow> placeholder \<Rightarrow> string" where
  "value_of p ph = get_or [] (resolved_values p) (ph_name ph)"

text \<open>
  What one secret placeholder gets, said on the generators: a random value in the encoding the catalog
  names, or the escaped hash of a credential whose plaintext is shown; and the placeholders one after
  the other, each drawing from the state the one before left.
\<close>

definition mints :: "'w generator \<Rightarrow> 'w credential_generator \<Rightarrow> app \<Rightarrow> placeholder \<Rightarrow> 'w
    \<Rightarrow> string \<times> generated_credential list \<Rightarrow> 'w \<Rightarrow> bool" where
  "mints g ga a ph w out w' \<longleftrightarrow>
     ph_encoding ph \<in> {''base64url'', ''base64std'', ''hex''}
       \<and> g (ph_encoding ph) w = (Inr (fst out), w') \<and> snd out = []
   \<or> ph_encoding ph = ''argon2id''
       \<and> (\<exists>plaintext phc. ga w = (Inr (plaintext, phc), w') \<and> fst out = installEnvEscapeDollar phc
            \<and> snd out = [\<lparr>cred_label = trim_space (app_name a @ '' '' @ ph_name ph),
                cred_value = plaintext, cred_note = generatedCredentialNote\<rparr>])"

fun mints_all :: "'w generator \<Rightarrow> 'w credential_generator \<Rightarrow> app \<Rightarrow> placeholder list \<Rightarrow> 'w
    \<Rightarrow> (string \<times> generated_credential list) list \<Rightarrow> 'w \<Rightarrow> bool" where
  "mints_all g ga a [] w outs w' \<longleftrightarrow> outs = [] \<and> w' = w"
| "mints_all g ga a (ph # phs) w [] w' \<longleftrightarrow> False"
| "mints_all g ga a (ph # phs) w (out # outs) w' \<longleftrightarrow>
     (\<exists>w1. mints g ga a ph w out w1 \<and> mints_all g ga a phs w1 outs w')"

definition with_secrets :: "install_plan \<Rightarrow> (string \<times> generated_credential list) list
    \<Rightarrow> (string, string) gomap \<Rightarrow> install_plan" where
  "with_secrets p outs values =
     p\<lparr>resolved_values := values, generated_values := generated_values p @ map fst outs,
       shown_credentials := shown_credentials p @ concat (map snd outs)\<rparr>"

lemma secret_step_Inr:
  assumes "secret_step g ga (p, w) ph = Inr (p', w')"
  shows "if ph_type ph \<noteq> ''secret'' then p' = p \<and> w' = w
    else \<exists>out. mints g ga (plan_app p) ph w out w'
      \<and> p' = with_secrets p [out] (AList.update (ph_name ph) (fst out) (resolved_values p))"
  using assms
  by (auto simp: secret_step_def generateArgon2idSecret_def encoding_names mints_def with_secrets_def
      bind_secret_def split: if_splits prod.splits sum.splits)

lemma bind_secret_simps [simp]:
  "generated_values (bind_secret ph v p) = generated_values p @ [v]"
  "resolved_values (bind_secret ph v p) = AList.update (ph_name ph) v (resolved_values p)"
  "shown_credentials (bind_secret ph v p) = shown_credentials p"
  "plan_app (bind_secret ph v p) = plan_app p" "frozen (bind_secret ph v p) = frozen p"
  "local_ports (bind_secret ph v p) = local_ports p"
  by (simp_all add: bind_secret_def)

lemma get_or_update: "get_or z (AList.update k v m) j = (if j = k then v else get_or z m j)"
  by (simp add: get_or_def)

lemma with_secrets_simps [simp]:
  "generated_values (with_secrets p outs m) = generated_values p @ map fst outs"
  "resolved_values (with_secrets p outs m) = m" "plan_app (with_secrets p outs m) = plan_app p"
  "with_secrets (with_secrets p outs m) outs' m' = with_secrets p (outs @ outs') m'"
  "with_secrets p [] (resolved_values p) = p"
  by (simp_all add: with_secrets_def)

lemma secrets_fold:
  assumes "foldE (secret_step g ga) (p, w) phs = Inr (p', w')" "distinct (map ph_name phs)"
  shows "\<exists>outs. mints_all g ga (plan_app p) (filter (\<lambda>ph. ph_type ph = ''secret'') phs) w outs w'
    \<and> p' = with_secrets p outs (resolved_values p')
    \<and> map (\<lambda>ph. map_of (resolved_values p') (ph_name ph)) (filter (\<lambda>ph. ph_type ph = ''secret'') phs)
        = map (Some \<circ> fst) outs
    \<and> (\<forall>k. k \<notin> ph_name ` set (filter (\<lambda>ph. ph_type ph = ''secret'') phs) \<longrightarrow>
         map_of (resolved_values p') k = map_of (resolved_values p) k)"
  using assms
proof (induction phs arbitrary: p w)
  case (Cons ph phs)
  then obtain q w1 where q: "secret_step g ga (p, w) ph = Inr (q, w1)"
    "foldE (secret_step g ga) (q, w1) phs = Inr (p', w')" by (auto simp: err_simps)
  from Cons.IH [OF q(2)] Cons.prems(2) obtain outs where
    IH: "mints_all g ga (plan_app q) (filter (\<lambda>ph. ph_type ph = ''secret'') phs) w1 outs w'"
      "p' = with_secrets q outs (resolved_values p')"
      "map (\<lambda>ph. map_of (resolved_values p') (ph_name ph)) (filter (\<lambda>ph. ph_type ph = ''secret'') phs)
        = map (Some \<circ> fst) outs"
      "\<And>k. k \<notin> ph_name ` set (filter (\<lambda>ph. ph_type ph = ''secret'') phs) \<Longrightarrow>
         map_of (resolved_values p') k = map_of (resolved_values q) k" by auto
  show ?case
  proof (cases "ph_type ph = ''secret''")
    case False
    with secret_step_Inr [OF q(1)] have "q = p" "w1 = w" by auto
    with IH False show ?thesis by (intro exI [of _ outs]) auto
  next
    case True
    with secret_step_Inr [OF q(1)] obtain out where out: "mints g ga (plan_app p) ph w out w1"
      "q = with_secrets p [out] (AList.update (ph_name ph) (fst out) (resolved_values p))" by auto
    have "ph_name ph \<notin> ph_name ` set (filter (\<lambda>ph. ph_type ph = ''secret'') phs)"
      using Cons.prems(2) by auto
    from IH(4) [OF this] have "map_of (resolved_values p') (ph_name ph) = Some (fst out)" by (simp add: out(2))
    moreover have "p' = with_secrets p (out # outs) (resolved_values p')"
      using IH(2) by (subst IH(2)) (simp add: out(2))
    ultimately show ?thesis using True IH(1,3,4) out
      by (intro exI [of _ "out # outs"]) (auto simp: out(2))
  qed
qed (auto intro: exI [of _ "[]"])

subsection \<open>Plaintexts stay where they are shown\<close>

text \<open>Two credential generators that differ at most in the plaintext they hand out.\<close>

definition same_but_plaintext :: "'w credential_generator \<Rightarrow> 'w credential_generator \<Rightarrow> bool" where
  "same_but_plaintext ga ga' \<longleftrightarrow>
     (\<forall>w. snd (ga w) = snd (ga' w) \<and> map_sum id snd (fst (ga w)) = map_sum id snd (fst (ga' w)))"

definition forget_credentials :: "install_plan \<Rightarrow> install_plan" where
  "forget_credentials p = p\<lparr>shown_credentials := []\<rparr>"

definition same_run :: "secret_error + install_plan \<times> 'w \<Rightarrow> secret_error + install_plan \<times> 'w \<Rightarrow> bool" where
  "same_run r r' \<longleftrightarrow> map_sum id (map_prod forget_credentials id) r = map_sum id (map_prod forget_credentials id) r'"

lemma same_run_Inr:
  "same_run (Inr (p, w)) r \<longleftrightarrow> (\<exists>p'. r = Inr (p', w) \<and> forget_credentials p = forget_credentials p')"
  by (cases r) (auto simp: same_run_def)

lemma forget_fields:
  "forget_credentials p = forget_credentials q \<Longrightarrow>
     resolved_values p = resolved_values q \<and> generated_values p = generated_values q \<and> plan_app p = plan_app q"
  by (cases p; cases q) (simp add: forget_credentials_def)

lemma forget_bind:
  "forget_credentials p = forget_credentials q \<Longrightarrow>
     forget_credentials ((bind_secret ph v p)\<lparr>shown_credentials := c\<rparr>)
       = forget_credentials ((bind_secret ph v q)\<lparr>shown_credentials := d\<rparr>)
     \<and> forget_credentials (bind_secret ph v p) = forget_credentials (bind_secret ph v q)"
  by (cases p; cases q) (simp add: forget_credentials_def bind_secret_def)

lemma argon_step_same:
  assumes "same_but_plaintext ga ga'" "forget_credentials p = forget_credentials q"
  shows "same_run (generateArgon2idSecret ga ph (p, w)) (generateArgon2idSecret ga' ph (q, w))"
proof -
  from assms(1) have "snd (ga w) = snd (ga' w)" "map_sum id snd (fst (ga w)) = map_sum id snd (fst (ga' w))"
    by (simp_all add: same_but_plaintext_def)
  then consider e w1 where "ga w = (Inl e, w1)" "ga' w = (Inl e, w1)"
    | a b phc w1 where "ga w = (Inr (a, phc), w1)" "ga' w = (Inr (b, phc), w1)"
    by (cases "ga w"; cases "ga' w"; cases "fst (ga w)"; cases "fst (ga' w)") auto
  then show ?thesis
    by cases (use forget_bind [OF assms(2)] in \<open>auto simp: generateArgon2idSecret_def same_run_def\<close>)
qed

lemma secret_step_same:
  assumes "same_but_plaintext ga ga'" "forget_credentials p = forget_credentials q"
  shows "same_run (secret_step g ga (p, w) ph) (secret_step g ga' (q, w) ph)"
  using argon_step_same [OF assms] assms(2) forget_bind [OF assms(2)]
  by (auto simp: secret_step_def same_run_def split: prod.splits sum.splits)

lemma secrets_fold_same:
  assumes "same_but_plaintext ga ga'" "forget_credentials p = forget_credentials q"
  shows "same_run (foldE (secret_step g ga) (p, w) phs) (foldE (secret_step g ga') (q, w) phs)"
  using assms(2)
proof (induction phs arbitrary: p q w)
  case (Cons ph phs)
  note step = secret_step_same [OF assms(1) Cons.prems, of g w ph]
  show ?case
  proof (cases "secret_step g ga (p, w) ph")
    case (Inl e)
    with step have "secret_step g ga' (q, w) ph = Inl e"
      by (cases "secret_step g ga' (q, w) ph") (auto simp: same_run_def)
    with Inl show ?thesis by (simp add: same_run_def)
  next
    case (Inr s)
    obtain p1 w1 where s: "s = (p1, w1)" by (cases s)
    with step Inr obtain q1 where "secret_step g ga' (q, w) ph = Inr (q1, w1)"
      "forget_credentials p1 = forget_credentials q1" by (auto simp: same_run_Inr)
    with Inr s Cons.IH show ?thesis by simp
  qed
qed (simp add: same_run_def)

subsection \<open>Properties\<close>

text \<open>
  C16: generation fills exactly the secret placeholders, from the right generator. In catalog order
  each secret placeholder gets the next random value in its own encoding, or, for argon2id, the
  escaped hash of the next credential, whose plaintext is the one thing added to the credentials that
  are shown. The values minted, in this order, are appended to the redaction values of the install; no
  other template value and no other field of the plan changes. The names of the placeholders are
  distinct, as the catalog requires.
\<close>

theorem install_secrets_bound:
  assumes "generateInstallSecrets g ga (p, w) = Inr (p', w')"
    and "distinct (map ph_name (app_placeholders (plan_app p)))"
  shows "\<exists>h ha outs. g = Some h \<and> ga = Some ha
    \<and> mints_all h ha (plan_app p) (secret_placeholders (plan_app p)) w outs w'
    \<and> p' = p\<lparr>resolved_values := resolved_values p', generated_values := generated_values p @ map fst outs,
        shown_credentials := shown_credentials p @ concat (map snd outs)\<rparr>
    \<and> map (\<lambda>ph. map_of (resolved_values p') (ph_name ph)) (secret_placeholders (plan_app p))
        = map (Some \<circ> fst) outs
    \<and> set (map fst outs) \<subseteq> set (installRedactionSecrets p')
    \<and> (\<forall>k. k \<notin> ph_name ` set (secret_placeholders (plan_app p)) \<longrightarrow>
         map_of (resolved_values p') k = map_of (resolved_values p) k)"
proof -
  from assms(1) obtain h ha where h: "g = Some h" "ga = Some ha"
    "foldE (secret_step h ha) (p, w) (app_placeholders (plan_app p)) = Inr (p', w')"
    by (auto simp: generateInstallSecrets_def split: option.splits)
  from secrets_fold [OF h(3) assms(2)] obtain outs where o:
    "mints_all h ha (plan_app p) (secret_placeholders (plan_app p)) w outs w'"
    "p' = with_secrets p outs (resolved_values p')"
    "map (\<lambda>ph. map_of (resolved_values p') (ph_name ph)) (secret_placeholders (plan_app p)) = map (Some \<circ> fst) outs"
    "\<And>k. k \<notin> ph_name ` set (secret_placeholders (plan_app p)) \<Longrightarrow>
         map_of (resolved_values p') k = map_of (resolved_values p) k"
    unfolding secret_placeholders_def by blast
  have "generated_values p' = generated_values p @ map fst outs" by (subst o(2)) simp
  then have "set (map fst outs) \<subseteq> set (installRedactionSecrets p')" by (auto simp: installRedactionSecrets_def)
  with h(1,2) o show ?thesis unfolding with_secrets_def by blast
qed

text \<open>
  C17: the plaintext of a credential flows into nothing but the credentials shown once: whatever
  plaintexts the generator hands out, generation ends the same way, with the same template values, the
  same redaction values and the same plan apart from the shown credentials.
\<close>

theorem plaintext_confined:
  assumes "same_but_plaintext ga ga'"
  shows "same_run (generateInstallSecrets (Some g) (Some ga) (p, w))
    (generateInstallSecrets (Some g) (Some ga') (p, w))"
  using secrets_fold_same [OF assms refl] by (simp add: generateInstallSecrets_def)

text \<open>
  Compose reads the escaped hash back as the hash. The hypotheses are Compose's documented
  treatment of an env file: "$$" is a dollar sign, and a character that is not a dollar sign is itself;
  what it does with a single dollar sign does not matter.
\<close>

lemma env_escape_roundtrip:
  assumes "interpolate [] = []"
    and "\<And>c s. c \<noteq> CHR ''$'' \<Longrightarrow> interpolate (c # s) = c # interpolate s"
    and "\<And>s. interpolate (CHR ''$'' # CHR ''$'' # s) = CHR ''$'' # interpolate s"
  shows "interpolate (installEnvEscapeDollar v) = v"
  using assms by (induction v) auto

text \<open>
  A generated secret has the length and the alphabet of its encoding, so it contains no character
  the env file treats specially.
\<close>

lemma generated_secret_shape:
  assumes "GenerateSecret read enc w = (Inr s, w')"
    and "\<And>w n buf w'. read w n = (Inr buf, w') \<Longrightarrow> length buf = n"
  shows "(enc = EncodingBase64URL \<and> length s = 43 \<and> set s \<subseteq> set url_alphabet)
    \<or> (enc = EncodingBase64Std \<and> length s = 44 \<and> set s \<subseteq> set std_alphabet \<union> {CHR ''=''})
    \<or> (enc = EncodingHex \<and> length s = 64 \<and> (\<forall>c \<in> set s. lower_hex c))"
proof -
  from assms(1) obtain encode buf where e: "encoder enc = Some encode" "read w secretEntropyBytes = (Inr buf, w')"
    "s = encode buf" by (auto simp: GenerateSecret_def split: option.splits prod.splits sum.splits)
  then have len: "length buf = 32" using assms(2) by (auto simp: secretEntropyBytes_def)
  have chars: "set (base64 url_alphabet False buf) \<subseteq> set url_alphabet"
    "set (base64 std_alphabet True buf) \<subseteq> set std_alphabet \<union> {CHR ''=''}"
    using base64_chars [OF base64_alphabets(3), of False buf] base64_chars [OF base64_alphabets(2), of True buf]
    by simp_all
  have "length (base64 url_alphabet False buf) = 43" "length (base64 std_alphabet True buf) = 44"
    by (simp_all add: base64_length_raw base64_length_padded len)
  with e(1,3) chars len show ?thesis
    by (auto simp: encoder_def hex_encode_lower split: if_splits)
qed

text \<open>A reader that never fails, and the witnesses.\<close>

definition counting_entropy :: "nat entropy" where
  "counting_entropy w n = (Inr (replicate n (char_of w)), Suc w)"

lemma generated_secret_shape_witness:
  "length (hex_encode (replicate 32 (char_of (7::nat)))) = 64
   \<and> fst (GenerateSecret counting_entropy EncodingHex 7) = Inr (hex_encode (replicate 32 (char_of (7::nat))))"
proof -
  have run: "GenerateSecret counting_entropy EncodingHex 7
      = (Inr (hex_encode (replicate 32 (char_of (7::nat)))), 8)"
    by (simp add: GenerateSecret_def encoder_def encoding_names counting_entropy_def secretEntropyBytes_def)
  have "length buf = n" if "counting_entropy w n = (Inr buf, w')" for w n buf w'
    using that by (auto simp: counting_entropy_def)
  from generated_secret_shape [OF run this] run show ?thesis by (simp add: encoding_names)
qed

fun collapse_dollars :: "string \<Rightarrow> string" where
  "collapse_dollars [] = []"
| "collapse_dollars [c] = [c]"
| "collapse_dollars (c # d # s) =
     (if c = CHR ''$'' \<and> d = CHR ''$'' then CHR ''$'' # collapse_dollars s else c # collapse_dollars (d # s))"

lemma env_escape_roundtrip_witness:
  "collapse_dollars (installEnvEscapeDollar ''$argon2id$v=19'') = ''$argon2id$v=19''"
proof (rule env_escape_roundtrip)
  show "c \<noteq> CHR ''$'' \<Longrightarrow> collapse_dollars (c # s) = c # collapse_dollars s" for c s
    by (cases s) auto
qed simp_all

definition demo_secret_placeholder :: "string \<Rightarrow> string \<Rightarrow> placeholder" where
  "demo_secret_placeholder name enc = \<lparr>ph_name = name, ph_type = ''secret'', ph_required = True,
     ph_encoding = enc, ph_default = None, ph_regenerable = None, ph_sensitive = False\<rparr>"

definition demo_secret_plan :: install_plan where
  "demo_secret_plan = zero_plan (zero_app\<lparr>app_placeholders :=
     [demo_secret_placeholder ''KEY'' ''hex'', demo_secret_placeholder ''ADMIN'' ''argon2id'']\<rparr>)"

definition demo_credential :: "string \<Rightarrow> nat credential_generator" where
  "demo_credential plaintext w = (Inr (plaintext, ''$h''), Suc w)"

lemma demo_generation:
  "\<exists>p'. generateInstallSecrets (Some (GenerateSecret counting_entropy)) (Some (demo_credential ''open''))
     (demo_secret_plan, 0) = Inr (p', 2)
   \<and> map_of (resolved_values p') ''ADMIN'' = Some ''$$h''"
  by (simp add: generateInstallSecrets_def demo_secret_plan_def zero_plan_def zero_app_def
      demo_secret_placeholder_def secret_step_def encoding_names GenerateSecret_def encoder_def
      counting_entropy_def generateArgon2idSecret_def demo_credential_def)

theorem install_secrets_bound_witness:
  "\<exists>p' outs. generateInstallSecrets (Some (GenerateSecret counting_entropy)) (Some (demo_credential ''open''))
     (demo_secret_plan, 0) = Inr (p', 2)
   \<and> mints_all (GenerateSecret counting_entropy) (demo_credential ''open'') (plan_app demo_secret_plan)
       [demo_secret_placeholder ''KEY'' ''hex'', demo_secret_placeholder ''ADMIN'' ''argon2id''] 0 outs 2
   \<and> length outs = 2 \<and> generated_values p' = map fst outs"
proof -
  from demo_generation obtain p' where run: "generateInstallSecrets (Some (GenerateSecret counting_entropy))
      (Some (demo_credential ''open'')) (demo_secret_plan, 0) = Inr (p', 2)" by blast
  have d: "distinct (map ph_name (app_placeholders (plan_app demo_secret_plan)))"
    by (simp add: demo_secret_plan_def zero_plan_def demo_secret_placeholder_def)
  have phs: "secret_placeholders (plan_app demo_secret_plan)
      = [demo_secret_placeholder ''KEY'' ''hex'', demo_secret_placeholder ''ADMIN'' ''argon2id'']"
    by (simp add: demo_secret_plan_def zero_plan_def secret_placeholders_def demo_secret_placeholder_def)
  from install_secrets_bound [OF run d] obtain outs where o:
    "mints_all (GenerateSecret counting_entropy) (demo_credential ''open'') (plan_app demo_secret_plan)
       (secret_placeholders (plan_app demo_secret_plan)) 0 outs 2"
    "p' = demo_secret_plan\<lparr>resolved_values := resolved_values p',
        generated_values := generated_values demo_secret_plan @ map fst outs,
        shown_credentials := shown_credentials demo_secret_plan @ concat (map snd outs)\<rparr>"
    "map (\<lambda>ph. map_of (resolved_values p') (ph_name ph)) (secret_placeholders (plan_app demo_secret_plan))
        = map (Some \<circ> fst) outs" by blast
  have "generated_values p' = map fst outs"
    by (subst o(2)) (simp add: demo_secret_plan_def zero_plan_def)
  moreover have "length outs = 2" using arg_cong [OF o(3), of length] by (simp add: phs)
  ultimately show ?thesis using run o(1) unfolding phs by blast
qed

theorem plaintext_confined_witness:
  "same_run
     (generateInstallSecrets (Some (GenerateSecret counting_entropy)) (Some (demo_credential ''one'')) (demo_secret_plan, 0))
     (generateInstallSecrets (Some (GenerateSecret counting_entropy)) (Some (demo_credential ''two'')) (demo_secret_plan, 0))"
  by (rule plaintext_confined) (simp add: same_but_plaintext_def demo_credential_def)

end
