(* ===== verification/Redactor.thy ===== *)
theory Redactor
  imports Go_Strings
begin

text \<open>
  \<open>internal/security/active_redactor.go\<close>: the scrubber between a text and any log, error detail or
  screen. The regular expressions are modelled with the leftmost-first semantics of Go's \<open>regexp\<close>: the
  ends of the possible matches of an expression at a position, in order of preference.
\<close>

subsection \<open>Regular expressions\<close>

text \<open>A position of a text: the characters before it, nearest first, and the characters behind it.\<close>

type_synonym pos = "string \<times> string"

datatype rx =
    Eps
  | Class "char \<Rightarrow> bool"
  | Boundary
  | Seq rx rx
  | Alt rx rx
  | Star rx

definition word_char :: "char \<Rightarrow> bool" where
  "word_char c \<longleftrightarrow> is_upper c \<or> is_lower c \<or> is_digit c \<or> c = CHR ''_''"

definition at_boundary :: "pos \<Rightarrow> bool" where
  "at_boundary p \<longleftrightarrow>
     (fst p \<noteq> [] \<and> word_char (hd (fst p))) \<noteq> (snd p \<noteq> [] \<and> word_char (hd (snd p)))"

definition step_class :: "(char \<Rightarrow> bool) \<Rightarrow> pos \<Rightarrow> pos list" where
  "step_class f p = (case snd p of [] \<Rightarrow> [] | c # s \<Rightarrow> if f c then [(c # fst p, s)] else [])"

text \<open>Greedy repetition; every round consumes something, so the length of the rest bounds the rounds.\<close>

fun star_upto :: "nat \<Rightarrow> (pos \<Rightarrow> pos list) \<Rightarrow> pos \<Rightarrow> pos list" where
  "star_upto 0 f p = [p]"
| "star_upto (Suc n) f p =
     concat (map (star_upto n f) (filter (\<lambda>q. length (snd q) < length (snd p)) (f p))) @ [p]"

primrec matches :: "rx \<Rightarrow> pos \<Rightarrow> pos list" where
  "matches Eps p = [p]"
| "matches (Class f) p = step_class f p"
| "matches Boundary p = (if at_boundary p then [p] else [])"
| "matches (Seq a b) p = concat (map (matches b) (matches a p))"
| "matches (Alt a b) p = matches a p @ matches b p"
| "matches (Star a) p = star_upto (length (snd p)) (matches a) p"

definition Plus :: "rx \<Rightarrow> rx" where
  "Plus a = Seq a (Star a)"

definition Opt :: "rx \<Rightarrow> rx" where
  "Opt a = Alt a Eps"

text \<open>
  A letter under \<open>(?i)\<close>: both cases, and the two characters outside ASCII that fold to a letter
  (U+017F to s, U+212A to k).
\<close>

definition exactly :: "nat \<Rightarrow> rx" where
  "exactly n = Class (\<lambda>c. byte c = n)"

definition long_s :: rx where
  "long_s = Seq (exactly 197) (exactly 191)"

definition kelvin :: rx where
  "kelvin = Seq (exactly 226) (Seq (exactly 132) (exactly 170))"

definition letter :: "char \<Rightarrow> rx" where
  "letter l = (let plain = Class (\<lambda>c. lower_char c = l)
     in if l = CHR ''s'' then Alt plain long_s else if l = CHR ''k'' then Alt plain kelvin else plain)"

definition lit :: "char \<Rightarrow> rx" where
  "lit c = Class (\<lambda>d. d = c)"

fun seqs :: "rx list \<Rightarrow> rx" where
  "seqs [] = Eps"
| "seqs [r] = r"
| "seqs (r # s # rs) = Seq r (seqs (s # rs))"

fun alts :: "rx list \<Rightarrow> rx" where
  "alts [] = Class (\<lambda>c. False)"
| "alts [r] = r"
| "alts (r # s # rs) = Alt r (alts (s # rs))"

definition word :: "string \<Rightarrow> rx" where
  "word w = seqs (map letter w)"

definition space :: "char \<Rightarrow> bool" where
  "space c \<longleftrightarrow> byte c \<in> {9, 10, 12, 13, 32}"

definition ident_char :: rx where
  "ident_char = alts [Class word_char, long_s, kelvin]"

definition dash_or_underscore :: rx where
  "dash_or_underscore = Opt (Class (\<lambda>c. c = CHR ''_'' \<or> c = CHR ''-''))"

text \<open>The words that mark a secret, and the inside of a quoted JSON string.\<close>

definition secret_words :: rx where
  "secret_words = alts
     [word ''password'', word ''passwd'', word ''secret'', word ''token'',
      seqs [word ''api'', dash_or_underscore, word ''key''], word ''apikey'',
      seqs [word ''encryption'', dash_or_underscore, word ''key''],
      seqs [word ''signing'', dash_or_underscore, word ''key''],
      seqs [word ''private'', dash_or_underscore, word ''key''],
      seqs [word ''access'', dash_or_underscore, word ''key''],
      seqs [word ''auth'', Opt (word ''orization'')], word ''credential'']"

definition quoted_char :: rx where
  "quoted_char = Alt (Class (\<lambda>c. c \<noteq> CHR 0x22 \<and> c \<noteq> CHR 0x5C))
     (Seq (lit (CHR 0x5C)) (Class (\<lambda>c. byte c \<noteq> 10)))"

subsection \<open>The patterns\<close>

text \<open>
  A pattern matches a part it keeps, a part it drops and a part it keeps again; the replacement puts
  the placeholder where the dropped part was.
\<close>

record redaction_pattern =
  rx_keep :: rx
  rx_drop :: rx
  rx_tail :: rx

definition env_assignment :: redaction_pattern where
  "env_assignment = \<lparr>
     rx_keep = seqs [Boundary, Star ident_char, secret_words, Star (Class space), lit (CHR ''=''), Star (Class space)],
     rx_drop = alts
       [seqs [lit (CHR 0x22), Star (Class (\<lambda>c. c \<noteq> CHR 0x22)), lit (CHR 0x22)],
        seqs [lit (CHR 0x27), Star (Class (\<lambda>c. c \<noteq> CHR 0x27)), lit (CHR 0x27)],
        Plus (Class (\<lambda>c. \<not> space c))],
     rx_tail = Eps\<rparr>"

definition json_field :: redaction_pattern where
  "json_field = \<lparr>
     rx_keep = seqs [lit (CHR 0x22), Star quoted_char, secret_words, Star quoted_char, lit (CHR 0x22),
       Star (Class space), lit (CHR '':''), Star (Class space), lit (CHR 0x22)],
     rx_drop = Star quoted_char,
     rx_tail = lit (CHR 0x22)\<rparr>"

definition http_bearer :: redaction_pattern where
  "http_bearer = \<lparr>
     rx_keep = seqs [Boundary, word ''bearer'', Plus (Class space)],
     rx_drop = Plus (Class (\<lambda>c. \<not> space c)),
     rx_tail = Eps\<rparr>"

definition scheme_char :: rx where
  "scheme_char = alts [Class (\<lambda>c. is_upper c \<or> is_lower c \<or> is_digit c \<or> c = CHR ''+'' \<or> c = CHR ''.'' \<or> c = CHR ''-''),
     long_s, kelvin]"

definition url_credentials :: redaction_pattern where
  "url_credentials = \<lparr>
     rx_keep = seqs [Boundary, alts [Class (\<lambda>c. is_upper c \<or> is_lower c), long_s, kelvin], Star scheme_char,
       lit (CHR '':''), lit (CHR ''/''), lit (CHR ''/''),
       Plus (Class (\<lambda>c. c \<noteq> CHR ''/'' \<and> \<not> space c \<and> c \<noteq> CHR '':'' \<and> c \<noteq> CHR ''@'')), lit (CHR '':'')],
     rx_drop = Plus (Class (\<lambda>c. c \<noteq> CHR ''@'' \<and> c \<noteq> CHR ''/'' \<and> \<not> space c)),
     rx_tail = lit (CHR ''@'')\<rparr>"

definition defaultPatterns :: "redaction_pattern list" where
  "defaultPatterns = [env_assignment, json_field, http_bearer, url_credentials]"

definition RedactedPlaceholder :: string where
  "RedactedPlaceholder = ''[REDACTED]''"

definition pattern_matches :: "redaction_pattern \<Rightarrow> pos \<Rightarrow> (pos \<times> pos \<times> pos) list" where
  "pattern_matches r p =
     concat (map (\<lambda>q1. concat (map (\<lambda>q2. map (\<lambda>q3. (q1, q2, q3)) (matches (rx_tail r) q2))
       (matches (rx_drop r) q1))) (matches (rx_keep r) p))"

definition between :: "pos \<Rightarrow> pos \<Rightarrow> string" where
  "between p q = take (length (snd p) - length (snd q)) (snd p)"

text \<open>\<open>ReplaceAllString\<close>: the leftmost match, then on from its end.\<close>

function replace_all :: "redaction_pattern \<Rightarrow> pos \<Rightarrow> string" where
  "replace_all r p =
     (case snd p of
        [] \<Rightarrow> []
      | c # s \<Rightarrow>
          (case pattern_matches r p of
             (q1, q2, q3) # _ \<Rightarrow>
               (if length (snd q3) < length (snd p)
                then between p q1 @ RedactedPlaceholder @ between q2 q3 @ replace_all r q3
                else c # replace_all r (c # fst p, s))
           | [] \<Rightarrow> c # replace_all r (c # fst p, s)))"
  by pat_completeness auto
termination by (relation "measure (\<lambda>(r, p). length (snd p))") auto

declare replace_all.simps [simp del]

subsection \<open>Literal secrets\<close>

text \<open>Non-empty, without duplicates (the first one stays), longest first, stable on ties.\<close>

definition cleaned_secrets :: "string list \<Rightarrow> string list" where
  "cleaned_secrets secrets =
     sort_key (\<lambda>s. - int (length s)) (rev (remdups (rev (filter (\<lambda>s. s \<noteq> []) secrets))))"

text \<open>\<open>strings.Replacer\<close>: at each position the first old string that fits.\<close>

function replace_literals :: "string list \<Rightarrow> string \<Rightarrow> string" where
  "replace_literals olds s =
     (case s of
        [] \<Rightarrow> []
      | c # r \<Rightarrow>
          (case strip_any olds s of
             Some rest \<Rightarrow> RedactedPlaceholder @ replace_literals olds rest
           | None \<Rightarrow> c # replace_literals olds r))"
  by pat_completeness auto
termination by (relation "measure (\<lambda>(olds, s). length s)") (auto dest: strip_any_shorter)

declare replace_literals.simps [simp del]

definition Redact :: "string list \<Rightarrow> string \<Rightarrow> string" where
  "Redact secrets s =
     (if s = [] then s
      else foldl (\<lambda>out r. replace_all r ([], out)) (replace_literals (cleaned_secrets secrets) s) defaultPatterns)"

subsection \<open>Matches consume text from the front\<close>

definition ahead :: "pos \<Rightarrow> pos \<Rightarrow> bool" where
  "ahead p q \<longleftrightarrow> (\<exists>m. snd p = m @ snd q)"

lemma ahead_refl [simp]: "ahead p p"
  by (simp add: ahead_def)

lemma ahead_trans: "ahead p q \<Longrightarrow> ahead q r \<Longrightarrow> ahead p r"
  by (auto simp: ahead_def)

lemma star_ahead:
  assumes "\<And>p q. q \<in> set (f p) \<Longrightarrow> ahead p q"
  shows "q \<in> set (star_upto n f p) \<Longrightarrow> ahead p q"
proof (induction n arbitrary: p)
  case (Suc n)
  from Suc.prems consider "q = p" | q1 where "q1 \<in> set (f p)" "q \<in> set (star_upto n f q1)" by auto
  then show ?case
  proof cases
    case 2
    then show ?thesis using assms Suc.IH ahead_trans by blast
  qed simp
qed simp

lemma matches_ahead: "q \<in> set (matches r p) \<Longrightarrow> ahead p q"
proof (induction r arbitrary: p q)
  case (Class f)
  then obtain c s where "snd p = c # s" "q = (c # fst p, s)"
    by (cases "snd p") (auto simp: step_class_def split: if_splits)
  then show ?case unfolding ahead_def by (intro exI [of _ "[c]"]) simp
next
  case (Seq a b)
  then obtain q1 where "q1 \<in> set (matches a p)" "q \<in> set (matches b q1)" by auto
  with Seq.IH ahead_trans show ?case by blast
next
  case (Star a)
  then show ?case using star_ahead [of "matches a" q "length (snd p)" p] by auto
qed (auto split: if_splits)

lemma between_ahead: "ahead p q \<Longrightarrow> snd p = between p q @ snd q"
  by (auto simp: ahead_def between_def)

lemma pattern_matches_pieces:
  assumes "(q1, q2, q3) \<in> set (pattern_matches r p)"
  shows "\<exists>dropped. snd p = between p q1 @ dropped @ between q2 q3 @ snd q3"
proof -
  from assms have "ahead p q1" "ahead q1 q2" "ahead q2 q3"
    by (auto simp: pattern_matches_def dest: matches_ahead)
  then have "snd p = between p q1 @ snd q1" "snd q1 = between q1 q2 @ snd q2" "snd q2 = between q2 q3 @ snd q3"
    by (simp_all add: between_ahead)
  then have "snd p = between p q1 @ between q1 q2 @ between q2 q3 @ snd q3" by simp
  then show ?thesis by blast
qed

subsection \<open>Pieces\<close>

text \<open>
  The output of every pass is a list of pieces of its input with the placeholder between them; a piece
  is a run of characters that were copied one after the other.
\<close>

definition piece_of :: "string \<Rightarrow> string \<Rightarrow> bool" where
  "piece_of s t \<longleftrightarrow> (\<exists>a b. s = a @ t @ b)"

lemma piece_contains: "piece_of s t \<Longrightarrow> contains t w \<Longrightarrow> contains s w"
  unfolding piece_of_def contains_iff by (metis append.assoc)

lemma piece_grow: "piece_of s t \<Longrightarrow> piece_of (a @ s) t"
  unfolding piece_of_def by (metis append.assoc)

lemma join_Cons: "ts \<noteq> [] \<Longrightarrow> join_with sep (t # ts) = t @ sep @ join_with sep ts"
  by (cases ts) simp_all

lemma join_prepend: "x @ join_with sep (t # ts) = join_with sep ((x @ t) # ts)"
  by (cases ts) simp_all

lemma replace_all_pieces:
  "\<exists>t ts. replace_all r p = join_with RedactedPlaceholder (t # ts)
     \<and> (\<exists>b. snd p = t @ b) \<and> (\<forall>u \<in> set ts. piece_of (snd p) u)"
proof (induction "length (snd p)" arbitrary: p rule: less_induct)
  case less
  show ?case
  proof (cases "snd p")
    case Nil
    then show ?thesis by (intro exI [of _ "[]"]) (simp add: replace_all.simps)
  next
    case (Cons c s)
    have copy: ?thesis if run: "replace_all r p = c # replace_all r (c # fst p, s)"
      and IH: "\<exists>t ts. replace_all r (c # fst p, s) = join_with RedactedPlaceholder (t # ts)
        \<and> (\<exists>b. snd (c # fst p, s) = t @ b) \<and> (\<forall>u \<in> set ts. piece_of (snd (c # fst p, s)) u)"
    proof -
      from IH obtain t ts b where t: "replace_all r (c # fst p, s) = join_with RedactedPlaceholder (t # ts)"
        "s = t @ b" "\<forall>u \<in> set ts. piece_of s u" by auto
      have "replace_all r p = join_with RedactedPlaceholder ((c # t) # ts)"
        using join_prepend [of "[c]"] by (simp add: run t(1))
      moreover have "\<forall>u \<in> set ts. piece_of (snd p) u" using t(3) piece_grow [of s _ "[c]"] by (simp add: Cons)
      ultimately show ?thesis using t(2) Cons by (intro exI [of _ "c # t"] exI [of _ ts]) auto
    qed
    show ?thesis
    proof (cases "pattern_matches r p")
      case Nil
      with Cons have "replace_all r p = c # replace_all r (c # fst p, s)" by (subst replace_all.simps) simp
      then show ?thesis by (rule copy) (rule less, simp add: Cons)
    next
      case m: (Cons q qs)
      obtain q1 q2 q3 where q: "q = (q1, q2, q3)" by (cases q)
      show ?thesis
      proof (cases "length (snd q3) < length (snd p)")
        case False
        with Cons m q have "replace_all r p = c # replace_all r (c # fst p, s)" by (subst replace_all.simps) simp
        then show ?thesis by (rule copy) (rule less, simp add: Cons)
      next
        case True
        with Cons m q have run: "replace_all r p
            = between p q1 @ RedactedPlaceholder @ between q2 q3 @ replace_all r q3" by (subst replace_all.simps) simp
        from less [OF True] obtain t ts b where t:
          "replace_all r q3 = join_with RedactedPlaceholder (t # ts)" "snd q3 = t @ b"
          "\<forall>u \<in> set ts. piece_of (snd q3) u" by auto
        from m q pattern_matches_pieces [of q1 q2 q3 r p] obtain d where
          whole: "snd p = between p q1 @ d @ between q2 q3 @ snd q3" by auto
        have "replace_all r p = join_with RedactedPlaceholder (between p q1 # (between q2 q3 @ t) # ts)"
          by (simp add: run t(1) join_prepend)
        moreover have "piece_of (snd p) (between q2 q3 @ t)"
          unfolding piece_of_def by (intro exI [of _ "between p q1 @ d"] exI [of _ b]) (simp add: whole t(2))
        moreover have "piece_of (snd p) u" if "u \<in> set ts" for u
          using t(3) that piece_grow [of "snd q3" u "between p q1 @ d @ between q2 q3"] whole by auto
        ultimately show ?thesis using whole
          by (intro exI [of _ "between p q1"] exI [of _ "(between q2 q3 @ t) # ts"]) auto
      qed
    qed
  qed
qed

lemma replace_literals_pieces:
  "\<exists>t ts. replace_literals olds s = join_with RedactedPlaceholder (t # ts) \<and> (\<exists>b. s = t @ b)
     \<and> (\<forall>u \<in> set (t # ts). \<forall>w \<in> set olds. w \<noteq> [] \<longrightarrow> \<not> contains u w)"
proof (induction "length s" arbitrary: s rule: less_induct)
  case less
  show ?case
  proof (cases s)
    case Nil
    then show ?thesis by (intro exI [of _ "[]"]) (auto simp: replace_literals.simps)
  next
    case (Cons c r)
    show ?thesis
    proof (cases "strip_any olds s")
      case (Some rest)
      with less [OF strip_any_shorter [OF Some]] obtain t ts where t: "replace_literals olds rest = join_with RedactedPlaceholder (t # ts)"
        "\<forall>u \<in> set (t # ts). \<forall>w \<in> set olds. w \<noteq> [] \<longrightarrow> \<not> contains u w" by auto
      have "replace_literals olds s = join_with RedactedPlaceholder ([] # t # ts)"
        using Cons Some by (subst replace_literals.simps) (simp add: t(1))
      then show ?thesis using t(2) by (intro exI [of _ "[]"] exI [of _ "t # ts"]) auto
    next
      case None
      have "length r < length s" by (simp add: Cons)
      from less [OF this] obtain t ts b where t: "replace_literals olds r = join_with RedactedPlaceholder (t # ts)"
        "r = t @ b" "\<forall>u \<in> set (t # ts). \<forall>w \<in> set olds. w \<noteq> [] \<longrightarrow> \<not> contains u w" by auto
      have "replace_literals olds s = join_with RedactedPlaceholder ((c # t) # ts)"
        using Cons None join_prepend [of "[c]"] by (subst replace_literals.simps) (simp add: t(1))
      moreover have "\<not> contains (c # t) w" if w: "w \<in> set olds" "w \<noteq> []" for w
      proof
        assume "contains (c # t) w"
        then have "has_prefix (c # t) w" using t(3) w by auto
        then obtain x where "c # t = w @ x" by (auto simp: has_prefix_iff)
        then have "s = w @ x @ b" using Cons t(2) by (metis append.assoc append_Cons)
        then have "has_prefix s w" by simp
        with None w show False by (auto simp: strip_any_None)
      qed
      ultimately show ?thesis using t Cons by (intro exI [of _ "c # t"] exI [of _ ts]) auto
    qed
  qed
qed

subsection \<open>Nothing new appears\<close>

definition hidden_secret :: "string \<Rightarrow> bool" where
  "hidden_secret w \<longleftrightarrow> w \<noteq> [] \<and> CHR ''['' \<notin> set w \<and> CHR '']'' \<notin> set w \<and> \<not> contains ''REDACTED'' w"

lemma contains_across:
  assumes "contains (a @ c # b) w" "c \<notin> set w"
  shows "contains a w \<or> contains b w"
  using assms
proof (induction a)
  case Nil
  then show ?case by (cases w) auto
next
  case (Cons x a)
  from Cons.prems consider "has_prefix ((x # a) @ c # b) w" | "contains (a @ c # b) w" by auto
  then show ?case
  proof cases
    case 1
    then obtain r where r: "(x # a) @ c # b = w @ r" by (auto simp: has_prefix_iff)
    then have "\<exists>u. x # a = w @ u"
      using Cons.prems(2) by (auto simp: append_eq_append_conv2 Cons_eq_append_conv)
    then have "contains (x # a) w" unfolding contains_iff by (metis append_Nil)
    then show ?thesis by simp
  next
    case 2
    with Cons show ?thesis by auto
  qed
qed

lemma contains_join:
  assumes "hidden_secret w" "contains (join_with RedactedPlaceholder ts) w" "ts \<noteq> []"
  shows "\<exists>t \<in> set ts. contains t w"
  using assms(2,3)
proof (induction ts)
  case (Cons t ts)
  show ?case
  proof (cases "ts = []")
    case False
    have "join_with RedactedPlaceholder (t # ts)
        = t @ CHR ''['' # ''REDACTED'' @ CHR '']'' # join_with RedactedPlaceholder ts"
      by (simp add: join_Cons [OF False] RedactedPlaceholder_def)
    with Cons.prems(1) have "contains (t @ CHR ''['' # ''REDACTED'' @ CHR '']'' # join_with RedactedPlaceholder ts) w"
      by (simp only:)
    then have "contains t w \<or> contains (''REDACTED'' @ CHR '']'' # join_with RedactedPlaceholder ts) w"
      using assms(1) by (intro contains_across) (auto simp: hidden_secret_def)
    then have "contains t w \<or> contains (join_with RedactedPlaceholder ts) w"
      using assms(1) contains_across [of "''REDACTED''" "CHR '']''"] by (auto simp: hidden_secret_def)
    with Cons False show ?thesis by auto
  qed (use Cons in simp)
qed simp

lemma replace_all_hides:
  assumes "hidden_secret w" "\<not> contains (snd p) w"
  shows "\<not> contains (replace_all r p) w"
proof
  assume c: "contains (replace_all r p) w"
  obtain t ts b where t: "replace_all r p = join_with RedactedPlaceholder (t # ts)" "snd p = t @ b"
    "\<forall>u \<in> set ts. piece_of (snd p) u" using replace_all_pieces [of r p] by blast
  have "piece_of (snd p) t" using t(2) unfolding piece_of_def by (metis append_Nil)
  moreover from c t(1) contains_join [OF assms(1), of "t # ts"] obtain u where "u \<in> set (t # ts)" "contains u w"
    by auto
  ultimately show False using t(3) piece_contains assms(2) by auto
qed

lemma patterns_hide:
  "hidden_secret w \<Longrightarrow> \<not> contains out w \<Longrightarrow> \<not> contains (foldl (\<lambda>out r. replace_all r ([], out)) out rs) w"
  by (induction rs arbitrary: out) (auto simp: replace_all_hides)

lemma set_cleaned: "set (cleaned_secrets secrets) = set secrets - {[]}"
  by (auto simp: cleaned_secrets_def)

lemma literals_hide:
  assumes "hidden_secret w" "w \<in> set secrets"
  shows "\<not> contains (replace_literals (cleaned_secrets secrets) s) w"
proof
  assume c: "contains (replace_literals (cleaned_secrets secrets) s) w"
  have w: "w \<noteq> []" "w \<in> set (cleaned_secrets secrets)" using assms by (auto simp: hidden_secret_def set_cleaned)
  obtain t ts where t: "replace_literals (cleaned_secrets secrets) s = join_with RedactedPlaceholder (t # ts)"
    "\<forall>u \<in> set (t # ts). \<forall>v \<in> set (cleaned_secrets secrets). v \<noteq> [] \<longrightarrow> \<not> contains u v"
    using replace_literals_pieces [of "cleaned_secrets secrets" s] by blast
  with c contains_join [OF assms(1), of "t # ts"] w show False by auto
qed

lemma redact_hides_secret:
  assumes "hidden_secret w" "w \<in> set secrets"
  shows "\<not> contains (Redact secrets s) w"
  using assms patterns_hide literals_hide
  by (cases "s = []") (auto simp: Redact_def hidden_secret_def)


subsection \<open>What the patterns leave alone\<close>

text \<open>Every match of the expression consumes a character of the class.\<close>

primrec requires :: "rx \<Rightarrow> (char \<Rightarrow> bool) \<Rightarrow> bool" where
  "requires Eps f = False"
| "requires (Class g) f = (\<forall>c. g c \<longrightarrow> f c)"
| "requires Boundary f = False"
| "requires (Seq a b) f = (requires a f \<or> requires b f)"
| "requires (Alt a b) f = (requires a f \<and> requires b f)"
| "requires (Star a) f = False"

lemma requires_match:
  "requires r f \<Longrightarrow> q \<in> set (matches r p) \<Longrightarrow> \<exists>c \<in> set (snd p). f c"
proof (induction r arbitrary: p q)
  case (Class g)
  then show ?case by (cases "snd p") (auto simp: step_class_def split: if_splits)
next
  case (Seq a b)
  from Seq.prems(2) obtain q1 where q1: "q1 \<in> set (matches a p)" "q \<in> set (matches b q1)" by auto
  have "set (snd q1) \<subseteq> set (snd p)" using matches_ahead [OF q1(1)] by (auto simp: ahead_def)
  with Seq.IH Seq.prems(1) q1 show ?case by (metis requires.simps(4) subsetD)
qed auto

lemma replace_all_unchanged:
  assumes "requires (rx_keep r) f"
  shows "\<forall>c \<in> set (snd p). \<not> f c \<Longrightarrow> replace_all r p = snd p"
proof (induction "length (snd p)" arbitrary: p rule: less_induct)
  case less
  have "matches (rx_keep r) p = []"
  proof (rule ccontr)
    assume "matches (rx_keep r) p \<noteq> []"
    then obtain q where "q \<in> set (matches (rx_keep r) p)" by (cases "matches (rx_keep r) p") auto
    with requires_match [OF assms] less.prems show False by blast
  qed
  then have none: "pattern_matches r p = []" by (simp add: pattern_matches_def)
  show ?case
  proof (cases "snd p")
    case Nil
    then show ?thesis by (simp add: replace_all.simps)
  next
    case (Cons c s)
    with less have "replace_all r (c # fst p, s) = s" by simp
    with Cons none show ?thesis by (subst replace_all.simps) simp
  qed
qed

lemma default_requires:
  "requires (rx_keep env_assignment) (\<lambda>c. c = CHR ''='')"
  "requires (rx_keep json_field) (\<lambda>c. c = CHR '':'')"
  "requires (rx_keep http_bearer) (\<lambda>c. lower_char c = CHR ''b'')"
  "requires (rx_keep url_credentials) (\<lambda>c. c = CHR '':'')"
  by (simp_all add: env_assignment_def json_field_def http_bearer_def url_credentials_def lit_def
      word_def letter_def)

definition quiet :: "string \<Rightarrow> bool" where
  "quiet s \<longleftrightarrow> (\<forall>c \<in> set s. c \<noteq> CHR ''='' \<and> c \<noteq> CHR '':'' \<and> lower_char c \<noteq> CHR ''b'')"

lemma patterns_unchanged: "quiet s \<Longrightarrow> foldl (\<lambda>out r. replace_all r ([], out)) s defaultPatterns = s"
  using replace_all_unchanged [OF default_requires(1), of "([], s)"]
    replace_all_unchanged [OF default_requires(2), of "([], s)"]
    replace_all_unchanged [OF default_requires(3), of "([], s)"]
    replace_all_unchanged [OF default_requires(4), of "([], s)"]
  by (simp add: defaultPatterns_def quiet_def)

lemma literals_unchanged: "\<forall>w \<in> set olds. w \<noteq> [] \<longrightarrow> \<not> contains s w \<Longrightarrow> replace_literals olds s = s"
proof (induction s)
  case (Cons c s)
  have "strip_any olds (c # s) = None" using Cons.prems by (auto simp: strip_any_None)
  with Cons show ?case by (subst replace_literals.simps) auto
qed (simp add: replace_literals.simps)

lemma redact_unchanged:
  assumes "quiet s" "\<forall>w \<in> set secrets. w \<noteq> [] \<longrightarrow> \<not> contains s w"
  shows "Redact secrets s = s"
  using assms literals_unchanged [of "cleaned_secrets secrets" s]
  by (simp add: Redact_def patterns_unchanged set_cleaned)

subsection \<open>Redacted causes\<close>

text \<open>The message of \<open>newRedactedCause\<close>: the text of the cause, through the redactor when there is one.\<close>

definition newRedactedCause :: "string list option \<Rightarrow> string \<Rightarrow> string" where
  "newRedactedCause redactor cause = (case redactor of None \<Rightarrow> cause | Some secrets \<Rightarrow> Redact secrets cause)"

subsection \<open>Properties\<close>

text \<open>
  C18: no text that went through the redactor contains a registered secret, whatever the text is, for
  every secret that has no square bracket and is not itself a part of the word REDACTED. The condition is
  needed, because the placeholder [REDACTED] is put into the text: "RED" or "p[" can appear by it. Every
  secret that wdm generates satisfies it (lemma \<open>minted_hidden\<close> of \<open>Install_Render\<close>).
\<close>

theorem redaction_hides:
  assumes "w \<in> set secrets" "w \<noteq> []" "CHR ''['' \<notin> set w" "CHR '']'' \<notin> set w" "\<not> contains ''REDACTED'' w"
  shows "\<not> contains (newRedactedCause (Some secrets) s) w"
  using assms redact_hides_secret by (simp add: newRedactedCause_def hidden_secret_def)

theorem redaction_hides_witness:
  "\<not> contains (newRedactedCause (Some [''s3cret'']) ''PW=s3cret and s3crets3cret'') ''s3cret''"
  by (rule redaction_hides) simp_all

end
