(* ===== verification/Yaml_Tree.thy ===== *)
theory Yaml_Tree
  imports Compose_Yaml
begin

text \<open>
  A compose document as the node tree of gopkg.in/yaml.v3, which the code reads and edits through
  pointers: look-ups in mappings, and the assignment through the node a look-up returned.
\<close>

fun node_value :: "yaml_node \<Rightarrow> string" where
  "node_value (ScalarNode v) = v"
| "node_value (AliasNode v) = v"
| "node_value _ = []"

text \<open>The first value whose key has a property; and the mapping after an assignment to that value.\<close>

fun assoc_where :: "(yaml_node \<Rightarrow> bool) \<Rightarrow> (yaml_node \<times> yaml_node) list \<Rightarrow> yaml_node option" where
  "assoc_where P [] = None"
| "assoc_where P ((k, v) # kvs) = (if P k then Some v else assoc_where P kvs)"

fun update_where :: "(yaml_node \<Rightarrow> bool) \<Rightarrow> (yaml_node \<Rightarrow> yaml_node) \<Rightarrow> (yaml_node \<times> yaml_node) list
    \<Rightarrow> (yaml_node \<times> yaml_node) list" where
  "update_where P f [] = []"
| "update_where P f ((k, v) # kvs) = (if P k then (k, f v) # kvs else (k, v) # update_where P f kvs)"

lemma assoc_update_same: "assoc_where P (update_where P f kvs) = map_option f (assoc_where P kvs)"
  by (induction kvs) auto

lemma assoc_update_other: "(\<And>k. P k \<Longrightarrow> \<not> Q k) \<Longrightarrow> assoc_where Q (update_where P f kvs) = assoc_where Q kvs"
  by (induction kvs) auto

lemma assoc_update_scalar [simp]:
  "assoc_where (\<lambda>k. k = ScalarNode b) (update_where (\<lambda>k. k = ScalarNode a) f kvs) =
     (if a = b then map_option f (assoc_where (\<lambda>k. k = ScalarNode b) kvs)
      else assoc_where (\<lambda>k. k = ScalarNode b) kvs)"
  by (induction kvs) auto

lemma assoc_append:
  "assoc_where P (kvs @ kvs') = (case assoc_where P kvs of None \<Rightarrow> assoc_where P kvs' | Some v \<Rightarrow> Some v)"
  by (induction kvs) auto

lemma update_where_keys [simp]: "map fst (update_where P f kvs) = map fst kvs"
  by (induction kvs) auto

lemma assoc_where_None: "assoc_where P kvs = None \<longleftrightarrow> (\<forall>kv \<in> set kvs. \<not> P (fst kv))"
proof (induction kvs)
  case (Cons kv kvs)
  then show ?case by (cases kv) simp
qed simp

text \<open>\<open>yaml.Unmarshal\<close> into a node (an empty input gives a document without content) and the encoder.\<close>

record node_yaml =
  parse_doc :: "string \<Rightarrow> yaml_node option"
  encode_doc :: "yaml_node \<Rightarrow> string option"

text \<open>
  What the code relies on of the library: \<open>Unmarshal\<close> into a node gives a document with at most one
  content node, and a document the encoder writes reads back as the same tree.
\<close>

definition node_codec :: "node_yaml \<Rightarrow> bool" where
  "node_codec y \<longleftrightarrow>
     (\<forall>b d. parse_doc y b = Some d \<longrightarrow> d = DocumentNode [] \<or> (\<exists>n. d = DocumentNode [n]))
     \<and> (\<forall>n b. encode_doc y (DocumentNode [n]) = Some b \<longrightarrow> parse_doc y b = Some (DocumentNode [n]))"

lemma codec_parse: "node_codec y \<Longrightarrow> parse_doc y b = Some d \<Longrightarrow> d = DocumentNode [] \<or> (\<exists>n. d = DocumentNode [n])"
  by (simp add: node_codec_def)

lemma codec_encode:
  "node_codec y \<Longrightarrow> encode_doc y (DocumentNode [n]) = Some b \<Longrightarrow> parse_doc y b = Some (DocumentNode [n])"
  by (simp add: node_codec_def)

end
