(* ===== verification/Render.thy ===== *)
theory Render
  imports Yaml_Tree Leak_Check Go_Paths Install_Plan
begin

text \<open>
  The template renderer (\<open>internal/render\<close>): placeholder validation, the \<open>.env\<close> file, and the compose
  file with the ownership labels injected. \<open>text/template\<close> and the YAML library are arguments.
\<close>

subsection \<open>Input\<close>

text \<open>\<open>template.New(..).Option("missingkey=error").Parse(..)\<close> and \<open>Execute\<close> on the values.\<close>

datatype template_result = ParseFailed | ExecuteFailed | Executed string

type_synonym template_engine = "string \<Rightarrow> (string, string) gomap \<Rightarrow> template_result"

text \<open>\<open>AdditionalFile\<close> and \<open>ConfigArtifact\<close>, which have the same fields.\<close>

record file_template =
  ft_dest :: string
  ft_mode :: string
  ft_mount :: string
  ft_template :: string

record render_input =
  in_env_template :: string
  in_compose_template :: string
  in_placeholders :: "render_placeholder list"
  in_values :: "(string, string) gomap"
  in_app_id :: string
  in_additional_files :: "file_template list"
  in_config_generation :: "file_template list"

datatype render_reason =
    PlaceholderNameEmpty nat
  | PlaceholderTypeInvalid string string
  | PlaceholderNameDuplicate string
  | ResolutionMissing string
  | ResolutionExtraKey string
  | EnvTemplateParse
  | EnvTemplateExecute
  | ComposeTemplateParse
  | ComposeTemplateExecute
  | ComposeYAMLParse
  | ComposeYAMLEncode
  | ComposeServicesMissing
  | ServiceMissingLabel string
  | AdditionalFileMountMissing string string
  | AdditionalFileTemplateParse
  | AdditionalFileTemplateExecute
  | ConfigArtifactDestUnsafe string
  | ConfigArtifactMountMissing string string
  | ConfigArtifactTemplateParse
  | ConfigArtifactTemplateExecute

subsection \<open>Placeholder validation\<close>

definition type_is_valid :: "string \<Rightarrow> bool" where
  "type_is_valid t \<longleftrightarrow>
     t \<in> set [''string'', ''domain'', ''port'', ''secret'', ''timezone'', ''path'', ''bool'']"

fun validate_placeholders_from :: "nat \<Rightarrow> string list \<Rightarrow> render_placeholder list \<Rightarrow> render_reason option" where
  "validate_placeholders_from i seen [] = None"
| "validate_placeholders_from i seen (p # ps) =
     (if rp_name p = [] then Some (PlaceholderNameEmpty i)
      else if \<not> type_is_valid (rp_type p) then Some (PlaceholderTypeInvalid (rp_name p) (rp_type p))
      else if rp_name p \<in> set seen then Some (PlaceholderNameDuplicate (rp_name p))
      else validate_placeholders_from (Suc i) (rp_name p # seen) ps)"

definition ValidatePlaceholders :: "render_placeholder list \<Rightarrow> render_reason option" where
  "ValidatePlaceholders placeholders = validate_placeholders_from 0 [] placeholders"

definition ValidateResolution :: "render_placeholder list \<Rightarrow> (string, string) gomap \<Rightarrow> render_reason option" where
  "ValidateResolution placeholders resolved =
     or_else (first_err (\<lambda>p. refuse_if (rp_required p \<and> map_of resolved (rp_name p) = None)
                (ResolutionMissing (rp_name p))) placeholders)
             (first_err (\<lambda>k. refuse_if (k \<notin> rp_name ` set placeholders) (ResolutionExtraKey k))
                (sorted_keys resolved))"

subsection \<open>The env file\<close>

definition execute :: "template_engine \<Rightarrow> render_reason \<Rightarrow> render_reason \<Rightarrow> string \<Rightarrow> (string, string) gomap
    \<Rightarrow> render_reason + string" where
  "execute engine parse_error execute_error tmpl vs =
     (case engine tmpl vs of
        ParseFailed \<Rightarrow> Inl parse_error
      | ExecuteFailed \<Rightarrow> Inl execute_error
      | Executed s \<Rightarrow> Inr s)"

definition zero_stack :: rendered_stack where
  "zero_stack = \<lparr>compose_bytes = [], env_bytes = [], additional_files = [], config_artifacts = [],
     volume_mounts = [], service_labels = []\<rparr>"

definition validate_input :: "render_input \<Rightarrow> render_reason option" where
  "validate_input i = or_else (ValidatePlaceholders (in_placeholders i))
     (ValidateResolution (in_placeholders i) (in_values i))"

definition RenderEnv :: "template_engine \<Rightarrow> render_input \<Rightarrow> render_reason + rendered_stack" where
  "RenderEnv engine i =
     guardE (validate_input i)
       (bindE (execute engine EnvTemplateParse EnvTemplateExecute (in_env_template i) (in_values i))
         (\<lambda>s. Inr (zero_stack\<lparr>env_bytes := s\<rparr>)))"

subsection \<open>Labels\<close>

fun findMapValue :: "yaml_node \<Rightarrow> string \<Rightarrow> yaml_node option" where
  "findMapValue (MappingNode kvs) key = assoc_where (\<lambda>k. k = ScalarNode key) kvs"
| "findMapValue _ key = None"

text \<open>An existing entry is overwritten in place, a missing one is appended.\<close>

fun set_label :: "string \<Rightarrow> string \<Rightarrow> yaml_node \<Rightarrow> yaml_node" where
  "set_label key v (MappingNode kvs) =
     MappingNode (if assoc_where (\<lambda>k. k = ScalarNode key) kvs = None then kvs @ [(ScalarNode key, ScalarNode v)]
       else update_where (\<lambda>k. k = ScalarNode key) (\<lambda>_. ScalarNode v) kvs)"
| "set_label key v n = n"

fun injectLabel :: "string \<Rightarrow> string \<Rightarrow> yaml_node \<Rightarrow> yaml_node" where
  "injectLabel key v (MappingNode kvs) =
     MappingNode (case assoc_where (\<lambda>k. k = ScalarNode ''labels'') kvs of
        None \<Rightarrow> kvs @ [(ScalarNode ''labels'', set_label key v (MappingNode []))]
      | Some labels \<Rightarrow> update_where (\<lambda>k. k = ScalarNode ''labels'') (set_label key v) kvs)"
| "injectLabel key v n = n"

fun collect_entries :: "(string, string) gomap \<Rightarrow> (yaml_node \<times> yaml_node) list \<Rightarrow> (string, string) gomap" where
  "collect_entries m [] = m"
| "collect_entries m ((ScalarNode k, v) # kvs) = collect_entries (AList.update k (node_value v) m) kvs"
| "collect_entries m (kv # kvs) = collect_entries m kvs"

definition collectLabels :: "yaml_node \<Rightarrow> (string, string) gomap" where
  "collectLabels service =
     (case findMapValue service ''labels'' of Some (MappingNode kvs) \<Rightarrow> collect_entries [] kvs | _ \<Rightarrow> [])"

definition label_service :: "string \<Rightarrow> yaml_node \<Rightarrow> yaml_node" where
  "label_service appID service = injectLabel ''wdm.app'' appID (injectLabel ''wdm.managed'' ''true'' service)"

fun is_mapping :: "yaml_node \<Rightarrow> bool" where
  "is_mapping (MappingNode kvs) = True"
| "is_mapping _ = False"

definition label_step :: "string \<Rightarrow> (string, (string, string) gomap) gomap \<Rightarrow> yaml_node \<times> yaml_node
    \<Rightarrow> render_reason + (string, (string, string) gomap) gomap" where
  "label_step appID labelsByService kv =
     (if \<not> is_mapping (snd kv) then Inl ComposeServicesMissing
      else Inr (AList.update (node_value (fst kv)) (collectLabels (label_service appID (snd kv))) labelsByService))"

definition check_labels :: "string \<Rightarrow> (string, (string, string) gomap) gomap \<Rightarrow> (yaml_node \<times> yaml_node) list
    \<Rightarrow> render_reason option" where
  "check_labels appID labelsByService services =
     first_err (\<lambda>kv. let name = node_value (fst kv); labels = get_or [] labelsByService name
       in or_else (refuse_if (get_or [] labels ''wdm.managed'' \<noteq> ''true'') (ServiceMissingLabel name))
                  (refuse_if (get_or [] labels ''wdm.app'' \<noteq> appID) (ServiceMissingLabel name))) services"

subsection \<open>Mounts and sidecar files\<close>

fun scalar_values :: "yaml_node list \<Rightarrow> string list" where
  "scalar_values [] = []"
| "scalar_values (ScalarNode v # ns) = v # scalar_values ns"
| "scalar_values (n # ns) = scalar_values ns"

definition service_mounts :: "yaml_node \<Rightarrow> string list" where
  "service_mounts service =
     (case findMapValue service ''volumes'' of Some (SequenceNode ns) \<Rightarrow> scalar_values ns | _ \<Rightarrow> [])"

definition collectVolumeMounts :: "(yaml_node \<times> yaml_node) list \<Rightarrow> string list" where
  "collectVolumeMounts services = concat (map (service_mounts \<circ> snd) services)"

definition sortedVolumeMounts :: "(yaml_node \<times> yaml_node) list \<Rightarrow> string list" where
  "sortedVolumeMounts services = sort (remdups (collectVolumeMounts services))"

definition verify_mounts :: "(string \<Rightarrow> string \<Rightarrow> render_reason) \<Rightarrow> (yaml_node \<times> yaml_node) list
    \<Rightarrow> file_template list \<Rightarrow> render_reason option" where
  "verify_mounts missing services files =
     first_err (\<lambda>f. refuse_if (ft_mount f \<noteq> [] \<and> ft_mount f \<notin> set (collectVolumeMounts services))
       (missing (ft_dest f) (ft_mount f))) files"

definition render_file :: "template_engine \<Rightarrow> render_reason \<Rightarrow> render_reason \<Rightarrow> (string, string) gomap
    \<Rightarrow> rendered_file list \<Rightarrow> file_template \<Rightarrow> render_reason + rendered_file list" where
  "render_file engine parse_error execute_error vs acc f =
     bindE (execute engine parse_error execute_error (ft_template f) vs)
       (\<lambda>s. Inr (acc @ [\<lparr>file_dest = ft_dest f, file_mode = ft_mode f, file_bytes = s\<rparr>]))"

definition renderAdditionalFiles :: "template_engine \<Rightarrow> render_input \<Rightarrow> render_reason + rendered_file list" where
  "renderAdditionalFiles engine i =
     foldE (render_file engine AdditionalFileTemplateParse AdditionalFileTemplateExecute (in_values i)) []
       (in_additional_files i)"

definition configArtifactDestSafe :: "string \<Rightarrow> bool" where
  "configArtifactDestSafe dest \<longleftrightarrow> valid_path dest \<and> dest \<noteq> ''.''"

definition validateConfigArtifactDests :: "file_template list \<Rightarrow> render_reason option" where
  "validateConfigArtifactDests arts =
     first_err (\<lambda>a. refuse_if (\<not> configArtifactDestSafe (ft_dest a)) (ConfigArtifactDestUnsafe (ft_dest a))) arts"

definition renderConfigArtifacts :: "template_engine \<Rightarrow> render_input \<Rightarrow> render_reason + rendered_file list" where
  "renderConfigArtifacts engine i =
     foldE (render_file engine ConfigArtifactTemplateParse ConfigArtifactTemplateExecute (in_values i)) []
       (in_config_generation i)"

definition renderConfigGeneration :: "template_engine \<Rightarrow> (yaml_node \<times> yaml_node) list \<Rightarrow> render_input
    \<Rightarrow> render_reason + rendered_file list" where
  "renderConfigGeneration engine services i =
     guardE (validateConfigArtifactDests (in_config_generation i))
       (guardE (verify_mounts ConfigArtifactMountMissing services (in_config_generation i))
         (renderConfigArtifacts engine i))"

subsection \<open>The compose file\<close>

fun documentRoot :: "yaml_node \<Rightarrow> yaml_node option" where
  "documentRoot (DocumentNode []) = None"
| "documentRoot (DocumentNode (n # _)) = Some n"
| "documentRoot n = Some n"

fun set_root :: "yaml_node \<Rightarrow> yaml_node \<Rightarrow> yaml_node" where
  "set_root r (DocumentNode (n # ns)) = DocumentNode (r # ns)"
| "set_root r n = r"

text \<open>The services of a document; the second argument is the tree of the whole document.\<close>

definition compose_services :: "yaml_node \<Rightarrow> render_reason + (yaml_node \<times> yaml_node) list" where
  "compose_services doc =
     (case documentRoot doc of
        Some (MappingNode kvs) \<Rightarrow>
          (case findMapValue (MappingNode kvs) ''services'' of
             Some (MappingNode services) \<Rightarrow> Inr services
           | _ \<Rightarrow> Inl ComposeServicesMissing)
      | _ \<Rightarrow> Inl ComposeServicesMissing)"

definition label_services :: "string \<Rightarrow> (yaml_node \<times> yaml_node) list \<Rightarrow> (yaml_node \<times> yaml_node) list" where
  "label_services appID services = map (\<lambda>(k, v). (k, label_service appID v)) services"

definition label_document :: "string \<Rightarrow> yaml_node \<Rightarrow> yaml_node" where
  "label_document appID doc =
     (case documentRoot doc of
        Some (MappingNode kvs) \<Rightarrow>
          (case findMapValue (MappingNode kvs) ''services'' of
             Some (MappingNode services) \<Rightarrow>
               set_root (MappingNode (update_where (\<lambda>k. k = ScalarNode ''services'')
                  (\<lambda>_. MappingNode (label_services appID services)) kvs)) doc
           | _ \<Rightarrow> doc)
      | _ \<Rightarrow> doc)"

definition RenderLabels :: "template_engine \<Rightarrow> node_yaml \<Rightarrow> render_input \<Rightarrow> render_reason + rendered_stack" where
  "RenderLabels engine y i =
     guardE (validate_input i)
    (bindE (execute engine ComposeTemplateParse ComposeTemplateExecute (in_compose_template i) (in_values i)) (\<lambda>rendered.
     (case parse_doc y rendered of
        None \<Rightarrow> Inl ComposeYAMLParse
      | Some doc \<Rightarrow>
     bindE (compose_services doc) (\<lambda>services.
     bindE (foldE (label_step (in_app_id i)) [] services) (\<lambda>labelsByService.
     guardE (check_labels (in_app_id i) labelsByService services)
    (guardE (verify_mounts AdditionalFileMountMissing (label_services (in_app_id i) services) (in_additional_files i))
    (bindE (renderAdditionalFiles engine i) (\<lambda>additionalFiles.
     bindE (renderConfigGeneration engine (label_services (in_app_id i) services) i) (\<lambda>configArtifacts.
     (case encode_doc y (label_document (in_app_id i) doc) of
        None \<Rightarrow> Inl ComposeYAMLEncode
      | Some out \<Rightarrow>
          Inr (zero_stack\<lparr>compose_bytes := out, additional_files := additionalFiles,
            config_artifacts := configArtifacts, service_labels := labelsByService,
            volume_mounts := sortedVolumeMounts (label_services (in_app_id i) services)\<rparr>)))))))))))"

subsection \<open>What a validated input is\<close>

lemma validate_placeholders_None:
  "validate_placeholders_from i seen ps = None \<longleftrightarrow>
     (\<forall>p \<in> set ps. rp_name p \<noteq> [] \<and> type_is_valid (rp_type p) \<and> rp_name p \<notin> set seen)
     \<and> distinct (map rp_name ps)"
  by (induction i seen ps rule: validate_placeholders_from.induct) (auto simp: image_iff)

lemma validate_input_None:
  "validate_input i = None \<longleftrightarrow>
     (\<forall>p \<in> set (in_placeholders i). rp_name p \<noteq> [] \<and> type_is_valid (rp_type p))
     \<and> distinct (map rp_name (in_placeholders i))
     \<and> rp_name ` {p \<in> set (in_placeholders i). rp_required p} \<subseteq> keys_of (in_values i)
     \<and> keys_of (in_values i) \<subseteq> rp_name ` set (in_placeholders i)"
  by (auto simp: validate_input_def ValidatePlaceholders_def ValidateResolution_def err_simps
      validate_placeholders_None keys_of_iff)

text \<open>
  The renderer accepts an input exactly when its placeholders have distinct non-empty names and
  known types, every required one has a value, and no value is for an undeclared one.
\<close>

lemma render_input_exact:
  "(\<exists>stack. RenderEnv engine i = Inr stack) \<longleftrightarrow>
     (\<forall>p \<in> set (in_placeholders i). rp_name p \<noteq> [] \<and> type_is_valid (rp_type p))
     \<and> distinct (map rp_name (in_placeholders i))
     \<and> rp_name ` {p \<in> set (in_placeholders i). rp_required p} \<subseteq> keys_of (in_values i)
     \<and> keys_of (in_values i) \<subseteq> rp_name ` set (in_placeholders i)
     \<and> (\<exists>out. engine (in_env_template i) (in_values i) = Executed out)"
proof -
  have "(\<exists>stack. RenderEnv engine i = Inr stack) \<longleftrightarrow> validate_input i = None
      \<and> (\<exists>out. engine (in_env_template i) (in_values i) = Executed out)"
    by (auto simp: RenderEnv_def err_simps execute_def split: template_result.splits)
  then show ?thesis unfolding validate_input_None by blast
qed

subsection \<open>A concrete render\<close>

definition demo_engine :: template_engine where
  "demo_engine tmpl vs = Executed tmpl"

definition demo_tree :: "(yaml_node \<times> yaml_node) list \<Rightarrow> yaml_node" where
  "demo_tree labels = DocumentNode [MappingNode [(ScalarNode ''services'', MappingNode
     [(ScalarNode ''web'', MappingNode ((ScalarNode ''volumes'', SequenceNode [ScalarNode ''./conf:/conf'']) # labels))])]]"

definition demo_labels :: "(yaml_node \<times> yaml_node) list" where
  "demo_labels = [(ScalarNode ''labels'', MappingNode
     [(ScalarNode ''wdm.managed'', ScalarNode ''true''), (ScalarNode ''wdm.app'', ScalarNode ''demo'')])]"

definition demo_nodes :: node_yaml where
  "demo_nodes = \<lparr>
     parse_doc = (\<lambda>b. if b = ''plain'' then Some (demo_tree [])
       else if b = ''labelled'' then Some (demo_tree demo_labels) else None),
     encode_doc = (\<lambda>d. if d = demo_tree demo_labels then Some ''labelled'' else None)\<rparr>"

definition demo_input :: render_input where
  "demo_input = \<lparr>in_env_template = ''UID=1000'', in_compose_template = ''plain'',
     in_placeholders = [\<lparr>rp_name = ''UID'', rp_type = ''string'', rp_required = True, rp_default = None,
       rp_regenerable = None\<rparr>],
     in_values = [(''UID'', ''1000'')], in_app_id = ''demo'', in_additional_files = [],
     in_config_generation = [\<lparr>ft_dest = ''conf/app.ini'', ft_mode = ''0644'', ft_mount = ''./conf:/conf'',
       ft_template = ''[app]''\<rparr>]\<rparr>"

definition demo_rendered :: rendered_stack where
  "demo_rendered = zero_stack\<lparr>compose_bytes := ''labelled'',
     config_artifacts := [\<lparr>file_dest = ''conf/app.ini'', file_mode = ''0644'', file_bytes = ''[app]''\<rparr>],
     service_labels := [(''web'', [(''wdm.managed'', ''true''), (''wdm.app'', ''demo'')])],
     volume_mounts := [''./conf:/conf'']\<rparr>"

lemma demo_nodes_ok: "node_codec demo_nodes"
  by (auto simp: node_codec_def demo_nodes_def demo_tree_def)

lemma demo_dest: "configArtifactDestSafe ''conf/app.ini''"
  unfolding configArtifactDestSafe_def valid_path_def valid_utf8_def
  by (intro conjI utf8_ascii) (simp_all add: byte_def)

lemma demo_input_ok: "validate_input demo_input = None"
  by (auto simp: validate_input_None demo_input_def type_is_valid_def keys_of_def)

lemma demo_label_service:
  "label_service ''demo'' (MappingNode [(ScalarNode ''volumes'', n)]) =
     MappingNode ((ScalarNode ''volumes'', n) # demo_labels)"
  by (simp add: label_service_def demo_labels_def)

lemma demo_collect:
  "collectLabels (MappingNode ((ScalarNode ''volumes'', n) # demo_labels)) =
     [(''wdm.managed'', ''true''), (''wdm.app'', ''demo'')]"
  by (simp add: collectLabels_def demo_labels_def)

lemma demo_render_for:
  assumes "validate_input i = None" "in_compose_template i = ''plain''" "in_app_id i = ''demo''"
    "in_additional_files i = []" "in_config_generation i = in_config_generation demo_input"
  shows "RenderLabels demo_engine demo_nodes i = Inr demo_rendered"
proof -
  have doc: "parse_doc demo_nodes ''plain'' = Some (demo_tree [])"
    "encode_doc demo_nodes (demo_tree demo_labels) = Some ''labelled''"
    by (simp_all add: demo_nodes_def)
  have svc: "compose_services (demo_tree []) =
      Inr [(ScalarNode ''web'', MappingNode [(ScalarNode ''volumes'', SequenceNode [ScalarNode ''./conf:/conf''])])]"
    by (simp add: compose_services_def demo_tree_def)
  have lab: "label_document ''demo'' (demo_tree []) = demo_tree demo_labels"
    by (simp add: label_document_def demo_tree_def label_services_def demo_label_service)
  show ?thesis
    unfolding RenderLabels_def assms(1)
    by (simp add: assms(2-) demo_input_def demo_engine_def execute_def doc svc lab label_step_def demo_label_service
        demo_collect check_labels_def get_or_def refuse_if_def or_else_def Let_def
        verify_mounts_def renderAdditionalFiles_def renderConfigGeneration_def validateConfigArtifactDests_def
        demo_dest renderConfigArtifacts_def render_file_def label_services_def collectVolumeMounts_def
        service_mounts_def sortedVolumeMounts_def demo_rendered_def zero_stack_def)
qed

lemma demo_render: "RenderLabels demo_engine demo_nodes demo_input = Inr demo_rendered"
  by (rule demo_render_for [OF demo_input_ok]) (simp_all add: demo_input_def)

lemma render_input_exact_witness: "\<exists>stack. RenderEnv demo_engine demo_input = Inr stack"
  unfolding render_input_exact by (auto simp: demo_input_def type_is_valid_def keys_of_def demo_engine_def)

subsection \<open>Label injection\<close>

definition labelled :: "string \<Rightarrow> yaml_node \<Rightarrow> bool" where
  "labelled appID service \<longleftrightarrow> (\<exists>l. findMapValue service ''labels'' = Some l \<and> is_mapping l
     \<and> findMapValue l ''wdm.managed'' = Some (ScalarNode ''true'')
     \<and> findMapValue l ''wdm.app'' = Some (ScalarNode appID))"

lemma set_label_find:
  "is_mapping n \<Longrightarrow> findMapValue (set_label key v n) k =
     (if k = key then Some (ScalarNode v) else findMapValue n k)"
  by (cases n) (auto simp: assoc_append assoc_update_same assoc_update_other split: option.splits)

lemma set_label_mapping [simp]: "is_mapping (set_label key v n) = is_mapping n"
  by (cases n) auto

lemma set_label_other [simp]: "\<not> is_mapping n \<Longrightarrow> set_label key v n = n"
  by (cases n) auto

lemma inject_mapping [simp]: "is_mapping (injectLabel key v n) = is_mapping n"
  by (cases n) auto

lemma inject_find:
  assumes "is_mapping n"
  shows "findMapValue (injectLabel key v n) k =
    (if k = ''labels'' then Some (set_label key v (case findMapValue n ''labels'' of
        None \<Rightarrow> MappingNode [] | Some l \<Rightarrow> l))
     else findMapValue n k)"
  using assms
  by (cases n) (auto simp: assoc_append assoc_update_same assoc_update_other split: option.splits)

lemma label_service_mapping [simp]: "is_mapping (label_service appID n) = is_mapping n"
  by (simp add: label_service_def)

lemma label_service_find:
  assumes "is_mapping n"
  shows "findMapValue (label_service appID n) k =
    (if k = ''labels'' then Some (set_label ''wdm.app'' appID (set_label ''wdm.managed'' ''true''
        (case findMapValue n ''labels'' of None \<Rightarrow> MappingNode [] | Some l \<Rightarrow> l)))
     else findMapValue n k)"
  using assms by (simp add: label_service_def inject_find)

lemma label_service_labelled:
  assumes "is_mapping n" "case findMapValue n ''labels'' of None \<Rightarrow> True | Some l \<Rightarrow> is_mapping l"
  shows "labelled appID (label_service appID n)"
  using assms by (auto simp: labelled_def label_service_find set_label_find split: option.splits)

lemma collect_other:
  assumes "is_mapping n" "findMapValue n ''labels'' = Some l" "\<not> is_mapping l"
  shows "collectLabels (label_service appID n) = []"
  using assms by (cases l) (auto simp: collectLabels_def label_service_find)

lemma update_where_id:
  "assoc_where P kvs = Some v \<Longrightarrow> f v = v \<Longrightarrow> update_where P f kvs = kvs"
  by (induction kvs) (auto split: if_splits)

lemma set_label_idem: "findMapValue n key = Some (ScalarNode v) \<Longrightarrow> set_label key v n = n"
  by (cases n) (auto intro: update_where_id)

lemma inject_idem:
  assumes "findMapValue n ''labels'' = Some l" "set_label key v l = l"
  shows "injectLabel key v n = n"
  using assms by (cases n) (auto intro: update_where_id)

lemma label_service_idem: "label_service appID (label_service appID n) = label_service appID n"
proof (cases "is_mapping n")
  case True
  let ?n = "label_service appID n"
  obtain l where l: "findMapValue ?n ''labels'' = Some l"
    "l = set_label ''wdm.app'' appID (set_label ''wdm.managed'' ''true''
        (case findMapValue n ''labels'' of None \<Rightarrow> MappingNode [] | Some l \<Rightarrow> l))"
    using True by (simp add: label_service_find)
  have "set_label ''wdm.managed'' ''true'' l = l \<and> set_label ''wdm.app'' appID l = l"
  proof (cases "is_mapping l")
    case True
    with l(2) have m: "is_mapping (case findMapValue n ''labels'' of None \<Rightarrow> MappingNode [] | Some l \<Rightarrow> l)"
      by simp
    have "findMapValue l ''wdm.managed'' = Some (ScalarNode ''true'')"
      "findMapValue l ''wdm.app'' = Some (ScalarNode appID)"
      unfolding l(2) using m by (simp_all add: set_label_find)
    then show ?thesis by (simp add: set_label_idem)
  qed simp
  then have "injectLabel ''wdm.managed'' ''true'' ?n = ?n" "injectLabel ''wdm.app'' appID ?n = ?n"
    using inject_idem [OF l(1)] by auto
  then show ?thesis by (subst label_service_def) simp
next
  case False
  then show ?thesis by (cases n) (simp_all add: label_service_def)
qed

text \<open>
  Injecting the ownership labels changes nothing else and is idempotent: every other entry of a
  service keeps its value, and rendering labels over labels is the same as once.
\<close>

lemma label_injection_idempotent:
  "label_service appID (label_service appID service) = label_service appID service
   \<and> (\<forall>key. key = ''labels'' \<or> findMapValue (label_service appID service) key = findMapValue service key)"
proof -
  have "findMapValue (label_service appID service) key = findMapValue service key" if "key \<noteq> ''labels''" for key
    by (cases "is_mapping service")
      (use that in \<open>simp add: label_service_find\<close>, cases service, simp_all add: label_service_def)
  then show ?thesis using label_service_idem by blast
qed

subsection \<open>The rendered compose\<close>

lemma label_step_Inr [simp]:
  "label_step appID m kv = Inr m' \<longleftrightarrow> is_mapping (snd kv)
     \<and> m' = AList.update (node_value (fst kv)) (collectLabels (label_service appID (snd kv))) m"
  by (auto simp: label_step_def)

lemma label_fold_keeps:
  "foldE (label_step appID) m services = Inr m' \<Longrightarrow> k \<notin> (node_value \<circ> fst) ` set services
     \<Longrightarrow> map_of m' k = map_of m k"
  by (induction services arbitrary: m) (fastforce simp: err_simps map_of_update)+

lemma label_fold_last:
  assumes "foldE (label_step appID) m (pre @ kv # post) = Inr m'"
    "node_value (fst kv) \<notin> (node_value \<circ> fst) ` set post"
  shows "is_mapping (snd kv)
    \<and> map_of m' (node_value (fst kv)) = Some (collectLabels (label_service appID (snd kv)))"
  using assms
proof (induction pre arbitrary: m)
  case Nil
  then have "is_mapping (snd kv)"
    "foldE (label_step appID) (AList.update (node_value (fst kv)) (collectLabels (label_service appID (snd kv))) m) post = Inr m'"
    by (auto simp: err_simps)
  with label_fold_keeps [OF this(2) Nil(2)] show ?case by simp
qed (auto simp: err_simps)

lemma label_fold_keys:
  "foldE (label_step appID) m services = Inr m' \<Longrightarrow>
     keys_of m' = keys_of m \<union> (node_value \<circ> fst) ` set services \<and> (\<forall>kv \<in> set services. is_mapping (snd kv))"
  by (induction services arbitrary: m) (auto simp: err_simps)

lemma services_labelled:
  assumes "foldE (label_step appID) [] services = Inr m" "check_labels appID m services = None"
    and "services = pre @ kv # post"
  shows "labelled appID (label_service appID (snd kv))
    \<or> node_value (fst kv) \<in> (node_value \<circ> fst) ` set post
      \<and> (\<exists>l. findMapValue (label_service appID (snd kv)) ''labels'' = Some l \<and> \<not> is_mapping l)"
proof -
  have kv: "is_mapping (snd kv)" using label_fold_keys [OF assms(1)] assms(3) by auto
  have old: "findMapValue (snd kv) ''labels'' = Some l \<Longrightarrow> \<not> is_mapping l
      \<Longrightarrow> findMapValue (label_service appID (snd kv)) ''labels'' = Some l" for l
    using kv by (cases l) (simp_all add: label_service_find)
  have mapped: ?thesis if "\<And>l. findMapValue (snd kv) ''labels'' = Some l \<Longrightarrow> is_mapping l"
    using label_service_labelled [OF kv, of appID] that by (auto split: option.splits)
  show ?thesis
  proof (cases "node_value (fst kv) \<in> (node_value \<circ> fst) ` set post")
    case True
    then show ?thesis using mapped old by blast
  next
    case False
    from label_fold_last [OF assms(1) [unfolded assms(3)] False]
    have "map_of m (node_value (fst kv)) = Some (collectLabels (label_service appID (snd kv)))" by simp
    moreover have "get_or [] (get_or [] m (node_value (fst kv))) ''wdm.managed'' = ''true''"
      using assms(2,3) by (auto simp: check_labels_def err_simps Let_def)
    ultimately have "collectLabels (label_service appID (snd kv)) \<noteq> []"
      by (auto simp: get_or_def split: option.splits)
    with collect_other [OF kv] mapped show ?thesis by blast
  qed
qed

lemma compose_services_root:
  assumes "compose_services doc = Inr services" "doc = DocumentNode [] \<or> (\<exists>n. doc = DocumentNode [n])"
  shows "\<exists>n. label_document appID doc = DocumentNode [n]"
    and "compose_services (label_document appID doc) = Inr (label_services appID services)"
proof -
  from assms obtain kvs where doc: "doc = DocumentNode [MappingNode kvs]"
    "assoc_where (\<lambda>k. k = ScalarNode ''services'') kvs = Some (MappingNode services)"
    by (auto simp: compose_services_def split: option.splits yaml_node.splits)
  then show "\<exists>n. label_document appID doc = DocumentNode [n]"
    and "compose_services (label_document appID doc) = Inr (label_services appID services)"
    by (simp_all add: label_document_def compose_services_def assoc_update_same)
qed

lemma RenderLabels_Inr:
  assumes "RenderLabels engine y i = Inr stack"
  obtains rendered doc services additional config out where
    "engine (in_compose_template i) (in_values i) = Executed rendered" "parse_doc y rendered = Some doc"
    "compose_services doc = Inr services"
    "foldE (label_step (in_app_id i)) [] services = Inr (service_labels stack)"
    "check_labels (in_app_id i) (service_labels stack) services = None"
    "verify_mounts AdditionalFileMountMissing (label_services (in_app_id i) services) (in_additional_files i) = None"
    "renderAdditionalFiles engine i = Inr (additional_files stack)"
    "renderConfigGeneration engine (label_services (in_app_id i) services) i = Inr (config_artifacts stack)"
    "encode_doc y (label_document (in_app_id i) doc) = Some (compose_bytes stack)"
    "volume_mounts stack = sortedVolumeMounts (label_services (in_app_id i) services)"
  using assms
  by (auto simp: RenderLabels_def err_simps execute_def zero_stack_def
      split: template_result.splits option.splits)

lemma labels_read_back:
  assumes "node_codec y" "RenderLabels engine y i = Inr stack"
  shows "\<exists>doc services. parse_doc y (compose_bytes stack) = Some doc \<and> compose_services doc = Inr services
    \<and> (node_value \<circ> fst) ` set services = keys_of (service_labels stack)
    \<and> (\<forall>kv \<in> set services. is_mapping (snd kv))
    \<and> (\<forall>pre kv post. services = pre @ kv # post \<longrightarrow> labelled (in_app_id i) (snd kv)
          \<or> node_value (fst kv) \<in> (node_value \<circ> fst) ` set post
            \<and> (\<exists>l. findMapValue (snd kv) ''labels'' = Some l \<and> \<not> is_mapping l))"
proof -
  from RenderLabels_Inr [OF assms(2)] obtain rendered doc services where r:
    "parse_doc y rendered = Some doc" "compose_services doc = Inr services"
    "foldE (label_step (in_app_id i)) [] services = Inr (service_labels stack)"
    "check_labels (in_app_id i) (service_labels stack) services = None"
    "encode_doc y (label_document (in_app_id i) doc) = Some (compose_bytes stack)" by metis
  note root = compose_services_root [OF r(2) codec_parse [OF assms(1) r(1)], of "in_app_id i"]
  have parse: "parse_doc y (compose_bytes stack) = Some (label_document (in_app_id i) doc)"
    using codec_encode [OF assms(1)] root(1) r(5) by metis
  have names: "map (node_value \<circ> fst) (label_services (in_app_id i) services) = map (node_value \<circ> fst) services"
    by (simp add: label_services_def case_prod_unfold)
  have "\<forall>kv \<in> set (label_services (in_app_id i) services). is_mapping (snd kv)"
    using label_fold_keys [OF r(3)] by (auto simp: label_services_def)
  moreover have "labelled (in_app_id i) (snd kv)
      \<or> node_value (fst kv) \<in> (node_value \<circ> fst) ` set post
        \<and> (\<exists>l. findMapValue (snd kv) ''labels'' = Some l \<and> \<not> is_mapping l)"
    if split: "label_services (in_app_id i) services = pre @ kv # post" for pre kv post
  proof -
    from split obtain pre' kv' post' where "services = pre' @ kv' # post'"
      "kv = (fst kv', label_service (in_app_id i) (snd kv'))"
      "post = label_services (in_app_id i) post'"
      by (auto simp: label_services_def map_eq_append_conv map_eq_Cons_conv case_prod_unfold)
    with services_labelled [OF r(3,4) this(1)] show ?thesis
      by (auto simp: label_services_def image_image case_prod_unfold)
  qed
  moreover have "(node_value \<circ> fst) ` set (label_services (in_app_id i) services) = keys_of (service_labels stack)"
    using label_fold_keys [OF r(3)] names by (metis keys_of_Nil list.set_map sup_bot_left)
  ultimately show ?thesis using parse root(2) names by metis
qed

text \<open>
  C12: Every service wdm deploys carries its ownership labels. A rendered compose reads back as a
  document whose services are mappings, each with a labels mapping that says wdm.managed is true and
  wdm.app is the app; and the label snapshot names exactly the services of the document. The one
  exception is spelled out: of two entries with the same service name (which Compose rejects) the
  check only sees the later one, so the earlier may keep a labels block that is not a mapping.
\<close>

theorem labels_enforced:
  assumes "node_codec y" "RenderLabels engine y i = Inr stack"
  shows "\<exists>doc services. parse_doc y (compose_bytes stack) = Some doc \<and> compose_services doc = Inr services
    \<and> (node_value \<circ> fst) ` set services = keys_of (service_labels stack)
    \<and> (\<forall>kv \<in> set services. is_mapping (snd kv))
    \<and> (\<forall>pre kv post. services = pre @ kv # post \<longrightarrow> labelled (in_app_id i) (snd kv)
          \<or> node_value (fst kv) \<in> (node_value \<circ> fst) ` set post
            \<and> (\<exists>l. findMapValue (snd kv) ''labels'' = Some l \<and> \<not> is_mapping l))"
  by (rule labels_read_back [OF assms])

theorem labels_enforced_witness:
  "\<exists>doc services. parse_doc demo_nodes ''labelled'' = Some doc \<and> compose_services doc = Inr services
    \<and> (node_value \<circ> fst) ` set services = {''web''} \<and> (\<forall>kv \<in> set services. is_mapping (snd kv))
    \<and> (\<forall>pre kv post. services = pre @ kv # post \<longrightarrow> labelled ''demo'' (snd kv)
          \<or> node_value (fst kv) \<in> (node_value \<circ> fst) ` set post
            \<and> (\<exists>l. findMapValue (snd kv) ''labels'' = Some l \<and> \<not> is_mapping l))"
  using labels_enforced [OF demo_nodes_ok demo_render]
  by (simp add: demo_rendered_def zero_stack_def keys_of_def demo_input_def)

subsection \<open>Files\<close>

lemma render_files:
  "foldE (render_file engine pe ee vs) acc files = Inr out \<Longrightarrow>
     map file_dest out = map file_dest acc @ map ft_dest files
     \<and> map file_mode out = map file_mode acc @ map ft_mode files"
  by (induction files arbitrary: acc) (auto simp: render_file_def err_simps)

text \<open>
  C13: Generated files stay in the stack. Under an absolute stack directory, every configuration
  artifact of a rendered stack has a destination strictly below that directory, and every file the
  catalog wants mounted is a volume of some service.
\<close>

theorem artifacts_contained:
  assumes "RenderLabels engine y i = Inr stack" "is_abs d"
  shows "(\<forall>f \<in> set (config_artifacts stack). \<exists>rel. rel \<noteq> [] \<and>
            clean_abs (path_join d (file_dest f)) = clean_abs d @ rel)
    \<and> (\<forall>f \<in> set (in_additional_files i) \<union> set (in_config_generation i).
            ft_mount f \<noteq> [] \<longrightarrow> ft_mount f \<in> set (volume_mounts stack))"
proof -
  from RenderLabels_Inr [OF assms(1)] obtain services where r:
    "verify_mounts AdditionalFileMountMissing services (in_additional_files i) = None"
    "renderConfigGeneration engine services i = Inr (config_artifacts stack)"
    "volume_mounts stack = sortedVolumeMounts services" by metis
  from r(2) have c: "validateConfigArtifactDests (in_config_generation i) = None"
    "verify_mounts ConfigArtifactMountMissing services (in_config_generation i) = None"
    "renderConfigArtifacts engine i = Inr (config_artifacts stack)"
    by (auto simp: renderConfigGeneration_def err_simps)
  from render_files [OF c(3) [unfolded renderConfigArtifacts_def]]
  have dests: "map file_dest (config_artifacts stack) = map ft_dest (in_config_generation i)" by simp
  have "\<exists>rel. rel \<noteq> [] \<and> clean_abs (path_join d (file_dest f)) = clean_abs d @ rel"
    if "f \<in> set (config_artifacts stack)" for f
  proof -
    from that dests have "file_dest f \<in> ft_dest ` set (in_config_generation i)" by (metis image_eqI list.set_map)
    with c(1) have "configArtifactDestSafe (file_dest f)"
      by (auto simp: validateConfigArtifactDests_def err_simps)
    then have "clean_abs (path_join d (file_dest f)) = clean_abs d @ split_on (CHR ''/'') (file_dest f)"
      by (intro join_valid_path assms(2)) (simp_all add: configArtifactDestSafe_def)
    then show ?thesis using split_on_not_Nil by blast
  qed
  moreover have "ft_mount f \<in> set (volume_mounts stack)"
    if "f \<in> set (in_additional_files i) \<union> set (in_config_generation i)" "ft_mount f \<noteq> []" for f
    using that r(1,3) c(2) by (auto simp: verify_mounts_def sortedVolumeMounts_def err_simps)
  ultimately show ?thesis by blast
qed

theorem artifacts_contained_witness:
  "\<exists>rel. rel \<noteq> [] \<and> clean_abs (path_join ''/srv/demo'' ''conf/app.ini'') = clean_abs ''/srv/demo'' @ rel"
  using artifacts_contained [OF demo_render, of "''/srv/demo''"]
  by (simp add: demo_rendered_def zero_stack_def is_abs_def)

end
