(* ===== verification/Compose_Remap.thy ===== *)
theory Compose_Remap
  imports Yaml_Tree Verify_Contract Public_Binds
begin

text \<open>
  \<open>internal/core/install_port_remap.go\<close>: moving published host ports inside a rendered compose
  document, which is its node tree.
\<close>

subsection \<open>Nodes\<close>

text \<open>\<open>node.Value = v\<close> on a node that holds a value.\<close>

fun set_value :: "string \<Rightarrow> yaml_node \<Rightarrow> yaml_node" where
  "set_value v (ScalarNode w) = ScalarNode v"
| "set_value v (AliasNode w) = AliasNode v"
| "set_value v n = n"

fun mappingValue :: "yaml_node \<Rightarrow> string \<Rightarrow> yaml_node option" where
  "mappingValue (MappingNode kvs) key = assoc_where (\<lambda>k. node_value k = key) kvs"
| "mappingValue _ key = None"

text \<open>An assignment through the pointer \<open>mappingValue\<close> returned: the first value of the key changes.\<close>

fun update_mapping :: "string \<Rightarrow> (yaml_node \<Rightarrow> yaml_node) \<Rightarrow> yaml_node \<Rightarrow> yaml_node" where
  "update_mapping key f (MappingNode kvs) = MappingNode (update_where (\<lambda>k. node_value k = key) f kvs)"
| "update_mapping key f n = n"

subsection \<open>One entry\<close>

definition isLoopbackHost :: "string \<Rightarrow> bool" where
  "isLoopbackHost hostIP = (case parse_ip hostIP of None \<Rightarrow> False | Some ip \<Rightarrow> is_loopback ip)"

definition with_proto :: "string \<Rightarrow> string \<Rightarrow> bool \<Rightarrow> string" where
  "with_proto s proto hasProto = (if hasProto then s @ ''/'' @ proto else s)"

definition rewriteShortPort :: "string \<Rightarrow> (int, int) gomap \<Rightarrow> (string \<times> int) option" where
  "rewriteShortPort value overrides =
     (case cut (CHR ''/'') value of (spec, proto, hasProto) \<Rightarrow>
       (case split_on (CHR '':'') spec of
          [ip, published, container] \<Rightarrow>
            (if \<not> isLoopbackHost ip then None
             else (case atoi published of None \<Rightarrow> None
               | Some host \<Rightarrow>
                   (case map_of overrides host of None \<Rightarrow> None
                    | Some newPort \<Rightarrow>
                        Some (with_proto (join_with '':'' [ip, itoa newPort, container]) proto hasProto, host))))
        | _ \<Rightarrow> None))"

definition rewriteLongPort :: "yaml_node \<Rightarrow> (int, int) gomap \<Rightarrow> (yaml_node \<times> int) option" where
  "rewriteLongPort node overrides =
     (case mappingValue node ''host_ip'' of None \<Rightarrow> None
      | Some hostIP \<Rightarrow>
          (if \<not> isLoopbackHost (node_value hostIP) then None
           else (case mappingValue node ''published'' of None \<Rightarrow> None
             | Some published \<Rightarrow>
                 (case atoi (node_value published) of None \<Rightarrow> None
                  | Some host \<Rightarrow>
                      (case map_of overrides host of None \<Rightarrow> None
                       | Some newPort \<Rightarrow>
                           Some (update_mapping ''published'' (set_value (itoa newPort)) node, host))))))"

fun rewrite_entry :: "(int, int) gomap \<Rightarrow> yaml_node \<Rightarrow> yaml_node \<times> int list" where
  "rewrite_entry overrides (ScalarNode v) =
     (case rewriteShortPort v overrides of None \<Rightarrow> (ScalarNode v, [])
      | Some (rewritten, old) \<Rightarrow> (ScalarNode rewritten, [old]))"
| "rewrite_entry overrides (MappingNode kvs) =
     (case rewriteLongPort (MappingNode kvs) overrides of None \<Rightarrow> (MappingNode kvs, [])
      | Some (n, old) \<Rightarrow> (n, [old]))"
| "rewrite_entry overrides n = (n, [])"

definition extractShortPort :: "string \<Rightarrow> (string \<times> int) option" where
  "extractShortPort value =
     (case cut (CHR ''/'') value of (spec, proto, hasProto) \<Rightarrow>
       (case split_on (CHR '':'') spec of
          [ip, published, container] \<Rightarrow>
            (if \<not> isLoopbackHost ip then None
             else map_option (\<lambda>host. (with_proto container proto hasProto, host)) (atoi published))
        | _ \<Rightarrow> None))"

definition extractLongPort :: "yaml_node \<Rightarrow> (string \<times> int) option" where
  "extractLongPort node =
     (case mappingValue node ''host_ip'' of None \<Rightarrow> None
      | Some hostIP \<Rightarrow>
          (if \<not> isLoopbackHost (node_value hostIP) then None
           else (case mappingValue node ''published'' of None \<Rightarrow> None
             | Some published \<Rightarrow>
                 (case atoi (node_value published) of None \<Rightarrow> None
                  | Some host \<Rightarrow>
                      (case mappingValue node ''target'' of None \<Rightarrow> None
                       | Some target \<Rightarrow>
                           (if node_value target = [] then None
                            else (let proto = (case mappingValue node ''protocol'' of None \<Rightarrow> []
                                               | Some p \<Rightarrow> node_value p)
                                  in Some (with_proto (node_value target) proto (proto \<noteq> []), host))))))))"

fun extract_entry :: "yaml_node \<Rightarrow> (string \<times> int) option" where
  "extract_entry (ScalarNode v) = extractShortPort v"
| "extract_entry (MappingNode kvs) = extractLongPort (MappingNode kvs)"
| "extract_entry n = None"

subsection \<open>The document\<close>

definition service_entries :: "yaml_node \<Rightarrow> yaml_node list" where
  "service_entries service =
     (case mappingValue service ''ports'' of Some (SequenceNode entries) \<Rightarrow> entries | _ \<Rightarrow> [])"

definition rewrite_service :: "(int, int) gomap \<Rightarrow> yaml_node \<Rightarrow> yaml_node" where
  "rewrite_service overrides service =
     (case mappingValue service ''ports'' of
        Some (SequenceNode entries) \<Rightarrow>
          update_mapping ''ports'' (\<lambda>_. SequenceNode (map (fst \<circ> rewrite_entry overrides) entries)) service
      | _ \<Rightarrow> service)"

definition service_matches :: "(int, int) gomap \<Rightarrow> yaml_node \<Rightarrow> int list" where
  "service_matches overrides service =
     concat (map (snd \<circ> rewrite_entry overrides) (service_entries service))"

fun document_services :: "yaml_node \<Rightarrow> (yaml_node \<times> yaml_node) list" where
  "document_services (DocumentNode (node # _)) =
     (case mappingValue node ''services'' of Some (MappingNode kvs) \<Rightarrow> kvs | _ \<Rightarrow> [])"
| "document_services _ = []"

fun rewrite_document :: "(int, int) gomap \<Rightarrow> yaml_node \<Rightarrow> yaml_node" where
  "rewrite_document overrides (DocumentNode (node # rest)) =
     (case mappingValue node ''services'' of
        Some (MappingNode kvs) \<Rightarrow>
          DocumentNode (update_mapping ''services''
            (\<lambda>_. MappingNode (map (\<lambda>(k, v). (k, rewrite_service overrides v)) kvs)) node # rest)
      | _ \<Rightarrow> DocumentNode (node # rest))"
| "rewrite_document overrides n = n"

definition matched_ports :: "(int, int) gomap \<Rightarrow> yaml_node \<Rightarrow> int list" where
  "matched_ports overrides doc = concat (map (service_matches overrides \<circ> snd) (document_services doc))"

datatype remap_reason =
    ComposeUnparsed
  | ComposeUnencoded
  | OverrideUnmatched int
  | StackUnreadable os_error

definition rewriteComposeHostPorts ::
  "node_yaml \<Rightarrow> string \<Rightarrow> (int, int) gomap \<Rightarrow> remap_reason + string \<times> int list" where
  "rewriteComposeHostPorts y bytes overrides =
     (if overrides = [] then Inr (bytes, [])
      else (case parse_doc y bytes of
        None \<Rightarrow> Inl ComposeUnparsed
      | Some doc \<Rightarrow>
          (let matched = matched_ports overrides doc
           in if matched = [] then Inr (bytes, [])
              else (case encode_doc y (rewrite_document overrides doc) of
                      None \<Rightarrow> Inl ComposeUnencoded
                    | Some out \<Rightarrow> Inr (out, matched)))))"

text \<open>The rewritten compose, or a refusal when an override found nothing to move.\<close>

definition remap_compose ::
  "node_yaml \<Rightarrow> string \<Rightarrow> (int, int) gomap \<Rightarrow> remap_reason wdm_error + string" where
  "remap_compose y bytes overrides =
     (case rewriteComposeHostPorts y bytes overrides of
        Inl e \<Rightarrow> Inl (RedactedVerification e)
      | Inr (rewritten, matched) \<Rightarrow>
          guardE (first_err (\<lambda>(old, _). refuse_if (old \<notin> set matched)
                    (RedactedVerification (OverrideUnmatched old))) overrides)
            (Inr rewritten))"

definition applyComposePortRemap ::
  "node_yaml \<Rightarrow> string \<Rightarrow> (int, int) gomap \<Rightarrow> remap_reason wdm_error + string" where
  "applyComposePortRemap y bytes overrides =
     (if overrides = [] then Inr bytes else remap_compose y bytes overrides)"

type_synonym port_binding_key = "string \<times> string"

definition document_ports :: "yaml_node \<Rightarrow> (port_binding_key \<times> int) list" where
  "document_ports doc =
     concat (map (\<lambda>(k, service).
       concat (map (\<lambda>entry. case extract_entry entry of None \<Rightarrow> []
         | Some (container, host) \<Rightarrow> [((node_value k, container), host)]) (service_entries service)))
       (document_services doc))"

definition extractLoopbackHostPorts :: "node_yaml \<Rightarrow> string \<Rightarrow> remap_reason + (port_binding_key, int) gomap" where
  "extractLoopbackHostPorts y bytes =
     (case parse_doc y bytes of None \<Rightarrow> Inl ComposeUnparsed
      | Some doc \<Rightarrow> Inr (foldl (\<lambda>m (key, host). AList.update key host m) [] (document_ports doc)))"

definition preserve_step :: "(port_binding_key, int) gomap \<Rightarrow> (int, int) gomap \<Rightarrow> port_binding_key \<times> int
    \<Rightarrow> (int, int) gomap" where
  "preserve_step effective m kd =
     (case map_of effective (fst kd) of None \<Rightarrow> m
      | Some recorded \<Rightarrow> if recorded = snd kd then m else AList.update (snd kd) recorded m)"

definition preserved_overrides :: "(port_binding_key, int) gomap \<Rightarrow> (port_binding_key, int) gomap \<Rightarrow> (int, int) gomap" where
  "preserved_overrides effective defaults = foldl (preserve_step effective) [] defaults"

definition preserveUpdateHostPorts ::
  "node_yaml \<Rightarrow> os_error + string \<Rightarrow> string \<Rightarrow> remap_reason wdm_error + string" where
  "preserveUpdateHostPorts y oldCompose rendered =
     (case oldCompose of Inl e \<Rightarrow> Inl (RedactedVerification (StackUnreadable e))
      | Inr old \<Rightarrow>
     (case extractLoopbackHostPorts y old of Inl e \<Rightarrow> Inl (RedactedVerification e)
      | Inr effective \<Rightarrow>
     (case extractLoopbackHostPorts y rendered of Inl e \<Rightarrow> Inl (RedactedVerification e)
      | Inr defaults \<Rightarrow>
          (let overrides = preserved_overrides effective defaults
           in if overrides = [] then Inr rendered else remap_compose y rendered overrides))))"

subsection \<open>What a rewrite does to the ports of a document\<close>

definition move :: "(int, int) gomap \<Rightarrow> int \<Rightarrow> int" where
  "move overrides host = (case map_of overrides host of None \<Rightarrow> host | Some newPort \<Rightarrow> newPort)"

definition ports_fit :: "(int, int) gomap \<Rightarrow> bool" where
  "ports_fit overrides \<longleftrightarrow> (\<forall>old newPort. map_of overrides old = Some newPort \<longrightarrow> int64_range newPort)"

lemma mappingValue_update [simp]:
  "mappingValue (update_mapping key f n) k =
     (if k = key then map_option f (mappingValue n k) else mappingValue n k)"
  by (cases n) (simp_all add: assoc_update_same assoc_update_other)

lemma atoi_Nil [simp]: "atoi [] = None"
  by (simp add: atoi_def)

lemma set_value_value: "node_value n \<noteq> [] \<Longrightarrow> node_value (set_value v n) = v"
  by (cases n) auto

lemma cut_with_proto:
  assumes "cut (CHR ''/'') v = (spec, proto, hasProto)" "CHR ''/'' \<notin> set w"
  shows "cut (CHR ''/'') (with_proto w proto hasProto) = (w, proto, hasProto)"
proof (cases hasProto)
  case True
  then show ?thesis by (simp add: with_proto_def cut_found assms(2))
next
  case False
  with assms have "proto = []" using cut_None [of "CHR ''/''" v spec proto] by simp
  with False show ?thesis by (simp add: with_proto_def cut_missing assms(2))
qed

lemma cut_spec_free: "cut c v = (spec, proto, hasProto) \<Longrightarrow> c \<notin> set spec"
  using cut_Some [of c v spec proto] cut_None [of c v spec proto] by (cases hasProto) auto

lemma rewriteShort_Some:
  assumes "rewriteShortPort v overrides = Some (w, h)"
  obtains spec proto hasProto ip published container newPort
  where "cut (CHR ''/'') v = (spec, proto, hasProto)" "split_on (CHR '':'') spec = [ip, published, container]"
    "isLoopbackHost ip" "atoi published = Some h" "map_of overrides h = Some newPort"
    "w = with_proto (join_with '':'' [ip, itoa newPort, container]) proto hasProto"
  using assms by (auto simp: rewriteShortPort_def split: prod.splits list.splits option.splits if_splits)

lemma extractShort_iff:
  "extractShortPort v = Some (c, h) \<longleftrightarrow>
     (\<exists>spec proto hasProto ip published container.
        cut (CHR ''/'') v = (spec, proto, hasProto) \<and> split_on (CHR '':'') spec = [ip, published, container]
        \<and> isLoopbackHost ip \<and> atoi published = Some h \<and> c = with_proto container proto hasProto)"
  by (fastforce simp: extractShortPort_def split: prod.splits list.splits option.splits if_splits)

lemma short_moved:
  assumes "rewriteShortPort v overrides = Some (w, h)" "ports_fit overrides"
  shows "\<exists>c. extractShortPort v = Some (c, h) \<and> extractShortPort w = Some (c, move overrides h)"
proof -
  from rewriteShort_Some [OF assms(1)] obtain spec proto hasProto ip published container newPort
    where v: "cut (CHR ''/'') v = (spec, proto, hasProto)"
      "split_on (CHR '':'') spec = [ip, published, container]" "isLoopbackHost ip"
      "atoi published = Some h" "map_of overrides h = Some newPort"
      "w = with_proto (join_with '':'' [ip, itoa newPort, container]) proto hasProto" .
  have slash: "CHR ''/'' \<notin> set x" if "x \<in> set [ip, published, container]" for x
    using split_on_chars [of x "CHR '':''" spec] cut_spec_free [OF v(1)] v(2) that by auto
  have colon: "CHR '':'' \<notin> set x" if "x \<in> set [ip, published, container]" for x
    using split_on_parts [of x "CHR '':''" spec] v(2) that by auto
  have s: "split_on (CHR '':'') (join_with '':'' [ip, itoa newPort, container]) = [ip, itoa newPort, container]"
    by (rule split_join) (use colon in auto)
  have "cut (CHR ''/'') w = (join_with '':'' [ip, itoa newPort, container], proto, hasProto)"
    unfolding v(6) by (rule cut_with_proto [OF v(1)]) (use slash in auto)
  moreover have "atoi (itoa newPort) = Some (move overrides h)"
    using atoi_itoa assms(2) v(5) by (simp add: move_def ports_fit_def)
  ultimately have "extractShortPort w = Some (with_proto container proto hasProto, move overrides h)"
    using s v(3) unfolding extractShort_iff by blast
  moreover have "extractShortPort v = Some (with_proto container proto hasProto, h)"
    using v(1-4) unfolding extractShort_iff by blast
  ultimately show ?thesis by blast
qed

lemma short_kept:
  "rewriteShortPort v overrides = None \<Longrightarrow> extractShortPort v = Some (c, h) \<Longrightarrow> move overrides h = h"
  by (auto simp: extractShort_iff rewriteShortPort_def move_def split: option.splits)

lemma long_moved:
  assumes "rewriteLongPort n overrides = Some (n', h)" "ports_fit overrides"
  shows "extractLongPort n' = map_option (map_prod id (move overrides)) (extractLongPort n)"
proof -
  from assms(1) obtain hostIP published newPort where
    n: "mappingValue n ''host_ip'' = Some hostIP" "isLoopbackHost (node_value hostIP)"
      "mappingValue n ''published'' = Some published" "atoi (node_value published) = Some h"
      "map_of overrides h = Some newPort"
    and n': "n' = update_mapping ''published'' (set_value (itoa newPort)) n"
    by (auto simp: rewriteLongPort_def split: option.splits if_splits)
  have "node_value published \<noteq> []" using n(4) by auto
  moreover have "atoi (itoa newPort) = Some (move overrides h)"
    using atoi_itoa assms(2) n(5) by (simp add: move_def ports_fit_def)
  ultimately show ?thesis
    using n by (simp add: n' extractLongPort_def set_value_value Let_def split: option.splits)
qed

lemma long_kept:
  "rewriteLongPort n overrides = None \<Longrightarrow> extractLongPort n = Some (c, h) \<Longrightarrow> move overrides h = h"
  by (auto simp: extractLongPort_def rewriteLongPort_def move_def Let_def split: option.splits if_splits)

lemma entry_moved:
  assumes "ports_fit overrides"
  shows "extract_entry (fst (rewrite_entry overrides e))
    = map_option (map_prod id (move overrides)) (extract_entry e)"
proof (cases e)
  case (ScalarNode v)
  show ?thesis
  proof (cases "rewriteShortPort v overrides")
    case None
    with ScalarNode short_kept [OF None] show ?thesis by (cases "extractShortPort v") auto
  next
    case (Some wh)
    with ScalarNode short_moved [of v overrides "fst wh" "snd wh"] assms show ?thesis
      by (auto split: prod.splits)
  qed
next
  case (MappingNode kvs)
  show ?thesis
  proof (cases "rewriteLongPort (MappingNode kvs) overrides")
    case None
    with MappingNode long_kept [OF None] show ?thesis by (cases "extractLongPort (MappingNode kvs)") auto
  next
    case (Some nh)
    then obtain kvs' h where nh: "nh = (MappingNode kvs', h)"
      by (auto simp: rewriteLongPort_def split: option.splits if_splits)
    with MappingNode Some long_moved [of "MappingNode kvs" overrides "MappingNode kvs'" h] assms show ?thesis
      by simp
  qed
qed simp_all

lemma service_entries_rewrite:
  "service_entries (rewrite_service overrides s) = map (fst \<circ> rewrite_entry overrides) (service_entries s)"
  by (auto simp: service_entries_def rewrite_service_def split: option.splits yaml_node.splits)

lemma document_services_rewrite:
  "document_services (rewrite_document overrides doc) =
     map (\<lambda>(k, v). (k, rewrite_service overrides v)) (document_services doc)"
  by (cases doc rule: document_services.cases) (auto split: option.splits yaml_node.splits)

lemma document_ports_rewrite:
  assumes "ports_fit overrides"
  shows "document_ports (rewrite_document overrides doc) = map (map_prod id (move overrides)) (document_ports doc)"
proof -
  have e: "(case extract_entry (fst (rewrite_entry overrides e)) of None \<Rightarrow> []
      | Some (container, host) \<Rightarrow> [((k, container), host)]) =
    map (map_prod id (move overrides)) (case extract_entry e of None \<Rightarrow> []
      | Some (container, host) \<Rightarrow> [((k, container), host)])" for e and k :: string
    by (simp add: entry_moved [OF assms] split: option.splits)
  have s: "concat (map (\<lambda>entry. case extract_entry entry of None \<Rightarrow> []
       | Some (container, host) \<Rightarrow> [((k, container), host)]) (map (fst \<circ> rewrite_entry overrides) es)) =
    map (map_prod id (move overrides)) (concat (map (\<lambda>entry. case extract_entry entry of None \<Rightarrow> []
       | Some (container, host) \<Rightarrow> [((k, container), host)]) es))" for es and k :: string
    by (induction es) (simp_all add: e del: map_map)
  have "concat (map (\<lambda>(k, service). concat (map (\<lambda>entry. case extract_entry entry of None \<Rightarrow> []
       | Some (container, host) \<Rightarrow> [((node_value k, container), host)]) (service_entries service)))
       (map (\<lambda>(k, v). (k, rewrite_service overrides v)) ds)) =
    map (map_prod id (move overrides)) (concat (map (\<lambda>(k, service).
       concat (map (\<lambda>entry. case extract_entry entry of None \<Rightarrow> []
         | Some (container, host) \<Rightarrow> [((node_value k, container), host)]) (service_entries service))) ds))" for ds
    by (induction ds) (auto simp: service_entries_rewrite s simp del: map_map)
  then show ?thesis by (simp add: document_ports_def document_services_rewrite)
qed

subsection \<open>The rewritten compose\<close>

lemma matched_document: "matched_ports overrides doc \<noteq> [] \<Longrightarrow> \<exists>n rest. doc = DocumentNode (n # rest)"
  by (cases doc rule: document_services.cases) (auto simp: matched_ports_def)

lemma rewrite_document_kind: "\<exists>n'. rewrite_document overrides (DocumentNode [n]) = DocumentNode [n']"
  by (auto split: option.splits yaml_node.splits)

lemma unmatched_entry: "snd (rewrite_entry overrides e) = [] \<Longrightarrow> fst (rewrite_entry overrides e) = e"
  by (cases e) (auto split: option.splits prod.splits)

lemma entry_unmoved:
  "ports_fit overrides \<Longrightarrow> snd (rewrite_entry overrides e) = []
     \<Longrightarrow> map_option (map_prod id (move overrides)) (extract_entry e) = extract_entry e"
  using entry_moved [of overrides e] unmatched_entry [of overrides e] by simp

lemma document_ports_unmatched:
  assumes "ports_fit overrides" "matched_ports overrides doc = []"
  shows "map (map_prod id (move overrides)) (document_ports doc) = document_ports doc"
proof (rule map_idI)
  fix x assume "x \<in> set (document_ports doc)"
  then obtain k s e c h where x: "x = ((node_value k, c), h)" "(k, s) \<in> set (document_services doc)"
    "e \<in> set (service_entries s)" "extract_entry e = Some (c, h)"
    by (auto simp: document_ports_def split: option.splits)
  have "snd (rewrite_entry overrides e) = []"
    using assms(2) x(2,3) by (fastforce simp: matched_ports_def service_matches_def)
  from entry_unmoved [OF assms(1) this] x(1,4) show "map_prod id (move overrides) x = x" by simp
qed

subsection \<open>Nothing else in the document changes\<close>

text \<open>
  What a remap may do, said without the code: \<open>loopback_port\<close> is the host port of an entry bound
  to a loopback address, and only the text of such a port is replaced.
\<close>

fun loopback_port :: "yaml_node \<Rightarrow> int option" where
  "loopback_port (ScalarNode v) =
     (case split_on (CHR '':'') (fst (cut (CHR ''/'') v)) of
        [ip, host, _] \<Rightarrow> if isLoopbackHost ip then atoi host else None
      | _ \<Rightarrow> None)"
| "loopback_port (MappingNode kvs) =
     (case (mappingValue (MappingNode kvs) ''host_ip'', mappingValue (MappingNode kvs) ''published'') of
        (Some ip, Some host) \<Rightarrow> if isLoopbackHost (node_value ip) then atoi (node_value host) else None
      | _ \<Rightarrow> None)"
| "loopback_port n = None"

definition same_but :: "string \<Rightarrow> (yaml_node \<Rightarrow> yaml_node) \<Rightarrow> yaml_node \<Rightarrow> yaml_node \<Rightarrow> bool" where
  "same_but key f n n' \<longleftrightarrow> (\<exists>pre k v post. n = MappingNode (pre @ (k, v) # post)
     \<and> n' = MappingNode (pre @ (k, f v) # post) \<and> node_value k = key
     \<and> key \<notin> (node_value \<circ> fst) ` set pre)"

definition rebound :: "int \<Rightarrow> yaml_node \<Rightarrow> yaml_node \<Rightarrow> bool" where
  "rebound p e e' \<longleftrightarrow>
     (\<exists>ip host rest. e = ScalarNode (ip @ '':'' @ host @ '':'' @ rest)
        \<and> e' = ScalarNode (ip @ '':'' @ itoa p @ '':'' @ rest)
        \<and> {CHR '':'', CHR ''/''} \<inter> (set ip \<union> set host) = {})
     \<or> same_but ''published'' (set_value (itoa p)) e e'"

definition entry_change :: "(int, int) gomap \<Rightarrow> yaml_node \<Rightarrow> yaml_node \<Rightarrow> bool" where
  "entry_change overrides e e' \<longleftrightarrow>
     (case Option.bind (loopback_port e) (map_of overrides) of None \<Rightarrow> e' = e | Some p \<Rightarrow> rebound p e e')"

definition service_change :: "(int, int) gomap \<Rightarrow> yaml_node \<Rightarrow> yaml_node \<Rightarrow> bool" where
  "service_change overrides s s' \<longleftrightarrow>
     (case mappingValue s ''ports'' of
        Some (SequenceNode es) \<Rightarrow> (\<exists>es'. list_all2 (entry_change overrides) es es'
          \<and> same_but ''ports'' (\<lambda>_. SequenceNode es') s s')
      | _ \<Rightarrow> s' = s)"

fun document_change :: "(int, int) gomap \<Rightarrow> yaml_node \<Rightarrow> yaml_node \<Rightarrow> bool" where
  "document_change overrides (DocumentNode (n # rest)) doc' \<longleftrightarrow>
     (case mappingValue n ''services'' of
        Some (MappingNode kvs) \<Rightarrow> (\<exists>kvs' n'. doc' = DocumentNode (n' # rest)
          \<and> list_all2 (\<lambda>x y. fst y = fst x \<and> service_change overrides (snd x) (snd y)) kvs kvs'
          \<and> same_but ''services'' (\<lambda>_. MappingNode kvs') n n')
      | _ \<Rightarrow> doc' = DocumentNode (n # rest))"
| "document_change overrides doc doc' \<longleftrightarrow> doc' = doc"

lemma update_where_split:
  "assoc_where P kvs = Some v \<Longrightarrow> \<exists>pre k post. kvs = pre @ (k, v) # post \<and> P k
     \<and> (\<forall>x \<in> set pre. \<not> P (fst x)) \<and> update_where P f kvs = pre @ (k, f v) # post"
proof (induction kvs)
  case (Cons kv kvs)
  show ?case
  proof (cases "P (fst kv)")
    case True
    with Cons.prems show ?thesis by (intro exI [of _ "[]"]) (cases kv, auto)
  next
    case False
    with Cons obtain pre k post where "kvs = pre @ (k, v) # post" "P k" "\<forall>x \<in> set pre. \<not> P (fst x)"
      "update_where P f kvs = pre @ (k, f v) # post" by (cases kv) auto
    with False show ?thesis by (intro exI [of _ "kv # pre"]) (cases kv, auto)
  qed
qed simp

lemma update_same_but: "mappingValue n key = Some v \<Longrightarrow> same_but key f n (update_mapping key f n)"
proof (cases n)
  case (MappingNode kvs)
  assume "mappingValue n key = Some v"
  with MappingNode update_where_split [of "\<lambda>k. node_value k = key" kvs v f] show ?thesis
    unfolding same_but_def by fastforce
qed simp_all

lemma cut_back: "cut c v = (spec, proto, hasProto) \<Longrightarrow> v = spec @ (if hasProto then c # proto else [])"
  using cut_Some [of c v spec proto] cut_None [of c v spec proto] by (cases hasProto) auto

lemma entry_changed: "entry_change overrides e (fst (rewrite_entry overrides e))"
proof (cases e)
  case (ScalarNode v)
  show ?thesis
  proof (cases "rewriteShortPort v overrides")
    case None
    then have "Option.bind (loopback_port e) (map_of overrides) = None"
      by (auto simp: ScalarNode rewriteShortPort_def Option.bind_eq_None_conv split: prod.splits list.splits option.splits if_splits)
    with ScalarNode None show ?thesis by (simp add: entry_change_def)
  next
    case (Some wh)
    then obtain w h where wh: "rewriteShortPort v overrides = Some (w, h)" by (cases wh) auto
    from rewriteShort_Some [OF wh] obtain spec proto hasProto ip published container newPort
      where v: "cut (CHR ''/'') v = (spec, proto, hasProto)"
        "split_on (CHR '':'') spec = [ip, published, container]" "isLoopbackHost ip"
        "atoi published = Some h" "map_of overrides h = Some newPort"
        "w = with_proto (join_with '':'' [ip, itoa newPort, container]) proto hasProto" .
    let ?rest = "container @ (if hasProto then CHR ''/'' # proto else [])"
    have "spec = join_with '':'' [ip, published, container]"
      using v(2) join_split [of "CHR '':''" spec] by simp
    with cut_back [OF v(1)] have "v = ip @ '':'' @ published @ '':'' @ ?rest" by simp
    moreover have "w = ip @ '':'' @ itoa newPort @ '':'' @ ?rest" using v(6) by (simp add: with_proto_def)
    moreover have "{CHR '':'', CHR ''/''} \<inter> (set ip \<union> set published) = {}"
      using split_on_chars [of _ "CHR '':''" spec] split_on_parts [of _ "CHR '':''" spec] cut_spec_free [OF v(1)] v(2)
      by auto
    ultimately have "rebound newPort e (ScalarNode w)" unfolding rebound_def ScalarNode by blast
    moreover have "Option.bind (loopback_port e) (map_of overrides) = Some newPort"
      using v by (simp add: ScalarNode)
    ultimately show ?thesis using wh by (simp add: entry_change_def ScalarNode)
  qed
next
  case (MappingNode kvs)
  show ?thesis
  proof (cases "rewriteLongPort e overrides")
    case None
    then have "Option.bind (loopback_port e) (map_of overrides) = None"
      by (auto simp: MappingNode rewriteLongPort_def Option.bind_eq_None_conv simp del: mappingValue.simps
          split: option.splits if_splits)
    with MappingNode None show ?thesis by (simp add: entry_change_def)
  next
    case (Some nh)
    then obtain hostIP published h newPort where n: "mappingValue e ''host_ip'' = Some hostIP"
      "isLoopbackHost (node_value hostIP)" "mappingValue e ''published'' = Some published"
      "atoi (node_value published) = Some h" "map_of overrides h = Some newPort"
      "nh = (update_mapping ''published'' (set_value (itoa newPort)) e, h)"
      by (auto simp: rewriteLongPort_def split: option.splits if_splits)
    then have "Option.bind (loopback_port e) (map_of overrides) = Some newPort"
      by (simp add: MappingNode del: mappingValue.simps)
    with update_same_but [OF n(3)] Some n(6) show ?thesis
      by (simp add: entry_change_def rebound_def MappingNode del: update_mapping.simps)
  qed
qed (simp_all add: entry_change_def)

lemma service_changed: "service_change overrides s (rewrite_service overrides s)"
proof (cases "mappingValue s ''ports''")
  case (Some ports)
  show ?thesis
  proof (cases ports)
    case (SequenceNode es)
    have "list_all2 (entry_change overrides) es (map (fst \<circ> rewrite_entry overrides) es)"
      by (simp add: list_all2_map2 list.rel_refl entry_changed)
    with Some SequenceNode update_same_but [OF Some] show ?thesis
      by (auto simp: service_change_def rewrite_service_def)
  qed (simp_all add: service_change_def rewrite_service_def Some)
qed (simp add: service_change_def rewrite_service_def)

lemma document_changed: "document_change overrides doc (rewrite_document overrides doc)"
proof (cases doc rule: document_services.cases)
  case (1 n rest)
  show ?thesis
  proof (cases "mappingValue n ''services''")
    case (Some services)
    show ?thesis
    proof (cases services)
      case (MappingNode kvs)
      have "list_all2 (\<lambda>x y. fst y = fst x \<and> service_change overrides (snd x) (snd y)) kvs
          (map (\<lambda>(k, v). (k, rewrite_service overrides v)) kvs)"
        by (simp add: list_all2_map2 case_prod_unfold list.rel_refl service_changed)
      with Some MappingNode update_same_but [OF Some] show ?thesis by (auto simp: 1)
    qed (simp_all add: 1 Some)
  qed (simp add: 1)
qed simp_all

lemma update_where_same:
  "assoc_where P kvs = Some v \<Longrightarrow> update_where P (\<lambda>_. v) kvs = kvs"
  by (induction kvs) (auto split: if_splits)

lemma update_mapping_same: "mappingValue n key = Some v \<Longrightarrow> update_mapping key (\<lambda>_. v) n = n"
  by (cases n) (auto simp: update_where_same)

lemma unmatched_service: "service_matches overrides s = [] \<Longrightarrow> rewrite_service overrides s = s"
proof -
  assume none: "service_matches overrides s = []"
  show ?thesis
  proof (cases "mappingValue s ''ports''")
    case (Some ports)
    show ?thesis
    proof (cases ports)
      case (SequenceNode es)
      then have "map (fst \<circ> rewrite_entry overrides) es = es"
        using none Some by (intro map_idI) (auto simp: service_matches_def service_entries_def unmatched_entry)
      with Some SequenceNode show ?thesis by (simp add: rewrite_service_def update_mapping_same)
    qed (simp_all add: rewrite_service_def Some)
  qed (simp add: rewrite_service_def)
qed

lemma unmatched_document: "matched_ports overrides doc = [] \<Longrightarrow> rewrite_document overrides doc = doc"
proof (cases doc rule: document_services.cases)
  case (1 n rest)
  assume none: "matched_ports overrides doc = []"
  show ?thesis
  proof (cases "mappingValue n ''services''")
    case (Some services)
    show ?thesis
    proof (cases services)
      case (MappingNode kvs)
      then have "map (\<lambda>(k, v). (k, rewrite_service overrides v)) kvs = kvs"
        using none Some by (intro map_idI) (auto simp: 1 matched_ports_def unmatched_service)
      with Some MappingNode show ?thesis by (simp add: 1 update_mapping_same)
    qed (simp_all add: 1 Some)
  qed (simp add: 1)
qed simp_all

subsection \<open>The written document\<close>

lemma remap_ports:
  assumes "node_codec y" "ports_fit overrides" "overrides \<noteq> []" "remap_compose y bytes overrides = Inr out"
    "parse_doc y bytes = Some doc"
  shows "\<exists>doc'. parse_doc y out = Some doc' \<and> document_change overrides doc doc'
    \<and> document_ports doc' = map (map_prod id (move overrides)) (document_ports doc)
    \<and> keys_of overrides \<subseteq> set (matched_ports overrides doc)"
proof -
  from assms(4) obtain matched where r: "rewriteComposeHostPorts y bytes overrides = Inr (out, matched)"
    and "\<forall>x \<in> set overrides. fst x \<in> set matched"
    by (auto simp: remap_compose_def err_simps split_beta split: sum.splits prod.splits)
  then have m: "keys_of overrides \<subseteq> set matched" by (auto simp: keys_of_def)
  show ?thesis
  proof (cases "matched_ports overrides doc = []")
    case True
    with r assms(3,5) have "out = bytes" "matched = []" by (auto simp: rewriteComposeHostPorts_def split: if_splits)
    with m True assms document_ports_unmatched document_changed [of overrides doc]
      unmatched_document [OF True] show ?thesis by (metis empty_set)
  next
    case False
    with m r assms(3,5) have enc: "encode_doc y (rewrite_document overrides doc) = Some out"
      and mm: "keys_of overrides \<subseteq> set (matched_ports overrides doc)"
      by (auto simp: rewriteComposeHostPorts_def Let_def keys_of_def split: if_splits option.splits)
    from matched_document [OF False] assms(1,5) obtain n where "doc = DocumentNode [n]"
      unfolding node_codec_def by fastforce
    with enc assms(1) rewrite_document_kind [of overrides n]
    have "parse_doc y out = Some (rewrite_document overrides doc)" unfolding node_codec_def by metis
    with mm document_ports_rewrite [OF assms(2)] document_changed show ?thesis by blast
  qed
qed

lemma move_Nil [simp]: "move [] = id"
  by (rule ext) (simp add: move_def)

subsection \<open>A concrete stack\<close>

definition demo_port_doc :: "string \<Rightarrow> yaml_node" where
  "demo_port_doc entry = DocumentNode [MappingNode [(ScalarNode ''services'', MappingNode
     [(ScalarNode ''web'', MappingNode [(ScalarNode ''ports'', SequenceNode [ScalarNode entry])])])]]"

definition demo_codec :: node_yaml where
  "demo_codec = \<lparr>
     parse_doc = (\<lambda>b. if b = ''fresh'' then Some (demo_port_doc ''127.0.0.1:8080:80'')
       else if b = ''moved'' then Some (demo_port_doc ''127.0.0.1:8081:80'') else None),
     encode_doc = (\<lambda>d. if d = demo_port_doc ''127.0.0.1:8081:80'' then Some ''moved'' else None)\<rparr>"

lemma demo_codec_ok: "node_codec demo_codec"
  by (auto simp: node_codec_def demo_codec_def demo_port_doc_def)

lemma demo_loopback: "isLoopbackHost ''127.0.0.1''"
  by (simp add: isLoopbackHost_def go_eval parse_ip_def parse_addr4_def parse_octets_def octet_def
      addr_of_octets_def)

lemma demo_short:
  "rewriteShortPort ''127.0.0.1:8080:80'' [(8080, 8081)] = Some (''127.0.0.1:8081:80'', 8080)"
  "extractShortPort ''127.0.0.1:8080:80'' = Some (''80'', 8080)"
  "extractShortPort ''127.0.0.1:8081:80'' = Some (''80'', 8081)"
  by (simp_all add: rewriteShortPort_def extractShortPort_def with_proto_def demo_loopback cut_def go_eval)

lemma demo_remap: "remap_compose demo_codec ''fresh'' [(8080, 8081)] = Inr ''moved''"
  by (simp add: remap_compose_def rewriteComposeHostPorts_def demo_codec_def demo_port_doc_def
      matched_ports_def service_matches_def service_entries_def rewrite_service_def demo_short
      refuse_if_def)

lemma demo_extract:
  "extractLoopbackHostPorts demo_codec ''fresh'' = Inr [((''web'', ''80''), 8080)]"
  "extractLoopbackHostPorts demo_codec ''moved'' = Inr [((''web'', ''80''), 8081)]"
  by (simp_all add: extractLoopbackHostPorts_def demo_codec_def demo_port_doc_def document_ports_def
      service_entries_def demo_short)

lemma no_overrides: "matched_ports [] doc = []"
proof -
  have "snd (rewrite_entry [] e) = []" for e
    by (cases e) (auto simp: rewriteShortPort_def rewriteLongPort_def simp del: mappingValue.simps
        split: option.splits prod.splits list.splits)
  then show ?thesis by (simp add: matched_ports_def service_matches_def)
qed

text \<open>
  C14: A port remap reaches every binding and changes nothing else. When the remap of the planned
  overrides succeeds, the compose written out reads back as the document it was, in which the only
  changed nodes are the published ports of those loopback entries that have an override, each
  replaced by its override; so it has the same loopback bindings, service by service and entry by
  entry, each on the override of its old host port and on that port itself where there is no
  override; and every override found an entry to move. Entries bound elsewhere, ranges and all other
  keys are as they were. The encoder is assumed to read back.
\<close>

theorem compose_remap_moves_ports:
  assumes "node_codec y" "ports_fit overrides" "applyComposePortRemap y bytes overrides = Inr out"
    "parse_doc y bytes = Some doc"
  shows "\<exists>doc'. parse_doc y out = Some doc' \<and> document_change overrides doc doc'
    \<and> document_ports doc' = map (map_prod id (move overrides)) (document_ports doc)
    \<and> keys_of overrides \<subseteq> set (matched_ports overrides doc)"
proof (cases "overrides = []")
  case True
  with assms document_changed [of "[]" doc] unmatched_document [OF no_overrides, of doc] show ?thesis
    by (simp add: applyComposePortRemap_def prod.map_id0)
next
  case False
  with assms show ?thesis by (intro remap_ports) (simp_all add: applyComposePortRemap_def)
qed

theorem compose_remap_moves_ports_witness:
  "\<exists>doc'. parse_doc demo_codec ''moved'' = Some doc'
    \<and> document_change [(8080, 8081)] (demo_port_doc ''127.0.0.1:8080:80'') doc'
    \<and> document_ports doc' = map (map_prod id (move [(8080, 8081)]))
        (document_ports (demo_port_doc ''127.0.0.1:8080:80''))
    \<and> keys_of [(8080, 8081 :: int)]
        \<subseteq> set (matched_ports [(8080, 8081)] (demo_port_doc ''127.0.0.1:8080:80''))"
proof (rule compose_remap_moves_ports [OF demo_codec_ok])
  show "ports_fit [(8080, 8081)]" by (simp add: ports_fit_def int64_range_def)
  show "applyComposePortRemap demo_codec ''fresh'' [(8080, 8081)] = Inr ''moved''"
    by (simp add: applyComposePortRemap_def demo_remap)
  show "parse_doc demo_codec ''fresh'' = Some (demo_port_doc ''127.0.0.1:8080:80'')"
    by (simp add: demo_codec_def)
qed

fun loopback_entry :: "yaml_node \<Rightarrow> bool" where
  "loopback_entry (ScalarNode v) =
     (case split_on (CHR '':'') (fst (cut (CHR ''/'') v)) of [ip, _, _] \<Rightarrow> isLoopbackHost ip | _ \<Rightarrow> False)"
| "loopback_entry (MappingNode kvs) =
     (case mappingValue (MappingNode kvs) ''host_ip'' of None \<Rightarrow> False
      | Some ip \<Rightarrow> isLoopbackHost (node_value ip))"
| "loopback_entry n = False"

lemma loopback_published:
  "loopback_entry (update_mapping ''published'' f (MappingNode kvs)) \<longleftrightarrow>
     (case mappingValue (MappingNode kvs) ''host_ip'' of None \<Rightarrow> False
      | Some ip \<Rightarrow> isLoopbackHost (node_value ip))"
  using mappingValue_update [of "''published''" f "MappingNode kvs" "''host_ip''"]
  by (simp add: update_mapping.simps)

lemma short_loopback: "extractShortPort v = Some ch \<Longrightarrow> loopback_entry (ScalarNode v)"
  by (cases ch) (auto simp: extractShort_iff)

text \<open>
  A remap never opens a port. Whatever the overrides are, a port entry of the compose comes
  out unchanged, or it was bound to a loopback address and still is.
\<close>

lemma rewrite_keeps_loopback:
  "fst (rewrite_entry overrides e) = e
     \<or> (loopback_entry e \<and> loopback_entry (fst (rewrite_entry overrides e)))"
proof (cases e)
  case (ScalarNode v)
  show ?thesis
  proof (cases "rewriteShortPort v overrides")
    case (Some wh)
    then obtain w h where wh: "rewriteShortPort v overrides = Some (w, h)" by (cases wh) auto
    from rewriteShort_Some [OF wh] obtain spec proto hasProto ip published container newPort
      where v: "cut (CHR ''/'') v = (spec, proto, hasProto)"
        "split_on (CHR '':'') spec = [ip, published, container]" "isLoopbackHost ip"
        "w = with_proto (join_with '':'' [ip, itoa newPort, container]) proto hasProto" .
    have slash: "CHR ''/'' \<notin> set x" if "x \<in> set [ip, published, container]" for x
      using split_on_chars [of x "CHR '':''" spec] cut_spec_free [OF v(1)] v(2) that by auto
    have "cut (CHR ''/'') w = (join_with '':'' [ip, itoa newPort, container], proto, hasProto)"
      unfolding v(4) by (rule cut_with_proto [OF v(1)]) (use slash in auto)
    moreover have "split_on (CHR '':'') (join_with '':'' [ip, itoa newPort, container])
        = [ip, itoa newPort, container]"
      by (rule split_join) (use split_on_parts [of _ "CHR '':''" spec] v(2) in auto)
    ultimately have "loopback_entry (ScalarNode w)" using v(3) by simp
    moreover have "loopback_entry (ScalarNode v)" using v by simp
    ultimately show ?thesis using ScalarNode wh by simp
  qed (simp add: ScalarNode)
next
  case (MappingNode kvs)
  then show ?thesis
    by (auto simp: rewriteLongPort_def loopback_published simp del: update_mapping.simps loopback_entry.simps(2)
        split: option.splits if_splits prod.splits)
      (simp_all add: loopback_published)
qed simp_all

subsection \<open>Ports kept over an update\<close>

lemma update_map: "AList.update k (f v) (map (map_prod id f) m) = map (map_prod id f) (AList.update k v m)"
  by (induction m) auto

lemma collect_map:
  "foldl (\<lambda>m (key, host). AList.update key host m) (map (map_prod id f) m) (map (map_prod id f) xs)
     = map (map_prod id f) (foldl (\<lambda>m (key, host). AList.update key host m) m xs)"
  by (induction xs arbitrary: m) (auto simp: update_map)

lemma extract_range: "extract_entry e = Some (c, h) \<Longrightarrow> int64_range h"
  by (cases e) (auto simp: extractShort_iff extractLongPort_def Let_def atoi_range split: option.splits if_splits)

lemma collect_values:
  "(\<forall>x \<in> set m. P (snd x)) \<Longrightarrow> (\<forall>x \<in> set xs. P (snd x)) \<Longrightarrow>
     \<forall>x \<in> set (foldl (\<lambda>m (key, host). AList.update key host m) m xs). P (snd x)"
proof (induction xs arbitrary: m)
  case (Cons x xs)
  have "\<forall>y \<in> set (AList.update (fst x) (snd x) m). P (snd y)"
    using Cons.prems by (induction m) auto
  with Cons show ?case by (cases x) simp
qed simp

lemma extract_doc_range:
  assumes "extractLoopbackHostPorts y bytes = Inr ports" "map_of ports key = Some h"
  shows "int64_range h"
proof -
  from assms(1) obtain doc where
    p: "ports = foldl (\<lambda>m (key, host). AList.update key host m) [] (document_ports doc)"
    by (auto simp: extractLoopbackHostPorts_def split: option.splits)
  have "\<forall>x \<in> set (document_ports doc). int64_range (snd x)"
    by (auto simp: document_ports_def dest!: extract_range [OF sym] split: option.splits)
  from collect_values [where P = int64_range, of "[]", OF _ this] p map_of_SomeD [OF assms(2)]
  show ?thesis by fastforce
qed

lemma extract_distinct:
  assumes "extractLoopbackHostPorts y bytes = Inr ports"
  shows "distinct (map fst ports)"
proof -
  have "distinct (map fst m) \<Longrightarrow> distinct (map fst (foldl (\<lambda>m (key, host). AList.update key host m) m xs))"
    for m :: "(port_binding_key, int) gomap" and xs
    by (induction xs arbitrary: m) (auto simp: distinct_update)
  with assms show ?thesis by (auto simp: extractLoopbackHostPorts_def split: option.splits)
qed

definition keeps :: "(port_binding_key, int) gomap \<Rightarrow> port_binding_key \<times> int \<Rightarrow> int" where
  "keeps effective kd = (case map_of effective (fst kd) of None \<Rightarrow> snd kd | Some recorded \<Rightarrow> recorded)"

text \<open>The host port a default ends on is the one kept by some binding that has this default.\<close>

lemma preserve_sound:
  "map_of (foldl (preserve_step effective) m ds) h = Some p \<Longrightarrow>
     map_of m h = Some p \<or> (\<exists>kd \<in> set ds. snd kd = h \<and> keeps effective kd = p)"
proof (induction ds arbitrary: m)
  case (Cons kd ds)
  then have "map_of (preserve_step effective m kd) h = Some p
      \<or> (\<exists>kd \<in> set ds. snd kd = h \<and> keeps effective kd = p)" by simp
  then show ?case
    by (auto simp: preserve_step_def keeps_def map_of_update split: option.splits if_splits)
qed simp

lemma preserve_complete:
  "map_of (foldl (preserve_step effective) m ds) h = None \<Longrightarrow>
     map_of m h = None \<and> (\<forall>kd \<in> set ds. snd kd = h \<longrightarrow> keeps effective kd = h)"
proof (induction ds arbitrary: m)
  case (Cons kd ds)
  then have "map_of (preserve_step effective m kd) h = None
      \<and> (\<forall>kd \<in> set ds. snd kd = h \<longrightarrow> keeps effective kd = h)" by simp
  then show ?case
    by (auto simp: preserve_step_def keeps_def map_of_update split: option.splits if_splits)
qed simp

lemma preserve_all:
  assumes "kd \<in> set defaults"
  shows "move (preserved_overrides effective defaults) (snd kd)
    \<in> keeps effective ` {kd' \<in> set defaults. snd kd' = snd kd}"
proof (cases "map_of (preserved_overrides effective defaults) (snd kd)")
  case None
  with preserve_complete [of effective "[]" defaults "snd kd"] assms
  have "keeps effective kd = snd kd" by (simp add: preserved_overrides_def)
  with None assms show ?thesis by (intro image_eqI [of _ _ kd]) (simp_all add: move_def)
next
  case (Some p)
  with preserve_sound [of effective "[]" defaults "snd kd" p] show ?thesis
    by (fastforce simp: preserved_overrides_def move_def)
qed

lemma preserve_fits:
  assumes "\<And>key h. map_of effective key = Some h \<Longrightarrow> int64_range h"
  shows "ports_fit (preserved_overrides effective defaults)"
proof -
  have "ports_fit m \<Longrightarrow> ports_fit (preserve_step effective m kd)" for m kd
    using assms by (auto simp: ports_fit_def preserve_step_def split: option.splits)
  then have "ports_fit m \<Longrightarrow> ports_fit (foldl (preserve_step effective) m ds)" for m ds
    by (induction ds arbitrary: m) auto
  from this [of "[]" defaults] show ?thesis by (simp add: preserved_overrides_def ports_fit_def)
qed

text \<open>
  C15: Host ports survive an update. When the preservation step succeeds, the compose written out
  reads back with exactly the bindings of the new catalog, each on the port the stack on disk used
  for the same service and container port, and on the new default where the stack had none. The code
  moves a host port, not a binding: bindings of the new catalog that share one default (a tcp and a
  udp port, say) move together, to the port that one of them keeps.
\<close>

theorem update_ports_preserved:
  assumes "node_codec y" "extractLoopbackHostPorts y old = Inr effective"
    "extractLoopbackHostPorts y rendered = Inr defaults"
    "preserveUpdateHostPorts y (Inr old) rendered = Inr out"
  shows "\<exists>port. extractLoopbackHostPorts y out = Inr (map (\<lambda>kd. (fst kd, port (snd kd))) defaults)
    \<and> (\<forall>kd \<in> set defaults. port (snd kd) \<in> keeps effective ` {kd' \<in> set defaults. snd kd' = snd kd})"
proof -
  let ?ov = "preserved_overrides effective defaults"
  have fit: "ports_fit ?ov" using preserve_fits extract_doc_range [OF assms(2)] by blast
  from assms(3) obtain doc where doc: "parse_doc y rendered = Some doc"
    "defaults = foldl (\<lambda>m (key, host). AList.update key host m) [] (document_ports doc)"
    by (auto simp: extractLoopbackHostPorts_def split: option.splits)
  have run: "(if ?ov = [] then Inr rendered else remap_compose y rendered ?ov) = Inr out"
    using assms(2,3,4) by (simp add: preserveUpdateHostPorts_def Let_def)
  have "extractLoopbackHostPorts y out = Inr (map (map_prod id (move ?ov)) defaults)"
  proof (cases "?ov = []")
    case True
    with run assms(3) show ?thesis by (simp add: prod.map_id0)
  next
    case False
    with run remap_ports [OF assms(1) fit False _ doc(1), of out] obtain doc' where
      "parse_doc y out = Some doc'" "document_ports doc' = map (map_prod id (move ?ov)) (document_ports doc)"
      by auto
    with collect_map [of "move ?ov" "[]" "document_ports doc"] doc(2) show ?thesis
      by (simp add: extractLoopbackHostPorts_def)
  qed
  then have "extractLoopbackHostPorts y out = Inr (map (\<lambda>kd. (fst kd, move ?ov (snd kd))) defaults)"
    by (simp add: map_prod_def case_prod_unfold)
  then show ?thesis using preserve_all by blast
qed

theorem update_ports_preserved_witness:
  "extractLoopbackHostPorts demo_codec ''moved'' = Inr [((''web'', ''80''), 8081)]"
proof -
  have "preserveUpdateHostPorts demo_codec (Inr ''moved'') ''fresh'' = Inr ''moved''"
    by (simp add: preserveUpdateHostPorts_def demo_extract preserved_overrides_def preserve_step_def demo_remap)
  from update_ports_preserved [OF demo_codec_ok demo_extract(2) demo_extract(1) this] obtain port where
    "extractLoopbackHostPorts demo_codec ''moved'' = Inr [((''web'', ''80''), port 8080)]"
    "port 8080 \<in> keeps [((''web'', ''80''), 8081)] ` {kd' \<in> set [((''web'', ''80''), 8080)]. snd kd' = 8080}"
    by auto
  then show ?thesis by (auto simp: keeps_def)
qed

end
