(* ===== verification/Guidance.thy ===== *)
theory Guidance
  imports Port_Plan Privilege Go_Net
begin

text \<open>
  The guidance an operator is shown after an install: \<open>buildInstallGuidance\<close>, the rewriting of host
  ports in its URLs and notes (\<open>internal/core/install_phase_render.go\<close>), and the disclosure of
  elevated privileges (\<open>internal/core/install_phase_deploy.go\<close>).
\<close>

subsection \<open>URLs\<close>

text \<open>Of \<open>net/url\<close>: the host name of a URL, and the URL printed again with another \<open>Host\<close>.\<close>

record url_rewriter =
  rw_hostname :: "string \<Rightarrow> string"
  rw_set_host :: "string \<Rightarrow> string \<Rightarrow> string"

definition isLoopbackGuidanceHost :: "string \<Rightarrow> bool" where
  "isLoopbackGuidanceHost host =
     (if host = ''localhost'' then True
      else case parse_ip host of None \<Rightarrow> False | Some ip \<Rightarrow> is_loopback ip)"

definition remapGuidanceURL :: "url_lib \<Rightarrow> url_rewriter \<Rightarrow> string \<Rightarrow> (int, int) gomap \<Rightarrow> string" where
  "remapGuidanceURL lib rw raw overrides =
     (if overrides = [] \<or> raw = [] then raw
      else case url_port lib raw of
        None \<Rightarrow> raw
      | Some portText \<Rightarrow>
          (if portText = [] then raw
           else case atoi portText of
             None \<Rightarrow> raw
           | Some port \<Rightarrow>
               (if \<not> isLoopbackGuidanceHost (rw_hostname rw raw) then raw
                else case map_of overrides port of
                  None \<Rightarrow> raw
                | Some newPort \<Rightarrow> rw_set_host rw raw (join_host_port (rw_hostname rw raw) (itoa newPort)))))"

subsection \<open>Notes\<close>

text \<open>
  The matches of \<open>(?:127\.0\.0\.1|\[::1\]|localhost):(\d+)\<close> in a note: single characters between
  them, and for a match its part up to the colon and its digits.
\<close>

datatype note_part = Text char | HostPort string string

definition loopback_literals :: "string list" where
  "loopback_literals = [''127.0.0.1:'', ''[::1]:'', ''localhost:'']"

definition host_port_here :: "string \<Rightarrow> (string \<times> string) option" where
  "host_port_here s =
     (case List.find (has_prefix s) loopback_literals of
        None \<Rightarrow> None
      | Some h \<Rightarrow>
          (let ds = takeWhile is_digit (drop (length h) s)
           in if ds = [] then None else Some (h, ds)))"

lemma host_port_here_Some:
  assumes "host_port_here s = Some (h, ds)"
  shows "h \<in> set loopback_literals" "ds \<noteq> []" "\<forall>c \<in> set ds. is_digit c"
    "s = h @ ds @ drop (length h + length ds) s"
proof -
  from assms have h: "List.find (has_prefix s) loopback_literals = Some h"
    and ds: "ds = takeWhile is_digit (drop (length h) s)" "ds \<noteq> []"
    by (auto simp: host_port_here_def Let_def split: option.splits if_splits)
  from h show "h \<in> set loopback_literals" by (auto simp: find_Some_iff)
  from h have "has_prefix s h" by (auto simp: find_Some_iff)
  then obtain r where r: "s = h @ r" by (auto simp: has_prefix_iff)
  show "ds \<noteq> []" by (rule ds(2))
  show "\<forall>c \<in> set ds. is_digit c" using ds(1) by (auto dest: set_takeWhileD)
  show "s = h @ ds @ drop (length h + length ds) s"
    using r ds(1) by (simp add: dropWhile_eq_drop [symmetric])
qed

lemma host_port_here_shorter:
  "host_port_here s = Some (h, ds) \<Longrightarrow> length s - (length h + length ds) < length s"
  using host_port_here_Some(2,4) [of s h ds] by (metis append_is_Nil_conv add_gr_0 diff_less length_greater_0_conv)

function note_parts :: "string \<Rightarrow> note_part list" where
  "note_parts s =
     (case host_port_here s of
        Some (h, ds) \<Rightarrow> HostPort h ds # note_parts (drop (length h + length ds) s)
      | None \<Rightarrow> (case s of [] \<Rightarrow> [] | c # r \<Rightarrow> Text c # note_parts r))"
  by pat_completeness auto
termination
  by (relation "measure length") (auto intro: host_port_here_shorter)

declare note_parts.simps [simp del]

definition remap_digits :: "(int, int) gomap \<Rightarrow> string \<Rightarrow> string" where
  "remap_digits overrides ds =
     (case atoi ds of None \<Rightarrow> ds
      | Some port \<Rightarrow> (case map_of overrides port of None \<Rightarrow> ds | Some newPort \<Rightarrow> itoa newPort))"

fun show_part :: "(int, int) gomap \<Rightarrow> note_part \<Rightarrow> string" where
  "show_part overrides (Text c) = [c]"
| "show_part overrides (HostPort h ds) = h @ remap_digits overrides ds"

definition remap_note :: "(int, int) gomap \<Rightarrow> string \<Rightarrow> string" where
  "remap_note overrides line = concat (map (show_part overrides) (note_parts line))"

definition remapGuidanceNotes :: "string list \<Rightarrow> (int, int) gomap \<Rightarrow> string list" where
  "remapGuidanceNotes notes overrides =
     (if overrides = [] then notes else map (remap_note overrides) notes)"

text \<open>Only a loopback port that an override names is rewritten.\<close>

lemma remap_note_kept:
  "(\<forall>h ds port. HostPort h ds \<in> set (note_parts line) \<longrightarrow> atoi ds = Some port \<longrightarrow> map_of overrides port = None)
     \<Longrightarrow> remap_note overrides line = line"
proof (induction line rule: note_parts.induct)
  case (1 s)
  show ?case
  proof (cases "host_port_here s")
    case (Some hd)
    then obtain h ds where hd: "host_port_here s = Some (h, ds)" by (cases hd) auto
    let ?r = "drop (length h + length ds) s"
    have p: "note_parts s = HostPort h ds # note_parts ?r" by (subst note_parts.simps) (simp add: hd)
    from "1.prems" p have keep: "remap_digits overrides ds = ds"
      by (auto simp: remap_digits_def split: option.splits)
    have "remap_note overrides ?r = ?r" using "1.IH"(2) [OF hd refl] "1.prems" p by simp
    with host_port_here_Some(4) [OF hd] show ?thesis by (simp add: remap_note_def p keep)
  next
    case None
    show ?thesis
    proof (cases s)
      case (Cons c r)
      have p: "note_parts s = Text c # note_parts r" using None Cons by (subst note_parts.simps) simp
      have "remap_note overrides r = r" using "1.IH"(1) [OF None Cons] "1.prems" p by simp
      then show ?thesis using p Cons by (simp add: remap_note_def)
    next
      case Nil
      have "note_parts [] = []" using None Nil by (subst note_parts.simps) simp
      then show ?thesis by (simp add: remap_note_def Nil)
    qed
  qed
qed

subsection \<open>Elevated privileges\<close>

definition hardening_details :: "service_hardening \<Rightarrow> string list" where
  "hardening_details h =
     (case hard_capabilities h of None \<Rightarrow> []
      | Some c \<Rightarrow> if cap_add c = [] then [] else [''capabilities '' @ join_with '', '' (sort (cap_add c))])
     @ (if hard_sysctls h = [] then []
        else [''sysctls '' @ join_with '', '' (sort (map sysctl_name (hard_sysctls h)))])
     @ (if hard_privileged h then [''privileged''] else [])"

definition hardening_line :: "service_hardening \<Rightarrow> string" where
  "hardening_line h = ''service '' @ hard_service h @ '': '' @ join_with ''; '' (hardening_details h)"

definition containerPrivilegeDisclosureLines :: "app \<Rightarrow> string list" where
  "containerPrivilegeDisclosureLines a =
     (let ls = map hardening_line (filter (\<lambda>h. hardening_details h \<noteq> []) (app_service_hardening a))
      in if ls = [] then [] else [[], ''ELEVATED PRIVILEGE''] @ sort ls)"

subsection \<open>The guidance\<close>

definition buildInstallGuidance ::
  "url_lib \<Rightarrow> url_rewriter \<Rightarrow> install_plan \<Rightarrow> ports_error + post_install_guidance" where
  "buildInstallGuidance lib rw p =
     bindE (renderInstallLocalTargetURL lib p) (\<lambda>url.
       (let notes = app_first_run_notes (plan_app p) @ containerPrivilegeDisclosureLines (plan_app p);
            pangolin = app_pangolin_guidance (plan_app p);
            overrides = port_overrides p
        in Inr \<lparr>local_target_url = remapGuidanceURL lib rw url overrides,
             pangolin_next =
               (if pg_target_url pangolin \<noteq> [] \<or> pg_recommended_subdomain pangolin \<noteq> [] \<or> pg_notes pangolin \<noteq> []
                then Some \<lparr>target_url = remapGuidanceURL lib rw (pg_target_url pangolin) overrides,
                       recommended_subdomain = pg_recommended_subdomain pangolin,
                       next_notes = remapGuidanceNotes (pg_notes pangolin) overrides\<rparr>
                else None),
             guidance_notes = remapGuidanceNotes notes overrides,
             generated_credentials = shown_credentials p\<rparr>))"

subsection \<open>No elevation is silent\<close>

lemma contains_refl [simp]: "contains s s"
  by (auto simp: contains_iff intro: exI [of _ "[]"])

lemma contains_append: "contains s p \<Longrightarrow> contains (a @ s @ b) p"
  unfolding contains_iff by (metis append.assoc)

lemma contains_prefix: "contains s p \<Longrightarrow> contains (a @ s) p"
  using contains_append [of s p a "[]"] by simp

lemma joined_contains:
  assumes "contains w p" "w \<in> set ws"
  shows "contains (join_with sep ws) p"
proof -
  obtain pre post where "join_with sep ws = pre @ w @ post" using join_with_part [OF assms(2)] by blast
  with contains_append [OF assms(1)] show ?thesis by simp
qed

lemma disclosed_lines:
  "h \<in> set (app_service_hardening a) \<Longrightarrow> hardening_details h \<noteq> []
     \<Longrightarrow> hardening_line h \<in> set (containerPrivilegeDisclosureLines a)"
  by (auto simp: containerPrivilegeDisclosureLines_def Let_def filter_empty_conv)

lemma line_contains: "contains d x \<Longrightarrow> d \<in> set (hardening_details h) \<Longrightarrow> contains (hardening_line h) x"
  by (simp add: hardening_line_def contains_prefix joined_contains flip: append_Cons)

lemma cap_disclosed:
  assumes "h \<in> set (app_service_hardening a)" "c \<in> set (declared_caps h)"
  shows "hardening_line h \<in> set (containerPrivilegeDisclosureLines a)" "contains (hardening_line h) c"
proof -
  let ?d = "''capabilities '' @ join_with '', '' (sort (declared_caps h))"
  from assms(2) obtain cs where "hard_capabilities h = Some cs" "c \<in> set (cap_add cs)"
    by (cases "hard_capabilities h") (auto simp: declared_caps_def)
  then have d: "?d \<in> set (hardening_details h)" by (auto simp: hardening_details_def declared_caps_def)
  then show "hardening_line h \<in> set (containerPrivilegeDisclosureLines a)"
    using disclosed_lines [OF assms(1)] by (metis list.distinct(1) list.set_cases)
  have "contains ?d c" using assms(2) by (intro contains_prefix joined_contains [OF contains_refl]) simp
  then show "contains (hardening_line h) c" by (rule line_contains [OF _ d])
qed

lemma sysctl_disclosed:
  assumes "h \<in> set (app_service_hardening a)" "n \<in> sysctl_name ` set (hard_sysctls h)"
  shows "hardening_line h \<in> set (containerPrivilegeDisclosureLines a)" "contains (hardening_line h) n"
proof -
  let ?d = "''sysctls '' @ join_with '', '' (sort (map sysctl_name (hard_sysctls h)))"
  have d: "?d \<in> set (hardening_details h)"
    using assms(2) by (auto simp: hardening_details_def)
  then show "hardening_line h \<in> set (containerPrivilegeDisclosureLines a)"
    using disclosed_lines [OF assms(1)] by (metis list.distinct(1) list.set_cases)
  have "contains ?d n" using assms(2) by (intro contains_prefix joined_contains [OF contains_refl]) simp
  then show "contains (hardening_line h) n" by (rule line_contains [OF _ d])
qed

lemma sysctl_map_keys: "keys_of (sysctl_map ss) = sysctl_name ` set ss"
proof -
  have "keys_of (foldl (\<lambda>m s. AList.update (sysctl_name s) (sysctl_value s) m) m ss)
      = keys_of m \<union> sysctl_name ` set ss" for m
    by (induction ss arbitrary: m) auto
  then show ?thesis by (simp add: sysctl_map_def)
qed

lemma accepted_declared:
  assumes "privilege_match a proj" "map_of proj name = Some s" "pv_cap_add s \<noteq> [] \<or> pv_sysctls s \<noteq> []"
  obtains h where "h \<in> set (app_service_hardening a)" "hard_service h = name" "service_parity h s"
proof -
  from assms have "name \<in> declaredHardeningServices a"
    by (auto simp: privilege_match_def service_bounded_def)
  then obtain h where h: "h \<in> set (app_service_hardening a)" "hard_service h = name"
    by (auto simp: declaredHardeningServices_def)
  with assms(1,2) have "service_parity h s" by (fastforce simp: privilege_match_def)
  with h that show ?thesis by blast
qed

text \<open>
  No elevated privilege ships silently. When the privilege check accepts a compose, every
  capability and every sysctl of every service it runs is named in a line of the disclosure block,
  the line of that service (a capability in the spelling of the catalog).
\<close>

lemma elevation_disclosed:
  assumes "verifyContainerPrivilegeMatchCatalog lib a bytes = None"
    and "decode_privilege lib bytes = Some proj" "map_of proj name = Some s"
  shows "(\<forall>c \<in> set (pv_cap_add s). \<exists>line \<in> set (containerPrivilegeDisclosureLines a). \<exists>d.
            contains line (''service '' @ name @ '': '') \<and> contains line d
            \<and> normalizeCapability d = normalizeCapability c)
    \<and> (\<forall>n \<in> keys_of (pv_sysctls s). \<exists>line \<in> set (containerPrivilegeDisclosureLines a).
            contains line (''service '' @ name @ '': '') \<and> contains line n)"
proof -
  from assms(1,2) have m: "privilege_match a proj"
    by (auto simp: privilege_accepts privilege_policy_def)
  have line: "contains (hardening_line h) (''service '' @ hard_service h @ '': '')" for h
    unfolding hardening_line_def contains_iff by (metis append.assoc append_Nil)
  show ?thesis
  proof (cases "pv_cap_add s \<noteq> [] \<or> pv_sysctls s \<noteq> []")
    case True
    from accepted_declared [OF m assms(3) True] obtain h where
      h: "h \<in> set (app_service_hardening a)" "hard_service h = name" "service_parity h s" .
    have "\<exists>line \<in> set (containerPrivilegeDisclosureLines a). \<exists>d.
        contains line (''service '' @ name @ '': '') \<and> contains line d
        \<and> normalizeCapability d = normalizeCapability c" if "c \<in> set (pv_cap_add s)" for c
    proof -
      from h(3) that obtain d where "d \<in> set (declared_caps h)" "normalizeCapability d = normalizeCapability c"
        unfolding service_parity_def by (metis imageE image_eqI)
      with cap_disclosed [OF h(1)] line h(2) show ?thesis by blast
    qed
    moreover have "\<exists>line \<in> set (containerPrivilegeDisclosureLines a).
        contains line (''service '' @ name @ '': '') \<and> contains line n" if "n \<in> keys_of (pv_sysctls s)" for n
    proof -
      from h(3) that have "n \<in> sysctl_name ` set (hard_sysctls h)"
        by (simp add: service_parity_def keys_of_dom flip: sysctl_map_keys)
      with sysctl_disclosed [OF h(1)] line h(2) show ?thesis by blast
    qed
    ultimately show ?thesis by blast
  qed simp
qed

lemma elevation_disclosed_witness:
  "\<exists>line \<in> set (containerPrivilegeDisclosureLines demo_app). \<exists>d.
     contains line ''service vpn: '' \<and> contains line d
     \<and> normalizeCapability d = normalizeCapability ''CAP_NET_ADMIN''"
proof -
  let ?s = "\<lparr>pv_cap_add = [''CAP_NET_ADMIN''], pv_cap_drop = [''ALL''],
         pv_sysctls = [(''net.ipv4.ip_forward'', ''1'')], pv_devices = [], pv_privileged = False\<rparr>"
  have ok: "verifyContainerPrivilegeMatchCatalog demo_yaml demo_app demo_compose = None"
  proof -
    have "service_parity h ?s" if "h \<in> set (app_service_hardening demo_app)" for h
      by (simp add: service_parity_def demo_hardening_ok [OF that] demo_caps)
    then show ?thesis
      unfolding privilege_accepts privilege_policy_def privilege_match_def prod.case demo_privilege demo_declared
      by (auto simp: demo_hardening_ok demo_bounded split: if_splits)
  qed
  from elevation_disclosed [OF ok demo_privilege, of "''vpn''" ?s] show ?thesis by simp
qed

subsection \<open>The target URL\<close>

text \<open>What the code relies on of \<open>net/url\<close> for the URLs it builds itself.\<close>

definition local_url :: "int \<Rightarrow> string" where
  "local_url port = ''http://127.0.0.1:'' @ itoa port"

definition url_laws :: "url_lib \<Rightarrow> url_rewriter \<Rightarrow> bool" where
  "url_laws lib rw \<longleftrightarrow>
     (\<forall>port. 0 \<le> port \<longrightarrow> port \<le> 65535 \<longrightarrow>
        url_port lib (local_url port) = Some (itoa port)
        \<and> rw_hostname rw (local_url port) = ''127.0.0.1''
        \<and> (\<forall>q. 0 \<le> q \<longrightarrow> q \<le> 65535 \<longrightarrow>
             rw_set_host rw (local_url port) (''127.0.0.1:'' @ itoa q) = local_url q))"

lemma itoa_not_Nil [simp]: "itoa i \<noteq> []"
  by (simp add: itoa_def)

lemma loopback_literal: "isLoopbackGuidanceHost ''127.0.0.1''"
  by (simp add: isLoopbackGuidanceHost_def go_eval parse_ip_def parse_addr4_def parse_octets_def octet_def
      addr_of_octets_def)

lemma remap_local_url:
  assumes "url_laws lib rw" "0 \<le> port" "port \<le> 65535"
    and "\<forall>q. map_of overrides port = Some q \<longrightarrow> 0 \<le> q \<and> q \<le> 65535"
  shows "remapGuidanceURL lib rw (local_url port) overrides =
    local_url (case map_of overrides port of None \<Rightarrow> port | Some q \<Rightarrow> q)"
proof -
  have a: "atoi (itoa port) = Some port" using assms(2,3) by (intro atoi_itoa) (simp add: int64_range_def)
  have u: "url_port lib (local_url port) = Some (itoa port)" "rw_hostname rw (local_url port) = ''127.0.0.1''"
    using assms(1-3) by (simp_all add: url_laws_def)
  show ?thesis
  proof (cases "map_of overrides port")
    case None
    then show ?thesis using a u by (simp add: remapGuidanceURL_def loopback_literal)
  next
    case (Some q)
    then have "local_url port \<noteq> []" "overrides \<noteq> []" by (auto simp: local_url_def)
    moreover have "rw_set_host rw (local_url port) (''127.0.0.1:'' @ itoa q) = local_url q"
      using assms Some by (simp add: url_laws_def)
    ultimately show ?thesis
      using a u Some by (simp add: remapGuidanceURL_def loopback_literal join_host_port_def)
  qed
qed

text \<open>
  Without a URL template the operator is shown http://127.0.0.1 at the host port of the first
  planned binding, remapped once more: the exact port is the override of the planned port, and the
  planned port itself only when it is not the source of an override.
\<close>

lemma guidance_target_url:
  assumes "url_laws lib rw" "app_local_target_url_template (plan_app p) = []"
    and "local_ports p = b # bs" "0 \<le> pb_host_port b" "pb_host_port b \<le> 65535"
    and "\<forall>q. map_of (port_overrides p) (pb_host_port b) = Some q \<longrightarrow> 0 \<le> q \<and> q \<le> 65535"
  shows "\<exists>g. buildInstallGuidance lib rw p = Inr g
    \<and> local_target_url g = local_url (case map_of (port_overrides p) (pb_host_port b) of
        None \<Rightarrow> pb_host_port b | Some q \<Rightarrow> q)
    \<and> generated_credentials g = shown_credentials p"
  using remap_local_url [OF assms(1,4,5,6)] assms(2,3)
  by (simp add: buildInstallGuidance_def renderInstallLocalTargetURL_def bindE_def Let_def local_url_def)

definition demo_lib :: url_lib where
  "demo_lib = \<lparr>url_port = (\<lambda>u. Some (drop 17 u)), render_template = (\<lambda>t vs. None)\<rparr>"

definition demo_rewriter :: url_rewriter where
  "demo_rewriter = \<lparr>rw_hostname = (\<lambda>u. ''127.0.0.1''), rw_set_host = (\<lambda>u h. ''http://'' @ h)\<rparr>"

lemma demo_url_laws: "url_laws demo_lib demo_rewriter"
  by (simp add: url_laws_def demo_lib_def demo_rewriter_def local_url_def)

definition demo_two_ports :: app where
  "demo_two_ports = zero_app\<lparr>app_id := ''two'', app_ports :=
     [zero_port\<lparr>port_service := ''web'', port_container := 80, port_host := 8080\<rparr>,
      zero_port\<lparr>port_service := ''api'', port_container := 81, port_host := 8081\<rparr>]\<rparr>"

definition demo_chain :: install_plan where
  "demo_chain = (zero_plan demo_two_ports)\<lparr>port_overrides := [(8080, 8081), (8081, 8082)]\<rparr>"

definition demo_chain_bound :: "port_binding list" where
  "demo_chain_bound =
     [\<lparr>pb_service = ''web'', pb_host_ip = ''127.0.0.1'', pb_host_port = 8081, pb_container_port = 80,
       pb_protocol = ''tcp''\<rparr>,
      \<lparr>pb_service = ''api'', pb_host_ip = ''127.0.0.1'', pb_host_port = 8082, pb_container_port = 81,
       pb_protocol = ''tcp''\<rparr>]"

lemmas plan_eval = go_eval planPorts_def catalogPortBindings_def index_port_def portBindings_def
  index_binding_def host_key_def refusePublicAdminPorts_def identifyAdminHostPorts_def
  plan_loop.simps plan_attempt_def applyPortOverrides_def override_step_def rewrite_port_def dup_step_def
  port_protocol_or_tcp_def zero_app_def zero_port_def bindE_def

lemma demo_chain_run:
  "planPorts demo_lib (\<lambda>w b. (None, w)) () demo_chain = (Inr (demo_chain\<lparr>local_ports := demo_chain_bound\<rparr>), ())"
  by (simp add: plan_eval demo_chain_def zero_plan_def demo_two_ports_def demo_chain_bound_def)

lemma guidance_target_url_witness:
  "\<exists>g. buildInstallGuidance demo_lib demo_rewriter (demo_chain\<lparr>local_ports := demo_chain_bound\<rparr>) = Inr g
    \<and> local_target_url g = local_url 8082"
proof -
  let ?p = "demo_chain\<lparr>local_ports := demo_chain_bound\<rparr>"
  have t: "app_local_target_url_template (plan_app ?p) = []"
    by (simp add: demo_chain_def zero_plan_def demo_two_ports_def zero_app_def)
  have l: "local_ports ?p = hd demo_chain_bound # tl demo_chain_bound" by (simp add: demo_chain_bound_def)
  have b: "pb_host_port (hd demo_chain_bound) = 8081" by (simp add: demo_chain_bound_def)
  have o: "map_of (port_overrides ?p) 8081 = Some 8082" by (simp add: demo_chain_def)
  from guidance_target_url [OF demo_url_laws t l] show ?thesis by (simp only: b o) auto
qed

text \<open>
  An override onto a port that is itself moved away sends the operator to the wrong service. With
  web on 8080 and api on 8081, moving 8080 to 8081 and 8081 to 8082 is planned as asked, web on 8081,
  but the finish screen names port 8082, which is api.
\<close>

lemma guidance_url_moved_twice:
  "\<exists>p' g. planPorts demo_lib (\<lambda>w b. (None, w)) () demo_chain = (Inr p', ())
    \<and> map pb_host_port (local_ports p') = [8081, 8082]
    \<and> buildInstallGuidance demo_lib demo_rewriter p' = Inr g
    \<and> local_target_url g = ''http://127.0.0.1:8082''"
proof -
  let ?p = "demo_chain\<lparr>local_ports := demo_chain_bound\<rparr>"
  have "remapGuidanceURL demo_lib demo_rewriter (local_url 8081) (port_overrides ?p) = local_url 8082"
    by (subst remap_local_url [OF demo_url_laws]) (simp_all add: demo_chain_def)
  moreover have "local_url 8082 = ''http://127.0.0.1:8082''" by (simp add: local_url_def go_eval)
  ultimately have "\<exists>g. buildInstallGuidance demo_lib demo_rewriter ?p = Inr g
      \<and> local_target_url g = ''http://127.0.0.1:8082''"
    by (simp add: buildInstallGuidance_def renderInstallLocalTargetURL_def bindE_def Let_def demo_chain_bound_def
        demo_chain_def zero_plan_def demo_two_ports_def zero_app_def local_url_def)
  with demo_chain_run show ?thesis by (auto simp: demo_chain_bound_def)
qed

end
