(* ===== verification/Install_Render.thy ===== *)
theory Install_Render
  imports Image_Pins Public_Binds Privilege Socket_Policy Module_Mount Ipam_Policy Completed_Services
    Leak_Check Secrets Redactor Render Compose_Remap Guidance
begin

text \<open>
  The rendering phase of an install (\<open>internal/core/install_phase_render.go\<close>): secrets, templates, the
  port remap, the guidance, and the verification passes every plan goes through before it is frozen. The
  six passes over the compose are those that the update, reconfigure and user-edit arcs run too.
\<close>

subsection \<open>Contracts of composed passes\<close>

lemma policy_lift:
  assumes "policy check holds"
  shows "policy (\<lambda>x. lift_check f (check (g x))) (\<lambda>x. holds (g x))"
  by (rule policy.intro)
    (simp_all add: lift_check_None lift_check_class policy.accepts [OF assms] policy.fails_closed [OF assms])

lemma policy_both:
  assumes "policy check1 holds1" "policy check2 holds2"
  shows "policy (\<lambda>x. or_else (check1 x) (check2 x)) (\<lambda>x. holds1 x \<and> holds2 x)"
  by (rule policy.intro)
    (rule policy_pair.pair_accepts policy_pair.pair_fails_closed, rule policy_pair.intro, rule assms, rule assms)+

subsection \<open>Reasons\<close>

datatype template_reason =
    TemplatePathInvalid string
  | TemplateUnreadable string os_error
  | AdditionalSourceInvalid string
  | ConfigSourceInvalid string

datatype stack_reason =
    PinReason pins_reason
  | BindReason binds_reason
  | PrivilegeReason privilege_reason
  | SocketReason socket_reason
  | ModuleReason module_reason
  | IpamReason ipam_reason
  | CompletedReason completed_reason
  | LeakReason leak_reason

datatype install_reason =
    SecretsReason secret_reason
  | TemplatesNotLoaded "template_reason wdm_error"
  | EnvNotRendered render_reason
  | ComposeNotRendered render_reason
  | RemapReason remap_reason
  | GuidanceNotRendered ports_error
  | StackReason stack_reason
  | AlreadyProduced

subsection \<open>The verification passes\<close>

definition verifyCompose :: "yaml_lib \<Rightarrow> app \<Rightarrow> string \<Rightarrow> stack_reason wdm_error option" where
  "verifyCompose lib a bytes =
     or_else (lift_check PinReason (verifyImagePinsMatchTemplate lib a bytes))
    (or_else (lift_check BindReason (verifyPublicBindsMatchCatalog lib a bytes))
    (or_else (lift_check PrivilegeReason (verifyContainerPrivilegeMatchCatalog lib a bytes))
    (or_else (lift_check SocketReason (verifySocketPolicyMatchCatalog lib a bytes))
    (or_else (lift_check ModuleReason (verifyHostModuleMountMatchCatalog lib a bytes))
             (lift_check IpamReason (verifyNetworkIPAMMatchCatalog lib a bytes))))))"

definition verifyRenderedStack :: "yaml_lib \<Rightarrow> app \<Rightarrow> rendered_stack \<Rightarrow> post_install_guidance option
    \<Rightarrow> string list \<Rightarrow> stack_reason wdm_error option" where
  "verifyRenderedStack lib a stack guidance secrets =
     or_else (verifyCompose lib a (compose_bytes stack))
    (or_else (lift_check CompletedReason (verifyCompletedServicesMatchCatalog a (service_labels stack)))
             (lift_check LeakReason (verifyRenderedNonSecretArtifacts secrets stack guidance)))"

definition compose_policy :: "yaml_lib \<Rightarrow> app \<times> string \<Rightarrow> bool" where
  "compose_policy lib x \<longleftrightarrow> pins_policy lib x \<and> binds_policy lib x \<and> privilege_policy lib x
     \<and> socket_policy lib x \<and> modules_policy lib x \<and> ipam_policy lib x"

lemma compose_policy_contract: "policy (\<lambda>(a, bytes). verifyCompose lib a bytes) (compose_policy lib)"
proof -
  have "policy (\<lambda>x. or_else (lift_check PinReason (case x of (a, bytes) \<Rightarrow> verifyImagePinsMatchTemplate lib a bytes))
      (or_else (lift_check BindReason (case x of (a, bytes) \<Rightarrow> verifyPublicBindsMatchCatalog lib a bytes))
      (or_else (lift_check PrivilegeReason (case x of (a, bytes) \<Rightarrow> verifyContainerPrivilegeMatchCatalog lib a bytes))
      (or_else (lift_check SocketReason (case x of (a, bytes) \<Rightarrow> verifySocketPolicyMatchCatalog lib a bytes))
      (or_else (lift_check ModuleReason (case x of (a, bytes) \<Rightarrow> verifyHostModuleMountMatchCatalog lib a bytes))
               (lift_check IpamReason (case x of (a, bytes) \<Rightarrow> verifyNetworkIPAMMatchCatalog lib a bytes)))))))
    (\<lambda>x. pins_policy lib x \<and> binds_policy lib x \<and> privilege_policy lib x
     \<and> socket_policy lib x \<and> modules_policy lib x \<and> ipam_policy lib x)"
    by (intro policy_both policy_lift [where g = "\<lambda>x. x"] pins.policy_axioms binds.policy_axioms
        privilege.policy_axioms socket.policy_axioms modules.policy_axioms ipam.policy_axioms)
  then show ?thesis
    unfolding compose_policy_def [abs_def] verifyCompose_def by (simp add: case_prod_unfold)
qed

interpretation compose: policy "\<lambda>(a, bytes). verifyCompose lib a bytes" "compose_policy lib" for lib
  by (rule compose_policy_contract)

text \<open>What a verified stack satisfies, over the app, the stack, the guidance and the secrets.\<close>

type_synonym stack_input = "app \<times> rendered_stack \<times> post_install_guidance option \<times> string list"

definition stack_policy :: "yaml_lib \<Rightarrow> stack_input \<Rightarrow> bool" where
  "stack_policy lib x = (case x of (a, stack, guidance, secrets) \<Rightarrow>
     compose_policy lib (a, compose_bytes stack)
     \<and> completed_policy (a, service_labels stack)
     \<and> leak_free (secrets, stack, guidance))"

lemma stack_policy_contract:
  "policy (\<lambda>(a, stack, guidance, secrets). verifyRenderedStack lib a stack guidance secrets) (stack_policy lib)"
  by (rule policy.intro)
    (auto simp: verifyRenderedStack_def stack_policy_def or_else_None lift_check_None completed_accepts leak_accepts
      compose.accepts [of lib "(_, _)", simplified] completed_class leak_class
      compose.fails_closed [of lib "(_, _)", simplified])

interpretation stack: policy "\<lambda>(a, stack, guidance, secrets). verifyRenderedStack lib a stack guidance secrets"
    "stack_policy lib" for lib
  by (rule stack_policy_contract)

subsection \<open>Templates\<close>

type_synonym catalog_fs = "string \<Rightarrow> os_error + string"

definition readCatalogTemplate :: "catalog_fs \<Rightarrow> string \<Rightarrow> template_reason wdm_error + string" where
  "readCatalogTemplate fs name =
     (if \<not> valid_path name then Inl (CatalogVerification (TemplatePathInvalid name))
      else case fs name of
        Inl e \<Rightarrow> Inl (Untyped (TemplateUnreadable name e))
      | Inr raw \<Rightarrow> Inr raw)"

definition read_file_templates :: "catalog_fs \<Rightarrow> (string \<Rightarrow> template_reason) \<Rightarrow> string
    \<Rightarrow> (string \<times> file_template) list \<Rightarrow> template_reason wdm_error + file_template list" where
  "read_file_templates fs invalid templateDir files =
     foldE (\<lambda>acc (src, f).
       if \<not> valid_path src then Inl (CatalogVerification (invalid src))
       else bindE (readCatalogTemplate fs (path_join templateDir src))
              (\<lambda>raw. Inr (acc @ [f\<lparr>ft_template := raw\<rparr>]))) [] files"

definition readAdditionalFileTemplates :: "catalog_fs \<Rightarrow> app \<Rightarrow> template_reason wdm_error + file_template list" where
  "readAdditionalFileTemplates fs a =
     read_file_templates fs AdditionalSourceInvalid (path_dir (app_compose_template a))
       (map (\<lambda>f. (af_src f, \<lparr>ft_dest = af_dest f, ft_mode = af_mode f, ft_mount = af_mount f, ft_template = []\<rparr>))
         (app_additional_files a))"

definition readConfigGenerationTemplates :: "catalog_fs \<Rightarrow> app \<Rightarrow> template_reason wdm_error + file_template list" where
  "readConfigGenerationTemplates fs a =
     read_file_templates fs ConfigSourceInvalid (path_dir (app_compose_template a))
       (map (\<lambda>c. (cg_template c, \<lparr>ft_dest = cg_dest c, ft_mode = cg_mode c, ft_mount = cg_mount c, ft_template = []\<rparr>))
         (app_config_generation a))"

definition installRenderInput :: "catalog_fs \<Rightarrow> install_plan \<Rightarrow> template_reason wdm_error + render_input" where
  "installRenderInput fs p =
     bindE (readCatalogTemplate fs (app_compose_template (plan_app p))) (\<lambda>composeTemplate.
     bindE (readCatalogTemplate fs (app_env_template (plan_app p))) (\<lambda>envTemplate.
     bindE (readAdditionalFileTemplates fs (plan_app p)) (\<lambda>additionalFiles.
     bindE (readConfigGenerationTemplates fs (plan_app p)) (\<lambda>configGeneration.
       Inr \<lparr>in_env_template = envTemplate, in_compose_template = composeTemplate,
         in_placeholders = plan_placeholders p, in_values = resolved_values p,
         in_app_id = app_id (plan_app p), in_additional_files = additionalFiles,
         in_config_generation = configGeneration\<rparr>))))"

subsection \<open>The phase\<close>

record 'w render_env =
  re_fs :: catalog_fs
  re_engine :: template_engine
  re_nodes :: node_yaml
  re_yaml :: yaml_lib
  re_urls :: url_lib
  re_rewriter :: url_rewriter
  re_generate :: "'w generator option"
  re_argon2id :: "'w credential_generator option"

definition wrap :: "('e \<Rightarrow> install_reason) \<Rightarrow> 'e + 'a \<Rightarrow> install_reason wdm_error + 'a" where
  "wrap f r = map_sum (\<lambda>e. RedactedVerification (f e)) id r"

definition renderStack :: "'w render_env \<Rightarrow> render_input \<Rightarrow> install_reason wdm_error + rendered_stack" where
  "renderStack env i =
     bindE (wrap EnvNotRendered (RenderEnv (re_engine env) i)) (\<lambda>envStack.
     bindE (wrap ComposeNotRendered (RenderLabels (re_engine env) (re_nodes env) i)) (\<lambda>composeStack.
       Inr (composeStack\<lparr>env_bytes := env_bytes envStack\<rparr>)))"

definition leak_secrets :: "install_plan \<Rightarrow> string list" where
  "leak_secrets p = generated_values p @ sensitiveSetValues p"

definition verify_plan :: "yaml_lib \<Rightarrow> install_plan \<Rightarrow> install_reason wdm_error option" where
  "verify_plan lib p = lift_check StackReason
     (verifyRenderedStack lib (plan_app p) (plan_rendered p) (plan_guidance p) (leak_secrets p))"

definition renderInstall :: "'w render_env \<Rightarrow> install_plan \<times> 'w \<Rightarrow> install_reason wdm_error + install_plan \<times> 'w" where
  "renderInstall env s =
     bindE (map_sum (map_wdm_error SecretsReason) id
              (generateSecretsAndBindRedactor (re_generate env) (re_argon2id env) s)) (\<lambda>(redactor, p, w).
     bindE (wrap TemplatesNotLoaded (installRenderInput (re_fs env) p)) (\<lambda>input.
     bindE (renderStack env input) (\<lambda>stack.
     bindE (map_sum (map_wdm_error RemapReason) id
              (applyComposePortRemap (re_nodes env) (compose_bytes stack) (port_overrides p))) (\<lambda>compose.
     bindE (wrap GuidanceNotRendered (buildInstallGuidance (re_urls env) (re_rewriter env) p)) (\<lambda>guidance.
       (let q = p\<lparr>plan_rendered := stack\<lparr>compose_bytes := compose\<rparr>, plan_guidance := Some guidance\<rparr>
        in guardE (verify_plan (re_yaml env) q)
             (bindE (map_sum (\<lambda>_. Coded ErrCodeGeneric AlreadyProduced) id (freeze q)) (\<lambda>q'. Inr (q', w)))))))))"

text \<open>
  The text of the refusal of the leak check, \<open>%q\<close> of a value without quotes, backslashes and characters
  that are not printable ASCII; and what is printed of it: the text behind the redactor of the phase.
\<close>

definition leak_message :: "string \<Rightarrow> string \<Rightarrow> string" where
  "leak_message name secret = name @ '' contains generated secret '' @ [CHR 0x22] @ secret @ [CHR 0x22]"

definition quotes_as_is :: "string \<Rightarrow> bool" where
  "quotes_as_is v \<longleftrightarrow> (\<forall>c \<in> set v. 32 \<le> byte c \<and> byte c < 127 \<and> c \<noteq> CHR 0x22 \<and> c \<noteq> CHR 0x5C)"

definition printed_leak_refusal :: "'w render_env \<Rightarrow> install_plan \<times> 'w \<Rightarrow> string option" where
  "printed_leak_refusal env s =
     (case (generateSecretsAndBindRedactor (re_generate env) (re_argon2id env) s, renderInstall env s) of
        (Inr (redactor, _), Inl (RedactedVerification (StackReason (LeakReason (ContainsSecret name secret))))) \<Rightarrow>
          Some (newRedactedCause (Some redactor) (leak_message name secret))
      | _ \<Rightarrow> None)"

subsection \<open>What a produced plan satisfies\<close>

lemma wrap_Inr [simp]: "wrap f r = Inr x \<longleftrightarrow> r = Inr x"
  by (cases r) (auto simp: wrap_def)

lemma map_sum_Inr [simp]: "map_sum f id r = Inr x \<longleftrightarrow> r = Inr x"
  by (cases r) auto

lemma renderInstall_Inr:
  assumes "renderInstall env (p, w) = Inr (q, w')"
  obtains p1 input stack compose guidance where
    "generateInstallSecrets (re_generate env) (re_argon2id env) (p, w) = Inr (p1, w')"
    "installRenderInput (re_fs env) p1 = Inr input" "renderStack env input = Inr stack"
    "applyComposePortRemap (re_nodes env) (compose_bytes stack) (port_overrides p1) = Inr compose"
    "buildInstallGuidance (re_urls env) (re_rewriter env) p1 = Inr guidance"
    "q = p1\<lparr>plan_rendered := stack\<lparr>compose_bytes := compose\<rparr>, plan_guidance := Some guidance, frozen := True\<rparr>"
    "verify_plan (re_yaml env) (p1\<lparr>plan_rendered := stack\<lparr>compose_bytes := compose\<rparr>,
        plan_guidance := Some guidance\<rparr>) = None"
proof -
  obtain p1 w1 where g: "generateInstallSecrets (re_generate env) (re_argon2id env) (p, w) = Inr (p1, w1)"
    using assms by (auto simp: renderInstall_def err_simps bind_redactor_Inr)
  then have "generateSecretsAndBindRedactor (re_generate env) (re_argon2id env) (p, w)
      = Inr (generated_values p1, p1, w1)" by (simp add: bind_redactor_Inr)
  with assms obtain input stack compose guidance where r:
    "installRenderInput (re_fs env) p1 = Inr input" "renderStack env input = Inr stack"
    "applyComposePortRemap (re_nodes env) (compose_bytes stack) (port_overrides p1) = Inr compose"
    "buildInstallGuidance (re_urls env) (re_rewriter env) p1 = Inr guidance"
    "verify_plan (re_yaml env) (p1\<lparr>plan_rendered := stack\<lparr>compose_bytes := compose\<rparr>,
        plan_guidance := Some guidance\<rparr>) = None"
    and f: "freeze (p1\<lparr>plan_rendered := stack\<lparr>compose_bytes := compose\<rparr>, plan_guidance := Some guidance\<rparr>) = Inr q"
      "w' = w1"
    by (auto simp: renderInstall_def err_simps Let_def)
  from f have "q = p1\<lparr>plan_rendered := stack\<lparr>compose_bytes := compose\<rparr>, plan_guidance := Some guidance,
      frozen := True\<rparr>"
    by (simp add: freeze_def split: if_splits)
  with g r f(2) that show ?thesis by blast
qed

lemma secrets_frame:
  assumes "generateInstallSecrets g ga (p, w) = Inr (p', w')"
  shows "plan_app p' = plan_app p \<and> port_overrides p' = port_overrides p"
proof -
  have step: "plan_app q' = plan_app q \<and> port_overrides q' = port_overrides q"
    if "secret_step h ha (q, v) ph = Inr (q', v')" for h ha q v ph q' and v' :: 'a
    using secret_step_Inr [OF that] by (auto simp: with_secrets_def split: if_splits)
  have "plan_app q' = plan_app q \<and> port_overrides q' = port_overrides q"
    if "foldE (secret_step h ha) (q, v) phs = Inr (q', v')" for h ha q v phs q' and v' :: 'a
    using that
  proof (induction phs arbitrary: q v)
    case (Cons ph phs)
    then obtain q1 v1 where "secret_step h ha (q, v) ph = Inr (q1, v1)"
      "foldE (secret_step h ha) (q1, v1) phs = Inr (q', v')" by (auto simp: err_simps)
    with step Cons.IH show ?case by metis
  qed simp
  with assms show ?thesis by (auto simp: generateInstallSecrets_def split: option.splits)
qed

lemma leak_secrets_update [simp]:
  "leak_secrets (p\<lparr>plan_rendered := s\<rparr>) = leak_secrets p" "leak_secrets (p\<lparr>plan_guidance := g\<rparr>) = leak_secrets p"
  "leak_secrets (p\<lparr>frozen := b\<rparr>) = leak_secrets p"
  by (simp_all add: leak_secrets_def sensitiveSetValues_def)

lemma produced_policy:
  assumes "renderInstall env (p, w) = Inr (q, w')"
  shows "plan_app q = plan_app p" "frozen q"
    "stack_policy (re_yaml env) (plan_app p, plan_rendered q, plan_guidance q, leak_secrets q)"
proof -
  from renderInstall_Inr [OF assms] obtain p1 stack compose guidance where r:
    "generateInstallSecrets (re_generate env) (re_argon2id env) (p, w) = Inr (p1, w')"
    "q = p1\<lparr>plan_rendered := stack\<lparr>compose_bytes := compose\<rparr>, plan_guidance := Some guidance, frozen := True\<rparr>"
    "verify_plan (re_yaml env) (p1\<lparr>plan_rendered := stack\<lparr>compose_bytes := compose\<rparr>,
        plan_guidance := Some guidance\<rparr>) = None" by metis
  from secrets_frame [OF r(1)] r(2) show a: "plan_app q = plan_app p" and "frozen q" by auto
  from r(3) have "verifyRenderedStack (re_yaml env) (plan_app q) (plan_rendered q) (plan_guidance q) (leak_secrets q) = None"
    by (simp add: verify_plan_def lift_check_None r(2))
  with stack.accepts [of "re_yaml env" "(plan_app q, plan_rendered q, plan_guidance q, leak_secrets q)"] a
  show "stack_policy (re_yaml env) (plan_app p, plan_rendered q, plan_guidance q, leak_secrets q)" by simp
qed

subsection \<open>Generated secrets can be hidden\<close>

text \<open>
  With the generators of the program, whatever the entropy source yields, each value that generation
  registers meets the condition under which the redactor hides it everywhere.
\<close>

lemma contained_short: "contains s w \<Longrightarrow> length w \<le> length s \<and> set w \<subseteq> set s"
  by (auto simp: contains_iff)

lemma generated_hidden:
  assumes "GenerateSecret read enc w = (Inr v, w')" "\<And>w n buf w'. read w n = (Inr buf, w') \<Longrightarrow> length buf = n"
  shows "hidden_secret v"
proof -
  from generated_secret_shape [OF assms(1)] assms(2) consider "length v = 43" "set v \<subseteq> set url_alphabet"
    | "length v = 44" "set v \<subseteq> set std_alphabet \<union> {CHR ''=''}" | "length v = 64" "\<forall>c \<in> set v. lower_hex c" by blast
  then have "CHR ''['' \<notin> set v \<and> CHR '']'' \<notin> set v \<and> 8 < length v"
  proof cases
    case 1
    have "CHR ''['' \<notin> set url_alphabet" "CHR '']'' \<notin> set url_alphabet" by code_simp+
    with 1 show ?thesis by auto
  next
    case 2
    have "CHR ''['' \<notin> set std_alphabet" "CHR '']'' \<notin> set std_alphabet" by code_simp+
    with 2 show ?thesis by auto
  next
    case 3
    have "\<not> lower_hex (CHR ''['')" "\<not> lower_hex (CHR '']'')" by code_simp+
    with 3 show ?thesis by auto
  qed
  with contained_short [of "''REDACTED''" v] show ?thesis by (auto simp: hidden_secret_def)
qed

lemma dollars_kept: "set (installEnvEscapeDollar s) = set s"
  by (induction s) auto

lemma itoa_brackets: "CHR ''['' \<notin> set (itoa i)" "CHR '']'' \<notin> set (itoa i)"
proof -
  have "\<not> is_digit (CHR ''['')" "\<not> is_digit (CHR '']'')" by code_simp+
  then show "CHR ''['' \<notin> set (itoa i)" "CHR '']'' \<notin> set (itoa i)"
    by (auto simp: itoa_def dest: dec_digits_are_digits)
qed

lemma credential_hidden:
  assumes "GenerateArgon2idCredential idkey read w = (Inr (plaintext, phc), w')"
  shows "hidden_secret (installEnvEscapeDollar phc)"
proof -
  from assms obtain salt hash where phc: "phc = format_phc salt hash"
    by (auto simp: GenerateArgon2idCredential_def Let_def split: prod.splits sum.splits)
  have chars: "set (base64 std_alphabet False x) \<subseteq> set std_alphabet" for x
    using base64_chars [OF base64_alphabets(2), of False x] by simp
  have "CHR ''['' \<notin> set std_alphabet" "CHR '']'' \<notin> set std_alphabet" by code_simp+
  with chars have "CHR ''['' \<notin> set phc" "CHR '']'' \<notin> set phc"
    unfolding phc format_phc_def
    by (auto simp: itoa_brackets)
  moreover have "CHR ''$'' \<in> set phc" by (simp add: phc format_phc_def)
  ultimately show ?thesis
    using contained_short [of "''REDACTED''" "installEnvEscapeDollar phc"]
    by (auto simp: hidden_secret_def dollars_kept dest: arg_cong [of _ _ set])
qed

lemma minted_hidden:
  assumes "mints_all (GenerateSecret read) (GenerateArgon2idCredential idkey read) a phs w outs w'"
    and "\<And>w n buf w'. read w n = (Inr buf, w') \<Longrightarrow> length buf = n"
  shows "\<forall>out \<in> set outs. hidden_secret (fst out)"
  using assms(1)
proof (induction phs arbitrary: w outs)
  case (Cons ph phs)
  then obtain out rest w1 where o: "outs = out # rest"
    "mints (GenerateSecret read) (GenerateArgon2idCredential idkey read) a ph w out w1"
    "mints_all (GenerateSecret read) (GenerateArgon2idCredential idkey read) a phs w1 rest w'"
    by (cases outs) auto
  from o(2) have "hidden_secret (fst out)"
    using generated_hidden [OF _ assms(2)] credential_hidden by (auto simp: mints_def)
  with Cons.IH [OF o(3)] o(1) show ?case by simp
qed simp

subsection \<open>A concrete install\<close>

text \<open>
  One generated secret, one sensitive value given on the command line, one configuration file; the
  YAML decoder of the example sees no services, so the catalog declares none.
\<close>

definition quiet_yaml :: yaml_lib where
  "quiet_yaml = \<lparr>um_images = (\<lambda>_. Some []), um_ports = (\<lambda>_. Some []), um_privilege = (\<lambda>_. Some []),
     um_volumes = (\<lambda>_. Some []), um_networks = (\<lambda>_. Some []), dec_port_long = (\<lambda>_. None),
     dec_string = (\<lambda>_. None), dec_string_list = (\<lambda>_. None), dec_string_map = (\<lambda>_. None),
     dec_source = (\<lambda>_. None), dec_module = (\<lambda>_. None), dec_attachments = (\<lambda>_. None)\<rparr>"

definition demo_files :: catalog_fs where
  "demo_files name =
     (if name = ''demo/compose.tmpl'' then Inr ''plain''
      else if name = ''demo/env.tmpl'' then Inr ''PW=1''
      else if name = ''demo/app.ini'' then Inr ''[app]'' else Inl NotExist)"

definition demo_env :: "nat render_env" where
  "demo_env = \<lparr>re_fs = demo_files, re_engine = demo_engine, re_nodes = demo_nodes, re_yaml = quiet_yaml,
     re_urls = demo_lib, re_rewriter = demo_rewriter, re_generate = Some (\<lambda>enc n. (Inr ''c0ffee'', Suc n)),
     re_argon2id = Some (\<lambda>n. (Inl (UsageValidation GeneratorRequired), n))\<rparr>"

definition demo_secret_app :: app where
  "demo_secret_app = zero_app\<lparr>app_id := ''demo'', app_compose_template := ''demo/compose.tmpl'',
     app_env_template := ''demo/env.tmpl'',
     app_placeholders :=
       [\<lparr>ph_name = ''PW'', ph_type = ''secret'', ph_required = True, ph_encoding = ''hex'', ph_default = None,
          ph_regenerable = None, ph_sensitive = False\<rparr>,
        \<lparr>ph_name = ''KEY'', ph_type = ''string'', ph_required = True, ph_encoding = [], ph_default = None,
          ph_regenerable = None, ph_sensitive = True\<rparr>],
     app_config_generation :=
       [\<lparr>cg_template = ''app.ini'', cg_dest = ''conf/app.ini'', cg_mode = ''0644'', cg_mount = ''./conf:/conf''\<rparr>]\<rparr>"

definition demo_install :: "string \<Rightarrow> install_plan" where
  "demo_install key = (zero_plan demo_secret_app)\<lparr>resolved_values := [(''KEY'', key)],
     plan_placeholders :=
       [\<lparr>rp_name = ''PW'', rp_type = ''secret'', rp_required = True, rp_default = None, rp_regenerable = None\<rparr>,
        \<lparr>rp_name = ''KEY'', rp_type = ''string'', rp_required = True, rp_default = None, rp_regenerable = None\<rparr>]\<rparr>"

definition demo_filled :: "string \<Rightarrow> install_plan" where
  "demo_filled key = (demo_install key)\<lparr>resolved_values := [(''KEY'', key), (''PW'', ''c0ffee'')],
     generated_values := [''c0ffee'']\<rparr>"

definition demo_render_input :: "string \<Rightarrow> render_input" where
  "demo_render_input key = \<lparr>in_env_template = ''PW=1'', in_compose_template = ''plain'',
     in_placeholders = plan_placeholders (demo_install key),
     in_values = [(''KEY'', key), (''PW'', ''c0ffee'')], in_app_id = ''demo'', in_additional_files = [],
     in_config_generation = in_config_generation demo_input\<rparr>"

lemma demo_secret_placeholders: "app_placeholders (plan_app (demo_install key)) =
     [\<lparr>ph_name = ''PW'', ph_type = ''secret'', ph_required = True, ph_encoding = ''hex'', ph_default = None,
          ph_regenerable = None, ph_sensitive = False\<rparr>,
        \<lparr>ph_name = ''KEY'', ph_type = ''string'', ph_required = True, ph_encoding = [], ph_default = None,
          ph_regenerable = None, ph_sensitive = True\<rparr>]"
  by (simp add: demo_install_def zero_plan_def demo_secret_app_def)

lemma demo_generate:
  "generateInstallSecrets (re_generate demo_env) (re_argon2id demo_env) (demo_install key, 0)
     = Inr (demo_filled key, 1)"
  unfolding generateInstallSecrets_def fst_conv demo_secret_placeholders
  by (simp add: demo_env_def secret_step_def bind_secret_def encoding_names demo_filled_def)
    (simp add: demo_install_def zero_plan_def)

lemma demo_redactor_bound:
  "generateSecretsAndBindRedactor (re_generate demo_env) (re_argon2id demo_env) (demo_install key, 0)
     = Inr ([''c0ffee''], demo_filled key, 1)"
  unfolding bind_redactor_Inr by (simp add: demo_generate) (simp add: demo_filled_def)

lemma ascii_path:
  "(\<forall>c \<in> set s. byte c < 128) \<Longrightarrow> list_all (\<lambda>w. w \<noteq> [] \<and> w \<noteq> ''.'' \<and> w \<noteq> ''..'') (split_on (CHR ''/'') s)
     \<Longrightarrow> valid_path s"
  by (simp add: valid_path_def valid_utf8_def utf8_ascii)

lemma demo_paths: "valid_path ''demo/compose.tmpl''" "valid_path ''demo/env.tmpl''" "valid_path ''app.ini''"
    "valid_path ''demo/app.ini''"
  by (rule ascii_path; simp add: byte_def)+

lemma demo_join: "path_join (path_dir ''demo/compose.tmpl'') ''app.ini'' = ''demo/app.ini''"
  by (simp add: path_join_def path_dir_def path_clean_def is_abs_def)

lemma demo_load: "installRenderInput (re_fs demo_env) (demo_filled key) = Inr (demo_render_input key)"
proof -
  have a: "plan_app (demo_filled key) = demo_secret_app"
    by (simp add: demo_filled_def demo_install_def zero_plan_def)
  have t: "app_compose_template demo_secret_app = ''demo/compose.tmpl''" "app_env_template demo_secret_app = ''demo/env.tmpl''"
    "app_additional_files demo_secret_app = []" "app_id demo_secret_app = ''demo''"
    by (simp_all add: demo_secret_app_def zero_app_def)
  have f: "re_fs demo_env = demo_files" by (simp add: demo_env_def)
  have c: "readConfigGenerationTemplates demo_files demo_secret_app = Inr (in_config_generation demo_input)"
    unfolding readConfigGenerationTemplates_def read_file_templates_def t demo_join
    by (simp add: demo_secret_app_def demo_paths demo_join [simplified] readCatalogTemplate_def demo_files_def demo_input_def)
  show ?thesis
    unfolding installRenderInput_def a f t readCatalogTemplate_def
    by (simp add: demo_paths demo_files_def [of "''demo/compose.tmpl''"] demo_files_def [of "''demo/env.tmpl''"]
        readAdditionalFileTemplates_def read_file_templates_def t c demo_render_input_def)
      (simp add: demo_filled_def demo_install_def zero_plan_def)
qed

lemma demo_render_input_ok: "validate_input (demo_render_input key) = None"
  by (auto simp: validate_input_None demo_render_input_def demo_install_def zero_plan_def type_is_valid_def keys_of_def)

lemma demo_stack_rendered:
  "renderStack demo_env (demo_render_input key) = Inr (demo_rendered\<lparr>env_bytes := ''PW=1''\<rparr>)"
proof -
  have "RenderEnv demo_engine (demo_render_input key) = Inr (zero_stack\<lparr>env_bytes := ''PW=1''\<rparr>)"
    by (simp add: RenderEnv_def demo_render_input_ok execute_def demo_engine_def) (simp add: demo_render_input_def)
  moreover have "RenderLabels demo_engine demo_nodes (demo_render_input key) = Inr demo_rendered"
    by (rule demo_render_for [OF demo_render_input_ok]) (simp_all add: demo_render_input_def)
  ultimately show ?thesis
    by (simp add: renderStack_def demo_env_def wrap_def)
qed

definition demo_shown :: post_install_guidance where
  "demo_shown = \<lparr>local_target_url = [], pangolin_next = None, guidance_notes = [], generated_credentials = []\<rparr>"

lemma demo_guide:
  "buildInstallGuidance (re_urls demo_env) (re_rewriter demo_env) (demo_filled key) = Inr demo_shown"
  by (simp add: buildInstallGuidance_def renderInstallLocalTargetURL_def remapGuidanceURL_def remapGuidanceNotes_def
      containerPrivilegeDisclosureLines_def demo_filled_def demo_install_def zero_plan_def demo_secret_app_def
      zero_app_def demo_shown_def)

lemma demo_compose_ok: "compose_policy quiet_yaml (demo_secret_app, bytes)"
proof -
  have d: "um_images quiet_yaml bytes = Some []" "decode_ports quiet_yaml bytes = Some []"
    "decode_privilege quiet_yaml bytes = Some []" "decode_socket quiet_yaml bytes = Some []"
    "decode_module quiet_yaml bytes = Some []" "decode_ipam quiet_yaml bytes = Some []"
    by (simp_all add: quiet_yaml_def decode_ports_def decode_privilege_def decode_socket_def decode_module_def
        decode_ipam_def)
  have a: "app_image_pins demo_secret_app = []" "app_ports demo_secret_app = []" "app_networks demo_secret_app = []"
    "app_service_hardening demo_secret_app = []" "app_socket_proxy demo_secret_app = None"
    by (simp_all add: demo_secret_app_def zero_app_def)
  show ?thesis
    by (simp add: compose_policy_def pins_policy_def binds_policy_def privilege_policy_def socket_policy_def
        modules_policy_def ipam_policy_def d pins_match_def a binds_match_def public_decls_def public_entries_def
        declared_binds_def published_binds_def privilege_match_def proxy_declaration_ok_def socket_only_in_proxy_def
        active_proxy_def modules_match_def declaredModuleMountServices_def pinned_ip_def declared_ip_def)
qed

lemma demo_completed_ok: "completed_policy (demo_secret_app, labels)"
  by (simp add: completed_policy_def demo_secret_app_def zero_app_def)

definition demo_produced :: "string \<Rightarrow> install_plan" where
  "demo_produced key = (demo_filled key)\<lparr>plan_rendered := demo_rendered\<lparr>env_bytes := ''PW=1''\<rparr>,
     plan_guidance := Some demo_shown\<rparr>"

lemma demo_produced_app: "plan_app (demo_produced key) = demo_secret_app"
  by (simp add: demo_produced_def demo_filled_def demo_install_def zero_plan_def)

lemma demo_leak_secrets: "key \<noteq> [] \<Longrightarrow> leak_secrets (demo_produced key) = [''c0ffee'', key]"
proof -
  assume "key \<noteq> []"
  have "app_placeholders (plan_app (demo_produced key)) = app_placeholders (plan_app (demo_install key))"
    by (simp add: demo_produced_app) (simp add: demo_install_def zero_plan_def)
  moreover have "resolved_values (demo_produced key) = [(''KEY'', key), (''PW'', ''c0ffee'')]"
    "generated_values (demo_produced key) = [''c0ffee'']"
    by (simp_all add: demo_produced_def demo_filled_def)
  ultimately show ?thesis
    using \<open>key \<noteq> []\<close> by (simp add: leak_secrets_def sensitiveSetValues_def demo_secret_placeholders get_or_def)
qed

lemma demo_render_until_checks:
  "renderInstall demo_env (demo_install key, 0) =
     guardE (verify_plan quiet_yaml (demo_produced key))
       (Inr ((demo_produced key)\<lparr>frozen := True\<rparr>, 1))"
proof -
  have o: "port_overrides (demo_filled key) = []" "re_nodes demo_env = demo_nodes" "re_yaml demo_env = quiet_yaml"
    by (simp_all add: demo_filled_def demo_install_def zero_plan_def demo_env_def)
  have f: "freeze (demo_produced key) = Inr ((demo_produced key)\<lparr>frozen := True\<rparr>)"
    by (simp add: freeze_def demo_produced_def demo_filled_def demo_install_def zero_plan_def)
  have c: "(demo_rendered\<lparr>env_bytes := ''PW=1''\<rparr>)\<lparr>compose_bytes := compose_bytes (demo_rendered\<lparr>env_bytes := ''PW=1''\<rparr>)\<rparr>
      = demo_rendered\<lparr>env_bytes := ''PW=1''\<rparr>" by simp
  show ?thesis
    unfolding renderInstall_def demo_redactor_bound map_sum.simps bindE_simps prod.case
    by (simp only: demo_redactor_bound map_sum.simps bindE_simps prod.case wrap_def demo_load demo_stack_rendered o demo_guide
        applyComposePortRemap_def simp_thms if_True Let_def id_apply c demo_produced_def [symmetric] f)
qed

lemma demo_verify:
  "verify_plan quiet_yaml (demo_produced key) = lift_check StackReason (lift_check LeakReason
     (verifyRenderedNonSecretArtifacts (leak_secrets (demo_produced key)) (demo_rendered\<lparr>env_bytes := ''PW=1''\<rparr>)
        (Some demo_shown)))"
proof -
  have "verifyCompose quiet_yaml demo_secret_app bytes = None" for bytes
    using compose.accepts [of quiet_yaml "(demo_secret_app, bytes)"] demo_compose_ok by simp
  moreover have "verifyCompletedServicesMatchCatalog demo_secret_app labels = None" for labels
    using demo_completed_ok completed_accepts by blast
  moreover have "plan_rendered (demo_produced key) = demo_rendered\<lparr>env_bytes := ''PW=1''\<rparr>"
    "plan_guidance (demo_produced key) = Some demo_shown"
    by (simp_all add: demo_produced_def)
  ultimately show ?thesis
    by (simp add: verify_plan_def verifyRenderedStack_def demo_produced_app or_else_def lift_check_def)
qed

lemma demo_artifacts:
  "non_secret_artifacts (demo_rendered\<lparr>env_bytes := ''PW=1''\<rparr>) (Some demo_shown) =
     [(''docker-compose.yml'', ''labelled''), (''post-install guidance'', []), (''conf/app.ini'', ''[app]'')]"
  by (simp add: non_secret_artifacts_def public_files_def demo_rendered_def zero_stack_def guidanceText_def
      guidance_parts_def demo_shown_def)

lemma demo_install_run:
  "renderInstall demo_env (demo_install ''k3y'', 0) = Inr ((demo_produced ''k3y'')\<lparr>frozen := True\<rparr>, 1)"
  unfolding demo_render_until_checks demo_verify verifyRenderedNonSecretArtifacts_def demo_artifacts
  by (simp add: demo_leak_secrets lift_check_def)

text \<open>
  C20: A plan leaves the rendering phase only verified. When it succeeds the plan is frozen, the
  compose it will deploy satisfies all six policies of the catalog (image pins, public binds, privileges,
  Docker socket, kernel modules, static addresses), the completed services are real ones, and no
  generated secret and no sensitive value is in an artifact that is not a secret sink.
\<close>

theorem render_install_verified:
  assumes "renderInstall env (p, w) = Inr (q, w')"
  shows "frozen q \<and> plan_app q = plan_app p
    \<and> compose_policy (re_yaml env) (plan_app p, compose_bytes (plan_rendered q))
    \<and> completed_policy (plan_app p, service_labels (plan_rendered q))
    \<and> leak_free (generated_values q @ sensitiveSetValues q, plan_rendered q, plan_guidance q)"
  using produced_policy [OF assms] by (simp add: stack_policy_def leak_secrets_def)

theorem render_install_verified_witness:
  "compose_policy quiet_yaml (demo_secret_app, ''labelled'')
   \<and> leak_free ([''c0ffee'', ''k3y''], demo_rendered\<lparr>env_bytes := ''PW=1''\<rparr>, Some demo_shown)"
proof -
  let ?q = "(demo_produced ''k3y'')\<lparr>frozen := True\<rparr>"
  have f: "plan_rendered ?q = demo_rendered\<lparr>env_bytes := ''PW=1''\<rparr>" "plan_guidance ?q = Some demo_shown"
    "re_yaml demo_env = quiet_yaml" "plan_app (demo_install ''k3y'') = demo_secret_app"
    "compose_bytes demo_rendered = ''labelled''"
    by (simp_all add: demo_produced_def demo_env_def demo_install_def zero_plan_def demo_rendered_def zero_stack_def)
  have "generated_values ?q @ sensitiveSetValues ?q = [''c0ffee'', ''k3y'']"
    using demo_leak_secrets [of "''k3y''"] leak_secrets_update(3) [where p = "demo_produced ''k3y''" and b = True]
    by (simp only: leak_secrets_def) simp
  with render_install_verified [OF demo_install_run] f show ?thesis by (simp only: f) (simp add: f(5))
qed

lemma leak_refused:
  assumes "verifyRenderedNonSecretArtifacts secrets stack guidance = Some (RedactedVerification (ContainsSecret name v))"
  shows "v \<in> set secrets \<and> v \<noteq> []"
proof -
  from first_err_Some [OF assms [unfolded verifyRenderedNonSecretArtifacts_def]] obtain n bytes where
    "first_err (\<lambda>secret. if secret = [] \<or> \<not> contains bytes secret then None
       else Some (RedactedVerification (ContainsSecret n secret))) secrets
     = Some (RedactedVerification (ContainsSecret name v))" by auto
  from first_err_Some [OF this] show ?thesis by (auto split: if_splits)
qed

lemma wrap_Inl: "wrap f r = Inl x \<longleftrightarrow> (\<exists>e. r = Inl e \<and> x = RedactedVerification (f e))"
  by (cases r) (auto simp: wrap_def)

lemma mapped_reason: "map_wdm_error f e = RedactedVerification x \<longleftrightarrow> (\<exists>y. e = RedactedVerification y \<and> x = f y)"
  by (cases e) auto

lemma map_error_redacted:
  "map_sum (map_wdm_error f) id r = Inl (RedactedVerification x) \<longleftrightarrow> (\<exists>y. r = Inl (RedactedVerification y) \<and> x = f y)"
  by (cases r) (auto simp: mapped_reason)

lemma lifted_reason:
  "lift_check f c = Some (RedactedVerification x) \<longleftrightarrow> (\<exists>y. c = Some (RedactedVerification y) \<and> x = f y)"
  by (cases c) (auto simp: lift_check_def mapped_reason)

lemma or_else_fails: "or_else c d = Some e \<longleftrightarrow> c = Some e \<or> (c = None \<and> d = Some e)"
  by (cases c) (auto simp: or_else_def)

lemma verify_plan_leak:
  assumes "verify_plan lib p = Some (RedactedVerification (StackReason (LeakReason (ContainsSecret name v))))"
  shows "v \<in> set (leak_secrets p) \<and> v \<noteq> []"
proof -
  from assms have "verifyRenderedNonSecretArtifacts (leak_secrets p) (plan_rendered p) (plan_guidance p)
      = Some (RedactedVerification (ContainsSecret name v))"
    by (auto simp: verify_plan_def verifyRenderedStack_def verifyCompose_def lifted_reason or_else_fails)
  then show ?thesis by (rule leak_refused)
qed

lemma renderStack_refused: "renderStack env i \<noteq> Inl (RedactedVerification (StackReason r))"
  by (auto simp: renderStack_def bindE_Inl wrap_Inl)

lemma freeze_refused: "map_sum (\<lambda>_. Coded c r) id (freeze p) \<noteq> Inl (RedactedVerification r')"
  by (cases "freeze p") auto

lemma renderInstall_leak:
  assumes "renderInstall env (p, w) = Inl (RedactedVerification (StackReason (LeakReason (ContainsSecret name v))))"
    and "generateInstallSecrets (re_generate env) (re_argon2id env) (p, w) = Inr (q, w')"
  shows "v \<in> set (leak_secrets q) \<and> v \<noteq> []"
proof -
  have "generateSecretsAndBindRedactor (re_generate env) (re_argon2id env) (p, w) = Inr (generated_values q, q, w')"
    using assms(2) by (simp add: bind_redactor_Inr)
  with assms(1) obtain stack guidance where
    "verify_plan (re_yaml env) (q\<lparr>plan_rendered := stack, plan_guidance := guidance\<rparr>)
       = Some (RedactedVerification (StackReason (LeakReason (ContainsSecret name v))))"
    by (auto simp: renderInstall_def bindE_Inl guardE_Inl wrap_Inl map_error_redacted Let_def renderStack_refused
        freeze_refused)
  from verify_plan_leak [OF this] show ?thesis by simp
qed



subsection \<open>Labels survive the port remap\<close>

lemma find_after_update:
  "key \<noteq> j \<Longrightarrow> assoc_where (\<lambda>k. k = ScalarNode j) (update_where (\<lambda>k. node_value k = key) f kvs)
     = assoc_where (\<lambda>k. k = ScalarNode j) kvs"
  by (induction kvs) auto

lemma rewrite_service_find:
  "findMapValue (rewrite_service ov s) ''labels'' = findMapValue s ''labels''"
proof (cases "mappingValue s ''ports''")
  case (Some n)
  then show ?thesis
    by (cases s; cases n) (simp_all add: rewrite_service_def find_after_update)
qed (simp add: rewrite_service_def)

lemma rewrite_service_mapping: "is_mapping (rewrite_service ov s) = is_mapping s"
  by (cases s) (auto simp: rewrite_service_def split: option.splits yaml_node.splits)

lemma rewrite_service_labelled: "labelled a s \<Longrightarrow> labelled a (rewrite_service ov s)"
  by (simp add: labelled_def rewrite_service_find)

lemma first_of_both:
  assumes "assoc_where (\<lambda>k. k = ScalarNode key) kvs = Some v"
  shows "assoc_where (\<lambda>k. k = ScalarNode key) (update_where (\<lambda>k. node_value k = key) f kvs) = Some v
    \<or> (assoc_where (\<lambda>k. node_value k = key) kvs = Some v
       \<and> assoc_where (\<lambda>k. k = ScalarNode key) (update_where (\<lambda>k. node_value k = key) f kvs) = Some (f v))"
  using assms by (induction kvs) (auto split: if_splits)

lemma rewrite_document_services:
  assumes "compose_services (DocumentNode [n]) = Inr services"
  shows "compose_services (rewrite_document ov (DocumentNode [n])) = Inr services
    \<or> compose_services (rewrite_document ov (DocumentNode [n]))
        = Inr (map (\<lambda>(k, v). (k, rewrite_service ov v)) services)"
proof -
  from assms obtain kvs where n: "n = MappingNode kvs"
    "assoc_where (\<lambda>k. k = ScalarNode ''services'') kvs = Some (MappingNode services)"
    by (auto simp: compose_services_def split: option.splits yaml_node.splits)
  show ?thesis
  proof (cases "mappingValue n ''services''")
    case (Some m)
    show ?thesis
    proof (cases m)
      case (MappingNode svcs)
      from first_of_both [OF n(2), of "\<lambda>_. MappingNode (map (\<lambda>(k, v). (k, rewrite_service ov v)) svcs)"] Some MappingNode n
      show ?thesis by (auto simp: compose_services_def)
    qed (use Some n assms in simp_all)
  qed (use n assms in simp)
qed

lemma remap_tree:
  assumes "node_codec y" "applyComposePortRemap y bytes ov = Inr out" "parse_doc y bytes = Some (DocumentNode [n])"
  shows "parse_doc y out = Some (DocumentNode [n]) \<or> parse_doc y out = Some (rewrite_document ov (DocumentNode [n]))"
proof -
  from assms(2) consider "out = bytes"
    | matched where "rewriteComposeHostPorts y bytes ov = Inr (out, matched)"
    by (auto simp: applyComposePortRemap_def remap_compose_def err_simps split: if_splits sum.splits prod.splits)
  then show ?thesis
  proof cases
    case 2
    with assms(3) consider "out = bytes" | "encode_doc y (rewrite_document ov (DocumentNode [n])) = Some out"
      by (auto simp: rewriteComposeHostPorts_def Let_def split: if_splits option.splits)
    then show ?thesis
      using assms(3) codec_encode [OF assms(1)] rewrite_document_kind [of ov n] by cases metis+
  qed (use assms(3) in simp)
qed

text \<open>
  What is deployed is labelled. In the compose of a produced plan, read back, every service is a
  mapping with the labels wdm.managed = true and wdm.app = the app of the plan, also after host ports
  were moved, provided no service name occurs twice.
\<close>

lemma deployed_services_labelled:
  assumes "node_codec (re_nodes env)" "renderInstall env (p, w) = Inr (q, w')"
  shows "\<exists>doc services. parse_doc (re_nodes env) (compose_bytes (plan_rendered q)) = Some doc
    \<and> compose_services doc = Inr services
    \<and> (distinct (map (node_value \<circ> fst) services) \<longrightarrow>
        (\<forall>kv \<in> set services. labelled (app_id (plan_app p)) (snd kv)))"
proof -
  from renderInstall_Inr [OF assms(2)] obtain p1 input stack compose guidance where r:
    "generateInstallSecrets (re_generate env) (re_argon2id env) (p, w) = Inr (p1, w')"
    "installRenderInput (re_fs env) p1 = Inr input" "renderStack env input = Inr stack"
    "applyComposePortRemap (re_nodes env) (compose_bytes stack) (port_overrides p1) = Inr compose"
    "q = p1\<lparr>plan_rendered := stack\<lparr>compose_bytes := compose\<rparr>, plan_guidance := Some guidance, frozen := True\<rparr>"
    by metis
  then have c: "compose_bytes (plan_rendered q) = compose" by simp
  have id: "in_app_id input = app_id (plan_app p)"
    using r(2) secrets_frame [OF r(1)] by (auto simp: installRenderInput_def err_simps)
  from r(3) obtain composeStack where s: "RenderLabels (re_engine env) (re_nodes env) input = Inr composeStack"
    "compose_bytes stack = compose_bytes composeStack" by (auto simp: renderStack_def err_simps)
  from labels_read_back [OF assms(1) s(1)] obtain doc services where d:
    "parse_doc (re_nodes env) (compose_bytes composeStack) = Some doc" "compose_services doc = Inr services"
    "\<forall>pre kv post. services = pre @ kv # post \<longrightarrow> labelled (in_app_id input) (snd kv)
      \<or> node_value (fst kv) \<in> (node_value \<circ> fst) ` set post
        \<and> (\<exists>l. findMapValue (snd kv) ''labels'' = Some l \<and> \<not> is_mapping l)"
    by blast
  have all: "\<forall>kv \<in> set services. labelled (in_app_id input) (snd kv)"
    if "distinct (map (node_value \<circ> fst) services)"
  proof
    fix kv assume "kv \<in> set services"
    then obtain pre post where split: "services = pre @ kv # post" by (auto simp: in_set_conv_decomp)
    with that have "node_value (fst kv) \<notin> (node_value \<circ> fst) ` set post" by auto
    with d(3) split show "labelled (in_app_id input) (snd kv)" by blast
  qed
  obtain n where n: "doc = DocumentNode [n]"
    using codec_parse [OF assms(1) d(1)] d(2) by (auto simp: compose_services_def)
  let ?moved = "map (\<lambda>(k, v). (k, rewrite_service (port_overrides p1) v)) services"
  have moved: "map (node_value \<circ> fst) ?moved = map (node_value \<circ> fst) services" by auto
  from remap_tree [OF assms(1) r(4)] s(2) d(1) n obtain doc' where d': "parse_doc (re_nodes env) compose = Some doc'"
    "doc' = DocumentNode [n] \<or> doc' = rewrite_document (port_overrides p1) (DocumentNode [n])" by auto
  from d'(2) rewrite_document_services [OF d(2) [unfolded n], of "port_overrides p1"] d(2) n
  consider "compose_services doc' = Inr services" | "compose_services doc' = Inr ?moved" by blast
  then show ?thesis
  proof cases
    case 1
    with d'(1) all id c show ?thesis by auto
  next
    case 2
    have "labelled (app_id (plan_app p)) (snd kv)"
      if "distinct (map (node_value \<circ> fst) ?moved)" "kv \<in> set ?moved" for kv
      using that all id moved rewrite_service_labelled by (auto simp only: set_map) fastforce
    with 2 d'(1) c show ?thesis by blast
  qed
qed

lemma deployed_services_labelled_witness:
  "\<exists>doc services. parse_doc demo_nodes ''labelled'' = Some doc \<and> compose_services doc = Inr services
    \<and> (distinct (map (node_value \<circ> fst) services) \<longrightarrow> (\<forall>kv \<in> set services. labelled ''demo'' (snd kv)))"
proof -
  have f: "re_nodes demo_env = demo_nodes" "compose_bytes (plan_rendered ((demo_produced ''k3y'')\<lparr>frozen := True\<rparr>)) = ''labelled''"
    "app_id (plan_app (demo_install ''k3y'')) = ''demo''"
    by (simp_all add: demo_env_def demo_produced_def demo_rendered_def zero_stack_def demo_install_def zero_plan_def
        demo_secret_app_def)
  have "node_codec (re_nodes demo_env)" by (simp add: f demo_nodes_ok)
  from deployed_services_labelled [OF this demo_install_run] show ?thesis unfolding f .
qed

end
