(* ===== verification/Docker_Argv.thy ===== *)
theory Docker_Argv
  imports Go_Paths Go_Net
begin

text \<open>
  The Docker command surface of \<open>internal/docker\<close>: the closed set of invocations, the validators of
  their fields (\<open>compose_deploy.go\<close>, \<open>compose_config.go\<close>, \<open>compose_logs.go\<close>, \<open>inspect.go\<close>,
  \<open>network.go\<close>, \<open>bind_cleanup.go\<close>), the argument vectors \<open>buildCommand\<close> makes of them and the
  allow-list \<open>validateCommandSpec\<close> puts in front of the process (\<open>client.go\<close>).
\<close>

subsection \<open>Errors and the files a command looks at\<close>

datatype docker_reason =
    EmptyArgv
  | EmptyToken string
  | UnsupportedArgv "string list"
  | PathRequired string
  | PathNotAbsolute string
  | EnvFileElsewhere
  | ComposeFileOutside
  | ProjectNameRequired
  | ProjectNameInvalid string
  | ServiceNameInvalid string
  | TailNegative int
  | TailToken string
  | OverrideUnreadable os_error
  | UserEnvUnreadable os_error
  | NetworkNameRequired
  | NetworkNameInvalid string
  | NetworkLabelInvalid string
  | NetworkSubnetInvalid string
  | NetworkGatewayInvalid string
  | ContainerIdInvalid string
  | ImageRefRequired
  | ImageRefInvalid string
  | ImageRefUnsafe string
  | VolumeNameInvalid string
  | LabelFilterInvalid string
  | CleanupPathComma string
  | CleanupPathControl string
  | CleanupMountSource string
  | CleanupMountTarget string
  | StreamingOnly

type_synonym docker_error = "docker_reason wdm_error"

text \<open>What \<open>os.Stat\<close> (is it a directory) and \<open>os.ReadFile\<close> say about a path.\<close>

record stack_files =
  stat_dir :: "string \<Rightarrow> os_error + bool"
  file_text :: "string \<Rightarrow> os_error + string"

subsection \<open>Text\<close>

definition cut_prefix :: "string \<Rightarrow> string \<Rightarrow> string option" where
  "cut_prefix s p = (if has_prefix s p then Some (drop (length p) s) else None)"

definition cut_suffix :: "string \<Rightarrow> string \<Rightarrow> string option" where
  "cut_suffix s p = (if has_prefix (rev s) (rev p) then Some (take (length s - length p) s) else None)"

text \<open>
  A pattern \<open>^[first][rest]*$\<close>, and one with a bound on the number of repetitions.
\<close>

definition name_shape :: "(char \<Rightarrow> bool) \<Rightarrow> (char \<Rightarrow> bool) \<Rightarrow> string \<Rightarrow> bool" where
  "name_shape first rest s = (case s of [] \<Rightarrow> False | c # r \<Rightarrow> first c \<and> list_all rest r)"

definition short_name_shape :: "nat \<Rightarrow> (char \<Rightarrow> bool) \<Rightarrow> (char \<Rightarrow> bool) \<Rightarrow> string \<Rightarrow> bool" where
  "short_name_shape n first rest s \<longleftrightarrow> name_shape first rest s \<and> length s \<le> Suc n"

definition lower_or_digit :: "char \<Rightarrow> bool" where
  "lower_or_digit c \<longleftrightarrow> is_lower c \<or> is_digit c"

definition letter_or_digit :: "char \<Rightarrow> bool" where
  "letter_or_digit c \<longleftrightarrow> is_lower c \<or> is_upper c \<or> is_digit c"

text \<open>
  \<open>unicode.IsControl\<close> over the characters of a string: the ASCII controls and U+0080 to U+009F, whose
  encoding is the byte C2 and a second byte. \<open>unicode.IsSpace\<close> is \<open>space_codes\<close>.
\<close>

fun has_control :: "string \<Rightarrow> bool" where
  "has_control [] = False"
| "has_control (c # r) =
     (byte c < 32 \<or> byte c = 127
      \<or> (byte c = 194 \<and> (case r of [] \<Rightarrow> False | d # _ \<Rightarrow> 128 \<le> byte d \<and> byte d \<le> 159))
      \<or> has_control r)"

fun has_space :: "string \<Rightarrow> bool" where
  "has_space [] = False"
| "has_space (c # r) = (strip_any space_codes (c # r) \<noteq> None \<or> has_space r)"

subsection \<open>Paths and names\<close>

definition validateAbsolutePath :: "string \<Rightarrow> string \<Rightarrow> docker_error + string" where
  "validateAbsolutePath rawPath label =
     (let trimmed = trim_space rawPath
      in guardE (refuse_if (trimmed = []) (UsageValidation (PathRequired label)))
        (guardE (refuse_if (\<not> is_abs trimmed) (UsageValidation (PathNotAbsolute label)))
          (Inr (path_clean trimmed))))"

definition composeProjectNamePattern :: "string \<Rightarrow> bool" where
  "composeProjectNamePattern =
     name_shape lower_or_digit (\<lambda>c. lower_or_digit c \<or> c = CHR ''_'' \<or> c = CHR ''-'')"

definition validateComposeProjectName :: "string \<Rightarrow> docker_error + string" where
  "validateComposeProjectName raw =
     guardE (refuse_if (trim_space raw = []) (UsageValidation ProjectNameRequired))
       (guardE (refuse_if (\<not> composeProjectNamePattern raw) (UsageValidation (ProjectNameInvalid raw)))
         (Inr raw))"

record compose_project =
  ComposeFile :: string
  EnvFile :: string
  ProjectName :: string

definition validateComposeProject :: "compose_project \<Rightarrow> docker_error + compose_project" where
  "validateComposeProject project =
     bindE (validateAbsolutePath (ComposeFile project) ''compose file'') (\<lambda>cleanComposeFile.
     bindE (validateAbsolutePath (EnvFile project) ''env file'') (\<lambda>cleanEnvFile.
       guardE (refuse_if (path_dir cleanComposeFile \<noteq> path_dir cleanEnvFile) (UsageValidation EnvFileElsewhere))
         (bindE (validateComposeProjectName (ProjectName project)) (\<lambda>projectName.
           Inr \<lparr>ComposeFile = cleanComposeFile, EnvFile = cleanEnvFile, ProjectName = projectName\<rparr>))))"

definition validateComposeConfigPaths :: "string \<Rightarrow> string \<Rightarrow> docker_error + string \<times> string" where
  "validateComposeConfigPaths projectDir composeFile =
     bindE (validateAbsolutePath projectDir ''project directory'') (\<lambda>cleanProjectDir.
     bindE (validateAbsolutePath composeFile ''compose file'') (\<lambda>cleanComposeFile.
       (let relPath = rel_abs cleanProjectDir cleanComposeFile
        in guardE (refuse_if (relPath = ''..'' \<or> has_prefix relPath ''../'') (UsageValidation ComposeFileOutside))
             (Inr (cleanProjectDir, cleanComposeFile)))))"

definition composeServiceNamePattern :: "string \<Rightarrow> bool" where
  "composeServiceNamePattern =
     short_name_shape 62 lower_or_digit
       (\<lambda>c. lower_or_digit c \<or> c = CHR ''.'' \<or> c = CHR ''_'' \<or> c = CHR ''-'')"

definition validateComposeServiceName :: "string \<Rightarrow> docker_error + string" where
  "validateComposeServiceName raw =
     guardE (refuse_if (\<not> composeServiceNamePattern raw) (UsageValidation (ServiceNameInvalid raw))) (Inr raw)"

record compose_logs_options =
  Follow :: bool
  Tail :: int
  Services :: "string list"

definition validateComposeLogsOptions :: "compose_logs_options \<Rightarrow> docker_error + compose_logs_options" where
  "validateComposeLogsOptions opts =
     guardE (refuse_if (Tail opts < 0) (UsageValidation (TailNegative (Tail opts))))
       (bindE (foldE (\<lambda>services raw. bindE (validateComposeServiceName raw) (\<lambda>service. Inr (services @ [service])))
                 [] (Services opts)) (\<lambda>services.
         Inr \<lparr>Follow = Follow opts, Tail = Tail opts, Services = services\<rparr>))"

definition networkNamePattern :: "string \<Rightarrow> bool" where
  "networkNamePattern =
     short_name_shape 62 is_lower (\<lambda>c. lower_or_digit c \<or> c = CHR ''_'' \<or> c = CHR ''-'')"

definition validateNetworkName :: "string \<Rightarrow> docker_error + string" where
  "validateNetworkName rawName =
     guardE (refuse_if (trim_space rawName = []) (UsageValidation NetworkNameRequired))
       (guardE (refuse_if (\<not> networkNamePattern rawName) (UsageValidation (NetworkNameInvalid rawName)))
         (Inr rawName))"

definition networkAppIDPattern :: "string \<Rightarrow> bool" where
  "networkAppIDPattern = short_name_shape 62 is_lower (\<lambda>c. lower_or_digit c \<or> c = CHR ''-'')"

definition containerIDPattern :: "string \<Rightarrow> bool" where
  "containerIDPattern s \<longleftrightarrow>
     12 \<le> length s \<and> length s \<le> 64
     \<and> list_all (\<lambda>c. is_digit c \<or> (97 \<le> byte c \<and> byte c \<le> 102)) s"

definition validateContainerID :: "string \<Rightarrow> docker_error + string" where
  "validateContainerID rawID =
     guardE (refuse_if (\<not> containerIDPattern rawID) (UsageValidation (ContainerIdInvalid rawID))) (Inr rawID)"

definition imageRefPattern :: "string \<Rightarrow> bool" where
  "imageRefPattern = name_shape letter_or_digit (\<lambda>c. letter_or_digit c \<or> c \<in> set ''._/@:-'')"

definition validateImageRef :: "string \<Rightarrow> docker_error + string" where
  "validateImageRef rawRef =
     guardE (refuse_if (trim_space rawRef = []) (UsageValidation ImageRefRequired))
       (guardE (refuse_if (has_prefix rawRef ''-'' \<or> \<not> imageRefPattern rawRef)
           (UsageValidation (ImageRefInvalid rawRef)))
         (guardE (refuse_if (has_control rawRef \<or> has_space rawRef) (UsageValidation (ImageRefUnsafe rawRef)))
           (Inr rawRef)))"

definition volumeNamePattern :: "string \<Rightarrow> bool" where
  "volumeNamePattern = name_shape letter_or_digit (\<lambda>c. letter_or_digit c \<or> c \<in> set ''_.-'')"

definition validateVolumeName :: "string \<Rightarrow> docker_error + string" where
  "validateVolumeName rawName =
     guardE (refuse_if (\<not> volumeNamePattern rawName) (UsageValidation (VolumeNameInvalid rawName))) (Inr rawName)"

definition validateBindCleanupPath :: "string \<Rightarrow> docker_error + string" where
  "validateBindCleanupPath rawPath =
     bindE (validateAbsolutePath rawPath ''bind cleanup path'') (\<lambda>cleaned.
       guardE (refuse_if (CHR '','' \<in> set cleaned) (UsageValidation (CleanupPathComma cleaned)))
         (guardE (refuse_if (has_control cleaned) (UsageValidation (CleanupPathControl cleaned)))
           (Inr (path_clean cleaned))))"

subsection \<open>Fixed words\<close>

definition composeOverrideFilename :: string where
  "composeOverrideFilename = ''docker-compose.override.yml''"

definition composeUserEnvFilename :: string where
  "composeUserEnvFilename = ''.env.user''"

definition dockerInfoSecurityOptionsFormat :: string where
  "dockerInfoSecurityOptionsFormat = ''{{json .SecurityOptions}}''"

definition composeProjectLabelFilterPrefix :: string where
  "composeProjectLabelFilterPrefix = ''label=com.docker.compose.project=''"

definition containerListFormat :: string where
  "containerListFormat = ''{{.ID}}''"

definition containerInspectFormat :: string where
  "containerInspectFormat = join_with ''\<newline>''
     [''{{json .Name}}'', ''{{json .Config.Labels}}'', ''{{json .State.Status}}'',
      ''{{json .State.Running}}'', ''{{json .State.Restarting}}'', ''{{json .State.ExitCode}}'',
      ''{{if .State.Health}}{{json .State.Health.Status}}{{else}}'' @ [CHR 0x22, CHR 0x22] @ ''{{end}}'',
      ''{{json .NetworkSettings.Ports}}'']"

definition imageDigestInspectFormat :: string where
  "imageDigestInspectFormat = ''{{ join .RepoDigests '' @ [CHR 0x22, CHR '','', CHR 0x22] @ ''}}''"

definition volumeListFormat :: string where
  "volumeListFormat = ''{{.Name}}''"

definition networkInternalFormat :: string where
  "networkInternalFormat = ''{{.Internal}}''"

definition networkManagedLabelFormat :: string where
  "networkManagedLabelFormat = ''{{index .Labels '' @ [CHR 0x22] @ ''wdm.managed'' @ [CHR 0x22] @ ''}}''"

definition networkSubnetInspectFormat :: string where
  "networkSubnetInspectFormat = ''{{range .IPAM.Config}}{{.Subnet}}{{end}}''"

definition managedNetworkLabel :: string where
  "managedNetworkLabel = ''wdm.managed=true''"

definition appNetworkLabelPrefix :: string where
  "appNetworkLabelPrefix = ''wdm.app=''"

definition managedNetworkLabelFilter :: string where
  "managedNetworkLabelFilter = ''label='' @ managedNetworkLabel"

definition managedNetworkListFormat :: string where
  "managedNetworkListFormat = ''{{.Name}}''"

definition bindCleanupImage :: string where
  "bindCleanupImage =
     ''docker.io/library/busybox@sha256:73aaf090f3d85aa34ee199857f03fa3a95c8ede2ffd4cc2cdb5b94e566b11662''"

definition bindCleanupTarget :: string where
  "bindCleanupTarget = ''/wdm-delete-target''"

lemmas fixed_words = dockerInfoSecurityOptionsFormat_def composeProjectLabelFilterPrefix_def
  containerListFormat_def containerInspectFormat_def imageDigestInspectFormat_def volumeListFormat_def
  networkInternalFormat_def networkManagedLabelFormat_def networkSubnetInspectFormat_def
  managedNetworkLabel_def appNetworkLabelPrefix_def managedNetworkLabelFilter_def
  managedNetworkListFormat_def bindCleanupImage_def bindCleanupTarget_def

subsection \<open>Invocations\<close>

record compose_target =
  ct_composeFile :: string
  ct_envFile :: string
  ct_projectName :: string
  ct_overridePath :: string

datatype invocation =
    VersionInvocation
  | ComposeVersionInvocation
  | InfoInvocation
  | ComposeConfigInvocation string string string string
  | ComposePullInvocation compose_target
  | ComposeUpInvocation compose_target bool
  | ComposeRestartInvocation compose_target
  | ComposeStopInvocation compose_target
  | ComposeDownInvocation compose_target
  | ComposeDownRemoveImagesInvocation compose_target
  | ComposeLogsInvocation compose_target bool int "string list"
  | NetworkInspectInvocation string
  | NetworkManagedLabelInvocation string
  | NetworkSubnetInvocation string
  | NetworkCreateInvocation string bool string string string
  | RemoveNetworkInvocation string
  | ManagedNetworkListInvocation
  | RemoveNamedVolumeInvocation string
  | ProjectContainerListInvocation string
  | ContainerInspectInvocation string
  | ImageDigestInspectInvocation string
  | BindCleanupImagePullInvocation
  | ProjectVolumeListInvocation string
  | BindMountCleanupInvocation string

subsection \<open>Constructors of the compose invocations\<close>

text \<open>\<open>strings.Lines\<close> followed by \<open>TrimSpace\<close>: the line terminator does not survive the trimming.\<close>

definition resolveOverridePath :: "stack_files \<Rightarrow> string \<Rightarrow> docker_error + string" where
  "resolveOverridePath files stackDir =
     (let overridePath = path_join stackDir composeOverrideFilename
      in case file_text files overridePath of
           Inl err \<Rightarrow> (if err = NotExist then Inr [] else Inl (UsageValidation (OverrideUnreadable err)))
         | Inr data \<Rightarrow>
             (if list_ex (\<lambda>line. \<not> (trim_space line = [] \<or> has_prefix (trim_space line) ''#''))
                   (split_on (CHR 0x0A) data)
              then Inr overridePath else Inr []))"

text \<open>
  The six constructors \<open>newComposePullInvocation\<close> to \<open>newComposeDownRemoveImagesInvocation\<close> share one
  body; each wraps its result in its own invocation type.
\<close>

definition new_compose_target :: "stack_files \<Rightarrow> compose_project \<Rightarrow> docker_error + compose_target" where
  "new_compose_target files project =
     bindE (validateComposeProject project) (\<lambda>normalized.
       (let stackDir = path_dir (ComposeFile normalized)
        in bindE (resolveOverridePath files stackDir) (\<lambda>overridePath.
             Inr \<lparr>ct_composeFile = ComposeFile normalized, ct_envFile = EnvFile normalized,
                  ct_projectName = ProjectName normalized, ct_overridePath = overridePath\<rparr>)))"

definition newComposeUpInvocation :: "stack_files \<Rightarrow> compose_project \<Rightarrow> bool \<Rightarrow> docker_error + invocation" where
  "newComposeUpInvocation files project forceRecreate =
     bindE (new_compose_target files project) (\<lambda>t. Inr (ComposeUpInvocation t forceRecreate))"

definition newComposeLogsInvocation ::
  "stack_files \<Rightarrow> compose_project \<Rightarrow> compose_logs_options \<Rightarrow> docker_error + invocation" where
  "newComposeLogsInvocation files project opts =
     bindE (validateComposeProject project) (\<lambda>normalizedProject.
     bindE (validateComposeLogsOptions opts) (\<lambda>normalizedOpts.
       (let stackDir = path_dir (ComposeFile normalizedProject)
        in bindE (resolveOverridePath files stackDir) (\<lambda>overridePath.
             Inr (ComposeLogsInvocation
               \<lparr>ct_composeFile = ComposeFile normalizedProject, ct_envFile = EnvFile normalizedProject,
                ct_projectName = ProjectName normalizedProject, ct_overridePath = overridePath\<rparr>
               (Follow normalizedOpts) (Tail normalizedOpts) (Services normalizedOpts))))))"

definition newComposeConfigInvocation :: "stack_files \<Rightarrow> string \<Rightarrow> string \<Rightarrow> docker_error + invocation" where
  "newComposeConfigInvocation files projectDir composeFile =
     bindE (validateComposeConfigPaths projectDir composeFile) (\<lambda>(cleanProjectDir, cleanComposeFile).
     bindE (resolveOverridePath files cleanProjectDir) (\<lambda>overridePath.
       Inr (ComposeConfigInvocation cleanProjectDir cleanComposeFile
              (path_join cleanProjectDir ''.env'') overridePath)))"

subsection \<open>Argument vectors\<close>

definition overrideFileArgs :: "string \<Rightarrow> string list" where
  "overrideFileArgs overridePath = (if overridePath = [] then [] else [''-f'', overridePath])"

definition userEnvFileArgs :: "stack_files \<Rightarrow> string \<Rightarrow> docker_error + string list" where
  "userEnvFileArgs files envFile =
     (let userEnvPath = path_join (path_dir envFile) composeUserEnvFilename
      in case stat_dir files userEnvPath of
           Inl err \<Rightarrow> (if err = NotExist then Inr [] else Inl (UsageValidation (UserEnvUnreadable err)))
         | Inr isDir \<Rightarrow> (if isDir then Inr [] else Inr [''--env-file'', userEnvPath]))"

definition buildComposeConfigCommand ::
  "stack_files \<Rightarrow> string \<Rightarrow> string \<Rightarrow> string \<Rightarrow> string \<Rightarrow> docker_error + string list" where
  "buildComposeConfigCommand files projectDir composeFile envFile overridePath =
     bindE (validateComposeConfigPaths projectDir composeFile) (\<lambda>(projectDir, composeFile).
     bindE (userEnvFileArgs files envFile) (\<lambda>userArgs.
       Inr ([''compose'', ''--project-directory'', projectDir, ''-f'', composeFile]
            @ (if userArgs \<noteq> [] then [''--env-file'', envFile] @ userArgs else [])
            @ overrideFileArgs overridePath @ [''config'', ''--quiet''])))"

definition buildComposeProjectCommand ::
  "stack_files \<Rightarrow> compose_target \<Rightarrow> string \<Rightarrow> docker_error + string list" where
  "buildComposeProjectCommand files target command =
     bindE (validateComposeProject
              \<lparr>ComposeFile = ct_composeFile target, EnvFile = ct_envFile target, ProjectName = ct_projectName target\<rparr>) (\<lambda>project.
     bindE (userEnvFileArgs files (EnvFile project)) (\<lambda>userArgs.
       Inr ([''compose'', ''-f'', ComposeFile project, ''--env-file'', EnvFile project]
            @ userArgs @ [''--project-name'', ProjectName project]
            @ overrideFileArgs (ct_overridePath target) @ [command])))"

definition buildComposeUpCommand :: "stack_files \<Rightarrow> compose_target \<Rightarrow> bool \<Rightarrow> docker_error + string list" where
  "buildComposeUpCommand files target forceRecreate =
     bindE (buildComposeProjectCommand files target ''up'') (\<lambda>argv.
       Inr (argv @ [''-d''] @ (if forceRecreate then [''--force-recreate''] else [])))"

definition buildComposeDownRemoveImagesCommand :: "stack_files \<Rightarrow> compose_target \<Rightarrow> docker_error + string list" where
  "buildComposeDownRemoveImagesCommand files target =
     bindE (buildComposeProjectCommand files target ''down'') (\<lambda>argv. Inr (argv @ [''--rmi'', ''all'']))"

definition buildComposeLogsCommand ::
  "stack_files \<Rightarrow> compose_target \<Rightarrow> bool \<Rightarrow> int \<Rightarrow> string list \<Rightarrow> docker_error + string list" where
  "buildComposeLogsCommand files target follow tail services =
     bindE (buildComposeProjectCommand files target ''logs'') (\<lambda>argv.
     bindE (validateComposeLogsOptions \<lparr>Follow = follow, Tail = tail, Services = services\<rparr>) (\<lambda>opts.
       Inr (argv @ [''--no-color'', ''--timestamps'']
            @ (if Tail opts > 0 then [''--tail'', itoa (Tail opts)] else [])
            @ (if Follow opts then [''--follow''] else []) @ Services opts)))"

definition buildNetworkInspectCommand :: "string \<Rightarrow> docker_error + string list" where
  "buildNetworkInspectCommand name =
     bindE (validateNetworkName name) (\<lambda>networkName.
       Inr [''network'', ''inspect'', ''--format'', networkInternalFormat, networkName])"

definition buildNetworkManagedLabelCommand :: "string \<Rightarrow> docker_error + string list" where
  "buildNetworkManagedLabelCommand name =
     bindE (validateNetworkName name) (\<lambda>networkName.
       Inr [''network'', ''inspect'', ''--format'', networkManagedLabelFormat, networkName])"

definition buildNetworkSubnetCommand :: "string \<Rightarrow> docker_error + string list" where
  "buildNetworkSubnetCommand name =
     bindE (validateNetworkName name) (\<lambda>networkName.
       Inr [''network'', ''inspect'', ''--format'', networkSubnetInspectFormat, networkName])"

definition buildNetworkCreateCommand ::
  "string \<Rightarrow> bool \<Rightarrow> string \<Rightarrow> string \<Rightarrow> string \<Rightarrow> docker_error + string list" where
  "buildNetworkCreateCommand name internal subnet gateway appID =
     bindE (validateNetworkName name) (\<lambda>networkName.
       Inr ([''network'', ''create'']
            @ (if internal then [''--internal''] else [])
            @ (if subnet \<noteq> [] then [''--subnet'', subnet] else [])
            @ (if gateway \<noteq> [] then [''--gateway'', gateway] else [])
            @ (if appID \<noteq> []
               then [''--label'', managedNetworkLabel, ''--label'', appNetworkLabelPrefix @ appID] else [])
            @ [networkName]))"

definition buildManagedNetworkListCommand :: "docker_error + string list" where
  "buildManagedNetworkListCommand =
     Inr [''network'', ''ls'', ''--filter'', managedNetworkLabelFilter, ''--format'', managedNetworkListFormat]"

definition buildRemoveNetworkCommand :: "string \<Rightarrow> docker_error + string list" where
  "buildRemoveNetworkCommand name =
     bindE (validateNetworkName name) (\<lambda>networkName. Inr [''network'', ''rm'', networkName])"

definition buildProjectContainerListCommand :: "string \<Rightarrow> docker_error + string list" where
  "buildProjectContainerListCommand projectName =
     bindE (validateComposeProjectName projectName) (\<lambda>projectName.
       Inr [''container'', ''ls'', ''--all'', ''--filter'',
            composeProjectLabelFilterPrefix @ projectName, ''--format'', containerListFormat])"

definition buildContainerInspectCommand :: "string \<Rightarrow> docker_error + string list" where
  "buildContainerInspectCommand containerID =
     bindE (validateContainerID containerID) (\<lambda>id'.
       Inr [''container'', ''inspect'', ''--format'', containerInspectFormat, id'])"

definition buildImageDigestInspectCommand :: "string \<Rightarrow> docker_error + string list" where
  "buildImageDigestInspectCommand ref =
     bindE (validateImageRef ref) (\<lambda>imageRef.
       Inr [''image'', ''inspect'', ''--format'', imageDigestInspectFormat, imageRef])"

definition buildProjectVolumeListCommand :: "string \<Rightarrow> docker_error + string list" where
  "buildProjectVolumeListCommand projectName =
     bindE (validateComposeProjectName projectName) (\<lambda>projectName.
       Inr [''volume'', ''ls'', ''--filter'', composeProjectLabelFilterPrefix @ projectName,
            ''--format'', volumeListFormat])"

definition buildRemoveNamedVolumeCommand :: "string \<Rightarrow> docker_error + string list" where
  "buildRemoveNamedVolumeCommand name =
     bindE (validateVolumeName name) (\<lambda>volumeName. Inr [''volume'', ''rm'', volumeName])"

definition bindCleanupMountArg :: "string \<Rightarrow> string" where
  "bindCleanupMountArg path = ''type=bind,src='' @ path @ '',dst='' @ bindCleanupTarget"

definition buildBindMountCleanupCommand :: "string \<Rightarrow> docker_error + string list" where
  "buildBindMountCleanupCommand path =
     bindE (validateBindCleanupPath path) (\<lambda>targetPath.
       Inr [''run'', ''--rm'', ''--pull=never'', ''--network'', ''none'', ''--mount'',
            bindCleanupMountArg targetPath, bindCleanupImage, ''find'', bindCleanupTarget,
            ''-xdev'', ''-depth'', ''-mindepth'', ''1'', ''-delete''])"

fun buildCommand :: "stack_files \<Rightarrow> invocation \<Rightarrow> docker_error + string list" where
  "buildCommand files VersionInvocation = Inr [''version'']"
| "buildCommand files ComposeVersionInvocation = Inr [''compose'', ''version'']"
| "buildCommand files InfoInvocation = Inr [''info'', ''--format'', dockerInfoSecurityOptionsFormat]"
| "buildCommand files (ComposeConfigInvocation d c e ov) = buildComposeConfigCommand files d c e ov"
| "buildCommand files (ComposePullInvocation t) = buildComposeProjectCommand files t ''pull''"
| "buildCommand files (ComposeUpInvocation t force) = buildComposeUpCommand files t force"
| "buildCommand files (ComposeRestartInvocation t) = buildComposeProjectCommand files t ''restart''"
| "buildCommand files (ComposeStopInvocation t) = buildComposeProjectCommand files t ''stop''"
| "buildCommand files (ComposeDownInvocation t) = buildComposeProjectCommand files t ''down''"
| "buildCommand files (ComposeDownRemoveImagesInvocation t) = buildComposeDownRemoveImagesCommand files t"
| "buildCommand files (ComposeLogsInvocation t follow tail services) =
     buildComposeLogsCommand files t follow tail services"
| "buildCommand files (NetworkInspectInvocation name) = buildNetworkInspectCommand name"
| "buildCommand files (NetworkManagedLabelInvocation name) = buildNetworkManagedLabelCommand name"
| "buildCommand files (NetworkSubnetInvocation name) = buildNetworkSubnetCommand name"
| "buildCommand files (NetworkCreateInvocation name internal subnet gateway appID) =
     buildNetworkCreateCommand name internal subnet gateway appID"
| "buildCommand files (RemoveNetworkInvocation name) = buildRemoveNetworkCommand name"
| "buildCommand files ManagedNetworkListInvocation = buildManagedNetworkListCommand"
| "buildCommand files (RemoveNamedVolumeInvocation name) = buildRemoveNamedVolumeCommand name"
| "buildCommand files (ProjectContainerListInvocation p) = buildProjectContainerListCommand p"
| "buildCommand files (ContainerInspectInvocation cid) = buildContainerInspectCommand cid"
| "buildCommand files (ImageDigestInspectInvocation ref) = buildImageDigestInspectCommand ref"
| "buildCommand files BindCleanupImagePullInvocation = Inr [''image'', ''pull'', bindCleanupImage]"
| "buildCommand files (ProjectVolumeListInvocation p) = buildProjectVolumeListCommand p"
| "buildCommand files (BindMountCleanupInvocation path) = buildBindMountCleanupCommand path"

subsection \<open>The allow-list\<close>

definition unsupportedDockerArgv :: "string list \<Rightarrow> docker_error" where
  "unsupportedDockerArgv argv = UsageValidation (UnsupportedArgv argv)"

text \<open>\<open>_, err := f(...); return err\<close>.\<close>

definition error_only :: "'e + 'a \<Rightarrow> 'e option" where
  "error_only m = (case m of Inl e \<Rightarrow> Some e | Inr x \<Rightarrow> None)"

definition validateDockerVersionArgv :: "string list \<Rightarrow> docker_error option" where
  "validateDockerVersionArgv argv =
     (if length argv = 1 \<and> argv ! 0 = ''version'' then None else Some (unsupportedDockerArgv argv))"

definition validateInfoArgv :: "string list \<Rightarrow> docker_error option" where
  "validateInfoArgv argv =
     (if length argv = 3 \<and> argv ! 1 = ''--format'' \<and> argv ! 2 = dockerInfoSecurityOptionsFormat
      then None else Some (unsupportedDockerArgv argv))"

definition stripValidatedComposeUserEnv :: "string list \<Rightarrow> docker_error + string list" where
  "stripValidatedComposeUserEnv argv =
     (if length argv \<ge> 8 \<and> argv ! 0 = ''compose'' \<and> argv ! 1 = ''-f'' \<and> argv ! 3 = ''--env-file''
         \<and> argv ! 5 = ''--env-file''
      then bindE (validateAbsolutePath (argv ! 6) ''user env file'') (\<lambda>_.
             Inr (take 5 argv @ drop 7 argv))
      else if length argv \<ge> 10 \<and> argv ! 0 = ''compose'' \<and> argv ! 1 = ''--project-directory''
         \<and> argv ! 3 = ''-f'' \<and> argv ! 5 = ''--env-file'' \<and> argv ! 7 = ''--env-file''
      then bindE (validateAbsolutePath (argv ! 6) ''env file'') (\<lambda>_.
           bindE (validateAbsolutePath (argv ! 8) ''user env file'') (\<lambda>_.
             Inr (take 5 argv @ drop 9 argv)))
      else Inr argv)"

definition stripValidatedComposeOverride :: "string list \<Rightarrow> docker_error + string list" where
  "stripValidatedComposeOverride argv =
     (if length argv \<ge> 10 \<and> argv ! 0 = ''compose'' \<and> argv ! 1 = ''-f'' \<and> argv ! 3 = ''--env-file''
         \<and> argv ! 5 = ''--project-name'' \<and> argv ! 7 = ''-f''
      then bindE (validateAbsolutePath (argv ! 8) ''compose override file'') (\<lambda>_.
             Inr (take 7 argv @ drop 9 argv))
      else if length argv \<ge> 9 \<and> argv ! 0 = ''compose'' \<and> argv ! 1 = ''--project-directory''
         \<and> argv ! 3 = ''-f'' \<and> argv ! 5 = ''-f''
      then bindE (validateAbsolutePath (argv ! 6) ''compose override file'') (\<lambda>_.
             Inr (take 5 argv @ drop 7 argv))
      else Inr argv)"

definition isComposeConfigArgv :: "string list \<Rightarrow> bool" where
  "isComposeConfigArgv argv \<longleftrightarrow>
     length argv = 7 \<and> argv ! 1 = ''--project-directory'' \<and> argv ! 3 = ''-f''
     \<and> argv ! 5 = ''config'' \<and> argv ! 6 = ''--quiet''"

definition isComposeProjectArgv :: "string list \<Rightarrow> bool" where
  "isComposeProjectArgv argv \<longleftrightarrow>
     (if length argv < 8 \<or> argv ! 1 \<noteq> ''-f'' \<or> argv ! 3 \<noteq> ''--env-file'' \<or> argv ! 5 \<noteq> ''--project-name''
      then False
      else if argv ! 7 \<in> {''pull'', ''restart'', ''stop''} then length argv = 8
      else if argv ! 7 = ''down''
      then length argv = 8 \<or> (length argv = 10 \<and> argv ! 8 = ''--rmi'' \<and> argv ! 9 = ''all'')
      else if argv ! 7 = ''up''
      then (length argv = 9 \<and> argv ! 8 = ''-d'')
        \<or> (length argv = 10 \<and> argv ! 8 = ''-d'' \<and> argv ! 9 = ''--force-recreate'')
      else False)"

definition validateComposeProjectArgv :: "string list \<Rightarrow> docker_error option" where
  "validateComposeProjectArgv argv =
     error_only (validateComposeProject
       \<lparr>ComposeFile = argv ! 2, EnvFile = argv ! 4, ProjectName = argv ! 6\<rparr>)"

definition composeLogsFixedArgvLen :: nat where
  "composeLogsFixedArgvLen = 10"

definition isComposeLogsArgv :: "string list \<Rightarrow> bool" where
  "isComposeLogsArgv argv \<longleftrightarrow>
     length argv \<ge> composeLogsFixedArgvLen \<and> argv ! 0 = ''compose'' \<and> argv ! 1 = ''-f''
     \<and> argv ! 3 = ''--env-file'' \<and> argv ! 5 = ''--project-name'' \<and> argv ! 7 = ''logs''
     \<and> argv ! 8 = ''--no-color'' \<and> argv ! 9 = ''--timestamps''"

definition validateComposeLogsTailToken :: "string \<Rightarrow> docker_error option" where
  "validateComposeLogsTailToken token =
     (case atoi token of
        None \<Rightarrow> Some (UsageValidation (TailToken token))
      | Some tail \<Rightarrow> refuse_if (tail < 1 \<or> token \<noteq> itoa tail) (UsageValidation (TailToken token)))"

definition validateComposeLogsArgvSuffix :: "string list \<Rightarrow> docker_error option" where
  "validateComposeLogsArgvSuffix argv =
     or_else (validateComposeProjectArgv argv)
       (let rest = drop composeLogsFixedArgvLen argv;
            tailed = length rest \<ge> 2 \<and> rest ! 0 = ''--tail'';
            rest' = (if tailed then drop 2 rest else rest);
            rest'' = (if length rest' \<ge> 1 \<and> rest' ! 0 = ''--follow'' then drop 1 rest' else rest')
        in or_else (if tailed then validateComposeLogsTailToken (rest ! 1) else None)
             (first_err (\<lambda>service. error_only (validateComposeServiceName service)) rest''))"

definition validateComposeArgv :: "string list \<Rightarrow> docker_error option" where
  "validateComposeArgv argv =
     (case stripValidatedComposeUserEnv argv of
        Inl err \<Rightarrow> Some err
      | Inr argv \<Rightarrow>
          (case stripValidatedComposeOverride argv of
             Inl err \<Rightarrow> Some err
           | Inr argv \<Rightarrow>
               (if length argv = 2 \<and> argv ! 1 = ''version'' then None
                else if isComposeConfigArgv argv
                then error_only (validateComposeConfigPaths (argv ! 2) (argv ! 4))
                else if isComposeProjectArgv argv then validateComposeProjectArgv argv
                else if isComposeLogsArgv argv then validateComposeLogsArgvSuffix argv
                else Some (unsupportedDockerArgv argv))))"

definition validateNetworkSubnetArg :: "string \<Rightarrow> docker_error option" where
  "validateNetworkSubnetArg subnet =
     refuse_if (parse_prefix4 subnet = None) (UsageValidation (NetworkSubnetInvalid subnet))"

definition validateNetworkGatewayArg :: "string \<Rightarrow> docker_error option" where
  "validateNetworkGatewayArg gateway =
     refuse_if (parse_addr4 gateway = None) (UsageValidation (NetworkGatewayInvalid gateway))"

definition consumeNetworkLabelArgs :: "string list \<Rightarrow> string list \<Rightarrow> docker_error + string list" where
  "consumeNetworkLabelArgs argv rest =
     (if rest = [] \<or> rest ! 0 \<noteq> ''--label'' then Inr rest
      else guardE (refuse_if (length rest < 4 \<or> rest ! 2 \<noteq> ''--label'') (unsupportedDockerArgv argv))
          (guardE (refuse_if (rest ! 1 \<noteq> managedNetworkLabel) (unsupportedDockerArgv argv))
          (case cut_prefix (rest ! 3) appNetworkLabelPrefix of
             None \<Rightarrow> Inl (unsupportedDockerArgv argv)
           | Some appID \<Rightarrow>
               guardE (refuse_if (\<not> networkAppIDPattern appID) (UsageValidation (NetworkLabelInvalid appID)))
                 (Inr (drop 4 rest)))))"

definition validateNetworkCreateArgv :: "string list \<Rightarrow> docker_error option" where
  "validateNetworkCreateArgv argv =
     (let rest0 = drop 2 argv;
          rest1 = (if length rest0 > 0 \<and> rest0 ! 0 = ''--internal'' then drop 1 rest0 else rest0);
          sawSubnet = length rest1 \<ge> 2 \<and> rest1 ! 0 = ''--subnet'';
          rest2 = (if sawSubnet then drop 2 rest1 else rest1);
          sawGateway = length rest2 \<ge> 2 \<and> rest2 ! 0 = ''--gateway'';
          rest3 = (if sawGateway then drop 2 rest2 else rest2)
      in or_else (if sawSubnet then validateNetworkSubnetArg (rest1 ! 1) else None)
        (or_else (if sawGateway
                  then or_else (refuse_if (\<not> sawSubnet) (unsupportedDockerArgv argv))
                         (validateNetworkGatewayArg (rest2 ! 1))
                  else None)
        (case consumeNetworkLabelArgs argv rest3 of
           Inl err \<Rightarrow> Some err
         | Inr rest \<Rightarrow>
             or_else (refuse_if (length rest \<noteq> 1) (unsupportedDockerArgv argv))
               (error_only (validateNetworkName (rest ! 0))))))"

definition validateNetworkArgv :: "string list \<Rightarrow> docker_error option" where
  "validateNetworkArgv argv =
     (if length argv = 5 \<and> argv ! 1 = ''inspect'' \<and> argv ! 2 = ''--format''
         \<and> (argv ! 3 = networkInternalFormat \<or> argv ! 3 = networkSubnetInspectFormat
            \<or> argv ! 3 = networkManagedLabelFormat)
      then error_only (validateNetworkName (argv ! 4))
      else if length argv \<ge> 3 \<and> argv ! 1 = ''create'' then validateNetworkCreateArgv argv
      else if length argv = 3 \<and> argv ! 1 = ''rm'' then error_only (validateNetworkName (argv ! 2))
      else if length argv = 6 \<and> argv ! 1 = ''ls'' \<and> argv ! 2 = ''--filter''
         \<and> argv ! 3 = managedNetworkLabelFilter \<and> argv ! 4 = ''--format'' \<and> argv ! 5 = managedNetworkListFormat
      then None
      else Some (unsupportedDockerArgv argv))"

definition validateComposeProjectLabelFilter :: "string \<Rightarrow> docker_error option" where
  "validateComposeProjectLabelFilter rawFilter =
     (case cut_prefix rawFilter composeProjectLabelFilterPrefix of
        None \<Rightarrow> Some (UsageValidation (LabelFilterInvalid rawFilter))
      | Some projectName \<Rightarrow> error_only (validateComposeProjectName projectName))"

definition validateContainerArgv :: "string list \<Rightarrow> docker_error option" where
  "validateContainerArgv argv =
     (if length argv = 7 \<and> argv ! 1 = ''ls'' \<and> argv ! 2 = ''--all'' \<and> argv ! 3 = ''--filter''
         \<and> argv ! 5 = ''--format'' \<and> argv ! 6 = containerListFormat
      then validateComposeProjectLabelFilter (argv ! 4)
      else if length argv = 5 \<and> argv ! 1 = ''inspect'' \<and> argv ! 2 = ''--format''
         \<and> argv ! 3 = containerInspectFormat
      then error_only (validateContainerID (argv ! 4))
      else Some (unsupportedDockerArgv argv))"

definition validateImageArgv :: "string list \<Rightarrow> docker_error option" where
  "validateImageArgv argv =
     (if length argv = 5 \<and> argv ! 1 = ''inspect'' \<and> argv ! 2 = ''--format''
         \<and> argv ! 3 = imageDigestInspectFormat
      then error_only (validateImageRef (argv ! 4))
      else if length argv = 3 \<and> argv ! 1 = ''pull'' \<and> argv ! 2 = bindCleanupImage then None
      else Some (unsupportedDockerArgv argv))"

definition validateVolumeArgv :: "string list \<Rightarrow> docker_error option" where
  "validateVolumeArgv argv =
     (if length argv = 6 \<and> argv ! 1 = ''ls'' \<and> argv ! 2 = ''--filter'' \<and> argv ! 4 = ''--format''
         \<and> argv ! 5 = volumeListFormat
      then validateComposeProjectLabelFilter (argv ! 3)
      else if length argv = 3 \<and> argv ! 1 = ''rm'' then error_only (validateVolumeName (argv ! 2))
      else Some (unsupportedDockerArgv argv))"

definition validateBindCleanupMountArg :: "string \<Rightarrow> docker_error option" where
  "validateBindCleanupMountArg rawMount =
     (case cut_prefix rawMount ''type=bind,src='' of
        None \<Rightarrow> Some (UsageValidation (CleanupMountSource rawMount))
      | Some source \<Rightarrow>
          (case cut_suffix source ('',dst='' @ bindCleanupTarget) of
             None \<Rightarrow> Some (UsageValidation (CleanupMountTarget rawMount))
           | Some source \<Rightarrow> error_only (validateBindCleanupPath source)))"

definition validateRunArgv :: "string list \<Rightarrow> docker_error option" where
  "validateRunArgv argv =
     (if length argv = 15 \<and> argv ! 1 = ''--rm'' \<and> argv ! 2 = ''--pull=never'' \<and> argv ! 3 = ''--network''
         \<and> argv ! 4 = ''none'' \<and> argv ! 5 = ''--mount'' \<and> argv ! 7 = bindCleanupImage \<and> argv ! 8 = ''find''
         \<and> argv ! 9 = bindCleanupTarget \<and> argv ! 10 = ''-xdev'' \<and> argv ! 11 = ''-depth''
         \<and> argv ! 12 = ''-mindepth'' \<and> argv ! 13 = ''1'' \<and> argv ! 14 = ''-delete''
      then validateBindCleanupMountArg (argv ! 6)
      else Some (unsupportedDockerArgv argv))"

definition validateCommandSpec :: "string list \<Rightarrow> docker_error option" where
  "validateCommandSpec argv =
     or_else (refuse_if (argv = []) (UsageValidation EmptyArgv))
       (or_else (first_err (\<lambda>token. refuse_if (trim_space token = []) (UsageValidation (EmptyToken token))) argv)
         (if argv ! 0 = ''version'' then validateDockerVersionArgv argv
          else if argv ! 0 = ''info'' then validateInfoArgv argv
          else if argv ! 0 = ''compose'' then validateComposeArgv argv
          else if argv ! 0 = ''network'' then validateNetworkArgv argv
          else if argv ! 0 = ''container'' then validateContainerArgv argv
          else if argv ! 0 = ''image'' then validateImageArgv argv
          else if argv ! 0 = ''volume'' then validateVolumeArgv argv
          else if argv ! 0 = ''run'' then validateRunArgv argv
          else Some (unsupportedDockerArgv argv)))"

end
