(* ===== verification/Docker_Grammar.thy ===== *)
theory Docker_Grammar
  imports Docker_Argv
begin

text \<open>
  What the allow-list of \<open>internal/docker/client.go\<close> lets through, as a grammar of argument vectors:
  the allow-list accepts the vectors of the grammar and no other one.
\<close>

subsection \<open>Validated fields\<close>

lemma error_only_None [err_simps]: "error_only m = None \<longleftrightarrow> (\<exists>x. m = Inr x)"
  by (cases m) (simp_all add: error_only_def)

text \<open>A printable ASCII character other than the blank survives trimming.\<close>

definition visible :: "char \<Rightarrow> bool" where
  "visible c \<longleftrightarrow> 33 \<le> byte c \<and> byte c \<le> 126"

lemma visible_no_space: "visible c \<Longrightarrow> \<forall>p \<in> set space_codes. c \<notin> set p"
  by (auto simp: visible_def space_codes_def)

lemma visible_nonblank: "c \<in> set s \<Longrightarrow> visible c \<Longrightarrow> trim_space s \<noteq> []"
  using trim_space_keeps [OF _ visible_no_space] by fastforce

lemma nonblank_Cons: "visible c \<Longrightarrow> trim_space (c # r) \<noteq> []"
  by (rule visible_nonblank [of c]) simp_all

lemma visible_classes:
  "lower_or_digit c \<Longrightarrow> visible c" "letter_or_digit c \<Longrightarrow> visible c" "is_lower c \<Longrightarrow> visible c"
  "is_digit c \<Longrightarrow> visible c"
  by (auto simp: visible_def lower_or_digit_def letter_or_digit_def is_lower_def is_upper_def is_digit_def)

lemma visible_marks [simp]:
  "visible (CHR ''.'')" "visible (CHR ''_'')" "visible (CHR ''/'')" "visible (CHR ''@'')"
  "visible (CHR '':'')" "visible (CHR ''-'')" "visible (CHR ''{'')"
  by (simp_all add: visible_def byte_def)

lemma name_shape_Cons: "name_shape f g s \<longleftrightarrow> (\<exists>c r. s = c # r \<and> f c \<and> list_all g r)"
  by (cases s) (auto simp: name_shape_def)

lemma name_nonblank: "name_shape f g s \<Longrightarrow> (\<And>c. f c \<Longrightarrow> visible c) \<Longrightarrow> trim_space s \<noteq> []"
  by (auto simp: name_shape_Cons nonblank_Cons)

definition abs_path_token :: "string \<Rightarrow> bool" where
  "abs_path_token s \<longleftrightarrow> is_abs (trim_space s)"

lemma validateAbsolutePath_ok [err_simps]:
  "validateAbsolutePath s label = Inr p \<longleftrightarrow> abs_path_token s \<and> p = path_clean (trim_space s)"
  by (auto simp: validateAbsolutePath_def Let_def err_simps abs_path_token_def is_abs_def)

lemma validateComposeProjectName_ok [err_simps]:
  "validateComposeProjectName s = Inr p \<longleftrightarrow> composeProjectNamePattern s \<and> p = s"
proof -
  have "composeProjectNamePattern s \<Longrightarrow> trim_space s \<noteq> []"
    unfolding composeProjectNamePattern_def by (erule name_nonblank) (rule visible_classes)
  then show ?thesis by (auto simp: validateComposeProjectName_def err_simps)
qed

lemma validateNetworkName_ok [err_simps]:
  "validateNetworkName s = Inr p \<longleftrightarrow> networkNamePattern s \<and> p = s"
proof -
  have "networkNamePattern s \<Longrightarrow> trim_space s \<noteq> []"
    unfolding networkNamePattern_def short_name_shape_def
    by (elim conjE, erule name_nonblank) (rule visible_classes)
  then show ?thesis by (auto simp: validateNetworkName_def err_simps)
qed

lemma simple_names_ok [err_simps]:
  "validateComposeServiceName s = Inr p \<longleftrightarrow> composeServiceNamePattern s \<and> p = s"
  "validateContainerID s = Inr p \<longleftrightarrow> containerIDPattern s \<and> p = s"
  "validateVolumeName s = Inr p \<longleftrightarrow> volumeNamePattern s \<and> p = s"
  by (auto simp: validateComposeServiceName_def validateContainerID_def validateVolumeName_def err_simps)

text \<open>The last loop of \<open>validateImageRef\<close> finds nothing the pattern has not already refused.\<close>

lemma plain_text:
  assumes "\<forall>c \<in> set s. visible c"
  shows "\<not> has_control s" "\<not> has_space s"
proof -
  show "\<not> has_control s"
    using assms by (induction s) (auto simp: visible_def split: list.splits)
  have "strip_any space_codes (c # r) = None" if "visible c" for c r
    using visible_no_space [OF that] by (auto simp: strip_any_None has_prefix_iff Cons_eq_append_conv)
  then show "\<not> has_space s" using assms by (induction s) auto
qed

lemma imageRefPattern_visible: "imageRefPattern s \<Longrightarrow> c \<in> set s \<Longrightarrow> visible c"
  unfolding imageRefPattern_def name_shape_Cons
  by (auto simp: list_all_iff visible_classes; fastforce simp: visible_classes visible_marks)

lemma validateImageRef_ok [err_simps]:
  "validateImageRef s = Inr p \<longleftrightarrow> imageRefPattern s \<and> p = s"
proof -
  have "trim_space s \<noteq> [] \<and> \<not> has_prefix s ''-'' \<and> \<not> has_control s \<and> \<not> has_space s"
    if i: "imageRefPattern s"
  proof (intro conjI)
    obtain c r where c: "s = c # r" "letter_or_digit c"
      using i by (auto simp: imageRefPattern_def name_shape_Cons)
    then show "trim_space s \<noteq> []" by (simp add: nonblank_Cons visible_classes)
    show "\<not> has_prefix s ''-''"
      using c by (auto simp: letter_or_digit_def is_lower_def is_upper_def is_digit_def byte_def)
    show "\<not> has_control s" "\<not> has_space s"
      using plain_text [of s] imageRefPattern_visible [OF i] by blast+
  qed
  then show ?thesis by (auto simp: validateImageRef_def err_simps)
qed

subsection \<open>The grammar\<close>

definition project_files :: "string \<Rightarrow> string \<Rightarrow> bool" where
  "project_files c e \<longleftrightarrow> abs_path_token c \<and> abs_path_token e
     \<and> path_dir (path_clean (trim_space c)) = path_dir (path_clean (trim_space e))"

definition config_paths :: "string \<Rightarrow> string \<Rightarrow> bool" where
  "config_paths d c \<longleftrightarrow> abs_path_token d \<and> abs_path_token c
     \<and> \<not> (let r = rel_abs (path_clean (trim_space d)) (path_clean (trim_space c))
          in r = ''..'' \<or> has_prefix r ''../'')"

text \<open>An optional flag with its value, which has to satisfy \<open>P\<close>.\<close>

definition opt_flag :: "string \<Rightarrow> (string \<Rightarrow> bool) \<Rightarrow> string list \<Rightarrow> bool" where
  "opt_flag flag P ts \<longleftrightarrow> ts = [] \<or> (\<exists>v. P v \<and> ts = [flag, v])"

definition opt_word :: "string \<Rightarrow> string list \<Rightarrow> bool" where
  "opt_word w ts \<longleftrightarrow> ts = [] \<or> ts = [w]"

definition env_pair :: "string list \<Rightarrow> bool" where
  "env_pair ts \<longleftrightarrow>
     ts = [] \<or> (\<exists>e u. abs_path_token e \<and> abs_path_token u \<and> ts = [''--env-file'', e, ''--env-file'', u])"

definition tail_count :: "string \<Rightarrow> bool" where
  "tail_count t \<longleftrightarrow> (\<exists>n. 1 \<le> n \<and> n < 2 ^ 63 \<and> t = itoa n)"

definition owner_labels :: "string list \<Rightarrow> bool" where
  "owner_labels ts \<longleftrightarrow> ts = [] \<or> (\<exists>a. networkAppIDPattern a
     \<and> ts = [''--label'', managedNetworkLabel, ''--label'', appNetworkLabelPrefix @ a])"

definition cleanup_source :: "string \<Rightarrow> bool" where
  "cleanup_source p \<longleftrightarrow> abs_path_token p \<and> CHR '','' \<notin> set (path_clean (trim_space p))
     \<and> \<not> has_control (path_clean (trim_space p))"

definition deploy_verbs :: "string list list" where
  "deploy_verbs = [[''pull''], [''restart''], [''stop''], [''down''], [''down'', ''--rmi'', ''all''],
     [''up'', ''-d''], [''up'', ''-d'', ''--force-recreate'']]"

definition project_argv :: "string \<Rightarrow> string \<Rightarrow> string list \<Rightarrow> string \<Rightarrow> string list \<Rightarrow> string list" where
  "project_argv c e us p os =
     [''compose'', ''-f'', c, ''--env-file'', e] @ us @ [''--project-name'', p] @ os"

definition project_ok :: "string list \<Rightarrow> bool" where
  "project_ok a \<longleftrightarrow> (\<exists>c e us p os. project_files c e \<and> opt_flag ''--env-file'' abs_path_token us
     \<and> composeProjectNamePattern p \<and> opt_flag ''-f'' abs_path_token os \<and> a = project_argv c e us p os)"

inductive docker_grammar :: "string list \<Rightarrow> bool" where
  version: "docker_grammar [''version'']"
| info: "docker_grammar [''info'', ''--format'', dockerInfoSecurityOptionsFormat]"
| compose_version: "docker_grammar [''compose'', ''version'']"
| compose_config: "config_paths d c \<Longrightarrow> env_pair es \<Longrightarrow> opt_flag ''-f'' abs_path_token os \<Longrightarrow>
    docker_grammar ([''compose'', ''--project-directory'', d, ''-f'', c] @ es @ os @ [''config'', ''--quiet''])"
| compose_deploy: "project_ok a \<Longrightarrow> verb \<in> set deploy_verbs \<Longrightarrow> docker_grammar (a @ verb)"
| compose_logs: "project_ok a \<Longrightarrow> opt_flag ''--tail'' tail_count ts \<Longrightarrow> opt_word ''--follow'' fs
    \<Longrightarrow> list_all composeServiceNamePattern ss
    \<Longrightarrow> docker_grammar (a @ [''logs'', ''--no-color'', ''--timestamps''] @ ts @ fs @ ss)"
| network_inspect: "networkNamePattern n
    \<Longrightarrow> f \<in> {networkInternalFormat, networkSubnetInspectFormat, networkManagedLabelFormat}
    \<Longrightarrow> docker_grammar [''network'', ''inspect'', ''--format'', f, n]"
| network_create: "opt_word ''--internal'' ins \<Longrightarrow> opt_flag ''--subnet'' (\<lambda>s. parse_prefix4 s \<noteq> None) ss
    \<Longrightarrow> opt_flag ''--gateway'' (\<lambda>g. parse_addr4 g \<noteq> None) gs \<Longrightarrow> (gs \<noteq> [] \<longrightarrow> ss \<noteq> []) \<Longrightarrow> owner_labels ls
    \<Longrightarrow> networkNamePattern n \<Longrightarrow> docker_grammar ([''network'', ''create''] @ ins @ ss @ gs @ ls @ [n])"
| network_rm: "networkNamePattern n \<Longrightarrow> docker_grammar [''network'', ''rm'', n]"
| network_ls: "docker_grammar
    [''network'', ''ls'', ''--filter'', managedNetworkLabelFilter, ''--format'', managedNetworkListFormat]"
| container_ls: "composeProjectNamePattern p
    \<Longrightarrow> docker_grammar [''container'', ''ls'', ''--all'', ''--filter'', composeProjectLabelFilterPrefix @ p,
          ''--format'', containerListFormat]"
| container_inspect: "containerIDPattern i
    \<Longrightarrow> docker_grammar [''container'', ''inspect'', ''--format'', containerInspectFormat, i]"
| image_inspect: "imageRefPattern r
    \<Longrightarrow> docker_grammar [''image'', ''inspect'', ''--format'', imageDigestInspectFormat, r]"
| image_pull: "docker_grammar [''image'', ''pull'', bindCleanupImage]"
| volume_ls: "composeProjectNamePattern p
    \<Longrightarrow> docker_grammar [''volume'', ''ls'', ''--filter'', composeProjectLabelFilterPrefix @ p,
          ''--format'', volumeListFormat]"
| volume_rm: "volumeNamePattern v \<Longrightarrow> docker_grammar [''volume'', ''rm'', v]"
| run_cleanup: "cleanup_source p
    \<Longrightarrow> docker_grammar [''run'', ''--rm'', ''--pull=never'', ''--network'', ''none'', ''--mount'',
          bindCleanupMountArg p, bindCleanupImage, ''find'', bindCleanupTarget, ''-xdev'', ''-depth'',
          ''-mindepth'', ''1'', ''-delete'']"

subsection \<open>What the allow-list accepts\<close>

lemma validateComposeProject_ok [err_simps]:
  "(\<exists>p. validateComposeProject \<lparr>ComposeFile = c, EnvFile = e, ProjectName = n\<rparr> = Inr p)
     \<longleftrightarrow> project_files c e \<and> composeProjectNamePattern n"
  by (auto simp: validateComposeProject_def project_files_def err_simps)

lemma validateComposeConfigPaths_ok [err_simps]:
  "(\<exists>p. validateComposeConfigPaths d c = Inr p) \<longleftrightarrow> config_paths d c"
  by (auto simp: validateComposeConfigPaths_def config_paths_def Let_def err_simps)

lemma config_check_ok: "error_only (validateComposeConfigPaths d c) = None \<longleftrightarrow> config_paths d c"
  unfolding error_only_None validateComposeConfigPaths_ok ..

lemma validateBindCleanupPath_ok [err_simps]:
  "(\<exists>q. validateBindCleanupPath p = Inr q) \<longleftrightarrow> cleanup_source p"
  by (auto simp: validateBindCleanupPath_def cleanup_source_def err_simps)

lemma cut_prefix_Some [err_simps]: "cut_prefix s p = Some r \<longleftrightarrow> s = p @ r"
  by (auto simp: cut_prefix_def has_prefix_iff)

lemma cut_prefix_same [simp]: "cut_prefix (p @ r) p = Some r"
  by (simp add: cut_prefix_Some)

lemma cut_suffix_Some [err_simps]: "cut_suffix s p = Some r \<longleftrightarrow> s = r @ p"
proof -
  have "has_prefix (rev s) (rev p) \<longleftrightarrow> (\<exists>r. s = r @ p)"
    by (auto simp: has_prefix_iff) (metis rev_append rev_rev_ident)
  then show ?thesis by (auto simp: cut_suffix_def)
qed

lemma label_filter_ok:
  "validateComposeProjectLabelFilter f = None
     \<longleftrightarrow> (\<exists>p. composeProjectNamePattern p \<and> f = composeProjectLabelFilterPrefix @ p)"
  by (auto simp: validateComposeProjectLabelFilter_def err_simps split: option.splits)

lemma cleanup_mount_ok:
  "validateBindCleanupMountArg m = None \<longleftrightarrow> (\<exists>p. cleanup_source p \<and> m = bindCleanupMountArg p)"
proof
  assume "validateBindCleanupMountArg m = None"
  then show "\<exists>p. cleanup_source p \<and> m = bindCleanupMountArg p"
    by (auto simp: validateBindCleanupMountArg_def err_simps bindCleanupMountArg_def split: option.splits)
next
  assume "\<exists>p. cleanup_source p \<and> m = bindCleanupMountArg p"
  then obtain p where p: "cleanup_source p" "m = bindCleanupMountArg p" by blast
  have "cut_prefix m ''type=bind,src='' = Some (p @ '',dst='' @ bindCleanupTarget)"
    "cut_suffix (p @ '',dst='' @ bindCleanupTarget) ('',dst='' @ bindCleanupTarget) = Some p"
    unfolding cut_prefix_Some cut_suffix_Some using p(2) by (simp_all add: bindCleanupMountArg_def)
  with p(1) show "validateBindCleanupMountArg m = None"
    unfolding validateBindCleanupMountArg_def by (simp only: option.case error_only_None validateBindCleanupPath_ok)
qed

text \<open>A list of a known length, taken apart.\<close>

lemmas list_of_length = length_Suc_conv numeral_eq_Suc

lemma at_least:
  "5 \<le> length xs \<Longrightarrow> \<exists>a b c d e r. xs = a # b # c # d # e # r"
  "7 \<le> length xs \<Longrightarrow> \<exists>a b c d e f g r. xs = a # b # c # d # e # f # g # r"
  by (auto simp: numeral_eq_Suc Suc_le_length_iff)

lemma strip_env_Inr:
  assumes "stripValidatedComposeUserEnv argv = Inr a"
  shows "argv = a
    \<or> (\<exists>c e u r. abs_path_token u \<and> r \<noteq> [] \<and> argv = [''compose'', ''-f'', c, ''--env-file'', e, ''--env-file'', u] @ r
          \<and> a = [''compose'', ''-f'', c, ''--env-file'', e] @ r)
    \<or> (\<exists>d c e u r. abs_path_token e \<and> abs_path_token u \<and> r \<noteq> []
          \<and> argv = [''compose'', ''--project-directory'', d, ''-f'', c, ''--env-file'', e, ''--env-file'', u] @ r
          \<and> a = [''compose'', ''--project-directory'', d, ''-f'', c] @ r)"
proof (cases "length argv \<ge> 8")
  case True
  then obtain a0 a1 a2 a3 a4 a5 a6 a7 r where "argv = a0 # a1 # a2 # a3 # a4 # a5 # a6 # a7 # r"
    by (auto simp: numeral_eq_Suc Suc_le_length_iff)
  with assms show ?thesis
    by (cases r) (auto simp: stripValidatedComposeUserEnv_def err_simps split: if_splits)
next
  case False
  with assms show ?thesis by (auto simp: stripValidatedComposeUserEnv_def)
qed

lemma strip_override_Inr:
  assumes "stripValidatedComposeOverride argv = Inr a"
  shows "argv = a
    \<or> (\<exists>c e p v r. abs_path_token v \<and> r \<noteq> []
          \<and> argv = [''compose'', ''-f'', c, ''--env-file'', e, ''--project-name'', p, ''-f'', v] @ r
          \<and> a = [''compose'', ''-f'', c, ''--env-file'', e, ''--project-name'', p] @ r)
    \<or> (\<exists>d c v r. abs_path_token v \<and> r \<noteq> []
          \<and> argv = [''compose'', ''--project-directory'', d, ''-f'', c, ''-f'', v] @ r
          \<and> a = [''compose'', ''--project-directory'', d, ''-f'', c] @ r)"
proof (cases "length argv \<ge> 9")
  case True
  then obtain a0 a1 a2 a3 a4 a5 a6 a7 a8 r where "argv = a0 # a1 # a2 # a3 # a4 # a5 # a6 # a7 # a8 # r"
    by (auto simp: numeral_eq_Suc Suc_le_length_iff)
  with assms show ?thesis
    by (cases r) (auto simp: stripValidatedComposeOverride_def err_simps split: if_splits)
next
  case False
  with assms show ?thesis by (auto simp: stripValidatedComposeOverride_def)
qed

text \<open>The checks behind the two strips.\<close>

definition compose_core :: "string list \<Rightarrow> docker_error option" where
  "compose_core argv =
     (if length argv = 2 \<and> argv ! 1 = ''version'' then None
      else if isComposeConfigArgv argv
      then error_only (validateComposeConfigPaths (argv ! 2) (argv ! 4))
      else if isComposeProjectArgv argv then validateComposeProjectArgv argv
      else if isComposeLogsArgv argv then validateComposeLogsArgvSuffix argv
      else Some (unsupportedDockerArgv argv))"

lemma tail_token_ok: "validateComposeLogsTailToken t = None \<longleftrightarrow> tail_count t"
proof
  assume a: "validateComposeLogsTailToken t = None"
  then obtain n where n: "atoi t = Some n" "1 \<le> n" "t = itoa n"
    by (auto simp: validateComposeLogsTailToken_def err_simps split: option.splits)
  with atoi_range [OF n(1)] show "tail_count t" by (auto simp: tail_count_def int64_range_def)
next
  assume "tail_count t"
  then obtain n where "1 \<le> n" "n < 2 ^ 63" "t = itoa n" by (auto simp: tail_count_def)
  moreover from this have "atoi t = Some n" by (simp add: atoi_itoa int64_range_def)
  ultimately show "validateComposeLogsTailToken t = None"
    by (simp add: validateComposeLogsTailToken_def err_simps)
qed

lemma service_not_flag: "composeServiceNamePattern s \<Longrightarrow> s \<noteq> ''--tail'' \<and> s \<noteq> ''--follow''"
  by (auto simp: composeServiceNamePattern_def short_name_shape_def name_shape_Cons lower_or_digit_def
      is_lower_def is_digit_def byte_def)

definition logs_argv :: "string \<Rightarrow> string \<Rightarrow> string \<Rightarrow> string list \<Rightarrow> string list" where
  "logs_argv c e p rest = [''compose'', ''-f'', c, ''--env-file'', e, ''--project-name'', p,
     ''logs'', ''--no-color'', ''--timestamps''] @ rest"

definition logs_rest :: "string list \<Rightarrow> bool" where
  "logs_rest rest \<longleftrightarrow> (\<exists>ts fs ss. opt_flag ''--tail'' tail_count ts \<and> opt_word ''--follow'' fs
     \<and> list_all composeServiceNamePattern ss \<and> rest = ts @ fs @ ss)"

lemma services_ok:
  "first_err (\<lambda>s. error_only (validateComposeServiceName s)) ss = None \<longleftrightarrow> list_all composeServiceNamePattern ss"
  by (auto simp: err_simps list_all_iff)

lemma follow_split:
  "list_all composeServiceNamePattern
     (if length r \<ge> 1 \<and> r ! 0 = ''--follow'' then drop 1 r else r)
   \<longleftrightarrow> (\<exists>fs ss. opt_word ''--follow'' fs \<and> list_all composeServiceNamePattern ss \<and> r = fs @ ss)"
  (is "?L \<longleftrightarrow> ?R")
proof
  assume ?L
  then show ?R
  proof (cases "length r \<ge> 1 \<and> r ! 0 = ''--follow''")
    case True
    then obtain x where "r = ''--follow'' # x" by (cases r) auto
    with \<open>?L\<close> show ?thesis
      by (intro exI [of _ "[''--follow'']"] exI [of _ x]) (simp add: opt_word_def)
  next
    case False
    with \<open>?L\<close> have "list_all composeServiceNamePattern r" by (simp only: if_False)
    then show ?thesis by (intro exI [of _ "[]"] exI [of _ r]) (simp add: opt_word_def)
  qed
next
  assume ?R
  then obtain fs ss where s: "opt_word ''--follow'' fs" "list_all composeServiceNamePattern ss" "r = fs @ ss"
    by blast
  show ?L
  proof (cases "fs = []")
    case True
    with s service_not_flag show ?thesis by (cases ss) auto
  next
    case False
    with s show ?thesis by (auto simp: opt_word_def)
  qed
qed

lemma logs_suffix_ok:
  "validateComposeLogsArgvSuffix (logs_argv c e p rest) = None
     \<longleftrightarrow> project_files c e \<and> composeProjectNamePattern p \<and> logs_rest rest" (is "?L \<longleftrightarrow> ?R")
proof -
  have pre: "validateComposeProjectArgv (logs_argv c e p rest) = None
      \<longleftrightarrow> project_files c e \<and> composeProjectNamePattern p"
    by (simp add: validateComposeProjectArgv_def logs_argv_def err_simps)
  have drop: "drop composeLogsFixedArgvLen (logs_argv c e p rest) = rest"
    by (simp add: composeLogsFixedArgvLen_def logs_argv_def)
  let ?tailed = "length rest \<ge> 2 \<and> rest ! 0 = ''--tail''"
  have "logs_rest rest \<longleftrightarrow>
      (?tailed \<longrightarrow> tail_count (rest ! 1))
      \<and> (\<exists>fs ss. opt_word ''--follow'' fs \<and> list_all composeServiceNamePattern ss
           \<and> (if ?tailed then drop 2 rest else rest) = fs @ ss)"
  proof (cases ?tailed)
    case True
    then obtain t r where r: "rest = ''--tail'' # t # r" by (auto simp: numeral_eq_Suc Suc_le_length_iff)
    have no: "opt_word ''--follow'' fs \<Longrightarrow> list_all composeServiceNamePattern ss \<Longrightarrow> rest \<noteq> fs @ ss" for fs ss
      using service_not_flag r by (cases fs; cases ss) (auto simp: opt_word_def)
    have "logs_rest rest \<longleftrightarrow> tail_count t
        \<and> (\<exists>fs ss. opt_word ''--follow'' fs \<and> list_all composeServiceNamePattern ss \<and> r = fs @ ss)"
    proof
      assume "logs_rest rest"
      then obtain ts fs ss where x: "opt_flag ''--tail'' tail_count ts" "opt_word ''--follow'' fs"
        "list_all composeServiceNamePattern ss" "rest = ts @ fs @ ss" by (auto simp: logs_rest_def)
      with no have "ts \<noteq> []" by auto
      with x r show "tail_count t \<and>
          (\<exists>fs ss. opt_word ''--follow'' fs \<and> list_all composeServiceNamePattern ss \<and> r = fs @ ss)"
        by (auto simp: opt_flag_def)
    next
      assume "tail_count t \<and>
          (\<exists>fs ss. opt_word ''--follow'' fs \<and> list_all composeServiceNamePattern ss \<and> r = fs @ ss)"
      then obtain fs ss where "tail_count t" "opt_word ''--follow'' fs" "list_all composeServiceNamePattern ss"
        "r = fs @ ss" by blast
      then show "logs_rest rest" unfolding logs_rest_def r
        by (intro exI [of _ "[''--tail'', t]"] exI [of _ fs] exI [of _ ss]) (simp add: opt_flag_def)
    qed
    then show ?thesis by (simp add: r)
  next
    case False
    have "opt_flag ''--tail'' tail_count ts \<Longrightarrow> rest = ts @ fs @ ss \<Longrightarrow> ts = []" for ts fs ss
      using False by (auto simp: opt_flag_def)
    moreover have "opt_flag ''--tail'' tail_count []" by (simp add: opt_flag_def)
    ultimately show ?thesis using False unfolding logs_rest_def by (metis append_Nil)
  qed
  moreover have "?L \<longleftrightarrow> project_files c e \<and> composeProjectNamePattern p
      \<and> (?tailed \<longrightarrow> tail_count (rest ! 1))
      \<and> list_all composeServiceNamePattern
          (if length (if ?tailed then drop 2 rest else rest) \<ge> 1
              \<and> (if ?tailed then drop 2 rest else rest) ! 0 = ''--follow''
           then drop 1 (if ?tailed then drop 2 rest else rest) else (if ?tailed then drop 2 rest else rest))"
    unfolding validateComposeLogsArgvSuffix_def Let_def drop or_else_None pre services_ok
    by (auto simp: tail_token_ok)
  ultimately show ?thesis unfolding follow_split by blast
qed

lemma core_accepts:
  assumes "compose_core a = None" "a \<noteq> []" "a ! 0 = ''compose''"
  shows "a = [''compose'', ''version'']
    \<or> (\<exists>d c. config_paths d c
          \<and> a = [''compose'', ''--project-directory'', d, ''-f'', c, ''config'', ''--quiet''])
    \<or> (\<exists>c e p v. project_files c e \<and> composeProjectNamePattern p \<and> v \<in> set deploy_verbs
          \<and> a = [''compose'', ''-f'', c, ''--env-file'', e, ''--project-name'', p] @ v)
    \<or> (\<exists>c e p r. project_files c e \<and> composeProjectNamePattern p \<and> logs_rest r \<and> a = logs_argv c e p r)"
proof -
  consider (v) "length a = 2" "a ! 1 = ''version''"
    | (config) "isComposeConfigArgv a" "error_only (validateComposeConfigPaths (a ! 2) (a ! 4)) = None"
    | (proj) "isComposeProjectArgv a" "validateComposeProjectArgv a = None"
    | (logs) "isComposeLogsArgv a" "validateComposeLogsArgvSuffix a = None"
    using assms(1) by (auto simp: compose_core_def split: if_splits)
  then show ?thesis
  proof cases
    case v
    with assms(3) show ?thesis by (auto simp: list_of_length)
  next
    case config
    then have "length a = 7" by (simp add: isComposeConfigArgv_def)
    then obtain a0 a1 a2 a3 a4 a5 a6 where a: "a = [a0, a1, a2, a3, a4, a5, a6]" by (auto simp: list_of_length)
    with config(2) have "config_paths a2 a4" by (simp add: config_check_ok)
    with config(1) assms(3) a show ?thesis by (simp add: isComposeConfigArgv_def)
  next
    case proj
    then have "8 \<le> length a" by (auto simp: isComposeProjectArgv_def split: if_splits)
    then obtain a0 a1 a2 a3 a4 a5 a6 a7 r where a: "a = a0 # a1 # a2 # a3 # a4 # a5 # a6 # a7 # r"
      by (auto simp: numeral_eq_Suc Suc_le_length_iff)
    from proj(2) have "project_files a2 a4 \<and> composeProjectNamePattern a6"
      by (simp add: validateComposeProjectArgv_def a err_simps)
    moreover from proj(1) assms(3) have "a0 = ''compose''" "a1 = ''-f''" "a3 = ''--env-file''"
      "a5 = ''--project-name''" "a7 # r \<in> set deploy_verbs"
      by (auto simp: isComposeProjectArgv_def a deploy_verbs_def list_of_length split: if_splits)
    ultimately show ?thesis using a by (auto intro!: exI [of _ "a7 # r"])
  next
    case logs
    then have "10 \<le> length a" by (simp add: isComposeLogsArgv_def composeLogsFixedArgvLen_def)
    then obtain a0 a1 a2 a3 a4 a5 a6 a7 a8 a9 r where
      "a = a0 # a1 # a2 # a3 # a4 # a5 # a6 # a7 # a8 # a9 # r"
      by (auto simp: numeral_eq_Suc Suc_le_length_iff)
    with logs(1) have "a = logs_argv a2 a4 a6 r" by (simp add: isComposeLogsArgv_def logs_argv_def)
    with logs(2) logs_suffix_ok show ?thesis by blast
  qed
qed

definition project_tail :: "string list \<Rightarrow> bool" where
  "project_tail t \<longleftrightarrow> t \<in> set deploy_verbs
     \<or> (\<exists>r. logs_rest r \<and> t = [''logs'', ''--no-color'', ''--timestamps''] @ r)"

lemma project_tail_Cons:
  "project_tail t \<Longrightarrow> \<exists>w r. t = w # r \<and> w \<noteq> ''-f'' \<and> w \<noteq> ''--env-file'' \<and> w \<noteq> ''version''"
  by (auto simp: project_tail_def deploy_verbs_def)

lemma override_accepts:
  assumes s: "stripValidatedComposeOverride a1 = Inr a2" and c: "compose_core a2 = None"
    and h: "a1 \<noteq> []" "a1 ! 0 = ''compose''"
  shows "a1 = [''compose'', ''version'']
    \<or> (\<exists>d c os. config_paths d c \<and> opt_flag ''-f'' abs_path_token os
          \<and> a1 = [''compose'', ''--project-directory'', d, ''-f'', c] @ os @ [''config'', ''--quiet''])
    \<or> (\<exists>c e p os t. project_files c e \<and> composeProjectNamePattern p \<and> opt_flag ''-f'' abs_path_token os
          \<and> project_tail t \<and> a1 = [''compose'', ''-f'', c, ''--env-file'', e, ''--project-name'', p] @ os @ t)"
proof -
  have "a2 \<noteq> [] \<and> a2 ! 0 = ''compose''" using strip_override_Inr [OF s] h by auto
  then have "a2 \<noteq> []" "a2 ! 0 = ''compose''" by simp_all
  from core_accepts [OF c this] have core: "a2 = [''compose'', ''version'']
    \<or> (\<exists>d c. config_paths d c
          \<and> a2 = [''compose'', ''--project-directory'', d, ''-f'', c, ''config'', ''--quiet''])
    \<or> (\<exists>c e p t. project_files c e \<and> composeProjectNamePattern p \<and> project_tail t
          \<and> a2 = [''compose'', ''-f'', c, ''--env-file'', e, ''--project-name'', p] @ t)"
  proof (elim disjE)
    assume "\<exists>c e p r. project_files c e \<and> composeProjectNamePattern p \<and> logs_rest r \<and> a2 = logs_argv c e p r"
    then obtain c e p r where x: "project_files c e" "composeProjectNamePattern p" "logs_rest r"
      "a2 = logs_argv c e p r" by blast
    then have "project_tail ([''logs'', ''--no-color'', ''--timestamps''] @ r)"
      unfolding project_tail_def by blast
    with x show ?thesis by (auto simp: logs_argv_def)
  qed (auto simp: project_tail_def)
  have none: "opt_flag ''-f'' abs_path_token []" by (simp add: opt_flag_def)
  from strip_override_Inr [OF s] show ?thesis
  proof (elim disjE exE conjE)
    assume e: "a1 = a2"
    from core show ?thesis
    proof (elim disjE exE conjE)
      fix d c
      assume "config_paths d c" "a2 = [''compose'', ''--project-directory'', d, ''-f'', c, ''config'', ''--quiet'']"
      with e none show ?thesis
        by - (rule disjI2, rule disjI1, intro exI [of _ d] exI [of _ c] exI [of _ "[]"], simp)
    next
      fix c e' p t
      assume "project_files c e'" "composeProjectNamePattern p" "project_tail t"
        "a2 = [''compose'', ''-f'', c, ''--env-file'', e', ''--project-name'', p] @ t"
      with e none show ?thesis
        by - (rule disjI2, rule disjI2, intro exI [of _ c] exI [of _ e'] exI [of _ p] exI [of _ "[]"] exI [of _ t],
          simp)
    qed (simp add: e)
  next
    fix c e p v r
    assume v: "abs_path_token v" "r \<noteq> []"
      and a: "a1 = [''compose'', ''-f'', c, ''--env-file'', e, ''--project-name'', p, ''-f'', v] @ r"
        "a2 = [''compose'', ''-f'', c, ''--env-file'', e, ''--project-name'', p] @ r"
    from core a(2) have "project_files c e \<and> composeProjectNamePattern p \<and> project_tail r" by auto
    moreover have "opt_flag ''-f'' abs_path_token [''-f'', v]" using v by (simp add: opt_flag_def)
    moreover have "a1 = [''compose'', ''-f'', c, ''--env-file'', e, ''--project-name'', p] @ [''-f'', v] @ r"
      using a(1) by simp
    ultimately show ?thesis by blast
  next
    fix d c v r
    assume v: "abs_path_token v" "r \<noteq> []"
      and a: "a1 = [''compose'', ''--project-directory'', d, ''-f'', c, ''-f'', v] @ r"
        "a2 = [''compose'', ''--project-directory'', d, ''-f'', c] @ r"
    from core a(2) have "config_paths d c \<and> r = [''config'', ''--quiet'']" by auto
    moreover have "opt_flag ''-f'' abs_path_token [''-f'', v]" using v by (simp add: opt_flag_def)
    moreover have "a1 = [''compose'', ''--project-directory'', d, ''-f'', c] @ [''-f'', v] @ r" using a(1) by simp
    ultimately show ?thesis by blast
  qed
qed

lemma project_grammar: "project_ok a \<Longrightarrow> project_tail t \<Longrightarrow> docker_grammar (a @ t)"
  unfolding project_tail_def logs_rest_def
  using docker_grammar.compose_deploy docker_grammar.compose_logs by blast

lemma compose_accepts:
  assumes "validateComposeArgv argv = None" "argv \<noteq> []" "argv ! 0 = ''compose''"
  shows "docker_grammar argv"
proof -
  from assms(1) obtain a1 a2 where s: "stripValidatedComposeUserEnv argv = Inr a1"
    "stripValidatedComposeOverride a1 = Inr a2" "compose_core a2 = None"
    by (auto simp: validateComposeArgv_def compose_core_def split: sum.splits)
  have "a1 \<noteq> [] \<and> a1 ! 0 = ''compose''" using strip_env_Inr [OF s(1)] assms(2,3) by auto
  then have o: "a1 = [''compose'', ''version'']
    \<or> (\<exists>d c os. config_paths d c \<and> opt_flag ''-f'' abs_path_token os
          \<and> a1 = [''compose'', ''--project-directory'', d, ''-f'', c] @ os @ [''config'', ''--quiet''])
    \<or> (\<exists>c e p os t. project_files c e \<and> composeProjectNamePattern p \<and> opt_flag ''-f'' abs_path_token os
          \<and> project_tail t \<and> a1 = [''compose'', ''-f'', c, ''--env-file'', e, ''--project-name'', p] @ os @ t)"
    using override_accepts [OF s(2,3)] by blast
  have none: "opt_flag ''--env-file'' abs_path_token []" "env_pair []" by (simp_all add: opt_flag_def env_pair_def)
  from strip_env_Inr [OF s(1)] show ?thesis
  proof (elim disjE exE conjE)
    assume e: "argv = a1"
    from o show ?thesis
    proof (elim disjE exE conjE)
      assume "a1 = [''compose'', ''version'']"
      with e show ?thesis by (simp add: docker_grammar.compose_version)
    next
      fix d c os
      assume x: "config_paths d c" "opt_flag ''-f'' abs_path_token os"
        "a1 = [''compose'', ''--project-directory'', d, ''-f'', c] @ os @ [''config'', ''--quiet'']"
      from docker_grammar.compose_config [OF x(1) none(2) x(2)] e x(3) show ?thesis by simp
    next
      fix c e' p os t
      assume x: "project_files c e'" "composeProjectNamePattern p" "opt_flag ''-f'' abs_path_token os"
        "project_tail t" "a1 = [''compose'', ''-f'', c, ''--env-file'', e', ''--project-name'', p] @ os @ t"
      then have "project_ok (project_argv c e' [] p os)" using none unfolding project_ok_def by blast
      from project_grammar [OF this x(4)] e x(5) show ?thesis by (simp add: project_argv_def)
    qed
  next
    fix c e u r
    assume u: "abs_path_token u" "r \<noteq> []"
      "argv = [''compose'', ''-f'', c, ''--env-file'', e, ''--env-file'', u] @ r"
      "a1 = [''compose'', ''-f'', c, ''--env-file'', e] @ r"
    from o u(4) obtain p os t where x: "project_files c e" "composeProjectNamePattern p"
      "opt_flag ''-f'' abs_path_token os" "project_tail t" "r = [''--project-name'', p] @ os @ t"
      by auto
    have "opt_flag ''--env-file'' abs_path_token [''--env-file'', u]" using u(1) by (simp add: opt_flag_def)
    with x have "project_ok (project_argv c e [''--env-file'', u] p os)" unfolding project_ok_def by blast
    from project_grammar [OF this x(4)] u(3) x(5) show ?thesis by (simp add: project_argv_def)
  next
    fix d c e u r
    assume u: "abs_path_token e" "abs_path_token u" "r \<noteq> []"
      "argv = [''compose'', ''--project-directory'', d, ''-f'', c, ''--env-file'', e, ''--env-file'', u] @ r"
      "a1 = [''compose'', ''--project-directory'', d, ''-f'', c] @ r"
    from o u(5) obtain os where x: "config_paths d c" "opt_flag ''-f'' abs_path_token os"
      "r = os @ [''config'', ''--quiet'']" by auto
    have "env_pair [''--env-file'', e, ''--env-file'', u]" using u(1,2) by (simp add: env_pair_def)
    from docker_grammar.compose_config [OF x(1) this x(2)] u(4) x(3) show ?thesis by simp
  qed
qed

lemma project_core:
  assumes "project_files c e" "composeProjectNamePattern p" "project_tail t"
  shows "compose_core ([''compose'', ''-f'', c, ''--env-file'', e, ''--project-name'', p] @ t) = None"
proof -
  have v: "validateComposeProjectArgv ([''compose'', ''-f'', c, ''--env-file'', e, ''--project-name'', p] @ t) = None"
    using assms(1,2) by (simp add: validateComposeProjectArgv_def err_simps)
  from assms(3) consider "t \<in> set deploy_verbs"
    | r where "logs_rest r" "t = [''logs'', ''--no-color'', ''--timestamps''] @ r"
    by (auto simp: project_tail_def)
  then show ?thesis
  proof cases
    case 1
    then have "isComposeProjectArgv ([''compose'', ''-f'', c, ''--env-file'', e, ''--project-name'', p] @ t)"
      by (auto simp: deploy_verbs_def isComposeProjectArgv_def)
    with v show ?thesis by (simp add: compose_core_def isComposeConfigArgv_def)
  next
    case 2
    let ?a = "logs_argv c e p r"
    have "validateComposeLogsArgvSuffix ?a = None" using assms 2 by (simp add: logs_suffix_ok)
    moreover have "isComposeLogsArgv ?a" "\<not> isComposeProjectArgv ?a" "\<not> isComposeConfigArgv ?a" "length ?a \<noteq> 2"
      by (simp_all add: logs_argv_def isComposeLogsArgv_def isComposeProjectArgv_def isComposeConfigArgv_def
          composeLogsFixedArgvLen_def)
    moreover have "[''compose'', ''-f'', c, ''--env-file'', e, ''--project-name'', p] @ t = ?a"
      using 2(2) by (simp add: logs_argv_def)
    ultimately show ?thesis by (simp add: compose_core_def)
  qed
qed

lemma project_accepted:
  assumes "project_ok a" "project_tail t"
  shows "validateComposeArgv (a @ t) = None"
proof -
  from assms(1) obtain c e us p os where x: "project_files c e" "opt_flag ''--env-file'' abs_path_token us"
    "composeProjectNamePattern p" "opt_flag ''-f'' abs_path_token os" "a = project_argv c e us p os"
    by (auto simp: project_ok_def)
  obtain w r where t: "t = w # r" "w \<noteq> ''-f''" "w \<noteq> ''--env-file''" using project_tail_Cons [OF assms(2)] by blast
  let ?a1 = "[''compose'', ''-f'', c, ''--env-file'', e, ''--project-name'', p] @ os @ t"
  let ?a2 = "[''compose'', ''-f'', c, ''--env-file'', e, ''--project-name'', p] @ t"
  have "stripValidatedComposeUserEnv (a @ t) = Inr ?a1"
    using x(2,5) t by (auto simp: opt_flag_def project_argv_def stripValidatedComposeUserEnv_def err_simps)
  moreover have "stripValidatedComposeOverride ?a1 = Inr ?a2"
    using x(4) t by (auto simp: opt_flag_def stripValidatedComposeOverride_def err_simps)
  ultimately show ?thesis
    using project_core [OF x(1,3) assms(2)]
    by (simp only: validateComposeArgv_def compose_core_def sum.case)
qed

lemma config_accepted:
  assumes "config_paths d c" "env_pair es" "opt_flag ''-f'' abs_path_token os"
  shows "validateComposeArgv ([''compose'', ''--project-directory'', d, ''-f'', c] @ es @ os @ [''config'', ''--quiet'']) = None"
proof -
  let ?a1 = "[''compose'', ''--project-directory'', d, ''-f'', c] @ os @ [''config'', ''--quiet'']"
  let ?a2 = "[''compose'', ''--project-directory'', d, ''-f'', c] @ [''config'', ''--quiet'']"
  have "stripValidatedComposeUserEnv
      ([''compose'', ''--project-directory'', d, ''-f'', c] @ es @ os @ [''config'', ''--quiet'']) = Inr ?a1"
    using assms(2,3) by (auto simp: env_pair_def opt_flag_def stripValidatedComposeUserEnv_def err_simps)
  moreover have "stripValidatedComposeOverride ?a1 = Inr ?a2"
    using assms(3) by (auto simp: opt_flag_def stripValidatedComposeOverride_def err_simps)
  moreover have "compose_core ?a2 = None"
    using assms(1) by (simp add: compose_core_def isComposeConfigArgv_def config_check_ok)
  ultimately show ?thesis by (simp only: validateComposeArgv_def compose_core_def sum.case)
qed

subsection \<open>No token is blank\<close>

lemma abs_path_nonblank: "abs_path_token s \<Longrightarrow> trim_space s \<noteq> []"
  by (auto simp: abs_path_token_def is_abs_def)

lemma names_nonblank:
  "composeProjectNamePattern s \<Longrightarrow> trim_space s \<noteq> []" "composeServiceNamePattern s \<Longrightarrow> trim_space s \<noteq> []"
  "networkNamePattern s \<Longrightarrow> trim_space s \<noteq> []" "imageRefPattern s \<Longrightarrow> trim_space s \<noteq> []"
  "volumeNamePattern s \<Longrightarrow> trim_space s \<noteq> []"
  by (auto simp: composeProjectNamePattern_def composeServiceNamePattern_def networkNamePattern_def
      imageRefPattern_def volumeNamePattern_def short_name_shape_def name_shape_Cons nonblank_Cons
      visible_classes)

lemma container_nonblank: "containerIDPattern s \<Longrightarrow> trim_space s \<noteq> []"
  by (cases s) (auto simp: containerIDPattern_def intro!: nonblank_Cons simp: visible_def is_digit_def)

lemma addr_nonblank: "parse_addr4 s \<noteq> None \<Longrightarrow> trim_space s \<noteq> []"
proof -
  assume p: "parse_addr4 s \<noteq> None"
  have "CHR ''.'' \<in> set s"
  proof (rule ccontr)
    assume "CHR ''.'' \<notin> set s"
    then have "split_on (CHR ''.'') s = [s]" by (rule split_on_free)
    with p show False by (auto simp: parse_addr4_def parse_octets_def split: option.splits)
  qed
  then show ?thesis by (rule visible_nonblank) simp
qed

lemma prefix_nonblank: "parse_prefix4 s \<noteq> None \<Longrightarrow> trim_space s \<noteq> []"
proof -
  assume "parse_prefix4 s \<noteq> None"
  then obtain a b where "cut (CHR ''/'') (rev s) = (a, b, True)"
    by (auto simp: parse_prefix4_def rcut_def split: option.splits prod.splits if_splits)
  then have "CHR ''/'' \<in> set (rev s)" using cut_Some by fastforce
  then show ?thesis by (intro visible_nonblank [of "CHR ''/''"]) simp_all
qed

lemma tail_nonblank: "tail_count s \<Longrightarrow> trim_space s \<noteq> []"
proof -
  assume "tail_count s"
  then obtain n where "0 \<le> n" "s = itoa n" by (auto simp: tail_count_def)
  with itoa_first [of n] show ?thesis by (auto simp: nonblank_Cons visible_classes)
qed

lemmas literal_nonblank = nonblank_Cons visible_def byte_def

lemma fixed_nonblank:
  "trim_space dockerInfoSecurityOptionsFormat \<noteq> []" "trim_space (composeProjectLabelFilterPrefix @ p) \<noteq> []"
  "trim_space containerListFormat \<noteq> []" "trim_space containerInspectFormat \<noteq> []"
  "trim_space imageDigestInspectFormat \<noteq> []" "trim_space volumeListFormat \<noteq> []"
  "trim_space networkInternalFormat \<noteq> []" "trim_space networkManagedLabelFormat \<noteq> []"
  "trim_space networkSubnetInspectFormat \<noteq> []" "trim_space managedNetworkLabel \<noteq> []"
  "trim_space (appNetworkLabelPrefix @ a) \<noteq> []" "trim_space managedNetworkLabelFilter \<noteq> []"
  "trim_space managedNetworkListFormat \<noteq> []" "trim_space bindCleanupImage \<noteq> []"
  "trim_space bindCleanupTarget \<noteq> []" "trim_space (bindCleanupMountArg p) \<noteq> []"
  by (simp_all add: fixed_words bindCleanupMountArg_def literal_nonblank)

lemmas tokens_nonblank = abs_path_nonblank names_nonblank container_nonblank addr_nonblank prefix_nonblank
  tail_nonblank fixed_nonblank literal_nonblank

lemma project_ok_nonblank: "project_ok a \<Longrightarrow> t \<in> set a \<Longrightarrow> trim_space t \<noteq> []"
  by (auto simp: project_ok_def project_argv_def opt_flag_def project_files_def tokens_nonblank)

lemma grammar_nonblank: "docker_grammar argv \<Longrightarrow> t \<in> set argv \<Longrightarrow> trim_space t \<noteq> []"
proof (induction rule: docker_grammar.induct)
  case (compose_config d c es os)
  then show ?case by (auto simp: env_pair_def opt_flag_def config_paths_def tokens_nonblank)
next
  case (compose_deploy a verb)
  then show ?case using project_ok_nonblank by (auto simp: deploy_verbs_def literal_nonblank)
next
  case (compose_logs a ts fs ss)
  then show ?case using project_ok_nonblank
    by (auto simp: opt_flag_def opt_word_def list_all_iff tokens_nonblank)
next
  case (network_create ins ss gs ls n)
  then show ?case by (auto simp: opt_flag_def opt_word_def owner_labels_def tokens_nonblank)
qed (auto simp: tokens_nonblank)

subsection \<open>The allow-list is the grammar\<close>

lemma network_not_flag: "networkNamePattern n \<Longrightarrow> n \<noteq> CHR ''-'' # r"
  by (auto simp: networkNamePattern_def short_name_shape_def name_shape_Cons is_lower_def byte_def)

lemma consume_labels_Inr:
  "consumeNetworkLabelArgs argv rest = Inr out
     \<longleftrightarrow> (\<exists>ls. owner_labels ls \<and> rest = ls @ out \<and> (ls = [] \<longrightarrow> (rest = [] \<or> hd rest \<noteq> ''--label'')))"
  (is "?L \<longleftrightarrow> ?R")
proof (cases "rest = [] \<or> rest ! 0 \<noteq> ''--label''")
  case True
  then have "ls = []" if "owner_labels ls" "rest = ls @ out" for ls
    using that by (auto simp: owner_labels_def)
  moreover have "owner_labels []" by (simp add: owner_labels_def)
  ultimately show ?thesis using True
    by (auto simp: consumeNetworkLabelArgs_def hd_conv_nth)
next
  case False
  then have h: "rest \<noteq> []" "rest ! 0 = ''--label''" by auto
  show ?thesis
  proof
    assume ?L
    with h have "4 \<le> length rest" by (auto simp: consumeNetworkLabelArgs_def err_simps)
    then obtain a b c d r where r: "rest = a # b # c # d # r" by (auto simp: numeral_eq_Suc Suc_le_length_iff)
    with \<open>?L\<close> h obtain app where "b = managedNetworkLabel" "c = ''--label''" "networkAppIDPattern app"
      "d = appNetworkLabelPrefix @ app" "out = r"
      by (auto simp: consumeNetworkLabelArgs_def err_simps split: option.splits)
    then show ?R using r h by (intro exI [of _ "[a, b, c, d]"]) (auto simp: owner_labels_def)
  next
    assume ?R
    then obtain ls where ls: "owner_labels ls" "rest = ls @ out" "ls = [] \<longrightarrow> rest = [] \<or> hd rest \<noteq> ''--label''"
      by blast
    with h have "ls \<noteq> []" by (auto simp: hd_conv_nth)
    with ls obtain app where "networkAppIDPattern app"
      "ls = [''--label'', managedNetworkLabel, ''--label'', appNetworkLabelPrefix @ app]"
      by (auto simp: owner_labels_def)
    with ls(2) show ?L by (simp add: consumeNetworkLabelArgs_def err_simps)
  qed
qed

text \<open>The optional flags of a create, read from the front.\<close>

lemma flag_read:
  assumes "opt_flag flag P ts" "rest \<noteq> [] \<longrightarrow> hd rest \<noteq> flag"
  shows "(length (ts @ rest) \<ge> 2 \<and> (ts @ rest) ! 0 = flag) = (ts \<noteq> [])"
    and "(if ts \<noteq> [] then drop 2 (ts @ rest) else ts @ rest) = rest"
    and "ts \<noteq> [] \<Longrightarrow> P ((ts @ rest) ! 1)"
  using assms by (auto simp: opt_flag_def hd_conv_nth)

lemma network_create_accepted:
  assumes "opt_word ''--internal'' ins" "opt_flag ''--subnet'' (\<lambda>s. parse_prefix4 s \<noteq> None) ss"
    "opt_flag ''--gateway'' (\<lambda>g. parse_addr4 g \<noteq> None) gs" "gs \<noteq> [] \<longrightarrow> ss \<noteq> []" "owner_labels ls"
    "networkNamePattern n"
  shows "validateNetworkCreateArgv ([''network'', ''create''] @ ins @ ss @ gs @ ls @ [n]) = None"
proof -
  have nf: "n \<noteq> CHR ''-'' # r" for r using network_not_flag [OF assms(6)] .
  have l: "hd (ls @ [n]) \<noteq> ''--gateway''" "hd (ls @ [n]) \<noteq> ''--subnet''" "hd (ls @ [n]) \<noteq> ''--internal''"
    using assms(5) nf by (auto simp: owner_labels_def)
  have g: "hd (gs @ ls @ [n]) \<noteq> ''--subnet''" "hd (gs @ ls @ [n]) \<noteq> ''--internal''"
    using assms(3) l by (auto simp: opt_flag_def)
  have s: "hd (ss @ gs @ ls @ [n]) \<noteq> ''--internal''" using assms(2) g by (auto simp: opt_flag_def)
  let ?r1 = "ss @ gs @ ls @ [n]" and ?r2 = "gs @ ls @ [n]" and ?r3 = "ls @ [n]"
  have drop: "drop 2 ([''network'', ''create''] @ ins @ ?r1) = ins @ ?r1" by simp
  have internal:
    "(if length (ins @ ?r1) > 0 \<and> (ins @ ?r1) ! 0 = ''--internal'' then drop 1 (ins @ ?r1) else ins @ ?r1) = ?r1"
    using assms(1) s by (auto simp: opt_word_def hd_conv_nth)
  have sub: "(length ?r1 \<ge> 2 \<and> ?r1 ! 0 = ''--subnet'') = (ss \<noteq> [])"
    "(if ss \<noteq> [] then drop 2 ?r1 else ?r1) = ?r2"
    "(if ss \<noteq> [] then validateNetworkSubnetArg (?r1 ! 1) else None) = None"
    using flag_read [OF assms(2), of ?r2] g(1) by (auto simp: validateNetworkSubnetArg_def err_simps)
  have gate: "(length ?r2 \<ge> 2 \<and> ?r2 ! 0 = ''--gateway'') = (gs \<noteq> [])"
    "(if gs \<noteq> [] then drop 2 ?r2 else ?r2) = ?r3"
    "(if gs \<noteq> [] then or_else (refuse_if (\<not> ss \<noteq> []) e) (validateNetworkGatewayArg (?r2 ! 1)) else None) = None"
    for e
    using flag_read [OF assms(3), of ?r3] l(1) assms(4) by (auto simp: validateNetworkGatewayArg_def err_simps)
  have labels: "consumeNetworkLabelArgs a ?r3 = Inr [n]" for a
    unfolding consume_labels_Inr using assms(5) nf by (intro exI [of _ ls]) auto
  have "error_only (validateNetworkName n) = None" using assms(6) by (simp add: err_simps)
  then show ?thesis
    unfolding validateNetworkCreateArgv_def
    by (simp only: Let_def drop internal sub gate labels sum.case or_else_None) (simp add: err_simps)
qed

lemma flag_taken:
  assumes "(if b then drop 2 r else r) = r'" "b \<Longrightarrow> P (r ! 1)" "b = (length r \<ge> 2 \<and> r ! 0 = flag)"
  shows "\<exists>ts. opt_flag flag P ts \<and> r = ts @ r' \<and> (ts \<noteq> [] \<longleftrightarrow> b)"
proof (cases b)
  case True
  from True assms(3) obtain v w where "r = flag # v # w" by (auto simp: numeral_eq_Suc Suc_le_length_iff)
  with True assms show ?thesis by (intro exI [of _ "[flag, v]"]) (auto simp: opt_flag_def)
next
  case False
  with assms(1) show ?thesis by (intro exI [of _ "[]"]) (simp add: opt_flag_def)
qed

lemma network_create_grammar:
  assumes ok: "validateNetworkCreateArgv argv = None" and h: "argv = ''network'' # ''create'' # rest0"
  shows "docker_grammar argv"
proof -
  define rest1 where "rest1 = (if length rest0 > 0 \<and> rest0 ! 0 = ''--internal'' then drop 1 rest0 else rest0)"
  define sub where "sub = (length rest1 \<ge> 2 \<and> rest1 ! 0 = ''--subnet'')"
  define rest2 where "rest2 = (if sub then drop 2 rest1 else rest1)"
  define gate where "gate = (length rest2 \<ge> 2 \<and> rest2 ! 0 = ''--gateway'')"
  define rest3 where "rest3 = (if gate then drop 2 rest2 else rest2)"
  have "drop 2 argv = rest0" using h by simp
  with ok have c: "(if sub then validateNetworkSubnetArg (rest1 ! 1) else None) = None"
    "(if gate then or_else (refuse_if (\<not> sub) (unsupportedDockerArgv argv)) (validateNetworkGatewayArg (rest2 ! 1))
      else None) = None"
    "(case consumeNetworkLabelArgs argv rest3 of Inl err \<Rightarrow> Some err
      | Inr rest \<Rightarrow> or_else (refuse_if (length rest \<noteq> 1) (unsupportedDockerArgv argv))
          (error_only (validateNetworkName (rest ! 0)))) = None"
    unfolding validateNetworkCreateArgv_def Let_def or_else_None rest1_def sub_def rest2_def gate_def rest3_def
    by (simp_all only:)
  obtain ins where i: "opt_word ''--internal'' ins" "rest0 = ins @ rest1"
  proof (cases "length rest0 > 0 \<and> rest0 ! 0 = ''--internal''")
    case True
    then obtain r where "rest0 = ''--internal'' # r" by (cases rest0) auto
    then show ?thesis using that [of "[''--internal'']"] by (simp add: opt_word_def rest1_def)
  next
    case False
    then have "rest1 = rest0" by (simp only: rest1_def if_False)
    then show ?thesis using that [of "[]"] by (simp add: opt_word_def)
  qed
  have "sub \<Longrightarrow> parse_prefix4 (rest1 ! 1) \<noteq> None" using c(1) by (simp add: validateNetworkSubnetArg_def err_simps)
  from flag_taken [where P = "\<lambda>s. parse_prefix4 s \<noteq> None", OF rest2_def [symmetric] this sub_def] obtain ss where
    ss: "opt_flag ''--subnet'' (\<lambda>s. parse_prefix4 s \<noteq> None) ss" "rest1 = ss @ rest2" "ss \<noteq> [] \<longleftrightarrow> sub" by blast
  have "gate \<Longrightarrow> parse_addr4 (rest2 ! 1) \<noteq> None" and gs0: "gate \<Longrightarrow> sub"
    using c(2) by (simp_all add: validateNetworkGatewayArg_def err_simps)
  from flag_taken [where P = "\<lambda>g. parse_addr4 g \<noteq> None", OF rest3_def [symmetric] this(1) gate_def] obtain gs where
    gs: "opt_flag ''--gateway'' (\<lambda>g. parse_addr4 g \<noteq> None) gs" "rest2 = gs @ rest3" "gs \<noteq> [] \<longleftrightarrow> gate" by blast
  from c(3) obtain rest4 where r4: "consumeNetworkLabelArgs argv rest3 = Inr rest4" "length rest4 = 1"
    "\<exists>x. validateNetworkName (rest4 ! 0) = Inr x"
    by (auto simp: err_simps split: sum.splits)
  then obtain n where n: "rest4 = [n]" "networkNamePattern n" by (auto simp: length_Suc_conv err_simps)
  from r4(1) obtain ls where "owner_labels ls" "rest3 = ls @ [n]" unfolding consume_labels_Inr n(1) by blast
  with docker_grammar.network_create [OF i(1) ss(1) gs(1) _ this(1) n(2)] ss gs gs0 i(2) h
  show ?thesis by auto
qed

lemma network_grammar:
  assumes "validateNetworkArgv argv = None" "argv \<noteq> []" "argv ! 0 = ''network''"
  shows "docker_grammar argv"
proof -
  from assms(1) consider
      (ins) "length argv = 5" "argv ! 1 = ''inspect''" "argv ! 2 = ''--format''"
        "argv ! 3 \<in> {networkInternalFormat, networkSubnetInspectFormat, networkManagedLabelFormat}"
        "networkNamePattern (argv ! 4)"
    | (cre) "length argv \<ge> 3" "argv ! 1 = ''create''" "validateNetworkCreateArgv argv = None"
    | (rm) "length argv = 3" "argv ! 1 = ''rm''" "networkNamePattern (argv ! 2)"
    | (ls) "length argv = 6" "argv ! 1 = ''ls''" "argv ! 2 = ''--filter''" "argv ! 3 = managedNetworkLabelFilter"
        "argv ! 4 = ''--format''" "argv ! 5 = managedNetworkListFormat"
    by (auto simp: validateNetworkArgv_def err_simps split: if_splits)
  then show ?thesis
  proof cases
    case ins
    then obtain a b c d e where a: "argv = [a, b, c, d, e]" by (auto simp: list_of_length)
    with ins assms(3) have "networkNamePattern e"
      "d \<in> {networkInternalFormat, networkSubnetInspectFormat, networkManagedLabelFormat}" by simp_all
    from docker_grammar.network_inspect [OF this] ins assms(3) a show ?thesis by simp
  next
    case cre
    then obtain a b c r where "argv = a # b # c # r" by (auto simp: numeral_eq_Suc Suc_le_length_iff)
    with cre assms(3) network_create_grammar [OF cre(3), of "c # r"] show ?thesis by simp
  next
    case rm
    then show ?thesis using assms(3) docker_grammar.network_rm by (auto simp: list_of_length)
  next
    case ls
    then show ?thesis using assms(3) docker_grammar.network_ls by (auto simp: list_of_length)
  qed
qed

lemma simple_commands_grammar:
  assumes "argv \<noteq> []"
  shows "argv ! 0 = ''version'' \<Longrightarrow> validateDockerVersionArgv argv = None \<Longrightarrow> docker_grammar argv"
    and "argv ! 0 = ''info'' \<Longrightarrow> validateInfoArgv argv = None \<Longrightarrow> docker_grammar argv"
    and "argv ! 0 = ''container'' \<Longrightarrow> validateContainerArgv argv = None \<Longrightarrow> docker_grammar argv"
    and "argv ! 0 = ''image'' \<Longrightarrow> validateImageArgv argv = None \<Longrightarrow> docker_grammar argv"
    and "argv ! 0 = ''volume'' \<Longrightarrow> validateVolumeArgv argv = None \<Longrightarrow> docker_grammar argv"
  using docker_grammar.version docker_grammar.info docker_grammar.container_ls docker_grammar.container_inspect
    docker_grammar.image_inspect docker_grammar.image_pull docker_grammar.volume_ls docker_grammar.volume_rm
  by (auto simp: validateDockerVersionArgv_def validateInfoArgv_def validateContainerArgv_def
      validateImageArgv_def validateVolumeArgv_def label_filter_ok err_simps list_of_length split: if_splits)

lemma run_grammar:
  assumes "argv \<noteq> []" "argv ! 0 = ''run''" "validateRunArgv argv = None"
  shows "docker_grammar argv"
proof -
  from assms(3) have len: "length argv = 15" and m: "validateBindCleanupMountArg (argv ! 6) = None"
    by (auto simp: validateRunArgv_def split: if_splits)
  from m obtain p where p: "cleanup_source p" "argv ! 6 = bindCleanupMountArg p" by (auto simp: cleanup_mount_ok)
  have "[0..<15] = [0, 1, 2, 3, 4, 5, 6, 7, 8, 9, 10, 11, 12, 13, 14 :: nat]"
    by (simp add: upt_rec numeral_eq_Suc)
  then have "argv = map ((!) argv) [0, 1, 2, 3, 4, 5, 6, 7, 8, 9, 10, 11, 12, 13, 14]"
    using map_nth [of argv] len by simp
  also have "\<dots> = [''run'', ''--rm'', ''--pull=never'', ''--network'', ''none'', ''--mount'',
          bindCleanupMountArg p, bindCleanupImage, ''find'', bindCleanupTarget, ''-xdev'', ''-depth'',
          ''-mindepth'', ''1'', ''-delete'']"
    using assms(2,3) p(2) by (auto simp: validateRunArgv_def split: if_splits)
  finally show ?thesis using docker_grammar.run_cleanup [OF p(1)] by simp
qed

lemma validate_split:
  "validateCommandSpec argv = None \<longleftrightarrow> argv \<noteq> [] \<and> (\<forall>t \<in> set argv. trim_space t \<noteq> [])
     \<and> (argv ! 0 = ''version'' \<and> validateDockerVersionArgv argv = None
        \<or> argv ! 0 = ''info'' \<and> validateInfoArgv argv = None
        \<or> argv ! 0 = ''compose'' \<and> validateComposeArgv argv = None
        \<or> argv ! 0 = ''network'' \<and> validateNetworkArgv argv = None
        \<or> argv ! 0 = ''container'' \<and> validateContainerArgv argv = None
        \<or> argv ! 0 = ''image'' \<and> validateImageArgv argv = None
        \<or> argv ! 0 = ''volume'' \<and> validateVolumeArgv argv = None
        \<or> argv ! 0 = ''run'' \<and> validateRunArgv argv = None)"
  unfolding validateCommandSpec_def or_else_None refuse_if_None first_err_None by auto

lemma accept_by_head:
  assumes "argv \<noteq> []" "\<forall>t \<in> set argv. trim_space t \<noteq> []"
  shows "argv ! 0 = ''version'' \<Longrightarrow> validateDockerVersionArgv argv = None \<Longrightarrow> validateCommandSpec argv = None"
    and "argv ! 0 = ''info'' \<Longrightarrow> validateInfoArgv argv = None \<Longrightarrow> validateCommandSpec argv = None"
    and "argv ! 0 = ''compose'' \<Longrightarrow> validateComposeArgv argv = None \<Longrightarrow> validateCommandSpec argv = None"
    and "argv ! 0 = ''network'' \<Longrightarrow> validateNetworkArgv argv = None \<Longrightarrow> validateCommandSpec argv = None"
    and "argv ! 0 = ''container'' \<Longrightarrow> validateContainerArgv argv = None \<Longrightarrow> validateCommandSpec argv = None"
    and "argv ! 0 = ''image'' \<Longrightarrow> validateImageArgv argv = None \<Longrightarrow> validateCommandSpec argv = None"
    and "argv ! 0 = ''volume'' \<Longrightarrow> validateVolumeArgv argv = None \<Longrightarrow> validateCommandSpec argv = None"
    and "argv ! 0 = ''run'' \<Longrightarrow> validateRunArgv argv = None \<Longrightarrow> validateCommandSpec argv = None"
  using assms unfolding validate_split by (simp_all only: simp_thms)

lemma project_ok_hd: "project_ok a \<Longrightarrow> \<exists>r. a = ''compose'' # r"
  by (auto simp: project_ok_def project_argv_def)

lemma grammar_accepted: "docker_grammar argv \<Longrightarrow> validateCommandSpec argv = None"
proof -
  assume g: "docker_grammar argv"
  then have nb: "\<forall>t \<in> set argv. trim_space t \<noteq> []" using grammar_nonblank by blast
  note head = accept_by_head [OF _ nb]
  from g show ?thesis
  proof cases
    case version
    show ?thesis by (rule head(1)) (simp_all add: version validateDockerVersionArgv_def)
  next
    case info
    show ?thesis by (rule head(2)) (simp_all add: info validateInfoArgv_def)
  next
    case compose_version
    show ?thesis
      by (rule head(3)) (simp_all add: compose_version validateComposeArgv_def stripValidatedComposeUserEnv_def
          stripValidatedComposeOverride_def)
  next
    case (compose_config d c es os)
    have "validateComposeArgv argv = None"
      unfolding compose_config(1) by (rule config_accepted [OF compose_config(2-4)])
    then show ?thesis by (intro head(3)) (simp_all add: compose_config(1))
  next
    case (compose_deploy a verb)
    then have "validateComposeArgv argv = None" using project_accepted [of a verb] by (simp add: project_tail_def)
    moreover obtain r where "a = ''compose'' # r" using project_ok_hd [OF compose_deploy(2)] by blast
    ultimately show ?thesis by (intro head(3)) (simp_all add: compose_deploy(1))
  next
    case (compose_logs a ts fs ss)
    then have t: "project_tail ([''logs'', ''--no-color'', ''--timestamps''] @ ts @ fs @ ss)"
      unfolding project_tail_def logs_rest_def by blast
    have "validateComposeArgv argv = None"
      unfolding compose_logs(1) by (rule project_accepted [OF compose_logs(2) t])
    moreover obtain r where "a = ''compose'' # r" using project_ok_hd [OF compose_logs(2)] by blast
    ultimately show ?thesis by (intro head(3)) (simp_all add: compose_logs(1))
  next
    case (network_inspect n f)
    then show ?thesis by (intro head(4)) (auto simp: validateNetworkArgv_def err_simps)
  next
    case (network_create ins ss gs ls n)
    have c: "validateNetworkCreateArgv argv = None"
      unfolding network_create(1) by (rule network_create_accepted [OF network_create(2-7)])
    have a: "argv = ''network'' # ''create'' # ins @ ss @ gs @ ls @ [n]" using network_create(1) by simp
    then have "length argv \<ge> 3" "argv ! 1 = ''create''" by simp_all
    then have "validateNetworkArgv argv = validateNetworkCreateArgv argv" by (simp add: validateNetworkArgv_def)
    with a c show ?thesis by (intro head(4)) simp_all
  next
    case (network_rm n)
    show ?thesis by (rule head(4)) (simp_all add: network_rm validateNetworkArgv_def err_simps)
  next
    case network_ls
    show ?thesis by (rule head(4)) (simp_all add: network_ls validateNetworkArgv_def)
  next
    case (container_ls p)
    then show ?thesis by (intro head(5)) (auto simp: validateContainerArgv_def label_filter_ok)
  next
    case (container_inspect i)
    then show ?thesis by (intro head(5)) (auto simp: validateContainerArgv_def err_simps)
  next
    case (image_inspect r)
    then show ?thesis by (intro head(6)) (auto simp: validateImageArgv_def err_simps)
  next
    case image_pull
    then show ?thesis by (intro head(6)) (auto simp: validateImageArgv_def)
  next
    case (volume_ls p)
    then show ?thesis by (intro head(7)) (auto simp: validateVolumeArgv_def label_filter_ok)
  next
    case (volume_rm v)
    then show ?thesis by (intro head(7)) (auto simp: validateVolumeArgv_def err_simps)
  next
    case (run_cleanup p)
    then have "validateBindCleanupMountArg (bindCleanupMountArg p) = None" using cleanup_mount_ok by blast
    then show ?thesis by (intro head(8)) (simp_all add: run_cleanup(1) validateRunArgv_def)
  qed
qed

lemma accepted_grammar:
  assumes "validateCommandSpec argv = None"
  shows "docker_grammar argv"
proof -
  have ne: "argv \<noteq> []" using assms unfolding validate_split by (elim conjE)
  note simple = simple_commands_grammar [OF ne]
  from assms show ?thesis
    unfolding validate_split
  proof (elim conjE disjE)
  qed (use simple compose_accepts [OF _ ne] network_grammar [OF _ ne] run_grammar [OF ne] in \<open>simp_all only:\<close>)
qed

text \<open>
  C22: the allow-list accepts exactly the grammar above: which verbs, which flags, where a value may
  stand and what it may look like. In particular \<open>compose down\<close> has no \<open>-v\<close>, \<open>network ls\<close> one form,
  \<open>image pull\<close> one image and \<open>run\<close> one shape.
\<close>

theorem allow_list_exact: "validateCommandSpec argv = None \<longleftrightarrow> docker_grammar argv"
  using grammar_accepted accepted_grammar by blast

subsection \<open>No value is read as an option\<close>

definition docker_flags :: "string list" where
  "docker_flags = [''-f'', ''--env-file'', ''--project-name'', ''--project-directory'', ''--quiet'', ''-d'',
     ''--force-recreate'', ''--rmi'', ''--no-color'', ''--timestamps'', ''--tail'', ''--follow'', ''--format'',
     ''--filter'', ''--all'', ''--internal'', ''--subnet'', ''--gateway'', ''--label'', ''--rm'', ''--pull=never'',
     ''--network'', ''--mount'', ''-xdev'', ''-depth'', ''-mindepth'', ''-delete'']"

definition plain_token :: "string \<Rightarrow> bool" where
  "plain_token t \<longleftrightarrow> has_prefix t ''-'' \<longrightarrow> t \<in> set docker_flags"

lemma no_dash [simp]: "has_prefix (c # r) ''-'' \<longleftrightarrow> c = CHR ''-''"
  by (cases r) auto

lemma names_plain:
  "composeProjectNamePattern s \<Longrightarrow> \<not> has_prefix s ''-''" "composeServiceNamePattern s \<Longrightarrow> \<not> has_prefix s ''-''"
  "networkNamePattern s \<Longrightarrow> \<not> has_prefix s ''-''" "imageRefPattern s \<Longrightarrow> \<not> has_prefix s ''-''"
  "volumeNamePattern s \<Longrightarrow> \<not> has_prefix s ''-''"
  by (auto simp: composeProjectNamePattern_def composeServiceNamePattern_def networkNamePattern_def
      imageRefPattern_def volumeNamePattern_def short_name_shape_def name_shape_Cons lower_or_digit_def
      letter_or_digit_def is_lower_def is_upper_def is_digit_def byte_def)

lemma container_plain: "containerIDPattern s \<Longrightarrow> \<not> has_prefix s ''-''"
  by (cases s) (auto simp: containerIDPattern_def is_digit_def byte_def)

lemma abs_path_plain: "abs_path_token s \<Longrightarrow> \<not> has_prefix s ''-''"
proof
  assume a: "abs_path_token s" and "has_prefix s ''-''"
  then obtain r where s: "s = CHR ''-'' # r" by (auto simp: has_prefix_iff)
  have "strip_any space_codes s = None"
    using visible_no_space [of "CHR ''-''"] s by (auto simp: strip_any_None has_prefix_iff Cons_eq_append_conv)
  then have "trim_start space_codes s = s" by (rule trim_start_id)
  moreover obtain q where "rev s = q @ trim_start (map rev space_codes) (rev s)" using trim_start_suffix by blast
  then have "s = rev (trim_start (map rev space_codes) (rev s)) @ rev q" by (metis rev_append rev_rev_ident)
  ultimately have "s = trim_space s @ rev q" by (simp add: trim_space_def)
  with a s show False by (auto simp: abs_path_token_def is_abs_iff)
qed

lemma octet_plain: "octet w \<noteq> None \<Longrightarrow> w \<noteq> [] \<and> (\<forall>c \<in> set w. is_digit c)"
  using parse_dec_digits_only by (auto simp: octet_def split: option.splits)

lemma addr_plain: "parse_addr4 s \<noteq> None \<Longrightarrow> \<not> has_prefix s ''-''"
proof
  assume p: "parse_addr4 s \<noteq> None" and "has_prefix s ''-''"
  then obtain r where s: "s = CHR ''-'' # r" by (auto simp: has_prefix_iff)
  obtain w ws where w: "split_on (CHR ''.'') s = (CHR ''-'' # w) # ws"
    using s by (cases "split_on (CHR ''.'') r") auto
  with p have "octet (CHR ''-'' # w) \<noteq> None"
    by (auto simp: parse_addr4_def parse_octets_def split: option.splits list.splits)
  then show False using octet_plain by (fastforce simp: is_digit_def byte_def)
qed

lemma prefix_plain: "parse_prefix4 s \<noteq> None \<Longrightarrow> \<not> has_prefix s ''-''"
proof -
  assume "parse_prefix4 s \<noteq> None"
  then obtain a b where ab: "rcut (CHR ''/'') s = Some (a, b)" "parse_addr4 a \<noteq> None"
    by (auto simp: parse_prefix4_def split: option.splits)
  then obtain p q where "cut (CHR ''/'') (rev s) = (p, q, True)" "a = rev q"
    by (auto simp: rcut_def split: prod.splits if_splits)
  then have "rev s = p @ CHR ''/'' # q" using cut_Some by blast
  then have "s = a @ CHR ''/'' # rev p" using \<open>a = rev q\<close> by (metis append.assoc append_Cons append_Nil rev.simps(2) rev_append rev_rev_ident)
  moreover have "a \<noteq> []"
    using ab(2) by (auto simp: parse_addr4_def parse_octets_def split: option.splits)
  ultimately show ?thesis using addr_plain [OF ab(2)] by (cases a) auto
qed

lemma tail_plain: "tail_count s \<Longrightarrow> \<not> has_prefix s ''-''"
proof -
  assume "tail_count s"
  then obtain n where "0 \<le> n" "s = itoa n" by (auto simp: tail_count_def)
  with itoa_first [of n] show ?thesis by (auto simp: is_digit_def byte_def)
qed

lemma fixed_plain:
  "\<not> has_prefix dockerInfoSecurityOptionsFormat ''-''" "\<not> has_prefix (composeProjectLabelFilterPrefix @ p) ''-''"
  "\<not> has_prefix containerListFormat ''-''" "\<not> has_prefix containerInspectFormat ''-''"
  "\<not> has_prefix imageDigestInspectFormat ''-''" "\<not> has_prefix volumeListFormat ''-''"
  "\<not> has_prefix networkInternalFormat ''-''" "\<not> has_prefix networkManagedLabelFormat ''-''"
  "\<not> has_prefix networkSubnetInspectFormat ''-''" "\<not> has_prefix managedNetworkLabel ''-''"
  "\<not> has_prefix (appNetworkLabelPrefix @ a) ''-''" "\<not> has_prefix managedNetworkLabelFilter ''-''"
  "\<not> has_prefix managedNetworkListFormat ''-''" "\<not> has_prefix bindCleanupImage ''-''"
  "\<not> has_prefix bindCleanupTarget ''-''" "\<not> has_prefix (bindCleanupMountArg p) ''-''"
  by (simp_all add: fixed_words bindCleanupMountArg_def)

lemmas tokens_plain = names_plain container_plain abs_path_plain addr_plain prefix_plain tail_plain fixed_plain

lemma flags_plain [simp]: "list_all plain_token docker_flags"
  by (simp add: list_all_iff plain_token_def)

lemmas each_flag_plain = flags_plain [unfolded docker_flags_def list.pred_inject(2)]

lemma value_plain: "\<not> has_prefix t ''-'' \<Longrightarrow> plain_token t"
  by (simp add: plain_token_def)

lemma literal_plain: "c \<noteq> CHR ''-'' \<Longrightarrow> plain_token (c # r)"
  by (simp add: plain_token_def)

lemmas all_plain = tokens_plain value_plain literal_plain each_flag_plain

lemma project_ok_plain: "project_ok a \<Longrightarrow> t \<in> set a \<Longrightarrow> plain_token t"
  by (auto simp: project_ok_def project_argv_def project_files_def opt_flag_def all_plain)

lemma grammar_plain: "docker_grammar argv \<Longrightarrow> t \<in> set argv \<Longrightarrow> plain_token t"
proof (induction rule: docker_grammar.induct)
  case (compose_config d c es os)
  then show ?case by (auto simp: env_pair_def opt_flag_def config_paths_def all_plain)
next
  case (compose_deploy a verb)
  then show ?case using project_ok_plain by (auto simp: deploy_verbs_def all_plain)
next
  case (compose_logs a ts fs ss)
  then show ?case using project_ok_plain by (auto simp: opt_flag_def opt_word_def list_all_iff all_plain)
next
  case (network_create ins ss gs ls n)
  then show ?case by (auto simp: opt_flag_def opt_word_def owner_labels_def all_plain)
qed (auto simp: all_plain)

text \<open>
  In a command the allow-list lets through, a token that starts with a dash is one of the fixed
  flags. No path, name, label, address or digest of a catalog or of a stack can be read as an option, and
  no accepted command removes volumes (\<open>-v\<close>), runs privileged or prunes.
\<close>

lemma no_option_injection:
  assumes "validateCommandSpec argv = None" "t \<in> set argv" "has_prefix t ''-''"
  shows "t \<in> set docker_flags"
  using grammar_plain [OF accepted_grammar [OF assms(1)] assms(2)] assms(3) by (simp add: plain_token_def)

lemma demo_create: "validateCommandSpec [''network'', ''create'', ''--internal'', ''web''] = None"
proof (rule grammar_accepted)
  have "networkNamePattern ''web''"
    by (simp add: networkNamePattern_def short_name_shape_def name_shape_def lower_or_digit_def is_lower_def byte_def)
  from docker_grammar.network_create [of "[''--internal'']" "[]" "[]" "[]", OF _ _ _ _ _ this]
  show "docker_grammar [''network'', ''create'', ''--internal'', ''web'']"
    by (simp add: opt_word_def opt_flag_def owner_labels_def)
qed

lemma no_option_injection_witness:
  "''--internal'' \<in> set docker_flags"
  by (rule no_option_injection [of "[''network'', ''create'', ''--internal'', ''web'']"])
    (simp_all add: demo_create)

end
