(* ===== verification/Docker_Client.thy ===== *)
theory Docker_Client
  imports Docker_Grammar Redactor
begin

text \<open>
  \<open>Run\<close> of \<open>internal/docker/client.go\<close>, the only way to the process: the command is built, checked
  against the allow-list, executed, and what comes back is redacted and its error given a code.
\<close>

subsection \<open>Running a command\<close>

record command_result =
  Stdout :: string
  Stderr :: string
  ExitCode :: int

definition no_result :: command_result where
  "no_result = \<lparr>Stdout = [], Stderr = [], ExitCode = 0\<rparr>"

text \<open>
  The error a process ends with, as far as \<open>errors.As\<close> and \<open>errors.Is\<close> ask: it already has a code, the
  context ended, the binary is not there or could not be started, or the process failed.
\<close>

datatype exec_error =
    TypedExecError error_code
  | ContextEnded
  | BinaryNotFound
  | ExecStartError
  | ProcessFailed string

datatype run_error =
    Refused docker_error
  | Propagated exec_error
  | Failed error_code exec_error string

fun run_code :: "run_error \<Rightarrow> error_code option" where
  "run_code (Refused e) = code_of e"
| "run_code (Propagated e) = (case e of TypedExecError c \<Rightarrow> Some c | _ \<Rightarrow> None)"
| "run_code (Failed c e stderr) = Some c"

definition isDockerUnavailable :: "exec_error \<Rightarrow> string \<Rightarrow> bool" where
  "isDockerUnavailable cause lowerStderr =
     (if cause = BinaryNotFound then True
      else if cause = ExecStartError then True
      else list_ex (contains lowerStderr)
        [''cannot connect to the docker daemon'', ''is the docker daemon running'', ''error during connect'',
         ''permission denied while trying to connect to the docker daemon socket''])"

definition isNetworkFailure :: "string \<Rightarrow> bool" where
  "isNetworkFailure lowerStderr = list_ex (contains lowerStderr)
     [''no such host'', ''temporary failure in name resolution'', ''network is unreachable'',
      ''tls handshake timeout'', ''i/o timeout'', ''connection reset by peer'', ''dial tcp'']"

definition isRuntimeLockHeld :: "string \<Rightarrow> bool" where
  "isRuntimeLockHeld lowerStderr = list_ex (contains lowerStderr)
     [''another operation is already in progress'', ''resource busy'']"

definition mapCommandError :: "exec_error \<Rightarrow> string \<Rightarrow> run_error" where
  "mapCommandError cause redactedStderr =
     (case cause of
        TypedExecError c \<Rightarrow> Propagated cause
      | ContextEnded \<Rightarrow> Failed ErrCodeUserCanceled cause redactedStderr
      | _ \<Rightarrow>
         (let lowerStderr = to_lower redactedStderr
          in if isDockerUnavailable cause lowerStderr then Failed ErrCodeDockerUnavailable cause redactedStderr
             else if isRuntimeLockHeld lowerStderr then Failed ErrCodeRuntimeLockHeld cause redactedStderr
             else if isNetworkFailure lowerStderr then Failed ErrCodeNetworkFailure cause redactedStderr
             else Failed ErrCodeGeneric cause redactedStderr))"

type_synonym executor = "string list \<Rightarrow> command_result \<times> exec_error option"

definition is_logs :: "invocation \<Rightarrow> bool" where
  "is_logs i = (case i of ComposeLogsInvocation t follow tail services \<Rightarrow> True | _ \<Rightarrow> False)"

definition redact_result :: "string list \<Rightarrow> command_result \<Rightarrow> command_result" where
  "redact_result secrets res =
     \<lparr>Stdout = Redact secrets (Stdout res), Stderr = Redact secrets (Stderr res), ExitCode = ExitCode res\<rparr>"

definition finish :: "string list \<Rightarrow> command_result \<times> exec_error option \<Rightarrow> command_result \<times> run_error option" where
  "finish secrets out =
     (case out of (res, err) \<Rightarrow>
       (let redacted = redact_result secrets res
        in case err of
             Some cause \<Rightarrow> (redacted, Some (mapCommandError cause (Stderr redacted)))
           | None \<Rightarrow> (redacted, None)))"

definition Run ::
  "stack_files \<Rightarrow> string list \<Rightarrow> executor \<Rightarrow> invocation \<Rightarrow> command_result \<times> run_error option" where
  "Run files secrets execFn i =
     (if is_logs i then (no_result, Some (Refused (UsageValidation StreamingOnly)))
      else (case buildCommand files i of
        Inl err \<Rightarrow> (no_result, Some (Refused err))
      | Inr cmd \<Rightarrow>
          (case validateCommandSpec cmd of
             Some err \<Rightarrow> (no_result, Some (Refused err))
           | None \<Rightarrow> finish secrets (execFn cmd))))"

text \<open>The production executor checks the vector again in front of the process.\<close>

definition runCommandExecutor :: "executor \<Rightarrow> executor" where
  "runCommandExecutor process argv =
     (case validateCommandSpec argv of
        Some err \<Rightarrow> (no_result, Some (TypedExecError ErrCodeUsageValidation))
      | None \<Rightarrow> process argv)"

lemma executor_guard_idle: "Run files secrets (runCommandExecutor process) i = Run files secrets process i"
  by (simp add: Run_def runCommandExecutor_def split: sum.splits option.splits)

lemma Run_cases:
  "(\<exists>e. \<forall>execFn. Run files secrets execFn i = (no_result, Some (Refused e)))
   \<or> (\<exists>argv. docker_grammar argv \<and> (\<forall>execFn. Run files secrets execFn i = finish secrets (execFn argv)))"
proof (cases "is_logs i")
  case False
  show ?thesis
  proof (cases "buildCommand files i")
    case (Inr cmd)
    show ?thesis
    proof (cases "validateCommandSpec cmd")
      case None
      with False Inr have "\<forall>execFn. Run files secrets execFn i = finish secrets (execFn cmd)" by (simp add: Run_def)
      with accepted_grammar [OF None] show ?thesis by blast
    qed (use False Inr in \<open>simp add: Run_def\<close>)
  qed (use False in \<open>simp add: Run_def\<close>)
qed (simp add: Run_def)

text \<open>
  C23: \<open>Run\<close> consults the process only with argument vectors of the grammar: two processes that agree on
  the grammar cannot be told apart. Whatever a process prints, no registered secret (one that is not
  empty, has no bracket and is not a part of the word REDACTED) is in the output that is returned or in the
  stderr the error carries. The rest of an error is accounted for: a refusal is decided before any
  process runs, so it repeats nothing a process said; an error that keeps its own code carries only that code;
  and the cause of a failure is the error the process ended with (its exit status), handed on as it is.
\<close>

theorem run_confined:
  assumes "\<And>argv. docker_grammar argv \<Longrightarrow> exec1 argv = exec2 argv"
    and "w \<in> set secrets" "w \<noteq> []" "CHR ''['' \<notin> set w" "CHR '']'' \<notin> set w" "\<not> contains ''REDACTED'' w"
  shows "Run files secrets exec1 i = Run files secrets exec2 i
    \<and> \<not> contains (Stdout (fst (Run files secrets exec1 i))) w
    \<and> \<not> contains (Stderr (fst (Run files secrets exec1 i))) w
    \<and> (case snd (Run files secrets exec1 i) of
         None \<Rightarrow> True
       | Some (Refused e) \<Rightarrow> (\<forall>execFn. Run files secrets execFn i = (no_result, Some (Refused e)))
       | Some (Propagated cause) \<Rightarrow> (\<exists>c. cause = TypedExecError c)
       | Some (Failed c cause stderr) \<Rightarrow> \<not> contains stderr w
           \<and> (\<exists>argv. docker_grammar argv \<and> snd (exec1 argv) = Some cause))"
proof -
  have hide: "\<not> contains (Redact secrets s) w" for s
    using assms(2-) redact_hides_secret by (simp add: hidden_secret_def)
  from Run_cases [of files secrets i] consider
    e where "\<forall>execFn. Run files secrets execFn i = (no_result, Some (Refused e))"
    | argv where "docker_grammar argv" "\<forall>execFn. Run files secrets execFn i = finish secrets (execFn argv)" by blast
  then show ?thesis
  proof cases
    case (1 e)
    then have run: "Run files secrets exec1 i = (no_result, Some (Refused e))"
      "Run files secrets exec2 i = (no_result, Some (Refused e))" by blast+
    show ?thesis unfolding run using 1 assms(3) by (simp add: no_result_def)
  next
    case (2 argv)
    obtain res err where out: "exec1 argv = (res, err)" by (cases "exec1 argv")
    have run: "Run files secrets exec1 i = finish secrets (res, err)"
      "Run files secrets exec2 i = finish secrets (res, err)" using 2 assms(1) out by metis+
    have cause: "docker_grammar argv \<and> snd (exec1 argv) = err" using 2 out by simp
    show ?thesis unfolding run using hide cause
      by (auto simp: finish_def mapCommandError_def redact_result_def Let_def split: option.splits exec_error.splits)
  qed
qed

subsection \<open>Deployments reach the daemon\<close>

lemma trim_visible_ends:
  assumes "s = c # r" "visible c" "visible (last s)"
  shows "trim_space s = s"
proof (rule trim_space_id)
  show "strip_any space_codes s = None"
    using visible_no_space [OF assms(2)] assms(1) by (auto simp: strip_any_None has_prefix_iff Cons_eq_append_conv)
  have r: "rev s = last s # rev (butlast s)"
    using assms(1) by (metis append_butlast_last_id list.distinct(1) rev.simps(2) rev_append rev_singleton_conv append_Cons append_Nil)
  show "strip_any (map rev space_codes) (rev s) = None"
    unfolding strip_any_None
  proof (intro ballI impI notI)
    fix p
    assume p: "p \<in> set (map rev space_codes)" "p \<noteq> []" "has_prefix (rev s) p"
    from p(2) obtain x xs where x: "p = x # xs" by (cases p) auto
    with p(3) have "last s \<in> set p" unfolding r by (simp only: x has_prefix.simps) simp
    moreover from p(1) obtain q where "q \<in> set space_codes" "p = rev q" by auto
    ultimately show False using visible_no_space [OF assms(3)] by simp
  qed
qed

lemma join_name:
  assumes "is_abs d" "plain_comp n"
  shows "path_join d n = CHR ''/'' # join_with ''/'' (clean_abs d @ [n])"
proof -
  have abs: "is_abs (d @ ''/'' @ n)" "d \<noteq> []" using assms(1) by (auto simp: is_abs_iff)
  have "split_on (CHR ''/'') n = [n]" using assms(2) by (simp add: plain_comp_def split_on_free)
  then have "clean_abs (d @ ''/'' @ n) = clean_abs d @ [n]"
    using split_on_append_sep [of "CHR ''/''" d n] clean_comps_append_plain [of "[n]"] assms(2)
    by (simp add: clean_abs_def)
  with abs show ?thesis by (simp add: path_join_def path_clean_abs)
qed

lemma join_last: "join_with sep (ws @ [n]) = (if ws = [] then n else join_with sep ws @ sep @ n)"
  by (induction ws rule: induct_list012) auto

lemma clean_abs_slash: "clean_abs (x @ ''/'') = clean_abs x"
proof -
  have "clean_comps r out (vs @ [[]]) = clean_comps r out vs" for r out vs
    by (induction vs arbitrary: out) (auto split: list.splits)
  then show ?thesis using split_on_append_sep [of "CHR ''/''" x "[]"] by (simp add: clean_abs_def)
qed

lemma dir_of_join:
  assumes "is_abs d" "plain_comp n"
  shows "path_dir (path_join d n) = path_clean d"
proof -
  have n: "CHR ''/'' \<notin> set n" using assms(2) by (simp add: plain_comp_def)
  let ?p = "if clean_abs d = [] then ''/'' else CHR ''/'' # join_with ''/'' (clean_abs d) @ ''/''"
  have j: "path_join d n = ?p @ n" unfolding join_name [OF assms] join_last by simp
  have "rev (path_join d n) = rev n @ CHR ''/'' # tl (rev ?p)" unfolding j by simp
  then have "dropWhile (\<lambda>c. c \<noteq> CHR ''/'') (rev (path_join d n)) = rev ?p"
    using scan_to(1) [of "CHR ''/''" "rev n"] n by simp
  then have dir: "path_dir (path_join d n) = path_clean ?p" by (simp only: path_dir_def rev_rev_ident)
  have "clean_abs ?p = clean_abs d"
  proof (cases "clean_abs d = []")
    case False
    have "?p = (CHR ''/'' # join_with ''/'' (clean_abs d)) @ ''/''" using False by simp
    then show ?thesis by (simp only: clean_abs_slash clean_abs_join [OF clean_abs_plain])
  qed (simp add: clean_abs_def)
  moreover have "is_abs ?p" by (simp add: is_abs_iff)
  ultimately show ?thesis unfolding dir using assms(1) by (simp add: path_clean_abs)
qed

lemma join_name_trim:
  assumes "is_abs d" "plain_comp n" "visible (last n)"
  shows "trim_space (path_join d n) = path_join d n" "is_abs (path_join d n)"
    "path_clean (path_join d n) = path_join d n"
proof -
  note j = join_name [OF assms(1,2)]
  have "n \<noteq> []" using assms(2) by (simp add: plain_comp_def)
  then have "last (path_join d n) = last n" unfolding j join_last by auto
  with trim_visible_ends [OF j] assms(3) show "trim_space (path_join d n) = path_join d n" by simp
  show a: "is_abs (path_join d n)" unfolding j by (simp add: is_abs_iff)
  have "list_all plain_comp (clean_abs d @ [n])" using clean_abs_plain assms(2) by simp
  then show "path_clean (path_join d n) = path_join d n"
    unfolding path_clean_abs [OF a] using clean_abs_join j by metis
qed

text \<open>The names of the files of a stack.\<close>

definition installComposeFilename :: string where
  "installComposeFilename = ''docker-compose.yml''"

definition installEnvFilename :: string where
  "installEnvFilename = ''.env''"

lemma stack_file_names:
  "plain_comp installComposeFilename" "visible (last installComposeFilename)"
  "plain_comp installEnvFilename" "visible (last installEnvFilename)"
  "plain_comp composeOverrideFilename" "visible (last composeOverrideFilename)"
  "plain_comp composeUserEnvFilename" "visible (last composeUserEnvFilename)"
  by (simp_all add: installComposeFilename_def installEnvFilename_def composeOverrideFilename_def
      composeUserEnvFilename_def plain_comp_def visible_def byte_def)

definition stack_project :: "string \<Rightarrow> string \<Rightarrow> compose_project" where
  "stack_project d p =
     \<lparr>ComposeFile = path_join d installComposeFilename, EnvFile = path_join d installEnvFilename, ProjectName = p\<rparr>"

lemma stack_project_valid:
  assumes "is_abs d" "composeProjectNamePattern p"
  shows "validateComposeProject (stack_project d p) = Inr (stack_project d p)"
proof -
  note t = join_name_trim [OF assms(1) stack_file_names(1,2)] join_name_trim [OF assms(1) stack_file_names(3,4)]
  have d: "path_dir (path_join d installComposeFilename) = path_dir (path_join d installEnvFilename)"
    using dir_of_join [OF assms(1)] stack_file_names by simp
  have a: "validateAbsolutePath (path_join d installComposeFilename) l = Inr (path_join d installComposeFilename)"
    "validateAbsolutePath (path_join d installEnvFilename) l = Inr (path_join d installEnvFilename)" for l
    using t by (simp_all add: err_simps abs_path_token_def)
  have "validateComposeProjectName p = Inr p" using assms(2) by (simp add: err_simps)
  with a d show ?thesis by (simp add: validateComposeProject_def stack_project_def refuse_if_def)
qed

text \<open>The verbs the engine deploys with, and the words they add to the project's arguments.\<close>

definition deploy_ops :: "bool \<Rightarrow> ((compose_target \<Rightarrow> invocation) \<times> string list) list" where
  "deploy_ops force =
     [(ComposePullInvocation, [''pull'']), (ComposeRestartInvocation, [''restart'']),
      (ComposeStopInvocation, [''stop'']), (ComposeDownInvocation, [''down'']),
      (ComposeDownRemoveImagesInvocation, [''down'', ''--rmi'', ''all'']),
      (\<lambda>t. ComposeUpInvocation t force, [''up'', ''-d''] @ (if force then [''--force-recreate''] else []))]"

definition overlay_args :: "stack_files \<Rightarrow> string \<Rightarrow> string list" where
  "overlay_args files d =
     (case stat_dir files (path_join d composeUserEnvFilename) of
        Inr False \<Rightarrow> [''--env-file'', path_join d composeUserEnvFilename] | _ \<Rightarrow> [])"

text \<open>The stack's optional files are absent or can be read.\<close>

definition overlays_readable :: "stack_files \<Rightarrow> string \<Rightarrow> bool" where
  "overlays_readable files d \<longleftrightarrow>
     (case file_text files (path_join d composeOverrideFilename) of Inl e \<Rightarrow> e = NotExist | Inr _ \<Rightarrow> True)
     \<and> (case stat_dir files (path_join d composeUserEnvFilename) of Inl e \<Rightarrow> e = NotExist | Inr _ \<Rightarrow> True)"

lemma override_resolved:
  assumes "overlays_readable files d"
  shows "\<exists>ov. resolveOverridePath files d = Inr ov \<and> (ov = [] \<or> ov = path_join d composeOverrideFilename)"
  using assms by (auto simp: overlays_readable_def resolveOverridePath_def Let_def split: sum.splits)

lemma deploy_built:
  assumes b: "\<And>w. buildComposeProjectCommand files t w = Inr (a @ [w])" and v: "(op, verb) \<in> set (deploy_ops force)"
  shows "buildCommand files (op t) = Inr (a @ verb) \<and> \<not> is_logs (op t) \<and> verb \<in> set deploy_verbs"
proof -
  from v have "op = ComposePullInvocation \<and> verb = [''pull''] \<or> op = ComposeRestartInvocation \<and> verb = [''restart'']
    \<or> op = ComposeStopInvocation \<and> verb = [''stop''] \<or> op = ComposeDownInvocation \<and> verb = [''down'']
    \<or> op = ComposeDownRemoveImagesInvocation \<and> verb = [''down'', ''--rmi'', ''all'']
    \<or> op = (\<lambda>t. ComposeUpInvocation t force) \<and> verb = [''up'', ''-d''] @ (if force then [''--force-recreate''] else [])"
    by (simp add: deploy_ops_def)
  then show ?thesis
    by (elim disjE conjE) (simp_all add: b buildComposeUpCommand_def buildComposeDownRemoveImagesCommand_def
        is_logs_def deploy_verbs_def)
qed

lemma run_deploy:
  assumes d: "is_abs d" "path_clean d = d" and p: "composeProjectNamePattern p"
    and r: "overlays_readable files d" and t: "new_compose_target files (stack_project d p) = Inr t"
    and opv: "(op, verb) \<in> set (deploy_ops force)"
  shows "Run files secrets exec (op t) =
    finish secrets (exec (project_argv (path_join d installComposeFilename) (path_join d installEnvFilename)
      (overlay_args files d) p (overrideFileArgs (ct_overridePath t)) @ verb))"
proof -
  let ?c = "path_join d installComposeFilename" and ?e = "path_join d installEnvFilename"
  let ?u = "overlay_args files d" and ?o = "overrideFileArgs (ct_overridePath t)"
  note valid = stack_project_valid [OF d(1) p]
  have dirs: "path_dir ?c = d" "path_dir ?e = d" using dir_of_join [OF d(1)] stack_file_names d(2) by simp_all
  obtain ov where ov: "resolveOverridePath files d = Inr ov" "ov = [] \<or> ov = path_join d composeOverrideFilename"
    using override_resolved [OF r] by blast
  have tt: "t = \<lparr>ct_composeFile = ?c, ct_envFile = ?e, ct_projectName = p, ct_overridePath = ov\<rparr>"
    using t valid ov dirs by (simp add: new_compose_target_def stack_project_def)
  have abs: "abs_path_token (path_join d n)" if "plain_comp n" "visible (last n)" for n
    using join_name_trim [OF d(1) that] by (simp add: abs_path_token_def)
  have ua: "userEnvFileArgs files ?e = Inr ?u"
    using r dirs by (auto simp: userEnvFileArgs_def overlay_args_def overlays_readable_def Let_def split: sum.splits bool.splits)
  have b: "buildComposeProjectCommand files t w = Inr (project_argv ?c ?e ?u p ?o @ [w])" for w
    using valid ua by (simp add: buildComposeProjectCommand_def tt stack_project_def project_argv_def)
  have build: "buildCommand files (op t) = Inr (project_argv ?c ?e ?u p ?o @ verb)" "\<not> is_logs (op t)"
    "verb \<in> set deploy_verbs"
    using deploy_built [OF b opv] by blast+
  have "project_files ?c ?e"
    using validateComposeProject_ok [of ?c ?e p] valid by (auto simp: stack_project_def)
  moreover have "opt_flag ''--env-file'' abs_path_token ?u"
    using abs stack_file_names by (auto simp: opt_flag_def overlay_args_def split: sum.splits bool.splits)
  moreover have "opt_flag ''-f'' abs_path_token ?o"
    using abs stack_file_names ov(2) by (auto simp: opt_flag_def overrideFileArgs_def tt)
  ultimately have "project_ok (project_argv ?c ?e ?u p ?o)" using p unfolding project_ok_def by blast
  from grammar_accepted [OF docker_grammar.compose_deploy [OF this build(3)]] build(1,2)
  show ?thesis by (simp add: Run_def)
qed

text \<open>
  C24: for a stack in a clean absolute directory, with a valid project name and readable overlay files,
  every deployment verb gets through its constructor, the builder and the allow-list, and the process is
  called with the stack's two files, the user's overlays behind them, the project name and the verb.
\<close>

theorem deployment_reaches_docker:
  assumes "is_abs d" "path_clean d = d" "composeProjectNamePattern p" "overlays_readable files d"
    "(op, verb) \<in> set (deploy_ops force)"
  shows "\<exists>t. new_compose_target files (stack_project d p) = Inr t
    \<and> ct_overridePath t \<in> {[], path_join d composeOverrideFilename}
    \<and> Run files secrets exec (op t) =
        finish secrets (exec (project_argv (path_join d installComposeFilename) (path_join d installEnvFilename)
          (overlay_args files d) p (overrideFileArgs (ct_overridePath t)) @ verb))"
proof -
  have dirs: "path_dir (path_join d installComposeFilename) = d"
    using dir_of_join [OF assms(1)] stack_file_names assms(2) by simp
  obtain ov where ov: "resolveOverridePath files d = Inr ov" "ov = [] \<or> ov = path_join d composeOverrideFilename"
    using override_resolved [OF assms(4)] by blast
  then obtain t where "new_compose_target files (stack_project d p) = Inr t" "ct_overridePath t = ov"
    using stack_project_valid [OF assms(1,3)] dirs by (simp add: new_compose_target_def stack_project_def)
  with ov(2) run_deploy [OF assms(1-4) _ assms(5)] show ?thesis by auto
qed

text \<open>A stack with both overlays.\<close>

definition demo_files :: stack_files where
  "demo_files = \<lparr>stat_dir = (\<lambda>p. Inr False), file_text = (\<lambda>p. Inr ''services: {}'')\<rparr>"

lemma demo_project: "composeProjectNamePattern ''wdm-demo''"
  by (simp add: composeProjectNamePattern_def name_shape_def lower_or_digit_def is_lower_def is_digit_def byte_def)

theorem deployment_reaches_docker_witness:
  "\<exists>t. new_compose_target demo_files (stack_project ''/srv/demo'' ''wdm-demo'') = Inr t
    \<and> ct_overridePath t \<in> {[], path_join ''/srv/demo'' composeOverrideFilename}
    \<and> Run demo_files [''s3cret''] (\<lambda>argv. (no_result, None)) (ComposeUpInvocation t True) =
        finish [''s3cret''] (no_result, None)"
  using deployment_reaches_docker [of "''/srv/demo''" "''wdm-demo''" demo_files
      "\<lambda>t. ComposeUpInvocation t True" "[''up'', ''-d'', ''--force-recreate'']" True "[''s3cret'']"
      "\<lambda>argv. (no_result, None)"] demo_project
  by (simp add: is_abs_def path_clean_def overlays_readable_def demo_files_def deploy_ops_def)

definition failing_process :: executor where
  "failing_process argv = (\<lparr>Stdout = ''PW=s3cret'', Stderr = ''s3cret'', ExitCode = 1\<rparr>,
     Some (ProcessFailed ''exit status 1''))"

theorem run_confined_witness:
  "Run demo_files [''s3cret''] failing_process VersionInvocation
     = Run demo_files [''s3cret''] (\<lambda>argv. if docker_grammar argv then failing_process argv else (no_result, None))
         VersionInvocation
   \<and> \<not> contains (Stdout (fst (Run demo_files [''s3cret''] failing_process VersionInvocation))) ''s3cret''
   \<and> \<not> contains (Stderr (fst (Run demo_files [''s3cret''] failing_process VersionInvocation))) ''s3cret''"
  using run_confined [of failing_process
      "\<lambda>argv. if docker_grammar argv then failing_process argv else (no_result, None)" "''s3cret''" "[''s3cret'']"
      demo_files VersionInvocation] by auto

end
