(* ===== verification/Docker_Network.thy ===== *)
theory Docker_Network
  imports Docker_Client Go_Net
begin

text \<open>
  The networks of a stack, \<open>internal/docker/network.go\<close>: ensure before a deployment, removal after a
  teardown. The functions take the \<open>docker.Client\<close> interface, here its \<open>Run\<close> over an explicit state of
  the daemon; \<open>exec_client\<close> is the client of \<open>client.go\<close> over a process.
\<close>

subsection \<open>The client interface\<close>

type_synonym 'w client = "invocation \<Rightarrow> 'w \<Rightarrow> (command_result \<times> run_error option) \<times> 'w"

definition exec_client ::
  "stack_files \<Rightarrow> string list \<Rightarrow> ('w \<Rightarrow> string list \<Rightarrow> (command_result \<times> exec_error option) \<times> 'w) \<Rightarrow> 'w client" where
  "exec_client files secrets process i w =
     (Run files secrets (\<lambda>argv. fst (process w argv)) i,
      if is_logs i then w
      else (case buildCommand files i of
              Inl err \<Rightarrow> w
            | Inr cmd \<Rightarrow> if validateCommandSpec cmd = None then snd (process w cmd) else w))"

subsection \<open>Specification and validation\<close>

record network_spec =
  ns_name :: string
  ns_internal :: bool
  ns_subnet :: string
  ns_gateway :: string
  ns_app_id :: string

datatype network_reason =
    NetworkRefused docker_error
  | GatewayWithoutSubnet string
  | SpecSubnetInvalid string
  | SpecGatewayInvalid string
  | SpecAppIdInvalid string
  | InternalFlagOutput string
  | InternalMismatch string
  | SubnetMismatch string
  | ClientError run_error

type_synonym network_error = "network_reason wdm_error"

definition refused_name :: "string \<Rightarrow> network_error + string" where
  "refused_name rawName =
     (case validateNetworkName rawName of
        Inl e \<Rightarrow> Inl (map_wdm_error (\<lambda>r. NetworkRefused e) e)
      | Inr name \<Rightarrow> Inr name)"

definition prefix_text :: "addr4 \<times> nat \<Rightarrow> string" where
  "prefix_text p = (case p of (ip, n) \<Rightarrow> format_addr4 ip @ ''/'' @ dec_digits n)"

definition validateNetworkAppID :: "string \<Rightarrow> network_error + string" where
  "validateNetworkAppID rawAppID =
     (if rawAppID = [] then Inr []
      else if \<not> networkAppIDPattern rawAppID then Inl (UsageValidation (SpecAppIdInvalid rawAppID))
      else Inr rawAppID)"

definition validateNetworkAddressing :: "string \<Rightarrow> string \<Rightarrow> network_error + string \<times> string" where
  "validateNetworkAddressing subnet gateway =
     (if subnet = []
      then (if gateway \<noteq> [] then Inl (UsageValidation (GatewayWithoutSubnet gateway)) else Inr ([], []))
      else (case parse_prefix4 subnet of
        None \<Rightarrow> Inl (UsageValidation (SpecSubnetInvalid subnet))
      | Some prefix \<Rightarrow>
          (if gateway = [] then Inr (prefix_text (masked prefix), [])
           else (case parse_addr4 gateway of
             None \<Rightarrow> Inl (UsageValidation (SpecGatewayInvalid gateway))
           | Some addr \<Rightarrow> Inr (prefix_text (masked prefix), format_addr4 addr)))))"

definition validateNetworkSpec :: "network_spec \<Rightarrow> network_error + network_spec" where
  "validateNetworkSpec network =
     bindE (refused_name (ns_name network)) (\<lambda>name.
     bindE (validateNetworkAddressing (ns_subnet network) (ns_gateway network)) (\<lambda>(subnet, gateway).
     bindE (validateNetworkAppID (ns_app_id network)) (\<lambda>appID.
       Inr \<lparr>ns_name = name, ns_internal = ns_internal network, ns_subnet = subnet, ns_gateway = gateway,
         ns_app_id = appID\<rparr>)))"

subsection \<open>Reading the answers\<close>

text \<open>\<open>strings.TrimRight(s, "\r\n")\<close>.\<close>

definition trim_newlines :: "string \<Rightarrow> string" where
  "trim_newlines s = rev (dropWhile (\<lambda>c. c = CHR 10 \<or> c = CHR 13) (rev s))"

definition parseNetworkInternalFlag :: "string \<Rightarrow> string \<Rightarrow> network_error + bool" where
  "parseNetworkInternalFlag stdout networkName =
     (let value = trim_suffix (trim_suffix stdout [CHR 10]) [CHR 13]
      in if value = ''true'' then Inr True
         else if value = ''false'' then Inr False
         else Inl (UsageValidation (InternalFlagOutput stdout)))"

text \<open>The text of an error is an argument: it quotes what \<open>os/exec\<close> says.\<close>

definition isMissingNetworkError ::
  "(run_error \<Rightarrow> string) \<Rightarrow> command_result \<Rightarrow> run_error \<Rightarrow> string \<Rightarrow> bool" where
  "isMissingNetworkError errText res err networkName =
     (let modernIndicator = ''network '' @ to_lower networkName @ '' not found'';
          lowerStderr = to_lower (Stderr res); lowerCause = to_lower (errText err)
      in if contains lowerStderr ''no such network'' \<or> contains lowerStderr modernIndicator then True
         else contains lowerCause ''no such network'' \<or> contains lowerCause modernIndicator)"

text \<open>\<open>strings.Lines\<close>, trimmed, without the blank ones.\<close>

definition parseManagedNetworkNames :: "string \<Rightarrow> string list" where
  "parseManagedNetworkNames stdout =
     filter (\<lambda>name. name \<noteq> []) (map trim_space (split_on (CHR 10) stdout))"

subsection \<open>Ensure\<close>

definition verifyExistingNetworkSubnet ::
  "'w client \<Rightarrow> network_spec \<Rightarrow> 'w \<Rightarrow> network_error option \<times> 'w" where
  "verifyExistingNetworkSubnet client network w =
     (if ns_subnet network = [] then (None, w)
      else (case client (NetworkSubnetInvocation (ns_name network)) w of
        ((subnetRes, Some subnetErr), w) \<Rightarrow> (Some (Untyped (ClientError subnetErr)), w)
      | ((subnetRes, None), w) \<Rightarrow>
          (if trim_newlines (Stdout subnetRes) = ns_subnet network then (None, w)
           else (Some (UsageValidation (SubnetMismatch (ns_name network))), w))))"

definition EnsureNetworkReport ::
  "(run_error \<Rightarrow> string) \<Rightarrow> 'w client \<Rightarrow> network_spec \<Rightarrow> 'w \<Rightarrow> (network_error + bool) \<times> 'w" where
  "EnsureNetworkReport errText client network w =
     (case validateNetworkSpec network of
        Inl err \<Rightarrow> (Inl err, w)
      | Inr normalized \<Rightarrow>
     (case client (NetworkInspectInvocation (ns_name normalized)) w of
        ((inspectRes, None), w) \<Rightarrow>
          (case parseNetworkInternalFlag (Stdout inspectRes) (ns_name normalized) of
             Inl parseErr \<Rightarrow> (Inl parseErr, w)
           | Inr existingInternal \<Rightarrow>
               (if existingInternal \<noteq> ns_internal normalized
                then (Inl (UsageValidation (InternalMismatch (ns_name normalized))), w)
                else (case verifyExistingNetworkSubnet client normalized w of
                        (Some err, w) \<Rightarrow> (Inl err, w)
                      | (None, w) \<Rightarrow> (Inr False, w))))
      | ((inspectRes, Some inspectErr), w) \<Rightarrow>
          (if \<not> isMissingNetworkError errText inspectRes inspectErr (ns_name normalized)
           then (Inl (Untyped (ClientError inspectErr)), w)
           else (case client (NetworkCreateInvocation (ns_name normalized) (ns_internal normalized)
                        (ns_subnet normalized) (ns_gateway normalized) (ns_app_id normalized)) w of
                   ((createRes, Some createErr), w) \<Rightarrow> (Inl (Untyped (ClientError createErr)), w)
                 | ((createRes, None), w) \<Rightarrow> (Inr True, w)))))"

subsection \<open>Removal\<close>

definition RemoveNetwork :: "'w client \<Rightarrow> string \<Rightarrow> 'w \<Rightarrow> network_error option \<times> 'w" where
  "RemoveNetwork client networkName w =
     (case refused_name networkName of
        Inl err \<Rightarrow> (Some err, w)
      | Inr name \<Rightarrow>
     (case client (RemoveNetworkInvocation name) w of
        ((res, err), w) \<Rightarrow> (map_option (\<lambda>e. Untyped (ClientError e)) err, w)))"

definition RemoveNetworkIfPresent ::
  "(run_error \<Rightarrow> string) \<Rightarrow> 'w client \<Rightarrow> string \<Rightarrow> 'w \<Rightarrow> network_error option \<times> 'w" where
  "RemoveNetworkIfPresent errText client networkName w =
     (case refused_name networkName of
        Inl err \<Rightarrow> (Some err, w)
      | Inr name \<Rightarrow>
     (case client (RemoveNetworkInvocation name) w of
        ((res, None), w) \<Rightarrow> (None, w)
      | ((res, Some err), w) \<Rightarrow>
          (if isMissingNetworkError errText res err name then (None, w)
           else (Some (Untyped (ClientError err)), w))))"

text \<open>The results \<open>removed\<close> and \<open>skipped\<close>.\<close>

definition RemoveNetworkIfManaged ::
  "(run_error \<Rightarrow> string) \<Rightarrow> 'w client \<Rightarrow> string \<Rightarrow> 'w \<Rightarrow> (network_error + bool \<times> bool) \<times> 'w" where
  "RemoveNetworkIfManaged errText client networkName w =
     (case refused_name networkName of
        Inl err \<Rightarrow> (Inl err, w)
      | Inr name \<Rightarrow>
     (case client (NetworkManagedLabelInvocation name) w of
        ((res, Some inspectErr), w) \<Rightarrow>
          (if isMissingNetworkError errText res inspectErr name then (Inr (False, False), w)
           else (Inl (Untyped (ClientError inspectErr)), w))
      | ((res, None), w) \<Rightarrow>
          (if trim_newlines (Stdout res) \<noteq> ''true'' then (Inr (False, True), w)
           else (case RemoveNetworkIfPresent errText client name w of
                   (Some err, w) \<Rightarrow> (Inl err, w)
                 | (None, w) \<Rightarrow> (Inr (True, False), w)))))"

definition ListManagedNetworks :: "'w client \<Rightarrow> 'w \<Rightarrow> (run_error + string list) \<times> 'w" where
  "ListManagedNetworks client w =
     (case client ManagedNetworkListInvocation w of
        ((res, Some err), w) \<Rightarrow> (Inl err, w)
      | ((res, None), w) \<Rightarrow> (Inr (parseManagedNetworkNames (Stdout res)), w))"

text \<open>\<open>partitionManagedNetworks\<close> of \<open>lifecycle_shared.go\<close>; the reason of a retained network is its error, none when it is
  not managed.\<close>

fun partitionManagedNetworks ::
  "(run_error \<Rightarrow> string) \<Rightarrow> 'w client \<Rightarrow> string list \<Rightarrow> 'w
     \<Rightarrow> (string list \<times> (string \<times> network_error option) list) \<times> 'w" where
  "partitionManagedNetworks errText client [] w = (([], []), w)"
| "partitionManagedNetworks errText client (name # names) w =
     (case RemoveNetworkIfManaged errText client name w of (r, w) \<Rightarrow>
      (case partitionManagedNetworks errText client names w of ((removed, retained), w) \<Rightarrow>
       (case r of
          Inl err \<Rightarrow> ((removed, (name, Some err) # retained), w)
        | Inr (ok, skipped) \<Rightarrow>
            (if skipped then ((removed, (name, None) # retained), w)
             else if ok then ((name # removed, retained), w)
             else ((removed, retained), w)))))"

subsection \<open>What Docker promises\<close>

text \<open>A network of the daemon: internal, first subnet, owner label, application label.\<close>

record net =
  net_internal :: bool
  net_subnet :: string
  net_managed :: bool
  net_app :: string

definition created_net :: "bool \<Rightarrow> string \<Rightarrow> string \<Rightarrow> net" where
  "created_net internal subnet appID =
     \<lparr>net_internal = internal, net_subnet = subnet, net_managed = (appID \<noteq> []), net_app = appID\<rparr>"

definition flag_text :: "bool \<Rightarrow> string" where
  "flag_text b = (if b then ''true'' else ''false'') @ [CHR 10]"

text \<open>
  The documented answers of the network commands. Any of them may fail, for any reason. An inspection
  changes nothing; when it succeeds the network is there and the answer is the one that was asked for, and when it
  fails and says that the network is missing, it is. A creation of a missing network adds exactly this network or
  fails and changes nothing; a removal drops exactly the network or fails and changes nothing, and it too
  says that the network is missing only when it is.
\<close>

definition inspection :: "(run_error \<Rightarrow> string) \<Rightarrow> 'w client \<Rightarrow> ('w \<Rightarrow> string \<Rightarrow> net option) \<Rightarrow> 'w \<Rightarrow> string
    \<Rightarrow> invocation \<Rightarrow> (string \<Rightarrow> net \<Rightarrow> bool) \<Rightarrow> bool" where
  "inspection errText client nets w name i answer \<longleftrightarrow> (\<exists>res err. client i w = ((res, err), w)
     \<and> (err = None \<longrightarrow> (\<exists>n. nets w name = Some n \<and> answer (Stdout res) n))
     \<and> (\<forall>e. err = Some e \<and> isMissingNetworkError errText res e name \<longrightarrow> nets w name = None))"

definition docker_networks ::
  "(run_error \<Rightarrow> string) \<Rightarrow> 'w client \<Rightarrow> ('w \<Rightarrow> string \<Rightarrow> net option) \<Rightarrow> bool" where
  "docker_networks errText client nets \<longleftrightarrow> (\<forall>w name. networkNamePattern name \<longrightarrow>
     inspection errText client nets w name (NetworkInspectInvocation name) (\<lambda>out n. out = flag_text (net_internal n))
     \<and> inspection errText client nets w name (NetworkSubnetInvocation name) (\<lambda>out n. trim_newlines out = net_subnet n)
     \<and> inspection errText client nets w name (NetworkManagedLabelInvocation name)
         (\<lambda>out n. trim_newlines out = ''true'' \<longleftrightarrow> net_managed n)
     \<and> (nets w name = None \<longrightarrow> (\<forall>internal subnet gateway appID. \<exists>res err w'.
          client (NetworkCreateInvocation name internal subnet gateway appID) w = ((res, err), w')
          \<and> (err = None \<longrightarrow> (\<exists>s. nets w' = (nets w)(name \<mapsto> created_net internal s appID)
              \<and> (subnet \<noteq> [] \<longrightarrow> s = subnet)))
          \<and> (err \<noteq> None \<longrightarrow> nets w' = nets w)))
     \<and> (\<exists>res err w'. client (RemoveNetworkInvocation name) w = ((res, err), w')
          \<and> (err = None \<longrightarrow> nets w' = (nets w)(name := None))
          \<and> (\<forall>e. err = Some e \<longrightarrow> nets w' = nets w
               \<and> (isMissingNetworkError errText res e name \<longrightarrow> nets w name = None))))"

lemma networks_answer:
  assumes "docker_networks errText client nets" "networkNamePattern name"
  shows "inspection errText client nets w name (NetworkInspectInvocation name) (\<lambda>out n. out = flag_text (net_internal n))"
    and "inspection errText client nets w name (NetworkSubnetInvocation name) (\<lambda>out n. trim_newlines out = net_subnet n)"
    and "inspection errText client nets w name (NetworkManagedLabelInvocation name)
         (\<lambda>out n. trim_newlines out = ''true'' \<longleftrightarrow> net_managed n)"
    and "nets w name = None \<Longrightarrow> \<exists>res err w'. client (NetworkCreateInvocation name internal subnet gateway appID) w = ((res, err), w')
      \<and> (err = None \<longrightarrow> (\<exists>s. nets w' = (nets w)(name \<mapsto> created_net internal s appID) \<and> (subnet \<noteq> [] \<longrightarrow> s = subnet)))
      \<and> (err \<noteq> None \<longrightarrow> nets w' = nets w)"
    and "\<exists>res err w'. client (RemoveNetworkInvocation name) w = ((res, err), w')
      \<and> (err = None \<longrightarrow> nets w' = (nets w)(name := None))
      \<and> (\<forall>e. err = Some e \<longrightarrow> nets w' = nets w
           \<and> (isMissingNetworkError errText res e name \<longrightarrow> nets w name = None))"
  using assms unfolding docker_networks_def by blast+

lemma inspection_cases:
  assumes "inspection errText client nets w name i answer"
  obtains res n where "client i w = ((res, None), w)" "nets w name = Some n" "answer (Stdout res) n"
    | res e where "client i w = ((res, Some e), w)" "isMissingNetworkError errText res e name \<longrightarrow> nets w name = None"
  using assms by (auto simp: inspection_def) (metis not_None_eq)

subsection \<open>A concrete daemon\<close>

definition said :: "string \<Rightarrow> command_result" where
  "said s = \<lparr>Stdout = s, Stderr = [], ExitCode = 0\<rparr>"

definition missing_text :: string where
  "missing_text = ''Error: No such network''"

definition no_such_network :: "command_result \<times> run_error option" where
  "no_such_network = (\<lparr>Stdout = [], Stderr = missing_text, ExitCode = 1\<rparr>,
     Some (Failed ErrCodeGeneric (ProcessFailed ''exit status 1'') missing_text))"

definition demo_daemon :: "(string \<Rightarrow> net option) client" where
  "demo_daemon i w = (case i of
     NetworkInspectInvocation m \<Rightarrow>
       (case w m of None \<Rightarrow> no_such_network | Some n \<Rightarrow> (said (flag_text (net_internal n)), None), w)
   | NetworkSubnetInvocation m \<Rightarrow>
       (case w m of None \<Rightarrow> no_such_network | Some n \<Rightarrow> (said (net_subnet n @ [CHR 10]), None), w)
   | NetworkManagedLabelInvocation m \<Rightarrow>
       (case w m of None \<Rightarrow> no_such_network
        | Some n \<Rightarrow> (said ((if net_managed n then ''true'' else []) @ [CHR 10]), None), w)
   | RemoveNetworkInvocation m \<Rightarrow>
       (case w m of None \<Rightarrow> (no_such_network, w) | Some n \<Rightarrow> ((said m, None), w(m := None)))
   | NetworkCreateInvocation m internal subnet gateway appID \<Rightarrow>
       (if w m = None \<and> trim_newlines subnet = subnet
        then ((said m, None), w(m \<mapsto> created_net internal subnet appID)) else (no_such_network, w))
   | _ \<Rightarrow> (no_such_network, w))"

lemma demo_daemon_simps [simp]:
  "demo_daemon (NetworkInspectInvocation m) w =
     (case w m of None \<Rightarrow> no_such_network | Some n \<Rightarrow> (said (flag_text (net_internal n)), None), w)"
  "demo_daemon (NetworkSubnetInvocation m) w =
     (case w m of None \<Rightarrow> no_such_network | Some n \<Rightarrow> (said (net_subnet n @ [CHR 10]), None), w)"
  "demo_daemon (NetworkManagedLabelInvocation m) w =
     (case w m of None \<Rightarrow> no_such_network
      | Some n \<Rightarrow> (said ((if net_managed n then ''true'' else []) @ [CHR 10]), None), w)"
  "demo_daemon (RemoveNetworkInvocation m) w =
     (case w m of None \<Rightarrow> (no_such_network, w) | Some n \<Rightarrow> ((said m, None), w(m := None)))"
  "demo_daemon (NetworkCreateInvocation m internal subnet gateway appID) w =
     (if w m = None \<and> trim_newlines subnet = subnet
      then ((said m, None), w(m \<mapsto> created_net internal subnet appID)) else (no_such_network, w))"
  by (simp_all add: demo_daemon_def)

definition demo_nets :: "(string \<Rightarrow> net option) \<Rightarrow> string \<Rightarrow> net option" where
  "demo_nets w m = map_option (\<lambda>n. n\<lparr>net_subnet := trim_newlines (net_subnet n)\<rparr>) (w m)"

lemma trim_newline_last: "trim_newlines (s @ [CHR 10]) = trim_newlines s"
  by (simp add: trim_newlines_def)

lemma missing_text_found: "contains (to_lower missing_text) ''no such network''"
  by code_simp

lemma demo_missing:
  "\<exists>res err. no_such_network = (res, Some err) \<and> isMissingNetworkError t res err m"
  by (simp add: no_such_network_def isMissingNetworkError_def missing_text_found)

lemma demo_nets_upd: "demo_nets (w(m \<mapsto> created_net i s a)) = (demo_nets w)(m \<mapsto> created_net i (trim_newlines s) a)"
  by (simp add: demo_nets_def created_net_def fun_eq_iff)

lemma daemon_create:
  assumes "w m = None"
  shows "\<exists>res err w'. demo_daemon (NetworkCreateInvocation m internal subnet gateway appID) w = ((res, err), w')
     \<and> (err = None \<longrightarrow> (\<exists>s. demo_nets w' = (demo_nets w)(m \<mapsto> created_net internal s appID) \<and> (subnet \<noteq> [] \<longrightarrow> s = subnet)))
     \<and> (err \<noteq> None \<longrightarrow> demo_nets w' = demo_nets w)"
proof (cases "trim_newlines subnet = subnet")
  case True
  then show ?thesis using assms demo_nets_upd [of w m internal subnet appID] by simp blast
next
  case False
  from demo_missing obtain res err where "no_such_network = (res, Some err)" by blast
  with False assms show ?thesis by auto
qed

lemma demo_docker: "docker_networks t demo_daemon demo_nets"
  unfolding docker_networks_def
proof (intro allI impI)
  fix w :: "string \<Rightarrow> net option" and m
  obtain res err where missing: "no_such_network = (res, Some err)" "isMissingNetworkError t res err m"
    using demo_missing by blast
  show "inspection t demo_daemon demo_nets w m (NetworkInspectInvocation m) (\<lambda>out n. out = flag_text (net_internal n))
     \<and> inspection t demo_daemon demo_nets w m (NetworkSubnetInvocation m) (\<lambda>out n. trim_newlines out = net_subnet n)
     \<and> inspection t demo_daemon demo_nets w m (NetworkManagedLabelInvocation m)
         (\<lambda>out n. trim_newlines out = ''true'' \<longleftrightarrow> net_managed n)
     \<and> (demo_nets w m = None \<longrightarrow> (\<forall>internal subnet gateway appID. \<exists>res err w'.
          demo_daemon (NetworkCreateInvocation m internal subnet gateway appID) w = ((res, err), w')
          \<and> (err = None \<longrightarrow> (\<exists>s. demo_nets w' = (demo_nets w)(m \<mapsto> created_net internal s appID)
              \<and> (subnet \<noteq> [] \<longrightarrow> s = subnet)))
          \<and> (err \<noteq> None \<longrightarrow> demo_nets w' = demo_nets w)))
     \<and> (\<exists>res err w'. demo_daemon (RemoveNetworkInvocation m) w = ((res, err), w')
          \<and> (err = None \<longrightarrow> demo_nets w' = (demo_nets w)(m := None))
          \<and> (\<forall>e. err = Some e \<longrightarrow> demo_nets w' = demo_nets w
               \<and> (isMissingNetworkError t res e m \<longrightarrow> demo_nets w m = None)))"
  proof (cases "w m")
    case None
    then have "demo_nets w m = None" by (simp add: demo_nets_def)
    with None missing(2) daemon_create [of w m, OF None] show ?thesis by (auto simp: inspection_def missing(1))
  next
    case (Some n)
    have n: "demo_nets w m = Some (n\<lparr>net_subnet := trim_newlines (net_subnet n)\<rparr>)" using Some by (simp add: demo_nets_def)
    have "demo_nets (w(m := None)) = (demo_nets w)(m := None)" by (simp add: demo_nets_def fun_eq_iff)
    with Some n show ?thesis by (simp add: inspection_def said_def trim_newline_last) (simp add: trim_newlines_def)
  qed
qed

text \<open>A daemon that fails every command, although its networks are there, keeps the promise too.\<close>

definition denying_daemon :: "(string \<Rightarrow> net option) client" where
  "denying_daemon i w = ((\<lparr>Stdout = [], Stderr = ''permission denied'', ExitCode = 1\<rparr>,
     Some (Failed ErrCodeGeneric (ProcessFailed ''exit status 1'') ''permission denied'')), w)"

lemma denying_text: "\<not> isMissingNetworkError (\<lambda>e. []) \<lparr>Stdout = [], Stderr = ''permission denied'', ExitCode = 1\<rparr> e m"
proof -
  have "CHR ''w'' \<notin> set (to_lower ''permission denied'')" "CHR ''w'' \<notin> set (to_lower [])" by code_simp+
  moreover have "contains s w \<Longrightarrow> CHR ''w'' \<in> set w \<Longrightarrow> CHR ''w'' \<in> set s" for s w by (auto simp: contains_iff)
  ultimately have "\<not> contains (to_lower ''permission denied'') w" "\<not> contains (to_lower []) w"
    if "CHR ''w'' \<in> set w" for w using that by blast+
  then show ?thesis unfolding isMissingNetworkError_def Let_def by simp
qed

lemma denying_docker: "docker_networks (\<lambda>e. []) denying_daemon (\<lambda>w. w)"
  by (simp add: docker_networks_def inspection_def denying_daemon_def denying_text)

subsection \<open>Ensure, exactly\<close>

lemma refused_name_Inr: "refused_name s = Inr name \<longleftrightarrow> name = s \<and> validateNetworkName s = Inr s"
  by (auto simp: refused_name_def validateNetworkName_def guardE_def refuse_if_def split: sum.splits if_splits option.splits)

lemma network_name_shape: "validateNetworkName s = Inr t \<Longrightarrow> networkNamePattern s"
  by (auto simp: validateNetworkName_def guardE_def refuse_if_def split: if_splits option.splits)

lemma parse_flag_text: "parseNetworkInternalFlag (flag_text b) name = Inr b"
  by (cases b) (simp_all add: parseNetworkInternalFlag_def flag_text_def trim_suffix_def)

lemma valid_spec:
  assumes "validateNetworkSpec spec = Inr ns"
  shows "ns_name ns = ns_name spec \<and> networkNamePattern (ns_name spec) \<and> ns_internal ns = ns_internal spec
    \<and> ns_app_id ns = ns_app_id spec
    \<and> (if ns_subnet spec = [] then ns_subnet ns = []
       else \<exists>p. parse_prefix4 (ns_subnet spec) = Some p \<and> ns_subnet ns = prefix_text (masked p))"
  using assms network_name_shape
  by (auto simp: validateNetworkSpec_def bindE_Inr refused_name_Inr validateNetworkAddressing_def
      validateNetworkAppID_def split: if_splits option.splits)

lemma prefix_text_nonempty: "prefix_text p \<noteq> []"
  by (simp add: prefix_text_def split: prod.splits)

lemma ensure_cases:
  assumes d: "docker_networks errText client nets" and v: "validateNetworkSpec spec = Inr ns"
    and e: "EnsureNetworkReport errText client spec w = (r, w')"
  shows "(nets w (ns_name spec) = None \<and> (r = Inr True \<and> (\<exists>s. nets w' = (nets w)(ns_name spec \<mapsto> created_net (ns_internal spec) s (ns_app_id spec))
            \<and> (ns_subnet ns \<noteq> [] \<longrightarrow> s = ns_subnet ns))
          \<or> (\<exists>err. r = Inl err) \<and> nets w' = nets w))
    \<or> (\<exists>n. nets w (ns_name spec) = Some n \<and> w' = w
          \<and> (r = Inr False \<and> net_internal n = ns_internal spec \<and> (ns_subnet ns \<noteq> [] \<longrightarrow> net_subnet n = ns_subnet ns)
             \<or> (\<exists>err. r = Inl err)))"
proof -
  from valid_spec [OF v] have p: "ns_name ns = ns_name spec" "networkNamePattern (ns_name spec)"
    "ns_internal ns = ns_internal spec" "ns_app_id ns = ns_app_id spec" by auto
  note a = networks_answer [OF d p(2)]
  from a(1) [of w] show ?thesis
  proof (cases rule: inspection_cases)
    case (1 res n)
    show ?thesis
    proof (cases "ns_subnet ns = []")
      case True
      with e v p 1 show ?thesis
        by (auto simp: EnsureNetworkReport_def parse_flag_text verifyExistingNetworkSubnet_def split: if_splits)
    next
      case False
      from a(2) [of w] show ?thesis
        by (cases rule: inspection_cases)
          (use e v p 1 False in \<open>auto simp: EnsureNetworkReport_def parse_flag_text verifyExistingNetworkSubnet_def
            split: if_splits\<close>)
    qed
  next
    case (2 res err)
    show ?thesis
    proof (cases "isMissingNetworkError errText res err (ns_name spec)")
      case False
      with e v p 2 have "r = Inl (Untyped (ClientError err))" "w' = w" by (auto simp: EnsureNetworkReport_def)
      then show ?thesis by (cases "nets w (ns_name spec)") auto
    next
      case True
      with 2 have None: "nets w (ns_name spec) = None" by blast
      obtain cres cerr w1 where c: "client (NetworkCreateInvocation (ns_name spec) (ns_internal spec) (ns_subnet ns)
          (ns_gateway ns) (ns_app_id spec)) w = ((cres, cerr), w1)"
        "cerr = None \<longrightarrow> (\<exists>s. nets w1 = (nets w)(ns_name spec \<mapsto> created_net (ns_internal spec) s (ns_app_id spec))
            \<and> (ns_subnet ns \<noteq> [] \<longrightarrow> s = ns_subnet ns))"
        "cerr \<noteq> None \<longrightarrow> nets w1 = nets w" using a(4) [OF None] by metis
      from e v p 2(1) True c(1) have "w' = w1" "cerr = None \<Longrightarrow> r = Inr True" "cerr \<noteq> None \<Longrightarrow> \<exists>err. r = Inl err"
        by (auto simp: EnsureNetworkReport_def split: option.splits)
      with c(2,3) None show ?thesis by (cases "cerr = None") blast+
    qed
  qed
qed


definition demo_spec :: network_spec where
  "demo_spec = \<lparr>ns_name = ''front'', ns_internal = False, ns_subnet = [], ns_gateway = [], ns_app_id = ''demo''\<rparr>"

lemma demo_spec_valid: "validateNetworkSpec demo_spec = Inr demo_spec"
proof -
  have "networkNamePattern ''front''" "networkAppIDPattern ''demo''"
    by (simp_all add: networkNamePattern_def networkAppIDPattern_def short_name_shape_def name_shape_def
        lower_or_digit_def is_lower_def is_digit_def byte_def)
  moreover have "trim_space ''front'' = ''front''" 
    by (rule trim_visible_ends [of _ "CHR ''f''" "''ront''"]) (simp_all add: visible_def byte_def of_char_def)
  ultimately show ?thesis
    by (simp add: validateNetworkSpec_def demo_spec_def refused_name_def validateNetworkName_def guardE_def
        refuse_if_def validateNetworkAddressing_def validateNetworkAppID_def)
qed

lemma demo_ensure: "\<exists>w'. EnsureNetworkReport (\<lambda>e. []) demo_daemon demo_spec (\<lambda>m. None) = (Inr True, w')"
proof -
  obtain res err where m: "no_such_network = (res, Some err)" "isMissingNetworkError (\<lambda>e. []) res err (ns_name demo_spec)"
    using demo_missing by blast
  have s: "trim_newlines (ns_subnet demo_spec) = ns_subnet demo_spec" by (simp add: trim_newlines_def demo_spec_def)
  show ?thesis unfolding EnsureNetworkReport_def demo_spec_valid by simp (simp add: m s)
qed

lemma demo_denied: "\<exists>err w'. EnsureNetworkReport (\<lambda>e. []) denying_daemon demo_spec w = (Inl err, w')"
  unfolding EnsureNetworkReport_def demo_spec_valid by (simp add: denying_daemon_def denying_text)


subsection \<open>Only owned networks are removed\<close>

lemma remove_managed_cases:
  assumes d: "docker_networks errText client nets" and e: "RemoveNetworkIfManaged errText client name w = (r, w')"
  shows "(r = Inr (True, False) \<and> (\<exists>n. nets w name = Some n \<and> net_managed n) \<and> nets w' = (nets w)(name := None))
    \<or> nets w' = nets w \<and> (r = Inr (False, True) \<and> (\<exists>n. nets w name = Some n \<and> \<not> net_managed n)
        \<or> r = Inr (False, False) \<and> nets w name = None \<or> (\<exists>err. r = Inl err))"
proof (cases "validateNetworkName name")
  case (Inl err)
  with e show ?thesis by (auto simp: RemoveNetworkIfManaged_def refused_name_def)
next
  case (Inr nm)
  then have rn: "refused_name name = Inr name"
    by (auto simp: refused_name_Inr validateNetworkName_def guardE_def refuse_if_def split: if_splits option.splits)
  note a = networks_answer [OF d network_name_shape [OF Inr]]
  from a(3) [of w] show ?thesis
  proof (cases rule: inspection_cases)
    case (2 res err)
    with e rn show ?thesis by (auto simp: RemoveNetworkIfManaged_def split: if_splits)
  next
    case l: (1 res n)
    show ?thesis
    proof (cases "net_managed n")
      case False
      with l e rn show ?thesis by (auto simp: RemoveNetworkIfManaged_def)
    next
      case True
      obtain rres rerr w1 where c: "client (RemoveNetworkInvocation name) w = ((rres, rerr), w1)"
        "rerr = None \<longrightarrow> nets w1 = (nets w)(name := None)"
        "\<forall>e. rerr = Some e \<longrightarrow> nets w1 = nets w \<and> (isMissingNetworkError errText rres e name \<longrightarrow> nets w name = None)"
        using a(5) by blast
      with True l e rn show ?thesis
        by (cases rerr) (auto simp: RemoveNetworkIfManaged_def RemoveNetworkIfPresent_def)
    qed
  qed
qed

text \<open>
  C27: The network cleanup of a teardown removes only networks that carry wdm's owner label: what it reports as
  removed was there and was wdm's, every other network of the daemon is untouched, and each name it was given is
  removed, was missing, or is reported as retained: without an error only when it is someone else's.
\<close>

theorem only_owned_networks_removed:
  assumes "docker_networks errText client nets"
    and "partitionManagedNetworks errText client names w = ((removed, retained), w')"
  shows "nets w' = (\<lambda>m. if m \<in> set removed then None else nets w m)
    \<and> (\<forall>m \<in> set removed. m \<in> set names \<and> (\<exists>n. nets w m = Some n \<and> net_managed n))
    \<and> (\<forall>m. (m, None) \<in> set retained \<longrightarrow> (\<exists>n. nets w m = Some n \<and> \<not> net_managed n))
    \<and> (\<forall>m \<in> set names. m \<in> set removed \<or> m \<in> fst ` set retained \<or> nets w m = None)"
  using assms(2)
proof (induction names arbitrary: w w' removed retained)
  case Nil
  then show ?case by auto
next
  case (Cons name names)
  obtain r w1 where r: "RemoveNetworkIfManaged errText client name w = (r, w1)" by (cases "RemoveNetworkIfManaged errText client name w")
  obtain rm rt w2 where p: "partitionManagedNetworks errText client names w1 = ((rm, rt), w2)"
    by (cases "partitionManagedNetworks errText client names w1") auto
  note ih = Cons.IH [OF p]
  from Cons.prems r p have w': "w' = w2" by (auto split: sum.splits prod.splits if_splits)
  from remove_managed_cases [OF assms(1) r] show ?case
  proof (elim disjE conjE exE)
    fix n assume "r = Inr (True, False)" "nets w name = Some n" "net_managed n" "nets w1 = (nets w)(name := None)"
    with Cons.prems r p ih show ?thesis by (auto simp: fun_eq_iff split: if_splits)
  next
    fix n assume "nets w1 = nets w" "r = Inr (False, True)" "nets w name = Some n" "\<not> net_managed n"
    with Cons.prems r p ih show ?thesis by auto (metis option.distinct(1))
  next
    assume "nets w1 = nets w" "r = Inr (False, False)" "nets w name = None"
    with Cons.prems r p ih show ?thesis by auto
  next
    fix err assume "nets w1 = nets w" "r = Inl err"
    with Cons.prems r p ih show ?thesis by auto (metis option.distinct(1))
  qed
qed

definition demo_world :: "string \<Rightarrow> net option" where
  "demo_world = [''front'' \<mapsto> created_net False [] ''demo'', ''shared'' \<mapsto> created_net False [] []]"

lemma demo_world_shared: "demo_nets demo_world ''shared'' = Some (created_net False [] [])"
  by (simp add: demo_world_def demo_nets_def created_net_def trim_newlines_def)

theorem only_owned_networks_removed_witness:
  "demo_nets (snd (partitionManagedNetworks (\<lambda>e. []) demo_daemon [''front'', ''shared''] demo_world)) ''shared'' \<noteq> None"
proof -
  obtain removed retained w' where p: "partitionManagedNetworks (\<lambda>e. []) demo_daemon [''front'', ''shared''] demo_world
      = ((removed, retained), w')"
    using surj_pair by (metis (no_types))
  note t = only_owned_networks_removed [OF demo_docker p]
  have "''shared'' \<notin> set removed"
  proof
    assume "''shared'' \<in> set removed"
    with t obtain n where "demo_nets demo_world ''shared'' = Some n" "net_managed n" by blast
    then show False unfolding demo_world_shared by (auto simp: created_net_def)
  qed
  moreover from t have "demo_nets w' = (\<lambda>m. if m \<in> set removed then None else demo_nets demo_world m)" by (rule conjunct1)
  ultimately show ?thesis unfolding p snd_conv using demo_world_shared by simp
qed

end
