(* ===== verification/Docker_Inspect.thy ===== *)
theory Docker_Inspect
  imports Docker_Network "HOL-Library.Product_Lexorder" "HOL-Library.Multiset"
begin

text \<open>
  What the engine learns from Docker: \<open>internal/docker/inspect.go\<close> and \<open>daemon_mode.go\<close>. \<open>encoding/json\<close> is an
  argument, one decoder for each type the code decodes into.
\<close>

subsection \<open>Data\<close>

record container_state =
  cs_status :: string
  cs_running :: bool
  cs_restarting :: bool
  cs_exit_code :: int
  cs_health :: string

record published_port =
  pp_host_ip :: string
  pp_host_port :: int
  pp_container_port :: int
  pp_protocol :: string

record container_info =
  ci_id :: string
  ci_name :: string
  ci_service :: string
  ci_labels :: "(string, string) gomap"
  ci_state :: container_state
  ci_ports :: "published_port list"

record docker_port_binding =
  dp_host_ip :: string
  dp_host_port :: string

record json_lib =
  js_string :: "string \<Rightarrow> string option"
  js_labels :: "string \<Rightarrow> (string, string) gomap option"
  js_bool :: "string \<Rightarrow> bool option"
  js_int :: "string \<Rightarrow> int option"
  js_ports :: "string \<Rightarrow> (string, docker_port_binding list) gomap option"
  js_strings :: "string \<Rightarrow> string list option"

datatype inspect_error =
    InspectRefused docker_error
  | InspectClient run_error
  | BlankOutput string
  | MalformedLine string string
  | FieldCount string nat
  | FieldUndecodable string
  | PortKeyInvalid string
  | PortProtocolInvalid string
  | PortNumberInvalid string string
  | DigestMalformed string
  | DigestEntryMalformed string
  | SecurityOptionsUnparsed

fun inspect_code :: "inspect_error \<Rightarrow> error_code option" where
  "inspect_code (InspectRefused e) = code_of e"
| "inspect_code (InspectClient e) = run_code e"
| "inspect_code SecurityOptionsUnparsed = Some ErrCodeDockerUnavailable"
| "inspect_code e = Some ErrCodeUsageValidation"

subsection \<open>Lines\<close>

definition stripSingleDockerLineEnding :: "string \<Rightarrow> string" where
  "stripSingleDockerLineEnding stdout = trim_suffix (trim_suffix stdout [CHR 10]) [CHR 13]"

definition strictDockerOutputLines :: "string \<Rightarrow> string \<Rightarrow> inspect_error + string list" where
  "strictDockerOutputLines stdout label =
     (if stdout = [] then Inr []
      else let value = stripSingleDockerLineEnding stdout
           in if value = [] then Inl (BlankOutput label)
              else let lines = split_on (CHR 10) value
                   in (case first_err (\<lambda>line. refuse_if (line = [] \<or> CHR 13 \<in> set line \<or> line \<noteq> trim_space line)
                              (MalformedLine label line)) lines of
                         Some e \<Rightarrow> Inl e
                       | None \<Rightarrow> Inr lines))"

definition refused :: "docker_error + 'a \<Rightarrow> inspect_error + 'a" where
  "refused r = (case r of Inl e \<Rightarrow> Inl (InspectRefused e) | Inr x \<Rightarrow> Inr x)"

definition parseContainerIDList :: "string \<Rightarrow> inspect_error + string list" where
  "parseContainerIDList stdout =
     bindE (strictDockerOutputLines stdout ''container id list'')
       (foldE (\<lambda>ids line. bindE (refused (validateContainerID line)) (\<lambda>i. Inr (ids @ [i]))) [])"

definition decodeInspectJSONField :: "(string \<Rightarrow> 'a option) \<Rightarrow> string \<Rightarrow> string \<Rightarrow> inspect_error + 'a" where
  "decodeInspectJSONField decode raw label =
     (case decode raw of None \<Rightarrow> Inl (FieldUndecodable label) | Some x \<Rightarrow> Inr x)"

subsection \<open>Ports\<close>

definition parsePortNumber :: "string \<Rightarrow> string \<Rightarrow> inspect_error + int" where
  "parsePortNumber raw label =
     (case atoi raw of
        None \<Rightarrow> Inl (PortNumberInvalid label raw)
      | Some port \<Rightarrow> if port < 1 \<or> port > 65535 then Inl (PortNumberInvalid label raw) else Inr port)"

definition parseContainerPortKey :: "string \<Rightarrow> inspect_error + int \<times> string" where
  "parseContainerPortKey key =
     (case cut (CHR ''/'') key of (portPart, protocol, ok) \<Rightarrow>
        (if \<not> ok \<or> protocol = [] \<or> contains protocol ''/'' then Inl (PortKeyInvalid key)
         else bindE (parsePortNumber portPart ''container port'') (\<lambda>containerPort.
                if protocol \<noteq> ''tcp'' \<and> protocol \<noteq> ''udp'' then Inl (PortProtocolInvalid protocol)
                else Inr (containerPort, protocol))))"

text \<open>The order of \<open>sort.Slice\<close>: container port, protocol, host address, host port.\<close>

definition port_order :: "published_port \<Rightarrow> int \<times> string \<times> string \<times> int" where
  "port_order p = (pp_container_port p, pp_protocol p, pp_host_ip p, pp_host_port p)"

definition port_less :: "published_port \<Rightarrow> published_port \<Rightarrow> bool" where
  "port_less p q =
     (if pp_container_port p \<noteq> pp_container_port q then pp_container_port p < pp_container_port q
      else if pp_protocol p \<noteq> pp_protocol q then pp_protocol p < pp_protocol q
      else if pp_host_ip p \<noteq> pp_host_ip q then pp_host_ip p < pp_host_ip q
      else pp_host_port p < pp_host_port q)"

fun insert_port :: "published_port \<Rightarrow> published_port list \<Rightarrow> published_port list" where
  "insert_port p [] = [p]"
| "insert_port p (q # qs) = (if port_less q p then q # insert_port p qs else p # q # qs)"

definition sort_ports :: "published_port list \<Rightarrow> published_port list" where
  "sort_ports ps = foldr insert_port ps []"

definition host_bindings ::
  "int \<Rightarrow> string \<Rightarrow> published_port list \<Rightarrow> docker_port_binding list \<Rightarrow> inspect_error + published_port list" where
  "host_bindings containerPort protocol =
     foldE (\<lambda>ports binding. bindE (parsePortNumber (dp_host_port binding) ''host port'') (\<lambda>hostPort.
       Inr (ports @ [\<lparr>pp_host_ip = dp_host_ip binding, pp_host_port = hostPort, pp_container_port = containerPort,
         pp_protocol = protocol\<rparr>])))"

definition collect_ports ::
  "(string, docker_port_binding list) gomap \<Rightarrow> inspect_error + published_port list" where
  "collect_ports portMap =
     foldE (\<lambda>ports (key, bindings). bindE (parseContainerPortKey key) (\<lambda>(containerPort, protocol).
       host_bindings containerPort protocol ports bindings)) [] portMap"

definition parseDockerPorts :: "json_lib \<Rightarrow> string \<Rightarrow> inspect_error + published_port list" where
  "parseDockerPorts json raw =
     bindE (decodeInspectJSONField (js_ports json) raw ''container ports'') (\<lambda>portMap.
       if portMap = [] then Inr []
       else bindE (collect_ports portMap) (\<lambda>ports. Inr (sort_ports ports)))"

subsection \<open>Containers\<close>

definition parseContainerInspectOutput :: "json_lib \<Rightarrow> string \<Rightarrow> string \<Rightarrow> inspect_error + container_info" where
  "parseContainerInspectOutput json cid stdout =
     bindE (strictDockerOutputLines stdout ''container inspect output'') (\<lambda>fields.
       if length fields \<noteq> 8 then Inl (FieldCount cid (length fields))
       else
         bindE (decodeInspectJSONField (js_string json) (fields ! 0) ''container name'') (\<lambda>name.
         bindE (decodeInspectJSONField (js_labels json) (fields ! 1) ''container labels'') (\<lambda>labels.
         bindE (decodeInspectJSONField (js_string json) (fields ! 2) ''container status'') (\<lambda>status.
         bindE (decodeInspectJSONField (js_bool json) (fields ! 3) ''container running'') (\<lambda>running.
         bindE (decodeInspectJSONField (js_bool json) (fields ! 4) ''container restarting'') (\<lambda>restarting.
         bindE (decodeInspectJSONField (js_int json) (fields ! 5) ''container exit code'') (\<lambda>exitCode.
         bindE (decodeInspectJSONField (js_string json) (fields ! 6) ''container health'') (\<lambda>health.
         bindE (parseDockerPorts json (fields ! 7)) (\<lambda>ports.
           Inr \<lparr>ci_id = cid, ci_name = trim_prefix name ''/'',
             ci_service = get_or [] labels ''com.docker.compose.service'', ci_labels = labels,
             ci_state = \<lparr>cs_status = status, cs_running = running, cs_restarting = restarting,
               cs_exit_code = exitCode, cs_health = health\<rparr>,
             ci_ports = ports\<rparr>)))))))))"

fun inspect_each ::
  "json_lib \<Rightarrow> 'w client \<Rightarrow> string list \<Rightarrow> 'w \<Rightarrow> (inspect_error + container_info list) \<times> 'w" where
  "inspect_each json client [] w = (Inr [], w)"
| "inspect_each json client (cid # ids) w =
     (case client (ContainerInspectInvocation cid) w of
        ((inspectRes, Some inspectErr), w) \<Rightarrow> (Inl (InspectClient inspectErr), w)
      | ((inspectRes, None), w) \<Rightarrow>
     (case parseContainerInspectOutput json cid (Stdout inspectRes) of
        Inl parseErr \<Rightarrow> (Inl parseErr, w)
      | Inr container \<Rightarrow>
     (case inspect_each json client ids w of
        (Inl err, w) \<Rightarrow> (Inl err, w)
      | (Inr containers, w) \<Rightarrow> (Inr (container # containers), w))))"

definition InspectProjectContainers ::
  "json_lib \<Rightarrow> 'w client \<Rightarrow> string \<Rightarrow> 'w \<Rightarrow> (inspect_error + container_info list) \<times> 'w" where
  "InspectProjectContainers json client projectName w =
     (case validateComposeProjectName projectName of
        Inl err \<Rightarrow> (Inl (InspectRefused err), w)
      | Inr normalizedProject \<Rightarrow>
     (case client (ProjectContainerListInvocation normalizedProject) w of
        ((listRes, Some err), w) \<Rightarrow> (Inl (InspectClient err), w)
      | ((listRes, None), w) \<Rightarrow>
     (case parseContainerIDList (Stdout listRes) of
        Inl err \<Rightarrow> (Inl err, w)
      | Inr ids \<Rightarrow> inspect_each json client ids w)))"

subsection \<open>Images, volumes, daemon mode\<close>

definition sha256Pattern :: "string \<Rightarrow> bool" where
  "sha256Pattern s \<longleftrightarrow> has_prefix s ''sha256:'' \<and> length s = 71
     \<and> list_all (\<lambda>c. is_digit c \<or> (97 \<le> byte c \<and> byte c \<le> 102)) (drop 7 s)"

definition digest_step :: "string \<Rightarrow> string \<Rightarrow> inspect_error + string" where
  "digest_step firstDigest entry =
     (if entry = [] \<or> entry \<noteq> trim_space entry then Inl (DigestEntryMalformed entry)
      else let candidate = (case cut (CHR ''@'') entry of (a, digest, ok) \<Rightarrow> if ok then digest else entry)
           in Inr (if firstDigest = [] \<and> sha256Pattern candidate then candidate else firstDigest))"

definition parseImageDigestOutput :: "string \<Rightarrow> inspect_error + string" where
  "parseImageDigestOutput stdout =
     (let value = stripSingleDockerLineEnding stdout
      in if value = [] then Inr []
         else if CHR 13 \<in> set value \<or> CHR 10 \<in> set value \<or> value \<noteq> trim_space value
         then Inl (DigestMalformed stdout)
         else foldE digest_step [] (split_on (CHR '','') value))"

text \<open>Without a cancelled context: a failed inspection other than a cancelled one is an empty digest.\<close>

definition InspectImageDigest :: "'w client \<Rightarrow> string \<Rightarrow> 'w \<Rightarrow> (inspect_error + string) \<times> 'w" where
  "InspectImageDigest client imageRef w =
     (case validateImageRef imageRef of
        Inl err \<Rightarrow> (Inl (InspectRefused err), w)
      | Inr normalizedRef \<Rightarrow>
     (case client (ImageDigestInspectInvocation normalizedRef) w of
        ((res, Some err), w) \<Rightarrow>
          ((if run_code err = Some ErrCodeUserCanceled then Inl (InspectClient err) else Inr []), w)
      | ((res, None), w) \<Rightarrow> (parseImageDigestOutput (Stdout res), w)))"

definition parseVolumeNameList :: "string \<Rightarrow> inspect_error + string list" where
  "parseVolumeNameList stdout =
     bindE (strictDockerOutputLines stdout ''volume name list'') (\<lambda>lines.
       bindE (foldE (\<lambda>seen line. bindE (refused (validateVolumeName line)) (\<lambda>name. Inr (List.insert name seen))) [] lines)
         (\<lambda>seen. Inr (sort seen)))"

definition ListProjectNamedVolumes :: "'w client \<Rightarrow> string \<Rightarrow> 'w \<Rightarrow> (inspect_error + string list) \<times> 'w" where
  "ListProjectNamedVolumes client projectName w =
     (case validateComposeProjectName projectName of
        Inl err \<Rightarrow> (Inl (InspectRefused err), w)
      | Inr normalizedProject \<Rightarrow>
     (case client (ProjectVolumeListInvocation normalizedProject) w of
        ((res, Some err), w) \<Rightarrow> (Inl (InspectClient err), w)
      | ((res, None), w) \<Rightarrow> (parseVolumeNameList (Stdout res), w)))"

definition RemoveNamedVolume :: "'w client \<Rightarrow> string \<Rightarrow> 'w \<Rightarrow> inspect_error option \<times> 'w" where
  "RemoveNamedVolume client volumeName w =
     (case validateVolumeName volumeName of
        Inl err \<Rightarrow> (Some (InspectRefused err), w)
      | Inr name \<Rightarrow>
     (case client (RemoveNamedVolumeInvocation name) w of ((res, err), w) \<Rightarrow> (map_option InspectClient err, w)))"

definition securityOptionsReportRootless :: "json_lib \<Rightarrow> string \<Rightarrow> inspect_error + bool" where
  "securityOptionsReportRootless json stdout =
     (let trimmed = trim_space stdout
      in if trimmed = [] \<or> trimmed = ''null'' then Inr False
         else (case js_strings json trimmed of
                 None \<Rightarrow> Inl SecurityOptionsUnparsed
               | Some options \<Rightarrow> Inr (list_ex (\<lambda>option. equal_fold_ascii (trim_space option) ''name=rootless'') options)))"

definition IsRootlessDaemon :: "json_lib \<Rightarrow> 'w client \<Rightarrow> 'w \<Rightarrow> (inspect_error + bool) \<times> 'w" where
  "IsRootlessDaemon json client w =
     (case client InfoInvocation w of
        ((res, Some err), w) \<Rightarrow> (Inl (InspectClient err), w)
      | ((res, None), w) \<Rightarrow> (securityOptionsReportRootless json (Stdout res), w))"

subsection \<open>The order of the ports\<close>

lemma port_less_order: "port_less p q \<longleftrightarrow> port_order p < port_order q"
  by (auto simp: port_less_def port_order_def less_prod_def)

lemma port_order_inj: "inj_on port_order A"
  by (rule inj_onI) (simp add: port_order_def)

lemma sort_ports_key: "sort_ports ps = sort_key port_order ps"
proof -
  have "insert_port p qs = insort_key port_order p qs" for p qs
    by (induction qs) (auto simp: port_less_order)
  then have "insert_port = insort_key port_order" by blast
  then show ?thesis by (simp add: sort_ports_def sort_key_def)
qed

lemma sort_ports_mset: "mset ps = mset qs \<Longrightarrow> sort_ports ps = sort_ports qs"
  unfolding sort_ports_key by (rule sort_key_inj_key_eq) (simp_all add: port_order_inj)

lemma foldE_collect:
  "foldE (\<lambda>acc x. bindE (f x) (\<lambda>ys. Inr (acc @ ys))) acc xs = Inr r \<longleftrightarrow>
     (\<exists>yss. list_all2 (\<lambda>x ys. f x = Inr ys) xs yss \<and> r = acc @ concat yss)"
proof (induction xs arbitrary: acc)
  case (Cons x xs)
  show ?case by (cases "f x") (auto simp: Cons.IH list_all2_Cons1 bindE_Inr)
qed auto

definition entry_ports :: "string \<times> docker_port_binding list \<Rightarrow> inspect_error + published_port list" where
  "entry_ports e = bindE (parseContainerPortKey (fst e)) (\<lambda>(containerPort, protocol).
     host_bindings containerPort protocol [] (snd e))"

lemma host_bindings_append:
  "host_bindings c p acc bs = bindE (host_bindings c p [] bs) (\<lambda>ys. Inr (acc @ ys))"
proof -
  have "foldE (\<lambda>ports binding. bindE (g binding) (\<lambda>h. Inr (ports @ [k binding h]))) (acc @ a) bs
      = bindE (foldE (\<lambda>ports binding. bindE (g binding) (\<lambda>h. Inr (ports @ [k binding h]))) a bs) (\<lambda>ys. Inr (acc @ ys))"
    for g :: "docker_port_binding \<Rightarrow> inspect_error + int" and k and a
  proof (induction bs arbitrary: a)
    case (Cons b bs)
    then show ?case by (cases "g b") simp_all
  qed simp
  from this [of _ _ "[]"] show ?thesis by (simp add: host_bindings_def)
qed

lemma collect_entries:
  "collect_ports m = foldE (\<lambda>acc e. bindE (entry_ports e) (\<lambda>ys. Inr (acc @ ys))) [] m"
proof -
  have "(\<lambda>ports (key, bindings). bindE (parseContainerPortKey key) (\<lambda>(containerPort, protocol).
       host_bindings containerPort protocol ports bindings))
     = (\<lambda>acc e. bindE (entry_ports e) (\<lambda>ys. Inr (acc @ ys)))"
  proof (rule ext, rule ext)
    fix acc and e :: "string \<times> docker_port_binding list"
    show "(case e of (key, bindings) \<Rightarrow> bindE (parseContainerPortKey key) (\<lambda>(containerPort, protocol).
       host_bindings containerPort protocol acc bindings)) = bindE (entry_ports e) (\<lambda>ys. Inr (acc @ ys))"
      using host_bindings_append [of _ _ acc]
      by (cases "parseContainerPortKey (fst e)") (auto simp: entry_ports_def split: prod.splits)
  qed
  then show ?thesis by (simp add: collect_ports_def)
qed

lemma collect_perm:
  assumes "mset m = mset m'" "collect_ports m = Inr ps"
  shows "\<exists>ps'. collect_ports m' = Inr ps' \<and> mset ps' = mset ps"
proof -
  define g where "g e = (case entry_ports e of Inr ys \<Rightarrow> ys | Inl err \<Rightarrow> [])" for e
  have iff: "collect_ports l = Inr r \<longleftrightarrow> (\<forall>e \<in> set l. \<exists>ys. entry_ports e = Inr ys) \<and> r = concat (map g l)" for l r
  proof -
    have "list_all2 (\<lambda>x ys. entry_ports x = Inr ys) l yss \<longleftrightarrow>
        (\<forall>e \<in> set l. \<exists>ys. entry_ports e = Inr ys) \<and> yss = map g l" for yss
      by (induction l arbitrary: yss) (auto simp: list_all2_Cons1 g_def)
    then show ?thesis by (auto simp: collect_entries foldE_collect)
  qed
  from assms have "collect_ports m' = Inr (concat (map g m'))"
    unfolding iff using mset_eq_setD by blast
  moreover have "mset (concat (map g m')) = mset ps"
  proof -
    have "mset (concat (map g l)) = \<Sum>\<^sub># (image_mset (\<lambda>e. mset (g e)) (mset l))" for l
      by (induction l) simp_all
    with assms show ?thesis by (simp add: iff)
  qed
  ultimately show ?thesis by blast
qed

text \<open>
  The ports of a container do not depend on the order in which Go walks the decoded map: for two decodings
  with the same entries the parser accepts both or neither, and the accepted lists are equal.
\<close>

lemma docker_ports_order:
  assumes "js_ports json1 raw = Some m1" "js_ports json2 raw = Some m2" "mset m1 = mset m2"
  shows "parseDockerPorts json1 raw = Inr ps \<longleftrightarrow> parseDockerPorts json2 raw = Inr ps"
proof -
  have half: "parseDockerPorts j' raw = Inr ps"
    if "parseDockerPorts j raw = Inr ps" "js_ports j raw = Some m" "js_ports j' raw = Some m'" "mset m = mset m'" for j j' m m'
  proof (cases "m = []")
    case True
    with that show ?thesis by (simp add: parseDockerPorts_def decodeInspectJSONField_def)
  next
    case False
    with that have "m' \<noteq> []" by auto
    from that False obtain qs where q: "collect_ports m = Inr qs" "ps = sort_ports qs"
      by (auto simp: parseDockerPorts_def decodeInspectJSONField_def bindE_Inr)
    from collect_perm [OF that(4) q(1)] obtain qs' where "collect_ports m' = Inr qs'" "mset qs' = mset qs" by blast
    with \<open>m' \<noteq> []\<close> q(2) that(3) sort_ports_mset [of qs' qs] show ?thesis
      by (simp add: parseDockerPorts_def decodeInspectJSONField_def)
  qed
  from half [OF _ assms] half [OF _ assms(2,1) assms(3) [symmetric]] show ?thesis by blast
qed

definition demo_ports_json :: "(string, docker_port_binding list) gomap \<Rightarrow> json_lib" where
  "demo_ports_json m = \<lparr>js_string = Some, js_labels = (\<lambda>s. Some []), js_bool = (\<lambda>s. Some True), js_int = atoi,
     js_ports = (\<lambda>s. Some m), js_strings = (\<lambda>s. None)\<rparr>"

lemma demo_atoi: "atoi ''8080'' = Some 8080" "atoi ''80'' = Some 80" "atoi ''53'' = Some 53"
  by (simp_all add: go_eval)

lemma demo_port_keys: "parseContainerPortKey ''80/tcp'' = Inr (80, ''tcp'')" "parseContainerPortKey ''53/udp'' = Inr (53, ''udp'')"
  by (simp_all add: parseContainerPortKey_def cut_def parsePortNumber_def demo_atoi)

lemma docker_ports_order_witness:
  "parseDockerPorts (demo_ports_json [(''80/tcp'', [\<lparr>dp_host_ip = [], dp_host_port = ''8080''\<rparr>]), (''53/udp'', [])]) ''{}''
     = Inr [\<lparr>pp_host_ip = [], pp_host_port = 8080, pp_container_port = 80, pp_protocol = ''tcp''\<rparr>]
   \<and> parseDockerPorts (demo_ports_json [(''53/udp'', []), (''80/tcp'', [\<lparr>dp_host_ip = [], dp_host_port = ''8080''\<rparr>])]) ''{}''
     = Inr [\<lparr>pp_host_ip = [], pp_host_port = 8080, pp_container_port = 80, pp_protocol = ''tcp''\<rparr>]"
proof -
  define a where "a = (''80/tcp'', [\<lparr>dp_host_ip = [], dp_host_port = ''8080''\<rparr>])"
  define b :: "string \<times> docker_port_binding list" where "b = (''53/udp'', [])"
  have j: "js_ports (demo_ports_json m) ''{}'' = Some m" for m by (simp add: demo_ports_json_def)
  have r: "parseDockerPorts (demo_ports_json [a, b]) ''{}''
      = Inr [\<lparr>pp_host_ip = [], pp_host_port = 8080, pp_container_port = 80, pp_protocol = ''tcp''\<rparr>]"
    unfolding parseDockerPorts_def decodeInspectJSONField_def j a_def b_def
    by (simp add: collect_ports_def demo_port_keys host_bindings_def parsePortNumber_def demo_atoi sort_ports_def)
  have "mset [a, b] = mset [b, a]" by simp
  from iffD1 [OF docker_ports_order [OF j j this] r] r show ?thesis unfolding a_def b_def by (intro conjI)
qed

end
