(* ===== verification/Stack_Status.thy ===== *)
theory Stack_Status
  imports Port_Ranges Docker_Inspect Security_Paths Install_Plan
begin

text \<open>
  The runtime status of a managed stack: \<open>internal/core/status.go\<close>, the post-install verification of
  \<open>install_phase_verify.go\<close> and the list summary of \<open>list_status.go\<close>. What Docker reports, the manifest
  and the probe of the runtime lock are arguments.
\<close>

subsection \<open>Data\<close>

record service_status =
  ss_service :: string
  ss_container_name :: string
  ss_state :: string
  ss_health :: string
  ss_needs_attention :: bool
  ss_message :: string
  ss_published_ports :: "port_binding list"

record app_status =
  as_app_id :: string
  as_state :: string
  as_message :: string
  as_compose_project :: string
  as_stack_path :: string
  as_needs_attention :: bool
  as_attention_reasons :: "string list"
  as_services :: "service_status list"
  as_local_ports :: "port_binding list"
  as_updated_at :: "int option"

text \<open>The part of the manifest \<open>.wdm.lock\<close> that the status reads.\<close>

text \<open>\<open>state.ImagePin\<close>, \<open>types.Operation\<close> and \<open>state.StackLock\<close>; times are in nanoseconds.\<close>

record lock_pin =
  lp_service :: string
  lp_image :: string
  lp_tag :: string
  lp_digest :: string

record operation =
  op_kind :: string
  op_at :: int
  op_wdm_version :: string

record stack_lock =
  lk_schema_version :: int
  lk_app_id :: string
  lk_template_name :: string
  lk_template_version :: string
  lk_catalog_channel :: string
  lk_catalog_version :: string
  lk_stack_path :: string
  lk_selected_domain :: string
  lk_local_ports :: "int list"
  lk_compose_project :: string
  lk_image_pins :: "lock_pin list"
  lk_generated_fields :: "string list"
  lk_last_successful_operation :: "operation option"
  lk_backup_history :: "string list"
  lk_recommended_resources :: "recommended_resources option"
  lk_completed_services :: "string list"

definition statusStateRunning :: string where "statusStateRunning = ''running''"
definition statusStateNeedsAttention :: string where "statusStateNeedsAttention = ''needs_attention''"
definition statusStateStopped :: string where "statusStateStopped = ''stopped''"
definition statusStateCompleted :: string where "statusStateCompleted = ''completed''"

definition statusReasonContainerMissing :: string where "statusReasonContainerMissing = ''container_missing''"
definition statusReasonContainerExited :: string where "statusReasonContainerExited = ''container_exited''"
definition statusReasonRestartLoop :: string where "statusReasonRestartLoop = ''restart_loop''"
definition statusReasonUnhealthy :: string where "statusReasonUnhealthy = ''unhealthy''"
definition statusReasonPortMismatch :: string where "statusReasonPortMismatch = ''port_mismatch''"
definition statusReasonComposeValidationFailed :: string where
  "statusReasonComposeValidationFailed = ''compose_validation_failed''"
definition statusReasonLastOperationFailed :: string where
  "statusReasonLastOperationFailed = ''last_operation_failed''"
definition statusReasonStaleRuntimeLock :: string where "statusReasonStaleRuntimeLock = ''stale_runtime_lock''"
definition statusReasonStatusCheckFailed :: string where
  "statusReasonStatusCheckFailed = ''status_check_failed''"

lemmas reason_defs = statusReasonContainerMissing_def statusReasonContainerExited_def
  statusReasonRestartLoop_def statusReasonUnhealthy_def statusReasonPortMismatch_def
  statusReasonComposeValidationFailed_def statusReasonLastOperationFailed_def
  statusReasonStaleRuntimeLock_def statusReasonStatusCheckFailed_def

lemmas state_defs = statusStateRunning_def statusStateNeedsAttention_def statusStateStopped_def
  statusStateCompleted_def

subsection \<open>Containers of a stack\<close>

text \<open>\<open>map[string]docker.ContainerInfo\<close>: the first container of a service keeps its place.\<close>

type_synonym managed = "(string, container_info) gomap"

definition is_managed :: "string \<Rightarrow> container_info \<Rightarrow> bool" where
  "is_managed appID c \<longleftrightarrow>
     get_or [] (ci_labels c) ''wdm.managed'' = ''true'' \<and> get_or [] (ci_labels c) ''wdm.app'' = appID"

definition index_container :: "string \<Rightarrow> managed \<Rightarrow> container_info \<Rightarrow> managed" where
  "index_container appID managed c =
     (if get_or [] (ci_labels c) ''wdm.managed'' \<noteq> ''true'' \<or> get_or [] (ci_labels c) ''wdm.app'' \<noteq> appID
      then managed
      else if map_of managed (ci_service c) \<noteq> None then managed
      else AList.update (ci_service c) c managed)"

definition index_containers :: "string \<Rightarrow> container_info list \<Rightarrow> managed" where
  "index_containers appID containers = foldl (index_container appID) [] containers"

definition runningManagedCount :: "managed \<Rightarrow> nat" where
  "runningManagedCount managed =
     length (filter (\<lambda>(_, c). cs_running (ci_state c) \<or> cs_restarting (ci_state c)) managed)"

definition expectedStatusServices :: "stack_lock \<Rightarrow> string list" where
  "expectedStatusServices lock =
     sort (remdups (filter (\<lambda>s. s \<noteq> []) (map lp_service (lk_image_pins lock))))"

definition publishedPortBindings :: "container_info \<Rightarrow> port_binding list" where
  "publishedPortBindings c =
     map (\<lambda>p. \<lparr>pb_service = ci_service c, pb_host_ip = pp_host_ip p, pb_host_port = pp_host_port p,
       pb_container_port = pp_container_port p, pb_protocol = pp_protocol p\<rparr>) (ci_ports c)"

definition observedLocalPorts :: "managed \<Rightarrow> port_binding list" where
  "observedLocalPorts managed =
     concat (map (\<lambda>s. case map_of managed s of None \<Rightarrow> [] | Some c \<Rightarrow> publishedPortBindings c)
       (sorted_keys managed))"

definition lockPortsMismatch :: "int list \<Rightarrow> managed \<Rightarrow> bool" where
  "lockPortsMismatch lockPorts managed =
     (if lockPorts = [] then False
      else let published = concat (map (\<lambda>(_, c). map pp_host_port (ci_ports c)) managed)
           in list_ex (\<lambda>p. p \<notin> set published) lockPorts)"

subsection \<open>The fusion\<close>

text \<open>One service: its entry and the reason it raises.\<close>

definition fuse_service ::
  "string list \<Rightarrow> managed \<Rightarrow> string \<Rightarrow> service_status \<times> string option" where
  "fuse_service completed managed service =
     (case map_of managed service of
        None \<Rightarrow>
          (\<lparr>ss_service = service, ss_container_name = [], ss_state = ''missing'', ss_health = [],
            ss_needs_attention = True, ss_message = ''managed container is missing'', ss_published_ports = []\<rparr>,
           Some statusReasonContainerMissing)
      | Some c \<Rightarrow>
         (let st = ci_state c;
              base = \<lparr>ss_service = service, ss_container_name = ci_name c, ss_state = cs_status st,
                ss_health = cs_health st, ss_needs_attention = False, ss_message = [],
                ss_published_ports = publishedPortBindings c\<rparr>
          in if cs_restarting st
             then (base\<lparr>ss_needs_attention := True, ss_message := ''container is in a restart loop''\<rparr>,
                   Some statusReasonRestartLoop)
             else if \<not> cs_running st
             then (if service \<in> set completed \<and> equal_fold_ascii (cs_status st) ''exited'' \<and> cs_exit_code st = 0
                   then (base\<lparr>ss_state := statusStateCompleted\<rparr>, None)
                   else (base\<lparr>ss_needs_attention := True,
                           ss_message := ''container exited unexpectedly (exit code '' @ itoa (cs_exit_code st) @ '')''\<rparr>,
                         Some statusReasonContainerExited))
             else if equal_fold_ascii (cs_health st) ''unhealthy''
             then (base\<lparr>ss_needs_attention := True, ss_message := ''container healthcheck reports unhealthy''\<rparr>,
                   Some statusReasonUnhealthy)
             else (base, None)))"

definition fused_services :: "string list \<Rightarrow> managed \<Rightarrow> string list" where
  "fused_services expected managed =
     sort (expected @ filter (\<lambda>s. s \<notin> set expected) (map fst managed))"

definition fuseManagedServiceStatuses ::
  "string \<Rightarrow> string list \<Rightarrow> string list \<Rightarrow> container_info list \<Rightarrow> app_status
     \<Rightarrow> app_status \<times> managed \<times> string set" where
  "fuseManagedServiceStatuses appID expected completed containers status =
     (let managed = index_containers appID containers;
          fused = map (fuse_service completed managed) (fused_services expected managed);
          reasons = {r. Some r \<in> set (map snd fused)}
            \<union> (if expected = [] \<and> managed = [] then {statusReasonContainerMissing} else {})
      in (status\<lparr>as_services := as_services status @ map fst fused\<rparr>, managed, reasons))"

definition finalizeStatus :: "app_status \<Rightarrow> string set \<Rightarrow> string \<Rightarrow> string \<Rightarrow> app_status" where
  "finalizeStatus status reasons runningMessage attentionMessage =
     (if reasons = {} then status\<lparr>as_state := statusStateRunning, as_message := runningMessage\<rparr>
      else status\<lparr>as_state := statusStateNeedsAttention, as_needs_attention := True,
             as_attention_reasons := sorted_list_of_set reasons, as_message := attentionMessage\<rparr>)"

definition isFullyStopped :: "string list \<Rightarrow> string list \<Rightarrow> managed \<Rightarrow> bool" where
  "isFullyStopped expected completed managed =
     (if expected = [] \<or> managed = [] then False
      else if completed \<noteq> [] then False
      else if runningManagedCount managed > 0 then False
      else list_all (\<lambda>s. map_of managed s \<noteq> None) expected)"

definition applyStoppedState :: "app_status \<Rightarrow> string list \<Rightarrow> string list \<Rightarrow> managed \<Rightarrow> app_status" where
  "applyStoppedState status expected completed managed =
     (if \<not> isFullyStopped expected completed managed then status
      else status\<lparr>as_state := statusStateStopped, as_needs_attention := False, as_attention_reasons := [],
             as_message := ''all managed containers are stopped''\<rparr>)"

subsection \<open>What the fusion sees\<close>

text \<open>The container that stands for a service: the first one that carries both ownership labels.\<close>

definition stands_for :: "string \<Rightarrow> container_info list \<Rightarrow> string \<Rightarrow> container_info option" where
  "stands_for appID containers s = List.find (\<lambda>c. is_managed appID c \<and> ci_service c = s) containers"

lemma index_fold:
  "map_of (foldl (index_container appID) m cs) s
     = (case map_of m s of Some c \<Rightarrow> Some c | None \<Rightarrow> stands_for appID cs s)"
proof (induction cs arbitrary: m)
  case Nil
  then show ?case by (simp add: stands_for_def split: option.splits)
next
  case (Cons c cs)
  show ?case
    unfolding foldl_Cons Cons.IH
    by (auto simp: index_container_def stands_for_def is_managed_def split: option.splits)
qed

lemma index_lookup: "map_of (index_containers appID cs) s = stands_for appID cs s"
  by (simp add: index_containers_def index_fold)

lemma index_distinct: "distinct (map fst (index_containers appID cs))"
proof -
  have "distinct (map fst m) \<Longrightarrow> distinct (map fst (foldl (index_container appID) m cs))" for m
    by (induction cs arbitrary: m) (auto simp: index_container_def distinct_update)
  from this [of "[]"] show ?thesis by (simp add: index_containers_def)
qed

lemma index_keys: "keys_of (index_containers appID cs) = {s. stands_for appID cs s \<noteq> None}"
  by (auto simp: keys_of_iff index_lookup)

lemma index_empty: "index_containers appID cs = [] \<longleftrightarrow> (\<forall>c \<in> set cs. \<not> is_managed appID c)"
proof -
  have "index_containers appID cs = [] \<longleftrightarrow> (\<forall>s. stands_for appID cs s = None)"
    by (metis index_lookup map_of_eq_empty_iff map_of.simps(1) ext)
  then show ?thesis by (auto simp: stands_for_def find_None_iff)
qed

lemma set_fused: "set (fused_services expected m) = set expected \<union> keys_of m"
  by (auto simp: fused_services_def keys_of_def)

text \<open>The conditions of a service's container.\<close>

definition in_restart_loop :: "container_info \<Rightarrow> bool" where
  "in_restart_loop c \<longleftrightarrow> cs_restarting (ci_state c)"

definition exited_badly :: "string list \<Rightarrow> string \<Rightarrow> container_info \<Rightarrow> bool" where
  "exited_badly completed s c \<longleftrightarrow> \<not> cs_restarting (ci_state c) \<and> \<not> cs_running (ci_state c)
     \<and> \<not> (s \<in> set completed \<and> equal_fold_ascii (cs_status (ci_state c)) ''exited'' \<and> cs_exit_code (ci_state c) = 0)"

definition is_unhealthy :: "container_info \<Rightarrow> bool" where
  "is_unhealthy c \<longleftrightarrow> \<not> cs_restarting (ci_state c) \<and> cs_running (ci_state c)
     \<and> equal_fold_ascii (cs_health (ci_state c)) ''unhealthy''"

lemma fuse_service_reason:
  "snd (fuse_service completed m s) = Some r \<longleftrightarrow>
     (r = statusReasonContainerMissing \<and> map_of m s = None)
     \<or> (\<exists>c. map_of m s = Some c \<and> (r = statusReasonRestartLoop \<and> in_restart_loop c
          \<or> r = statusReasonContainerExited \<and> exited_badly completed s c
          \<or> r = statusReasonUnhealthy \<and> is_unhealthy c))"
  by (auto simp: fuse_service_def Let_def in_restart_loop_def exited_badly_def is_unhealthy_def
      split: option.splits)

lemma fuse_service_attention:
  "ss_needs_attention (fst (fuse_service completed m s)) \<longleftrightarrow> snd (fuse_service completed m s) \<noteq> None"
  by (auto simp: fuse_service_def Let_def split: option.splits)

definition container_condition ::
  "string \<Rightarrow> string list \<Rightarrow> string list \<Rightarrow> container_info list \<Rightarrow> string \<Rightarrow> bool" where
  "container_condition appID expected completed cs r \<longleftrightarrow>
     (r = statusReasonContainerMissing
        \<and> ((\<exists>s \<in> set expected. stands_for appID cs s = None)
           \<or> (expected = [] \<and> (\<forall>c \<in> set cs. \<not> is_managed appID c))))
     \<or> (\<exists>s c. stands_for appID cs s = Some c
        \<and> (r = statusReasonRestartLoop \<and> in_restart_loop c
          \<or> r = statusReasonContainerExited \<and> exited_badly completed s c
          \<or> r = statusReasonUnhealthy \<and> is_unhealthy c))"

lemma fuse_result:
  assumes "fuseManagedServiceStatuses appID expected completed cs st = (st', m, rs)"
  shows "m = index_containers appID cs"
    and "rs = {r. container_condition appID expected completed cs r}"
    and "st' = st\<lparr>as_services := as_services st @ map (\<lambda>s. fst (fuse_service completed m s)) (fused_services expected m)\<rparr>"
proof -
  let ?m = "index_containers appID cs"
  from assms show m: "m = ?m" by (simp add: fuseManagedServiceStatuses_def Let_def)
  from assms show "st' = st\<lparr>as_services := as_services st @ map (\<lambda>s. fst (fuse_service completed m s)) (fused_services expected m)\<rparr>"
    by (auto simp: fuseManagedServiceStatuses_def Let_def comp_def)
  have keys: "set (fused_services expected ?m) = set expected \<union> {s. stands_for appID cs s \<noteq> None}"
    by (simp add: set_fused index_keys)
  have "r \<in> rs \<longleftrightarrow> container_condition appID expected completed cs r" for r
  proof -
    have "r \<in> rs \<longleftrightarrow> (\<exists>s \<in> set (fused_services expected ?m). snd (fuse_service completed ?m s) = Some r)
        \<or> (expected = [] \<and> ?m = [] \<and> r = statusReasonContainerMissing)"
    proof -
      have "rs = {r. Some r \<in> set (map snd (map (fuse_service completed ?m) (fused_services expected ?m)))}
          \<union> (if expected = [] \<and> ?m = [] then {statusReasonContainerMissing} else {})"
        using assms unfolding fuseManagedServiceStatuses_def Let_def prod.inject by (elim conjE) (erule sym)
      moreover have "Some r \<in> set (map snd (map (fuse_service completed ?m) xs))
          \<longleftrightarrow> (\<exists>s \<in> set xs. snd (fuse_service completed ?m s) = Some r)" for xs
        by (induction xs) auto
      ultimately show ?thesis by auto
    qed
    then show ?thesis
      unfolding fuse_service_reason index_lookup keys index_empty container_condition_def by auto
  qed
  then show "rs = {r. container_condition appID expected completed cs r}" by blast
qed

lemma container_condition_reasons:
  "container_condition appID expected completed cs r \<Longrightarrow>
     r \<in> {statusReasonContainerMissing, statusReasonContainerExited, statusReasonRestartLoop, statusReasonUnhealthy}"
  by (auto simp: container_condition_def)

lemma container_conditions_finite: "finite {r. container_condition appID expected completed cs r}"
  by (rule finite_subset [of _ "{statusReasonContainerMissing, statusReasonContainerExited,
      statusReasonRestartLoop, statusReasonUnhealthy}"]) (use container_condition_reasons in blast, simp)

lemma running_count: "runningManagedCount m > 0 \<longleftrightarrow>
    (\<exists>s c. (s, c) \<in> set m \<and> (cs_running (ci_state c) \<or> cs_restarting (ci_state c)))"
  by (auto simp: runningManagedCount_def filter_empty_conv)

text \<open>No container that stands for a service runs, and every expected service has one.\<close>

lemma fully_stopped:
  "isFullyStopped expected completed (index_containers appID cs) \<longleftrightarrow>
     expected \<noteq> [] \<and> completed = [] \<and> (\<forall>s \<in> set expected. stands_for appID cs s \<noteq> None)
     \<and> (\<forall>s c. stands_for appID cs s = Some c \<longrightarrow> \<not> cs_running (ci_state c) \<and> \<not> cs_restarting (ci_state c))"
proof -
  have "(s, c) \<in> set (index_containers appID cs) \<longleftrightarrow> stands_for appID cs s = Some c" for s c
    using map_of_eq_Some_iff [OF index_distinct] by (simp add: index_lookup)
  then have "\<not> runningManagedCount (index_containers appID cs) > 0 \<longleftrightarrow>
      (\<forall>s c. stands_for appID cs s = Some c \<longrightarrow> \<not> cs_running (ci_state c) \<and> \<not> cs_restarting (ci_state c))"
    unfolding running_count by auto
  moreover have "expected \<noteq> [] \<Longrightarrow> \<forall>s \<in> set expected. stands_for appID cs s \<noteq> None \<Longrightarrow> index_containers appID cs \<noteq> []"
    by (metis index_lookup list.set_sel(1) map_of.simps(1))
  ultimately show ?thesis
    unfolding isFullyStopped_def index_lookup list_all_iff by auto
qed

end
