(* ===== verification/Stack_Lookup.thy ===== *)
theory Stack_Lookup
  imports Stack_Status
begin

text \<open>
  How a managed stack is found: \<open>resolveManagedStack\<close>, \<open>readManagedStackLock\<close> and
  \<open>findManagedStackByAppID\<close> of \<open>internal/core/status.go\<close>, \<open>installStackPathExists\<close> and
  \<open>validateInstallPathAncestors\<close> of \<open>install_phase_write.go\<close>, and \<open>perStackOp\<close> of
  \<open>lifecycle_shared.go\<close>. The file system is an argument.
\<close>

subsection \<open>What the file system says\<close>

datatype file_kind = Directory | Symlink | RegularFile | OtherFile

text \<open>
  The outcome of \<open>state.TryReadStackLock\<close> and of \<open>state.ReadStackLock\<close>, which waits for the file lock instead of
  being busy, by the sentinel the error wraps.
\<close>

datatype lock_read =
    LockRead stack_lock
  | LockBusy
  | LockCorrupt
  | LockMissing
  | LockReadFailed string

text \<open>The outcome of \<open>state.AcquireStackLock\<close>: the held manifest, none when the file was created empty.\<close>

datatype lock_acquired = LockHeld "stack_lock option" | LockNotAcquired string

record stack_fs =
  lstat :: "string \<Rightarrow> os_error + file_kind"
  read_dir :: "string \<Rightarrow> os_error + (string \<times> bool) list"
  try_read_lock :: "string \<Rightarrow> lock_read"
  read_lock :: "string \<Rightarrow> lock_read"
  acquire_lock :: "string \<Rightarrow> lock_acquired"

datatype lookup_reason =
    AppIdRequired
  | AppIdUnsafe path_error
  | StackRootUnsafe path_error
  | AncestorUnreadable string os_error
  | AncestorSymlink string
  | AncestorNotDirectory string
  | StackDirUnreadable os_error
  | StackDirSymlink string
  | StackDirNotDirectory string
  | LockUnreadable os_error
  | LockSymlink string
  | LockNotRegular string
  | LockIsBusy
  | LockIsCorrupt
  | LockUnread string
  | StackBaseUnreadable os_error
  | StackNotManaged string
  | AppNotInstalled string
  | NoLongerInstalled
  | ManagedForOther string
  | ComposeProjectMissing
  | StackFileUnsafe path_error
  | DockerReason run_error

type_synonym lookup_error = "lookup_reason wdm_error"

subsection \<open>The stack directory\<close>

fun check_ancestors :: "stack_fs \<Rightarrow> string \<Rightarrow> string list \<Rightarrow> lookup_reason option" where
  "check_ancestors fs currentPath [] = None"
| "check_ancestors fs currentPath (w # ws) =
     (if w = [] \<or> w = ''.'' then check_ancestors fs currentPath ws
      else let cur = path_join currentPath w
           in case lstat fs cur of
                Inl err \<Rightarrow> (if err = NotExist then None else Some (AncestorUnreadable cur err))
              | Inr Symlink \<Rightarrow> Some (AncestorSymlink cur)
              | Inr Directory \<Rightarrow> check_ancestors fs cur ws
              | Inr _ \<Rightarrow> Some (AncestorNotDirectory cur))"

definition validateInstallPathAncestors :: "stack_fs \<Rightarrow> string \<Rightarrow> lookup_reason option" where
  "validateInstallPathAncestors fs path =
     (let parentPath = path_dir (path_clean path)
      in if parentPath = ''.'' \<or> parentPath = ''/'' then None
         else check_ancestors fs ''/'' (split_on (CHR ''/'') (trim_prefix parentPath ''/'')))"

definition installStackPathExists :: "stack_fs \<Rightarrow> string \<Rightarrow> lookup_error + bool" where
  "installStackPathExists fs stackPath =
     (case RejectUnsafeRoot stackPath of
        Some e \<Rightarrow> Inl (UsageValidation (StackRootUnsafe e))
      | None \<Rightarrow>
     (case validateInstallPathAncestors fs stackPath of
        Some r \<Rightarrow> Inl (UsageValidation r)
      | None \<Rightarrow>
     (case lstat fs stackPath of
        Inl err \<Rightarrow> (if err = NotExist then Inr False else Inl (Coded ErrCodeGeneric (StackDirUnreadable err)))
      | Inr Symlink \<Rightarrow> Inl (UsageValidation (StackDirSymlink stackPath))
      | Inr Directory \<Rightarrow> Inr True
      | Inr _ \<Rightarrow> Inl (UsageValidation (StackDirNotDirectory stackPath)))))"

definition installLockFilename :: string where
  "installLockFilename = ''.wdm.lock''"

text \<open>\<open>None\<close> on the right is the wrapped \<open>fs.ErrNotExist\<close>: a directory without a manifest.\<close>

definition readManagedStackLock :: "stack_fs \<Rightarrow> string \<Rightarrow> lookup_error + stack_lock option" where
  "readManagedStackLock fs stackDir =
     (let lockPath = path_join stackDir installLockFilename
      in case lstat fs lockPath of
           Inl err \<Rightarrow>
             (if err = NotExist then Inr None else Inl (Coded ErrCodeGeneric (LockUnreadable err)))
         | Inr Symlink \<Rightarrow> Inl (UsageValidation (LockSymlink lockPath))
         | Inr RegularFile \<Rightarrow>
             (case try_read_lock fs lockPath of
                LockRead lock \<Rightarrow> Inr (Some lock)
              | LockBusy \<Rightarrow> Inl (Coded ErrCodeRuntimeLockHeld LockIsBusy)
              | LockCorrupt \<Rightarrow> Inl (Coded ErrCodeGeneric LockIsCorrupt)
              | LockMissing \<Rightarrow> Inr None
              | LockReadFailed s \<Rightarrow> Inl (Coded ErrCodeGeneric (LockUnread s)))
         | Inr _ \<Rightarrow> Inl (UsageValidation (LockNotRegular lockPath)))"

subsection \<open>Resolution\<close>

fun scan_entries ::
  "stack_fs \<Rightarrow> string \<Rightarrow> string \<Rightarrow> string \<Rightarrow> (string \<times> bool) list \<Rightarrow> (string \<times> stack_lock) option" where
  "scan_entries fs base appID candidate [] = None"
| "scan_entries fs base appID candidate ((name, isDir) # es) =
     (if \<not> isDir then scan_entries fs base appID candidate es
      else let stackDir = path_join base name
           in if stackDir = path_clean candidate then scan_entries fs base appID candidate es
              else case try_read_lock fs (path_join stackDir installLockFilename) of
                     LockRead lock \<Rightarrow>
                       (if lk_app_id lock \<noteq> appID then scan_entries fs base appID candidate es
                        else Some (stackDir, lock))
                   | _ \<Rightarrow> scan_entries fs base appID candidate es)"

definition findManagedStackByAppID ::
  "stack_fs \<Rightarrow> string \<Rightarrow> string \<Rightarrow> string \<Rightarrow> lookup_error + (string \<times> stack_lock) option" where
  "findManagedStackByAppID fs base appID candidate =
     (case read_dir fs base of
        Inl err \<Rightarrow> (if err = NotExist then Inr None else Inl (Coded ErrCodeGeneric (StackBaseUnreadable err)))
      | Inr entries \<Rightarrow> Inr (scan_entries fs base appID candidate entries))"

definition resolveManagedStack :: "stack_fs \<Rightarrow> string \<Rightarrow> string \<Rightarrow> lookup_error + (string \<times> stack_lock)" where
  "resolveManagedStack fs base appID =
     (case SafeJoin base appID of
        Inl e \<Rightarrow> Inl (UsageValidation (AppIdUnsafe e))
      | Inr candidate \<Rightarrow>
     bindE (installStackPathExists fs candidate) (\<lambda>candidateExists.
     bindE (if candidateExists
            then bindE (readManagedStackLock fs candidate) (\<lambda>l. Inr (case l of
                   None \<Rightarrow> None
                 | Some lock \<Rightarrow> if lk_app_id lock = appID then Some (candidate, lock) else None))
            else Inr None) (\<lambda>here.
       (case here of
          Some found \<Rightarrow> Inr found
        | None \<Rightarrow>
            bindE (findManagedStackByAppID fs base appID candidate) (\<lambda>found.
              (case found of
                 Some f \<Rightarrow> Inr f
               | None \<Rightarrow>
                   (if candidateExists then Inl (UsageValidation (StackNotManaged appID))
                    else Inl (UsageValidation (AppNotInstalled appID)))))))))"

subsection \<open>One stack of a batch\<close>

definition reconfirmManagedStack :: "stack_lock option \<Rightarrow> string \<Rightarrow> lookup_error + stack_lock" where
  "reconfirmManagedStack held appID =
     (case held of
        None \<Rightarrow> Inl (UsageValidation NoLongerInstalled)
      | Some lock \<Rightarrow>
          (if lk_app_id lock \<noteq> appID then Inl (UsageValidation (ManagedForOther (lk_app_id lock)))
           else Inr lock))"

definition logsComposeProject :: "string \<Rightarrow> string \<Rightarrow> lookup_error + compose_project" where
  "logsComposeProject stackPath composeProjectName =
     (case SafeJoin stackPath installComposeFilename of
        Inl e \<Rightarrow> Inl (UsageValidation (StackFileUnsafe e))
      | Inr composePath \<Rightarrow>
     (case SafeJoin stackPath installEnvFilename of
        Inl e \<Rightarrow> Inl (UsageValidation (StackFileUnsafe e))
      | Inr envPath \<Rightarrow>
          Inr \<lparr>ComposeFile = composePath, EnvFile = envPath, ProjectName = composeProjectName\<rparr>))"

text \<open>
  The operation gets the project and the world and returns its error. The result is the project, the compose project
  name once it is known, and the error of the batch entry, \<open>None\<close> for the empty message.
\<close>

definition no_project :: compose_project where
  "no_project = \<lparr>ComposeFile = [], EnvFile = [], ProjectName = []\<rparr>"

definition perStackOp ::
  "stack_fs \<Rightarrow> string \<Rightarrow> string \<Rightarrow> (compose_project \<Rightarrow> 'w \<Rightarrow> run_error option \<times> 'w) \<Rightarrow> 'w
     \<Rightarrow> (compose_project \<times> string \<times> lookup_error option) \<times> 'w" where
  "perStackOp fs base appID dockerOp w =
     (case SafeJoin base appID of
        Inl e \<Rightarrow> ((no_project, [], Some (UsageValidation (AppIdUnsafe e))), w)
      | Inr stackPath \<Rightarrow>
     (case acquire_lock fs (path_join stackPath installLockFilename) of
        LockNotAcquired s \<Rightarrow> ((no_project, [], Some (Untyped (LockUnread s))), w)
      | LockHeld held \<Rightarrow>
     (case reconfirmManagedStack held appID of
        Inl e \<Rightarrow> ((no_project, [], Some e), w)
      | Inr lock \<Rightarrow>
          (if lk_compose_project lock = [] then ((no_project, [], Some (Untyped ComposeProjectMissing)), w)
           else (case logsComposeProject stackPath (lk_compose_project lock) of
             Inl e \<Rightarrow> ((no_project, lk_compose_project lock, Some e), w)
           | Inr project \<Rightarrow>
               (case dockerOp project w of
                  (Some err, w') \<Rightarrow> ((project, lk_compose_project lock, Some (Untyped (DockerReason err))), w')
                | (None, w') \<Rightarrow> ((project, lk_compose_project lock, None), w')))))))"

subsection \<open>A stack is managed before anything touches it\<close>

lemma scan_entries_Some:
  "scan_entries fs base appID candidate es = Some (d, lock) \<Longrightarrow>
     lk_app_id lock = appID \<and> (\<exists>name. (name, True) \<in> set es \<and> d = path_join base name)
     \<and> try_read_lock fs (path_join d installLockFilename) = LockRead lock"
proof (induction es)
  case (Cons e es)
  obtain name isDir where e: "e = (name, isDir)" by (cases e)
  consider "scan_entries fs base appID candidate es = Some (d, lock)"
    | "isDir" "d = path_join base name" "lk_app_id lock = appID"
      "try_read_lock fs (path_join d installLockFilename) = LockRead lock"
    using Cons.prems by (auto simp: e Let_def split: if_splits lock_read.splits)
  then show ?case
  proof cases
    case 1
    from Cons.IH [OF this] show ?thesis by auto
  next
    case 2
    then show ?thesis by (auto simp: e)
  qed
qed simp

lemma readManagedStackLock_Some:
  "readManagedStackLock fs d = Inr (Some lock) \<Longrightarrow>
     lstat fs (path_join d installLockFilename) = Inr RegularFile
     \<and> try_read_lock fs (path_join d installLockFilename) = LockRead lock"
  by (auto simp: readManagedStackLock_def Let_def split: sum.splits if_splits file_kind.splits lock_read.splits)

lemma resolve_cases:
  assumes "resolveManagedStack fs base appID = Inr (d, lock)"
  shows "SafeJoin base appID = Inr d \<and> lk_app_id lock = appID
       \<and> try_read_lock fs (path_join d installLockFilename) = LockRead lock
    \<or> (\<exists>name es. read_dir fs base = Inr es \<and> (name, True) \<in> set es \<and> d = path_join base name
       \<and> lk_app_id lock = appID \<and> try_read_lock fs (path_join d installLockFilename) = LockRead lock)"
proof -
  from assms obtain candidate ex here where c: "SafeJoin base appID = Inr candidate"
    "installStackPathExists fs candidate = Inr ex"
    "(if ex then bindE (readManagedStackLock fs candidate) (\<lambda>l. Inr (case l of
        None \<Rightarrow> None | Some lock \<Rightarrow> if lk_app_id lock = appID then Some (candidate, lock) else None))
      else Inr None) = Inr here"
    "(case here of Some found \<Rightarrow> Inr found
      | None \<Rightarrow> bindE (findManagedStackByAppID fs base appID candidate) (\<lambda>found.
          (case found of Some f \<Rightarrow> Inr f
           | None \<Rightarrow> (if ex then Inl (UsageValidation (StackNotManaged appID))
                      else Inl (UsageValidation (AppNotInstalled appID)))))) = Inr (d, lock)"
    by (auto simp: resolveManagedStack_def bindE_Inr split: sum.splits)
  show ?thesis
  proof (cases here)
    case (Some f)
    with c(4) have "here = Some (d, lock)" by simp
    with c(3) have "ex" by (auto split: if_splits)
    with c(3) \<open>here = Some (d, lock)\<close> obtain l where "readManagedStackLock fs candidate = Inr (Some l)"
      "lk_app_id l = appID" "d = candidate" "lock = l"
      by (auto simp: bindE_Inr split: option.splits if_splits)
    with c(1) readManagedStackLock_Some show ?thesis by blast
  next
    case None
    with c(4) obtain es where "read_dir fs base = Inr es" "scan_entries fs base appID candidate es = Some (d, lock)"
      by (auto simp: bindE_Inr findManagedStackByAppID_def split: option.splits if_splits sum.splits)
    with scan_entries_Some show ?thesis by blast
  qed
qed

end
