(* ===== verification/Runtime_Lock.thy ===== *)
theory Runtime_Lock
  imports Go_Net
begin

text \<open>
  The global runtime lock of \<open>internal/state/runtime_lock.go\<close> and \<open>runtime_lock_clear.go\<close>: who holds it, whether
  the holder still lives, and when it may be cleared. \<open>kill(pid, 0)\<close>, \<open>/proc\<close> and the clock are
  arguments. The steps that processes take on the lock file are in the theory \<open>Lock_Protocol\<close>.
\<close>

subsection \<open>Data\<close>

text \<open>Times are instants in nanoseconds; the zero \<open>time.Time\<close> is \<open>None\<close>.\<close>

record runtime_lock_info =
  li_schema_version :: int
  li_pid :: int
  li_command :: string
  li_started_at :: "int option"
  li_started_time :: "64 word"
  li_wdm_version :: string

definition zero_info :: runtime_lock_info where
  "zero_info = \<lparr>li_schema_version = 0, li_pid = 0, li_command = [], li_started_at = None, li_started_time = 0,
     li_wdm_version = []\<rparr>"

record runtime_lock_probe =
  rp_exists :: bool
  rp_held :: bool
  rp_holder_alive :: bool
  rp_holder :: runtime_lock_info
  rp_mod_time :: "int option"

definition zero_probe :: runtime_lock_probe where
  "zero_probe = \<lparr>rp_exists = False, rp_held = False, rp_holder_alive = False, rp_holder = zero_info, rp_mod_time = None\<rparr>"

definition runtimeLockSchemaVersion :: int where
  "runtimeLockSchemaVersion = 1"

subsection \<open>Is the holder alive\<close>

definition processAlive :: "(int \<Rightarrow> os_error option) \<Rightarrow> int \<Rightarrow> bool" where
  "processAlive kill0 pid =
     (if pid \<le> 0 then False
      else (case kill0 pid of None \<Rightarrow> True | Some err \<Rightarrow> err = AccessDenied))"

text \<open>\<open>strings.Fields\<close>: the maximal runs without white space.\<close>

function fields_from :: "string \<Rightarrow> string \<Rightarrow> string list" where
  "fields_from w s =
     (case strip_any space_codes s of
        Some r \<Rightarrow> (if w = [] then fields_from [] r else rev w # fields_from [] r)
      | None \<Rightarrow> (case s of [] \<Rightarrow> if w = [] then [] else [rev w] | c # r \<Rightarrow> fields_from (c # w) r))"
  by pat_completeness auto
termination
  by (relation "measure (\<lambda>(w, s). length s)") (auto simp: strip_any_shorter)

declare fields_from.simps [simp del]

definition fields :: "string \<Rightarrow> string list" where
  "fields s = fields_from [] s"

definition parseProcStat :: "string \<Rightarrow> 64 word option" where
  "parseProcStat stat =
     (case rcut (CHR '')'') stat of
        None \<Rightarrow> None
      | Some (before, after) \<Rightarrow>
          (if after = [] then None
           else let fs = fields after
                in if length fs \<le> 19 then None else parse_uint64 (fs ! 19)))"

definition readProcessStartTimeFromProc :: "(string \<Rightarrow> os_error + string) \<Rightarrow> int \<Rightarrow> 64 word option" where
  "readProcessStartTimeFromProc readFile pid =
     (if pid \<le> 0 then None
      else (case readFile (''/proc/'' @ itoa pid @ ''/stat'') of
              Inl err \<Rightarrow> None
            | Inr raw \<Rightarrow> parseProcStat raw))"

definition holderStillAlive ::
  "(int \<Rightarrow> os_error option) \<Rightarrow> (int \<Rightarrow> 64 word option) \<Rightarrow> runtime_lock_info \<Rightarrow> bool" where
  "holderStillAlive kill0 readProcStartTime holder =
     (if \<not> processAlive kill0 (li_pid holder) then False
      else if li_started_time holder = 0 then True
      else (case readProcStartTime (li_pid holder) of
              None \<Rightarrow> True
            | Some live \<Rightarrow> live = li_started_time holder))"

subsection \<open>Staleness\<close>

definition staleRuntimeLockAge :: int where
  "staleRuntimeLockAge = 24 * 60 * 60 * 1000000000"

definition runtimeLockProbeStale :: "int \<Rightarrow> runtime_lock_probe \<Rightarrow> bool" where
  "runtimeLockProbeStale now probe =
     (if \<not> rp_held probe then False
      else if \<not> rp_holder_alive probe then True
      else (case (case li_started_at (rp_holder probe) of None \<Rightarrow> rp_mod_time probe | Some t \<Rightarrow> Some t) of
              None \<Rightarrow> False
            | Some heldSince \<Rightarrow> now - heldSince > staleRuntimeLockAge))"

text \<open>\<open>ClearStaleRuntimeLockRequest\<close>.\<close>

record clear_request =
  cr_max_held_age :: int
  cr_expected_pid :: int
  cr_expected_started_at :: "int option"
  cr_expected_started_time :: "64 word"

definition runtimeLockHolderStale ::
  "(int \<Rightarrow> os_error option) \<Rightarrow> (int \<Rightarrow> 64 word option) \<Rightarrow> int \<Rightarrow> runtime_lock_info \<Rightarrow> int \<Rightarrow> bool" where
  "runtimeLockHolderStale kill0 readProcStartTime now holder maxHeldAge =
     (if \<not> holderStillAlive kill0 readProcStartTime holder then True
      else if maxHeldAge \<le> 0 then False
      else (case li_started_at holder of None \<Rightarrow> False | Some t \<Rightarrow> now - t > maxHeldAge))"

definition holderFingerprintMatches :: "runtime_lock_info \<Rightarrow> clear_request \<Rightarrow> bool" where
  "holderFingerprintMatches holder req =
     (if cr_expected_pid req = 0 \<or> li_pid holder = 0 then False
      else if li_pid holder \<noteq> cr_expected_pid req then False
      else if li_started_at holder \<noteq> cr_expected_started_at req then False
      else li_started_time holder = cr_expected_started_time req)"

text \<open>\<open>runStaleRuntimeLockClear\<close> of \<open>internal/core/runtimelock.go\<close>: the request it makes of a probe.\<close>

definition clear_request_of :: "runtime_lock_probe \<Rightarrow> clear_request" where
  "clear_request_of probe =
     \<lparr>cr_max_held_age = staleRuntimeLockAge, cr_expected_pid = li_pid (rp_holder probe),
      cr_expected_started_at = li_started_at (rp_holder probe),
      cr_expected_started_time = li_started_time (rp_holder probe)\<rparr>"

record runtime_lock_status =
  rs_exists :: bool
  rs_held :: bool
  rs_stale :: bool
  rs_holder_pid :: int
  rs_holder_command :: string
  rs_holder_alive :: bool
  rs_started_at :: "int option"
  rs_wdm_version :: string

definition projectRuntimeLockStatus :: "int \<Rightarrow> runtime_lock_probe \<Rightarrow> runtime_lock_status" where
  "projectRuntimeLockStatus now probe =
     \<lparr>rs_exists = rp_exists probe, rs_held = rp_held probe, rs_stale = runtimeLockProbeStale now probe,
      rs_holder_pid = li_pid (rp_holder probe), rs_holder_command = li_command (rp_holder probe),
      rs_holder_alive = rp_holder_alive probe, rs_started_at = li_started_at (rp_holder probe),
      rs_wdm_version = li_wdm_version (rp_holder probe)\<rparr>"

subsection \<open>A live holder within its age is left alone\<close>

lemma live_holder_kept:
  assumes "processAlive kill0 (li_pid holder)"
    and "\<forall>live. startOf (li_pid holder) = Some live \<longrightarrow> live = li_started_time holder"
    and "\<forall>t. li_started_at holder = Some t \<longrightarrow> now - t \<le> maxHeldAge"
  shows "\<not> runtimeLockHolderStale kill0 startOf now holder maxHeldAge"
  using assms by (auto simp: runtimeLockHolderStale_def holderStillAlive_def split: option.splits)

text \<open>A recycled PID is told from the holder by its start time.\<close>

lemma recycled_pid_dead:
  "li_started_time holder \<noteq> 0 \<Longrightarrow> startOf (li_pid holder) = Some live \<Longrightarrow> live \<noteq> li_started_time holder \<Longrightarrow>
     \<not> holderStillAlive kill0 startOf holder"
  by (simp add: holderStillAlive_def)

text \<open>What the caller saw and what the writer reads again are the same holder.\<close>

lemma fingerprint_probe:
  "holderFingerprintMatches holder (clear_request_of probe) \<longleftrightarrow>
     li_pid holder \<noteq> 0 \<and> li_pid holder = li_pid (rp_holder probe)
     \<and> li_started_at holder = li_started_at (rp_holder probe)
     \<and> li_started_time holder = li_started_time (rp_holder probe)"
  by (auto simp: holderFingerprintMatches_def clear_request_of_def)

end
