(* ===== verification/Status_Report.thy ===== *)
theory Status_Report
  imports Stack_Lookup Install_Plan Runtime_Lock
begin

text \<open>
  The three surfaces of a stack's status: \<open>Engine.Status\<close>, the per-stack part of \<open>Engine.ListStatus\<close>,
  and the verification after an install.
\<close>

subsection \<open>Status\<close>

text \<open>
  What the engine holds and reads. A status only reads, so the process behind the client answers from one
  snapshot of the daemon.
\<close>

record engine_env =
  en_base :: string
  en_fs :: stack_fs
  en_files :: stack_files
  en_exec :: executor
  en_json :: json_lib
  en_probe :: "os_error + runtime_lock_probe"
  en_now :: int

datatype status_reason =
    LookupReason lookup_reason
  | StatusAppIdRequired
  | StatusDocker run_error
  | StatusInspect inspect_error
  | StatusPathUnsafe path_error
  | ProbeFailed os_error

type_synonym status_error = "status_reason wdm_error"

definition read_client :: "engine_env \<Rightarrow> unit client" where
  "read_client env i w = (Run (en_files env) [] (en_exec env) i, w)"

definition en_inspect :: "engine_env \<Rightarrow> string \<Rightarrow> inspect_error + container_info list" where
  "en_inspect env project = fst (InspectProjectContainers (en_json env) (read_client env) project ())"

text \<open>\<open>docker.ValidateComposeConfig\<close> with a client that carries no secret of an operation.\<close>

definition ValidateComposeConfig :: "engine_env \<Rightarrow> string \<Rightarrow> string \<Rightarrow> run_error option" where
  "ValidateComposeConfig env projectDir composeFile =
     (case newComposeConfigInvocation (en_files env) projectDir composeFile of
        Inl err \<Rightarrow> Some (Refused err)
      | Inr i \<Rightarrow> snd (Run (en_files env) [] (en_exec env) i))"

definition checkComposeValidation :: "engine_env \<Rightarrow> string \<Rightarrow> string set \<Rightarrow> status_error + string set" where
  "checkComposeValidation env stackPath reasons =
     (case SafeJoin stackPath installComposeFilename of
        Inl e \<Rightarrow> Inl (UsageValidation (StatusPathUnsafe e))
      | Inr composePath \<Rightarrow>
          (case ValidateComposeConfig env stackPath composePath of
             None \<Rightarrow> Inr reasons
           | Some err \<Rightarrow>
               (if run_code err = Some ErrCodeDockerUnavailable then Inl (Untyped (StatusDocker err))
                else Inr (insert statusReasonComposeValidationFailed reasons))))"

definition staleRuntimeLockCondition :: "engine_env \<Rightarrow> status_error + bool" where
  "staleRuntimeLockCondition env =
     (case en_probe env of
        Inl err \<Rightarrow> Inl (Coded ErrCodeGeneric (ProbeFailed err))
      | Inr probe \<Rightarrow> Inr (runtimeLockProbeStale (en_now env) probe))"

definition new_status :: "string \<Rightarrow> string \<Rightarrow> string \<Rightarrow> port_binding list \<Rightarrow> int option \<Rightarrow> app_status" where
  "new_status appID project stackPath ports updated =
     \<lparr>as_app_id = appID, as_state = [], as_message = [], as_compose_project = project,
      as_stack_path = stackPath, as_needs_attention = False, as_attention_reasons = [], as_services = [],
      as_local_ports = ports, as_updated_at = updated\<rparr>"

definition insert_if :: "bool \<Rightarrow> string \<Rightarrow> string set \<Rightarrow> string set" where
  "insert_if b r rs = (if b then insert r rs else rs)"

definition Status :: "engine_env \<Rightarrow> string \<Rightarrow> status_error + app_status" where
  "Status env appID =
     (if appID = [] then Inl (UsageValidation StatusAppIdRequired)
      else case resolveManagedStack (en_fs env) (en_base env) appID of
        Inl e \<Rightarrow> Inl (map_wdm_error LookupReason e)
      | Inr (stackPath, lock) \<Rightarrow>
     (case en_inspect env (lk_compose_project lock) of
        Inl err \<Rightarrow> Inl (Untyped (StatusInspect err))
      | Inr containers \<Rightarrow>
          (case fuseManagedServiceStatuses appID (expectedStatusServices lock) (lk_completed_services lock)
                  containers (new_status appID (lk_compose_project lock) stackPath [] (Some (en_now env))) of
             (status, managed, reasons) \<Rightarrow>
               (let status = status\<lparr>as_local_ports := observedLocalPorts managed\<rparr>;
                    reasons = insert_if (lockPortsMismatch (lk_local_ports lock) managed)
                      statusReasonPortMismatch reasons
                in bindE (checkComposeValidation env stackPath reasons) (\<lambda>reasons.
                   (let reasons = insert_if (lk_last_successful_operation lock = None)
                          statusReasonLastOperationFailed reasons
                    in bindE (staleRuntimeLockCondition env) (\<lambda>stale.
                       (let reasons = insert_if stale statusReasonStaleRuntimeLock reasons;
                            status = finalizeStatus status reasons ''all managed services are running''
                              ''status checks found issues that need attention''
                        in Inr (applyStoppedState status (expectedStatusServices lock)
                             (lk_completed_services lock) managed)))))))))"

subsection \<open>List summary\<close>

record app_runtime_status =
  ar_app_id :: string
  ar_state :: string
  ar_needs_attention :: bool
  ar_attention_reasons :: "string list"

definition applyRuntimeReason :: "app_runtime_status \<Rightarrow> string \<Rightarrow> app_runtime_status" where
  "applyRuntimeReason summary reason =
     summary\<lparr>ar_state := statusStateNeedsAttention, ar_needs_attention := True, ar_attention_reasons := [reason]\<rparr>"

definition summarizeAppRuntime :: "engine_env \<Rightarrow> string \<Rightarrow> string \<Rightarrow> inspect_error + app_runtime_status" where
  "summarizeAppRuntime env appID stackPath =
     (let summary = \<lparr>ar_app_id = appID, ar_state = [], ar_needs_attention = False, ar_attention_reasons = []\<rparr>
      in case readManagedStackLock (en_fs env) stackPath of
           Inl e \<Rightarrow> Inr (applyRuntimeReason summary statusReasonStatusCheckFailed)
         | Inr None \<Rightarrow> Inr (applyRuntimeReason summary statusReasonContainerMissing)
         | Inr (Some lock) \<Rightarrow>
             (case en_inspect env (lk_compose_project lock) of
                Inl err \<Rightarrow> Inl err
              | Inr containers \<Rightarrow>
                  (let expected = expectedStatusServices lock; completed = lk_completed_services lock
                   in case fuseManagedServiceStatuses appID expected completed containers (new_status [] [] [] [] None) of
                        (scratch, managed, reasons) \<Rightarrow>
                          (let reasons = insert_if (lockPortsMismatch (lk_local_ports lock) managed)
                                 statusReasonPortMismatch reasons;
                               reasons = insert_if (lk_last_successful_operation lock = None)
                                 statusReasonLastOperationFailed reasons;
                               scratch = applyStoppedState (finalizeStatus scratch reasons [] []) expected completed managed
                           in Inr (summary\<lparr>ar_state := as_state scratch,
                                ar_needs_attention := as_needs_attention scratch,
                                ar_attention_reasons := as_attention_reasons scratch\<rparr>)))))"

subsection \<open>After an install\<close>

text \<open>The key \<open>fmt.Sprintf("%s/%d", protocol, port)\<close>.\<close>

definition port_key :: "string \<Rightarrow> int \<Rightarrow> string" where
  "port_key protocol port = protocol @ ''/'' @ itoa port"

definition fuseInstallStatus :: "install_plan \<Rightarrow> container_info list \<Rightarrow> app_status \<Rightarrow> app_status" where
  "fuseInstallStatus plan containers status =
     (let services = sorted_keys (service_labels (plan_rendered plan))
      in case fuseManagedServiceStatuses (app_id (plan_app plan)) services
              (app_completed_services (plan_app plan)) containers status of
           (status, managed, reasons) \<Rightarrow>
             (let published = concat (map (\<lambda>(_, c). map (\<lambda>p. port_key (pp_protocol p) (pp_host_port p)) (ci_ports c)) managed);
                  reasons = insert_if
                    (list_ex (\<lambda>b. port_key (pb_protocol b) (pb_host_port b) \<notin> set published) (local_ports plan))
                    statusReasonPortMismatch reasons
              in finalizeStatus status reasons ''all managed services are running''
                   ''post-install verification found issues; run apps status for details''))"

definition verifyInstallStatus :: "json_lib \<Rightarrow> 'w client \<Rightarrow> int \<Rightarrow> install_plan \<Rightarrow> 'w \<Rightarrow> app_status \<times> 'w" where
  "verifyInstallStatus json client now plan w =
     (let status = new_status (app_id (plan_app plan)) (compose_project plan) (stack_path plan) (local_ports plan) (Some now)
      in case InspectProjectContainers json client (compose_project plan) w of
           (Inl err, w) \<Rightarrow> (status\<lparr>as_state := statusStateNeedsAttention, as_needs_attention := True,
             as_attention_reasons := [statusReasonStatusCheckFailed],
             as_message := ''post-install status verification failed; run apps status for details''\<rparr>, w)
         | (Inr containers, w) \<Rightarrow> (fuseInstallStatus plan containers status, w))"

record install_result =
  ir_app_id :: string
  ir_stack_path :: string
  ir_compose_project :: string
  ir_started_services :: "string list"
  ir_local_ports :: "port_binding list"
  ir_guidance :: "post_install_guidance option"
  ir_status :: app_status

definition buildInstallResult :: "install_plan \<Rightarrow> app_status \<Rightarrow> install_result" where
  "buildInstallResult plan status =
     \<lparr>ir_app_id = app_id (plan_app plan), ir_stack_path = stack_path plan,
      ir_compose_project = compose_project plan,
      ir_started_services = sort (map ss_service (filter (\<lambda>s. ss_state s = statusStateRunning) (as_services status))),
      ir_local_ports = local_ports plan, ir_guidance = plan_guidance plan, ir_status = status\<rparr>"

subsection \<open>The conditions of a status\<close>

text \<open>The eight conditions, over the containers Docker lists.\<close>

definition port_unpublished :: "string \<Rightarrow> int list \<Rightarrow> container_info list \<Rightarrow> bool" where
  "port_unpublished appID ports cs \<longleftrightarrow>
     (\<exists>p \<in> set ports. \<nexists>s c q. stands_for appID cs s = Some c \<and> q \<in> set (ci_ports c) \<and> pp_host_port q = p)"

definition compose_broken :: "engine_env \<Rightarrow> string \<Rightarrow> bool" where
  "compose_broken env d \<longleftrightarrow>
     (\<exists>p. SafeJoin d installComposeFilename = Inr p \<and> ValidateComposeConfig env d p \<noteq> None)"

definition lock_stale :: "engine_env \<Rightarrow> bool" where
  "lock_stale env \<longleftrightarrow> (\<exists>probe. en_probe env = Inr probe \<and> runtimeLockProbeStale (en_now env) probe)"

definition manifest_condition :: "string \<Rightarrow> stack_lock \<Rightarrow> container_info list \<Rightarrow> string \<Rightarrow> bool" where
  "manifest_condition appID lock cs r \<longleftrightarrow>
     container_condition appID (expectedStatusServices lock) (lk_completed_services lock) cs r
     \<or> r = statusReasonPortMismatch \<and> port_unpublished appID (lk_local_ports lock) cs
     \<or> r = statusReasonLastOperationFailed \<and> lk_last_successful_operation lock = None"

definition status_condition ::
  "engine_env \<Rightarrow> string \<Rightarrow> string \<Rightarrow> stack_lock \<Rightarrow> container_info list \<Rightarrow> string \<Rightarrow> bool" where
  "status_condition env appID d lock cs r \<longleftrightarrow> manifest_condition appID lock cs r
     \<or> r = statusReasonComposeValidationFailed \<and> compose_broken env d
     \<or> r = statusReasonStaleRuntimeLock \<and> lock_stale env"

text \<open>Every expected service has a container and none of the containers that count runs.\<close>

definition switched_off :: "string \<Rightarrow> stack_lock \<Rightarrow> container_info list \<Rightarrow> bool" where
  "switched_off appID lock cs \<longleftrightarrow>
     expectedStatusServices lock \<noteq> [] \<and> lk_completed_services lock = []
     \<and> (\<forall>s \<in> set (expectedStatusServices lock). stands_for appID cs s \<noteq> None)
     \<and> (\<forall>s c. stands_for appID cs s = Some c \<longrightarrow> \<not> cs_running (ci_state c) \<and> \<not> cs_restarting (ci_state c))"

lemma mismatch_iff: "lockPortsMismatch ports (index_containers appID cs) \<longleftrightarrow> port_unpublished appID ports cs"
proof -
  have "(s, c) \<in> set (index_containers appID cs) \<longleftrightarrow> stands_for appID cs s = Some c" for s c
    using map_of_eq_Some_iff [OF index_distinct] by (simp add: index_lookup)
  moreover have "p \<in> set (concat (map (\<lambda>(_, c). map pp_host_port (ci_ports c)) m))
      \<longleftrightarrow> (\<exists>s c. (s, c) \<in> set m \<and> (\<exists>q \<in> set (ci_ports c). pp_host_port q = p))" for p and m :: managed
  proof (induction m)
    case (Cons e m)
    obtain s c where e: "e = (s, c)" by (cases e)
    show ?case unfolding list.map concat.simps set_append Un_iff Cons.IH e by auto
  qed simp
  ultimately have "p \<in> set (concat (map (\<lambda>(_, c). map pp_host_port (ci_ports c)) (index_containers appID cs)))
      \<longleftrightarrow> (\<exists>s c q. stands_for appID cs s = Some c \<and> q \<in> set (ci_ports c) \<and> pp_host_port q = p)" for p
    by (simp only:) blast
  then show ?thesis
    unfolding lockPortsMismatch_def port_unpublished_def Let_def list_ex_iff by simp
qed

lemma insert_if_set: "insert_if b r {x. P x} = {x. P x \<or> x = r \<and> b}"
  by (auto simp: insert_if_def)

text \<open>A status is what its set of reasons makes of it, unless the stack is switched off.\<close>

definition report_of :: "bool \<Rightarrow> string set \<Rightarrow> string \<times> bool \<times> string list" where
  "report_of off rs =
     (if off then (statusStateStopped, False, [])
      else if rs = {} then (statusStateRunning, False, [])
      else (statusStateNeedsAttention, True, sorted_list_of_set rs))"

lemma report_final:
  assumes "\<not> as_needs_attention st" "as_attention_reasons st = []"
    and "st' = applyStoppedState (finalizeStatus st rs m1 m2) (expectedStatusServices lock)
      (lk_completed_services lock) (index_containers appID cs)"
  shows "(as_state st', as_needs_attention st', as_attention_reasons st') = report_of (switched_off appID lock cs) rs"
proof -
  have "isFullyStopped (expectedStatusServices lock) (lk_completed_services lock) (index_containers appID cs)
      = switched_off appID lock cs"
    unfolding fully_stopped switched_off_def ..
  with assms show ?thesis by (simp add: report_of_def applyStoppedState_def finalizeStatus_def)
qed

lemma report_state:
  "(st, b, l) = report_of off rs \<Longrightarrow> (st = statusStateStopped \<longleftrightarrow> off) \<and> (off \<longrightarrow> l = [])"
  by (auto simp: report_of_def state_defs split: if_splits)

lemma report_set: "(st, b, l) = report_of off rs \<Longrightarrow> finite rs \<Longrightarrow> \<not> off \<longrightarrow> set l = rs"
  by (auto simp: report_of_def split: if_splits)

lemma manifest_conditions_finite: "finite {r. manifest_condition appID lock cs r}"
  by (rule finite_subset [OF _ finite_UnI [OF container_conditions_finite
        [of appID "expectedStatusServices lock" "lk_completed_services lock" cs], of "{statusReasonPortMismatch, statusReasonLastOperationFailed}"]])
    (auto simp: manifest_condition_def)

lemma conditions_split:
  "{r. status_condition env appID d lock cs r} = {r. manifest_condition appID lock cs r}
     \<union> (if compose_broken env d then {statusReasonComposeValidationFailed} else {})
     \<union> (if lock_stale env then {statusReasonStaleRuntimeLock} else {})"
  by (auto simp: status_condition_def)

lemma status_conditions_finite: "finite {r. status_condition env appID d lock cs r}"
  unfolding conditions_split using manifest_conditions_finite by simp

lemma status_report:
  assumes "Status env appID = Inr st"
  shows "\<exists>d lock cs. resolveManagedStack (en_fs env) (en_base env) appID = Inr (d, lock)
    \<and> en_inspect env (lk_compose_project lock) = Inr cs
    \<and> (as_state st, as_needs_attention st, as_attention_reasons st)
        = report_of (switched_off appID lock cs) {r. status_condition env appID d lock cs r}"
proof -
  from assms obtain d lock where r: "resolveManagedStack (en_fs env) (en_base env) appID = Inr (d, lock)"
    by (auto simp: Status_def split: if_splits sum.splits)
  from assms r obtain cs where i: "en_inspect env (lk_compose_project lock) = Inr cs"
    by (auto simp: Status_def split: if_splits sum.splits)
  let ?ex = "expectedStatusServices lock" and ?co = "lk_completed_services lock"
  obtain st1 m rs where f: "fuseManagedServiceStatuses appID ?ex ?co cs (new_status appID (lk_compose_project lock) d [] (Some (en_now env)))
      = (st1, m, rs)" by (metis prod_cases3)
  note fr = fuse_result [OF f]
  let ?st = "st1\<lparr>as_local_ports := observedLocalPorts m\<rparr>"
  let ?r1 = "insert_if (lockPortsMismatch (lk_local_ports lock) m) statusReasonPortMismatch rs"
  from assms r i f obtain r2 stale where
    c: "checkComposeValidation env d ?r1 = Inr r2" and p: "staleRuntimeLockCondition env = Inr stale"
    and st: "st = applyStoppedState (finalizeStatus ?st (insert_if stale statusReasonStaleRuntimeLock
        (insert_if (lk_last_successful_operation lock = None) statusReasonLastOperationFailed r2))
        ''all managed services are running'' ''status checks found issues that need attention'') ?ex ?co m"
    by (auto simp: Status_def bindE_Inr Let_def split: if_splits)
  have r2: "r2 = insert_if (compose_broken env d) statusReasonComposeValidationFailed ?r1"
    using c by (auto simp: checkComposeValidation_def compose_broken_def insert_if_def
        split: sum.splits option.splits if_splits)
  have stale: "stale = lock_stale env"
    using p by (auto simp: staleRuntimeLockCondition_def lock_stale_def split: sum.splits)
  have all: "insert_if stale statusReasonStaleRuntimeLock
        (insert_if (lk_last_successful_operation lock = None) statusReasonLastOperationFailed r2)
      = {r. status_condition env appID d lock cs r}"
    unfolding r2 stale fr(1,2) mismatch_iff insert_if_set status_condition_def manifest_condition_def by blast
  let ?su = "st1\<lparr>as_local_ports := observedLocalPorts (index_containers appID cs)\<rparr>"
  have "\<not> as_needs_attention ?su" "as_attention_reasons ?su = []" unfolding fr(3) by (simp_all add: new_status_def)
  from report_final [OF this st [unfolded all, unfolded fr(1)]] r i show ?thesis by blast
qed

lemma summary_report:
  assumes "summarizeAppRuntime env appID d = Inr ar" "readManagedStackLock (en_fs env) d = Inr (Some lock)"
  shows "\<exists>cs. en_inspect env (lk_compose_project lock) = Inr cs
    \<and> (ar_state ar, ar_needs_attention ar, ar_attention_reasons ar)
        = report_of (switched_off appID lock cs) {r. manifest_condition appID lock cs r}"
proof -
  from assms obtain cs where i: "en_inspect env (lk_compose_project lock) = Inr cs"
    by (auto simp: summarizeAppRuntime_def Let_def split: sum.splits)
  let ?ex = "expectedStatusServices lock" and ?co = "lk_completed_services lock"
  obtain st1 m rs where f: "fuseManagedServiceStatuses appID ?ex ?co cs (new_status [] [] [] [] None) = (st1, m, rs)"
    by (metis prod_cases3)
  note fr = fuse_result [OF f]
  define st where "st = applyStoppedState (finalizeStatus st1
      (insert_if (lk_last_successful_operation lock = None) statusReasonLastOperationFailed
        (insert_if (lockPortsMismatch (lk_local_ports lock) m) statusReasonPortMismatch rs)) [] []) ?ex ?co m"
  have ar: "ar_state ar = as_state st" "ar_needs_attention ar = as_needs_attention st"
    "ar_attention_reasons ar = as_attention_reasons st"
    using assms i f by (auto simp: summarizeAppRuntime_def Let_def st_def)
  have all: "insert_if (lk_last_successful_operation lock = None) statusReasonLastOperationFailed
        (insert_if (lockPortsMismatch (lk_local_ports lock) m) statusReasonPortMismatch rs)
      = {r. manifest_condition appID lock cs r}"
    unfolding fr(1,2) mismatch_iff insert_if_set manifest_condition_def by blast
  have "\<not> as_needs_attention st1" "as_attention_reasons st1 = []" unfolding fr(3) by (simp_all add: new_status_def)
  from report_final [OF this st_def [unfolded fr(1) all [unfolded fr(1)]]] i ar show ?thesis by auto
qed

subsection \<open>The validation command\<close>

lemma rel_join_name:
  assumes "is_abs d" "plain_comp n"
  shows "rel_abs d (path_join d n) = n"
proof -
  have "clean_abs (path_join d n) = clean_abs d @ [n]"
    using join_name [OF assms] clean_abs_join [of "clean_abs d @ [n]"] clean_abs_plain [of d] assms(2) by simp
  then show ?thesis by (simp add: rel_abs_def)
qed

lemma dir_trim: "is_abs d \<Longrightarrow> path_clean d = d \<Longrightarrow> visible (last d) \<Longrightarrow> trim_space d = d"
  by (auto simp: is_abs_iff trim_visible_ends)

lemma config_paths_ok:
  assumes "is_abs d" "path_clean d = d" "visible (last d)"
  shows "validateComposeConfigPaths d (path_join d installComposeFilename) = Inr (d, path_join d installComposeFilename)"
proof -
  note t = join_name_trim [OF assms(1) stack_file_names(1,2)] dir_trim [OF assms]
  have "rel_abs d (path_join d installComposeFilename) = installComposeFilename"
    by (rule rel_join_name [OF assms(1) stack_file_names(1)])
  moreover have "validateAbsolutePath d l = Inr d" for l
    using t assms by (simp add: err_simps abs_path_token_def)
  moreover have "validateAbsolutePath (path_join d installComposeFilename) l = Inr (path_join d installComposeFilename)" for l
    using t by (simp add: err_simps abs_path_token_def)
  ultimately show ?thesis
    by (simp add: validateComposeConfigPaths_def refuse_if_def installComposeFilename_def)
qed

text \<open>The words in front of the overlay when the user has an environment file.\<close>

definition config_env_args :: "stack_files \<Rightarrow> string \<Rightarrow> string list" where
  "config_env_args files d =
     (if overlay_args files d = [] then []
      else [''--env-file'', path_join d installEnvFilename] @ overlay_args files d)"

lemma env_name: "installEnvFilename = ''.env''"
  by (simp add: installEnvFilename_def)

lemma run_config:
  assumes d: "is_abs d" "path_clean d = d" "visible (last d)" and r: "overlays_readable (en_files env) d"
  shows "\<exists>ov. ov \<in> {[], path_join d composeOverrideFilename}
    \<and> ValidateComposeConfig env d (path_join d installComposeFilename) = snd (finish [] (en_exec env
        ([''compose'', ''--project-directory'', d, ''-f'', path_join d installComposeFilename]
          @ config_env_args (en_files env) d @ overrideFileArgs ov @ [''config'', ''--quiet''])))"
proof -
  let ?c = "path_join d installComposeFilename" and ?e = "path_join d installEnvFilename" and ?f = "en_files env"
  let ?u = "overlay_args ?f d"
  obtain ov where ov: "resolveOverridePath ?f d = Inr ov" "ov = [] \<or> ov = path_join d composeOverrideFilename"
    using override_resolved [OF r] by blast
  note paths = config_paths_ok [OF d]
  have inv: "newComposeConfigInvocation ?f d ?c = Inr (ComposeConfigInvocation d ?c ?e ov)"
    using paths ov by (simp add: newComposeConfigInvocation_def env_name)
  have "path_dir ?e = d" using dir_of_join [OF d(1)] stack_file_names d(2) by simp
  then have ua: "userEnvFileArgs ?f ?e = Inr ?u"
    using r by (auto simp: userEnvFileArgs_def overlay_args_def overlays_readable_def Let_def split: sum.splits bool.splits)
  have build: "buildCommand ?f (ComposeConfigInvocation d ?c ?e ov) =
    Inr ([''compose'', ''--project-directory'', d, ''-f'', ?c] @ config_env_args ?f d @ overrideFileArgs ov @ [''config'', ''--quiet''])"
    using paths ua by (simp add: buildComposeConfigCommand_def config_env_args_def)
  have abs: "abs_path_token (path_join d n)" if "plain_comp n" "visible (last n)" for n
    using join_name_trim [OF d(1) that] by (simp add: abs_path_token_def)
  have "config_paths d ?c" using validateComposeConfigPaths_ok paths by auto
  moreover have "env_pair (config_env_args ?f d)"
    using abs stack_file_names by (auto simp: env_pair_def config_env_args_def overlay_args_def split: sum.splits bool.splits)
  moreover have "opt_flag ''-f'' abs_path_token (overrideFileArgs ov)"
    using abs stack_file_names ov(2) by (auto simp: opt_flag_def overrideFileArgs_def)
  ultimately have "validateCommandSpec ([''compose'', ''--project-directory'', d, ''-f'', ?c] @ config_env_args ?f d
      @ overrideFileArgs ov @ [''config'', ''--quiet'']) = None"
    by (intro grammar_accepted docker_grammar.compose_config)
  with inv build have "ValidateComposeConfig env d ?c = snd (finish [] (en_exec env
        ([''compose'', ''--project-directory'', d, ''-f'', ?c] @ config_env_args ?f d @ overrideFileArgs ov
          @ [''config'', ''--quiet''])))"
    by (simp add: ValidateComposeConfig_def Run_def is_logs_def)
  with ov(2) show ?thesis by blast
qed

subsection \<open>A concrete stack\<close>

definition demo_labels :: "(string, string) gomap" where
  "demo_labels = [(''wdm.managed'', ''true''), (''wdm.app'', ''demo''), (''com.docker.compose.service'', ''web'')]"

definition demo_container :: "bool \<Rightarrow> string \<Rightarrow> container_info" where
  "demo_container running status =
     \<lparr>ci_id = ''aaaaaaaaaaaa'', ci_name = ''web-1'', ci_service = ''web'', ci_labels = demo_labels,
      ci_state = \<lparr>cs_status = status, cs_running = running, cs_restarting = False, cs_exit_code = 0, cs_health = []\<rparr>,
      ci_ports = (if running then [\<lparr>pp_host_ip = ''127.0.0.1'', pp_host_port = 8080, pp_container_port = 80,
        pp_protocol = ''tcp''\<rparr>] else [])\<rparr>"

text \<open>The daemon answers with one letter for each field; the decoders say what it stands for.\<close>

definition demo_fields :: string where
  "demo_fields = [CHR ''n'', CHR 10, CHR ''l'', CHR 10, CHR ''s'', CHR 10, CHR ''t'', CHR 10, CHR ''f'', CHR 10,
     CHR ''0'', CHR 10, CHR ''h'', CHR 10, CHR ''p'']"

definition demo_json :: "bool \<Rightarrow> string \<Rightarrow> json_lib" where
  "demo_json up status = \<lparr>js_string = (\<lambda>s. Some (if s = ''n'' then ''/web-1'' else if s = ''s'' then status else [])),
     js_labels = (\<lambda>s. Some demo_labels), js_bool = (\<lambda>s. Some (s = ''t'' \<and> up)), js_int = (\<lambda>s. Some 0),
     js_ports = (\<lambda>s. Some (if up then [(''80/tcp'', [\<lparr>dp_host_ip = ''127.0.0.1'', dp_host_port = ''8080''\<rparr>])] else [])),
     js_strings = (\<lambda>s. None)\<rparr>"

definition demo_exec :: executor where
  "demo_exec argv =
     ((if argv = [''container'', ''inspect'', ''--format'', containerInspectFormat, ''aaaaaaaaaaaa''] then said demo_fields
       else if hd argv = ''container'' then said (''aaaaaaaaaaaa'' @ [CHR 10]) else no_result), None)"

definition demo_lock :: stack_lock where
  "demo_lock = \<lparr>lk_schema_version = 1, lk_app_id = ''demo'', lk_template_name = ''Demo'', lk_template_version = ''1'',
     lk_catalog_channel = ''stable'', lk_catalog_version = ''1'', lk_stack_path = ''/srv/demo'', lk_selected_domain = [],
     lk_local_ports = [8080], lk_compose_project = ''wdm-demo'',
     lk_image_pins = [\<lparr>lp_service = ''web'', lp_image = ''nginx'', lp_tag = ''1'', lp_digest = []\<rparr>],
     lk_generated_fields = [],
     lk_last_successful_operation = Some \<lparr>op_kind = ''install'', op_at = 0, op_wdm_version = ''1''\<rparr>,
     lk_backup_history = [], lk_recommended_resources = None, lk_completed_services = []\<rparr>"

text \<open>\<open>/srv/demo\<close> is a managed directory.\<close>

definition demo_fs :: stack_fs where
  "demo_fs = \<lparr>lstat = (\<lambda>p. if p = ''/srv/demo/.wdm.lock'' \<or> p = ''/srv/demo/.env'' then Inr RegularFile
        else if p = ''/srv'' \<or> p = ''/srv/demo'' then Inr Directory else Inl NotExist),
     read_dir = (\<lambda>p. Inr [(''demo'', True)]), try_read_lock = (\<lambda>p. if p = ''/srv/demo/.wdm.lock'' then LockRead demo_lock
       else LockMissing),
     read_lock = (\<lambda>p. if p = ''/srv/demo/.wdm.lock'' then LockRead demo_lock else LockMissing),
     acquire_lock = (\<lambda>p. if p = ''/srv/demo/.wdm.lock'' then LockHeld (Some demo_lock) else LockNotAcquired ''no such file'')\<rparr>"

definition demo_engine :: "bool \<Rightarrow> string \<Rightarrow> engine_env" where
  "demo_engine up status = \<lparr>en_base = ''/srv'', en_fs = demo_fs, en_files = demo_files,
     en_exec = demo_exec, en_json = demo_json up status,
     en_probe = Inr zero_probe, en_now = 0\<rparr>"

lemma demo_quiet: "Redact [] demo_fields = demo_fields" "Redact [] (''aaaaaaaaaaaa'' @ [CHR 10]) = ''aaaaaaaaaaaa'' @ [CHR 10]"
  by (rule redact_unchanged; simp add: quiet_def demo_fields_def lower_char_def is_upper_def byte_def)+

lemma redact_empty: "Redact [] [] = []"
  by (rule redact_unchanged) (simp_all add: quiet_def)

lemma demo_list: "read_client (demo_engine up status) (ProjectContainerListInvocation ''wdm-demo'') w
    = ((said (''aaaaaaaaaaaa'' @ [CHR 10]), None), w)"
proof -
  let ?argv = "[''container'', ''ls'', ''--all'', ''--filter'', composeProjectLabelFilterPrefix @ ''wdm-demo'', ''--format'', containerListFormat]"
  have "validateComposeProjectName ''wdm-demo'' = Inr ''wdm-demo''"
    using demo_project by (simp add: err_simps)
  then have "buildCommand (en_files (demo_engine up status)) (ProjectContainerListInvocation ''wdm-demo'') = Inr ?argv"
    by (simp add: buildProjectContainerListCommand_def)
  moreover have "validateCommandSpec ?argv = None"
    by (rule grammar_accepted [OF docker_grammar.container_ls [OF demo_project]])
  ultimately show ?thesis
    using demo_quiet(2) by (simp add: read_client_def Run_def is_logs_def demo_engine_def demo_exec_def finish_def
        redact_result_def said_def redact_empty)
qed

lemma demo_inspect: "read_client (demo_engine up status) (ContainerInspectInvocation ''aaaaaaaaaaaa'') w
    = ((said demo_fields, None), w)"
proof -
  let ?argv = "[''container'', ''inspect'', ''--format'', containerInspectFormat, ''aaaaaaaaaaaa'']"
  have c: "containerIDPattern ''aaaaaaaaaaaa''" by (simp add: containerIDPattern_def is_digit_def byte_def)
  then have "buildCommand (en_files (demo_engine up status)) (ContainerInspectInvocation ''aaaaaaaaaaaa'') = Inr ?argv"
    by (simp add: buildContainerInspectCommand_def validateContainerID_def guardE_def refuse_if_def)
  moreover have "validateCommandSpec ?argv = None"
    by (rule grammar_accepted [OF docker_grammar.container_inspect [OF c]])
  ultimately show ?thesis
    using demo_quiet(1) by (simp add: read_client_def Run_def is_logs_def demo_engine_def demo_exec_def finish_def
        redact_result_def said_def redact_empty)
qed

lemma single_trim: "visible c \<Longrightarrow> trim_space [c] = [c]"
  by (rule trim_visible_ends) simp_all

lemma demo_lines: "strictDockerOutputLines demo_fields l = Inr [''n'', ''l'', ''s'', ''t'', ''f'', ''0'', ''h'', ''p'']"
proof -
  have "stripSingleDockerLineEnding demo_fields = demo_fields"
    by (simp add: stripSingleDockerLineEnding_def trim_suffix_def demo_fields_def)
  moreover have "split_on (CHR 10) demo_fields = [''n'', ''l'', ''s'', ''t'', ''f'', ''0'', ''h'', ''p'']"
    by (simp add: demo_fields_def)
  moreover have "\<forall>c \<in> set ''nlstf0hp''. trim_space [c] = [c]"
    by (simp add: single_trim visible_def byte_def)
  moreover have "demo_fields \<noteq> []" by (simp add: demo_fields_def)
  ultimately show ?thesis by (simp add: strictDockerOutputLines_def refuse_if_def)
qed

lemma demo_ports_parsed:
  "parseDockerPorts (demo_json up status) ''p'' = Inr (if up then [\<lparr>pp_host_ip = ''127.0.0.1'', pp_host_port = 8080,
     pp_container_port = 80, pp_protocol = ''tcp''\<rparr>] else [])"
  unfolding parseDockerPorts_def decodeInspectJSONField_def demo_json_def
  by (simp add: collect_ports_def demo_port_keys host_bindings_def parsePortNumber_def demo_atoi sort_ports_def)

lemma demo_parsed:
  "parseContainerInspectOutput (demo_json up status) ''aaaaaaaaaaaa'' demo_fields = Inr (demo_container up status)"
  unfolding parseContainerInspectOutput_def demo_lines
  by (simp add: decodeInspectJSONField_def demo_ports_parsed)
    (simp add: demo_json_def demo_container_def demo_labels_def trim_prefix_def get_or_def)

lemma demo_ids: "parseContainerIDList (''aaaaaaaaaaaa'' @ [CHR 10]) = Inr [''aaaaaaaaaaaa'']"
proof -
  have "trim_space ''aaaaaaaaaaaa'' = ''aaaaaaaaaaaa''"
    by (rule trim_visible_ends [of _ "CHR ''a''" "''aaaaaaaaaaa''"]) (simp_all add: visible_def byte_def of_char_def)
  moreover have "stripSingleDockerLineEnding (''aaaaaaaaaaaa'' @ [CHR 10]) = ''aaaaaaaaaaaa''"
    by (simp add: stripSingleDockerLineEnding_def trim_suffix_def)
  moreover have "validateContainerID ''aaaaaaaaaaaa'' = Inr ''aaaaaaaaaaaa''"
    by (simp add: err_simps containerIDPattern_def is_digit_def byte_def)
  ultimately show ?thesis
    by (simp add: parseContainerIDList_def strictDockerOutputLines_def refuse_if_def refused_def)
qed

lemma demo_inspected: "en_inspect (demo_engine up status) ''wdm-demo'' = Inr [demo_container up status]"
proof -
  have "validateComposeProjectName ''wdm-demo'' = Inr ''wdm-demo''"
    using demo_project by (simp add: err_simps)
  moreover have "en_json (demo_engine up status) = demo_json up status" by (simp add: demo_engine_def)
  ultimately show ?thesis
    by (simp add: en_inspect_def InspectProjectContainers_def demo_list demo_inspect demo_ids [simplified] demo_parsed said_def)
qed

lemma demo_stack_paths:
  "SafeJoin ''/srv'' ''demo'' = Inr ''/srv/demo''" "path_join ''/srv/demo'' ''.wdm.lock'' = ''/srv/demo/.wdm.lock''"
  "RejectUnsafeRoot ''/srv/demo'' = None" "path_dir (path_clean ''/srv/demo'') = ''/srv''"
  by code_simp+

lemma demo_ancestors: "validateInstallPathAncestors demo_fs ''/srv/demo'' = None"
  unfolding validateInstallPathAncestors_def demo_stack_paths(4) by code_simp

lemma demo_lock_read: "readManagedStackLock demo_fs ''/srv/demo'' = Inr (Some demo_lock)"
proof -
  have "lstat demo_fs ''/srv/demo/.wdm.lock'' = Inr RegularFile"
    "try_read_lock demo_fs ''/srv/demo/.wdm.lock'' = LockRead demo_lock" by (simp_all add: demo_fs_def)
  then show ?thesis by (simp add: readManagedStackLock_def installLockFilename_def demo_stack_paths(2))
qed

lemma demo_resolved: "resolveManagedStack demo_fs ''/srv'' ''demo'' = Inr (''/srv/demo'', demo_lock)"
proof -
  have "lstat demo_fs ''/srv/demo'' = Inr Directory" by (simp add: demo_fs_def)
  then have e: "installStackPathExists demo_fs ''/srv/demo'' = Inr True"
    by (simp add: installStackPathExists_def demo_stack_paths(3) demo_ancestors)
  with demo_lock_read show ?thesis
    by (simp add: resolveManagedStack_def demo_stack_paths(1)) (simp add: demo_lock_def)
qed

lemma demo_compose_valid: "ValidateComposeConfig (demo_engine up s) ''/srv/demo'' (path_join ''/srv/demo'' installComposeFilename) = None"
proof -
  have "is_abs ''/srv/demo''" "path_clean ''/srv/demo'' = ''/srv/demo''" "visible (last ''/srv/demo'')"
    "overlays_readable (en_files (demo_engine up s)) ''/srv/demo''"
    by (simp_all add: is_abs_def path_clean_def overlays_readable_def demo_files_def demo_engine_def visible_def byte_def)
  from run_config [OF this] obtain argv where
    "ValidateComposeConfig (demo_engine up s) ''/srv/demo'' (path_join ''/srv/demo'' installComposeFilename)
      = snd (finish [] (en_exec (demo_engine up s) argv))" by blast
  then show ?thesis by (simp add: demo_engine_def demo_exec_def finish_def split: prod.splits)
qed

lemma status_defined:
  assumes "appID \<noteq> []" "resolveManagedStack (en_fs env) (en_base env) appID = Inr (d, lock)"
    and "en_inspect env (lk_compose_project lock) = Inr cs" "SafeJoin d installComposeFilename = Inr p"
    and "ValidateComposeConfig env d p = None" "en_probe env = Inr probe"
  shows "\<exists>st. Status env appID = Inr st"
  using assms by (simp add: Status_def checkComposeValidation_def staleRuntimeLockCondition_def Let_def split_def)

lemma demo_inspects: "en_inspect (demo_engine up s) (lk_compose_project demo_lock) = Inr [demo_container up s]"
  using demo_inspected by (simp add: demo_lock_def)

lemma demo_status: "\<exists>st. Status (demo_engine up s) ''demo'' = Inr st"
proof (rule status_defined)
  show "resolveManagedStack (en_fs (demo_engine up s)) (en_base (demo_engine up s)) ''demo'' = Inr (''/srv/demo'', demo_lock)"
    using demo_resolved by (simp add: demo_engine_def)
  show "SafeJoin ''/srv/demo'' installComposeFilename = Inr (path_join ''/srv/demo'' installComposeFilename)"
    by code_simp
  show "en_probe (demo_engine up s) = Inr zero_probe"
    by (simp add: demo_engine_def)
qed (simp_all add: demo_compose_valid demo_inspects)

lemma demo_expected: "expectedStatusServices demo_lock = [''web'']"
  by (simp add: expectedStatusServices_def demo_lock_def)

lemma demo_stands:
  "stands_for ''demo'' [demo_container up st] s = (if s = ''web'' then Some (demo_container up st) else None)"
  by (simp add: stands_for_def is_managed_def demo_container_def demo_labels_def get_or_def)

lemma demo_not_broken: "\<not> compose_broken (demo_engine up s) ''/srv/demo''"
proof -
  have "SafeJoin ''/srv/demo'' installComposeFilename = Inr (path_join ''/srv/demo'' installComposeFilename)"
    by code_simp
  then show ?thesis using demo_compose_valid by (simp add: compose_broken_def)
qed

lemma demo_not_stale: "\<not> lock_stale (demo_engine up s)"
  by (simp add: lock_stale_def demo_engine_def runtimeLockProbeStale_def zero_probe_def)

lemma demo_running_conditions: "{r. manifest_condition ''demo'' demo_lock [demo_container True st] r} = {}"
  unfolding manifest_condition_def container_condition_def demo_expected demo_stands port_unpublished_def
  by (auto simp: demo_lock_def demo_container_def in_restart_loop_def exited_badly_def is_unhealthy_def
      equal_fold_ascii_def to_lower_ascii_def)

lemma summary_defined:
  assumes "readManagedStackLock (en_fs env) d = Inr (Some lock)" "en_inspect env (lk_compose_project lock) = Inr cs"
  shows "\<exists>ar. summarizeAppRuntime env appID d = Inr ar"
proof -
  obtain scratch m rs where "fuseManagedServiceStatuses appID (expectedStatusServices lock) (lk_completed_services lock)
      cs (new_status [] [] [] [] None) = (scratch, m, rs)" by (metis prod_cases3)
  with assms show ?thesis by (simp add: summarizeAppRuntime_def Let_def)
qed

lemma demo_switched: "switched_off ''demo'' demo_lock [demo_container up st] \<longleftrightarrow> \<not> up"
  by (simp add: switched_off_def demo_expected demo_stands) (simp add: demo_lock_def demo_container_def)

subsection \<open>The conditions that make a status\<close>

text \<open>C25: What a computed status reports. The stack it names was found with its manifest and Docker listed the
  containers of its project. Every service is judged by one container, the first one of the list that
  carries the stack's labels and names the service (further replicas of a service are not looked at). If the stack is switched off
  (it has expected services and none that completes by design, each expected service has such a container, and no judged
  container runs or restarts), the state is stopped and no condition is reported, whatever holds.
  Otherwise the state is needs-attention with the sorted list of exactly those of the eight conditions that hold for the judged
  containers (a service without a container, a restart loop, an exit that is not
  an expected completion, an unhealthy container, a recorded port nothing publishes, a compose file that does not
  validate, no successful operation, a stale runtime lock), and running when none of them holds.\<close>

theorem status_reports_conditions:
  assumes "Status env appID = Inr st"
  shows "\<exists>d lock cs. resolveManagedStack (en_fs env) (en_base env) appID = Inr (d, lock)
    \<and> en_inspect env (lk_compose_project lock) = Inr cs
    \<and> (as_state st, as_needs_attention st, as_attention_reasons st)
        = report_of (switched_off appID lock cs) {r. status_condition env appID d lock cs r}"
  using assms by (rule status_report)

theorem status_reports_conditions_witness:
  "(\<exists>st. Status (demo_engine True ''running'') ''demo'' = Inr st \<and> as_state st = statusStateRunning)
   \<and> (\<exists>st. Status (demo_engine False ''exited'') ''demo'' = Inr st \<and> as_state st = statusStateStopped)"
proof -
  have res: "resolveManagedStack (en_fs (demo_engine up s)) (en_base (demo_engine up s)) ''demo'' = Inr (''/srv/demo'', demo_lock)"
    for up s using demo_resolved by (simp add: demo_engine_def)
  have "\<exists>st. Status (demo_engine up s) ''demo'' = Inr st \<and> as_state st
      = fst (report_of (switched_off ''demo'' demo_lock [demo_container up s])
      {r. status_condition (demo_engine up s) ''demo'' ''/srv/demo'' demo_lock [demo_container up s] r})" for up s
  proof -
    obtain st where st: "Status (demo_engine up s) ''demo'' = Inr st" using demo_status by blast
    from status_reports_conditions [OF this] obtain d lock cs where c:
      "resolveManagedStack (en_fs (demo_engine up s)) (en_base (demo_engine up s)) ''demo'' = Inr (d, lock)"
      "en_inspect (demo_engine up s) (lk_compose_project lock) = Inr cs"
      "(as_state st, as_needs_attention st, as_attention_reasons st) = report_of (switched_off ''demo'' lock cs)
        {r. status_condition (demo_engine up s) ''demo'' d lock cs r}" by (elim exE conjE)
    from c(1) have "d = ''/srv/demo''" "lock = demo_lock" unfolding res by simp_all
    moreover from c(2) have "cs = [demo_container up s]" unfolding \<open>lock = demo_lock\<close> demo_inspects by simp
    ultimately have "as_state st = fst (report_of (switched_off ''demo'' demo_lock [demo_container up s])
        {r. status_condition (demo_engine up s) ''demo'' ''/srv/demo'' demo_lock [demo_container up s] r})"
      using arg_cong [OF c(3), of fst] by (simp only: fst_conv)
    with st show ?thesis by (intro exI conjI)
  qed
  from this [of True "''running''"] this [of False "''exited''"]
  show ?thesis
    unfolding conditions_split demo_switched demo_running_conditions
    by (simp add: report_of_def demo_not_broken demo_not_stale)
qed

text \<open>The list and the status of a stack agree: with the same manifest, one says stopped exactly when the other
  does, and otherwise the status has the reasons of the list and at most the two more that the list does not look at,
  each exactly when its condition holds.\<close>

lemma list_agrees_with_status:
  assumes "Status env appID = Inr st" "resolveManagedStack (en_fs env) (en_base env) appID = Inr (d, lock)"
    and "readManagedStackLock (en_fs env) d = Inr (Some lock)" "summarizeAppRuntime env appID d = Inr ar"
  shows "(as_state st = statusStateStopped \<longleftrightarrow> ar_state ar = statusStateStopped)
    \<and> (as_state st = statusStateStopped \<longrightarrow> as_attention_reasons st = [] \<and> ar_attention_reasons ar = [])
    \<and> (as_state st \<noteq> statusStateStopped \<longrightarrow>
        set (as_attention_reasons st) = set (ar_attention_reasons ar)
          \<union> (if compose_broken env d then {statusReasonComposeValidationFailed} else {})
          \<union> (if lock_stale env then {statusReasonStaleRuntimeLock} else {}))"
proof -
  from assms(1,2) obtain cs where cs: "en_inspect env (lk_compose_project lock) = Inr cs" and
    s: "(as_state st, as_needs_attention st, as_attention_reasons st)
        = report_of (switched_off appID lock cs) {r. status_condition env appID d lock cs r}"
    using status_report by (metis Inr_inject prod.inject)
  from summary_report [OF assms(4,3)] cs have
    a: "(ar_state ar, ar_needs_attention ar, ar_attention_reasons ar)
        = report_of (switched_off appID lock cs) {r. manifest_condition appID lock cs r}" by auto
  show ?thesis
    using report_state [OF s] report_state [OF a] report_set [OF s status_conditions_finite]
      report_set [OF a manifest_conditions_finite] conditions_split [of env appID d lock cs]
    by auto
qed

lemma list_agrees_with_status_witness:
  "\<exists>st ar. Status (demo_engine False ''exited'') ''demo'' = Inr st
     \<and> summarizeAppRuntime (demo_engine False ''exited'') ''demo'' ''/srv/demo'' = Inr ar
     \<and> (as_state st = statusStateStopped \<longleftrightarrow> ar_state ar = statusStateStopped)"
proof -
  let ?e = "demo_engine False ''exited''"
  have l: "readManagedStackLock (en_fs ?e) ''/srv/demo'' = Inr (Some demo_lock)"
    using demo_lock_read by (simp add: demo_engine_def)
  then obtain ar where a: "summarizeAppRuntime ?e ''demo'' ''/srv/demo'' = Inr ar"
    using summary_defined [OF _ demo_inspects] by blast
  obtain st where s: "Status ?e ''demo'' = Inr st" using demo_status by blast
  have r: "resolveManagedStack (en_fs ?e) (en_base ?e) ''demo'' = Inr (''/srv/demo'', demo_lock)"
    using demo_resolved by (simp add: demo_engine_def)
  from list_agrees_with_status [OF s r l a] s a show ?thesis by blast
qed

end
