(* ===== verification/Lock_Protocol.thy ===== *)
theory Lock_Protocol
  imports Runtime_Lock
begin

text \<open>
  Processes on the runtime lock file, step by step: \<open>AcquireRuntimeLock\<close>, \<open>RuntimeLockHandle.Release\<close>,
  \<open>ProbeRuntimeLock\<close> and \<open>ClearStaleRuntimeLock\<close> of \<open>internal/state\<close>, with the decision of
  \<open>Engine.ClearStaleRuntimeLock\<close> between a probe and a clear. One step is one access to the file
  system: open, flock, lstat, truncate, write, read, unlink, close. The steps of different processes interleave freely,
  a process may crash between any two of its steps, and its PID may be used again.
\<close>

subsection \<open>The world\<close>

type_synonym inode = nat
type_synonym proc = nat

text \<open>
  Where a process is. \<open>AcqStart k\<close> is attempt \<open>k\<close> of the two; the argument of the other phases is the
  inode its descriptor is open on.
\<close>

datatype phase =
    Idle
  | Dead
  | AcqStart nat
  | AcqOpened inode nat
  | AcqLocked inode nat
  | AcqVerified inode
  | AcqTruncated inode
  | Holding inode
  | PrbStart
  | PrbOpened inode
  | PrbShared inode
  | PrbHeld inode
  | ClrAsk clear_request
  | ClrReady clear_request
  | ClrOpened inode clear_request
  | ClrLocked inode
  | ClrRemoved inode
  | ClrHeld inode clear_request
  | ClrMatched inode

text \<open>The holder metadata of an inode is \<open>None\<close> while the file is empty or cannot be decoded.\<close>

record lock_world =
  lw_path :: "inode option"
  lw_next :: inode
  lw_excl :: "inode \<Rightarrow> proc option"
  lw_shared :: "inode \<Rightarrow> proc set"
  lw_text :: "inode \<Rightarrow> runtime_lock_info option"
  lw_phase :: "proc \<Rightarrow> phase"
  lw_started :: "proc \<Rightarrow> 64 word"
  lw_now :: int

definition init_world :: "(proc \<Rightarrow> 64 word) \<Rightarrow> int \<Rightarrow> lock_world" where
  "init_world started now =
     \<lparr>lw_path = None, lw_next = 0, lw_excl = (\<lambda>i. None), lw_shared = (\<lambda>i. {}), lw_text = (\<lambda>i. None),
      lw_phase = (\<lambda>p. Idle), lw_started = started, lw_now = now\<rparr>"

definition pid_of :: "proc \<Rightarrow> int" where
  "pid_of p = int p + 1"

definition world_kill :: "lock_world \<Rightarrow> int \<Rightarrow> os_error option" where
  "world_kill w pid = (if lw_phase w (nat (pid - 1)) = Dead then Some (OtherOsError ''ESRCH'') else None)"

definition world_start :: "lock_world \<Rightarrow> int \<Rightarrow> 64 word option" where
  "world_start w pid = (if lw_phase w (nat (pid - 1)) = Dead then None else Some (lw_started w (nat (pid - 1))))"

definition own_info :: "lock_world \<Rightarrow> proc \<Rightarrow> runtime_lock_info" where
  "own_info w p = \<lparr>li_schema_version = runtimeLockSchemaVersion, li_pid = pid_of p, li_command = ''install'',
     li_started_at = Some (lw_now w), li_started_time = lw_started w p, li_wdm_version = ''1''\<rparr>"

definition readHolderBestEffort :: "lock_world \<Rightarrow> inode \<Rightarrow> runtime_lock_info" where
  "readHolderBestEffort w i = (case lw_text w i of None \<Rightarrow> zero_info | Some info \<Rightarrow> info)"

subsection \<open>System calls\<close>

definition to_phase :: "proc \<Rightarrow> phase \<Rightarrow> lock_world \<Rightarrow> lock_world" where
  "to_phase p ph w = w\<lparr>lw_phase := (lw_phase w)(p := ph)\<rparr>"

text \<open>Closing the last descriptor drops what it holds.\<close>

definition drop_locks :: "proc \<Rightarrow> lock_world \<Rightarrow> lock_world" where
  "drop_locks p w =
     w\<lparr>lw_excl := (\<lambda>i. if lw_excl w i = Some p then None else lw_excl w i),
       lw_shared := (\<lambda>i. lw_shared w i - {p})\<rparr>"

definition close_to :: "proc \<Rightarrow> phase \<Rightarrow> lock_world \<Rightarrow> lock_world" where
  "close_to p ph w = to_phase p ph (drop_locks p w)"

definition TryLockExclusive :: "lock_world \<Rightarrow> inode \<Rightarrow> bool" where
  "TryLockExclusive w i \<longleftrightarrow> lw_excl w i = None \<and> lw_shared w i = {}"

definition TryLockShared :: "lock_world \<Rightarrow> inode \<Rightarrow> bool" where
  "TryLockShared w i \<longleftrightarrow> lw_excl w i = None"

definition take_excl :: "proc \<Rightarrow> inode \<Rightarrow> lock_world \<Rightarrow> lock_world" where
  "take_excl p i w = w\<lparr>lw_excl := (lw_excl w)(i := Some p)\<rparr>"

definition take_shared :: "proc \<Rightarrow> inode \<Rightarrow> lock_world \<Rightarrow> lock_world" where
  "take_shared p i w = w\<lparr>lw_shared := (lw_shared w)(i := insert p (lw_shared w i))\<rparr>"

definition lockedInodeMatchesPath :: "lock_world \<Rightarrow> inode \<Rightarrow> bool" where
  "lockedInodeMatchesPath w i \<longleftrightarrow> lw_path w = Some i"

text \<open>\<open>Engine.ClearStaleRuntimeLock\<close> between the probe and the clear.\<close>

definition clear_decision :: "int \<Rightarrow> runtime_lock_probe \<Rightarrow> phase" where
  "clear_decision now probe =
     (if rp_held probe \<and> \<not> runtimeLockProbeStale now probe then Idle
      else if rp_held probe then ClrAsk (clear_request_of probe)
      else ClrReady (clear_request_of probe))"

subsection \<open>Steps\<close>

text \<open>\<open>Go\<close> is the next access of the operation a process is in; the others start an operation or come from outside.\<close>

datatype action = Acquire | ClearLock | Release | Answer bool | Go | Crash | Respawn "64 word" | Tick nat

definition acquire_open :: "proc \<Rightarrow> nat \<Rightarrow> lock_world \<Rightarrow> lock_world" where
  "acquire_open p k w =
     (case lw_path w of
        Some i \<Rightarrow> to_phase p (AcqOpened i k) w
      | None \<Rightarrow> to_phase p (AcqOpened (lw_next w) k)
          (w\<lparr>lw_path := Some (lw_next w), lw_next := Suc (lw_next w), lw_text := (lw_text w)(lw_next w := None)\<rparr>))"

fun acquire_next :: "proc \<Rightarrow> phase \<Rightarrow> lock_world \<Rightarrow> lock_world option" where
  "acquire_next p (AcqStart k) w = Some (acquire_open p k w)"
| "acquire_next p (AcqOpened i k) w =
     Some (if TryLockExclusive w i then to_phase p (AcqLocked i k) (take_excl p i w) else close_to p Idle w)"
| "acquire_next p (AcqLocked i k) w =
     Some (if lockedInodeMatchesPath w i then to_phase p (AcqVerified i) w
           else close_to p (if k = 0 then AcqStart 1 else Idle) w)"
| "acquire_next p (AcqVerified i) w = Some (to_phase p (AcqTruncated i) (w\<lparr>lw_text := (lw_text w)(i := None)\<rparr>))"
| "acquire_next p (AcqTruncated i) w =
     Some (to_phase p (Holding i) (w\<lparr>lw_text := (lw_text w)(i := Some (own_info w p))\<rparr>))"
| "acquire_next p ph w = None"

fun probe_next :: "proc \<Rightarrow> phase \<Rightarrow> lock_world \<Rightarrow> lock_world option" where
  "probe_next p PrbStart w =
     Some (case lw_path w of
             None \<Rightarrow> to_phase p (clear_decision (lw_now w) zero_probe) w
           | Some i \<Rightarrow> to_phase p (PrbOpened i) w)"
| "probe_next p (PrbOpened i) w =
     Some (if TryLockShared w i then to_phase p (PrbShared i) (take_shared p i w) else to_phase p (PrbHeld i) w)"
| "probe_next p (PrbShared i) w =
     Some (close_to p (clear_decision (lw_now w) (zero_probe\<lparr>rp_exists := True\<rparr>)) w)"
| "probe_next p (PrbHeld i) w =
     (let holder = readHolderBestEffort w i
      in Some (close_to p (clear_decision (lw_now w)
             \<lparr>rp_exists = True, rp_held = True, rp_holder_alive = holderStillAlive (world_kill w) (world_start w) holder,
              rp_holder = holder, rp_mod_time = None\<rparr>) w))"
| "probe_next p ph w = None"

fun clear_next :: "proc \<Rightarrow> phase \<Rightarrow> lock_world \<Rightarrow> lock_world option" where
  "clear_next p (ClrReady req) w =
     Some (case lw_path w of None \<Rightarrow> to_phase p Idle w | Some i \<Rightarrow> to_phase p (ClrOpened i req) w)"
| "clear_next p (ClrOpened i req) w =
     Some (if TryLockExclusive w i then to_phase p (ClrLocked i) (take_excl p i w) else to_phase p (ClrHeld i req) w)"
| "clear_next p (ClrLocked i) w = Some (to_phase p (ClrRemoved i) (w\<lparr>lw_path := None\<rparr>))"
| "clear_next p (ClrRemoved i) w = Some (close_to p Idle w)"
| "clear_next p (ClrHeld i req) w =
     (let holder = readHolderBestEffort w i
      in Some (if runtimeLockHolderStale (world_kill w) (world_start w) (lw_now w) holder (cr_max_held_age req)
                  \<and> holderFingerprintMatches holder req
               then to_phase p (ClrMatched i) w else close_to p Idle w))"
| "clear_next p (ClrMatched i) w = Some (close_to p Idle (w\<lparr>lw_path := None\<rparr>))"
| "clear_next p ph w = None"

text \<open>The phases of the three operations are disjoint.\<close>

definition continue_op :: "proc \<Rightarrow> phase \<Rightarrow> lock_world \<Rightarrow> lock_world option" where
  [simp]: "continue_op p ph w =
     (case acquire_next p ph w of
        Some w' \<Rightarrow> Some w'
      | None \<Rightarrow> (case probe_next p ph w of Some w' \<Rightarrow> Some w' | None \<Rightarrow> clear_next p ph w))"

definition lock_step :: "proc \<times> action \<Rightarrow> lock_world \<Rightarrow> lock_world option" where
  "lock_step pa w =
     (case pa of (p, a) \<Rightarrow>
       (case a of
          Acquire \<Rightarrow> if lw_phase w p = Idle then Some (to_phase p (AcqStart 0) w) else None
        | ClearLock \<Rightarrow> if lw_phase w p = Idle then Some (to_phase p PrbStart w) else None
        | Release \<Rightarrow> (case lw_phase w p of Holding i \<Rightarrow> Some (close_to p Idle w) | _ \<Rightarrow> None)
        | Answer yes \<Rightarrow>
            (case lw_phase w p of ClrAsk req \<Rightarrow> Some (to_phase p (if yes then ClrReady req else Idle) w) | _ \<Rightarrow> None)
        | Go \<Rightarrow> continue_op p (lw_phase w p) w
        | Crash \<Rightarrow> if lw_phase w p = Dead then None else Some (close_to p Dead w)
        | Respawn t \<Rightarrow>
            (if lw_phase w p = Dead \<and> t \<noteq> lw_started w p
             then Some (to_phase p Idle (w\<lparr>lw_started := (lw_started w)(p := t)\<rparr>)) else None)
        | Tick n \<Rightarrow> Some (w\<lparr>lw_now := lw_now w + int n\<rparr>)))"

fun lock_run :: "(proc \<times> action) list \<Rightarrow> lock_world \<Rightarrow> lock_world option" where
  "lock_run [] w = Some w"
| "lock_run (pa # pas) w = (case lock_step pa w of None \<Rightarrow> None | Some w' \<Rightarrow> lock_run pas w')"

subsection \<open>Reachable worlds\<close>

text \<open>A process between the open and the unlink of a clear, and one that has decided to evict a holder.\<close>

fun clearing :: "phase \<Rightarrow> bool" where
  "clearing (ClrOpened i req) = True"
| "clearing (ClrLocked i) = True"
| "clearing ph = False"

fun evicting :: "phase \<Rightarrow> bool" where
  "evicting (ClrMatched i) = True"
| "evicting ph = False"

definition calm :: "lock_world \<Rightarrow> bool" where
  "calm w \<longleftrightarrow> (\<forall>p. \<not> evicting (lw_phase w p))
     \<and> (\<forall>p q. clearing (lw_phase w p) \<longrightarrow> clearing (lw_phase w q) \<longrightarrow> p = q)"

inductive reachable :: "(lock_world \<Rightarrow> bool) \<Rightarrow> lock_world \<Rightarrow> bool" for ok where
  start: "reachable ok (init_world started now)"
| step: "reachable ok w \<Longrightarrow> lock_step pa w = Some w' \<Longrightarrow> ok w' \<Longrightarrow> reachable ok w'"

subsection \<open>The invariant\<close>

text \<open>The inode whose flock a phase holds, and the inode a phase relies on being the file at the path.\<close>

fun owned :: "phase \<Rightarrow> inode option" where
  "owned (AcqLocked i k) = Some i"
| "owned (AcqVerified i) = Some i"
| "owned (AcqTruncated i) = Some i"
| "owned (Holding i) = Some i"
| "owned (ClrLocked i) = Some i"
| "owned (ClrRemoved i) = Some i"
| "owned ph = None"

fun pinned :: "phase \<Rightarrow> inode option" where
  "pinned (AcqVerified i) = Some i"
| "pinned (AcqTruncated i) = Some i"
| "pinned (Holding i) = Some i"
| "pinned (ClrOpened i req) = Some i"
| "pinned (ClrLocked i) = Some i"
| "pinned ph = None"

definition lock_inv :: "lock_world \<Rightarrow> bool" where
  "lock_inv w \<longleftrightarrow>
     (\<forall>p i. lw_excl w i = Some p \<longleftrightarrow> owned (lw_phase w p) = Some i)
     \<and> (\<forall>p i. pinned (lw_phase w p) = Some i \<longrightarrow> lw_path w = Some i)
     \<and> (\<forall>p i. lw_phase w p = Holding i \<longrightarrow> (\<exists>info. lw_text w i = Some info \<and> li_pid info = pid_of p))"

lemma inv_excl: "lock_inv w \<Longrightarrow> lw_excl w i = Some p \<longleftrightarrow> owned (lw_phase w p) = Some i"
  by (simp add: lock_inv_def)

lemma inv_pinned: "lock_inv w \<Longrightarrow> pinned (lw_phase w p) = Some i \<Longrightarrow> lw_path w = Some i"
  by (simp add: lock_inv_def)

lemma inv_owner: "lock_inv w \<Longrightarrow> owned (lw_phase w p) = Some i \<Longrightarrow> owned (lw_phase w q) = Some i \<Longrightarrow> p = q"
  by (metis inv_excl option.inject)

lemma inv_init: "lock_inv (init_world started now)"
  by (simp add: lock_inv_def init_world_def)

lemmas step_defs = to_phase_def drop_locks_def close_to_def take_excl_def take_shared_def

lemma decision_free: "owned (clear_decision now probe) = None" "pinned (clear_decision now probe) = None"
  "clear_decision now probe \<noteq> Holding i"
  by (simp_all add: clear_decision_def)

text \<open>Moving one process keeps the invariant when its new phase fits the world it leaves behind.\<close>

lemma inv_move:
  assumes "lock_inv w"
    and "owned ph = owned (lw_phase w p)" "pinned ph = None \<or> pinned ph = lw_path w" "\<forall>i. ph \<noteq> Holding i"
  shows "lock_inv (to_phase p ph w)"
  using assms by (auto simp: lock_inv_def to_phase_def)

lemma inv_close:
  assumes "lock_inv w" "owned ph = None" "pinned ph = None"
  shows "lock_inv (close_to p ph w)"
  using assms inv_owner [OF assms(1)] by (auto simp: lock_inv_def step_defs)

lemma inv_take:
  assumes "lock_inv w" "TryLockExclusive w i" "owned (lw_phase w p) = None" "owned ph = Some i"
    and "pinned ph = None \<or> pinned ph = lw_path w" "\<forall>i. ph \<noteq> Holding i"
  shows "lock_inv (to_phase p ph (take_excl p i w))"
proof -
  have "owned (lw_phase w q) \<noteq> Some i" for q
    using inv_excl [OF assms(1), of i q] assms(2) by (simp add: TryLockExclusive_def)
  with assms show ?thesis by (auto simp: lock_inv_def step_defs)
qed

lemma inv_shared: "lock_inv (w\<lparr>lw_shared := f\<rparr>) = lock_inv w"
  "lock_inv (w\<lparr>lw_now := n\<rparr>) = lock_inv w" "lock_inv (w\<lparr>lw_started := g\<rparr>) = lock_inv w"
  by (simp_all add: lock_inv_def)

lemma inv_text:
  assumes "lock_inv w" "owned (lw_phase w p) = Some i" "\<forall>j. lw_phase w p \<noteq> Holding j"
  shows "lock_inv (w\<lparr>lw_text := (lw_text w)(i := t)\<rparr>)"
proof -
  have "i \<noteq> j" if "lw_phase w q = Holding j" for q j
  proof
    assume "i = j"
    with that have "owned (lw_phase w q) = Some i" by simp
    with assms(1,2) have "p = q" by (metis lock_inv_def option.inject)
    with that assms(3) show False by simp
  qed
  with assms(1) show ?thesis by (auto simp: lock_inv_def)
qed

lemma inv_open:
  assumes "lock_inv w" "owned (lw_phase w p) = None"
  shows "lock_inv (acquire_open p k w)"
proof (cases "lw_path w")
  case None
  with assms(1) have "pinned (lw_phase w q) = None" for q
    by (metis lock_inv_def not_Some_eq)
  moreover from this have "lw_phase w q \<noteq> Holding j" for q j
    by (metis option.distinct(1) pinned.simps(3))
  ultimately have "lock_inv (w\<lparr>lw_path := Some (lw_next w), lw_next := Suc (lw_next w), lw_text := (lw_text w)(lw_next w := None)\<rparr>)"
    using assms(1) by (simp add: lock_inv_def)
  from inv_move [OF this] None assms(2) show ?thesis by (simp add: acquire_open_def)
qed (use assms inv_move [of w] in \<open>simp add: acquire_open_def\<close>)

text \<open>Writing its own metadata is the last step of an acquire.\<close>

lemma inv_hold:
  assumes "lock_inv w" "lw_phase w p = AcqTruncated i"
  shows "lock_inv (to_phase p (Holding i) (w\<lparr>lw_text := (lw_text w)(i := Some (own_info w p))\<rparr>))"
proof -
  let ?w = "w\<lparr>lw_text := (lw_text w)(i := Some (own_info w p))\<rparr>"
  have w: "lock_inv ?w" using assms inv_text [of w p i] by simp
  have path: "lw_path w = Some i" using assms inv_pinned [of w p i] by simp
  have "(lw_excl w j = Some q) = (owned (if q = p then Holding i else lw_phase w q) = Some j)" for q j
    using assms inv_excl [OF assms(1), of j q] by (simp split: if_splits)
  moreover have "pinned (if q = p then Holding i else lw_phase w q) = Some j \<Longrightarrow> lw_path w = Some j" for q j
    using path inv_pinned [OF assms(1), of q j] by (simp split: if_splits)
  moreover have "\<exists>info. ((lw_text w)(i := Some (own_info w p))) j = Some info \<and> li_pid info = pid_of q"
    if "(if q = p then Holding i else lw_phase w q) = Holding j" for q j
  proof (cases "q = p")
    case True
    with that show ?thesis by (simp add: own_info_def)
  next
    case False
    with that w show ?thesis by (simp add: lock_inv_def)
  qed
  ultimately show ?thesis unfolding lock_inv_def to_phase_def by simp
qed

text \<open>The unlink: nobody else relies on the path when the only clear is the one that holds the flock.\<close>

lemma inv_unlink:
  assumes "lock_inv w" "lw_phase w p = ClrLocked i" "\<forall>q. clearing (lw_phase w q) \<longrightarrow> q = p"
  shows "lock_inv (to_phase p (ClrRemoved i) (w\<lparr>lw_path := None\<rparr>))"
proof -
  from assms(2) have path: "lw_path w = Some i" and ex: "lw_excl w i = Some p"
    using inv_pinned [OF assms(1), of p i] inv_excl [OF assms(1), of i p] by auto
  have free: "pinned (lw_phase w q) = None" if "q \<noteq> p" for q
  proof (rule ccontr)
    assume "pinned (lw_phase w q) \<noteq> None"
    with assms(1) path have "pinned (lw_phase w q) = Some i" by (auto simp: lock_inv_def)
    moreover have "\<not> clearing (lw_phase w q)" using that assms(3) by blast
    ultimately have "owned (lw_phase w q) = Some i" by (cases "lw_phase w q") auto
    with assms(1) ex that show False by (metis lock_inv_def option.inject)
  qed
  from assms(1,2) free show ?thesis by (auto simp: lock_inv_def to_phase_def)
qed

lemma inv_continue:
  assumes "lock_inv w" "calm w" "calm w'" "continue_op p (lw_phase w p) w = Some w'"
  shows "lock_inv w'"
proof (cases "lw_phase w p")
  case (AcqStart k)
  with assms inv_open [of w p k] show ?thesis by simp
next
  case (AcqOpened i k)
  with assms inv_take [of w i p "AcqLocked i k"] inv_close [of w Idle p] show ?thesis by (auto split: if_splits)
next
  case (AcqLocked i k)
  with assms inv_move [of w "AcqVerified i" p] inv_close [of w "AcqStart 1" p] inv_close [of w Idle p] show ?thesis
    by (auto simp: lockedInodeMatchesPath_def split: if_splits)
next
  case (AcqVerified i)
  then have "lock_inv (w\<lparr>lw_text := (lw_text w)(i := None)\<rparr>)" using assms(1) inv_text [of w p i] by simp
  moreover have "lw_path w = Some i" using AcqVerified inv_pinned [OF assms(1), of p i] by simp
  ultimately show ?thesis using AcqVerified assms(4) inv_move [of _ "AcqTruncated i" p] by auto
next
  case (AcqTruncated i)
  with assms(1,4) inv_hold [of w p i] show ?thesis by simp
next
  case PrbStart
  with assms(1,4) decision_free inv_move [of w _ p] show ?thesis by (auto split: option.splits)
next
  case (PrbOpened i)
  with assms(1,4) inv_move [of w _ p] inv_move [of "take_shared p i w" _ p] show ?thesis
    by (auto simp: take_shared_def inv_shared split: if_splits)
next
  case (PrbShared i)
  with assms(1,4) decision_free inv_close show ?thesis by auto
next
  case (PrbHeld i)
  with assms(1,4) decision_free inv_close show ?thesis by (auto simp: Let_def)
next
  case (ClrReady req)
  with assms(1,4) inv_move [of w _ p] show ?thesis by (auto split: option.splits)
next
  case (ClrOpened i req)
  then have "lw_path w = Some i" using inv_pinned [OF assms(1), of p i] by simp
  with ClrOpened assms(1,4) inv_take [of w i p "ClrLocked i"] inv_move [of w "ClrHeld i req" p] show ?thesis
    by (auto split: if_splits)
next
  case (ClrLocked i)
  moreover have "\<forall>q. clearing (lw_phase w q) \<longrightarrow> q = p" using assms(2) ClrLocked by (auto simp: calm_def)
  ultimately show ?thesis using assms(1,4) inv_unlink by auto
next
  case (ClrRemoved i)
  with assms(1,4) inv_close show ?thesis by auto
next
  case (ClrHeld i req)
  with assms(1,4) inv_close [of w Idle p] inv_move [of w "ClrMatched i" p] show ?thesis by (auto simp: Let_def split: if_splits)
next
  case (ClrMatched i)
  with assms(2) show ?thesis unfolding calm_def by (metis evicting.simps(1))
qed (use assms in auto)

lemma inv_step:
  assumes "lock_inv w" "calm w" "calm w'" "lock_step (p, a) w = Some w'"
  shows "lock_inv w'"
proof (cases a)
  case Go
  with assms inv_continue show ?thesis by (simp add: lock_step_def)
qed (use assms inv_move [of w _ p] inv_close [of w _ p] in
    \<open>auto simp: lock_step_def inv_shared split: if_splits phase.splits intro!: inv_move\<close>)

lemma calm_init: "calm (init_world started now)"
  by (simp add: calm_def init_world_def)

lemma reachable_inv: "reachable calm w \<Longrightarrow> lock_inv w \<and> calm w"
proof (induction rule: reachable.induct)
  case (step w pa w')
  then show ?case using inv_step by (cases pa) blast
qed (use inv_init calm_init in blast)

text \<open>
  C28: The runtime lock excludes: as long as no two clears are between their open and their unlink at the same
  time and no clear has decided to evict a holder, then whatever processes acquire, release, probe, clear, crash or
  start again under a used PID, in any interleaving of their system calls, at most one process holds the
  lock, the file at the path is the inode it holds, and the metadata in the file are its own.
\<close>

theorem runtime_lock_exclusive:
  assumes "reachable calm w" "lw_phase w p = Holding i" "lw_phase w q = Holding j"
  shows "p = q \<and> lw_path w = Some i \<and> (\<exists>info. lw_text w i = Some info \<and> li_pid info = pid_of p)"
proof -
  from reachable_inv [OF assms(1)] have i: "lock_inv w" by blast
  with assms(2,3) have "lw_path w = Some i" "lw_path w = Some j"
    using inv_pinned [OF i, of p i] inv_pinned [OF i, of q j] by simp_all
  then have "j = i" by simp
  with assms(2,3) inv_owner [OF i, of p i q] have "p = q" by simp
  with i assms(2) \<open>lw_path w = Some i\<close> show ?thesis by (auto simp: lock_inv_def)
qed

text \<open>An acquire on its own runs through its phases and stays calm.\<close>

fun acquiring :: "phase \<Rightarrow> bool" where
  "acquiring (AcqStart k) = True"
| "acquiring (AcqOpened i k) = True"
| "acquiring (AcqLocked i k) = True"
| "acquiring (AcqVerified i) = True"
| "acquiring (AcqTruncated i) = True"
| "acquiring (Holding i) = True"
| "acquiring Idle = True"
| "acquiring ph = False"

definition solo :: "proc \<Rightarrow> lock_world \<Rightarrow> bool" where
  "solo p w \<longleftrightarrow> acquiring (lw_phase w p) \<and> (\<forall>q. q \<noteq> p \<longrightarrow> lw_phase w q = Idle)"

lemma solo_calm: "solo p w \<Longrightarrow> calm w"
proof -
  assume s: "solo p w"
  have "\<not> clearing (lw_phase w q) \<and> \<not> evicting (lw_phase w q)" for q
    using s by (cases "q = p"; cases "lw_phase w q") (auto simp: solo_def)
  then show "calm w" by (simp add: calm_def)
qed

lemma solo_go: "solo p w \<Longrightarrow> lock_step (p, Go) w = Some w' \<Longrightarrow> solo p w'"
  by (cases "lw_phase w p")
    (auto simp: solo_def lock_step_def step_defs acquire_open_def split: if_splits option.splits)

lemma solo_run: "reachable calm w \<Longrightarrow> solo p w \<Longrightarrow> lock_run (replicate n (p, Go)) w = Some w' \<Longrightarrow> reachable calm w'"
proof (induction n arbitrary: w)
  case (Suc n)
  then obtain v where "lock_step (p, Go) w = Some v" "lock_run (replicate n (p, Go)) v = Some w'"
    by (auto split: option.splits)
  with Suc solo_go solo_calm show ?case using reachable.step by blast
qed simp

lemmas run_defs = lock_step_def init_world_def step_defs acquire_open_def TryLockExclusive_def TryLockShared_def
  lockedInodeMatchesPath_def

definition demo_world :: lock_world where
  "demo_world = to_phase 0 (AcqStart 0) (init_world (\<lambda>p. 7) 100)"

definition demo_held :: lock_world where
  "demo_held = the (lock_run (replicate 5 (0, Go)) demo_world)"

lemma demo_holding: "lock_run (replicate 5 (0, Go)) demo_world = Some demo_held" "lw_phase demo_held 0 = Holding 0"
  by (simp_all add: demo_held_def demo_world_def run_defs numeral_eq_Suc)

lemma demo_reachable: "reachable calm demo_held"
proof -
  have "lock_step (0, Acquire) (init_world (\<lambda>p. 7) 100) = Some demo_world" "solo 0 demo_world"
    by (simp_all add: demo_world_def run_defs solo_def)
  then have "reachable calm demo_world" using reachable.start reachable.step solo_calm by blast
  with \<open>solo 0 demo_world\<close> demo_holding(1) show ?thesis using solo_run by blast
qed

theorem runtime_lock_exclusive_witness:
  "(0::proc) = 0 \<and> lw_path demo_held = Some 0
    \<and> (\<exists>info. lw_text demo_held 0 = Some info \<and> li_pid info = pid_of 0)"
  by (rule runtime_lock_exclusive [OF demo_reachable demo_holding(2) demo_holding(2)])

subsection \<open>What the two conditions leave out\<close>

definition goes :: "nat \<Rightarrow> proc \<Rightarrow> (proc \<times> action) list" where
  "goes n p = replicate n (p, Go)"

text \<open>
  Two clears of a left-over file overlap: process 0 stops after its open, process 1 clears the file, process 2 acquires
  a new one, and process 0 goes on: the old inode is free, so it unlinks the path, which is the new file.
\<close>

definition overlapping_clears :: "(proc \<times> action) list" where
  "overlapping_clears =
     (2, Acquire) # goes 5 2 @ [(2, Release)]
     @ (0, ClearLock) # goes 4 0
     @ (1, ClearLock) # goes 7 1
     @ (2, Acquire) # goes 5 2
     @ goes 3 0
     @ (3, Acquire) # goes 5 3"

text \<open>
  Process 0 dies with its metadata in the file; process 2 has the flock but has not written yet when the clear of process 1
  reads the dead holder's metadata twice, finds them unchanged and unlinks the path.
\<close>

definition early_eviction :: "(proc \<times> action) list" where
  "early_eviction =
     (0, Acquire) # goes 5 0 @ [(0, Crash)]
     @ (2, Acquire) # goes 3 2
     @ (1, ClearLock) # goes 3 1 @ (1, Answer True) # goes 4 1
     @ goes 2 2
     @ (3, Acquire) # goes 5 3"

lemmas clear_eval = Let_def clear_decision_def runtimeLockProbeStale_def zero_probe_def zero_info_def clear_request_of_def
  readHolderBestEffort_def holderStillAlive_def processAlive_def world_kill_def own_info_def pid_of_def
  runtimeLockHolderStale_def holderFingerprintMatches_def

text \<open>
  C29: Neither condition of the exclusion can be dropped: with two overlapping clears of a free file, and with one clear
  that meets an acquirer between its flock and its metadata, the steps of the code lead from the initial
  world to two live processes that both hold the runtime lock, on different inodes.
\<close>

theorem runtime_lock_split_brain:
  "(\<exists>w. lock_run overlapping_clears (init_world started now) = Some w
      \<and> lw_phase w 2 = Holding 1 \<and> lw_phase w 3 = Holding 2)
    \<and> (\<exists>w. lock_run early_eviction (init_world started now) = Some w
      \<and> lw_phase w 2 = Holding 0 \<and> lw_phase w 3 = Holding 1)"
proof
  show "\<exists>w. lock_run overlapping_clears (init_world started now) = Some w
      \<and> lw_phase w 2 = Holding 1 \<and> lw_phase w 3 = Holding 2"
    by (simp add: overlapping_clears_def goes_def numeral_eq_Suc run_defs clear_eval)
  show "\<exists>w. lock_run early_eviction (init_world started now) = Some w
      \<and> lw_phase w 2 = Holding 0 \<and> lw_phase w 3 = Holding 1"
    by (simp add: early_eviction_def goes_def numeral_eq_Suc run_defs clear_eval)
qed

end
