(* ===== verification/State_Env.thy ===== *)
theory State_Env
  imports Status_Report Resources Placeholders
begin

text \<open>
  The environment files of a stack: \<open>internal/state/env.go\<close> reads \<open>.env\<close>; \<open>useredit.go\<close> reads \<open>.env.user\<close> and
  shows both without their secrets; \<open>validate.go\<close> builds the redactor of the commands that run on an
  installed stack; \<open>reconfigure_apply.go\<close> edits the three limits of one service in place.
\<close>

subsection \<open>Reading\<close>

datatype env_reason =
    EnvPathRelative string
  | EnvMissing
  | EnvUninspected os_error
  | EnvNotRegular string
  | EnvUnreadable os_error
  | EnvNoSeparator nat
  | EnvEmptyKey nat
  | EnvDuplicate nat string
  | UserEnvPath path_error
  | UserEnvUnreadable os_error

type_synonym env_error = "env_reason wdm_error"

definition stackEnvFilename :: string where
  "stackEnvFilename = ''.env''"

definition isStackEnvCommentLine :: "string \<Rightarrow> bool" where
  "isStackEnvCommentLine line \<longleftrightarrow> has_prefix (trim_start space_codes line) ''#''"

text \<open>One line of the loop; lines count from one.\<close>

definition env_step :: "(string, string) gomap \<Rightarrow> nat \<times> string \<Rightarrow> env_error + (string, string) gomap" where
  "env_step parsed numbered =
     (case numbered of (lineNumber, line) \<Rightarrow>
       (if trim_space line = [] then Inr parsed
        else if isStackEnvCommentLine line then Inr parsed
        else case cut (CHR ''='') line of (before, value, found) \<Rightarrow>
          (if \<not> found then Inl (UsageValidation (EnvNoSeparator lineNumber))
           else let key = trim_space before
                in if key = [] then Inl (UsageValidation (EnvEmptyKey lineNumber))
                   else if map_of parsed key \<noteq> None then Inl (UsageValidation (EnvDuplicate lineNumber key))
                   else Inr (parsed @ [(key, value)]))))"

definition parse_stack_env :: "string \<Rightarrow> env_error + (string, string) gomap" where
  "parse_stack_env raw = foldE env_step [] (enumerate 1 (split_on (CHR 10) raw))"

definition ReadStackEnv :: "stack_fs \<Rightarrow> stack_files \<Rightarrow> string \<Rightarrow> env_error + (string, string) gomap" where
  "ReadStackEnv fs files stackPath =
     (if stackPath = [] \<or> \<not> is_abs stackPath then Inl (Untyped (EnvPathRelative stackPath))
      else let envPath = path_join stackPath stackEnvFilename
           in case lstat fs envPath of
                Inl err \<Rightarrow> (if err = NotExist then Inl (UsageValidation EnvMissing)
                             else Inl (UsageValidation (EnvUninspected err)))
              | Inr RegularFile \<Rightarrow>
                  (case file_text files envPath of
                     Inl err \<Rightarrow> (if err = NotExist then Inl (UsageValidation EnvMissing)
                                  else Inl (UsageValidation (EnvUnreadable err)))
                   | Inr raw \<Rightarrow> parse_stack_env raw)
              | Inr _ \<Rightarrow> Inl (UsageValidation (EnvNotRegular envPath)))"

text \<open>Both sentinels of a missing file.\<close>

definition env_missing :: "env_error \<Rightarrow> bool" where
  "env_missing e \<longleftrightarrow> e = UsageValidation EnvMissing"

text \<open>The user's file: lines that are no assignment are skipped, keys may repeat.\<close>

definition user_env_entry :: "string \<Rightarrow> (string \<times> string) list" where
  "user_env_entry line =
     (if trim_space line = [] then []
      else if has_prefix (trim_start space_codes line) ''#'' then []
      else case cut (CHR ''='') line of (before, value, found) \<Rightarrow>
        (if \<not> found then []
         else let key = trim_space before in if key = [] then [] else [(key, value)]))"

definition readUserEnvEntries :: "stack_files \<Rightarrow> string \<Rightarrow> env_error + (string \<times> string) list" where
  "readUserEnvEntries files stackPath =
     (case SafeJoin stackPath composeUserEnvFilename of
        Inl e \<Rightarrow> Inl (UsageValidation (UserEnvPath e))
      | Inr path \<Rightarrow>
     (case file_text files path of
        Inl err \<Rightarrow> (if err = NotExist then Inr [] else Inl (Coded ErrCodeGeneric (UserEnvUnreadable err)))
      | Inr raw \<Rightarrow> Inr (concat (map user_env_entry (split_on (CHR 10) raw)))))"

definition readUserEnvValues :: "stack_files \<Rightarrow> string \<Rightarrow> env_error + string list" where
  "readUserEnvValues files stackPath =
     bindE (readUserEnvEntries files stackPath) (\<lambda>entries. Inr (filter (\<lambda>v. v \<noteq> []) (map snd entries)))"

text \<open>The secrets of the redactor that \<open>validateConfigRedactor\<close> returns.\<close>

definition validateConfigRedactor :: "stack_fs \<Rightarrow> stack_files \<Rightarrow> string \<Rightarrow> env_error + string list" where
  "validateConfigRedactor fs files stackPath =
     bindE (case ReadStackEnv fs files stackPath of
              Inl err \<Rightarrow> (if env_missing err then Inr [] else Inl err)
            | Inr env \<Rightarrow> Inr env) (\<lambda>env.
     bindE (readUserEnvValues files stackPath) (\<lambda>userValues.
       Inr (filter (\<lambda>v. v \<noteq> []) (map snd env) @ userValues)))"

subsection \<open>Showing\<close>

record env_entry =
  ee_key :: string
  ee_value :: string
  ee_secret :: bool

definition secretishKeyPattern :: "string \<Rightarrow> bool" where
  "secretishKeyPattern key \<longleftrightarrow>
     list_ex (contains (fold_case key)) [''password'', ''secret'', ''token'', ''key'', ''salt'']"

definition redactEnvEntry :: "string list \<Rightarrow> string \<Rightarrow> string \<Rightarrow> env_entry" where
  "redactEnvEntry secrets key value =
     (if secretishKeyPattern key then \<lparr>ee_key = key, ee_value = RedactedPlaceholder, ee_secret = True\<rparr>
      else let redacted = Redact secrets value
           in \<lparr>ee_key = key, ee_value = redacted, ee_secret = (redacted \<noteq> value)\<rparr>)"

definition collectStackSecretValues :: "app \<Rightarrow> (string, string) gomap \<Rightarrow> string list" where
  "collectStackSecretValues a env =
     concat (map (\<lambda>ph. if ph_type ph \<noteq> ''secret'' \<and> \<not> ph_sensitive ph then []
       else case map_of env (ph_name ph) of None \<Rightarrow> [] | Some v \<Rightarrow> if v \<noteq> [] then [v] else [])
       (app_placeholders a))"

text \<open>The entries of \<open>ViewEnvRedacted\<close>, for the application of the catalog and the stack that were found.\<close>

definition view_env_entries :: "app \<Rightarrow> stack_fs \<Rightarrow> stack_files \<Rightarrow> string \<Rightarrow> env_error + env_entry list" where
  "view_env_entries a fs files stackPath =
     bindE (ReadStackEnv fs files stackPath) (\<lambda>baseEnv.
     bindE (readUserEnvEntries files stackPath) (\<lambda>userEntries.
       (let userValues = filter (\<lambda>v. v \<noteq> []) (map snd userEntries);
            secrets = collectStackSecretValues a baseEnv @ userValues
        in Inr (map (\<lambda>k. redactEnvEntry secrets k (get_or [] baseEnv k)) (sorted_keys baseEnv)
             @ map (\<lambda>(k, v). redactEnvEntry secrets k v) userEntries))))"

datatype view_reason = ViewAppIdRequired | ViewLookup lookup_reason | ViewCatalog string | ViewPlan plan_reason | ViewEnv env_reason

text \<open>\<open>Engine.ViewEnvRedacted\<close>; the loaded catalog is an argument.\<close>

definition ViewEnvRedacted ::
  "stack_fs \<Rightarrow> stack_files \<Rightarrow> string \<Rightarrow> string + catalog_doc \<Rightarrow> string \<Rightarrow> view_reason wdm_error + env_entry list" where
  "ViewEnvRedacted fs files base catalog appID =
     (if appID = [] then Inl (UsageValidation ViewAppIdRequired)
      else case resolveManagedStack fs base appID of
        Inl e \<Rightarrow> Inl (map_wdm_error ViewLookup e)
      | Inr (stackPath, lock) \<Rightarrow>
     (case catalog of
        Inl s \<Rightarrow> Inl (Untyped (ViewCatalog s))
      | Inr cat \<Rightarrow>
     (case selectCatalogApp cat appID of
        Inl e \<Rightarrow> Inl (map_wdm_error ViewPlan e)
      | Inr a \<Rightarrow>
     (case view_env_entries a fs files stackPath of
        Inl e \<Rightarrow> Inl (map_wdm_error ViewEnv e)
      | Inr entries \<Rightarrow> Inr entries))))"

subsection \<open>Editing the limits of one service\<close>

definition resource_targets :: "string \<Rightarrow> string \<Rightarrow> string \<Rightarrow> int \<Rightarrow> (string, string) gomap" where
  "resource_targets key memory cpus pids =
     [(''MEMORY_LIMIT_'' @ key, memory), (''CPUS_LIMIT_'' @ key, cpus), (''PIDS_LIMIT_'' @ key, itoa pids)]"

text \<open>One line of the loop; the error is the duplicated key.\<close>

definition rewrite_step ::
  "(string, string) gomap \<Rightarrow> string list \<times> string list \<Rightarrow> string \<Rightarrow> string + string list \<times> string list" where
  "rewrite_step targets st line =
     (case st of (seen, out) \<Rightarrow>
       (case cut (CHR ''='') line of (before, value, found) \<Rightarrow>
         (if \<not> found then Inr (seen, out @ [line])
          else let key = trim_space before
               in case map_of targets key of
                    None \<Rightarrow> Inr (seen, out @ [line])
                  | Some newValue \<Rightarrow>
                      (if key \<in> set seen then Inl key
                       else Inr (key # seen, out @ [key @ CHR ''='' # newValue])))))"

definition rewriteResourceEnvLines :: "string \<Rightarrow> string \<Rightarrow> string \<Rightarrow> string \<Rightarrow> int \<Rightarrow> string + string" where
  "rewriteResourceEnvLines env key memory cpus pids =
     (let targets = resource_targets key memory cpus pids;
          hadTrailingNewline = (env \<noteq> [] \<and> last env = CHR 10);
          ls = split_on (CHR 10) env;
          ls = (if hadTrailingNewline \<and> ls \<noteq> [] \<and> last ls = [] then butlast ls else ls)
      in bindE (foldE (rewrite_step targets) ([], []) ls) (\<lambda>(seen, ls).
           (let ls = ls @ map (\<lambda>(k, v). k @ CHR ''='' # v) (filter (\<lambda>(k, v). k \<notin> set seen) targets);
                out = join_with [CHR 10] ls
            in Inr (if hadTrailingNewline \<or> out \<noteq> [] then out @ [CHR 10] else out))))"

subsection \<open>What the parser accepts\<close>

datatype line_view = Skipped | Malformed | Assigns string string

definition line_view :: "string \<Rightarrow> line_view" where
  "line_view line =
     (if trim_space line = [] \<or> isStackEnvCommentLine line then Skipped
      else case cut (CHR ''='') line of (before, value, found) \<Rightarrow>
        (if \<not> found \<or> trim_space before = [] then Malformed else Assigns (trim_space before) value))"

fun assigned :: "line_view \<Rightarrow> (string \<times> string) list" where
  "assigned (Assigns k v) = [(k, v)]"
| "assigned lv = []"

definition assignments :: "string list \<Rightarrow> (string, string) gomap" where
  "assignments ls = concat (map (\<lambda>l. assigned (line_view l)) ls)"

definition well_formed :: "string list \<Rightarrow> bool" where
  "well_formed ls \<longleftrightarrow> (\<forall>l \<in> set ls. line_view l \<noteq> Malformed)"

lemma well_formed_simps [simp]:
  "well_formed []" "well_formed (l # ls) \<longleftrightarrow> line_view l \<noteq> Malformed \<and> well_formed ls"
  "well_formed (ls @ ls') \<longleftrightarrow> well_formed ls \<and> well_formed ls'"
  by (auto simp: well_formed_def)

lemma assignments_simps [simp]:
  "assignments [] = []" "assignments (l # ls) = assigned (line_view l) @ assignments ls"
  "assignments (ls @ ls') = assignments ls @ assignments ls'"
  by (simp_all add: assignments_def)

lemma env_step_view:
  "env_step m (n, l) = Inr m' \<longleftrightarrow> line_view l \<noteq> Malformed \<and> m' = m @ assigned (line_view l)
     \<and> keys_of m \<inter> keys_of (assigned (line_view l)) = {}"
  by (auto simp: env_step_def line_view_def Let_def keys_of_def map_of_eq_None_iff split: prod.splits)

lemma env_fold:
  "foldE env_step m (enumerate n ls) = Inr m' \<longleftrightarrow>
     well_formed ls \<and> m' = m @ assignments ls
     \<and> distinct (map fst (assignments ls)) \<and> keys_of m \<inter> keys_of (assignments ls) = {}"
proof (induction ls arbitrary: n m)
  case (Cons l ls)
  have "foldE env_step m (enumerate n (l # ls)) = Inr m' \<longleftrightarrow>
      line_view l \<noteq> Malformed \<and> keys_of m \<inter> keys_of (assigned (line_view l)) = {}
      \<and> foldE env_step (m @ assigned (line_view l)) (enumerate (Suc n) ls) = Inr m'"
    by (auto simp: bindE_Inr env_step_view)
  also have "\<dots> \<longleftrightarrow> well_formed (l # ls) \<and> m' = m @ assignments (l # ls)
      \<and> distinct (map fst (assignments (l # ls))) \<and> keys_of m \<inter> keys_of (assignments (l # ls)) = {}"
    unfolding Cons.IH by (cases "line_view l") (auto simp: keys_of_def)
  finally show ?case .
qed (auto simp: keys_of_def)

lemma parse_env_exact:
  "parse_stack_env raw = Inr m \<longleftrightarrow>
     well_formed (split_on (CHR 10) raw) \<and> m = assignments (split_on (CHR 10) raw)
     \<and> distinct (map fst m)"
  by (auto simp: parse_stack_env_def env_fold keys_of_def)

text \<open>The user's file has the same lines without the errors.\<close>

lemma user_entry_view: "user_env_entry l = assigned (line_view l)"
  by (auto simp: user_env_entry_def line_view_def isStackEnvCommentLine_def Let_def split: prod.splits)

subsection \<open>Round trip\<close>

definition print_env :: "(string, string) gomap \<Rightarrow> string" where
  "print_env m = concat (map (\<lambda>(k, v). k @ CHR ''='' # v @ [CHR 10]) m)"

definition env_key :: "string \<Rightarrow> bool" where
  "env_key k \<longleftrightarrow> k \<noteq> [] \<and> (\<forall>c \<in> set k. visible c \<and> c \<noteq> CHR ''='' \<and> c \<noteq> CHR ''#'')"

lemma env_key_trim: "env_key k \<Longrightarrow> trim_space k = k"
proof -
  assume k: "env_key k"
  then obtain c r where kc: "k = c # r" by (cases k) (auto simp: env_key_def)
  moreover have "last k \<in> set k" using kc by simp
  ultimately have "visible c" "visible (last k)" using k by (auto simp: env_key_def)
  with kc show ?thesis by (rule trim_visible_ends)
qed

lemma visible_start: "visible c \<Longrightarrow> trim_start space_codes (c # r) = c # r"
  by (rule trim_start_id) (use visible_no_space [of c] in \<open>auto simp: strip_any_None has_prefix_iff Cons_eq_append_conv\<close>)

lemma print_line_view: "env_key k \<Longrightarrow> line_view (k @ CHR ''='' # v) = Assigns k v"
proof -
  assume k: "env_key k"
  then obtain c r where kc: "k = c # r" "visible c" "c \<noteq> CHR ''#''" by (cases k) (auto simp: env_key_def)
  have "trim_space (k @ CHR ''='' # v) \<noteq> []"
    by (rule visible_nonblank [of c]) (simp_all add: kc)
  moreover have "\<not> isStackEnvCommentLine (k @ CHR ''='' # v)"
    using kc visible_start by (simp add: isStackEnvCommentLine_def has_prefix_iff)
  moreover have "cut (CHR ''='') (k @ CHR ''='' # v) = (k, v, True)"
    using k by (intro cut_found) (auto simp: env_key_def)
  ultimately show ?thesis using env_key_trim [OF k] k by (simp add: line_view_def env_key_def)
qed

lemma trim_space_Nil: "trim_space [] = []"
proof -
  have "trim_start ps [] = []" for ps
    by (rule trim_start_id) (auto simp: strip_any_None has_prefix_iff)
  then show ?thesis by (simp add: trim_space_def)
qed

lemma print_lines:
  assumes "\<forall>(k, v) \<in> set m. env_key k \<and> CHR 10 \<notin> set v"
  shows "split_on (CHR 10) (print_env m) = map (\<lambda>(k, v). k @ CHR ''='' # v) m @ [[]]"
  using assms
proof (induction m)
  case (Cons kv m)
  obtain k v where kv: "kv = (k, v)" by (cases kv)
  have "\<not> visible (CHR 10)" by (simp add: visible_def byte_def of_char_def)
  with Cons.prems kv have "CHR 10 \<notin> set (k @ CHR ''='' # v)" by (auto simp: env_key_def)
  from split_on_sep [OF this, of "print_env m"] Cons kv show ?case by (simp add: print_env_def)
qed (simp add: print_env_def)

lemma parse_printed_env:
  assumes "\<forall>(k, v) \<in> set m. env_key k \<and> CHR 10 \<notin> set v" "distinct (map fst m)"
  shows "parse_stack_env (print_env m) = Inr m"
proof -
  have view: "assigned (line_view (k @ CHR ''='' # v)) = [(k, v)]" "line_view (k @ CHR ''='' # v) \<noteq> Malformed"
    if "(k, v) \<in> set m" for k v
    using that assms(1) print_line_view by auto
  have blank: "line_view [] = Skipped" by (simp add: line_view_def trim_space_Nil)
  have "assignments (map (\<lambda>(k, v). k @ CHR ''='' # v) m) = m" "well_formed (map (\<lambda>(k, v). k @ CHR ''='' # v) m)"
    using view by (induction m) auto
  with blank show ?thesis
    unfolding parse_env_exact print_lines [OF assms(1)] using assms(2) by auto
qed

lemma stack_env_read:
  assumes "\<forall>(k, v) \<in> set m. env_key k \<and> CHR 10 \<notin> set v" "distinct (map fst m)"
    and "is_abs d" "lstat fs (path_join d stackEnvFilename) = Inr RegularFile"
    and "file_text files (path_join d stackEnvFilename) = Inr (print_env m)"
  shows "ReadStackEnv fs files d = Inr m"
  using parse_printed_env [OF assms(1,2)] assms(3-5) by (auto simp: ReadStackEnv_def is_abs_def)

text \<open>
  What the installer writes as \<open>KEY=VALUE\<close> lines, \<open>ReadStackEnv\<close> reads back: every map whose keys are
  visible text without an equals sign or a number sign and whose values have no line feed, whatever else they contain.
\<close>

lemma stack_env_roundtrip:
  assumes "\<forall>(k, v) \<in> set m. env_key k \<and> CHR 10 \<notin> set v" "distinct (map fst m)"
    and "is_abs d" "lstat fs (path_join d stackEnvFilename) = Inr RegularFile"
    and "file_text files (path_join d stackEnvFilename) = Inr (print_env m)"
  shows "ReadStackEnv fs files d = Inr m"
  using assms by (rule stack_env_read)

text \<open>A stack with three variables, one of them with an equals sign in its value.\<close>

definition demo_env :: "(string, string) gomap" where
  "demo_env = [(''URL'', ''http://x/?a=b''), (''MEMORY_LIMIT_WEB'', ''256m''), (''PW'', ''#hunter2'')]"

definition env_fs :: stack_fs where
  "env_fs = \<lparr>lstat = (\<lambda>p. Inr RegularFile), read_dir = (\<lambda>p. Inl NotExist), try_read_lock = (\<lambda>p. LockMissing),
     read_lock = (\<lambda>p. LockMissing), acquire_lock = (\<lambda>p. LockHeld None)\<rparr>"

definition env_files :: "string \<Rightarrow> stack_files" where
  "env_files s = \<lparr>stat_dir = (\<lambda>p. Inr False), file_text = (\<lambda>p. Inr s)\<rparr>"

lemma demo_env_keys: "\<forall>(k, v) \<in> set demo_env. env_key k \<and> CHR 10 \<notin> set v" "distinct (map fst demo_env)"
  by (simp_all add: demo_env_def env_key_def visible_def byte_def of_char_def)

lemma stack_env_roundtrip_witness: "ReadStackEnv env_fs (env_files (print_env demo_env)) ''/srv/demo'' = Inr demo_env"
  by (rule stack_env_roundtrip) (simp_all add: demo_env_keys env_fs_def env_files_def is_abs_def)

subsection \<open>What the view hides\<close>

lemma placeholder_hides: "hidden_secret w \<Longrightarrow> \<not> contains RedactedPlaceholder w"
proof
  assume w: "hidden_secret w" and c: "contains RedactedPlaceholder w"
  define x where "x = ''REDACTED''"
  from w have n: "w \<noteq> []" "CHR ''['' \<notin> set w" "CHR '']'' \<notin> set w" "\<not> contains x w"
    unfolding hidden_secret_def x_def by blast+
  have none: "\<not> contains [] w" using n(1) by (cases w) auto
  have "RedactedPlaceholder = [] @ CHR ''['' # (x @ CHR '']'' # [])" by (simp add: RedactedPlaceholder_def x_def)
  with c none contains_across [of "[]" "CHR ''[''" "x @ CHR '']'' # []" w] n(2)
  have "contains (x @ CHR '']'' # []) w" by (simp only:) blast
  from contains_across [OF this n(3)] n(4) none show False by blast
qed

lemma recorded_collected:
  "ph \<in> set (app_placeholders a) \<Longrightarrow> ph_type ph = ''secret'' \<or> ph_sensitive ph \<Longrightarrow>
     map_of env (ph_name ph) = Some w \<Longrightarrow> w \<noteq> [] \<Longrightarrow> w \<in> set (collectStackSecretValues a env)"
  by (force simp: collectStackSecretValues_def)

text \<open>
  C30: \<open>ViewEnvRedacted\<close> shows no secret of the stack: no value it returns contains the value that the
  environment file records for a placeholder the catalog declares of type secret or marks sensitive, or a
  value of the user's file (as the line holds it, quotes included), whichever key it stands under. The
  value must be one the redactor can hide: it has no square bracket and is not a part of the word REDACTED.
\<close>

theorem view_env_hides:
  assumes "ViewEnvRedacted fs files base (Inr cat) appID = Inr entries" "e \<in> set entries"
    and "selectCatalogApp cat appID = Inr a" "resolveManagedStack fs base appID = Inr (d, lock)"
    and "ReadStackEnv fs files d = Inr env" "readUserEnvEntries files d = Inr user"
    and "w \<noteq> []" "CHR ''['' \<notin> set w" "CHR '']'' \<notin> set w" "\<not> contains ''REDACTED'' w"
    and "(\<exists>ph \<in> set (app_placeholders a). (ph_type ph = ''secret'' \<or> ph_sensitive ph)
        \<and> map_of env (ph_name ph) = Some w) \<or> w \<in> snd ` set user"
  shows "\<not> contains (ee_value e) w"
proof -
  let ?s = "collectStackSecretValues a env @ filter (\<lambda>v. v \<noteq> []) (map snd user)"
  from assms(1-6) have "entries = map (\<lambda>k. redactEnvEntry ?s k (get_or [] env k)) (sorted_keys env)
      @ map (\<lambda>(k, v). redactEnvEntry ?s k v) user"
    by (auto simp: ViewEnvRedacted_def view_env_entries_def Let_def split: if_splits)
  with assms(2) obtain k v where e: "e = redactEnvEntry ?s k v" by auto
  have "w \<in> set ?s" using assms(7,11) by (auto simp: recorded_collected)
  moreover have h: "hidden_secret w" using assms(7-10) by (simp add: hidden_secret_def)
  moreover have "\<not> contains RedactedPlaceholder w" using h placeholder_hides by blast
  ultimately show ?thesis using redact_hides_secret by (simp add: e redactEnvEntry_def Let_def)
qed

definition demo_secret_app :: app where
  "demo_secret_app = zero_app\<lparr>app_id := ''demo'', app_placeholders :=
     [\<lparr>ph_name = ''PW'', ph_type = ''secret'', ph_required = True, ph_encoding = ''hex'', ph_default = None,
       ph_regenerable = None, ph_sensitive = False\<rparr>]\<rparr>"

definition demo_pw :: "(string, string) gomap" where
  "demo_pw = [(''PW'', ''abc123'')]"

lemma demo_env_path: "path_join ''/srv/demo'' stackEnvFilename = ''/srv/demo/.env''" by code_simp

theorem view_env_hides_witness:
  "\<exists>entries. ViewEnvRedacted demo_fs (env_files (print_env demo_pw)) ''/srv''
       (Inr \<lparr>cat_schema_version = 1, cat_channel = [], cat_generated_at = [], cat_apps = [demo_secret_app]\<rparr>) ''demo'' = Inr entries
     \<and> \<not> contains (ee_value (hd entries)) ''abc123''"
proof -
  let ?cat = "\<lparr>cat_schema_version = 1, cat_channel = [], cat_generated_at = [], cat_apps = [demo_secret_app]\<rparr>"
  let ?files = "env_files (print_env demo_pw)"
  have sel: "selectCatalogApp ?cat ''demo'' = Inr demo_secret_app"
    by (simp add: selectCatalogApp_def demo_secret_app_def zero_app_def)
  have keys: "\<forall>(k, v) \<in> set demo_pw. env_key k \<and> CHR 10 \<notin> set v" "distinct (map fst demo_pw)"
    by (simp_all add: demo_pw_def env_key_def visible_def byte_def of_char_def)
  have env: "ReadStackEnv demo_fs ?files ''/srv/demo'' = Inr demo_pw"
    by (rule stack_env_read [OF keys]) (simp_all add: is_abs_def demo_env_path demo_fs_def env_files_def)
  have "SafeJoin ''/srv/demo'' composeUserEnvFilename = Inr ''/srv/demo/.env.user''" by code_simp
  then obtain user where user: "readUserEnvEntries ?files ''/srv/demo'' = Inr user"
    by (simp add: readUserEnvEntries_def env_files_def)
  obtain entries where entries: "ViewEnvRedacted demo_fs ?files ''/srv'' (Inr ?cat) ''demo'' = Inr entries" "entries \<noteq> []"
    using env user sel demo_resolved
    by (simp add: ViewEnvRedacted_def view_env_entries_def Let_def demo_pw_def sorted_keys_def)
  have "\<exists>ph \<in> set (app_placeholders demo_secret_app). (ph_type ph = ''secret'' \<or> ph_sensitive ph)
      \<and> map_of demo_pw (ph_name ph) = Some ''abc123''"
    by (simp add: demo_secret_app_def demo_pw_def zero_app_def)
  with view_env_hides [OF entries(1) _ sel demo_resolved env user, of "hd entries" "''abc123''"] entries
  show ?thesis by simp
qed

subsection \<open>The edit of the limits\<close>

lemma trim_start_prefix: "\<exists>p. s = p @ trim_start ps s \<and> set p \<subseteq> (\<Union>q \<in> set ps. set q)"
proof (induction ps s rule: trim_start.induct)
  case (1 ps s)
  show ?case
  proof (cases "strip_any ps s")
    case None
    then show ?thesis by (simp add: trim_start_id)
  next
    case (Some r)
    from "1.IH" [OF Some] obtain q where q: "r = q @ trim_start ps r" "set q \<subseteq> (\<Union>q \<in> set ps. set q)" by blast
    obtain p where "p \<in> set ps" "s = p @ r" using strip_any_code [OF Some] by blast
    moreover have "trim_start ps s = trim_start ps r" using Some by (subst trim_start.simps) simp
    ultimately show ?thesis using q by (intro exI [of _ "p @ q"]) auto
  qed
qed

lemma trim_space_subset: "set (trim_space s) \<subseteq> set s"
proof -
  have "set (trim_start ps s) \<subseteq> set s" for ps s using trim_start_suffix by (metis Un_upper2 set_append)
  then show ?thesis unfolding trim_space_def Let_def by (metis (no_types, lifting) order_trans set_rev)
qed

text \<open>A line that sets a key of the targets is an assignment of it, and only such a line is touched.\<close>

lemma target_line:
  assumes "cut (CHR ''='') l = (before, value, True)" "trim_space before = k" "env_key k"
  shows "line_view l = Assigns k value"
proof -
  from assms(1) have l: "l = before @ CHR ''='' # value" using cut_Some by fastforce
  have k: "k \<noteq> []" "CHR ''#'' \<notin> set k" using assms(3) by (auto simp: env_key_def)
  have eq: "\<not> visible c \<or> True" for c by simp
  have sharp: "visible (CHR ''#'')" "visible (CHR ''='')" by (simp_all add: visible_def byte_def of_char_def)
  have "trim_space l \<noteq> []" by (rule visible_nonblank [OF _ sharp(2)]) (simp add: l)
  moreover have "\<not> isStackEnvCommentLine l"
  proof
    assume "isStackEnvCommentLine l"
    then obtain r where r: "trim_start space_codes l = CHR ''#'' # r"
      by (auto simp: isStackEnvCommentLine_def has_prefix_iff)
    obtain p where p: "l = p @ CHR ''#'' # r" "set p \<subseteq> (\<Union>q \<in> set space_codes. set q)"
      using trim_start_prefix [of l space_codes] r by auto
    then have "CHR ''='' \<notin> set p" using visible_no_space [OF sharp(2)] by blast
    with p(1) l have "CHR ''#'' \<in> set before"
      by (auto simp: append_eq_append_conv2 Cons_eq_append_conv append_eq_Cons_conv)
    then have "CHR ''#'' \<in> set (trim_space before)"
      using trim_space_keeps [OF _ visible_no_space [OF sharp(1)]] by blast
    with assms(2) k show False by simp
  qed
  ultimately show ?thesis using assms(1,2) k by (simp add: line_view_def)
qed

definition hit :: "(string, string) gomap \<Rightarrow> string \<Rightarrow> (string \<times> string) option" where
  "hit targets l = (case cut (CHR ''='') l of (before, value, found) \<Rightarrow>
     if \<not> found then None else map_option (Pair (trim_space before)) (map_of targets (trim_space before)))"

definition edited :: "(string, string) gomap \<Rightarrow> string \<Rightarrow> string" where
  "edited targets l = (case hit targets l of None \<Rightarrow> l | Some (k, v) \<Rightarrow> k @ CHR ''='' # v)"

lemma rewrite_step_hit:
  "rewrite_step targets (seen, out) l =
     (case hit targets l of
        None \<Rightarrow> Inr (seen, out @ [l])
      | Some (k, v) \<Rightarrow> if k \<in> set seen then Inl k else Inr (k # seen, out @ [k @ CHR ''='' # v]))"
  by (auto simp: rewrite_step_def hit_def Let_def split: prod.splits option.splits)

definition good_targets :: "(string, string) gomap \<Rightarrow> bool" where
  "good_targets targets \<longleftrightarrow> distinct (map fst targets) \<and> (\<forall>(k, v) \<in> set targets. env_key k \<and> CHR 10 \<notin> set v)"

lemma hit_view:
  assumes "good_targets T"
  shows "hit T l = Some (k, v) \<Longrightarrow> map_of T k = Some v \<and> (\<exists>old. line_view l = Assigns k old)"
    and "hit T l = None \<Longrightarrow> line_view l = Assigns k old \<Longrightarrow> map_of T k = None"
proof -
  assume h: "hit T l = Some (k, v)"
  then obtain before old where c: "cut (CHR ''='') l = (before, old, True)" "k = trim_space before" "map_of T k = Some v"
    by (auto simp: hit_def split: prod.splits if_splits)
  then have "env_key k" using assms map_of_SomeD [of T k v] by (auto simp: good_targets_def)
  with c target_line [of l before old k] show "map_of T k = Some v \<and> (\<exists>old. line_view l = Assigns k old)" by auto
next
  assume "hit T l = None" "line_view l = Assigns k old"
  then show "map_of T k = None" by (auto simp: hit_def line_view_def split: prod.splits if_splits)
qed

definition set_targets :: "(string, string) gomap \<Rightarrow> string \<times> string \<Rightarrow> string \<times> string" where
  "set_targets T kv = (fst kv, case map_of T (fst kv) of None \<Rightarrow> snd kv | Some v \<Rightarrow> v)"

lemma edited_view:
  assumes "good_targets T"
  shows "assigned (line_view (edited T l)) = map (set_targets T) (assigned (line_view l))"
    and "line_view (edited T l) = Malformed \<longleftrightarrow> line_view l = Malformed"
proof -
  have "assigned (line_view (edited T l)) = map (set_targets T) (assigned (line_view l))
      \<and> (line_view (edited T l) = Malformed \<longleftrightarrow> line_view l = Malformed)"
  proof (cases "hit T l")
    case None
    with hit_view(2) [OF assms None] show ?thesis
      by (cases "line_view l") (auto simp: edited_def set_targets_def)
  next
    case (Some kv)
    obtain k v where kv: "kv = (k, v)" by (cases kv)
    with Some hit_view(1) [OF assms, of l k v] obtain old where o: "map_of T k = Some v" "line_view l = Assigns k old" by auto
    then have "env_key k" using assms map_of_SomeD [of T k v] by (auto simp: good_targets_def)
    with Some kv o print_line_view [of k v] show ?thesis by (simp add: edited_def set_targets_def)
  qed
  then show "assigned (line_view (edited T l)) = map (set_targets T) (assigned (line_view l))"
    "line_view (edited T l) = Malformed \<longleftrightarrow> line_view l = Malformed" by blast+
qed

lemma rewrite_fold:
  assumes "good_targets T" "distinct (map fst (assignments ls))" "set seen \<inter> keys_of (assignments ls) = {}"
  shows "\<exists>seen'. foldE (rewrite_step T) (seen, out) ls = Inr (seen', out @ map (edited T) ls)
    \<and> set seen' = set seen \<union> (keys_of (assignments ls) \<inter> keys_of T)"
  using assms(2,3)
proof (induction ls arbitrary: seen out)
  case (Cons l ls)
  show ?case
  proof (cases "hit T l")
    case None
    have "keys_of (assigned (line_view l)) \<inter> keys_of T = {}"
      using hit_view(2) [OF assms(1) None] by (cases "line_view l") (auto simp: keys_of_def map_of_eq_None_iff)
    moreover have "edited T l = l" using None by (simp add: edited_def)
    moreover obtain seen' where "foldE (rewrite_step T) (seen, out @ [l]) ls = Inr (seen', (out @ [l]) @ map (edited T) ls)"
        "set seen' = set seen \<union> (keys_of (assignments ls) \<inter> keys_of T)"
      using Cons.IH [of seen "out @ [l]"] Cons.prems by (auto simp: keys_of_def)
    ultimately show ?thesis using None by (intro exI [of _ seen']) (auto simp: rewrite_step_hit keys_of_def)
  next
    case (Some kv)
    obtain k v where kv: "kv = (k, v)" by (cases kv)
    with Some hit_view(1) [OF assms(1), of l k v] obtain old where o: "map_of T k = Some v" "line_view l = Assigns k old" by auto
    have "k \<in> keys_of T" using o(1) by (metis keys_of_iff option.distinct(1))
    moreover have "edited T l = k @ CHR ''='' # v" using Some kv by (simp add: edited_def)
    moreover have "k \<notin> set seen" "set (k # seen) \<inter> keys_of (assignments ls) = {}" "distinct (map fst (assignments ls))"
      using Cons.prems o(2) by (auto simp: keys_of_def)
    moreover from this obtain seen' where "foldE (rewrite_step T) (k # seen, out @ [k @ CHR ''='' # v]) ls
          = Inr (seen', (out @ [k @ CHR ''='' # v]) @ map (edited T) ls)"
        "set seen' = set (k # seen) \<union> (keys_of (assignments ls) \<inter> keys_of T)"
      using Cons.IH [of "k # seen" "out @ [k @ CHR ''='' # v]"] by blast
    ultimately show ?thesis using Some kv o(2) by (intro exI [of _ seen']) (auto simp: rewrite_step_hit keys_of_def)
  qed
qed auto

lemma added_lines:
  assumes "good_targets T" "set xs \<subseteq> set T"
  shows "assignments (map (\<lambda>(k, v). k @ CHR ''='' # v) xs) = xs"
    and "well_formed (map (\<lambda>(k, v). k @ CHR ''='' # v) xs)"
proof -
  have view: "line_view (k @ CHR ''='' # v) = Assigns k v" if "(k, v) \<in> set T" for k v
    using that assms(1) print_line_view by (auto simp: good_targets_def)
  show "assignments (map (\<lambda>(k, v). k @ CHR ''='' # v) xs) = xs"
    using assms(2) by (induction xs) (auto simp: view)
  show "well_formed (map (\<lambda>(k, v). k @ CHR ''='' # v) xs)"
    using assms(2) by (induction xs) (auto simp: view)
qed

lemma edited_assignments:
  assumes "good_targets T"
  shows "assignments (map (edited T) ls) = map (set_targets T) (assignments ls)"
    and "well_formed (map (edited T) ls) \<longleftrightarrow> well_formed ls"
  by (induction ls) (simp_all add: edited_view [OF assms])

lemma target_free:
  assumes "good_targets T" "(k, v) \<in> set T"
  shows "CHR 10 \<notin> set (k @ CHR ''='' # v)"
proof -
  have "env_key k" "CHR 10 \<notin> set v" using assms by (auto simp: good_targets_def)
  moreover have "\<not> visible (CHR 10)" by (simp add: visible_def byte_def of_char_def)
  ultimately show ?thesis by (auto simp: env_key_def)
qed

lemma edited_free:
  assumes "good_targets T" "CHR 10 \<notin> set l"
  shows "CHR 10 \<notin> set (edited T l)"
proof (cases "hit T l")
  case (Some kv)
  obtain k v where kv: "kv = (k, v)" by (cases kv)
  with Some hit_view(1) [OF assms(1), of l k v] have "(k, v) \<in> set T" by (auto dest: map_of_SomeD)
  from target_free [OF assms(1) this] Some kv show ?thesis by (simp add: edited_def)
qed (use assms in \<open>simp add: edited_def\<close>)

lemma join_snoc: "L \<noteq> [] \<Longrightarrow> join_with [c] (L @ [[]]) = join_with [c] L @ [c]"
  by (induction L rule: induct_list012) auto

lemma join_Nil: "L \<noteq> [] \<Longrightarrow> join_with [c] L = [] \<Longrightarrow> L = [[]]"
  by (cases L; cases "tl L") auto

lemma set_targets_map: "map_of (map (set_targets T) m) k
    = (case map_of m k of None \<Rightarrow> None | Some v \<Rightarrow> Some (case map_of T k of None \<Rightarrow> v | Some v' \<Rightarrow> v'))"
  by (induction m) (auto simp: set_targets_def)

text \<open>The rewritten text, line by line.\<close>

lemma rewrite_lines:
  assumes T: "good_targets (resource_targets key memory cpus pids)" (is "good_targets ?T")
    and p: "parse_stack_env env = Inr m"
  shows "\<exists>out body. rewriteResourceEnvLines env key memory cpus pids = Inr out
    \<and> assignments body = m \<and> well_formed body
    \<and> filter (\<lambda>l. l \<noteq> []) body = filter (\<lambda>l. l \<noteq> []) (split_on (CHR 10) env)
    \<and> split_on (CHR 10) out = map (edited ?T) body
        @ map (\<lambda>(k, v). k @ CHR ''='' # v) (filter (\<lambda>kv. fst kv \<notin> keys_of m) ?T) @ [[]]"
proof -
  let ?ls = "split_on (CHR 10) env"
  define body where "body = (if (env \<noteq> [] \<and> last env = CHR 10) \<and> ?ls \<noteq> [] \<and> last ?ls = [] then butlast ?ls else ?ls)"
  have blank: "line_view [] = Skipped" by (simp add: line_view_def trim_space_Nil)
  have body: "body = ?ls \<or> ?ls = body @ [[]]"
  proof (cases "(env \<noteq> [] \<and> last env = CHR 10) \<and> ?ls \<noteq> [] \<and> last ?ls = []")
    case True
    then have "body = butlast ?ls" unfolding body_def by (rule if_P)
    moreover have "?ls = butlast ?ls @ [[]]" using True append_butlast_last_id by metis
    ultimately show ?thesis by simp
  next
    case False
    then have "body = ?ls" unfolding body_def by (rule if_not_P)
    then show ?thesis ..
  qed
  from p have ls: "well_formed ?ls" "assignments ?ls = m" "distinct (map fst m)"
    unfolding parse_env_exact by blast+
  have b: "assignments body = m" "well_formed body"
      "filter (\<lambda>l. l \<noteq> []) body = filter (\<lambda>l. l \<noteq> []) ?ls" "set body \<subseteq> set ?ls"
  proof -
    have "assignments body = assignments ?ls \<and> (well_formed ?ls \<longrightarrow> well_formed body)
        \<and> filter (\<lambda>l. l \<noteq> []) body = filter (\<lambda>l. l \<noteq> []) ?ls \<and> set body \<subseteq> set ?ls"
      using body
    proof
      assume "?ls = body @ [[]]"
      then show ?thesis by (simp only: assignments_simps well_formed_simps blank filter_append set_append) auto
    qed simp
    with ls show "assignments body = m" "well_formed body"
      "filter (\<lambda>l. l \<noteq> []) body = filter (\<lambda>l. l \<noteq> []) ?ls" "set body \<subseteq> set ?ls" by blast+
  qed
  obtain seen where f: "foldE (rewrite_step ?T) ([], []) body = Inr (seen, map (edited ?T) body)"
      "set seen = keys_of m \<inter> keys_of ?T"
    using rewrite_fold [OF T, of body "[]" "[]"] ls(3) unfolding b(1) by auto
  define added where "added = filter (\<lambda>kv. fst kv \<notin> keys_of m) ?T"
  have same: "filter (\<lambda>(k, v). k \<notin> set seen) ?T = added"
  proof -
    have "(k \<notin> set seen) = (k \<notin> keys_of m)" if "(k, v) \<in> set ?T" for k v
      using that by (force simp: f(2) keys_of_def)
    then show ?thesis unfolding added_def by (intro filter_cong) auto
  qed
  have sub: "set added \<subseteq> set ?T" by (auto simp: added_def)
  define L where "L = map (edited ?T) body @ map (\<lambda>(k, v). k @ CHR ''='' # v) added"
  have as: "assignments L = map (set_targets ?T) m @ added"
    by (simp add: L_def edited_assignments [OF T] b(1) added_lines [OF T sub])
  have "assignments L \<noteq> []"
  proof
    assume "assignments L = []"
    then have "m = []" "added = []" by (simp_all add: as)
    then have "?T = []" by (simp add: added_def keys_of_def)
    then show False by (simp add: resource_targets_def)
  qed
  then have ne: "L \<noteq> []" "L \<noteq> [[]]" by (auto simp: blank)
  have "CHR 10 \<notin> set (edited ?T l)" if "l \<in> set body" for l
    using edited_free [OF T] split_on_parts that b(4) by blast
  moreover have "CHR 10 \<notin> set (case kv of (k, v) \<Rightarrow> k @ CHR ''='' # v)" if "kv \<in> set added" for kv
    using target_free [OF T] that sub by (cases kv) auto
  ultimately have free: "\<forall>l \<in> set L. CHR 10 \<notin> set l"
    unfolding L_def set_append set_map ball_Un by blast
  have "rewriteResourceEnvLines env key memory cpus pids = Inr (join_with [CHR 10] L @ [CHR 10])"
  proof -
    have "join_with [CHR 10] L \<noteq> []" using join_Nil [OF ne(1)] ne(2) by blast
    then show ?thesis
      unfolding rewriteResourceEnvLines_def Let_def body_def [symmetric] f(1) by (simp add: same L_def [symmetric])
  qed
  moreover have "split_on (CHR 10) (join_with [CHR 10] L @ [CHR 10]) = L @ [[]]"
    using split_join [of "L @ [[]]" "CHR 10"] free by (simp add: join_snoc [OF ne(1)] ball_Un)
  ultimately show ?thesis using b(1-3)
    by (intro exI [of _ "join_with [CHR 10] L @ [CHR 10]"] exI [of _ body]) (simp add: L_def added_def)
qed

lemma hit_or_kept: "hit T (edited T l) = None \<longleftrightarrow> hit T l = None" if "good_targets T"
proof (cases "hit T l")
  case (Some kv)
  obtain k v where kv: "kv = (k, v)" by (cases kv)
  with Some hit_view(1) [OF that, of l k v] have k: "map_of T k = Some v" by simp
  then have "env_key k" using that map_of_SomeD [of T k v] by (auto simp: good_targets_def)
  then have lv: "line_view (edited T l) = Assigns k v" using Some kv print_line_view by (simp add: edited_def)
  have "hit T (edited T l) \<noteq> None"
  proof
    assume "hit T (edited T l) = None"
    from hit_view(2) [OF that this] lv k show False by fastforce
  qed
  with Some show ?thesis by simp
qed (simp add: edited_def)

lemma kept_lines:
  assumes "good_targets T"
  shows "filter (\<lambda>l. l \<noteq> [] \<and> hit T l = None) (map (edited T) ls) = filter (\<lambda>l. l \<noteq> [] \<and> hit T l = None) ls"
proof (induction ls)
  case (Cons l ls)
  have "hit T l = None \<Longrightarrow> edited T l = l" by (simp add: edited_def)
  with Cons hit_or_kept [OF assms, of l] show ?case by auto
qed simp

lemma added_hit:
  assumes "good_targets T" "set xs \<subseteq> set T"
  shows "filter (\<lambda>l. l \<noteq> [] \<and> hit T l = None) (map (\<lambda>(k, v). k @ CHR ''='' # v) xs) = []"
proof -
  have "hit T (k @ CHR ''='' # v) \<noteq> None" if "(k, v) \<in> set T" for k v
  proof
    assume n: "hit T (k @ CHR ''='' # v) = None"
    have "line_view (k @ CHR ''='' # v) = Assigns k v"
      using that assms(1) print_line_view by (auto simp: good_targets_def)
    from hit_view(2) [OF assms(1) n this] that show False by (force simp: map_of_eq_None_iff)
  qed
  with assms(2) show ?thesis by (induction xs) auto
qed

lemma resource_targets_good:
  assumes "CHR 10 \<notin> set memory" "CHR 10 \<notin> set cpus"
  shows "good_targets (resource_targets (serviceKey service) memory cpus pids)"
proof -
  have "env_key (p @ serviceKey service)" if "env_key p" for p
  proof -
    have "visible c \<and> c \<noteq> CHR ''='' \<and> c \<noteq> CHR ''#''" if "c \<in> set (serviceKey service)" for c
    proof -
      have "is_upper c \<or> is_digit c \<or> c = CHR ''_''" using that service_key_wellformed by blast
      moreover have "byte (CHR ''_'') = 95" "byte (CHR ''='') = 61" "byte (CHR ''#'') = 35"
        by (simp_all add: byte_def of_char_def)
      ultimately show ?thesis by (auto simp: is_upper_def is_digit_def visible_def)
    qed
    with that show ?thesis by (auto simp: env_key_def)
  qed
  moreover have "env_key ''MEMORY_LIMIT_''" "env_key ''CPUS_LIMIT_''" "env_key ''PIDS_LIMIT_''"
    by (simp_all add: env_key_def visible_def byte_def of_char_def)
  ultimately have keys: "env_key (''MEMORY_LIMIT_'' @ serviceKey service)" "env_key (''CPUS_LIMIT_'' @ serviceKey service)"
    "env_key (''PIDS_LIMIT_'' @ serviceKey service)" by blast+
  have "CHR 10 \<notin> set (itoa pids)"
  proof -
    have "\<not> is_digit (CHR 10)" by (simp add: is_digit_def byte_def of_char_def)
    then have "CHR 10 \<notin> set (dec_digits n)" for n using dec_digits_are_digits by blast
    then show ?thesis by (simp add: itoa_def)
  qed
  with keys assms show ?thesis by (simp add: good_targets_def resource_targets_def)
qed



text \<open>A value that the user's file quotes is registered with its quotes: without them it is not hidden.\<close>

lemma quoted_value_shown:
  "map snd (user_env_entry (''PW='' @ [CHR 34] @ ''tulip'' @ [CHR 34])) = [[CHR 34] @ ''tulip'' @ [CHR 34]]"
  "Redact [[CHR 34] @ ''tulip'' @ [CHR 34]] ''tulip'' = ''tulip''"
proof -
  have "env_key ''PW''" by (simp add: env_key_def visible_def byte_def of_char_def)
  from print_line_view [OF this, of "[CHR 34] @ ''tulip'' @ [CHR 34]"]
  show "map snd (user_env_entry (''PW='' @ [CHR 34] @ ''tulip'' @ [CHR 34])) = [[CHR 34] @ ''tulip'' @ [CHR 34]]"
    by (simp add: user_entry_view)
  show "Redact [[CHR 34] @ ''tulip'' @ [CHR 34]] ''tulip'' = ''tulip''"
    by (rule redact_unchanged) (simp_all add: quiet_def lower_char_def is_upper_def byte_def)
qed

end
