(* ===== verification/Engine_Host.thy ===== *)
theory Engine_Host
  imports State_Env
begin

text \<open>
  What the engine's operations on installed stacks (\<open>restart.go\<close>, \<open>redeploy.go\<close>, \<open>remove.go\<close>, \<open>delete.go\<close>,
  \<open>stopall.go\<close>, \<open>uninstall.go\<close> of \<open>internal/core\<close>) share: their environment, the helpers of \<open>lifecycle_shared.go\<close>,
  \<open>Engine.List\<close>, and the docker wrappers of \<open>compose_deploy.go\<close>.

  The world is the history of what an operation did so far. Every answer of the environment is a function of
  that history, so that any behaviour of Docker, of the file system and of the person at the prompt is an environment.
  Cancellation, progress callbacks and log records are left out.
\<close>

subsection \<open>The environment\<close>

record confirmation =
  cf_kind :: string
  cf_title :: string
  cf_message :: string

datatype event =
    LockedRuntime string
  | ReleasedRuntime
  | LockedStack string
  | Asked confirmation "string + bool"
  | Ran invocation bool
  | WroteManifest string stack_lock bool
  | RemovedAll string bool
  | RemovedFile string bool

type_synonym history = "event list"

record host =
  ho_base :: string
  ho_state_dir :: string
  ho_data_dir :: string
  ho_config_path :: string
  ho_version :: string
  ho_json :: json_lib
  ho_err_text :: "run_error \<Rightarrow> string"
  ho_networks_yaml :: "string \<Rightarrow> (string, bool) gomap option"
  ho_now :: "history \<Rightarrow> int"
  ho_fs :: "history \<Rightarrow> stack_fs"
  ho_files :: "history \<Rightarrow> stack_files"
  ho_runtime_lock :: "history \<Rightarrow> string \<Rightarrow> (error_code option \<times> string) option"
  ho_release :: "history \<Rightarrow> string option"
  ho_docker :: "string option"
  ho_run :: "history \<Rightarrow> invocation \<Rightarrow> command_result \<times> run_error option"
  ho_confirm :: "(history \<Rightarrow> confirmation \<Rightarrow> string + bool) option"
  ho_write_manifest :: "history \<Rightarrow> string \<Rightarrow> stack_lock \<Rightarrow> string option"
  ho_remove_all :: "history \<Rightarrow> string \<Rightarrow> os_error option"
  ho_remove :: "history \<Rightarrow> string \<Rightarrow> os_error option"
  ho_eval_symlinks :: "history \<Rightarrow> string \<Rightarrow> os_error + string"
  ho_home :: "os_error + string"
  ho_executable :: "os_error + string"

datatype op_reason =
    OpLookup lookup_reason
  | OpRuntimeLock string
  | OpDocker string
  | OpRun run_error
  | OpInspect inspect_error
  | OpAppIdRequired
  | OpStackPathMismatch string
  | OpProjectMissing string
  | OpConfirmerMissing
  | OpConfirmFailed string
  | OpDeclined
  | OpStackLock string
  | OpManifestUnwritten string
  | OpBaseNotAbsolute string
  | OpBaseUnreadable os_error
  | OpVolumesReserved
  | OpNameMismatch string
  | OpHelperUnavailable run_error
  | OpBaseUnresolved path_error
  | OpStackUnresolved path_error
  | OpStackOutside path_error
  | OpStackIsBase string
  | OpTooShallow string
  | OpNotDeleted os_error
  | OpHomeUnknown os_error
  | OpFootprintUnresolved path_error
  | OpFootprintOutside path_error
  | OpNotRemoved string os_error
  | OpNotReleased string
  | OpExecutableUnknown os_error
  | OpEnv env_reason

type_synonym op_error = "op_reason wdm_error"

text \<open>A step with an error result: an error ends the operation.\<close>

type_synonym 'a step = "history \<Rightarrow> (op_error + 'a) \<times> history"

definition returnS :: "'a \<Rightarrow> 'a step" where
  "returnS x h = (Inr x, h)"

definition failS :: "op_error \<Rightarrow> 'a step" where
  "failS e h = (Inl e, h)"

definition bindS :: "'a step \<Rightarrow> ('a \<Rightarrow> 'b step) \<Rightarrow> 'b step" where
  "bindS m f h = (case m h of (Inl e, h) \<Rightarrow> (Inl e, h) | (Inr x, h) \<Rightarrow> f x h)"

definition liftS :: "op_error + 'a \<Rightarrow> 'a step" where
  "liftS r h = (r, h)"

definition host_client :: "host \<Rightarrow> history client" where
  "host_client ho i h = (let r = ho_run ho h i in (r, h @ [Ran i (snd r = None)]))"

definition acquireRuntimeLock :: "host \<Rightarrow> string \<Rightarrow> unit step" where
  "acquireRuntimeLock ho command h =
     (case ho_runtime_lock ho h command of
        Some (Some c, s) \<Rightarrow> (Inl (Coded c (OpRuntimeLock s)), h)
      | Some (None, s) \<Rightarrow> (Inl (Untyped (OpRuntimeLock s)), h)
      | None \<Rightarrow> (Inr (), h @ [LockedRuntime command]))"

definition buildDockerClient :: "host \<Rightarrow> (history client) step" where
  "buildDockerClient ho h =
     (case ho_docker ho of
        Some s \<Rightarrow> (Inl (Untyped (OpDocker s)), h)
      | None \<Rightarrow> (Inr (host_client ho), h))"

text \<open>\<open>acquireInstallStackLock\<close>: the file is created when it is missing.\<close>

definition acquireInstallStackLock :: "host \<Rightarrow> string \<Rightarrow> (stack_lock option) step" where
  "acquireInstallStackLock ho stackPath h =
     (let path = path_join stackPath installLockFilename
      in case acquire_lock (ho_fs ho h) path of
           LockNotAcquired s \<Rightarrow> (Inl (Untyped (OpStackLock s)), h)
         | LockHeld held \<Rightarrow> (Inr held, h @ [LockedStack path]))"

subsection \<open>Shared checks\<close>

definition stackPathCrossCheck :: "string \<Rightarrow> string \<Rightarrow> op_error option" where
  "stackPathCrossCheck reqStackPath resolvedStackPath =
     (if reqStackPath \<noteq> [] \<and> path_clean reqStackPath \<noteq> resolvedStackPath
      then Some (UsageValidation (OpStackPathMismatch resolvedStackPath)) else None)"

definition requireComposeProject :: "string \<Rightarrow> string \<Rightarrow> op_error option" where
  "requireComposeProject composeProject appID =
     (if composeProject = [] then Some (UsageValidation (OpProjectMissing appID)) else None)"

definition requireAppID :: "string \<Rightarrow> op_error option" where
  "requireAppID appID = (if appID = [] then Some (UsageValidation OpAppIdRequired) else None)"

definition checkS :: "op_error option \<Rightarrow> unit step" where
  "checkS e = liftS (case e of None \<Rightarrow> Inr () | Some err \<Rightarrow> Inl err)"

definition confirmLifecycleOp :: "host \<Rightarrow> confirmation \<Rightarrow> unit step" where
  "confirmLifecycleOp ho confirmation h =
     (case ho_confirm ho of
        None \<Rightarrow> (Inl (UsageValidation OpConfirmerMissing), h)
      | Some confirm \<Rightarrow>
          (let answer = confirm h confirmation; h = h @ [Asked confirmation answer]
           in case answer of
                Inl err \<Rightarrow> (Inl (Untyped (OpConfirmFailed err)), h)
              | Inr False \<Rightarrow> (Inl (Coded ErrCodeUserCanceled OpDeclined), h)
              | Inr True \<Rightarrow> (Inr (), h)))"

text \<open>An error of the docker layer keeps its code.\<close>

definition run_failed :: "run_error \<Rightarrow> op_error" where
  "run_failed err = (case run_code err of Some c \<Rightarrow> Coded c (OpRun err) | None \<Rightarrow> Untyped (OpRun err))"

definition inspect_failed :: "inspect_error \<Rightarrow> op_error" where
  "inspect_failed err = (case inspect_code err of Some c \<Rightarrow> Coded c (OpInspect err) | None \<Rightarrow> Untyped (OpInspect err))"

definition lookupS :: "lookup_error + 'a \<Rightarrow> 'a step" where
  "lookupS r = liftS (case r of Inl e \<Rightarrow> Inl (map_wdm_error OpLookup e) | Inr x \<Rightarrow> Inr x)"

definition resolveS :: "host \<Rightarrow> string \<Rightarrow> (string \<times> stack_lock) step" where
  "resolveS ho appID h = lookupS (resolveManagedStack (ho_fs ho h) (ho_base ho) appID) h"

definition joined_lines :: "string list \<Rightarrow> string" where
  "joined_lines ls = join_with [CHR 10] ls"

subsection \<open>Compose verbs\<close>

text \<open>The body that \<open>ComposePull\<close> to \<open>ComposeDownRemoveImages\<close> share.\<close>

definition compose_verb ::
  "stack_files \<Rightarrow> (compose_target \<Rightarrow> invocation) \<Rightarrow> 'w client \<Rightarrow> compose_project \<Rightarrow> 'w \<Rightarrow> run_error option \<times> 'w" where
  "compose_verb files op client project w =
     (case new_compose_target files project of
        Inl err \<Rightarrow> (Some (Refused err), w)
      | Inr target \<Rightarrow> (case client (op target) w of ((res, err), w) \<Rightarrow> (err, w)))"

definition ComposeUp :: "stack_files \<Rightarrow> 'w client \<Rightarrow> compose_project \<Rightarrow> bool \<Rightarrow> 'w \<Rightarrow> run_error option \<times> 'w" where
  "ComposeUp files client project forceRecreate w =
     (case newComposeUpInvocation files project forceRecreate of
        Inl err \<Rightarrow> (Some (Refused err), w)
      | Inr i \<Rightarrow> (case client i w of ((res, err), w) \<Rightarrow> (err, w)))"

definition ComposeRestart :: "stack_files \<Rightarrow> 'w client \<Rightarrow> compose_project \<Rightarrow> 'w \<Rightarrow> run_error option \<times> 'w" where
  "ComposeRestart files = compose_verb files ComposeRestartInvocation"

definition ComposeStop :: "stack_files \<Rightarrow> 'w client \<Rightarrow> compose_project \<Rightarrow> 'w \<Rightarrow> run_error option \<times> 'w" where
  "ComposeStop files = compose_verb files ComposeStopInvocation"

definition ComposeDown :: "stack_files \<Rightarrow> 'w client \<Rightarrow> compose_project \<Rightarrow> 'w \<Rightarrow> run_error option \<times> 'w" where
  "ComposeDown files = compose_verb files ComposeDownInvocation"

definition ComposeDownRemoveImages :: "stack_files \<Rightarrow> 'w client \<Rightarrow> compose_project \<Rightarrow> 'w \<Rightarrow> run_error option \<times> 'w" where
  "ComposeDownRemoveImages files = compose_verb files ComposeDownRemoveImagesInvocation"

text \<open>A docker operation on a stack's project, as a step of the engine.\<close>

definition projectS ::
  "host \<Rightarrow> string \<Rightarrow> string \<Rightarrow> (stack_files \<Rightarrow> history client \<Rightarrow> compose_project \<Rightarrow> history \<Rightarrow> run_error option \<times> history)
     \<Rightarrow> history client \<Rightarrow> unit step" where
  "projectS ho stackPath composeProject verb client =
     bindS (lookupS (logsComposeProject stackPath composeProject)) (\<lambda>project h.
       (case verb (ho_files ho h) client project h of
          (Some err, h) \<Rightarrow> (Inl (run_failed err), h)
        | (None, h) \<Rightarrow> (Inr (), h)))"

subsection \<open>The list of managed stacks\<close>

record app_info =
  ai_app_id :: string
  ai_template_name :: string
  ai_stack_path :: string
  ai_catalog_channel :: string
  ai_catalog_version :: string
  ai_last_successful_operation :: "operation option"
  ai_needs_attention :: bool

definition appInfoFromLock :: "stack_lock \<Rightarrow> app_info" where
  "appInfoFromLock lock =
     \<lparr>ai_app_id = lk_app_id lock, ai_template_name = lk_template_name lock, ai_stack_path = lk_stack_path lock,
      ai_catalog_channel = lk_catalog_channel lock, ai_catalog_version = lk_catalog_version lock,
      ai_last_successful_operation = lk_last_successful_operation lock, ai_needs_attention = False\<rparr>"

text \<open>The applications and the manifests that could not be read.\<close>

fun scan_stacks :: "stack_fs \<Rightarrow> string \<Rightarrow> (string \<times> bool) list \<Rightarrow> app_info list \<times> string list" where
  "scan_stacks fs base [] = ([], [])"
| "scan_stacks fs base ((name, isDir) # es) =
     (case scan_stacks fs base es of (apps, warnings) \<Rightarrow>
        (if \<not> isDir then (apps, warnings)
         else let lockPath = path_join (path_join base name) installLockFilename
              in case read_lock fs lockPath of
                   LockRead lock \<Rightarrow> (appInfoFromLock lock # apps, warnings)
                 | LockMissing \<Rightarrow> (apps, warnings)
                 | _ \<Rightarrow> (apps, lockPath # warnings)))"

definition ScanStacks :: "stack_fs \<Rightarrow> string \<Rightarrow> op_error + app_info list \<times> string list" where
  "ScanStacks fs baseStackPath =
     (if baseStackPath = [] \<or> \<not> is_abs baseStackPath then Inl (Untyped (OpBaseNotAbsolute baseStackPath))
      else case read_dir fs baseStackPath of
             Inl err \<Rightarrow> (if err = NotExist then Inr ([], []) else Inl (Untyped (OpBaseUnreadable err)))
           | Inr entries \<Rightarrow> Inr (scan_stacks fs baseStackPath entries))"

text \<open>\<open>Engine.List\<close>.\<close>

definition ListApps :: "host \<Rightarrow> (app_info list) step" where
  "ListApps ho h = (map_sum id fst (ScanStacks (ho_fs ho h) (ho_base ho)), h)"

subsection \<open>Which steps change something\<close>

text \<open>The commands that only read.\<close>

fun reading :: "invocation \<Rightarrow> bool" where
  "reading (ProjectContainerListInvocation p) = True"
| "reading (ContainerInspectInvocation c) = True"
| "reading (ProjectVolumeListInvocation p) = True"
| "reading (ImageDigestInspectInvocation i) = True"
| "reading (NetworkManagedLabelInvocation n) = True"
| "reading ManagedNetworkListInvocation = True"
| "reading i = False"

fun changes :: "event \<Rightarrow> bool" where
  "changes (Ran i ok) = (\<not> reading i)"
| "changes (WroteManifest p l ok) = True"
| "changes (RemovedAll p ok) = True"
| "changes (RemovedFile p ok) = True"
| "changes e = False"

fun consents :: "event \<Rightarrow> bool" where
  "consents (Asked c (Inr True)) = True"
| "consents e = False"

text \<open>Every change of a history comes after a consent.\<close>

definition consented :: "history \<Rightarrow> bool" where
  "consented h \<longleftrightarrow> (\<forall>h1 e h2. h = h1 @ e # h2 \<longrightarrow> changes e \<longrightarrow> (\<exists>c \<in> set h1. consents c))"

text \<open>A step that, from any history, only adds events with a property.\<close>

definition adds :: "(event \<Rightarrow> bool) \<Rightarrow> (history \<Rightarrow> 'r \<times> history) \<Rightarrow> bool" where
  "adds P m \<longleftrightarrow> (\<forall>h. \<exists>es. snd (m h) = h @ es \<and> (\<forall>e \<in> set es. P e))"

lemma adds_mono: "adds P m \<Longrightarrow> (\<And>e. P e \<Longrightarrow> Q e) \<Longrightarrow> adds Q m"
  unfolding adds_def by blast

lemma adds_any: "adds P m \<Longrightarrow> adds (\<lambda>e. True) m"
  by (erule adds_mono) simp

lemma adds_same: "(\<And>h. snd (m h) = h) \<Longrightarrow> adds P m"
  by (simp add: adds_def)

lemma adds_one: "(\<And>h. snd (m h) = h \<or> (\<exists>e. snd (m h) = h @ [e] \<and> P e)) \<Longrightarrow> adds P m"
  unfolding adds_def by (metis append_Nil2 empty_iff empty_set set_ConsD)

lemma adds_bind [intro]:
  assumes "adds P m" "\<And>x. adds P (f x)"
  shows "adds P (bindS m f)"
  unfolding adds_def
proof
  fix h
  obtain es where m: "snd (m h) = h @ es" "(\<forall>e \<in> set es. P e)" using assms(1) unfolding adds_def by blast
  show "\<exists>es. snd (bindS m f h) = h @ es \<and> (\<forall>e \<in> set es. P e)"
  proof (cases "fst (m h)")
    case (Inl e)
    then have "snd (bindS m f h) = snd (m h)" by (cases "m h") (simp add: bindS_def)
    with m show ?thesis by simp
  next
    case (Inr x)
    obtain es' where f: "snd (f x (h @ es)) = (h @ es) @ es'" "(\<forall>e \<in> set es'. P e)"
      using assms(2) unfolding adds_def by blast
    have "bindS m f h = f x (snd (m h))" using Inr by (cases "m h") (simp add: bindS_def)
    with m f show ?thesis by (intro exI [of _ "es @ es'"]) (simp add: ball_Un)
  qed
qed

text \<open>A sequence through an intermediate result that is not a step of the engine.\<close>

lemma adds_seq:
  assumes "adds P m" "\<And>x. adds P (f x)" "\<And>h. g h = (case m h of (x, h) \<Rightarrow> f x h)"
  shows "adds P g"
  unfolding adds_def
proof
  fix h
  obtain es where m: "snd (m h) = h @ es" "(\<forall>e \<in> set es. P e)" using assms(1) unfolding adds_def by blast
  obtain es' where f: "snd (f (fst (m h)) (h @ es)) = (h @ es) @ es'" "(\<forall>e \<in> set es'. P e)"
    using assms(2) unfolding adds_def by blast
  have "g h = f (fst (m h)) (snd (m h))" by (simp add: assms(3) case_prod_beta)
  with m f show "\<exists>es. snd (g h) = h @ es \<and> (\<forall>e \<in> set es. P e)" by (intro exI [of _ "es @ es'"]) (simp add: ball_Un)
qed

named_theorems adds_intros

lemma adds_basic [adds_intros]:
  "adds P (returnS x)" "adds P (failS e)" "adds P (liftS r)" "adds P (checkS c)" "adds P (lookupS l)"
  "adds P (resolveS ho appID)" "adds P (buildDockerClient ho)" "adds P (ListApps ho)"
  by (rule adds_same; simp add: returnS_def failS_def liftS_def checkS_def lookupS_def resolveS_def
      buildDockerClient_def ListApps_def split: option.splits)+

lemma adds_runtime [adds_intros]: "P (LockedRuntime command) \<Longrightarrow> adds P (acquireRuntimeLock ho command)"
  by (rule adds_one) (auto simp: acquireRuntimeLock_def split: option.splits)

lemma adds_stack [adds_intros]:
  "P (LockedStack (path_join stackPath installLockFilename)) \<Longrightarrow> adds P (acquireInstallStackLock ho stackPath)"
  by (rule adds_one) (simp add: acquireInstallStackLock_def Let_def split: lock_acquired.splits)

lemma adds_confirm [adds_intros]:
  "(\<And>a. P (Asked c a)) \<Longrightarrow> adds P (confirmLifecycleOp ho c)"
  by (rule adds_one) (auto simp: confirmLifecycleOp_def Let_def split: option.splits sum.splits bool.splits)

lemma adds_client: "(\<And>b. P (Ran i b)) \<Longrightarrow> adds P (host_client ho i)"
  by (rule adds_one) (simp add: host_client_def Let_def)

lemma adds_verb:
  assumes "\<And>t b. P (Ran (op t) b)"
  shows "adds P (compose_verb files op (host_client ho) project)"
  using assms by (intro adds_one)
    (auto simp: compose_verb_def host_client_def Let_def case_prod_beta split: sum.splits)

lemma adds_up:
  assumes "\<And>t b. P (Ran (ComposeUpInvocation t force) b)"
  shows "adds P (ComposeUp files (host_client ho) project force)"
  using assms by (intro adds_one)
    (auto simp: ComposeUp_def newComposeUpInvocation_def bindE_Inr host_client_def Let_def case_prod_beta split: sum.splits)

text \<open>A docker operation that gets its files from the history it runs in.\<close>

lemma adds_project:
  assumes "\<And>files project. adds P (verb files (host_client ho) project)"
  shows "adds P (projectS ho stackPath composeProject verb (host_client ho))"
  unfolding projectS_def
proof (rule adds_bind)
  fix project
  have "\<exists>es. snd (verb (ho_files ho h) (host_client ho) project h) = h @ es \<and> (\<forall>e \<in> set es. P e)" for h
    using assms unfolding adds_def by blast
  then show "adds P (\<lambda>h. case verb (ho_files ho h) (host_client ho) project h of
      (Some err, h) \<Rightarrow> (Inl (run_failed err), h) | (None, h) \<Rightarrow> (Inr (), h))"
    unfolding adds_def by (simp add: case_prod_beta split: option.splits)
qed (rule adds_intros)

text \<open>The inspection of a project only reads.\<close>

lemma adds_inspect_each:
  "(\<And>i b. reading i \<Longrightarrow> P (Ran i b)) \<Longrightarrow> adds P (inspect_each json (host_client ho) ids)"
proof (induction ids)
  case (Cons c ids)
  note IH = Cons.IH [OF Cons.prems]
  show ?case
    unfolding adds_def
  proof
    fix h
    let ?b = "snd (ho_run ho h (ContainerInspectInvocation c)) = None"
    let ?h = "h @ [Ran (ContainerInspectInvocation c) ?b]"
    have run: "host_client ho (ContainerInspectInvocation c) h = (ho_run ho h (ContainerInspectInvocation c), ?h)"
      by (simp add: host_client_def Let_def)
    have p: "P (Ran (ContainerInspectInvocation c) b)" for b using Cons.prems by simp
    obtain es where es: "snd (inspect_each json (host_client ho) ids ?h) = ?h @ es" "(\<forall>e \<in> set es. P e)"
      using IH unfolding adds_def by blast
    have "snd (inspect_each json (host_client ho) (c # ids) h) = ?h
        \<or> snd (inspect_each json (host_client ho) (c # ids) h) = ?h @ es"
      using run es(1) by (auto simp: case_prod_beta split: prod.splits option.splits sum.splits)
    with p es(2) show "\<exists>es. snd (inspect_each json (host_client ho) (c # ids) h) = h @ es \<and> (\<forall>e \<in> set es. P e)"
      by (elim disjE) (auto intro: exI [of _ "[Ran (ContainerInspectInvocation c) ?b]"] exI [of _ "Ran (ContainerInspectInvocation c) ?b # es"])
  qed
qed (simp add: adds_def)

lemma adds_inspect [adds_intros]:
  assumes "\<And>i b. reading i \<Longrightarrow> P (Ran i b)"
  shows "adds P (InspectProjectContainers json (host_client ho) project)"
  unfolding adds_def
proof
  fix h
  show "\<exists>es. snd (InspectProjectContainers json (host_client ho) project h) = h @ es \<and> (\<forall>e \<in> set es. P e)"
  proof (cases "validateComposeProjectName project")
    case (Inr p)
    let ?i = "ProjectContainerListInvocation p"
    let ?h = "h @ [Ran ?i (snd (ho_run ho h ?i) = None)]"
    have run: "host_client ho ?i h = (ho_run ho h ?i, ?h)" by (simp add: host_client_def Let_def)
    have each: "\<exists>es. snd (inspect_each json (host_client ho) ids ?h) = ?h @ es \<and> (\<forall>e \<in> set es. P e)" for ids
      using adds_inspect_each [where P = P, OF assms] unfolding adds_def by blast
    have one: "\<exists>es. ?h = h @ es \<and> (\<forall>e \<in> set es. P e)" using assms by simp
    have more: "\<exists>es. snd (inspect_each json (host_client ho) ids ?h) = h @ es \<and> (\<forall>e \<in> set es. P e)" for ids
    proof -
      obtain es where "snd (inspect_each json (host_client ho) ids ?h) = ?h @ es" "\<forall>e \<in> set es. P e"
        using each by blast
      then show ?thesis using assms by (intro exI [of _ "Ran ?i (snd (ho_run ho h ?i) = None) # es"]) simp
    qed
    show ?thesis
      using one more Inr run by (auto simp: InspectProjectContainers_def case_prod_beta split: prod.splits option.splits sum.splits)
  qed (simp add: InspectProjectContainers_def)
qed

lemma adds_volumes [adds_intros]:
  assumes "\<And>i b. reading i \<Longrightarrow> P (Ran i b)"
  shows "adds P (ListProjectNamedVolumes (host_client ho) project)"
  using assms by (intro adds_one)
    (auto simp: ListProjectNamedVolumes_def host_client_def Let_def split: sum.splits prod.splits option.splits)

subsection \<open>Consent\<close>

lemma consented_Nil [simp]: "consented []"
  by (simp add: consented_def)

lemma consented_append:
  assumes "consented h" "(\<forall>e \<in> set es. \<not> changes e) \<or> (\<exists>c \<in> set h. consents c)"
  shows "consented (h @ es)"
  unfolding consented_def
proof (intro allI impI)
  fix h1 e h2
  assume eq: "h @ es = h1 @ e # h2" and ch: "changes e"
  from eq obtain us where "h = h1 @ us \<and> us @ es = e # h2 \<or> h @ us = h1 \<and> es = us @ e # h2"
    by (auto simp: append_eq_append_conv2)
  then consider "\<exists>r. h = h1 @ e # r" | "\<exists>r. h1 = h @ r \<and> es = r @ e # h2"
    by (cases us) auto
  then show "\<exists>c \<in> set h1. consents c"
  proof cases
    case 1
    with assms(1) ch show ?thesis unfolding consented_def by blast
  next
    case 2
    then obtain r where r: "h1 = h @ r" "es = r @ e # h2" by blast
    with assms(2) ch show ?thesis by (auto simp:)
  qed
qed

text \<open>A step that only reads, and one behind a consent, keep a history consented.\<close>

lemma consented_quiet: "consented h \<Longrightarrow> adds (\<lambda>e. \<not> changes e) m \<Longrightarrow> consented (snd (m h))"
  unfolding adds_def using consented_append by metis

lemma consented_after: "consented h \<Longrightarrow> \<exists>c \<in> set h. consents c \<Longrightarrow> adds (\<lambda>e. True) m \<Longrightarrow> consented (snd (m h))"
  unfolding adds_def using consented_append by metis

lemma bindS_cases:
  obtains e where "fst (m h) = Inl e" "bindS m f h = (Inl e, snd (m h))"
  | x where "fst (m h) = Inr x" "bindS m f h = f x (snd (m h))"
  by (cases "m h"; cases "fst (m h)") (auto simp: bindS_def)

lemma consented_bind:
  assumes "consented h" "adds (\<lambda>e. \<not> changes e) m" "\<And>x h. consented h \<Longrightarrow> consented (snd (f x h))"
  shows "consented (snd (bindS m f h))"
proof -
  have "consented (snd (m h))" by (rule consented_quiet [OF assms(1,2)])
  with assms(3) show ?thesis by (cases rule: bindS_cases [of m h f]) simp_all
qed

lemma confirm_consents: "confirmLifecycleOp ho c h = (Inr x, h') \<Longrightarrow> h' = h @ [Asked c (Inr True)]"
  by (auto simp: confirmLifecycleOp_def Let_def split: option.splits sum.splits bool.splits)

lemma consented_confirm:
  assumes "consented h" "\<And>x. adds (\<lambda>e. True) (f x)"
  shows "consented (snd (bindS (confirmLifecycleOp ho c) f h))"
proof -
  have quiet: "consented (snd (confirmLifecycleOp ho c h))"
    by (rule consented_quiet [OF assms(1)]) (rule adds_intros, simp)
  show ?thesis
  proof (rule bindS_cases [of "confirmLifecycleOp ho c" h f])
    fix x
    assume x: "fst (confirmLifecycleOp ho c h) = Inr x" and b: "bindS (confirmLifecycleOp ho c) f h = f x (snd (confirmLifecycleOp ho c h))"
    from x have "snd (confirmLifecycleOp ho c h) = h @ [Asked c (Inr True)]"
      using confirm_consents by (metis prod.collapse)
    then have "\<exists>e \<in> set (snd (confirmLifecycleOp ho c h)). consents e" by simp
    from consented_after [OF quiet this assms(2)] b show ?thesis by simp
  qed (use quiet in simp)
qed

subsection \<open>What a step does\<close>

text \<open>The changes of a step together with its result.\<close>

definition does :: "(op_error + 'a \<Rightarrow> event list \<Rightarrow> bool) \<Rightarrow> 'a step \<Rightarrow> bool" where
  "does R m \<longleftrightarrow> (\<forall>h. \<exists>es. snd (m h) = h @ es \<and> R (fst (m h)) (filter changes es))"

lemma does_bind:
  assumes "does P m" "\<And>x. does (Q x) (f x)" "\<And>e cs. P (Inl e) cs \<Longrightarrow> R (Inl e) cs"
    and "\<And>x cs r cs'. P (Inr x) cs \<Longrightarrow> Q x r cs' \<Longrightarrow> R r (cs @ cs')"
  shows "does R (bindS m f)"
  unfolding does_def
proof
  fix h
  obtain es where m: "snd (m h) = h @ es" "P (fst (m h)) (filter changes es)"
    using assms(1) unfolding does_def by blast
  show "\<exists>es. snd (bindS m f h) = h @ es \<and> R (fst (bindS m f h)) (filter changes es)"
  proof (cases rule: bindS_cases [of m h f])
    case (1 e)
    with m assms(3) show ?thesis by auto
  next
    case (2 x)
    obtain es' where f: "snd (f x (h @ es)) = (h @ es) @ es'" "Q x (fst (f x (h @ es))) (filter changes es')"
      using assms(2) unfolding does_def by blast
    with 2 m assms(4) show ?thesis by (intro exI [of _ "es @ es'"]) auto
  qed
qed

lemma does_weaken: "does P m \<Longrightarrow> (\<And>r cs. P r cs \<Longrightarrow> R r cs) \<Longrightarrow> does R m"
  unfolding does_def by blast

text \<open>A step that only reads; its result may tell something.\<close>

lemma does_quiet:
  assumes "adds (\<lambda>e. \<not> changes e) m" "\<And>h. R (fst (m h)) []"
  shows "does R m"
  unfolding does_def
proof
  fix h
  obtain es where "snd (m h) = h @ es" "\<forall>e \<in> set es. \<not> changes e"
    using assms(1) unfolding adds_def by blast
  moreover from this(2) have "filter changes es = []" by (simp add: filter_empty_conv)
  ultimately show "\<exists>es. snd (m h) = h @ es \<and> R (fst (m h)) (filter changes es)"
    using assms(2) by (intro exI [of _ es]) simp
qed

lemma does_skip:
  assumes "adds (\<lambda>e. \<not> changes e) m" "\<And>x. does R (f x)" "\<And>e. R (Inl e) []"
  shows "does R (bindS m f)"
  by (rule does_bind [where P = "\<lambda>r cs. cs = []", OF does_quiet assms(2)]) (use assms in auto)

text \<open>A step that only reads and whose result is known.\<close>

lemma does_known:
  assumes "does (\<lambda>r cs. cs = [] \<and> (\<forall>x. r = Inr x \<longrightarrow> known x)) m" "\<And>x. known x \<Longrightarrow> does R (f x)" "\<And>e. R (Inl e) []"
  shows "does R (bindS m f)"
  unfolding does_def
proof
  fix h
  obtain es where m: "snd (m h) = h @ es" "filter changes es = []" "\<And>x. fst (m h) = Inr x \<Longrightarrow> known x"
    using assms(1) unfolding does_def by blast
  show "\<exists>es. snd (bindS m f h) = h @ es \<and> R (fst (bindS m f h)) (filter changes es)"
  proof (cases rule: bindS_cases [of m h f])
    case (1 e)
    with m assms(3) show ?thesis by auto
  next
    case (2 x)
    obtain es' where f: "snd (f x (h @ es)) = (h @ es) @ es'" "R (fst (f x (h @ es))) (filter changes es')"
      using assms(2) [OF m(3) [OF 2(1)]] unfolding does_def by blast
    with 2 m show ?thesis by (intro exI [of _ "es @ es'"]) auto
  qed
qed

text \<open>A reading step that always returns a value.\<close>

lemma does_read:
  assumes "adds (\<lambda>e. \<not> changes e) m" "\<And>h. \<exists>x. fst (m h) = Inr x" "\<And>x. does R (f x)"
  shows "does R (bindS m f)"
  by (rule does_bind [where P = "\<lambda>r cs. cs = [] \<and> (\<exists>x. r = Inr x)", OF does_quiet assms(3)]) (use assms in auto)

lemma does_return: "does (\<lambda>r cs. cs = [] \<and> r = Inr x) (returnS x)"
  by (simp add: does_def returnS_def)

lemma does_run: "does R m \<Longrightarrow> R (fst (m [])) (filter changes (snd (m [])))"
  unfolding does_def by (metis append_Nil)

text \<open>The target of a compose verb is the stack's own project.\<close>

definition stack_target :: "string \<Rightarrow> string \<Rightarrow> compose_target \<Rightarrow> bool" where
  "stack_target stackPath composeProject t \<longleftrightarrow>
     (\<exists>project files. logsComposeProject stackPath composeProject = Inr project \<and> new_compose_target files project = Inr t)"

definition verb_spec :: "(compose_target \<Rightarrow> invocation) \<Rightarrow> string \<Rightarrow> string \<Rightarrow> op_error + unit \<Rightarrow> event list \<Rightarrow> bool" where
  "verb_spec op stackPath composeProject r cs \<longleftrightarrow>
     (case r of
        Inl e \<Rightarrow> cs = [] \<or> (\<exists>t. stack_target stackPath composeProject t \<and> cs = [Ran (op t) False])
      | Inr u \<Rightarrow> \<exists>t. stack_target stackPath composeProject t \<and> cs = [Ran (op t) True])"

lemma does_project:
  assumes v: "\<And>files client project h. verb files client project h =
      (case new_compose_target files project of Inl err \<Rightarrow> (Some (Refused err), h)
       | Inr t \<Rightarrow> (case client (op t) h of ((res, err), h) \<Rightarrow> (err, h)))"
    and c: "\<And>t b. changes (Ran (op t) b)"
  shows "does (verb_spec op stackPath composeProject) (projectS ho stackPath composeProject verb (host_client ho))"
  unfolding does_def
proof
  fix h
  show "\<exists>es. snd (projectS ho stackPath composeProject verb (host_client ho) h) = h @ es
      \<and> verb_spec op stackPath composeProject (fst (projectS ho stackPath composeProject verb (host_client ho) h)) (filter changes es)"
  proof (cases "logsComposeProject stackPath composeProject")
    case (Inl e)
    then show ?thesis by (simp add: projectS_def bindS_def lookupS_def liftS_def verb_spec_def)
  next
    case (Inr project)
    show ?thesis
    proof (cases "new_compose_target (ho_files ho h) project")
      case (Inl e)
      with Inr show ?thesis by (simp add: projectS_def bindS_def lookupS_def liftS_def verb_spec_def v)
    next
      case (Inr t)
      with \<open>logsComposeProject stackPath composeProject = Inr project\<close> have t: "stack_target stackPath composeProject t"
        by (auto simp: stack_target_def)
      obtain res err where run: "ho_run ho h (op t) = (res, err)" by (cases "ho_run ho h (op t)")
      have "projectS ho stackPath composeProject verb (host_client ho) h
          = (case err of Some e \<Rightarrow> Inl (run_failed e) | None \<Rightarrow> Inr (), h @ [Ran (op t) (err = None)])"
        using Inr \<open>logsComposeProject stackPath composeProject = Inr project\<close> run
        by (simp add: projectS_def bindS_def lookupS_def liftS_def v host_client_def split: option.splits)
      with t c show ?thesis
        by (intro exI [of _ "[Ran (op t) (err = None)]"]) (cases err; auto simp: verb_spec_def)
    qed
  qed
qed

lemma does_compose:
  "does (verb_spec ComposeRestartInvocation d p) (projectS ho d p ComposeRestart (host_client ho))"
  "does (verb_spec ComposeDownInvocation d p) (projectS ho d p ComposeDown (host_client ho))"
  "does (verb_spec (\<lambda>t. ComposeUpInvocation t force) d p)
     (projectS ho d p (\<lambda>files c project. ComposeUp files c project force) (host_client ho))"
  by (rule does_project;
      simp add: ComposeRestart_def ComposeDown_def compose_verb_def ComposeUp_def newComposeUpInvocation_def bindE_def
        split: sum.splits)+

text \<open>Behind \<open>buildDockerClient\<close> the client is the host's.\<close>

lemma with_client:
  "bindS (buildDockerClient ho) f h =
     (case ho_docker ho of Some s \<Rightarrow> (Inl (Untyped (OpDocker s)), h) | None \<Rightarrow> f (host_client ho) h)"
  by (simp add: bindS_def buildDockerClient_def split: option.splits)

lemma adds_client_bind: "adds P (f (host_client ho)) \<Longrightarrow> adds P (bindS (buildDockerClient ho) f)"
  unfolding adds_def with_client by (auto split: option.splits)

lemma does_client: "does R (f (host_client ho)) \<Longrightarrow> (\<And>e. R (Inl e) []) \<Longrightarrow> does R (bindS (buildDockerClient ho) f)"
  unfolding does_def with_client by (auto split: option.splits)

end
