(* ===== verification/Lifecycle.thy ===== *)
theory Lifecycle
  imports Engine_Host
begin

text \<open>
  The operations on one installed stack: \<open>Engine.Restart\<close>, \<open>Engine.RedeployStack\<close> and \<open>Engine.Remove\<close> of
  \<open>internal/core/restart.go\<close>, \<open>redeploy.go\<close> and \<open>remove.go\<close>. Each plans from the manifest, takes the stack's lock,
  asks, runs one compose verb and reads the status back.
\<close>

subsection \<open>Plans\<close>

record stack_request =
  rq_app_id :: string
  rq_stack_path :: string

text \<open>\<open>restartPlan\<close> and \<open>redeployPlan\<close>, which have the same fields.\<close>

record restart_plan =
  sp_app_id :: string
  sp_stack_path :: string
  sp_compose_project :: string
  sp_services :: "string list"
  sp_local_ports :: "int list"

text \<open>The checks the four planning stages begin with.\<close>

definition planned_stack :: "host \<Rightarrow> string \<Rightarrow> string \<Rightarrow> (string \<times> stack_lock) step" where
  "planned_stack ho appID reqStackPath =
     bindS (resolveS ho appID) (\<lambda>(stackPath, lock).
     bindS (checkS (stackPathCrossCheck reqStackPath stackPath)) (\<lambda>_.
     bindS (checkS (requireComposeProject (lk_compose_project lock) appID)) (\<lambda>_.
       returnS (stackPath, lock))))"

definition planRestart :: "host \<Rightarrow> stack_request \<Rightarrow> restart_plan step" where
  "planRestart ho req =
     bindS (checkS (requireAppID (rq_app_id req))) (\<lambda>_.
     bindS (planned_stack ho (rq_app_id req) (rq_stack_path req)) (\<lambda>(stackPath, lock).
       returnS \<lparr>sp_app_id = rq_app_id req, sp_stack_path = stackPath, sp_compose_project = lk_compose_project lock,
         sp_services = expectedStatusServices lock, sp_local_ports = lk_local_ports lock\<rparr>))"

definition planRedeploy :: "host \<Rightarrow> stack_request \<Rightarrow> restart_plan step" where
  "planRedeploy = planRestart"

definition restartConfirmation :: "restart_plan \<Rightarrow> confirmation" where
  "restartConfirmation plan =
     \<lparr>cf_kind = ''restart_safe'', cf_title = ''restart '' @ sp_app_id plan,
      cf_message = joined_lines
        ([''app: '' @ sp_app_id plan, ''stack path: '' @ sp_stack_path plan,
          ''compose project: '' @ sp_compose_project plan,
          ''this stops and starts the stack's containers (brief downtime, no data loss)'']
         @ map (\<lambda>s. ''restarts service '' @ s) (sp_services plan))\<rparr>"

definition redeployConfirmation :: "restart_plan \<Rightarrow> confirmation" where
  "redeployConfirmation plan =
     \<lparr>cf_kind = ''redeploy_safe'', cf_title = ''apply overlay changes to '' @ sp_app_id plan,
      cf_message = joined_lines
        ([''app: '' @ sp_app_id plan, ''stack path: '' @ sp_stack_path plan,
          ''compose project: '' @ sp_compose_project plan,
          ''this recreates the stack from its on-disk files to apply .env.user / override edits (brief downtime, no data loss)'']
         @ map (\<lambda>s. ''recreates service '' @ s) (sp_services plan))\<rparr>"

subsection \<open>Status read back\<close>

definition failed_status :: "app_status \<Rightarrow> string \<Rightarrow> app_status" where
  "failed_status status message =
     status\<lparr>as_state := statusStateNeedsAttention, as_needs_attention := True,
       as_attention_reasons := [statusReasonStatusCheckFailed], as_message := message\<rparr>"

text \<open>\<open>verifyRestartStatus\<close> and \<open>verifyRedeployStatus\<close> differ in three messages.\<close>

definition verify_restarted ::
  "host \<Rightarrow> history client \<Rightarrow> restart_plan \<Rightarrow> string \<Rightarrow> string \<Rightarrow> string \<Rightarrow> app_status step" where
  "verify_restarted ho client plan failedMessage runningMessage attentionMessage h =
     (let status = new_status (sp_app_id plan) (sp_compose_project plan) (sp_stack_path plan) [] (Some (ho_now ho h))
      in case InspectProjectContainers (ho_json ho) client (sp_compose_project plan) h of
           (Inl err, h) \<Rightarrow> (Inr (failed_status status failedMessage), h)
         | (Inr containers, h) \<Rightarrow>
             (case fuseManagedServiceStatuses (sp_app_id plan) (sp_services plan) [] containers status of
                (status, managed, reasons) \<Rightarrow>
                  (let status = status\<lparr>as_local_ports := observedLocalPorts managed\<rparr>;
                       reasons = insert_if (lockPortsMismatch (sp_local_ports plan) managed)
                         statusReasonPortMismatch reasons
                   in (Inr (finalizeStatus status reasons runningMessage attentionMessage), h))))"

definition verifyRestartStatus :: "host \<Rightarrow> history client \<Rightarrow> restart_plan \<Rightarrow> app_status step" where
  "verifyRestartStatus ho client plan =
     verify_restarted ho client plan ''post-restart status verification failed; run apps status for details''
       ''all managed services restarted and are running''
       ''post-restart verification found issues; run apps status for details''"

definition verifyRedeployStatus :: "host \<Rightarrow> history client \<Rightarrow> restart_plan \<Rightarrow> app_status step" where
  "verifyRedeployStatus ho client plan =
     verify_restarted ho client plan ''post-redeploy status verification failed; run apps status for details''
       ''all managed services redeployed and are running''
       ''post-redeploy verification found issues; run apps status for details''"

subsection \<open>Restart and redeploy\<close>

record restart_result =
  rr_app_id :: string
  rr_compose_project :: string
  rr_restarted_services :: "string list"
  rr_status :: app_status

definition restarted :: "restart_plan \<Rightarrow> app_status \<Rightarrow> restart_result" where
  "restarted plan status =
     \<lparr>rr_app_id = sp_app_id plan, rr_compose_project = sp_compose_project plan,
      rr_restarted_services = sp_services plan, rr_status = status\<rparr>"

text \<open>The stack's lock, and the manifest read through it.\<close>

definition locked_stack :: "host \<Rightarrow> string \<Rightarrow> string \<Rightarrow> stack_lock step" where
  "locked_stack ho stackPath appID =
     bindS (acquireInstallStackLock ho stackPath) (\<lambda>held. lookupS (reconfirmManagedStack held appID))"

definition executeRestart :: "host \<Rightarrow> restart_plan \<Rightarrow> restart_result step" where
  "executeRestart ho plan =
     bindS (locked_stack ho (sp_stack_path plan) (sp_app_id plan)) (\<lambda>_.
     bindS (confirmLifecycleOp ho (restartConfirmation plan)) (\<lambda>_.
     bindS (buildDockerClient ho) (\<lambda>client.
     bindS (projectS ho (sp_stack_path plan) (sp_compose_project plan) ComposeRestart client) (\<lambda>_.
     bindS (verifyRestartStatus ho client plan) (\<lambda>status.
       returnS (restarted plan status))))))"

definition Restart :: "host \<Rightarrow> stack_request \<Rightarrow> restart_result step" where
  "Restart ho req =
     bindS (acquireRuntimeLock ho ''restart'') (\<lambda>_.
     bindS (planRestart ho req) (\<lambda>plan. executeRestart ho plan))"

text \<open>The redactor that guards the output of the deployment is built from both environment files.\<close>

definition redactorS :: "host \<Rightarrow> string \<Rightarrow> (string list) step" where
  "redactorS ho stackPath h =
     (case validateConfigRedactor (ho_fs ho h) (ho_files ho h) stackPath of
        Inl e \<Rightarrow> (Inl (map_wdm_error OpEnv e), h)
      | Inr secrets \<Rightarrow> (Inr secrets, h))"

definition executeRedeploy :: "host \<Rightarrow> restart_plan \<Rightarrow> restart_result step" where
  "executeRedeploy ho plan =
     bindS (locked_stack ho (sp_stack_path plan) (sp_app_id plan)) (\<lambda>_.
     bindS (confirmLifecycleOp ho (redeployConfirmation plan)) (\<lambda>_.
     bindS (redactorS ho (sp_stack_path plan)) (\<lambda>secrets.
     bindS (buildDockerClient ho) (\<lambda>client.
     bindS (projectS ho (sp_stack_path plan) (sp_compose_project plan) (\<lambda>files c p. ComposeUp files c p False) client) (\<lambda>_.
     bindS (verifyRedeployStatus ho client plan) (\<lambda>status.
       returnS (restarted plan status)))))))"

definition RedeployStack :: "host \<Rightarrow> stack_request \<Rightarrow> restart_result step" where
  "RedeployStack ho req =
     bindS (acquireRuntimeLock ho ''redeploy'') (\<lambda>_.
     bindS (planRedeploy ho req) (\<lambda>plan. executeRedeploy ho plan))"

subsection \<open>Safe removal\<close>

record remove_plan =
  mp_app_id :: string
  mp_stack_path :: string
  mp_compose_project :: string
  mp_preserved_paths :: "string list"
  mp_remaining_named_volumes :: "string list"
  mp_remaining_networks :: "string list"

text \<open>A failed listing is an empty one, unless Docker itself is not there.\<close>

definition listNamedVolumes :: "host \<Rightarrow> string \<Rightarrow> (string list) step" where
  "listNamedVolumes ho composeProject =
     bindS (buildDockerClient ho) (\<lambda>client h.
       (case ListProjectNamedVolumes client composeProject h of
          (Inl err, h) \<Rightarrow> (if inspect_code err = Some ErrCodeDockerUnavailable then (Inl (inspect_failed err), h)
                            else (Inr [], h))
        | (Inr volumes, h) \<Rightarrow> (Inr volumes, h)))"

definition relistRemoveNamedVolumesPostCommit :: "history client \<Rightarrow> string \<Rightarrow> (string list) step" where
  "relistRemoveNamedVolumesPostCommit client composeProject h =
     (case ListProjectNamedVolumes client composeProject h of
        (Inl err, h) \<Rightarrow> (Inr [], h)
      | (Inr volumes, h) \<Rightarrow> (Inr volumes, h))"

definition catalogNetworkNames :: "network list \<Rightarrow> string list" where
  "catalogNetworkNames networks = sort (remdups (filter (\<lambda>n. n \<noteq> []) (map net_name networks)))"

definition planRemainingNetworks :: "string + catalog_doc \<Rightarrow> string \<Rightarrow> string list" where
  "planRemainingNetworks catalog appID =
     (case catalog of
        Inl s \<Rightarrow> []
      | Inr cat \<Rightarrow> (case selectCatalogApp cat appID of Inl e \<Rightarrow> [] | Inr a \<Rightarrow> catalogNetworkNames (app_networks a)))"

definition planRemove :: "host \<Rightarrow> string + catalog_doc \<Rightarrow> stack_request \<Rightarrow> remove_plan step" where
  "planRemove ho catalog req =
     bindS (checkS (requireAppID (rq_app_id req))) (\<lambda>_.
     bindS (planned_stack ho (rq_app_id req) (rq_stack_path req)) (\<lambda>(stackPath, lock).
     bindS (listNamedVolumes ho (lk_compose_project lock)) (\<lambda>volumes.
       returnS \<lparr>mp_app_id = rq_app_id req, mp_stack_path = stackPath, mp_compose_project = lk_compose_project lock,
         mp_preserved_paths = [stackPath], mp_remaining_named_volumes = volumes,
         mp_remaining_networks = planRemainingNetworks catalog (rq_app_id req)\<rparr>)))"

definition removeConfirmation :: "remove_plan \<Rightarrow> confirmation" where
  "removeConfirmation plan =
     \<lparr>cf_kind = ''remove_safe'', cf_title = ''remove '' @ mp_app_id plan,
      cf_message = joined_lines
        ([''app: '' @ mp_app_id plan, ''stack path: '' @ mp_stack_path plan,
          ''compose project: '' @ mp_compose_project plan,
          ''this stops and removes the stack's containers'',
          ''files and data are kept: .env, compose file, lock file, backups, app data, databases'']
         @ map (\<lambda>p. ''keeps '' @ p) (mp_preserved_paths plan)
         @ map (\<lambda>v. ''keeps named volume '' @ v) (mp_remaining_named_volumes plan)
         @ map (\<lambda>n. ''keeps docker network '' @ n) (mp_remaining_networks plan))\<rparr>"

definition manifestS :: "host \<Rightarrow> string \<Rightarrow> stack_lock \<Rightarrow> unit step" where
  "manifestS ho stackPath lock h =
     (let path = path_join stackPath installLockFilename; err = ho_write_manifest ho h path lock;
          h = h @ [WroteManifest path lock (err = None)]
      in case err of None \<Rightarrow> (Inr (), h) | Some s \<Rightarrow> (Inl (Coded ErrCodeGeneric (OpManifestUnwritten s)), h))"

definition writeRemoveLockManifest :: "host \<Rightarrow> string \<Rightarrow> stack_lock \<Rightarrow> unit step" where
  "writeRemoveLockManifest ho stackPath existing h =
     manifestS ho stackPath
       (existing\<lparr>lk_last_successful_operation :=
          Some \<lparr>op_kind = ''remove'', op_at = ho_now ho h, op_wdm_version = ho_version ho\<rparr>\<rparr>) h"

text \<open>The first container of every service.\<close>

definition managedContainersForApp :: "string \<Rightarrow> container_info list \<Rightarrow> container_info list" where
  "managedContainersForApp appID containers = map snd (index_containers appID containers)"

definition statusStateRemoved :: string where
  "statusStateRemoved = ''removed''"

definition left_over :: "container_info \<Rightarrow> service_status" where
  "left_over c = \<lparr>ss_service = ci_service c, ss_container_name = ci_name c, ss_state = cs_status (ci_state c),
     ss_health = cs_health (ci_state c), ss_needs_attention = True, ss_message = ''container still present after removal'',
     ss_published_ports = publishedPortBindings c\<rparr>"

definition verifyRemoveStatus :: "host \<Rightarrow> history client \<Rightarrow> remove_plan \<Rightarrow> app_status step" where
  "verifyRemoveStatus ho client plan h =
     (let status = new_status (mp_app_id plan) (mp_compose_project plan) (mp_stack_path plan) [] (Some (ho_now ho h))
      in case InspectProjectContainers (ho_json ho) client (mp_compose_project plan) h of
           (Inl err, h) \<Rightarrow>
             (Inr (failed_status status ''post-remove status verification failed; run apps status for details''), h)
         | (Inr containers, h) \<Rightarrow>
             (let managed = managedContainersForApp (mp_app_id plan) containers
              in (Inr (if managed = []
                       then status\<lparr>as_state := statusStateRemoved,
                              as_message := ''containers stopped and removed; files and data preserved''\<rparr>
                       else failed_status (status\<lparr>as_services := map left_over (sort_key ci_service managed)\<rparr>)
                              (itoa (int (length managed))
                               @ '' managed container(s) remain after removal; run apps status for details'')), h)))"

record remove_result =
  mr_plan :: remove_plan
  mr_remaining_named_volumes :: "string list"
  mr_status :: app_status

definition executeRemove :: "host \<Rightarrow> remove_plan \<Rightarrow> remove_result step" where
  "executeRemove ho plan =
     bindS (locked_stack ho (mp_stack_path plan) (mp_app_id plan)) (\<lambda>existing.
     bindS (confirmLifecycleOp ho (removeConfirmation plan)) (\<lambda>_.
     bindS (buildDockerClient ho) (\<lambda>client.
     bindS (projectS ho (mp_stack_path plan) (mp_compose_project plan) ComposeDown client) (\<lambda>_.
     bindS (writeRemoveLockManifest ho (mp_stack_path plan) existing) (\<lambda>_.
     bindS (verifyRemoveStatus ho client plan) (\<lambda>status.
     bindS (relistRemoveNamedVolumesPostCommit client (mp_compose_project plan)) (\<lambda>volumes.
       returnS \<lparr>mr_plan = plan, mr_remaining_named_volumes = volumes, mr_status = status\<rparr>)))))))"

definition Remove :: "host \<Rightarrow> string + catalog_doc \<Rightarrow> stack_request \<Rightarrow> remove_result step" where
  "Remove ho catalog req =
     bindS (acquireRuntimeLock ho ''remove'') (\<lambda>_.
     bindS (planRemove ho catalog req) (\<lambda>plan. executeRemove ho plan))"

subsection \<open>What they change\<close>

lemma adds_planned [adds_intros]: "adds P (planned_stack ho appID path)"
  unfolding planned_stack_def by (intro adds_bind adds_intros; (simp split: prod.splits)?; intro allI impI adds_bind adds_intros)

lemma adds_locked [adds_intros]:
  "P (LockedStack (path_join d installLockFilename)) \<Longrightarrow> adds P (locked_stack ho d appID)"
  unfolding locked_stack_def by (intro adds_bind adds_intros)

lemma quiet_verify [adds_intros]:
  "adds (\<lambda>e. \<not> changes e) (verifyRestartStatus ho (host_client ho) plan)"
  "adds (\<lambda>e. \<not> changes e) (verifyRedeployStatus ho (host_client ho) plan)"
proof -
  have "adds (\<lambda>e. \<not> changes e) (verify_restarted ho (host_client ho) plan a b c)" for a b c
    unfolding adds_def
  proof
    fix h
    obtain es where "snd (InspectProjectContainers (ho_json ho) (host_client ho) (sp_compose_project plan) h) = h @ es"
      "\<forall>e \<in> set es. \<not> changes e"
      using adds_inspect [of "\<lambda>e. \<not> changes e"] unfolding adds_def by (metis changes.simps(1))
    then show "\<exists>es. snd (verify_restarted ho (host_client ho) plan a b c h) = h @ es \<and> (\<forall>e \<in> set es. \<not> changes e)"
      by (auto simp: verify_restarted_def Let_def split: prod.splits sum.splits)
  qed
  then show "adds (\<lambda>e. \<not> changes e) (verifyRestartStatus ho (host_client ho) plan)"
    "adds (\<lambda>e. \<not> changes e) (verifyRedeployStatus ho (host_client ho) plan)"
    by (simp_all add: verifyRestartStatus_def verifyRedeployStatus_def)
qed

lemma adds_all_verbs [adds_intros]:
  "adds (\<lambda>e. True) (projectS ho d p ComposeRestart (host_client ho))"
  "adds (\<lambda>e. True) (projectS ho d p ComposeDown (host_client ho))"
  "adds (\<lambda>e. True) (projectS ho d p (\<lambda>files c p. ComposeUp files c p force) (host_client ho))"
  by (rule adds_project, simp add: ComposeRestart_def ComposeDown_def adds_verb adds_up)+

lemma quiet_redactor [adds_intros]: "adds P (redactorS ho d)"
  by (rule adds_same) (simp add: redactorS_def split: sum.splits)

lemmas adds_verify [adds_intros] = quiet_verify [THEN adds_any]

lemma adds_restart_tail:
  "adds (\<lambda>e. True) (bindS (buildDockerClient ho) (\<lambda>client.
     bindS (projectS ho d p ComposeRestart client) (\<lambda>_. bindS (verifyRestartStatus ho client plan) (\<lambda>st. returnS (g st)))))"
  by (rule adds_client_bind) (intro adds_bind adds_intros)

lemma adds_redeploy_tail:
  "adds (\<lambda>e. True) (bindS (redactorS ho d) (\<lambda>secrets. bindS (buildDockerClient ho) (\<lambda>client.
     bindS (projectS ho d p (\<lambda>files c p. ComposeUp files c p False) client) (\<lambda>_.
     bindS (verifyRedeployStatus ho client plan) (\<lambda>st. returnS (g st))))))"
  by (intro adds_bind adds_client_bind adds_intros)

text \<open>The stack that was found under an application id, whenever that was.\<close>

definition found_stack :: "host \<Rightarrow> string \<Rightarrow> string \<Rightarrow> stack_lock \<Rightarrow> bool" where
  "found_stack ho appID d lock \<longleftrightarrow> (\<exists>h. resolveManagedStack (ho_fs ho h) (ho_base ho) appID = Inr (d, lock))"

lemma planned_found:
  assumes "fst (planned_stack ho appID path h) = Inr (d, lock)"
  shows "found_stack ho appID d lock \<and> lk_compose_project lock \<noteq> [] \<and> (path = [] \<or> path_clean path = d)"
proof -
  from assms obtain r where r: "resolveManagedStack (ho_fs ho h) (ho_base ho) appID = Inr r"
    by (cases "resolveManagedStack (ho_fs ho h) (ho_base ho) appID")
      (auto simp: planned_stack_def bindS_def resolveS_def lookupS_def liftS_def)
  obtain d' lock' where "r = (d', lock')" by (cases r)
  with assms r have "d' = d \<and> lock' = lock \<and> lk_compose_project lock \<noteq> [] \<and> (path = [] \<or> path_clean path = d)"
    by (auto simp: planned_stack_def bindS_def resolveS_def lookupS_def liftS_def checkS_def returnS_def
        stackPathCrossCheck_def requireComposeProject_def split: if_splits)
  with r \<open>r = (d', lock')\<close> show ?thesis by (auto simp: found_stack_def)
qed

definition plans_stack :: "host \<Rightarrow> stack_request \<Rightarrow> op_error + restart_plan \<Rightarrow> event list \<Rightarrow> bool" where
  "plans_stack ho req r cs \<longleftrightarrow> cs = [] \<and> (\<forall>plan. r = Inr plan \<longrightarrow> (\<exists>d lock. found_stack ho (rq_app_id req) d lock
     \<and> plan = \<lparr>sp_app_id = rq_app_id req, sp_stack_path = d, sp_compose_project = lk_compose_project lock,
         sp_services = expectedStatusServices lock, sp_local_ports = lk_local_ports lock\<rparr>))"

lemma does_plan: "does (plans_stack ho req) (planRestart ho req)"
proof (rule does_quiet)
  show "adds (\<lambda>e. \<not> changes e) (planRestart ho req)"
    unfolding planRestart_def by (intro adds_bind adds_intros; (simp split: prod.splits)?; (intro allI impI adds_intros)?)
  fix h
  show "plans_stack ho req (fst (planRestart ho req h)) []"
    unfolding plans_stack_def
  proof (intro conjI allI impI)
    fix plan
    assume p: "fst (planRestart ho req h) = Inr plan"
    then obtain d lock where l: "fst (planned_stack ho (rq_app_id req) (rq_stack_path req) h) = Inr (d, lock)"
      by (auto simp: planRestart_def bindS_def checkS_def liftS_def split: sum.splits prod.splits option.splits)
    with p have "plan = \<lparr>sp_app_id = rq_app_id req, sp_stack_path = d, sp_compose_project = lk_compose_project lock,
         sp_services = expectedStatusServices lock, sp_local_ports = lk_local_ports lock\<rparr>"
      by (auto simp: planRestart_def bindS_def checkS_def liftS_def returnS_def split: sum.splits prod.splits option.splits)
    with planned_found [OF l] show "\<exists>d lock. found_stack ho (rq_app_id req) d lock
       \<and> plan = \<lparr>sp_app_id = rq_app_id req, sp_stack_path = d, sp_compose_project = lk_compose_project lock,
         sp_services = expectedStatusServices lock, sp_local_ports = lk_local_ports lock\<rparr>" by blast
  qed simp
qed

text \<open>Nothing but one compose verb on the project of the stack that was found.\<close>

definition one_verb ::
  "(compose_target \<Rightarrow> invocation) \<Rightarrow> host \<Rightarrow> string \<Rightarrow> op_error + restart_result \<Rightarrow> event list \<Rightarrow> bool" where
  "one_verb op ho appID r cs \<longleftrightarrow>
     (case r of
        Inl e \<Rightarrow> cs = [] \<or> (\<exists>d lock t. found_stack ho appID d lock \<and> stack_target d (lk_compose_project lock) t
          \<and> cs = [Ran (op t) False])
      | Inr x \<Rightarrow> \<exists>d lock t. found_stack ho appID d lock \<and> stack_target d (lk_compose_project lock) t
          \<and> cs = [Ran (op t) True] \<and> rr_app_id x = appID \<and> rr_compose_project x = lk_compose_project lock
          \<and> rr_restarted_services x = expectedStatusServices lock)"

definition verb_on :: "(compose_target \<Rightarrow> invocation) \<Rightarrow> restart_plan \<Rightarrow> op_error + restart_result \<Rightarrow> event list \<Rightarrow> bool" where
  "verb_on op plan r cs \<longleftrightarrow>
     (case r of
        Inl e \<Rightarrow> cs = [] \<or> (\<exists>t. stack_target (sp_stack_path plan) (sp_compose_project plan) t \<and> cs = [Ran (op t) False])
      | Inr x \<Rightarrow> \<exists>t st. stack_target (sp_stack_path plan) (sp_compose_project plan) t \<and> cs = [Ran (op t) True]
          \<and> x = restarted plan st)"

lemma verb_on_planned:
  assumes "plans_stack ho req (Inr plan) cs" "verb_on op plan r cs'"
  shows "one_verb op ho (rq_app_id req) r (cs @ cs')"
  using assms by (cases r) (fastforce simp: plans_stack_def verb_on_def one_verb_def restarted_def)+

lemma does_verb_on:
  assumes "does (verb_spec op (sp_stack_path plan) (sp_compose_project plan)) m"
    and "adds (\<lambda>e. \<not> changes e) v" "\<And>h. \<exists>st. fst (v h) = Inr st"
  shows "does (verb_on op plan) (bindS m (\<lambda>_. bindS v (\<lambda>st. returnS (restarted plan st))))"
proof (rule does_bind [OF assms(1)])
  show "does (\<lambda>r cs. cs = [] \<and> (\<exists>st. r = Inr (restarted plan st))) (bindS v (\<lambda>st. returnS (restarted plan st)))"
  proof (rule does_quiet)
    show "adds (\<lambda>e. \<not> changes e) (bindS v (\<lambda>st. returnS (restarted plan st)))"
      by (intro adds_bind assms(2) adds_intros)
    show "[] = [] \<and> (\<exists>st. fst (bindS v (\<lambda>st. returnS (restarted plan st)) h) = Inr (restarted plan st))" for h
      using assms(3) [of h] by (auto simp: bindS_def returnS_def split: prod.splits sum.splits)
  qed
qed (auto simp: verb_spec_def verb_on_def, blast)

lemma verify_returns: "\<exists>st. fst (verifyRestartStatus ho client plan h) = Inr st"
  "\<exists>st. fst (verifyRedeployStatus ho client plan h) = Inr st"
  by (auto simp: verifyRestartStatus_def verifyRedeployStatus_def verify_restarted_def Let_def split: prod.splits sum.splits)

lemma does_execute:
  "does (verb_on ComposeRestartInvocation plan) (executeRestart ho plan)"
  "does (verb_on (\<lambda>t. ComposeUpInvocation t False) plan) (executeRedeploy ho plan)"
  unfolding executeRestart_def executeRedeploy_def
  by (intro does_skip does_client does_verb_on does_compose quiet_verify verify_returns adds_intros;
      simp add: verb_on_def)+

text \<open>
  C32: \<open>Restart\<close> and \<open>RedeployStack\<close> do one thing, with consent: whatever Docker, the file system and the
  person at the prompt answer, every change comes after an accepted prompt, and it is one \<open>docker compose restart\<close>
  (\<open>up -d\<close>) of the project of the stack found under the application id; a result names that stack's project and
  services, and an error means that nothing ran or that this one command failed.
\<close>

theorem restart_exact:
  shows "consented (snd (Restart ho req []))
    \<and> one_verb ComposeRestartInvocation ho (rq_app_id req) (fst (Restart ho req [])) (filter changes (snd (Restart ho req [])))
    \<and> consented (snd (RedeployStack ho req []))
    \<and> one_verb (\<lambda>t. ComposeUpInvocation t False) ho (rq_app_id req) (fst (RedeployStack ho req []))
        (filter changes (snd (RedeployStack ho req [])))"
proof (intro conjI)
  show "consented (snd (Restart ho req []))" "consented (snd (RedeployStack ho req []))"
    unfolding Restart_def RedeployStack_def planRedeploy_def planRestart_def executeRestart_def executeRedeploy_def
    by (intro consented_bind consented_confirm adds_restart_tail adds_redeploy_tail adds_bind adds_intros consented_Nil;
        (simp split: prod.splits)?; (intro allI impI adds_intros)?)+
  have "does (one_verb op ho (rq_app_id req)) (bindS (acquireRuntimeLock ho c) (\<lambda>_. bindS (planRestart ho req) f))"
    if "\<And>plan. does (verb_on op plan) (f plan)" for op c and f :: "restart_plan \<Rightarrow> restart_result step"
    by (intro does_skip adds_intros does_bind [OF does_plan that] verb_on_planned)
      (simp_all add: one_verb_def plans_stack_def)
  then have "does (one_verb ComposeRestartInvocation ho (rq_app_id req)) (Restart ho req)"
    "does (one_verb (\<lambda>t. ComposeUpInvocation t False) ho (rq_app_id req)) (RedeployStack ho req)"
    unfolding Restart_def RedeployStack_def planRedeploy_def using does_execute by blast+
  from this [THEN does_run]
  show "one_verb ComposeRestartInvocation ho (rq_app_id req) (fst (Restart ho req [])) (filter changes (snd (Restart ho req [])))"
    "one_verb (\<lambda>t. ComposeUpInvocation t False) ho (rq_app_id req) (fst (RedeployStack ho req []))
        (filter changes (snd (RedeployStack ho req [])))"
    by blast+
qed

subsection \<open>What a removal changes\<close>

lemma adds_named_volumes [adds_intros]:
  assumes "\<And>i b. reading i \<Longrightarrow> P (Ran i b)"
  shows "adds P (listNamedVolumes ho p)"
  unfolding listNamedVolumes_def
proof (rule adds_client_bind)
  have "adds P (ListProjectNamedVolumes (host_client ho) p)" by (rule adds_volumes) (rule assms)
  then show "adds P (\<lambda>h. case ListProjectNamedVolumes (host_client ho) p h of
      (Inl err, h) \<Rightarrow> (if inspect_code err = Some ErrCodeDockerUnavailable then (Inl (inspect_failed err), h) else (Inr [], h))
    | (Inr volumes, h) \<Rightarrow> (Inr volumes, h))"
    unfolding adds_def by (simp add: case_prod_beta split: sum.splits)
qed

lemma adds_relist [adds_intros]:
  assumes "\<And>i b. reading i \<Longrightarrow> P (Ran i b)"
  shows "adds P (relistRemoveNamedVolumesPostCommit (host_client ho) p)"
  using adds_volumes [where P = P and ho = ho and project = p] assms
  unfolding adds_def relistRemoveNamedVolumesPostCommit_def by (simp add: case_prod_beta split: sum.splits)

lemma adds_verify_remove [adds_intros]:
  assumes "\<And>i b. reading i \<Longrightarrow> P (Ran i b)"
  shows "adds P (verifyRemoveStatus ho (host_client ho) plan)"
  using adds_inspect [where P = P and ho = ho and json = "ho_json ho" and project = "mp_compose_project plan"] assms
  unfolding adds_def verifyRemoveStatus_def by (simp add: case_prod_beta Let_def split: sum.splits)

lemma adds_manifest [adds_intros]: "adds (\<lambda>e. True) (writeRemoveLockManifest ho d l)"
  by (rule adds_one) (simp add: writeRemoveLockManifest_def manifestS_def Let_def split: option.splits)

lemma adds_remove_tail:
  "adds (\<lambda>e. True) (bindS (buildDockerClient ho) (\<lambda>client. bindS (projectS ho d p ComposeDown client) (\<lambda>_.
     bindS (writeRemoveLockManifest ho d l) (\<lambda>_. bindS (verifyRemoveStatus ho client plan) (\<lambda>st.
     bindS (relistRemoveNamedVolumesPostCommit client q) (\<lambda>vs. returnS (g st vs)))))))"
  by (rule adds_client_bind) (intro adds_bind adds_intros; simp)

text \<open>
  The outcome of a removal that holds the stack's lock: \<open>l\<close> is the manifest it read through it, \<open>d\<close> the
  directory and \<open>p\<close> the project of its plan, \<open>cs\<close> what it changed since.
\<close>

definition removal_mark :: "host \<Rightarrow> operation \<Rightarrow> bool" where
  "removal_mark ho mark \<longleftrightarrow> op_kind mark = ''remove'' \<and> op_wdm_version mark = ho_version ho
     \<and> (\<exists>h. op_at mark = ho_now ho h)"

definition marked_manifest :: "host \<Rightarrow> stack_lock \<Rightarrow> string \<Rightarrow> bool \<Rightarrow> event \<Rightarrow> bool" where
  "marked_manifest ho l d ok e \<longleftrightarrow> (\<exists>mark. removal_mark ho mark
     \<and> e = WroteManifest (path_join d installLockFilename) (l\<lparr>lk_last_successful_operation := Some mark\<rparr>) ok)"

definition removed_stack :: "host \<Rightarrow> stack_lock \<Rightarrow> string \<Rightarrow> string \<Rightarrow> op_error + remove_result \<Rightarrow> event list \<Rightarrow> bool" where
  "removed_stack ho l d p r cs \<longleftrightarrow>
     (cs = [] \<and> isl r)
     \<or> (\<exists>t. stack_target d p t \<and> isl r \<and> cs = [Ran (ComposeDownInvocation t) False])
     \<or> (\<exists>t e. stack_target d p t \<and> marked_manifest ho l d (\<not> isl r) e \<and> cs = [Ran (ComposeDownInvocation t) True, e])"

lemma does_manifest:
  "does (\<lambda>r cs. \<exists>e. marked_manifest ho l d (\<not> isl r) e \<and> cs = [e]) (writeRemoveLockManifest ho d l)"
proof -
  have mark: "removal_mark ho \<lparr>op_kind = ''remove'', op_at = ho_now ho h, op_wdm_version = ho_version ho\<rparr>" for h
    by (auto simp: removal_mark_def)
  show ?thesis
    unfolding does_def writeRemoveLockManifest_def manifestS_def Let_def marked_manifest_def
    using mark by (auto split: option.splits; blast)
qed

lemma locked_run:
  assumes "locked_stack ho d appID h = (r, h')"
  shows "(h' = h \<or> h' = h @ [LockedStack (path_join d installLockFilename)])
    \<and> (\<forall>l. r = Inr l \<longrightarrow> h' = h @ [LockedStack (path_join d installLockFilename)] \<and> lk_app_id l = appID
         \<and> acquire_lock (ho_fs ho h) (path_join d installLockFilename) = LockHeld (Some l))"
  using assms
  by (auto simp: locked_stack_def bindS_def lookupS_def liftS_def reconfirmManagedStack_def acquireInstallStackLock_def
      Let_def split: prod.splits sum.splits option.splits if_splits lock_acquired.splits)

lemma verify_remove_returns: "\<exists>st. fst (verifyRemoveStatus ho client plan h) = Inr st"
  "\<exists>vs. fst (relistRemoveNamedVolumesPostCommit client q h) = Inr vs"
  by (auto simp: verifyRemoveStatus_def relistRemoveNamedVolumesPostCommit_def Let_def split: prod.splits sum.splits)

text \<open>What follows the lock: the prompt, the command, the manifest and two readings.\<close>

lemma does_remove_locked:
  "does (removed_stack ho l (mp_stack_path plan) (mp_compose_project plan))
     (bindS (confirmLifecycleOp ho (removeConfirmation plan)) (\<lambda>_.
      bindS (buildDockerClient ho) (\<lambda>client.
      bindS (projectS ho (mp_stack_path plan) (mp_compose_project plan) ComposeDown client) (\<lambda>_.
      bindS (writeRemoveLockManifest ho (mp_stack_path plan) l) (\<lambda>_.
      bindS (verifyRemoveStatus ho client plan) (\<lambda>status.
      bindS (relistRemoveNamedVolumesPostCommit client (mp_compose_project plan)) (\<lambda>volumes.
        returnS \<lparr>mr_plan = plan, mr_remaining_named_volumes = volumes, mr_status = status\<rparr>)))))))"
proof -
  let ?d = "mp_stack_path plan" and ?p = "mp_compose_project plan" and ?c = "host_client ho"
  have commit: "does (\<lambda>r cs. \<exists>e. marked_manifest ho l ?d (\<not> isl r) e \<and> cs = [e])
    (bindS (writeRemoveLockManifest ho ?d l) (\<lambda>_. bindS (verifyRemoveStatus ho ?c plan) (\<lambda>status.
     bindS (relistRemoveNamedVolumesPostCommit ?c ?p) (\<lambda>volumes.
       returnS \<lparr>mr_plan = plan, mr_remaining_named_volumes = volumes, mr_status = status\<rparr>))))"
    by (rule does_bind [where Q = "\<lambda>u r cs. cs = [] \<and> (\<exists>x. r = Inr x)", OF does_manifest])
      (auto intro!: does_read verify_remove_returns adds_intros does_weaken [OF does_return])
  have tail: "does (removed_stack ho l ?d ?p) (bindS (projectS ho ?d ?p ComposeDown ?c) (\<lambda>_.
     bindS (writeRemoveLockManifest ho ?d l) (\<lambda>_. bindS (verifyRemoveStatus ho ?c plan) (\<lambda>status.
     bindS (relistRemoveNamedVolumesPostCommit ?c ?p) (\<lambda>volumes.
       returnS \<lparr>mr_plan = plan, mr_remaining_named_volumes = volumes, mr_status = status\<rparr>)))))"
  proof (rule does_bind [OF does_compose(2) commit])
    show "removed_stack ho l ?d ?p (Inl e) cs" if "verb_spec ComposeDownInvocation ?d ?p (Inl e) cs" for e cs
      using that by (auto simp: verb_spec_def removed_stack_def)
    show "removed_stack ho l ?d ?p r (cs @ cs')"
      if "verb_spec ComposeDownInvocation ?d ?p (Inr x) cs"
        "\<exists>e. marked_manifest ho l ?d (\<not> isl r) e \<and> cs' = [e]" for x cs r cs'
      using that unfolding verb_spec_def removed_stack_def by force
  qed
  show ?thesis
    by (auto simp: removed_stack_def [of _ _ _ _ "Inl _" "[]"] intro!: does_skip does_client tail adds_intros)
qed

text \<open>The whole history of a removal: nothing changed, or everything that changed did so under the stack's lock.\<close>

definition safe_removal :: "host \<Rightarrow> string \<Rightarrow> op_error + remove_result \<Rightarrow> history \<Rightarrow> bool" where
  "safe_removal ho appID r hist \<longleftrightarrow>
     filter changes hist = [] \<and> isl r
     \<or> (\<exists>d lock h l rest. found_stack ho appID d lock
          \<and> hist = h @ LockedStack (path_join d installLockFilename) # rest \<and> filter changes h = []
          \<and> acquire_lock (ho_fs ho h) (path_join d installLockFilename) = LockHeld (Some l) \<and> lk_app_id l = appID
          \<and> removed_stack ho l d (lk_compose_project lock) r (filter changes rest))"

lemma execute_remove_run:
  assumes "filter changes h = []" "found_stack ho (mp_app_id plan) (mp_stack_path plan) lock"
    "mp_compose_project plan = lk_compose_project lock" "executeRemove ho plan h = (r, h')"
  shows "safe_removal ho (mp_app_id plan) r h'"
proof -
  let ?path = "path_join (mp_stack_path plan) installLockFilename"
  obtain q h1 where q: "locked_stack ho (mp_stack_path plan) (mp_app_id plan) h = (q, h1)"
    by (cases "locked_stack ho (mp_stack_path plan) (mp_app_id plan) h")
  note run = locked_run [OF q]
  show ?thesis
  proof (cases q)
    case (Inl e)
    with q assms(4) have "r = Inl e" "h' = h1" by (simp_all add: executeRemove_def bindS_def)
    with run assms(1) show ?thesis by (auto simp: safe_removal_def)
  next
    case (Inr l)
    with run have l: "h1 = h @ [LockedStack ?path]" "lk_app_id l = mp_app_id plan"
      "acquire_lock (ho_fs ho h) ?path = LockHeld (Some l)" by auto
    obtain es where "h' = h1 @ es" "removed_stack ho l (mp_stack_path plan) (mp_compose_project plan) r (filter changes es)"
      using does_remove_locked [of ho l plan] q Inr assms(4) unfolding does_def executeRemove_def bindS_def [of "locked_stack _ _ _"]
      by (metis (no_types, lifting) fst_conv snd_conv old.prod.case old.sum.simps(6))
    with l assms(1-3) show ?thesis unfolding safe_removal_def by (metis append_Cons append_Nil append_assoc)
  qed
qed

lemma planned_removal:
  assumes "planRemove ho catalog req h = (Inr plan, h')"
  shows "mp_app_id plan = rq_app_id req
    \<and> (\<exists>lock. found_stack ho (rq_app_id req) (mp_stack_path plan) lock \<and> mp_compose_project plan = lk_compose_project lock)"
proof -
  from assms obtain d lock where l: "fst (planned_stack ho (rq_app_id req) (rq_stack_path req) h) = Inr (d, lock)"
    by (auto simp: planRemove_def bindS_def checkS_def liftS_def split: sum.splits prod.splits option.splits)
  with assms have "mp_app_id plan = rq_app_id req \<and> mp_stack_path plan = d \<and> mp_compose_project plan = lk_compose_project lock"
    by (auto simp: planRemove_def bindS_def checkS_def liftS_def returnS_def split: sum.splits prod.splits option.splits)
  with planned_found [OF l] show ?thesis by auto
qed

lemma quiet_run: "adds (\<lambda>e. \<not> changes e) m \<Longrightarrow> m h = (r, h') \<Longrightarrow> filter changes h = [] \<Longrightarrow> filter changes h' = []"
  unfolding adds_def by (metis (mono_tags, lifting) append_self_conv2 filter_append filter_empty_conv snd_conv)

text \<open>
  C33: \<open>Remove\<close> is safe: whatever Docker, the file system and the person at the prompt answer, every change
  comes after an accepted prompt and after the stack's lock was taken, and the changes are at most one \<open>docker compose
  down\<close> (never with \<open>-v\<close>) of the
  project of the stack found under the application id, then the stack's manifest: the very manifest that was
  read through the held lock, with nothing but its last successful operation replaced, by the mark \<open>remove\<close>. No file,
  volume or network is deleted. The manifest is only written when the command succeeded, a
  result means that both did, and an error after the command means that the manifest was not written.
\<close>

theorem remove_safe:
  shows "consented (snd (Remove ho catalog req []))
    \<and> (filter changes (snd (Remove ho catalog req [])) = [] \<and> isl (fst (Remove ho catalog req []))
       \<or> (\<exists>d lock h l rest. found_stack ho (rq_app_id req) d lock
            \<and> snd (Remove ho catalog req []) = h @ LockedStack (path_join d installLockFilename) # rest
            \<and> filter changes h = []
            \<and> acquire_lock (ho_fs ho h) (path_join d installLockFilename) = LockHeld (Some l)
            \<and> lk_app_id l = rq_app_id req
            \<and> removed_stack ho l d (lk_compose_project lock) (fst (Remove ho catalog req [])) (filter changes rest)))"
proof (rule conjI)
  show "consented (snd (Remove ho catalog req []))"
    unfolding Remove_def planRemove_def executeRemove_def
    by (intro consented_bind consented_confirm adds_remove_tail adds_bind adds_intros consented_Nil;
        (simp split: prod.splits)?; (intro allI impI adds_bind adds_intros)?; simp?)
  have quiet: "adds (\<lambda>e. \<not> changes e) (planRemove ho catalog req)"
    unfolding planRemove_def
    by (intro adds_bind adds_intros; (simp split: prod.splits)?; (intro allI impI adds_bind adds_intros)?; simp?)
  obtain u h1 where u: "acquireRuntimeLock ho ''remove'' [] = (u, h1)" by (cases "acquireRuntimeLock ho ''remove'' []")
  then have h1: "filter changes h1 = []"
    by (auto simp: acquireRuntimeLock_def split: option.splits prod.splits)
  obtain q h2 where q: "planRemove ho catalog req h1 = (q, h2)" by (cases "planRemove ho catalog req h1")
  note h2 = quiet_run [OF quiet q h1]
  have "safe_removal ho (rq_app_id req) (fst (Remove ho catalog req [])) (snd (Remove ho catalog req []))"
  proof (cases u)
    case (Inl e)
    with u h1 show ?thesis by (simp add: Remove_def bindS_def safe_removal_def)
  next
    case ok: (Inr x)
    show ?thesis
    proof (cases q)
      case (Inl e)
      with u q ok h2 show ?thesis by (simp add: Remove_def bindS_def safe_removal_def)
    next
      case (Inr plan)
      obtain r h' where e: "executeRemove ho plan h2 = (r, h')" by (cases "executeRemove ho plan h2")
      from planned_removal [OF q [unfolded Inr]] obtain lock where
        "mp_app_id plan = rq_app_id req" "found_stack ho (rq_app_id req) (mp_stack_path plan) lock"
        "mp_compose_project plan = lk_compose_project lock" by blast
      with execute_remove_run [OF h2 _ _ e] have "safe_removal ho (rq_app_id req) r h'" by metis
      with u q ok Inr e show ?thesis by (simp add: Remove_def bindS_def)
    qed
  qed
  then show "filter changes (snd (Remove ho catalog req [])) = [] \<and> isl (fst (Remove ho catalog req []))
       \<or> (\<exists>d lock h l rest. found_stack ho (rq_app_id req) d lock
            \<and> snd (Remove ho catalog req []) = h @ LockedStack (path_join d installLockFilename) # rest
            \<and> filter changes h = []
            \<and> acquire_lock (ho_fs ho h) (path_join d installLockFilename) = LockHeld (Some l)
            \<and> lk_app_id l = rq_app_id req
            \<and> removed_stack ho l d (lk_compose_project lock) (fst (Remove ho catalog req [])) (filter changes rest))"
    unfolding safe_removal_def .
qed

subsection \<open>A concrete host\<close>

definition demo_machine :: "bool \<Rightarrow> string \<Rightarrow> host" where
  "demo_machine up status =
     \<lparr>ho_base = ''/srv'', ho_state_dir = ''/home/u/.local/state/wdm'', ho_data_dir = ''/home/u/.local/share/wdm'',
      ho_config_path = ''/home/u/.config/wdm/config.json'', ho_version = ''1'', ho_json = demo_json up status,
      ho_err_text = (\<lambda>e. ''failed''), ho_networks_yaml = (\<lambda>s. None), ho_now = (\<lambda>h. 0), ho_fs = (\<lambda>h. demo_fs),
      ho_files = (\<lambda>h. demo_files), ho_runtime_lock = (\<lambda>h c. None), ho_release = (\<lambda>h. None), ho_docker = None,
      ho_run = (\<lambda>h i. fst (read_client (demo_engine up status) i ())), ho_confirm = Some (\<lambda>h c. Inr True),
      ho_write_manifest = (\<lambda>h p l. None), ho_remove_all = (\<lambda>h p. None), ho_remove = (\<lambda>h p. None),
      ho_eval_symlinks = (\<lambda>h p. Inr p), ho_home = Inr ''/home/u'', ho_executable = Inr ''/home/u/bin/wdm''\<rparr>"

lemma demo_machine_inspects:
  "\<exists>h'. InspectProjectContainers (ho_json (demo_machine up status)) (host_client (demo_machine up status)) ''wdm-demo'' h
     = (Inr [demo_container up status], h')"
proof -
  have p: "validateComposeProjectName ''wdm-demo'' = Inr ''wdm-demo''"
    using demo_project by (simp add: err_simps)
  have "ho_run (demo_machine up status) h (ProjectContainerListInvocation ''wdm-demo'') = (said (''aaaaaaaaaaaa'' @ [CHR 10]), None)"
    "ho_run (demo_machine up status) h' (ContainerInspectInvocation ''aaaaaaaaaaaa'') = (said demo_fields, None)" for h h'
    using demo_list [of up status "()"] demo_inspect [of up status "()"] by (simp_all add: demo_machine_def)
  with p show ?thesis
    by (simp add: InspectProjectContainers_def host_client_def Let_def demo_ids [simplified] demo_parsed said_def)
      (simp add: demo_machine_def demo_parsed)
qed

text \<open>
  C34: a restart and a redeployment forget which services are one-shot jobs. When the container of such a
  service has run to its end (status \<open>exited\<close>, exit code 0), the status they report says that the stack needs
  attention because a container has exited, whatever the manifest's list of completed services says, and although
  the fusion that \<open>Status\<close> does with that list raises nothing for the service.
\<close>

theorem restart_forgets_completed:
  assumes "InspectProjectContainers (ho_json ho) client (sp_compose_project plan) h = (Inr cs, h')"
    and "stands_for (sp_app_id plan) cs s = Some c"
    and "\<not> cs_restarting (ci_state c)" "\<not> cs_running (ci_state c)"
    and "equal_fold_ascii (cs_status (ci_state c)) ''exited''" "cs_exit_code (ci_state c) = 0" "s \<in> set completed"
  shows "\<exists>st st'. verifyRestartStatus ho client plan h = (Inr st, h') \<and> verifyRedeployStatus ho client plan h = (Inr st', h')
    \<and> as_state st = statusStateNeedsAttention \<and> statusReasonContainerExited \<in> set (as_attention_reasons st)
    \<and> as_state st' = statusStateNeedsAttention \<and> statusReasonContainerExited \<in> set (as_attention_reasons st')
    \<and> snd (fuse_service completed (index_containers (sp_app_id plan) cs) s) = None"
proof -
  have bad: "container_condition (sp_app_id plan) (sp_services plan) [] cs statusReasonContainerExited"
    using assms(2-4) unfolding container_condition_def exited_badly_def by auto
  have "\<exists>st. verify_restarted ho client plan f r a h = (Inr st, h')
      \<and> as_state st = statusStateNeedsAttention \<and> statusReasonContainerExited \<in> set (as_attention_reasons st)" for f r a
  proof -
    obtain st m rs where fused: "fuseManagedServiceStatuses (sp_app_id plan) (sp_services plan) [] cs
        (new_status (sp_app_id plan) (sp_compose_project plan) (sp_stack_path plan) [] (Some (ho_now ho h))) = (st, m, rs)"
      by (metis prod_cases3)
    have "rs = {r. container_condition (sp_app_id plan) (sp_services plan) [] cs r}" using fuse_result(2) [OF fused] .
    with bad have "statusReasonContainerExited \<in> insert_if b r rs \<and> finite (insert_if b r rs)" for b r
      using container_conditions_finite by (auto simp: insert_if_def)
    with assms(1) fused show ?thesis
      by (auto simp: verify_restarted_def Let_def finalizeStatus_def)
  qed
  moreover have "snd (fuse_service completed (index_containers (sp_app_id plan) cs) s) = None"
    using assms(2-7) by (simp add: fuse_service_def index_lookup Let_def)
  ultimately show ?thesis
    unfolding verifyRestartStatus_def verifyRedeployStatus_def by blast
qed

theorem restart_forgets_completed_witness:
  "\<exists>st h'. verifyRestartStatus (demo_machine False ''exited'') (host_client (demo_machine False ''exited''))
      \<lparr>sp_app_id = ''demo'', sp_stack_path = ''/srv/demo'', sp_compose_project = ''wdm-demo'', sp_services = [''web''],
        sp_local_ports = []\<rparr> [] = (Inr st, h')
    \<and> as_state st = statusStateNeedsAttention \<and> statusReasonContainerExited \<in> set (as_attention_reasons st)"
proof -
  obtain h' where i: "InspectProjectContainers (ho_json (demo_machine False ''exited'')) (host_client (demo_machine False ''exited''))
      (sp_compose_project \<lparr>sp_app_id = ''demo'', sp_stack_path = ''/srv/demo'', sp_compose_project = ''wdm-demo'',
        sp_services = [''web''], sp_local_ports = []\<rparr>) [] = (Inr [demo_container False ''exited''], h')"
    using demo_machine_inspects [of False "''exited''" "[]"] by auto
  have c: "equal_fold_ascii (cs_status (ci_state (demo_container False ''exited''))) ''exited''"
    unfolding demo_container_def by code_simp
  have f: "stands_for (sp_app_id \<lparr>sp_app_id = ''demo'', sp_stack_path = ''/srv/demo'', sp_compose_project = ''wdm-demo'',
        sp_services = [''web''], sp_local_ports = []\<rparr>) [demo_container False ''exited''] ''web''
      = Some (demo_container False ''exited'')"
    "\<not> cs_restarting (ci_state (demo_container False ''exited''))" "\<not> cs_running (ci_state (demo_container False ''exited''))"
    "cs_exit_code (ci_state (demo_container False ''exited'')) = 0" "''web'' \<in> set [''web'']"
    by (simp_all add: demo_stands) (simp_all add: demo_container_def)
  from restart_forgets_completed [OF i f(1-3) c f(4,5)] show ?thesis by blast
qed

end
