(* ===== verification/File_Tree.thy ===== *)
theory File_Tree
  imports Wdm_Prelude Go_Paths "HOL-Library.Word"
begin

unbundle bit_operations_syntax

text \<open>
  The files the state layer (\<open>internal/state\<close>) reads and writes, and the calls of package \<open>os\<close> it makes. The
  tree maps paths to what is there; the code only names cleaned paths. Every call may fail: which ones do is an
  argument, so that any failing disk, and any crash (from some call on everything fails), is a case. A
  symbolic link is followed once, at the end of a path. A link in the middle of a path is not: what is created there is
  recorded under the path as it was named. The theorems about writes below a directory that others can change say,
  where the code checks it, that no component on the way is a link.
\<close>

subsection \<open>The tree\<close>

type_synonym mode = "9 word"

datatype node =
    Dir mode
  | File mode string
  | Link string
  | Special

type_synonym tree = "(string, node) gomap"

text \<open>
  \<open>dk_unsynced\<close> are the paths of the files whose data, and of the directories whose entries, a loss of power may
  still undo: what was written, created, renamed or removed since the last \<open>Sync\<close> of that file or directory.
\<close>

record disk =
  dk_tree :: tree
  dk_calls :: nat
  dk_unsynced :: "string list"

text \<open>A call that fails does not say that a file is missing.\<close>

datatype fault = Denied | Failed string

fun fault_error :: "fault \<Rightarrow> os_error" where
  "fault_error Denied = AccessDenied"
| "fault_error (Failed s) = OtherOsError s"

lemma fault_present [simp]: "fault_error f \<noteq> NotExist" "NotExist \<noteq> fault_error f"
  by (cases f; simp)+

text \<open>
  What the system does: the error of the \<open>k\<close>-th call, how much a failing write has written, what a failing
  \<open>RemoveAll\<close> leaves, the bits a new file loses, and the modification time of a directory.
\<close>

record io =
  io_fault :: "nat \<Rightarrow> fault option"
  io_short :: "nat \<Rightarrow> nat"
  io_left :: "nat \<Rightarrow> string \<Rightarrow> bool"
  io_umask :: mode
  io_mtime :: "nat \<Rightarrow> string \<Rightarrow> int"
  io_now :: "nat \<Rightarrow> int"

abbreviation node_at :: "disk \<Rightarrow> string \<Rightarrow> node option" where
  "node_at d p \<equiv> map_of (dk_tree d) p"

definition exists_error :: os_error where
  "exists_error = OtherOsError ''file exists''"

text \<open>
  A call: its effect when the system lets it through, its effect when it fails, and what it leaves unsynced
  (also when it failed and may have changed something).
\<close>

definition call_on :: "io \<Rightarrow> (bool \<Rightarrow> string list \<Rightarrow> string list) \<Rightarrow> (tree \<Rightarrow> os_error + 'a \<times> tree) \<Rightarrow> (tree \<Rightarrow> tree)
    \<Rightarrow> disk \<Rightarrow> (os_error + 'a) \<times> disk" where
  "call_on io marks f partly d =
     (let k = dk_calls d; d' = d\<lparr>dk_calls := Suc k\<rparr>
      in case io_fault io k of
           Some e \<Rightarrow> (Inl (fault_error e),
             d'\<lparr>dk_tree := partly (dk_tree d), dk_unsynced := marks False (dk_unsynced d)\<rparr>)
         | None \<Rightarrow> (case f (dk_tree d) of
             Inl e \<Rightarrow> (Inl e, d')
           | Inr (x, t) \<Rightarrow> (Inr x, d'\<lparr>dk_tree := t, dk_unsynced := marks True (dk_unsynced d)\<rparr>)))"

definition on_success :: "(string list \<Rightarrow> string list) \<Rightarrow> bool \<Rightarrow> string list \<Rightarrow> string list" where
  "on_success g ok u = (if ok then g u else u)"

abbreviation syscall :: "io \<Rightarrow> (tree \<Rightarrow> os_error + 'a \<times> tree) \<Rightarrow> (tree \<Rightarrow> tree) \<Rightarrow> disk \<Rightarrow> (os_error + 'a) \<times> disk" where
  "syscall io \<equiv> call_on io (\<lambda>ok u. u)"

lemmas syscall_def = call_on_def

definition look :: "(tree \<Rightarrow> os_error + 'a) \<Rightarrow> tree \<Rightarrow> os_error + 'a \<times> tree" where
  "look f t = (case f t of Inl e \<Rightarrow> Inl e | Inr x \<Rightarrow> Inr (x, t))"

fun node_mode :: "node \<Rightarrow> mode" where
  "node_mode (Dir m) = m"
| "node_mode (File m s) = m"
| "node_mode n = 0"

fun dir_node :: "node \<Rightarrow> bool" where
  "dir_node (Dir m) = True"
| "dir_node n = False"

definition followed :: "tree \<Rightarrow> string \<Rightarrow> node option" where
  "followed t p =
     (case map_of t p of
        Some (Link q) \<Rightarrow> (case map_of t q of Some (Link r) \<Rightarrow> None | n \<Rightarrow> n)
      | n \<Rightarrow> n)"

definition is_dir :: "tree \<Rightarrow> string \<Rightarrow> bool" where
  "is_dir t p \<longleftrightarrow> (\<exists>m. followed t p = Some (Dir m))"

lemma is_dir_code [code]: "is_dir t p = (case followed t p of Some (Dir m) \<Rightarrow> True | _ \<Rightarrow> False)"
  by (auto simp: is_dir_def split: option.splits node.splits)

definition os_Lstat :: "io \<Rightarrow> string \<Rightarrow> disk \<Rightarrow> (os_error + node) \<times> disk" where
  "os_Lstat io p = syscall io (look (\<lambda>t. case map_of t p of None \<Rightarrow> Inl NotExist | Some n \<Rightarrow> Inr n)) id"

definition os_Stat :: "io \<Rightarrow> string \<Rightarrow> disk \<Rightarrow> (os_error + node) \<times> disk" where
  "os_Stat io p = syscall io (look (\<lambda>t. case followed t p of None \<Rightarrow> Inl NotExist | Some n \<Rightarrow> Inr n)) id"

definition os_Mkdir :: "io \<Rightarrow> string \<Rightarrow> mode \<Rightarrow> disk \<Rightarrow> (os_error + unit) \<times> disk" where
  "os_Mkdir io p m = call_on io (on_success (\<lambda>u. path_dir p # u)) (\<lambda>t.
     if map_of t p \<noteq> None then Inl exists_error
     else if \<not> is_dir t (path_dir p) then Inl NotExist
     else Inr ((), AList.update p (Dir (m AND NOT (io_umask io))) t)) id"

definition set_mode :: "mode \<Rightarrow> node \<Rightarrow> node" where
  "set_mode m n = (case n of Dir m' \<Rightarrow> Dir m | File m' s \<Rightarrow> File m s | _ \<Rightarrow> n)"

definition os_Chmod :: "io \<Rightarrow> string \<Rightarrow> mode \<Rightarrow> disk \<Rightarrow> (os_error + unit) \<times> disk" where
  "os_Chmod io p m = call_on io (on_success (\<lambda>u. p # u)) (\<lambda>t.
     case map_of t p of None \<Rightarrow> Inl NotExist | Some n \<Rightarrow> Inr ((), AList.update p (set_mode m n) t)) id"

text \<open>\<open>os.OpenFile\<close> with \<open>O_CREATE|O_WRONLY|O_EXCL\<close>; the open file is named by its path.\<close>

definition os_Create :: "io \<Rightarrow> string \<Rightarrow> mode \<Rightarrow> disk \<Rightarrow> (os_error + unit) \<times> disk" where
  "os_Create io p m = call_on io (on_success (\<lambda>u. p # path_dir p # u)) (\<lambda>t.
     if map_of t p \<noteq> None then Inl exists_error
     else if \<not> is_dir t (path_dir p) then Inl NotExist
     else Inr ((), AList.update p (File (m AND NOT (io_umask io)) []) t)) id"

definition written :: "string \<Rightarrow> string \<Rightarrow> tree \<Rightarrow> tree" where
  "written p s t = (case map_of t p of Some (File m old) \<Rightarrow> AList.update p (File m s) t | _ \<Rightarrow> t)"

definition os_Write :: "io \<Rightarrow> string \<Rightarrow> string \<Rightarrow> disk \<Rightarrow> (os_error + nat) \<times> disk" where
  "os_Write io p data d =
     call_on io (\<lambda>ok u. p # u) (\<lambda>t. Inr (length data, written p data t)) (written p (take (io_short io (dk_calls d)) data)) d"

text \<open>
  \<open>Sync\<close> and \<open>Close\<close> of an open file change nothing in the tree; a \<open>Sync\<close> that succeeds makes the file's data or
  the directory's entries durable.
\<close>

definition os_Sync :: "io \<Rightarrow> string \<Rightarrow> disk \<Rightarrow> (os_error + unit) \<times> disk" where
  "os_Sync io p = call_on io (on_success (removeAll p)) (\<lambda>t. Inr ((), t)) id"

definition os_Close :: "io \<Rightarrow> string \<Rightarrow> disk \<Rightarrow> (os_error + unit) \<times> disk" where
  "os_Close io p = syscall io (\<lambda>t. Inr ((), t)) id"

definition os_Open :: "io \<Rightarrow> string \<Rightarrow> disk \<Rightarrow> (os_error + unit) \<times> disk" where
  "os_Open io p = syscall io (\<lambda>t. if followed t p = None then Inl NotExist else Inr ((), t)) id"

definition os_Rename :: "io \<Rightarrow> string \<Rightarrow> string \<Rightarrow> disk \<Rightarrow> (os_error + unit) \<times> disk" where
  "os_Rename io a b = call_on io
     (on_success (\<lambda>u. path_dir a # path_dir b # map (\<lambda>q. if q = a then b else q) (removeAll b u))) (\<lambda>t.
     case map_of t a of
       None \<Rightarrow> Inl NotExist
     | Some n \<Rightarrow>
         (case map_of t b of
            Some (Dir m) \<Rightarrow> Inl (OtherOsError ''is a directory'')
          | _ \<Rightarrow> Inr ((), AList.update b n (AList.delete a t)))) id"

definition os_Remove :: "io \<Rightarrow> string \<Rightarrow> disk \<Rightarrow> (os_error + unit) \<times> disk" where
  "os_Remove io p = call_on io (on_success (\<lambda>u. path_dir p # removeAll p u)) (\<lambda>t.
     case map_of t p of
       None \<Rightarrow> Inl NotExist
     | Some (Dir m) \<Rightarrow> Inl (OtherOsError ''directory not empty'')
     | Some n \<Rightarrow> Inr ((), AList.delete p t)) id"

text \<open>The paths at or below a path, and the names in a directory.\<close>

definition at_or_below :: "string \<Rightarrow> string \<Rightarrow> bool" where
  "at_or_below p q \<longleftrightarrow> q = p \<or> has_prefix q (p @ ''/'')"

definition os_RemoveAll :: "io \<Rightarrow> string \<Rightarrow> disk \<Rightarrow> (os_error + unit) \<times> disk" where
  "os_RemoveAll io p d = call_on io (\<lambda>ok u. path_dir p # u) (\<lambda>t. Inr ((), filter (\<lambda>(q, n). \<not> at_or_below p q) t))
     (filter (\<lambda>(q, n). \<not> at_or_below p q \<or> io_left io (dk_calls d) q)) d"

definition os_ReadFile :: "io \<Rightarrow> string \<Rightarrow> disk \<Rightarrow> (os_error + string) \<times> disk" where
  "os_ReadFile io p = syscall io (look (\<lambda>t.
     case followed t p of
       None \<Rightarrow> Inl NotExist
     | Some (File m s) \<Rightarrow> Inr s
     | _ \<Rightarrow> Inl (OtherOsError ''is a directory''))) id"

definition child_name :: "string \<Rightarrow> string \<Rightarrow> string option" where
  "child_name dir p =
     (if has_prefix p (dir @ ''/'') \<and> p \<noteq> dir @ ''/'' \<and> CHR ''/'' \<notin> set (drop (length dir + 1) p)
      then Some (drop (length dir + 1) p) else None)"

definition names_in :: "tree \<Rightarrow> string \<Rightarrow> string list" where
  "names_in t dir = sort (remdups (List.map_filter (\<lambda>(p, n). child_name dir p) t))"

definition os_ReadDir :: "io \<Rightarrow> string \<Rightarrow> disk \<Rightarrow> (os_error + string list) \<times> disk" where
  "os_ReadDir io p = syscall io (look (\<lambda>t.
     case followed t p of
       None \<Rightarrow> Inl NotExist
     | Some (Dir m) \<Rightarrow> Inr (names_in t p)
     | _ \<Rightarrow> Inl (OtherOsError ''not a directory''))) id"

subsection \<open>Programs over the disk\<close>

datatype fs_error =
    FsOs string os_error
  | FsRefused string
  | FsPermission string
  | FsJoined "fs_error list"

type_synonym 'a prog = "disk \<Rightarrow> (fs_error + 'a) \<times> disk"

definition returnD :: "'a \<Rightarrow> 'a prog" where
  "returnD x d = (Inr x, d)"

definition failD :: "fs_error \<Rightarrow> 'a prog" where
  "failD e d = (Inl e, d)"

definition bindD :: "'a prog \<Rightarrow> ('a \<Rightarrow> 'b prog) \<Rightarrow> 'b prog" where
  "bindD m f d = (case m d of (Inl e, d) \<Rightarrow> (Inl e, d) | (Inr x, d) \<Rightarrow> f x d)"

definition refuseD :: "bool \<Rightarrow> fs_error \<Rightarrow> unit prog" where
  "refuseD b e = (if b then failD e else returnD ())"

lemma bindD_pure [simp]: "bindD (returnD x) f = f x" "bindD (failD e) f = failD e"
  by (simp_all add: bindD_def returnD_def failD_def fun_eq_iff)

text \<open>A call whose error is wrapped, and one whose error is handled.\<close>

definition callD :: "string \<Rightarrow> (disk \<Rightarrow> (os_error + 'a) \<times> disk) \<Rightarrow> 'a prog" where
  "callD what m d = (case m d of (Inl e, d) \<Rightarrow> (Inl (FsOs what e), d) | (Inr x, d) \<Rightarrow> (Inr x, d))"

definition tryD :: "(disk \<Rightarrow> (os_error + 'a) \<times> disk) \<Rightarrow> (os_error + 'a \<Rightarrow> 'b prog) \<Rightarrow> 'b prog" where
  "tryD m f d = (case m d of (r, d) \<Rightarrow> f r d)"

text \<open>A clean-up that is run when a part fails; its errors are joined to the first one.\<close>

definition cleanupD :: "'a prog \<Rightarrow> (disk \<Rightarrow> fs_error list \<times> disk) \<Rightarrow> 'a prog" where
  "cleanupD m c d =
     (case m d of
        (Inl e, d) \<Rightarrow> (case c d of (es, d) \<Rightarrow> (Inl (if es = [] then e else FsJoined (e # es)), d))
      | (Inr x, d) \<Rightarrow> (Inr x, d))"

fun eachD :: "('a \<Rightarrow> unit prog) \<Rightarrow> 'a list \<Rightarrow> unit prog" where
  "eachD f [] = returnD ()"
| "eachD f (x # xs) = bindD (f x) (\<lambda>_. eachD f xs)"

text \<open>To run a program on a concrete disk.\<close>

lemmas run_disk = returnD_def failD_def bindD_def refuseD_def callD_def tryD_def cleanupD_def syscall_def look_def on_success_def
  os_Lstat_def os_Stat_def os_Mkdir_def os_Chmod_def os_Create_def os_Write_def os_Sync_def os_Close_def os_Open_def
  os_Rename_def os_Remove_def os_ReadFile_def followed_def is_dir_def written_def set_mode_def

subsection \<open>What a program leaves alone\<close>

text \<open>Every path outside a set keeps its node, whatever the system does.\<close>

definition keeps :: "(string \<Rightarrow> bool) \<Rightarrow> (disk \<Rightarrow> 'r \<times> disk) \<Rightarrow> bool" where
  "keeps P m \<longleftrightarrow> (\<forall>d q. P q \<longrightarrow> node_at (snd (m d)) q = node_at d q)"

named_theorems keeps_intros \<open>what the calls leave alone\<close>

lemma keepsD: "keeps P m \<Longrightarrow> P q \<Longrightarrow> m d = (r, d') \<Longrightarrow> node_at d' q = node_at d q"
  unfolding keeps_def by (metis snd_conv)

lemma keeps_mono: "keeps P m \<Longrightarrow> (\<And>q. Q q \<Longrightarrow> P q) \<Longrightarrow> keeps Q m"
  unfolding keeps_def by blast

lemma keeps_syscall:
  assumes "\<And>t x t' q. f t = Inr (x, t') \<Longrightarrow> P q \<Longrightarrow> map_of t' q = map_of t q"
    and "\<And>t q. P q \<Longrightarrow> map_of (partly t) q = map_of t q"
  shows "keeps P (call_on io marks f partly)"
  using assms by (auto simp: keeps_def syscall_def Let_def split: option.splits sum.splits)

lemma look_same: "look f t = Inr (x, t') \<Longrightarrow> t' = t"
  by (auto simp: look_def split: sum.splits)

lemma keeps_look [keeps_intros]: "keeps P (syscall io (look f) id)"
  by (rule keeps_syscall) (auto dest: look_same)

lemma keeps_reads [keeps_intros]:
  "keeps P (os_Lstat io p)" "keeps P (os_Stat io p)" "keeps P (os_ReadFile io p)" "keeps P (os_ReadDir io p)"
  "keeps P (os_Sync io p)" "keeps P (os_Close io p)" "keeps P (os_Open io p)"
  unfolding os_Lstat_def os_Stat_def os_ReadFile_def os_ReadDir_def
  by (rule keeps_look)+ (auto simp: os_Sync_def os_Close_def os_Open_def intro!: keeps_syscall split: if_splits)

lemma keeps_writes [keeps_intros]:
  assumes "\<And>q. P q \<Longrightarrow> q \<noteq> p"
  shows "keeps P (os_Mkdir io p m)" "keeps P (os_Chmod io p m)" "keeps P (os_Create io p m)"
    "keeps P (os_Write io p s)" "keeps P (os_Remove io p)"
proof -
  show "keeps P (os_Mkdir io p m)" "keeps P (os_Chmod io p m)" "keeps P (os_Create io p m)" "keeps P (os_Remove io p)"
    unfolding os_Mkdir_def os_Chmod_def os_Create_def os_Remove_def using assms
    by (auto intro!: keeps_syscall simp: delete_conv split: if_splits option.splits node.splits)
  have "map_of (written p x t) q = map_of t q" if "P q" for x t q
    using assms that by (auto simp: written_def split: option.splits node.splits)
  then show "keeps P (os_Write io p s)"
    unfolding os_Write_def keeps_def syscall_def Let_def by (auto split: option.splits)
qed

lemma keeps_rename [keeps_intros]:
  assumes "\<And>q. P q \<Longrightarrow> q \<noteq> a \<and> q \<noteq> b"
  shows "keeps P (os_Rename io a b)"
  unfolding os_Rename_def using assms
  by (auto intro!: keeps_syscall simp: delete_conv split: option.splits node.splits)

lemma map_of_filter_key: "map_of (filter (\<lambda>(q, n). Q q) t) q = (if Q q then map_of t q else None)"
  by (induction t) auto

lemma keeps_remove_all [keeps_intros]:
  assumes "\<And>q. P q \<Longrightarrow> \<not> at_or_below p q"
  shows "keeps P (os_RemoveAll io p)"
  unfolding os_RemoveAll_def keeps_def syscall_def Let_def using assms
  by (auto simp: map_of_filter_key split: option.splits)

lemma keeps_bind [keeps_intros]: "keeps P m \<Longrightarrow> (\<And>x. keeps P (f x)) \<Longrightarrow> keeps P (bindD m f)"
  unfolding keeps_def bindD_def by (simp add: case_prod_beta split: sum.splits)

lemma keeps_call [keeps_intros]: "keeps P m \<Longrightarrow> keeps P (callD what m)"
  unfolding keeps_def callD_def by (simp add: case_prod_beta split: sum.splits)

lemma keeps_try [keeps_intros]: "keeps P m \<Longrightarrow> (\<And>r. keeps P (f r)) \<Longrightarrow> keeps P (tryD m f)"
  unfolding keeps_def tryD_def by (simp add: case_prod_beta)

lemma keeps_pure [keeps_intros]: "keeps P (returnD x)" "keeps P (failD e)" "keeps P (refuseD b e)"
  by (simp_all add: keeps_def returnD_def failD_def refuseD_def)

lemma keeps_cases [keeps_intros]:
  "(\<And>e. keeps P (f e)) \<Longrightarrow> (\<And>x. keeps P (g x)) \<Longrightarrow> keeps P (case r of Inl e \<Rightarrow> f e | Inr x \<Rightarrow> g x)"
  "keeps P a \<Longrightarrow> keeps P b \<Longrightarrow> keeps P (if c then a else b)"
  "(\<And>m. keeps P (n1 m)) \<Longrightarrow> (\<And>m s. keeps P (n2 m s)) \<Longrightarrow> (\<And>q. keeps P (n3 q)) \<Longrightarrow> keeps P n4
     \<Longrightarrow> keeps P (case n of Dir m \<Rightarrow> n1 m | File m s \<Rightarrow> n2 m s | Link q \<Rightarrow> n3 q | Special \<Rightarrow> n4)"
  "keeps P h \<Longrightarrow> (\<And>x. keeps P (k x)) \<Longrightarrow> keeps P (case y of None \<Rightarrow> h | Some x \<Rightarrow> k x)"
  by (simp_all split: sum.splits node.splits option.splits)

lemma keeps_cleanup [keeps_intros]: "keeps P m \<Longrightarrow> keeps P c \<Longrightarrow> keeps P (cleanupD m c)"
  unfolding keeps_def cleanupD_def by (simp add: case_prod_beta split: sum.splits)

lemma keeps_each [keeps_intros]: "(\<And>x. x \<in> set xs \<Longrightarrow> keeps P (f x)) \<Longrightarrow> keeps P (eachD f xs)"
proof (induction xs)
  case Nil
  then show ?case by (simp add: keeps_def returnD_def)
next
  case (Cons x xs)
  then show ?case by (auto intro!: keeps_bind)
qed

subsection \<open>What a program leaves unsynced\<close>

text \<open>Whatever the system does, what is unsynced afterwards was unsynced before or is in a given set.\<close>

definition soils :: "string set \<Rightarrow> (disk \<Rightarrow> 'r \<times> disk) \<Rightarrow> bool" where
  "soils S m \<longleftrightarrow> (\<forall>d. set (dk_unsynced (snd (m d))) \<subseteq> set (dk_unsynced d) \<union> S)"

named_theorems soils_intros \<open>what the calls leave unsynced\<close>

lemma soilsD: "soils S m \<Longrightarrow> m d = (r, d') \<Longrightarrow> set (dk_unsynced d') \<subseteq> set (dk_unsynced d) \<union> S"
  unfolding soils_def by (metis snd_conv)

lemma soils_mono: "soils S m \<Longrightarrow> S \<subseteq> T \<Longrightarrow> soils T m"
  unfolding soils_def by blast

lemma soils_call:
  assumes "\<And>ok u. set (marks ok u) \<subseteq> set u \<union> S"
  shows "soils S (call_on io marks f partly)"
  using assms by (fastforce simp: soils_def call_on_def Let_def split: option.splits sum.splits)

lemma soils_os [soils_intros]:
  "soils S (os_Lstat io p)" "soils S (os_Stat io p)" "soils S (os_ReadFile io p)" "soils S (os_ReadDir io p)"
  "soils S (os_Sync io p)" "soils S (os_Close io p)" "soils S (os_Open io p)"
  "path_dir p \<in> S \<Longrightarrow> soils S (os_Mkdir io p m)" "p \<in> S \<Longrightarrow> soils S (os_Chmod io p m)"
  "p \<in> S \<Longrightarrow> path_dir p \<in> S \<Longrightarrow> soils S (os_Create io p m)" "path_dir p \<in> S \<Longrightarrow> soils S (os_Remove io p)"
  unfolding os_Lstat_def os_Stat_def os_ReadFile_def os_ReadDir_def os_Sync_def os_Close_def os_Open_def os_Mkdir_def
    os_Chmod_def os_Create_def os_Remove_def on_success_def
  by (auto intro!: soils_call split: if_splits)

lemma soils_write [soils_intros]: "p \<in> S \<Longrightarrow> soils S (os_Write io p s)"
  by (auto simp: soils_def os_Write_def call_on_def Let_def split: option.splits)

lemma soils_bind [soils_intros]: "soils S m \<Longrightarrow> (\<And>x. soils S (f x)) \<Longrightarrow> soils S (bindD m f)"
  unfolding soils_def bindD_def by (simp add: case_prod_beta split: sum.splits) blast

lemma soils_call_error [soils_intros]: "soils S m \<Longrightarrow> soils S (callD what m)"
  unfolding soils_def callD_def by (simp add: case_prod_beta split: sum.splits)

lemma soils_try [soils_intros]: "soils S m \<Longrightarrow> (\<And>r. soils S (f r)) \<Longrightarrow> soils S (tryD m f)"
  unfolding soils_def tryD_def by (simp add: case_prod_beta) blast

lemma soils_pure [soils_intros]: "soils S (returnD x)" "soils S (failD e)" "soils S (refuseD b e)"
  by (simp_all add: soils_def returnD_def failD_def refuseD_def)

lemma soils_cases [soils_intros]:
  "(\<And>e. soils S (f e)) \<Longrightarrow> (\<And>x. soils S (g x)) \<Longrightarrow> soils S (case r of Inl e \<Rightarrow> f e | Inr x \<Rightarrow> g x)"
  "soils S a \<Longrightarrow> soils S b \<Longrightarrow> soils S (if c then a else b)"
  "(\<And>m. soils S (n1 m)) \<Longrightarrow> (\<And>m s. soils S (n2 m s)) \<Longrightarrow> (\<And>q. soils S (n3 q)) \<Longrightarrow> soils S n4
     \<Longrightarrow> soils S (case n of Dir m \<Rightarrow> n1 m | File m s \<Rightarrow> n2 m s | Link q \<Rightarrow> n3 q | Special \<Rightarrow> n4)"
  "soils S h \<Longrightarrow> (\<And>x. soils S (k x)) \<Longrightarrow> soils S (case y of None \<Rightarrow> h | Some x \<Rightarrow> k x)"
  by (simp_all split: sum.splits node.splits option.splits)

lemma soils_cleanup [soils_intros]: "soils S m \<Longrightarrow> soils S c \<Longrightarrow> soils S (cleanupD m c)"
  unfolding soils_def cleanupD_def by (simp add: case_prod_beta split: sum.splits) blast

lemma synced: "os_Sync io p d = (Inr u, d') \<Longrightarrow> set (dk_unsynced d') = set (dk_unsynced d) - {p}"
  by (auto simp: os_Sync_def call_on_def on_success_def Let_def split: option.splits)

lemma renamed_unsynced:
  "os_Rename io a b d = (Inr u, d') \<Longrightarrow> set (dk_unsynced d') \<subseteq> {path_dir a, path_dir b}
     \<union> (set (dk_unsynced d) - {a, b}) \<union> (if a \<in> set (dk_unsynced d) then {b} else {})"
  by (auto simp: os_Rename_def call_on_def on_success_def Let_def split: option.splits node.splits if_splits)

end
