(* ===== verification/Atomic_Write.thy ===== *)
theory Atomic_Write
  imports File_Tree
begin

text \<open>
  The atomic replacement of a file: \<open>internal/state/atomic_write.go\<close> and the file-mode policy of
  \<open>internal/security/filemode.go\<close> it applies to files that hold secrets.
\<close>

subsection \<open>Modes\<close>

text \<open>Octal 755, 600 and 022.\<close>

definition GeneratedDirMode :: mode where
  "GeneratedDirMode = 0x1ED"

definition SecretFileMode :: mode where
  "SecretFileMode = 0x180"

definition group_or_world_write :: mode where
  "group_or_world_write = 0x12"

definition ValidateSecretFileMode :: "mode \<Rightarrow> fs_error option" where
  "ValidateSecretFileMode m = (if m \<noteq> SecretFileMode then Some (FsPermission ''secret file mode'') else None)"

subsection \<open>Secret files\<close>

definition CreateSecretFile :: "io \<Rightarrow> string \<Rightarrow> unit prog" where
  "CreateSecretFile io path =
     tryD (os_Create io path SecretFileMode) (\<lambda>r.
       case r of
         Inl e \<Rightarrow> failD (if e = AccessDenied then FsPermission ''could not create secret file''
                          else FsOs ''could not create secret file'' e)
       | Inr _ \<Rightarrow>
           tryD (os_Chmod io path SecretFileMode) (\<lambda>r.
             case r of
               Inl e \<Rightarrow> tryD (os_Close io path) (\<lambda>_. tryD (os_Remove io path) (\<lambda>_.
                          failD (FsOs ''could not enforce secret file mode'' e)))
             | Inr _ \<Rightarrow> returnD ()))"

definition RejectInsecureParent :: "io \<Rightarrow> string \<Rightarrow> unit prog" where
  "RejectInsecureParent io path =
     tryD (os_Stat io (path_dir path)) (\<lambda>r.
       case r of
         Inl e \<Rightarrow> failD (if e = AccessDenied then FsPermission ''parent directory'' else FsOs ''parent directory'' e)
       | Inr (Dir m) \<Rightarrow> refuseD (m AND group_or_world_write \<noteq> 0) (FsPermission ''parent directory is writable'')
       | Inr _ \<Rightarrow> failD (FsRefused ''parent is not a directory''))"

subsection \<open>Directories\<close>

text \<open>The error of a call that is only noted.\<close>

definition noteD :: "string \<Rightarrow> (disk \<Rightarrow> (os_error + 'a) \<times> disk) \<Rightarrow> disk \<Rightarrow> fs_error list \<times> disk" where
  "noteD what m d = (case m d of (Inl e, d) \<Rightarrow> ([FsOs what e], d) | (Inr x, d) \<Rightarrow> ([], d))"

definition SyncDirectory :: "io \<Rightarrow> string \<Rightarrow> unit prog" where
  "SyncDirectory io path =
     bindD (refuseD (path = [] \<or> \<not> is_abs path) (FsRefused ''path must be absolute'')) (\<lambda>_.
     bindD (callD ''opening directory'' (os_Open io path)) (\<lambda>_.
     bindD (cleanupD
       (bindD (callD ''stating directory'' (os_Stat io path)) (\<lambda>n.
        bindD (refuseD (\<not> dir_node n) (FsRefused ''not a directory'')) (\<lambda>_.
          callD ''fsync directory'' (os_Sync io path))))
       (noteD ''closing directory'' (os_Close io path))) (\<lambda>_.
     callD ''closing directory'' (os_Close io path))))"

text \<open>
  \<open>ensureParentDirectories\<close> climbs from the path to the first ancestor that exists. The path is given by its
  components, last one first: \<open>filepath.Dir\<close> of a cleaned path drops the last one.
\<close>

definition abs_of :: "string list \<Rightarrow> string" where
  "abs_of ws = CHR ''/'' # join_with ''/'' ws"

definition stat_cursor :: "io \<Rightarrow> string \<Rightarrow> (string list) prog \<Rightarrow> (string list) prog" where
  "stat_cursor io cursor climb =
     tryD (os_Stat io cursor) (\<lambda>r.
       case r of
         Inr (Dir m) \<Rightarrow> returnD []
       | Inr n \<Rightarrow> failD (FsRefused ''path component is not a directory'')
       | Inl e \<Rightarrow> (if e \<noteq> NotExist then failD (FsOs ''stating'' e)
                   else bindD climb (\<lambda>missing. returnD (cursor # missing))))"

primrec missing_dirs :: "io \<Rightarrow> string list \<Rightarrow> (string list) prog" where
  "missing_dirs io [] = stat_cursor io (abs_of []) (failD (FsRefused ''no existing ancestor found''))"
| "missing_dirs io (w # ws) = stat_cursor io (abs_of (rev (w # ws))) (missing_dirs io ws)"

definition make_directory :: "io \<Rightarrow> string \<Rightarrow> unit prog" where
  "make_directory io dirPath =
     tryD (os_Mkdir io dirPath GeneratedDirMode) (\<lambda>r.
       case r of
         Inr _ \<Rightarrow> callD ''setting mode'' (os_Chmod io dirPath GeneratedDirMode)
       | Inl e \<Rightarrow>
           (if e = exists_error
            then bindD (callD ''stating concurrently created'' (os_Stat io dirPath)) (\<lambda>n.
                   refuseD (\<not> dir_node n) (FsRefused ''path component is not a directory''))
            else failD (FsOs ''creating directory'' e)))"

definition ensureParentDirectories :: "io \<Rightarrow> string \<Rightarrow> unit prog" where
  "ensureParentDirectories io path =
     bindD (refuseD (path = [] \<or> \<not> is_abs path) (FsRefused ''parent path must be absolute'')) (\<lambda>_.
     bindD (missing_dirs io (rev (clean_abs path))) (\<lambda>missing.
       eachD (\<lambda>dirPath. bindD (make_directory io dirPath) (\<lambda>_. SyncDirectory io (path_dir dirPath))) (rev missing)))"

subsection \<open>The replacement\<close>

definition removeTempFileIfPresent :: "io \<Rightarrow> string \<Rightarrow> disk \<Rightarrow> fs_error list \<times> disk" where
  "removeTempFileIfPresent io path d =
     (case os_Remove io path d of
        (Inl e, d) \<Rightarrow> (if e \<noteq> NotExist then [FsOs ''removing temp file'' e] else [], d)
      | (Inr x, d) \<Rightarrow> ([], d))"

definition closeAndRemoveTempFile :: "io \<Rightarrow> string \<Rightarrow> disk \<Rightarrow> fs_error list \<times> disk" where
  "closeAndRemoveTempFile io path d =
     (case noteD ''closing temp file'' (os_Close io path) d of (es, d) \<Rightarrow>
        (case removeTempFileIfPresent io path d of (es', d) \<Rightarrow> (es @ es', d)))"

definition createTempFileForAtomicWrite :: "io \<Rightarrow> string \<Rightarrow> mode \<Rightarrow> unit prog" where
  "createTempFileForAtomicWrite io path m =
     (if m = SecretFileMode then CreateSecretFile io path
      else bindD (callD ''creating'' (os_Create io path m)) (\<lambda>_.
             cleanupD (callD ''chmod temp file'' (os_Chmod io path m)) (closeAndRemoveTempFile io path)))"

definition writeAllAndSync :: "io \<Rightarrow> string \<Rightarrow> string \<Rightarrow> unit prog" where
  "writeAllAndSync io path data =
     bindD (callD ''writing temp file'' (os_Write io path data)) (\<lambda>n.
     bindD (refuseD (n \<noteq> length data) (FsRefused ''short write'')) (\<lambda>_.
       callD ''fsync temp file'' (os_Sync io path)))"

definition validateFinalFileMode :: "io \<Rightarrow> string \<Rightarrow> mode \<Rightarrow> unit prog" where
  "validateFinalFileMode io path m =
     bindD (callD ''stating final file'' (os_Stat io path)) (\<lambda>n.
       if m = SecretFileMode
       then (case ValidateSecretFileMode (node_mode n) of Some e \<Rightarrow> failD e | None \<Rightarrow> returnD ())
       else refuseD (node_mode n \<noteq> m) (FsRefused ''validating mode''))"

definition tempPath :: "string \<Rightarrow> string" where
  "tempPath path = path @ ''.tmp''"

text \<open>The part of \<open>WriteFileAtomic\<close> up to the rename.\<close>

definition stage :: "io \<Rightarrow> string \<Rightarrow> string \<Rightarrow> mode \<Rightarrow> unit prog" where
  "stage io temp data m =
     bindD (cleanupD (createTempFileForAtomicWrite io temp m) (removeTempFileIfPresent io temp)) (\<lambda>_.
     bindD (cleanupD (writeAllAndSync io temp data) (closeAndRemoveTempFile io temp)) (\<lambda>_.
       cleanupD (callD ''closing temp file'' (os_Close io temp)) (removeTempFileIfPresent io temp)))"

definition WriteFileAtomic :: "io \<Rightarrow> string \<Rightarrow> string \<Rightarrow> mode \<Rightarrow> unit prog" where
  "WriteFileAtomic io path data m =
     bindD (refuseD (path = [] \<or> \<not> is_abs path) (FsRefused ''path must be absolute'')) (\<lambda>_.
     bindD (ensureParentDirectories io (path_dir path)) (\<lambda>_.
     bindD (if m = SecretFileMode then RejectInsecureParent io path else returnD ()) (\<lambda>_.
     bindD (stage io (tempPath path) data m) (\<lambda>_.
     bindD (cleanupD (callD ''renaming'' (os_Rename io (tempPath path) path)) (removeTempFileIfPresent io (tempPath path))) (\<lambda>_.
     bindD (validateFinalFileMode io path m) (\<lambda>_.
       SyncDirectory io (path_dir path)))))))"

subsection \<open>What the parts leave alone\<close>

lemma keeps_note [keeps_intros]: "keeps P m \<Longrightarrow> keeps P (noteD what m)"
  unfolding keeps_def noteD_def by (simp add: case_prod_beta split: sum.splits)

lemma keeps_sync [keeps_intros]: "keeps P (SyncDirectory io p)"
  unfolding SyncDirectory_def by (intro keeps_intros)

lemma keeps_reject [keeps_intros]: "keeps P (RejectInsecureParent io p)"
  unfolding RejectInsecureParent_def by (intro keeps_intros)

lemma keeps_remove_temp [keeps_intros]:
  assumes "\<And>q. P q \<Longrightarrow> q \<noteq> p"
  shows "keeps P (removeTempFileIfPresent io p)"
  using keeps_writes(5) [of P p io] assms
  unfolding keeps_def removeTempFileIfPresent_def by (simp add: case_prod_beta split: sum.splits)

lemma keeps_close_remove [keeps_intros]:
  assumes "\<And>q. P q \<Longrightarrow> q \<noteq> p"
  shows "keeps P (closeAndRemoveTempFile io p)"
proof -
  have "keeps P (noteD ''closing temp file'' (os_Close io p))" "keeps P (removeTempFileIfPresent io p)"
    by (rule keeps_note, rule keeps_intros) (rule keeps_remove_temp, rule assms)
  then show ?thesis unfolding keeps_def closeAndRemoveTempFile_def by (simp add: case_prod_beta)
qed

lemma keeps_create_temp [keeps_intros]:
  assumes "\<And>q. P q \<Longrightarrow> q \<noteq> p"
  shows "keeps P (createTempFileForAtomicWrite io p m)"
proof -
  have "keeps P (CreateSecretFile io p)"
    unfolding CreateSecretFile_def
    by (intro keeps_intros assms)
  moreover have "keeps P (bindD (callD ''creating'' (os_Create io p m)) (\<lambda>_.
      cleanupD (callD ''chmod temp file'' (os_Chmod io p m)) (closeAndRemoveTempFile io p)))"
    by (intro keeps_intros assms)
  ultimately show ?thesis by (simp add: createTempFileForAtomicWrite_def)
qed

lemma keeps_stage [keeps_intros]:
  assumes "\<And>q. P q \<Longrightarrow> q \<noteq> p"
  shows "keeps P (stage io p data m)"
  unfolding stage_def writeAllAndSync_def by (intro keeps_intros assms)

lemma keeps_validate [keeps_intros]: "keeps P (validateFinalFileMode io p m)"
  unfolding validateFinalFileMode_def
  by (intro keeps_intros)

text \<open>And what they leave unsynced.\<close>

lemma soils_note [soils_intros]: "soils S m \<Longrightarrow> soils S (noteD what m)"
  unfolding soils_def noteD_def by (simp add: case_prod_beta split: sum.splits)

lemma soils_sync [soils_intros]: "soils S (SyncDirectory io p)"
  unfolding SyncDirectory_def by (intro soils_intros)

lemma soils_reject [soils_intros]: "soils S (RejectInsecureParent io p)"
  unfolding RejectInsecureParent_def by (intro soils_intros)

lemma soils_remove_temp [soils_intros]: "path_dir p \<in> S \<Longrightarrow> soils S (removeTempFileIfPresent io p)"
  using soils_os(11) [of p S io]
  unfolding soils_def removeTempFileIfPresent_def by (simp add: case_prod_beta split: sum.splits)

lemma soils_close_remove [soils_intros]: "path_dir p \<in> S \<Longrightarrow> soils S (closeAndRemoveTempFile io p)"
proof -
  assume "path_dir p \<in> S"
  then have "soils S (noteD ''closing temp file'' (os_Close io p))" "soils S (removeTempFileIfPresent io p)"
    by (intro soils_intros)+
  then show ?thesis unfolding soils_def closeAndRemoveTempFile_def by (simp add: case_prod_beta) blast
qed

lemma soils_create_temp [soils_intros]:
  "p \<in> S \<Longrightarrow> path_dir p \<in> S \<Longrightarrow> soils S (createTempFileForAtomicWrite io p m)"
  unfolding createTempFileForAtomicWrite_def CreateSecretFile_def by (intro soils_intros) auto

lemma soils_validate [soils_intros]: "soils S (validateFinalFileMode io p m)"
  unfolding validateFinalFileMode_def by (intro soils_intros)

text \<open>Directories appear, and nothing else happens.\<close>

definition grows :: "(string \<Rightarrow> bool) \<Rightarrow> (disk \<Rightarrow> 'r \<times> disk) \<Rightarrow> bool" where
  "grows P m \<longleftrightarrow> (\<forall>d q. node_at (snd (m d)) q = node_at d q
     \<or> (P q \<and> node_at d q = None \<and> (\<exists>k. node_at (snd (m d)) q = Some (Dir k))))"

lemma grows_keeps: "keeps (\<lambda>q. True) m \<Longrightarrow> grows P m"
  unfolding keeps_def grows_def by simp

lemma grows_bind: "grows P m \<Longrightarrow> (\<And>x. grows P (f x)) \<Longrightarrow> grows P (bindD m f)"
  unfolding grows_def bindD_def by (simp add: case_prod_beta split: sum.splits) (metis option.distinct(1))

lemma grows_each: "(\<And>x. x \<in> set xs \<Longrightarrow> grows P (f x)) \<Longrightarrow> grows P (eachD f xs)"
proof (induction xs)
  case (Cons x xs)
  then show ?case by (auto intro!: grows_bind)
qed (simp add: grows_def returnD_def)

lemma grows_make: "P p \<Longrightarrow> grows P (make_directory io p)"
  unfolding grows_def
proof (intro allI)
  fix d q
  assume "P p"
  have stat: "node_at (snd (os_Stat io p d')) q = node_at d' q" for d'
    using keeps_reads(2) [of "\<lambda>q. True"] unfolding keeps_def by blast
  show "node_at (snd (make_directory io p d)) q = node_at d q
     \<or> (P q \<and> node_at d q = None \<and> (\<exists>k. node_at (snd (make_directory io p d)) q = Some (Dir k)))"
  proof (cases "fst (os_Mkdir io p GeneratedDirMode d)")
    case (Inl e)
    then have "node_at (snd (os_Mkdir io p GeneratedDirMode d)) q = node_at d q"
      by (auto simp: os_Mkdir_def syscall_def Let_def split: option.splits if_splits sum.splits)
    with Inl stat show ?thesis
      by (auto simp: make_directory_def tryD_def bindD_def callD_def refuseD_def failD_def returnD_def case_prod_beta
          split: sum.splits)
  next
    case (Inr u)
    then have none: "node_at d p = None"
      and mk: "node_at (snd (os_Mkdir io p GeneratedDirMode d)) q
        = (if q = p then Some (Dir (GeneratedDirMode AND NOT (io_umask io))) else node_at d q)" for q
      by (auto simp: os_Mkdir_def syscall_def Let_def split: option.splits if_splits)
    have "\<exists>k. node_at (snd (os_Chmod io p GeneratedDirMode d')) q = (if q = p then Some (Dir k) else node_at d' q)"
      if "node_at d' p = Some (Dir m)" for d' m
      using that by (auto simp: os_Chmod_def syscall_def Let_def set_mode_def split: option.splits)
    from this [of "snd (os_Mkdir io p GeneratedDirMode d)"] obtain k where
      "node_at (snd (os_Chmod io p GeneratedDirMode (snd (os_Mkdir io p GeneratedDirMode d)))) q
        = (if q = p then Some (Dir k) else node_at d q)"
      using mk by (cases "q = p") auto
    with Inr none \<open>P p\<close> show ?thesis
      by (auto simp: make_directory_def tryD_def callD_def case_prod_beta split: sum.splits)
  qed
qed

lemma keeps_stat_cursor [keeps_intros]: "keeps P c \<Longrightarrow> keeps P (stat_cursor io p c)"
  unfolding stat_cursor_def by (intro keeps_intros)

lemma keeps_missing [keeps_intros]: "keeps P (missing_dirs io ws)"
  by (induction ws) (simp_all add: keeps_intros)

lemma stat_cursor_result: "fst (stat_cursor io p c d) = Inr ms \<Longrightarrow> ms = [] \<or> (\<exists>d' ms'. fst (c d') = Inr ms' \<and> ms = p # ms')"
  by (auto simp: stat_cursor_def tryD_def bindD_def failD_def returnD_def case_prod_beta split: sum.splits if_splits node.splits)

text \<open>What is missing is the directory itself or one above it.\<close>

lemma missing_above: "fst (missing_dirs io ws d) = Inr ms \<Longrightarrow> p \<in> set ms \<Longrightarrow> \<exists>us vs. rev ws = us @ vs \<and> p = abs_of us"
proof (induction ws arbitrary: d ms)
  case Nil
  then show ?case by (auto dest!: stat_cursor_result simp: failD_def)
next
  case (Cons w ws)
  from stat_cursor_result Cons.prems(1) have "ms = [] \<or> (\<exists>d' ms'. fst (missing_dirs io ws d') = Inr ms' \<and> ms = abs_of (rev (w # ws)) # ms')"
    by fastforce
  with Cons.prems(2) consider "p = abs_of (rev (w # ws))"
    | d' ms' where "fst (missing_dirs io ws d') = Inr ms'" "p \<in> set ms'" by auto
  then show ?case
  proof cases
    case 2
    from Cons.IH [OF this] show ?thesis by fastforce
  qed blast
qed

definition above :: "string \<Rightarrow> string \<Rightarrow> bool" where
  "above path q \<longleftrightarrow> (\<exists>us v vs. clean_abs path = us @ v # vs \<and> q = abs_of us)"

lemma join_with_snoc: "join_with sep (ws @ [w]) = (if ws = [] then w else join_with sep ws @ sep @ w)"
  by (induction ws rule: induct_list012) auto

lemma dir_of_abs:
  assumes "list_all plain_comp (ws @ [w])"
  shows "path_dir (abs_of (ws @ [w])) = abs_of ws"
proof -
  let ?s = "if ws = [] then ''/'' else abs_of ws @ ''/''"
  from assms have w: "CHR ''/'' \<notin> set w" and ws: "list_all plain_comp ws" by (auto simp: plain_comp_def)
  have eq: "abs_of (ws @ [w]) = ?s @ w"
    by (simp add: abs_of_def join_with_snoc)
  have drop: "dropWhile (\<lambda>c. c \<noteq> CHR ''/'') (rev w @ CHR ''/'' # r) = CHR ''/'' # r" for r
    using w by (subst dropWhile_append2) auto
  have "rev (dropWhile (\<lambda>c. c \<noteq> CHR ''/'') (rev (?s @ w))) = ?s"
    using drop by (cases "ws = []") simp_all
  moreover have "path_clean ?s = abs_of ws"
  proof (cases "ws = []")
    case True
    then show ?thesis by (simp add: path_clean_def is_abs_def abs_of_def)
  next
    case False
    have "\<forall>w \<in> set ws. CHR ''/'' \<notin> set w" using ws by (auto simp: list_all_iff plain_comp_def)
    with False have j: "split_on (CHR ''/'') (join_with ''/'' ws) = ws" using split_join by blast
    have "clean_abs (abs_of ws @ ''/'') = clean_comps True [] ([] # ws @ [[]])"
      using j split_on_append_sep [of "CHR ''/''" "join_with ''/'' ws" "[]"] by (simp add: clean_abs_def abs_of_def)
    also have "\<dots> = ws"
    proof -
      have "clean_comps True out (ws @ [[]]) = rev out @ ws" for out
        using ws by (induction ws arbitrary: out) (auto simp: plain_comp_def)
      then show ?thesis by simp
    qed
    finally show ?thesis using False by (simp add: path_clean_abs is_abs_def abs_of_def)
  qed
  ultimately show ?thesis unfolding path_dir_def eq by simp
qed

lemma clean_path:
  assumes "is_abs path" "path_clean path = path"
  shows "path = abs_of (clean_abs path)"
  using assms path_clean_abs by (simp add: abs_of_def)

lemma abs_of_inject:
  assumes "list_all plain_comp us" "list_all plain_comp vs"
  shows "abs_of us = abs_of vs \<longleftrightarrow> us = vs"
  using comps_abs_join assms unfolding abs_of_def by metis

lemma grows_parents:
  assumes "is_abs path" "path_clean path = path" "clean_abs path \<noteq> []"
  shows "grows (above path) (ensureParentDirectories io (path_dir path))"
proof -
  obtain ws w where ws: "clean_abs path = ws @ [w]"
    using assms(3) by (metis rev_exhaust)
  have plain: "list_all plain_comp (ws @ [w])" using clean_abs_plain ws by metis
  then have "path_dir path = abs_of ws"
    using dir_of_abs clean_path [OF assms(1,2)] ws by metis
  moreover have "clean_abs (abs_of ws) = ws"
    using plain clean_abs_join by (simp add: abs_of_def)
  ultimately have comps: "rev (clean_abs (path_dir path)) = rev ws" by simp
  have each: "grows (above path) (eachD (\<lambda>dirPath. bindD (make_directory io dirPath) (\<lambda>_. SyncDirectory io (path_dir dirPath))) (rev ms))"
    if "fst (missing_dirs io (rev ws) d) = Inr ms" for d ms
  proof (rule grows_each)
    fix p
    assume "p \<in> set (rev ms)"
    then have "p \<in> set ms" by simp
    from missing_above [OF that this] obtain us vs where "ws = us @ vs" "p = abs_of us" by auto
    with ws have "above path p" unfolding above_def by (cases vs) auto
    then show "grows (above path) (bindD (make_directory io p) (\<lambda>_. SyncDirectory io (path_dir p)))"
      by (intro grows_bind grows_make grows_keeps [OF keeps_sync])
  qed
  have missing: "keeps (\<lambda>q. True) (missing_dirs io (rev ws))" by (rule keeps_intros)
  show ?thesis
    unfolding ensureParentDirectories_def comps
  proof (rule grows_bind)
    show "grows (above path) (bindD (missing_dirs io (rev ws)) (\<lambda>missing.
        eachD (\<lambda>dirPath. bindD (make_directory io dirPath) (\<lambda>_. SyncDirectory io (path_dir dirPath))) (rev missing)))"
      unfolding grows_def
    proof (intro allI)
      fix d q
      let ?m = "missing_dirs io (rev ws) d"
      let ?e = "\<lambda>missing. eachD (\<lambda>dirPath. bindD (make_directory io dirPath) (\<lambda>_. SyncDirectory io (path_dir dirPath))) (rev missing)"
      have same: "node_at (snd ?m) q = node_at d q" using missing unfolding keeps_def by blast
      show "node_at (snd (bindD (missing_dirs io (rev ws)) ?e d)) q = node_at d q
         \<or> (above path q \<and> node_at d q = None \<and> (\<exists>k. node_at (snd (bindD (missing_dirs io (rev ws)) ?e d)) q = Some (Dir k)))"
      proof (cases "fst ?m")
        case (Inl e)
        with same show ?thesis by (simp add: bindD_def case_prod_beta)
      next
        case (Inr ms)
        from each [OF this] have "node_at (snd (?e ms (snd ?m))) q = node_at (snd ?m) q
          \<or> (above path q \<and> node_at (snd ?m) q = None \<and> (\<exists>k. node_at (snd (?e ms (snd ?m))) q = Some (Dir k)))"
          unfolding grows_def by blast
        with same Inr show ?thesis by (simp add: bindD_def case_prod_beta)
      qed
    qed
  qed (intro grows_keeps keeps_intros)
qed

subsection \<open>Old or new, never in between\<close>

text \<open>What a program that returns has established at a path.\<close>

lemma bindD_Inr: "bindD m f d = (Inr y, d') \<longleftrightarrow> (\<exists>x d1. m d = (Inr x, d1) \<and> f x d1 = (Inr y, d'))"
  by (auto simp: bindD_def split: prod.splits sum.splits)

lemma callD_Inr: "callD what m d = (Inr x, d') \<longleftrightarrow> m d = (Inr x, d')"
  by (auto simp: callD_def split: prod.splits sum.splits)

lemma cleanupD_Inr: "cleanupD m c d = (Inr x, d') \<longleftrightarrow> m d = (Inr x, d')"
  by (auto simp: cleanupD_def split: prod.splits sum.splits)

lemma tryD_Inr: "tryD m (\<lambda>r. case r of Inl e \<Rightarrow> f e | Inr x \<Rightarrow> g x) d = (Inr y, d')
    \<longleftrightarrow> (\<exists>e d1. m d = (Inl e, d1) \<and> f e d1 = (Inr y, d')) \<or> (\<exists>x d1. m d = (Inr x, d1) \<and> g x d1 = (Inr y, d'))"
  by (auto simp: tryD_def split: prod.splits sum.splits)

lemma tryD_fails: "tryD m (\<lambda>r. tryD m' (\<lambda>r. failD e)) d \<noteq> (Inr y, d')"
  by (simp add: tryD_def failD_def split: prod.splits)

lemma created_file: "os_Create io p m d = (Inr u, d') \<Longrightarrow> \<exists>k. node_at d' p = Some (File k [])"
  by (auto simp: os_Create_def syscall_def Let_def split: option.splits if_splits)

lemma chmod_file: "os_Chmod io p m d = (Inr u, d') \<Longrightarrow> node_at d p = Some (File k s) \<Longrightarrow> node_at d' p = Some (File m s)"
  by (auto simp: os_Chmod_def syscall_def Let_def set_mode_def split: option.splits)

lemma temp_created: "createTempFileForAtomicWrite io p m d = (Inr u, d') \<Longrightarrow> node_at d' p = Some (File m [])"
  by (auto simp: createTempFileForAtomicWrite_def CreateSecretFile_def bindD_Inr callD_Inr cleanupD_Inr tryD_Inr tryD_fails
      failD_def returnD_def split: if_splits sum.splits dest!: created_file chmod_file)

lemma temp_written: "writeAllAndSync io p data d = (Inr u, d') \<Longrightarrow> node_at d p = Some (File m s) \<Longrightarrow> node_at d' p = Some (File m data)"
  by (auto simp: writeAllAndSync_def bindD_Inr callD_Inr refuseD_def returnD_def failD_def os_Write_def os_Sync_def
      syscall_def Let_def written_def split: option.splits if_splits)

lemma staged:
  assumes "stage io p data m d = (Inr u, d')"
  shows "node_at d' p = Some (File m data)"
proof -
  from assms obtain d1 d2 where c: "createTempFileForAtomicWrite io p m d = (Inr (), d1)"
    and w: "writeAllAndSync io p data d1 = (Inr (), d2)" and cl: "os_Close io p d2 = (Inr u, d')"
    by (auto simp: stage_def bindD_Inr callD_Inr cleanupD_Inr)
  have "node_at d2 p = Some (File m data)" by (rule temp_written [OF w temp_created [OF c]])
  with cl show ?thesis using keepsD [OF keeps_reads(6) TrueI cl] by simp
qed

lemma sync_directory:
  assumes "SyncDirectory io p d = (Inr u, d')"
  shows "set (dk_unsynced d') \<subseteq> set (dk_unsynced d) - {p}"
proof -
  from assms obtain d1 n d2 d3 where s: "os_Open io p d = (Inr (), d1)" "os_Stat io p d1 = (Inr n, d2)"
    "os_Sync io p d2 = (Inr (), d3)" "os_Close io p d3 = (Inr u, d')"
    by (auto simp: SyncDirectory_def bindD_Inr callD_Inr cleanupD_Inr refuseD_def failD_def returnD_def split: if_splits)
  note u = soilsD [OF soils_os(7) s(1), of "{}"] soilsD [OF soils_os(2) s(2), of "{}"] synced [OF s(3)]
    soilsD [OF soils_os(6) s(4), of "{}"]
  show ?thesis using u by blast
qed

lemma staged_unsynced:
  assumes "stage io p data m d = (Inr u, d')"
  shows "set (dk_unsynced d') \<subseteq> set (dk_unsynced d) \<union> {path_dir p} - {p}"
proof -
  from assms obtain d1 d2 where c: "createTempFileForAtomicWrite io p m d = (Inr (), d1)"
    and w: "writeAllAndSync io p data d1 = (Inr (), d2)" and cl: "os_Close io p d2 = (Inr u, d')"
    by (auto simp: stage_def bindD_Inr callD_Inr cleanupD_Inr)
  from w obtain n d3 where ws: "os_Write io p data d1 = (Inr n, d3)" "os_Sync io p d3 = (Inr (), d2)"
    by (auto simp: writeAllAndSync_def bindD_Inr callD_Inr refuseD_def failD_def returnD_def split: if_splits)
  have "set (dk_unsynced d1) \<subseteq> set (dk_unsynced d) \<union> {p, path_dir p}"
    using soilsD [OF soils_create_temp c, of "{p, path_dir p}"] by simp
  moreover have "set (dk_unsynced d3) \<subseteq> set (dk_unsynced d1) \<union> {p}"
    using soilsD [OF soils_write ws(1), of "{p}"] by simp
  moreover have "set (dk_unsynced d') \<subseteq> set (dk_unsynced d2)" using soilsD [OF soils_os(6) cl, of "{}"] by simp
  ultimately show ?thesis using synced [OF ws(2)] by blast
qed

lemma temp_dir: "path_dir (tempPath path) = path_dir path"
  by (simp add: path_dir_def tempPath_def)

text \<open>The part after the parent directories exist.\<close>

definition replace :: "io \<Rightarrow> string \<Rightarrow> string \<Rightarrow> mode \<Rightarrow> unit prog" where
  "replace io path data m =
     bindD (if m = SecretFileMode then RejectInsecureParent io path else returnD ()) (\<lambda>_.
     bindD (stage io (tempPath path) data m) (\<lambda>_.
     bindD (cleanupD (callD ''renaming'' (os_Rename io (tempPath path) path)) (removeTempFileIfPresent io (tempPath path))) (\<lambda>_.
     bindD (validateFinalFileMode io path m) (\<lambda>_.
       SyncDirectory io (path_dir path)))))"

lemma temp_not_path [simp]: "tempPath path \<noteq> path" "path \<noteq> tempPath path"
  by (simp_all add: tempPath_def)

lemma keeps_replace: "keeps (\<lambda>q. q \<noteq> path \<and> q \<noteq> tempPath path) (replace io path data m)"
  unfolding replace_def by (intro keeps_intros) auto

text \<open>The rename either replaces the path or leaves it.\<close>

lemma renamed:
  assumes "cleanupD (callD s (os_Rename io a b)) (removeTempFileIfPresent io a) d = (r, d')" "a \<noteq> b"
  shows "(\<exists>e. r = Inl e \<and> node_at d' b = node_at d b)
    \<or> (r = Inr () \<and> node_at d' b = node_at d a \<and> os_Rename io a b d = (Inr (), d'))"
proof -
  obtain r1 d1 where rn: "os_Rename io a b d = (r1, d1)" by fastforce
  show ?thesis
  proof (cases r1)
    case (Inl e)
    with rn have "node_at d1 b = node_at d b"
      by (auto simp: os_Rename_def syscall_def Let_def split: option.splits node.splits)
    moreover have "keeps (\<lambda>q. q = b) (removeTempFileIfPresent io a)"
      by (rule keeps_remove_temp) (use assms(2) in auto)
    then have "node_at (snd (removeTempFileIfPresent io a d1)) b = node_at d1 b" by (simp add: keeps_def)
    ultimately show ?thesis using assms(1) rn Inl
      by (auto simp: cleanupD_def callD_def case_prod_beta split: if_splits)
  next
    case (Inr u)
    with rn assms(2) have "node_at d1 b = node_at d a"
      by (auto simp: os_Rename_def syscall_def Let_def split: option.splits node.splits)
    with assms(1) rn Inr show ?thesis by (auto simp: cleanupD_def callD_def)
  qed
qed

lemma replaced:
  assumes "replace io path data m d = (r, d')"
  shows "(\<exists>e. r = Inl e \<and> (node_at d' path = node_at d path
        \<or> node_at d' path = Some (File m data) \<and> (path_dir path \<noteq> path \<longrightarrow> path \<notin> set (dk_unsynced d'))))
    \<or> (r = Inr () \<and> node_at d' path = Some (File m data)
        \<and> (path_dir path \<noteq> path \<longrightarrow> set (dk_unsynced d') \<subseteq> set (dk_unsynced d) - {path, path_dir path}))"
proof -
  let ?g = "if m = SecretFileMode then RejectInsecureParent io path else returnD ()"
  let ?rn = "cleanupD (callD ''renaming'' (os_Rename io (tempPath path) path)) (removeTempFileIfPresent io (tempPath path))"
  let ?tail = "bindD (validateFinalFileMode io path m) (\<lambda>_. SyncDirectory io (path_dir path))"
  obtain r1 d1 where g: "?g d = (r1, d1)" by fastforce
  have "keeps (\<lambda>q. True) ?g" by (intro keeps_intros)
  with g have n1: "node_at d1 path = node_at d path" by (auto dest: keepsD)
  have "soils {} ?g" by (intro soils_intros)
  with g have u1: "set (dk_unsynced d1) \<subseteq> set (dk_unsynced d)" by (auto dest: soilsD)
  obtain r2 d2 where st: "stage io (tempPath path) data m d1 = (r2, d2)" by fastforce
  have "keeps (\<lambda>q. q = path) (stage io (tempPath path) data m)" by (rule keeps_stage) simp
  with st have n2: "node_at d2 path = node_at d1 path" by (auto dest: keepsD)
  obtain r3 d3 where rn: "?rn d2 = (r3, d3)" by fastforce
  obtain r4 d4 where t: "?tail d3 = (r4, d4)" by fastforce
  have "keeps (\<lambda>q. True) ?tail" by (intro keeps_intros)
  with t have n4: "node_at d4 path = node_at d3 path" by (auto dest: keepsD)
  have "soils {} ?tail" by (intro soils_intros)
  with t have u4: "set (dk_unsynced d4) \<subseteq> set (dk_unsynced d3)" by (auto dest: soilsD)
  have run: "(r, d') = (case r1 of Inl e \<Rightarrow> (Inl e, d1) | Inr _ \<Rightarrow> (case r2 of Inl e \<Rightarrow> (Inl e, d2)
      | Inr _ \<Rightarrow> (case r3 of Inl e \<Rightarrow> (Inl e, d3) | Inr _ \<Rightarrow> (r4, d4))))"
    using assms g st rn t unfolding replace_def bindD_def by (auto split: sum.splits)
  have n3: "r2 = Inr u \<Longrightarrow> (\<exists>e. r3 = Inl e \<and> node_at d3 path = node_at d2 path)
      \<or> (r3 = Inr () \<and> node_at d3 path = Some (File m data)
          \<and> (path_dir path \<noteq> path \<longrightarrow> set (dk_unsynced d3) \<subseteq> (set (dk_unsynced d) \<union> {path_dir path}) - {path}))" for u
  proof -
    assume r2: "r2 = Inr u"
    have s2: "node_at d2 (tempPath path) = Some (File m data)" by (rule staged) (use st r2 in simp)
    have "set (dk_unsynced d2) \<subseteq> set (dk_unsynced d1) \<union> {path_dir (tempPath path)} - {tempPath path}"
      by (rule staged_unsynced) (use st r2 in simp)
    with u1 have su: "set (dk_unsynced d2) \<subseteq> insert (path_dir path) (set (dk_unsynced d))" "tempPath path \<notin> set (dk_unsynced d2)"
      by (auto simp: temp_dir)
    from renamed [OF rn temp_not_path(1)] show ?thesis
    proof (elim disjE exE conjE)
      assume ok: "r3 = Inr ()" "node_at d3 path = node_at d2 (tempPath path)" "os_Rename io (tempPath path) path d2 = (Inr (), d3)"
      have "set (dk_unsynced d3) \<subseteq> {path_dir path} \<union> (set (dk_unsynced d2) - {path})"
        using renamed_unsynced [OF ok(3)] su(2) by (auto simp: temp_dir)
      with su(1) have "path_dir path \<noteq> path \<longrightarrow> set (dk_unsynced d3) \<subseteq> (set (dk_unsynced d) \<union> {path_dir path}) - {path}"
        by (auto dest!: subsetD)
      with ok(1,2) s2 show ?thesis by simp
    qed simp
  qed
  have n5: "set (dk_unsynced d4) \<subseteq> set (dk_unsynced d3) - {path_dir path}" if "r4 = Inr u" for u
  proof -
    from t that obtain d5 where "validateFinalFileMode io path m d3 = (Inr (), d5)" "SyncDirectory io (path_dir path) d5 = (Inr u, d4)"
      by (auto simp: bindD_Inr)
    with sync_directory soilsD [OF soils_validate] show ?thesis by blast
  qed
  show ?thesis
  proof (cases r1)
    case (Inl e)
    with run n1 show ?thesis by simp
  next
    case r1: (Inr v1)
    show ?thesis
    proof (cases r2)
      case (Inl e)
      with run r1 n1 n2 show ?thesis by simp
    next
      case r2: (Inr v2)
      show ?thesis
      proof (cases r3)
        case (Inl e)
        with run r1 r2 n1 n2 n3 show ?thesis by auto
      next
        case r3: (Inr v3)
        with n3 [OF r2] have f: "node_at d3 path = Some (File m data)"
          "path_dir path \<noteq> path \<longrightarrow> set (dk_unsynced d3) \<subseteq> (set (dk_unsynced d) \<union> {path_dir path}) - {path}" by auto
        have out: "r = r4" "d' = d4" using run r1 r2 r3 by simp_all
        show ?thesis using f u4 n4 n5 unfolding out by (cases r4) auto
      qed
    qed
  qed
qed

subsection \<open>No secret in an open directory\<close>

text \<open>The directories that are there stay, with their modes.\<close>

definition keeps_dirs :: "(disk \<Rightarrow> 'r \<times> disk) \<Rightarrow> bool" where
  "keeps_dirs m \<longleftrightarrow> (\<forall>d q k. node_at d q = Some (Dir k) \<longrightarrow> node_at (snd (m d)) q = Some (Dir k))"

lemma keeps_dirs_keeps: "keeps (\<lambda>q. True) m \<Longrightarrow> keeps_dirs m"
  unfolding keeps_def keeps_dirs_def by simp

lemma keeps_dirs_bind: "keeps_dirs m \<Longrightarrow> (\<And>x. keeps_dirs (f x)) \<Longrightarrow> keeps_dirs (bindD m f)"
  unfolding keeps_dirs_def bindD_def by (simp add: case_prod_beta split: sum.splits)

lemma keeps_dirs_cleanup: "keeps_dirs m \<Longrightarrow> keeps_dirs c \<Longrightarrow> keeps_dirs (cleanupD m c)"
  unfolding keeps_dirs_def cleanupD_def by (simp add: case_prod_beta split: sum.splits)

lemma keeps_dirs_call: "keeps_dirs m \<Longrightarrow> keeps_dirs (callD what m)"
  unfolding keeps_dirs_def callD_def by (simp add: case_prod_beta split: sum.splits)

lemma keeps_dirs_pure: "keeps_dirs (returnD x)" "keeps_dirs (failD e)" "keeps_dirs (refuseD b e)"
  by (simp_all add: keeps_dirs_def returnD_def failD_def refuseD_def)

lemma keeps_dirs_os:
  "keeps_dirs (os_Create io p m)" "keeps_dirs (os_Write io p s)" "keeps_dirs (os_Remove io p)"
  by (auto simp: keeps_dirs_def os_Create_def os_Write_def os_Remove_def syscall_def Let_def written_def delete_conv
      split: option.splits node.splits if_splits)

lemma keeps_dirs_remove_temp: "keeps_dirs (removeTempFileIfPresent io p)"
  using keeps_dirs_os(3) [of io p]
  unfolding keeps_dirs_def removeTempFileIfPresent_def by (simp add: case_prod_beta split: sum.splits)

lemma keeps_dirs_close_remove: "keeps_dirs (closeAndRemoveTempFile io p)"
proof -
  have "keeps (\<lambda>q. True) (noteD ''closing temp file'' (os_Close io p))" by (intro keeps_intros)
  with keeps_dirs_remove_temp [of io p] show ?thesis
    unfolding keeps_def keeps_dirs_def closeAndRemoveTempFile_def by (simp add: case_prod_beta)
qed

lemma keeps_dirs_create_temp: "keeps_dirs (createTempFileForAtomicWrite io p m)"
  unfolding keeps_dirs_def
proof (intro allI impI)
  fix d q k assume dir: "node_at d q = Some (Dir k)"
  show "node_at (snd (createTempFileForAtomicWrite io p m d)) q = Some (Dir k)"
  proof (cases "q = p")
    case False
    then have "keeps (\<lambda>q'. q' = q) (createTempFileForAtomicWrite io p m)" by (intro keeps_create_temp) auto
    with dir show ?thesis by (simp add: keeps_def)
  next
    case True
    with dir have "\<exists>e d1. os_Create io p m' d = (Inl e, d1) \<and> node_at d1 q = Some (Dir k)" for m'
      by (auto simp: os_Create_def syscall_def Let_def split: option.splits)
    then obtain e d1 e' d1' where "os_Create io p m d = (Inl e, d1)" "node_at d1 q = Some (Dir k)"
      "os_Create io p SecretFileMode d = (Inl e', d1')" "node_at d1' q = Some (Dir k)" by meson
    then show ?thesis
      by (simp add: createTempFileForAtomicWrite_def CreateSecretFile_def tryD_def bindD_def callD_def failD_def)
  qed
qed

lemma keeps_dirs_stage: "keeps_dirs (stage io p data m)"
  unfolding stage_def writeAllAndSync_def
  by (intro keeps_dirs_bind keeps_dirs_cleanup keeps_dirs_call keeps_dirs_pure keeps_dirs_os keeps_dirs_remove_temp
      keeps_dirs_close_remove keeps_dirs_create_temp keeps_dirs_keeps [OF keeps_reads(5)] keeps_dirs_keeps [OF keeps_reads(6)])

lemma renamed_dir:
  assumes "os_Rename io a b d = (r, d')" "node_at d q = Some (Dir k)" "q \<noteq> a"
  shows "node_at d' q = Some (Dir k)"
  using assms by (auto simp: os_Rename_def syscall_def Let_def delete_conv split: option.splits node.splits if_splits)

lemma replace_keeps_dirs:
  assumes "replace io path data m d = (r, d')" "node_at d q = Some (Dir k)"
  shows "node_at d' q = Some (Dir k)"
proof -
  let ?g = "if m = SecretFileMode then RejectInsecureParent io path else returnD ()"
  let ?rest = "bindD (cleanupD (callD ''renaming'' (os_Rename io (tempPath path) path)) (removeTempFileIfPresent io (tempPath path)))
      (\<lambda>_. bindD (validateFinalFileMode io path m) (\<lambda>_. SyncDirectory io (path_dir path)))"
  obtain r1 d1 where g: "?g d = (r1, d1)" by fastforce
  have kg: "keeps (\<lambda>q. True) ?g" by (intro keeps_intros)
  have n1: "node_at d1 q = Some (Dir k)" using keepsD [OF kg TrueI g] assms(2) by simp
  obtain r2 d2 where st: "stage io (tempPath path) data m d1 = (r2, d2)" by fastforce
  with keeps_dirs_stage n1 have n2: "node_at d2 q = Some (Dir k)" unfolding keeps_dirs_def by (metis snd_conv)
  consider e where "r1 = Inl e" | u e where "r1 = Inr u" "r2 = Inl e" | u v where "r1 = Inr u" "r2 = Inr v"
    by (cases r1; cases r2) auto
  then show ?thesis
  proof cases
    case 1
    with assms(1) g n1 show ?thesis by (simp add: replace_def bindD_def)
  next
    case 2
    with assms(1) g st n2 show ?thesis by (simp add: replace_def bindD_def [of "if _ then _ else _"] bindD_def [of "stage _ _ _ _"])
  next
    case ok: (3 u v)
    have q: "q \<noteq> tempPath path" using staged [of io "tempPath path" data m d1 v d2] st ok n2 by auto
    have rest: "?rest d2 = (r, d')" using assms(1) g st ok unfolding replace_def by (simp add: bindD_def)
    obtain r3 d3 where rn: "os_Rename io (tempPath path) path d2 = (r3, d3)" by fastforce
    have n3: "node_at d3 q = Some (Dir k)" by (rule renamed_dir [OF rn n2 q])
    have kr: "node_at (snd (removeTempFileIfPresent io (tempPath path) d3)) q = Some (Dir k)"
      using keeps_dirs_remove_temp n3 unfolding keeps_dirs_def by blast
    have "keeps (\<lambda>q. True) (bindD (validateFinalFileMode io path m) (\<lambda>_. SyncDirectory io (path_dir path)))"
      by (intro keeps_intros)
    then have kt: "node_at (snd (bindD (validateFinalFileMode io path m) (\<lambda>_. SyncDirectory io (path_dir path)) d3)) q = Some (Dir k)"
      using n3 unfolding keeps_def by simp
    have "d' = snd (?rest d2)" by (simp add: rest)
    then show ?thesis using rn kr kt by (cases r3) (auto simp: bindD_def [of "cleanupD _ _"] cleanupD_def callD_def case_prod_beta)
  qed
qed

lemma replaced_secret:
  assumes "replace io path data SecretFileMode d = (r, d')"
    "r = Inr () \<or> node_at d' path \<noteq> node_at d path \<or> node_at d' (tempPath path) \<noteq> node_at d (tempPath path)"
    "path_dir path \<noteq> path" "path_dir path \<noteq> tempPath path"
  shows "\<exists>k. followed (dk_tree d') (path_dir path) = Some (Dir k) \<and> k AND group_or_world_write = 0"
proof -
  obtain r1 d1 where g: "RejectInsecureParent io path d = (r1, d1)" by fastforce
  have same1: "node_at d1 q = node_at d q" for q using keepsD [OF keeps_reject TrueI g] .
  have "\<exists>u. r1 = Inr u"
  proof (rule ccontr)
    assume "\<nexists>u. r1 = Inr u"
    then obtain e where "r1 = Inl e" by (cases r1) auto
    with assms(1) g have "r = Inl e" "d' = d1" by (simp_all add: replace_def bindD_def)
    with assms(2) same1 show False by simp
  qed
  with g obtain k where k: "followed (dk_tree d) (path_dir path) = Some (Dir k)" "k AND group_or_world_write = 0"
    by (auto simp: RejectInsecureParent_def tryD_Inr failD_def refuseD_def returnD_def os_Stat_def syscall_def look_def
        Let_def split: option.splits if_splits sum.splits node.splits)
  have here: "node_at d' (path_dir path) = node_at d (path_dir path)"
    using keepsD [OF keeps_replace _ assms(1)] assms(3,4) by blast
  have "followed (dk_tree d') (path_dir path) = Some (Dir k)"
    using k(1) here replace_keeps_dirs [OF assms(1)] by (fastforce simp: followed_def split: option.splits node.splits)
  with k(2) show ?thesis by blast
qed

lemma above_not_self:
  assumes "is_abs path" "path_clean path = path" "above path q"
  shows "q \<noteq> path"
proof
  assume "q = path"
  with assms(3) obtain us v vs where c: "clean_abs path = us @ v # vs" "path = abs_of us"
    unfolding above_def by blast
  then have "list_all plain_comp us" using clean_abs_plain [of path] by simp
  then have "clean_abs (abs_of us) = us" using clean_abs_join by (simp add: abs_of_def)
  with c show False by simp
qed

lemma above_shorter:
  assumes "is_abs path" "path_clean path = path" "above path q"
  shows "length q \<le> length path"
proof -
  from assms(3) obtain us vs where c: "clean_abs path = us @ vs" "q = abs_of us" unfolding above_def by blast
  have "length (abs_of us) \<le> length (abs_of (us @ vs))"
    by (induction vs rule: rev_induct) (auto simp: abs_of_def join_with_snoc simp flip: append_assoc)
  with c clean_path [OF assms(1,2)] show ?thesis by metis
qed

lemma parent_of:
  assumes "is_abs path" "path_clean path = path" "clean_abs path \<noteq> []"
  obtains ws w where "clean_abs path = ws @ [w]" "list_all plain_comp (ws @ [w])" "path_dir path = abs_of ws"
    "path = abs_of (ws @ [w])" "clean_abs (path_dir path) = ws"
proof -
  obtain ws w where ws: "clean_abs path = ws @ [w]" using assms(3) by (metis rev_exhaust)
  have plain: "list_all plain_comp (ws @ [w])" using clean_abs_plain ws by metis
  have path: "path = abs_of (ws @ [w])" using clean_path [OF assms(1,2)] ws by simp
  then have dir: "path_dir path = abs_of ws" using dir_of_abs [OF plain] by simp
  have "clean_abs (abs_of ws) = ws" using plain clean_abs_join by (simp add: abs_of_def)
  with that [OF ws plain dir path] dir show ?thesis by simp
qed

lemma parent_shorter:
  assumes "is_abs path" "path_clean path = path" "clean_abs path \<noteq> []"
  shows "length (path_dir path) < length path \<and> path_dir path \<noteq> tempPath path \<and> path_dir path \<noteq> path"
proof -
  obtain ws w where "list_all plain_comp (ws @ [w])" "path_dir path = abs_of ws" "path = abs_of (ws @ [w])"
    using parent_of [OF assms] by metis
  then have "length (path_dir path) < length path"
    by (auto simp: abs_of_def join_with_snoc plain_comp_def)
  then show ?thesis by (auto simp: tempPath_def)
qed

subsection \<open>What is durable\<close>

text \<open>Every directory that is created is recorded in its parent before the next one is created in it.\<close>

lemma each_append: "eachD f (xs @ ys) d = (Inr u, d') \<longleftrightarrow> (\<exists>d1. eachD f xs d = (Inr (), d1) \<and> eachD f ys d1 = (Inr u, d'))"
  by (induction xs arbitrary: d) (auto simp: bindD_Inr returnD_def)

lemma soils_make: "p \<in> S \<Longrightarrow> path_dir p \<in> S \<Longrightarrow> soils S (make_directory io p)"
  unfolding make_directory_def by (intro soils_intros)

lemma soils_missing: "soils {} (missing_dirs io ws)"
  by (induction ws) (auto simp: stat_cursor_def intro!: soils_intros)

lemma made_and_synced:
  assumes "bindD (make_directory io p) (\<lambda>_. SyncDirectory io (path_dir p)) d = (Inr u, d')"
  shows "set (dk_unsynced d') \<subseteq> insert p (set (dk_unsynced d)) - {path_dir p}"
proof -
  from assms obtain d1 where m: "make_directory io p d = (Inr (), d1)" "SyncDirectory io (path_dir p) d1 = (Inr u, d')"
    by (auto simp: bindD_Inr)
  have "set (dk_unsynced d1) \<subseteq> set (dk_unsynced d) \<union> {p, path_dir p}"
    using soilsD [OF soils_make m(1), of "{p, path_dir p}"] by simp
  with sync_directory [OF m(2)] show ?thesis by blast
qed

lemma missing_synced:
  assumes "list_all plain_comp (rev ws)" "fst (missing_dirs io ws d) = Inr ms"
    and "eachD (\<lambda>dirPath. bindD (make_directory io dirPath) (\<lambda>_. SyncDirectory io (path_dir dirPath))) (rev ms) d1 = (Inr u, d2)"
  shows "set (dk_unsynced d2) \<subseteq> insert (abs_of (rev ws)) (set (dk_unsynced d1))"
  using assms
proof (induction ws arbitrary: d ms u d2)
  case Nil
  from Nil.prems(2) have "ms = []" by (auto dest!: stat_cursor_result simp: failD_def)
  with Nil.prems(3) show ?case by (auto simp: returnD_def)
next
  case (Cons w ws)
  let ?p = "abs_of (rev (w # ws))"
  from stat_cursor_result Cons.prems(2) consider "ms = []"
    | d' ms' where "fst (missing_dirs io ws d') = Inr ms'" "ms = ?p # ms'" by fastforce
  then show ?case
  proof cases
    case 1
    with Cons.prems(3) show ?thesis by (auto simp: returnD_def)
  next
    case 2
    with Cons.prems(3) obtain d3 where
      ih: "eachD (\<lambda>dirPath. bindD (make_directory io dirPath) (\<lambda>_. SyncDirectory io (path_dir dirPath))) (rev ms') d1 = (Inr (), d3)"
      and mk: "bindD (make_directory io ?p) (\<lambda>_. SyncDirectory io (path_dir ?p)) d3 = (Inr (), d2)"
      by (auto simp: each_append bindD_Inr returnD_def)
    have plain: "list_all plain_comp (rev ws)" "list_all plain_comp (rev ws @ [w])" using Cons.prems(1) by simp_all
    from made_and_synced [OF mk] Cons.IH [OF plain(1) 2(1) ih] dir_of_abs [OF plain(2)] show ?thesis by auto
  qed
qed

lemma parents_synced:
  assumes "is_abs path" "path_clean path = path" "clean_abs path \<noteq> []"
    and "ensureParentDirectories io (path_dir path) d = (Inr u, d')"
  shows "set (dk_unsynced d') \<subseteq> insert (path_dir path) (set (dk_unsynced d))"
proof -
  obtain ws w where ws: "list_all plain_comp (ws @ [w])" "path_dir path = abs_of ws" "clean_abs (path_dir path) = ws"
    using parent_of [OF assms(1-3)] by metis
  from assms(4) obtain ms d1 where m: "missing_dirs io (rev ws) d = (Inr ms, d1)"
    "eachD (\<lambda>dirPath. bindD (make_directory io dirPath) (\<lambda>_. SyncDirectory io (path_dir dirPath))) (rev ms) d1 = (Inr u, d')"
    by (auto simp: ensureParentDirectories_def ws(3) bindD_Inr refuseD_def failD_def returnD_def split: if_splits)
  have "set (dk_unsynced d1) \<subseteq> set (dk_unsynced d)" using soilsD [OF soils_missing m(1)] by simp
  moreover have "set (dk_unsynced d') \<subseteq> insert (path_dir path) (set (dk_unsynced d1))"
    using missing_synced [of "rev ws" io d ms d1 u d'] ws m by simp
  ultimately show ?thesis by blast
qed

subsection \<open>The outcome\<close>

definition whole_or_old :: "string \<Rightarrow> node \<Rightarrow> disk \<Rightarrow> disk \<Rightarrow> bool" where
  "whole_or_old path n d d' \<longleftrightarrow>
     node_at d' path = node_at d path \<or> node_at d' path = Some n \<and> path \<notin> set (dk_unsynced d')"

definition closed_parent :: "string \<Rightarrow> disk \<Rightarrow> bool" where
  "closed_parent path d \<longleftrightarrow> (\<exists>k. followed (dk_tree d) (path_dir path) = Some (Dir k) \<and> k AND group_or_world_write = 0)"

lemma write_outcome:
  assumes "is_abs path" "path_clean path = path" "clean_abs path \<noteq> []"
    and "WriteFileAtomic io path data m d = (r, d')"
  shows "whole_or_old path (File m data) d d'"
    and "r = Inr () \<Longrightarrow> node_at d' path = Some (File m data) \<and> set (dk_unsynced d') \<subseteq> set (dk_unsynced d) - {path, path_dir path}"
    and "q \<noteq> path \<Longrightarrow> q \<noteq> tempPath path \<Longrightarrow> node_at d' q = node_at d q
          \<or> (above path q \<and> node_at d q = None \<and> (\<exists>k. node_at d' q = Some (Dir k)))"
    and "m = SecretFileMode \<Longrightarrow> r = Inr () \<or> node_at d' path \<noteq> node_at d path \<or> node_at d' (tempPath path) \<noteq> node_at d (tempPath path)
      \<Longrightarrow> closed_parent path d'"
proof -
  let ?par = "ensureParentDirectories io (path_dir path)"
  obtain r1 d1 where par: "?par d = (r1, d1)" by fastforce
  have grown: "node_at d1 q = node_at d q \<or> (above path q \<and> node_at d q = None \<and> (\<exists>k. node_at d1 q = Some (Dir k)))" for q
    using grows_parents [OF assms(1-3)] par unfolding grows_def by (metis snd_conv)
  have "\<not> above path path" "\<not> above path (tempPath path)"
    using above_not_self [OF assms(1,2)] above_shorter [OF assms(1,2), of "tempPath path"] by (auto simp: tempPath_def)
  with grown have p1: "node_at d1 path = node_at d path" "node_at d1 (tempPath path) = node_at d (tempPath path)" by blast+
  note parent = parent_shorter [OF assms(1-3)]
  consider (stopped) e where "r1 = Inl e" "r = Inl e" "d' = d1" | (rep) "r1 = Inr ()" "replace io path data m d1 = (r, d')"
    using assms(1,4) par is_abs_iff [of path] unfolding WriteFileAtomic_def replace_def
    by (auto simp: bindD_def refuseD_def returnD_def split: sum.splits)
  then have all: "whole_or_old path (File m data) d d'
    \<and> (r = Inr () \<longrightarrow> node_at d' path = Some (File m data) \<and> set (dk_unsynced d') \<subseteq> set (dk_unsynced d) - {path, path_dir path})
    \<and> (q \<noteq> path \<and> q \<noteq> tempPath path \<longrightarrow> node_at d' q = node_at d q
          \<or> (above path q \<and> node_at d q = None \<and> (\<exists>k. node_at d' q = Some (Dir k))))
    \<and> (m = SecretFileMode \<and> (r = Inr () \<or> node_at d' path \<noteq> node_at d path \<or> node_at d' (tempPath path) \<noteq> node_at d (tempPath path))
      \<longrightarrow> closed_parent path d')"
  proof cases
    case stopped
    with p1 grown [of q] show ?thesis by (auto simp: whole_or_old_def)
  next
    case rep
    note new = replaced [OF rep(2)]
    have synced: "set (dk_unsynced d1) \<subseteq> insert (path_dir path) (set (dk_unsynced d))"
      using parents_synced [OF assms(1-3)] par rep(1) by blast
    have same: "node_at d' q = node_at d1 q" if "q \<noteq> path \<and> q \<noteq> tempPath path"
      using keepsD [OF keeps_replace that rep(2)] .
    have "closed_parent path d'"
      if "m = SecretFileMode" "r = Inr () \<or> node_at d' path \<noteq> node_at d path \<or> node_at d' (tempPath path) \<noteq> node_at d (tempPath path)"
      using replaced_secret [of io path data d1 r d'] rep(2) that p1 parent unfolding closed_parent_def by simp
    moreover have "whole_or_old path (File m data) d d'" using new p1 parent by (auto simp: whole_or_old_def)
    moreover have "node_at d' path = Some (File m data) \<and> set (dk_unsynced d') \<subseteq> set (dk_unsynced d) - {path, path_dir path}"
      if "r = Inr ()"
      using new synced parent that by auto
    ultimately show ?thesis using same grown [of q] by auto
  qed
  from all show "whole_or_old path (File m data) d d'" by blast
  from all show "r = Inr () \<Longrightarrow> node_at d' path = Some (File m data) \<and> set (dk_unsynced d') \<subseteq> set (dk_unsynced d) - {path, path_dir path}"
    by blast
  from all show "q \<noteq> path \<Longrightarrow> q \<noteq> tempPath path \<Longrightarrow> node_at d' q = node_at d q
      \<or> (above path q \<and> node_at d q = None \<and> (\<exists>k. node_at d' q = Some (Dir k)))" by blast
  from all show "m = SecretFileMode \<Longrightarrow> r = Inr () \<or> node_at d' path \<noteq> node_at d path \<or> node_at d' (tempPath path) \<noteq> node_at d (tempPath path)
      \<Longrightarrow> closed_parent path d'" by blast
qed

text \<open>
  C35: the replacement of a file is atomic and durable, also with respect to failing calls and to crashes.
  Whatever calls fail, when \<open>WriteFileAtomic\<close> ends the path holds what it held before, or all of the new data
  with exactly the requested mode, and then the data was synced to disk before it took the path. When no error is
  returned the path holds the new data, and neither its data nor the entries of its directory, nor those of a
  directory that was created above it, are left for a loss of power to undo. Besides the temporary file beside the path,
  the only other changes are directories that were missing above it. And a secret (mode 600) is only ever put on
  the disk, under the path or under the temporary one, when the directory it is in, followed through a link, cannot
  be written by its group or by others, whether or not the call then fails.
\<close>

theorem atomic_write:
  assumes "is_abs path" "path_clean path = path" "clean_abs path \<noteq> []"
    and "WriteFileAtomic io path data m d = (r, d')"
  shows "(node_at d' path = node_at d path \<or> node_at d' path = Some (File m data) \<and> path \<notin> set (dk_unsynced d'))
    \<and> (r = Inr () \<longrightarrow> node_at d' path = Some (File m data)
         \<and> set (dk_unsynced d') \<subseteq> set (dk_unsynced d) - {path, path_dir path})
    \<and> (\<forall>q. q \<noteq> path \<and> q \<noteq> tempPath path \<longrightarrow> node_at d' q = node_at d q
          \<or> (above path q \<and> node_at d q = None \<and> (\<exists>k. node_at d' q = Some (Dir k))))
    \<and> (m = SecretFileMode
         \<and> (r = Inr () \<or> node_at d' path \<noteq> node_at d path \<or> node_at d' (tempPath path) \<noteq> node_at d (tempPath path))
       \<longrightarrow> (\<exists>k. followed (dk_tree d') (path_dir path) = Some (Dir k) \<and> k AND group_or_world_write = 0))"
  using write_outcome [OF assms] unfolding whole_or_old_def closed_parent_def by blast

definition calm_io :: io where
  "calm_io = \<lparr>io_fault = (\<lambda>k. None), io_short = (\<lambda>k. 0), io_left = (\<lambda>k p. False), io_umask = 0x12,
     io_mtime = (\<lambda>k p. 0), io_now = (\<lambda>k. int k)\<rparr>"

definition demo_disk :: disk where
  "demo_disk = \<lparr>dk_tree = [(''/'', Dir 0x1ED), (''/srv'', Dir 0x1ED), (''/srv/.env'', File 0x180 ''A=1'')], dk_calls = 0, dk_unsynced = []\<rparr>"

lemma env_file_paths:
  "is_abs ''/srv/.env''" "path_clean ''/srv/.env'' = ''/srv/.env''" "clean_abs ''/srv/.env'' = [''srv'', ''.env'']"
  "path_dir ''/srv/.env'' = ''/srv''" "clean_abs ''/srv'' = [''srv'']" "is_abs ''/srv''" "path_dir ''/srv'' = ''/''"
  "path_dir ''/srv/.env.tmp'' = ''/srv''" "tempPath ''/srv/.env'' = ''/srv/.env.tmp''"
  by code_simp+

theorem atomic_write_witness:
  "\<exists>d'. WriteFileAtomic calm_io ''/srv/.env'' ''A=2'' SecretFileMode demo_disk = (Inr (), d')
     \<and> node_at d' ''/srv/.env'' = Some (File SecretFileMode ''A=2'')"
proof -
  have "fst (WriteFileAtomic calm_io ''/srv/.env'' ''A=2'' SecretFileMode demo_disk) = Inr ()"
    unfolding WriteFileAtomic_def ensureParentDirectories_def RejectInsecureParent_def stage_def env_file_paths
      createTempFileForAtomicWrite_def CreateSecretFile_def writeAllAndSync_def validateFinalFileMode_def SyncDirectory_def
    by (simp add: run_disk env_file_paths calm_io_def demo_disk_def stat_cursor_def abs_of_def SecretFileMode_def
        group_or_world_write_def ValidateSecretFileMode_def)
  then obtain d' where w: "WriteFileAtomic calm_io ''/srv/.env'' ''A=2'' SecretFileMode demo_disk = (Inr (), d')"
    by (metis prod.collapse)
  with atomic_write [OF env_file_paths(1,2) _ w] env_file_paths(3) show ?thesis by simp
qed

end
