(* ===== verification/Config_Backups.thy ===== *)
theory Config_Backups
  imports Atomic_Write Security_Paths Go_Strconv
begin

text \<open>
  The config snapshots of a stack, below \<open>.wdm-backups\<close> in its directory: how \<open>internal/state/backup.go\<close> creates
  and prunes them. The wall clock and the modification times come from the system.
\<close>

subsection \<open>Names and paths\<close>

definition BackupDirName :: string where
  "BackupDirName = ''.wdm-backups''"

definition BackupRetentionLimit :: nat where
  "BackupRetentionLimit = 10"

definition backupRoot :: "string \<Rightarrow> string" where
  "backupRoot stackPath = path_join stackPath BackupDirName"

definition backupOperationRegex :: "string \<Rightarrow> bool" where
  "backupOperationRegex s \<longleftrightarrow>
     s \<noteq> [] \<and> list_all (\<lambda>c. (97 \<le> byte c \<and> byte c \<le> 122) \<or> is_digit c \<or> c = CHR ''-'') s"

definition validateBackupStackPath :: "io \<Rightarrow> string \<Rightarrow> unit prog" where
  "validateBackupStackPath io stackPath =
     bindD (refuseD (stackPath = [] \<or> \<not> is_abs stackPath) (FsRefused ''stackPath must be absolute'')) (\<lambda>_.
     bindD (callD ''stating stackPath'' (os_Stat io stackPath)) (\<lambda>n.
       refuseD (\<not> dir_node n) (FsRefused ''stackPath is not a directory'')))"

definition validateBackupOperation :: "string \<Rightarrow> fs_error option" where
  "validateBackupOperation operation =
     (if operation = [] then Some (FsRefused ''operation must be non-empty'')
      else if \<not> backupOperationRegex operation then Some (FsRefused ''operation'') else None)"

definition normalize_additional :: "string \<Rightarrow> fs_error + string" where
  "normalize_additional rawPath =
     (if rawPath = [] then Inl (FsRefused ''additional path must be non-empty'')
      else if is_abs rawPath then Inl (FsRefused ''additional path must be relative'')
      else let cleaned = path_clean rawPath
           in if cleaned = ''.'' \<or> cleaned = ''..'' then Inl (FsRefused ''additional path is unsafe'')
              else if has_prefix cleaned ''../'' then Inl (FsRefused ''additional path escapes stack root'')
              else if has_prefix cleaned BackupDirName then Inl (FsRefused ''additional path must not target .wdm-backups'')
              else Inr cleaned)"

definition add_distinct :: "string list \<Rightarrow> string \<Rightarrow> fs_error + string list" where
  "add_distinct deduped rawPath =
     bindE (normalize_additional rawPath) (\<lambda>cleaned.
       Inr (if cleaned \<in> set deduped then deduped else deduped @ [cleaned]))"

definition normalizeBackupAdditionalPaths :: "string list \<Rightarrow> fs_error + string list" where
  "normalizeBackupAdditionalPaths paths = foldE add_distinct [] paths"

subsection \<open>Creating a snapshot\<close>

definition ensureBackupRootDirectory :: "io \<Rightarrow> string \<Rightarrow> string \<Rightarrow> unit prog" where
  "ensureBackupRootDirectory io stackPath root =
     tryD (os_Lstat io root) (\<lambda>r.
       case r of
         Inr n \<Rightarrow> refuseD (\<not> dir_node n) (FsRefused ''backup root is not a directory'')
       | Inl e \<Rightarrow>
           (if e \<noteq> NotExist then failD (FsOs ''stating backup root'' e)
            else bindD (callD ''creating backup root'' (os_Mkdir io root GeneratedDirMode)) (\<lambda>_.
                 bindD (callD ''setting mode on backup root'' (os_Chmod io root GeneratedDirMode)) (\<lambda>_.
                   SyncDirectory io stackPath))))"

text \<open>\<open>SyncDirectory\<close> and \<open>RemoveAll\<close> as parts of a clean-up.\<close>

definition noteP :: "unit prog \<Rightarrow> disk \<Rightarrow> fs_error list \<times> disk" where
  "noteP m d = (case m d of (Inl e, d) \<Rightarrow> ([e], d) | (Inr x, d) \<Rightarrow> ([], d))"

definition cleanupFailedSnapshotDirectory :: "io \<Rightarrow> string \<Rightarrow> string \<Rightarrow> disk \<Rightarrow> fs_error list \<times> disk" where
  "cleanupFailedSnapshotDirectory io root snapshotPath d =
     (case noteD ''removing failed snapshot'' (os_RemoveAll io snapshotPath) d of (es, d) \<Rightarrow>
        (case noteP (SyncDirectory io root) d of (es', d) \<Rightarrow> (es @ es', d)))"

definition createBackupSnapshotDirectory :: "io \<Rightarrow> string \<Rightarrow> string \<Rightarrow> unit prog" where
  "createBackupSnapshotDirectory io root snapshotPath =
     bindD (callD ''creating snapshot directory'' (os_Mkdir io snapshotPath GeneratedDirMode)) (\<lambda>_.
       cleanupD
         (bindD (callD ''setting mode on snapshot directory'' (os_Chmod io snapshotPath GeneratedDirMode)) (\<lambda>_.
            SyncDirectory io root))
         (cleanupFailedSnapshotDirectory io root snapshotPath))"

record backup_candidate =
  bc_relative_path :: string
  bc_source_path :: string
  bc_mode :: mode

definition collectBackupCandidate :: "io \<Rightarrow> string \<Rightarrow> string \<Rightarrow> (backup_candidate option) prog" where
  "collectBackupCandidate io stackPath relativePath =
     (let sourcePath = path_join stackPath relativePath
      in tryD (os_Lstat io sourcePath) (\<lambda>r.
           case r of
             Inl e \<Rightarrow> (if e = NotExist then returnD None else failD (FsOs ''stating source file'' e))
           | Inr n \<Rightarrow>
               (case n of
                  File m s \<Rightarrow> returnD (Some \<lparr>bc_relative_path = relativePath, bc_source_path = sourcePath, bc_mode = m\<rparr>)
                | _ \<Rightarrow> failD (FsRefused ''source must be a regular file''))))"

text \<open>The directories between the stack and a file, checked from the top until one is missing.\<close>

fun check_components :: "io \<Rightarrow> string \<Rightarrow> string list \<Rightarrow> unit prog" where
  "check_components io currentPath [] = returnD ()"
| "check_components io currentPath (component # cs) =
     (if component = [] \<or> component = ''.'' then check_components io currentPath cs
      else let currentPath = path_join currentPath component
           in tryD (os_Lstat io currentPath) (\<lambda>r.
                case r of
                  Inl e \<Rightarrow> (if e = NotExist then returnD () else failD (FsOs ''stating path component'' e))
                | Inr n \<Rightarrow>
                    (case n of
                       Dir m \<Rightarrow> check_components io currentPath cs
                     | _ \<Rightarrow> failD (FsRefused ''path component is not a directory''))))"

definition validateAdditionalPathAncestors :: "io \<Rightarrow> string \<Rightarrow> string \<Rightarrow> unit prog" where
  "validateAdditionalPathAncestors io stackPath relativePath =
     (let parentPath = path_dir relativePath
      in if parentPath = ''.'' then returnD ()
         else check_components io stackPath (split_on (CHR ''/'') parentPath))"

definition standardPaths :: "string list" where
  "standardPaths = [''docker-compose.yml'', ''docker-compose.override.yml'', ''.env'', ''.env.user'', ''.wdm.lock'']"

fun collect_each :: "(string \<Rightarrow> ('a option) prog) \<Rightarrow> string list \<Rightarrow> ('a list) prog" where
  "collect_each f [] = returnD []"
| "collect_each f (p # ps) =
     bindD (f p) (\<lambda>c. bindD (collect_each f ps) (\<lambda>cs. returnD (case c of None \<Rightarrow> cs | Some c \<Rightarrow> c # cs)))"

definition collectBackupCandidates :: "io \<Rightarrow> string \<Rightarrow> string list \<Rightarrow> (backup_candidate list) prog" where
  "collectBackupCandidates io stackPath additionalRelativePaths =
     bindD (collect_each (collectBackupCandidate io stackPath) standardPaths) (\<lambda>standard.
     bindD (collect_each (\<lambda>p. bindD (validateAdditionalPathAncestors io stackPath p) (\<lambda>_.
              collectBackupCandidate io stackPath p)) additionalRelativePaths) (\<lambda>extra.
       returnD (standard @ extra)))"

definition copy_candidate :: "io \<Rightarrow> string \<Rightarrow> backup_candidate \<Rightarrow> unit prog" where
  "copy_candidate io snapshotDir c =
     bindD (callD ''reading source file'' (os_ReadFile io (bc_source_path c))) (\<lambda>sourceBytes.
       WriteFileAtomic io (path_join snapshotDir (bc_relative_path c)) sourceBytes (bc_mode c))"

definition backupNowUTC :: "io \<Rightarrow> int prog" where
  "backupNowUTC io d = (Inr (io_now io (dk_calls d)), d)"

definition snapshotName :: "int \<Rightarrow> string \<Rightarrow> string" where
  "snapshotName nanos operation = itoa nanos @ ''-'' @ operation"

definition fill_snapshot :: "io \<Rightarrow> string \<Rightarrow> string \<Rightarrow> string list \<Rightarrow> string prog" where
  "fill_snapshot io stackPath snapshotDir dedupedAdditional =
     bindD (collectBackupCandidates io stackPath dedupedAdditional) (\<lambda>candidates.
     bindD (refuseD (candidates = []) (FsRefused ''no files copied from stack'')) (\<lambda>_.
     bindD (eachD (copy_candidate io snapshotDir) candidates) (\<lambda>_.
     bindD (SyncDirectory io snapshotDir) (\<lambda>_.
       returnD snapshotDir))))"

definition CreateConfigBackup :: "io \<Rightarrow> string \<Rightarrow> string \<Rightarrow> string list \<Rightarrow> string prog" where
  "CreateConfigBackup io stackPath operation additionalRelativePaths =
     bindD (validateBackupStackPath io stackPath) (\<lambda>_.
     case validateBackupOperation operation of
       Some e \<Rightarrow> failD e
     | None \<Rightarrow>
       (case normalizeBackupAdditionalPaths additionalRelativePaths of
          Inl e \<Rightarrow> failD e
        | Inr dedupedAdditional \<Rightarrow>
            (let root = backupRoot stackPath
             in bindD (ensureBackupRootDirectory io stackPath root) (\<lambda>_.
                bindD (backupNowUTC io) (\<lambda>nanos.
                  let snapshotDir = path_join root (snapshotName nanos operation)
                  in bindD (createBackupSnapshotDirectory io root snapshotDir) (\<lambda>_.
                       cleanupD (fill_snapshot io stackPath snapshotDir dedupedAdditional)
                         (cleanupFailedSnapshotDirectory io root snapshotDir)))))))"

subsection \<open>Pruning\<close>

record snapshot_dir =
  sd_name :: string
  sd_path :: string
  sd_modified_at :: int

definition validatePruneBackupRoot :: "io \<Rightarrow> string \<Rightarrow> bool prog" where
  "validatePruneBackupRoot io root =
     tryD (os_Lstat io root) (\<lambda>r.
       case r of
         Inl e \<Rightarrow> (if e = NotExist then returnD False else failD (FsOs ''stating backup root'' e))
       | Inr n \<Rightarrow> bindD (refuseD (\<not> dir_node n) (FsRefused ''backup root is not a directory'')) (\<lambda>_. returnD True))"

text \<open>
  \<open>normalizePinnedSnapshotName\<close>; \<open>Rel\<close> does not fail on absolute paths, and the backup root is one.
\<close>

definition normalizePinnedSnapshotName :: "string \<Rightarrow> string \<Rightarrow> fs_error + string" where
  "normalizePinnedSnapshotName root pinnedSnapshot =
     (if pinnedSnapshot = [] then Inr []
      else if \<not> is_abs pinnedSnapshot then
        (if contains pinnedSnapshot ''/'' then Inl (FsRefused ''pinned snapshot must be a direct snapshot basename'')
         else let normalized = path_clean pinnedSnapshot
              in if normalized = ''.'' \<or> normalized = ''..'' \<or> normalized = []
                 then Inl (FsRefused ''pinned snapshot must be a direct snapshot basename'') else Inr normalized)
      else let relativeToRoot = rel_abs root (path_clean pinnedSnapshot)
           in if relativeToRoot = ''.'' \<or> relativeToRoot = ''..'' \<or> is_abs relativeToRoot \<or> has_prefix relativeToRoot ''../''
              then Inl (FsRefused ''pinned snapshot must be inside backup root'')
              else let normalized = path_clean relativeToRoot
                   in if normalized = ''.'' \<or> normalized = ''..'' \<or> normalized = [] \<or> contains normalized ''/''
                      then Inl (FsRefused ''pinned snapshot must resolve to a snapshot basename'') else Inr normalized)"

definition os_ModTime :: "io \<Rightarrow> string \<Rightarrow> int prog" where
  "os_ModTime io p d = (Inr (io_mtime io (dk_calls d) p), d)"

fun collect_snapshots :: "io \<Rightarrow> string \<Rightarrow> string list \<Rightarrow> (snapshot_dir list) prog" where
  "collect_snapshots io root [] = returnD []"
| "collect_snapshots io root (name # names) =
     (let entryPath = path_join root name
      in bindD (callD ''stating backup entry'' (os_Lstat io entryPath)) (\<lambda>n.
           case n of
             Link q \<Rightarrow> failD (FsRefused ''snapshot entry must not be a symlink'')
           | Dir m \<Rightarrow>
               bindD (os_ModTime io entryPath) (\<lambda>t.
               bindD (collect_snapshots io root names) (\<lambda>ss.
                 returnD (\<lparr>sd_name = name, sd_path = entryPath, sd_modified_at = t\<rparr> # ss)))
           | _ \<Rightarrow> collect_snapshots io root names))"

definition collectBackupSnapshotDirectories :: "io \<Rightarrow> string \<Rightarrow> (snapshot_dir list) prog" where
  "collectBackupSnapshotDirectories io root =
     bindD (callD ''reading backup root'' (os_ReadDir io root)) (\<lambda>names. collect_snapshots io root names)"

definition removeBackupSnapshot :: "io \<Rightarrow> string \<Rightarrow> unit prog" where
  "removeBackupSnapshot io path =
     bindD (callD ''stating snapshot before removal'' (os_Lstat io path)) (\<lambda>n.
     bindD (refuseD (\<not> dir_node n) (FsRefused ''snapshot entry is no longer a directory'')) (\<lambda>_.
       callD ''removing snapshot'' (os_RemoveAll io path)))"

text \<open>Oldest first, by name where the times are equal: the second sort is stable.\<close>

definition oldest_first :: "snapshot_dir list \<Rightarrow> snapshot_dir list" where
  "oldest_first ss = sort_key sd_modified_at (sort_key sd_name ss)"

text \<open>The loop of \<open>PruneConfigBackups\<close>: what was removed, the error that ended it, and what is left to remove.\<close>

fun prune_loop ::
  "io \<Rightarrow> string \<Rightarrow> nat \<Rightarrow> snapshot_dir list \<Rightarrow> disk \<Rightarrow> (string list \<times> fs_error option \<times> nat) \<times> disk" where
  "prune_loop io pinnedName n [] d = (([], None, n), d)"
| "prune_loop io pinnedName n (s # ss) d =
     (if n = 0 then (([], None, 0), d)
      else if pinnedName \<noteq> [] \<and> sd_name s = pinnedName then prune_loop io pinnedName n ss d
      else (case removeBackupSnapshot io (sd_path s) d of
              (Inl e, d) \<Rightarrow> (([], Some e, n), d)
            | (Inr u, d) \<Rightarrow>
                (case prune_loop io pinnedName (n - 1) ss d of
                   ((removed, e, n), d) \<Rightarrow> ((sd_path s # removed, e, n), d))))"

text \<open>The error of the deferred \<open>fsync\<close> of the root is joined to the one there is.\<close>

definition joinPruneBackupRootSyncError ::
  "io \<Rightarrow> string \<Rightarrow> string list \<Rightarrow> fs_error option \<Rightarrow> disk \<Rightarrow> fs_error option \<times> disk" where
  "joinPruneBackupRootSyncError io root removed err d =
     (if removed = [] then (err, d)
      else (case noteP (SyncDirectory io root) d of
              ([], d) \<Rightarrow> (err, d)
            | (es, d) \<Rightarrow> (Some (case err of None \<Rightarrow> hd es | Some e \<Rightarrow> FsJoined (e # es)), d)))"

definition PruneConfigBackups :: "io \<Rightarrow> string \<Rightarrow> string \<Rightarrow> disk \<Rightarrow> (string list \<times> fs_error option) \<times> disk" where
  "PruneConfigBackups io stackPath pinnedSnapshot d =
     (case bindD (validateBackupStackPath io stackPath) (\<lambda>_. validatePruneBackupRoot io (backupRoot stackPath)) d of
        (Inl e, d) \<Rightarrow> (([], Some e), d)
      | (Inr False, d) \<Rightarrow> (([], None), d)
      | (Inr True, d) \<Rightarrow>
          (case normalizePinnedSnapshotName (backupRoot stackPath) pinnedSnapshot of
             Inl e \<Rightarrow> (([], Some e), d)
           | Inr pinnedName \<Rightarrow>
          (case collectBackupSnapshotDirectories io (backupRoot stackPath) d of
             (Inl e, d) \<Rightarrow> (([], Some e), d)
           | (Inr snapshots, d) \<Rightarrow>
               (if length snapshots \<le> BackupRetentionLimit then (([], None), d)
                else case prune_loop io pinnedName (length snapshots - BackupRetentionLimit) (oldest_first snapshots) d of
                       ((removed, err, n), d) \<Rightarrow>
                         (case joinPruneBackupRootSyncError io (backupRoot stackPath) removed
                                 (case err of Some e \<Rightarrow> Some e
                                  | None \<Rightarrow> if n > 0 then Some (FsRefused ''unable to satisfy retention limit'') else None) d of
                            (err, d) \<Rightarrow> ((removed, err), d))))))"

subsection \<open>Paths below a directory\<close>

lemma abs_of_clean:
  assumes "list_all plain_comp ws"
  shows "is_abs (abs_of ws)" "path_clean (abs_of ws) = abs_of ws" "clean_abs (abs_of ws) = ws"
  using assms by (simp_all add: abs_of_def is_abs_iff clean_abs_join path_clean_abs)

lemma join_plain:
  assumes "is_abs d" "path_clean d = d" "list_all plain_comp ws" "ws \<noteq> []"
  shows "path_join d (join_with ''/'' ws) = abs_of (clean_abs d @ ws)"
proof -
  have "clean_comps False [] (split_on (CHR ''/'') (join_with ''/'' ws)) = ws"
    using split_plain [OF assms(3,4)] clean_comps_dotdots [OF assms(3), of 0 0] by simp
  then have c: "clean_abs (path_join d (join_with ''/'' ws)) = clean_abs d @ ws"
    using join_comps [OF assms(1) local_plain [OF assms(3,4)]] assms(2) by simp
  have "is_abs (d @ ''/'' @ join_with ''/'' ws)" "d \<noteq> []" using assms(1) by (auto simp: is_abs_iff)
  then have "is_abs (path_join d (join_with ''/'' ws)) \<and> path_clean (path_join d (join_with ''/'' ws)) = path_join d (join_with ''/'' ws)"
    by (simp add: path_join_def is_abs_clean path_clean_idem)
  with clean_path c show ?thesis by metis
qed

definition below :: "string \<Rightarrow> string \<Rightarrow> bool" where
  "below d q \<longleftrightarrow> has_prefix q (d @ ''/'')"

lemma join_with_append: "us \<noteq> [] \<Longrightarrow> vs \<noteq> [] \<Longrightarrow> join_with sep (us @ vs) = join_with sep us @ sep @ join_with sep vs"
  by (induction us rule: induct_list012) (auto simp: neq_Nil_conv)

lemma below_abs_of: "us \<noteq> [] \<Longrightarrow> vs \<noteq> [] \<Longrightarrow> below (abs_of us) (abs_of (us @ vs))"
  by (simp add: below_def abs_of_def join_with_append has_prefix_iff)

lemma below_comps:
  assumes "list_all plain_comp us" "us \<noteq> []" "list_all plain_comp vs" "below (abs_of us) (abs_of vs)"
  shows "\<exists>ws. ws \<noteq> [] \<and> vs = us @ ws"
proof (cases "vs = []")
  case True
  with assms(2,4) show ?thesis by (cases us) (auto simp: below_def abs_of_def has_prefix_iff)
next
  case False
  from assms(4) obtain r where "join_with ''/'' vs = join_with ''/'' us @ CHR ''/'' # r"
    by (auto simp: below_def abs_of_def has_prefix_iff)
  then have "vs = split_on (CHR ''/'') (join_with ''/'' us @ CHR ''/'' # r)"
    using split_plain [OF assms(3) False] by simp
  then have "vs = us @ split_on (CHR ''/'') r"
    using split_on_append_sep split_plain [OF assms(1,2)] by metis
  then show ?thesis using split_on_parts [of _ "CHR ''/''" r] by (cases "split_on (CHR ''/'') r") auto
qed

text \<open>The components of a cleaned relative path that does not climb.\<close>

lemma clean_relative:
  assumes "CHR ''/'' \<notin> \<Union> (set ` set ws)"
  shows "list_all plain_comp ps \<Longrightarrow> \<exists>m qs. list_all plain_comp qs \<and>
     clean_comps False (rev ps @ replicate n ''..'') ws = replicate m ''..'' @ qs"
  using assms
proof (induction ws arbitrary: ps n)
  case Nil
  then show ?case by (intro exI [of _ n] exI [of _ ps]) simp
next
  case (Cons w ws)
  have ws: "CHR ''/'' \<notin> \<Union> (set ` set ws)" using Cons.prems(2) by auto
  consider "w = [] \<or> w = ''.''" | "w = ''..''" | "plain_comp w"
    using Cons.prems(2) by (auto simp: plain_comp_def)
  then show ?case
  proof cases
    case 1
    with Cons.IH [OF Cons.prems(1) ws] show ?thesis by auto
  next
    case 2
    show ?thesis
    proof (cases ps rule: rev_cases)
      case Nil
      with 2 Cons.IH [of "[]" "Suc n"] ws show ?thesis by (cases n) auto
    next
      case (snoc qs q)
      with Cons.prems(1) have "plain_comp q" "list_all plain_comp qs" by simp_all
      have "q \<noteq> ''..''" using \<open>plain_comp q\<close> by (simp add: plain_comp_def)
      with 2 snoc Cons.IH [OF \<open>list_all plain_comp qs\<close> ws, of n] show ?thesis by simp
    qed
  next
    case 3
    with Cons.IH [of "ps @ [w]" n] Cons.prems(1) ws show ?thesis by (simp add: plain_comp_def)
  qed
qed

lemma relative_plain:
  assumes "\<not> is_abs raw" "path_clean raw \<noteq> ''.''" "path_clean raw \<noteq> ''..''" "\<not> has_prefix (path_clean raw) ''../''"
  shows "\<exists>ws. path_clean raw = join_with ''/'' ws \<and> list_all plain_comp ws \<and> ws \<noteq> []"
proof -
  let ?c = "clean_comps False [] (split_on (CHR ''/'') raw)"
  have "CHR ''/'' \<notin> \<Union> (set ` set (split_on (CHR ''/'') raw))"
    using split_on_parts by auto
  from clean_relative [OF this, of "[]" 0] obtain m qs where
    c: "?c = replicate m ''..'' @ qs" "list_all plain_comp qs" by auto
  have p: "path_clean raw = (if ?c = [] then ''.'' else join_with ''/'' ?c)" if "\<And>w. w \<in> set ?c \<Longrightarrow> w \<noteq> []"
  proof -
    have "join_with ''/'' ?c = [] \<Longrightarrow> ?c = []"
      using that by (cases ?c; cases "tl ?c") auto
    then show ?thesis using assms(1) by (auto simp: path_clean_def Let_def)
  qed
  have "w \<noteq> []" if "w \<in> set ?c" for w
    using that c by (auto simp: list_all_iff plain_comp_def split: if_splits)
  note p = p [OF this]
  have "m = 0"
  proof (rule ccontr)
    assume "m \<noteq> 0"
    then obtain k where "m = Suc k" by (cases m) auto
    with c(1) have "?c = ''..'' # replicate k ''..'' @ qs" by simp
    with p assms(3,4) show False by (cases "replicate k ''..'' @ qs") auto
  qed
  with c p assms(2) show ?thesis by (intro exI [of _ qs]) (auto split: if_splits)
qed

subsection \<open>What a write leaves alone\<close>

text \<open>The temporary file is created anew.\<close>

lemma created_anew: "createTempFileForAtomicWrite io p m d = (Inr u, d') \<Longrightarrow> node_at d p = None"
proof -
  have "node_at d p = None" if "os_Create io p m d = (Inr u, d')" for u m d'
    using that by (auto simp: os_Create_def syscall_def Let_def split: option.splits if_splits)
  moreover assume "createTempFileForAtomicWrite io p m d = (Inr u, d')"
  ultimately show ?thesis
    by (auto simp: createTempFileForAtomicWrite_def CreateSecretFile_def bindD_Inr callD_Inr tryD_Inr failD_def split: if_splits)
qed

text \<open>A write that succeeds changes no path that was there, besides its own.\<close>

lemma write_keeps_present:
  assumes "is_abs path" "path_clean path = path" "clean_abs path \<noteq> []"
    and "WriteFileAtomic io path data m d = (Inr (), d')" "q \<noteq> path" "node_at d q \<noteq> None"
  shows "node_at d' q = node_at d q"
proof (cases "q = tempPath path")
  case False
  from write_outcome(3) [OF assms(1-4) assms(5) False] assms(6) show ?thesis by metis
next
  case True
  let ?par = "ensureParentDirectories io (path_dir path)"
  let ?g = "if m = SecretFileMode then RejectInsecureParent io path else returnD ()"
  have "\<exists>d1. ?par d = (Inr (), d1) \<and> replace io path data m d1 = (Inr (), d')"
    using assms(4) by (auto simp: WriteFileAtomic_def replace_def [symmetric] bindD_Inr refuseD_def failD_def returnD_def
        split: if_splits)
  then obtain d1 where p: "?par d = (Inr (), d1)" and r: "replace io path data m d1 = (Inr (), d')" by blast
  from r obtain d2 u where g: "?g d1 = (Inr u, d2)" and st: "\<exists>v d3. stage io (tempPath path) data m d2 = (Inr v, d3)"
    unfolding replace_def bindD_Inr by blast
  from st obtain d3 v where c: "createTempFileForAtomicWrite io (tempPath path) m d2 = (Inr v, d3)"
    unfolding stage_def bindD_Inr cleanupD_Inr by blast
  have "keeps (\<lambda>q. True) ?g" by (intro keeps_intros)
  with g have "node_at d2 q = node_at d1 q" by (auto dest: keepsD)
  moreover have "node_at d1 q = node_at d q"
    using grows_parents [OF assms(1-3)] p assms(6) unfolding grows_def by (metis snd_conv)
  ultimately show ?thesis using created_anew [OF c] assms(6) True by simp
qed

text \<open>Below a directory that is there, nothing changes outside of it.\<close>

lemma missing_below:
  "node_at d (abs_of us) = Some (Dir k) \<Longrightarrow> rev ws = us @ vs \<Longrightarrow> fst (missing_dirs io ws d) = Inr ms \<Longrightarrow> p \<in> set ms
     \<Longrightarrow> \<exists>xs. xs \<noteq> [] \<and> p = abs_of (us @ xs)"
proof (induction ws arbitrary: d vs ms)
  case Nil
  then have "missing_dirs io [] d = missing_dirs io [] d \<and> us = []" by simp
  with Nil show ?case
    by (auto simp: stat_cursor_def tryD_def os_Stat_def syscall_def look_def followed_def returnD_def failD_def bindD_def
        Let_def split: option.splits if_splits)
next
  case (Cons w ws)
  let ?p = "abs_of (rev (w # ws))" and ?d = "snd (os_Stat io (abs_of (rev (w # ws))) d)"
  have here: "node_at ?d q = node_at d q" for q
    using keeps_reads(2) [of "\<lambda>q. True"] unfolding keeps_def by blast
  from Cons.prems(3) have r: "fst (os_Stat io ?p d) = Inr (Dir m) \<Longrightarrow> ms = []" for m
    by (simp add: stat_cursor_def tryD_def returnD_def case_prod_beta)
  from Cons.prems(3) have ms: "ms = [] \<or> (\<exists>ms'. fst (missing_dirs io ws ?d) = Inr ms' \<and> ms = ?p # ms')"
    by (auto simp: stat_cursor_def tryD_def bindD_def returnD_def failD_def case_prod_beta
        split: sum.splits if_splits node.splits)
  show ?case
  proof (cases vs rule: rev_cases)
    case Nil
    with Cons.prems(1,2) have "node_at d ?p = Some (Dir k)" by simp
    then have "fst (os_Stat io ?p d) = Inr (Dir k) \<or> (\<exists>f. fst (os_Stat io ?p d) = Inl (fault_error f))"
      by (auto simp: os_Stat_def syscall_def look_def followed_def Let_def split: option.splits)
    with r have "ms = [] \<or> (\<exists>f. fst (os_Stat io ?p d) = Inl (fault_error f))" by blast
    moreover have "fst (os_Stat io ?p d) \<noteq> Inl (fault_error f)" if "ms \<noteq> []" for f
      using Cons.prems(3) that
      by (auto simp: stat_cursor_def tryD_def failD_def returnD_def case_prod_beta)
    ultimately have "ms = []" by blast
    with Cons.prems(4) show ?thesis by simp
  next
    case (snoc vs' v)
    with Cons.prems(2) have rv: "rev ws = us @ vs'" by simp
    from ms Cons.prems(4) consider "p = ?p" | ms' where "fst (missing_dirs io ws ?d) = Inr ms'" "p \<in> set ms'" by auto
    then show ?thesis
    proof cases
      case 1
      with Cons.prems(2) snoc show ?thesis by (intro exI [of _ vs]) simp
    next
      case 2
      with Cons.IH [OF _ rv 2] here Cons.prems(1) show ?thesis by simp
    qed
  qed
qed

lemma parents_below:
  assumes "node_at d (abs_of us) = Some (Dir k)" "us \<noteq> []" "list_all plain_comp (us @ vs)" "\<not> below (abs_of us) q"
  shows "node_at (snd (ensureParentDirectories io (abs_of (us @ vs)) d)) q = node_at d q"
proof -
  let ?ws = "rev (us @ vs)"
  let ?e = "\<lambda>missing. eachD (\<lambda>dirPath. bindD (make_directory io dirPath) (\<lambda>_. SyncDirectory io (path_dir dirPath))) (rev missing)"
  have abs: "is_abs (abs_of (us @ vs))" "clean_abs (abs_of (us @ vs)) = us @ vs" by (rule abs_of_clean [OF assms(3)])+
  have same: "node_at (snd (missing_dirs io ?ws d)) q = node_at d q"
    using keeps_missing [of "\<lambda>q. True"] unfolding keeps_def by blast
  have "node_at (snd (?e ms d')) q = node_at d' q" if "fst (missing_dirs io ?ws d) = Inr ms" for ms d'
  proof -
    have "below (abs_of us) p" if "p \<in> set ms" for p
      using missing_below [OF assms(1) _ \<open>fst (missing_dirs io ?ws d) = Inr ms\<close> that] below_abs_of [OF assms(2)] by force
    then have "grows (below (abs_of us)) (?e ms)"
      by (intro grows_each grows_bind grows_make grows_keeps [OF keeps_sync]) simp
    with assms(4) show ?thesis unfolding grows_def by blast
  qed
  with same abs show ?thesis
    unfolding ensureParentDirectories_def
    by (simp add: bindD_def refuseD_def returnD_def is_abs_iff case_prod_beta split: sum.splits) (auto simp: is_abs_iff)
qed

lemma write_below:
  assumes "node_at d (abs_of us) = Some (Dir k)" "us \<noteq> []" "list_all plain_comp (us @ ws)" "ws \<noteq> []" "\<not> below (abs_of us) q"
  shows "node_at (snd (WriteFileAtomic io (abs_of (us @ ws)) data m d)) q = node_at d q"
proof -
  let ?path = "abs_of (us @ ws)"
  have path: "is_abs ?path" by (rule abs_of_clean [OF assms(3)])
  obtain vs v where ws: "ws = vs @ [v]" using assms(4) by (metis rev_exhaust)
  have dir: "path_dir ?path = abs_of (us @ vs)" using dir_of_abs [of "us @ vs" v] assms(3) ws by simp
  have "below (abs_of us) ?path" "below (abs_of us) (tempPath ?path)"
    using below_abs_of [OF assms(2,4)] by (auto simp: below_def tempPath_def has_prefix_iff)
  with assms(5) have out: "q \<noteq> ?path \<and> q \<noteq> tempPath ?path" by metis
  have par: "node_at (snd (ensureParentDirectories io (path_dir ?path) d)) q = node_at d q"
    unfolding dir by (rule parents_below [OF assms(1,2) _ assms(5)]) (use assms(3) ws in simp)
  have rep: "node_at (snd (replace io ?path data m d')) q = node_at d' q" for d'
    using keeps_replace [of ?path io data m] out unfolding keeps_def by blast
  have "snd (WriteFileAtomic io ?path data m d) \<in>
      {snd (ensureParentDirectories io (path_dir ?path) d),
       snd (replace io ?path data m (snd (ensureParentDirectories io (path_dir ?path) d)))}"
    using path is_abs_iff [of ?path] unfolding WriteFileAtomic_def replace_def [symmetric]
    by (auto simp: bindD_def refuseD_def returnD_def case_prod_beta split: sum.splits)
  with par rep show ?thesis by auto
qed

subsection \<open>What a snapshot holds\<close>

text \<open>A path a snapshot copies: its components do not climb and do not start in the backup directory.\<close>

definition copied_path :: "string \<Rightarrow> bool" where
  "copied_path p \<longleftrightarrow> (\<exists>ws. p = join_with ''/'' ws \<and> list_all plain_comp ws \<and> ws \<noteq> [] \<and> hd ws \<noteq> BackupDirName)"

lemma standard_copied: "p \<in> set standardPaths \<Longrightarrow> copied_path p"
proof -
  assume p: "p \<in> set standardPaths"
  then have "p = join_with ''/'' [p]" "list_all plain_comp [p]" "hd [p] \<noteq> BackupDirName"
    by (auto simp: standardPaths_def plain_comp_def BackupDirName_def)
  then show "copied_path p" unfolding copied_path_def by blast
qed

lemma normalize_copied: "normalize_additional raw = Inr p \<Longrightarrow> copied_path p"
proof -
  assume n: "normalize_additional raw = Inr p"
  then have c: "\<not> is_abs raw" "path_clean raw \<noteq> ''.''" "path_clean raw \<noteq> ''..''" "\<not> has_prefix (path_clean raw) ''../''"
    "\<not> has_prefix (path_clean raw) BackupDirName" "p = path_clean raw"
    by (auto simp: normalize_additional_def Let_def split: if_splits)
  from relative_plain [OF c(1-4)] obtain ws where ws: "p = join_with ''/'' ws" "list_all plain_comp ws" "ws \<noteq> []"
    using c(6) by blast
  have "hd ws \<noteq> BackupDirName"
  proof
    assume "hd ws = BackupDirName"
    then have "has_prefix p BackupDirName" using ws by (cases ws; cases "tl ws") (auto simp: has_prefix_iff)
    with c show False by simp
  qed
  with ws show "copied_path p" unfolding copied_path_def by blast
qed

lemma additional_copied: "normalizeBackupAdditionalPaths add = Inr extra \<Longrightarrow> p \<in> set extra \<Longrightarrow> copied_path p"
proof -
  assume n: "normalizeBackupAdditionalPaths add = Inr extra" and p: "p \<in> set extra"
  have "\<forall>q \<in> set extra. copied_path q"
    by (rule foldE_invariant [OF n [unfolded normalizeBackupAdditionalPaths_def], of "\<lambda>ps. \<forall>q \<in> set ps. copied_path q"])
      (auto simp: add_distinct_def bindE_Inr dest: normalize_copied split: if_splits)
  with p show "copied_path p" by blast
qed

text \<open>A file is neither copied from nor restored to the backup directory.\<close>

lemma copied_outside:
  assumes "is_abs stack" "path_clean stack = stack" "copied_path p"
  shows "\<not> at_or_below (backupRoot stack) (path_join stack p)" "clean_abs (path_join stack p) \<noteq> []"
    "is_abs (path_join stack p)" "path_clean (path_join stack p) = path_join stack p"
proof -
  obtain ws where ws: "p = join_with ''/'' ws" "list_all plain_comp ws" "ws \<noteq> []" "hd ws \<noteq> BackupDirName"
    using assms(3) unfolding copied_path_def by blast
  let ?us = "clean_abs stack"
  have bk: "plain_comp BackupDirName" by (simp add: plain_comp_def BackupDirName_def)
  have root: "backupRoot stack = abs_of (?us @ [BackupDirName])"
    using join_plain [OF assms(1,2), of "[BackupDirName]"] bk by (simp add: backupRoot_def)
  have src: "path_join stack p = abs_of (?us @ ws)" using join_plain [OF assms(1,2) ws(2,3)] ws(1) by simp
  have plain: "list_all plain_comp (?us @ ws)" "list_all plain_comp (?us @ [BackupDirName])"
    using clean_abs_plain [of stack] ws(2) bk by simp_all
  show "clean_abs (path_join stack p) \<noteq> []" "is_abs (path_join stack p)" "path_clean (path_join stack p) = path_join stack p"
    using abs_of_clean [OF plain(1)] src ws(3) by simp_all
  show "\<not> at_or_below (backupRoot stack) (path_join stack p)"
  proof
    assume b: "at_or_below (backupRoot stack) (path_join stack p)"
    have "\<exists>xs. ?us @ ws = (?us @ [BackupDirName]) @ xs"
    proof (cases "path_join stack p = backupRoot stack")
      case True
      then show ?thesis using abs_of_inject [OF plain] src root by auto
    next
      case False
      with b have "below (backupRoot stack) (path_join stack p)" by (simp add: at_or_below_def below_def)
      then show ?thesis using below_comps [OF plain(2) _ plain(1)] src root by auto
    qed
    with ws(3,4) show False by (cases ws) auto
  qed
qed

lemma collected_one:
  assumes "collectBackupCandidate io stack p d = (Inr c, d')"
  shows "\<forall>q. node_at d' q = node_at d q" "case c of
      None \<Rightarrow> node_at d (path_join stack p) = None
    | Some c \<Rightarrow> bc_relative_path c = p \<and> bc_source_path c = path_join stack p
        \<and> (\<exists>s. node_at d (path_join stack p) = Some (File (bc_mode c) s))"
proof -
  have "keeps (\<lambda>q. True) (collectBackupCandidate io stack p)"
    unfolding collectBackupCandidate_def Let_def by (intro keeps_intros)
  with assms show "\<forall>q. node_at d' q = node_at d q" by (auto dest: keepsD)
  show "case c of
      None \<Rightarrow> node_at d (path_join stack p) = None
    | Some c \<Rightarrow> bc_relative_path c = p \<and> bc_source_path c = path_join stack p
        \<and> (\<exists>s. node_at d (path_join stack p) = Some (File (bc_mode c) s))"
    using assms
    by (auto simp: collectBackupCandidate_def Let_def tryD_Inr os_Lstat_def syscall_def look_def failD_def returnD_def
        split: option.splits sum.splits if_splits node.splits)
qed

text \<open>A list of candidates describes the files that are there.\<close>

definition describes :: "disk \<Rightarrow> string \<Rightarrow> string set \<Rightarrow> backup_candidate list \<Rightarrow> bool" where
  "describes d stack ps cs \<longleftrightarrow>
     (\<forall>c \<in> set cs. bc_relative_path c \<in> ps \<and> bc_source_path c = path_join stack (bc_relative_path c)
        \<and> (\<exists>s. node_at d (bc_source_path c) = Some (File (bc_mode c) s)))
     \<and> (\<forall>p \<in> ps. node_at d (path_join stack p) = None \<or> (\<exists>c \<in> set cs. bc_relative_path c = p))"

lemma describes_same: "\<forall>q. node_at d' q = node_at d q \<Longrightarrow> describes d' stack ps cs \<longleftrightarrow> describes d stack ps cs"
  by (simp add: describes_def)

lemma collected_each:
  assumes f: "\<And>p d c d'. f p d = (Inr c, d') \<Longrightarrow> (\<forall>q. node_at d' q = node_at d q) \<and> (case c of
      None \<Rightarrow> node_at d (path_join stack p) = None
    | Some c \<Rightarrow> bc_relative_path c = p \<and> bc_source_path c = path_join stack p
        \<and> (\<exists>s. node_at d (path_join stack p) = Some (File (bc_mode c) s)))"
  shows "collect_each f ps d = (Inr cs, d') \<Longrightarrow> (\<forall>q. node_at d' q = node_at d q) \<and> describes d stack (set ps) cs"
proof (induction ps arbitrary: d cs)
  case Nil
  then show ?case by (simp add: returnD_def describes_def)
next
  case (Cons p ps)
  from Cons.prems obtain c d1 cs' where c: "f p d = (Inr c, d1)" and r: "collect_each f ps d1 = (Inr cs', d')"
    and cs: "cs = (case c of None \<Rightarrow> cs' | Some c \<Rightarrow> c # cs')"
    by (auto simp: bindD_Inr returnD_def)
  from Cons.IH [OF r] f [OF c] have same: "\<forall>q. node_at d' q = node_at d q" and d: "describes d stack (set ps) cs'"
    using describes_same [of d1 d] by auto
  show ?case
  proof (cases c)
    case None
    with f [OF c] d cs same show ?thesis by (auto simp: describes_def)
  next
    case (Some x)
    with f [OF c] d cs same show ?thesis by (auto simp: describes_def)
  qed
qed

lemma keeps_components [keeps_intros]: "keeps P (check_components io cur cs)"
proof (induction cs arbitrary: cur)
  case (Cons c cs)
  then show ?case by (auto simp: Let_def intro!: keeps_intros)
qed (simp add: keeps_intros)

lemma collected_all:
  assumes "collectBackupCandidates io stack extra d = (Inr cs, d')"
  shows "(\<forall>q. node_at d' q = node_at d q) \<and> describes d stack (set standardPaths \<union> set extra) cs"
proof -
  let ?f = "\<lambda>p. bindD (validateAdditionalPathAncestors io stack p) (\<lambda>_. collectBackupCandidate io stack p)"
  from assms obtain xs d1 ys where x: "collect_each (collectBackupCandidate io stack) standardPaths d = (Inr xs, d1)"
    and y: "collect_each ?f extra d1 = (Inr ys, d')" and cs: "cs = xs @ ys"
    by (auto simp: collectBackupCandidates_def bindD_Inr returnD_def)
  have v: "keeps (\<lambda>q. True) (validateAdditionalPathAncestors io stack p)" for p
    unfolding validateAdditionalPathAncestors_def Let_def by (intro keeps_intros)
  have f: "(\<forall>q. node_at d' q = node_at d q) \<and> (case c of
      None \<Rightarrow> node_at d (path_join stack p) = None
    | Some c \<Rightarrow> bc_relative_path c = p \<and> bc_source_path c = path_join stack p
        \<and> (\<exists>s. node_at d (path_join stack p) = Some (File (bc_mode c) s)))" if r: "?f p d = (Inr c, d')" for p d c d'
  proof -
    from r obtain u d1 where a: "validateAdditionalPathAncestors io stack p d = (Inr u, d1)"
      and b: "collectBackupCandidate io stack p d1 = (Inr c, d')" by (auto simp: bindD_Inr)
    have "\<forall>q. node_at d1 q = node_at d q" using keepsD [OF v TrueI a] by blast
    with collected_one [OF b] show ?thesis by (cases c) auto
  qed
  have "(\<forall>q. node_at d1 q = node_at d q) \<and> describes d stack (set standardPaths) xs"
    by (rule collected_each [OF _ x]) (use collected_one in blast)
  moreover have "(\<forall>q. node_at d' q = node_at d1 q) \<and> describes d1 stack (set extra) ys"
    by (rule collected_each [OF f y])
  ultimately show ?thesis using describes_same [of d1 d] cs by (auto simp: describes_def)
qed

text \<open>The copies, one after the other.\<close>

lemma copied:
  assumes snap: "list_all plain_comp us" "us \<noteq> []" "is_abs stack" "path_clean stack = stack"
  shows "eachD (copy_candidate io (abs_of us)) cs d = (Inr (), d') \<Longrightarrow> node_at d (abs_of us) = Some (Dir k)
    \<Longrightarrow> \<forall>c \<in> set cs. copied_path (bc_relative_path c) \<and> bc_source_path c = path_join stack (bc_relative_path c)
          \<and> \<not> below (abs_of us) (bc_source_path c) \<and> (\<exists>s. node_at d (bc_source_path c) = Some (File (bc_mode c) s))
    \<Longrightarrow> (\<forall>c \<in> set cs. node_at d' (path_join (abs_of us) (bc_relative_path c)) = node_at d (bc_source_path c))
      \<and> (\<forall>q. \<not> below (abs_of us) q \<longrightarrow> node_at d' q = node_at d q)
      \<and> (\<forall>q. node_at d q \<noteq> None \<and> (\<forall>c \<in> set cs. q \<noteq> path_join (abs_of us) (bc_relative_path c)) \<longrightarrow> node_at d' q = node_at d q)"
proof (induction cs arbitrary: d)
  case Nil
  then show ?case by (simp add: returnD_def)
next
  case (Cons c cs)
  let ?snap = "abs_of us" and ?src = "bc_source_path c"
  let ?t = "path_join ?snap (bc_relative_path c)"
  note sabs = abs_of_clean [OF snap(1)]
  from Cons.prems(3) obtain s ws where src: "node_at d ?src = Some (File (bc_mode c) s)" "\<not> below ?snap ?src"
    and ws: "bc_relative_path c = join_with ''/'' ws" "list_all plain_comp ws" "ws \<noteq> []"
    by (auto simp: copied_path_def)
  have t: "?t = abs_of (us @ ws)" using join_plain [OF sabs(1,2) ws(2,3)] ws(1) sabs(3) by simp
  have plain: "list_all plain_comp (us @ ws)" using snap(1) ws(2) by simp
  note path = abs_of_clean [OF plain]
  from Cons.prems(1) obtain u d1 where c1: "copy_candidate io ?snap c d = (Inr u, d1)"
    and rest: "eachD (copy_candidate io ?snap) cs d1 = (Inr (), d')" by (auto simp: bindD_Inr)
  from c1 obtain s' d0 where rd: "os_ReadFile io ?src d = (Inr s', d0)"
    and wr: "WriteFileAtomic io ?t s' (bc_mode c) d0 = (Inr (), d1)"
    by (auto simp: copy_candidate_def bindD_Inr callD_Inr)
  have s': "s' = s" and d0: "\<forall>q. node_at d0 q = node_at d q"
    using rd src(1) by (auto simp: os_ReadFile_def syscall_def look_def followed_def Let_def split: option.splits)
  have path': "is_abs ?t" "path_clean ?t = ?t" "clean_abs ?t \<noteq> []" using path t ws(3) by simp_all
  have new: "node_at d1 ?t = Some (File (bc_mode c) s)"
    using write_outcome(2) [OF path' wr refl] s' by simp
  have frame: "node_at d1 q = node_at d q" if "\<not> below ?snap q" for q
  proof -
    have "node_at d0 ?snap = Some (Dir k)" using d0 Cons.prems(2) by simp
    from write_below [OF this snap(2) plain ws(3) that, of io s' "bc_mode c"] wr t d0 show ?thesis by simp
  qed
  have present: "node_at d1 q = node_at d q" if "node_at d q \<noteq> None" "q \<noteq> ?t" for q
    using write_keeps_present [OF path' wr, of q] that d0 by simp
  have "\<not> below ?snap ?snap" by (simp add: below_def has_prefix_iff)
  then have snap1: "node_at d1 ?snap = Some (Dir k)" using frame Cons.prems(2) by simp
  have src1: "\<forall>x \<in> set cs. copied_path (bc_relative_path x) \<and> bc_source_path x = path_join stack (bc_relative_path x)
          \<and> \<not> below ?snap (bc_source_path x) \<and> (\<exists>s. node_at d1 (bc_source_path x) = Some (File (bc_mode x) s))"
    using Cons.prems(3) frame by auto
  note IH = Cons.IH [OF rest snap1 src1]
  have here: "node_at d' ?t = node_at d ?src"
  proof (cases "\<exists>x \<in> set cs. ?t = path_join ?snap (bc_relative_path x)")
    case False
    with IH new src(1) show ?thesis by (metis option.distinct(1))
  next
    case True
    then obtain x where x: "x \<in> set cs" "?t = path_join ?snap (bc_relative_path x)" by blast
    obtain xs where xs: "bc_relative_path x = join_with ''/'' xs" "list_all plain_comp xs" "xs \<noteq> []"
      using src1 x(1) unfolding copied_path_def by blast
    have "path_join ?snap (bc_relative_path x) = abs_of (us @ xs)"
      using join_plain [OF sabs(1,2) xs(2,3)] xs(1) sabs(3) by simp
    with x(2) t plain xs(2) snap(1) have "ws = xs" using abs_of_inject [of "us @ ws" "us @ xs"] by simp
    with ws xs have "bc_source_path x = ?src" using Cons.prems(3) src1 x(1) by simp
    with IH x frame [OF src(2)] show ?thesis by auto
  qed
  show ?case
  proof (intro conjI ballI allI impI)
    fix x
    assume "x \<in> set (c # cs)"
    then show "node_at d' (path_join ?snap (bc_relative_path x)) = node_at d (bc_source_path x)"
      using here IH frame Cons.prems(3) by auto
  next
    fix q
    assume "\<not> below ?snap q"
    with frame IH show "node_at d' q = node_at d q" by simp
  next
    fix q
    assume "node_at d q \<noteq> None \<and> (\<forall>x \<in> set (c # cs). q \<noteq> path_join ?snap (bc_relative_path x))"
    with present IH show "node_at d' q = node_at d q" by simp
  qed
qed

text \<open>The name of a snapshot is one component.\<close>

lemma snapshot_name_plain: "validateBackupOperation operation = None \<Longrightarrow> plain_comp (snapshotName n operation)"
proof -
  assume "validateBackupOperation operation = None"
  then have "operation \<noteq> []" "list_all (\<lambda>c. (97 \<le> byte c \<and> byte c \<le> 122) \<or> is_digit c \<or> c = CHR ''-'') operation"
    by (auto simp: validateBackupOperation_def backupOperationRegex_def split: if_splits)
  moreover from this have "CHR ''/'' \<notin> set operation" by (auto simp: list_all_iff is_digit_def byte_def)
  moreover have "CHR ''-'' \<in> set (snapshotName n operation)" by (simp add: snapshotName_def)
  moreover have "CHR ''-'' \<notin> set ''.''" "CHR ''-'' \<notin> set ''..''" by simp_all
  ultimately have "snapshotName n operation \<noteq> ''.''" "snapshotName n operation \<noteq> ''..''" by metis+
  with \<open>CHR ''/'' \<notin> set operation\<close> show ?thesis by (simp add: plain_comp_def snapshotName_def)
qed

lemma copy_frame:
  assumes "list_all plain_comp us" "us \<noteq> []" "\<not> below (abs_of us) q"
  shows "node_at d (abs_of us) = Some (Dir k) \<Longrightarrow> \<forall>c \<in> set cs. copied_path (bc_relative_path c)
    \<Longrightarrow> node_at (snd (eachD (copy_candidate io (abs_of us)) cs d)) q = node_at d q"
proof (induction cs arbitrary: d)
  case Nil
  then show ?case by (simp add: returnD_def)
next
  case (Cons c cs)
  let ?copy = "copy_candidate io (abs_of us) c d"
  obtain ws where ws: "bc_relative_path c = join_with ''/'' ws" "list_all plain_comp ws" "ws \<noteq> []"
    using Cons.prems(2) by (auto simp: copied_path_def)
  note sabs = abs_of_clean [OF assms(1)]
  have t: "path_join (abs_of us) (bc_relative_path c) = abs_of (us @ ws)"
    using join_plain [OF sabs(1,2) ws(2,3)] ws(1) sabs(3) by simp
  have plain: "list_all plain_comp (us @ ws)" using assms(1) ws(2) by simp
  have one: "node_at (snd ?copy) p = node_at d p" if p: "\<not> below (abs_of us) p" for p
  proof -
    obtain r d0 where rd: "os_ReadFile io (bc_source_path c) d = (r, d0)" by fastforce
    have same: "node_at d0 x = node_at d x" for x using keepsD [OF keeps_reads(3) TrueI rd] by blast
    then have "node_at d0 (abs_of us) = Some (Dir k)" using Cons.prems(1) by simp
    from write_below [OF this assms(2) plain ws(3) p] rd same t show ?thesis
      by (cases r) (simp_all add: copy_candidate_def bindD_def callD_def)
  qed
  have "\<not> below (abs_of us) (abs_of us)" by (simp add: below_def has_prefix_iff)
  then have "node_at (snd ?copy) (abs_of us) = Some (Dir k)" using one Cons.prems(1) by simp
  with Cons.IH [of "snd ?copy"] Cons.prems(2) one [OF assms(3)] show ?case
    by (simp add: bindD_def case_prod_beta split: sum.splits)
qed

lemma keeps_collect [keeps_intros]: "(\<And>p. keeps P (f p)) \<Longrightarrow> keeps P (collect_each f ps)"
  by (induction ps) (auto intro!: keeps_intros)

lemma keeps_candidates [keeps_intros]: "keeps P (collectBackupCandidates io stack extra)"
  unfolding collectBackupCandidates_def collectBackupCandidate_def validateAdditionalPathAncestors_def Let_def
  by (intro keeps_intros)

lemma fill_frame:
  assumes "list_all plain_comp us" "us \<noteq> []" "\<not> below (abs_of us) q" "node_at d (abs_of us) = Some (Dir k)"
    and "\<And>p. p \<in> set extra \<Longrightarrow> copied_path p"
  shows "node_at (snd (fill_snapshot io stack (abs_of us) extra d)) q = node_at d q"
proof -
  obtain r d1 where c: "collectBackupCandidates io stack extra d = (r, d1)" by fastforce
  have same: "node_at d1 x = node_at d x" for x using keepsD [OF keeps_candidates TrueI c] by blast
  show ?thesis
  proof (cases r)
    case (Inl e)
    with c same show ?thesis by (simp add: fill_snapshot_def bindD_def)
  next
    case (Inr cs)
    with c collected_all have "describes d stack (set standardPaths \<union> set extra) cs" by blast
    then have cp: "\<forall>c \<in> set cs. copied_path (bc_relative_path c)"
      using standard_copied assms(5) unfolding describes_def by blast
    let ?tail = "\<lambda>u. bindD (SyncDirectory io (abs_of us)) (\<lambda>_. returnD (abs_of us))"
    have copy: "node_at (snd (eachD (copy_candidate io (abs_of us)) cs d1)) q = node_at d1 q"
      by (rule copy_frame [OF assms(1-3) _ cp]) (use same assms(4) in simp)
    have "keeps (\<lambda>q. True) (?tail u)" for u by (intro keeps_intros)
    then have tail: "node_at (snd (?tail u x)) q = node_at x q" for u x unfolding keeps_def by blast
    have "node_at (snd (bindD (eachD (copy_candidate io (abs_of us)) cs) ?tail d1)) q = node_at d1 q"
      using copy tail by (simp add: bindD_def [of "eachD _ _"] case_prod_beta split: sum.splits)
    with c Inr same show ?thesis
      by (simp add: fill_snapshot_def bindD_def [of "collectBackupCandidates _ _ _"] refuseD_def)
        (simp add: failD_def)
  qed
qed

lemma keeps_noteP [keeps_intros]: "keeps P m \<Longrightarrow> keeps P (noteP m)"
  unfolding keeps_def noteP_def by (simp add: case_prod_beta split: sum.splits)

lemma keeps_cleanup_failed [keeps_intros]:
  "(\<And>q. P q \<Longrightarrow> \<not> at_or_below p q) \<Longrightarrow> keeps P (cleanupFailedSnapshotDirectory io root p)"
proof -
  assume a: "\<And>q. P q \<Longrightarrow> \<not> at_or_below p q"
  have "keeps P (noteD ''removing failed snapshot'' (os_RemoveAll io p))" "keeps P (noteP (SyncDirectory io root))"
    by (rule keeps_note, rule keeps_remove_all, rule a, assumption) (rule keeps_noteP, rule keeps_sync)
  then show ?thesis unfolding keeps_def cleanupFailedSnapshotDirectory_def by (simp add: case_prod_beta)
qed

lemma keeps_create_snapshot:
  "(\<And>q. P q \<Longrightarrow> \<not> at_or_below p q) \<Longrightarrow> keeps P (createBackupSnapshotDirectory io root p)"
proof -
  assume a: "\<And>q. P q \<Longrightarrow> \<not> at_or_below p q"
  then have "\<And>q. P q \<Longrightarrow> q \<noteq> p" by (auto simp: at_or_below_def)
  with a show ?thesis unfolding createBackupSnapshotDirectory_def by (intro keeps_intros)
qed

lemma created_snapshot: "createBackupSnapshotDirectory io root p d = (Inr u, d') \<Longrightarrow> \<exists>k. node_at d' p = Some (Dir k)"
proof -
  assume "createBackupSnapshotDirectory io root p d = (Inr u, d')"
  then obtain u1 d1 u2 d2 where mk: "os_Mkdir io p GeneratedDirMode d = (Inr u1, d1)"
    and ch: "os_Chmod io p GeneratedDirMode d1 = (Inr u2, d2)" and sy: "SyncDirectory io root d2 = (Inr u, d')"
    by (auto simp: createBackupSnapshotDirectory_def bindD_Inr callD_Inr cleanupD_Inr)
  from mk have "\<exists>k. node_at d1 p = Some (Dir k)"
    by (auto simp: os_Mkdir_def syscall_def Let_def split: option.splits if_splits)
  with ch have "\<exists>k. node_at d2 p = Some (Dir k)"
    by (auto simp: os_Chmod_def syscall_def Let_def set_mode_def split: option.splits)
  then show ?thesis using keepsD [OF keeps_sync TrueI sy] by simp
qed

text \<open>A filled snapshot holds what is there.\<close>

lemma filled:
  assumes us: "list_all plain_comp us" "us \<noteq> []" and stack: "is_abs stack" "path_clean stack = stack"
    and k: "node_at d (abs_of us) = Some (Dir k)" and extra: "\<And>p. p \<in> set extra \<Longrightarrow> copied_path p"
    and apart: "\<And>p. copied_path p \<Longrightarrow> \<not> below (abs_of us) (path_join stack p)"
    and fill: "fill_snapshot io stack (abs_of us) extra d = (Inr snap, d')" and p: "p \<in> set standardPaths \<union> set extra"
  shows "node_at d (path_join stack p) = None
    \<or> (\<exists>m s. node_at d (path_join stack p) = Some (File m s) \<and> node_at d' (path_join snap p) = Some (File m s))"
proof -
  let ?S = "abs_of us"
  from fill obtain cs d1 u d2 where co: "collectBackupCandidates io stack extra d = (Inr cs, d1)"
    and cp: "eachD (copy_candidate io ?S) cs d1 = (Inr (), d2)"
    and sy: "SyncDirectory io ?S d2 = (Inr u, d')" and sn: "snap = ?S"
    by (auto simp: fill_snapshot_def bindD_Inr returnD_def refuseD_def failD_def split: if_splits)
  from collected_all [OF co] have d1: "\<forall>q. node_at d1 q = node_at d q"
    and ds: "describes d stack (set standardPaths \<union> set extra) cs" by auto
  have sources: "\<forall>c \<in> set cs. copied_path (bc_relative_path c) \<and> bc_source_path c = path_join stack (bc_relative_path c)
      \<and> \<not> below ?S (bc_source_path c) \<and> (\<exists>s. node_at d1 (bc_source_path c) = Some (File (bc_mode c) s))"
  proof
    fix c
    assume "c \<in> set cs"
    with ds have rel: "bc_relative_path c \<in> set standardPaths \<union> set extra"
      "bc_source_path c = path_join stack (bc_relative_path c)"
      "\<exists>s. node_at d (bc_source_path c) = Some (File (bc_mode c) s)" unfolding describes_def by auto
    from rel(1) have "copied_path (bc_relative_path c)" using standard_copied extra by blast
    with apart rel d1 show "copied_path (bc_relative_path c) \<and> bc_source_path c = path_join stack (bc_relative_path c)
      \<and> \<not> below ?S (bc_source_path c) \<and> (\<exists>s. node_at d1 (bc_source_path c) = Some (File (bc_mode c) s))" by simp
  qed
  have "node_at d1 ?S = Some (Dir k)" using k d1 by simp
  from copied [OF us stack cp this sources]
  have copies: "\<forall>c \<in> set cs. node_at d2 (path_join ?S (bc_relative_path c)) = node_at d1 (bc_source_path c)" by (elim conjE)
  have last: "node_at d' q = node_at d2 q" for q using keepsD [OF keeps_sync TrueI sy] .
  from ds have "\<forall>p \<in> set standardPaths \<union> set extra. node_at d (path_join stack p) = None
      \<or> (\<exists>c \<in> set cs. bc_relative_path c = p)" unfolding describes_def by (rule conjunct2)
  from bspec [OF this p] show ?thesis
  proof
    assume "\<exists>c \<in> set cs. bc_relative_path c = p"
    then obtain c where c: "c \<in> set cs" "bc_relative_path c = p" by blast
    from bspec [OF sources c(1)] obtain s where
      "bc_source_path c = path_join stack p" "node_at d1 (bc_source_path c) = Some (File (bc_mode c) s)" using c(2) by auto
    with bspec [OF copies c(1)] c(2) d1 last sn show ?thesis by auto
  qed simp
qed

lemma snapshot_outcome:
  assumes "is_abs stack" "path_clean stack = stack"
    and "CreateConfigBackup io stack operation additional d = (r, d')"
    and "normalizeBackupAdditionalPaths additional = Inr extra"
  shows "(\<forall>q. \<not> at_or_below (backupRoot stack) q \<longrightarrow> node_at d' q = node_at d q)
    \<and> (\<forall>snap p. r = Inr snap \<longrightarrow> p \<in> set standardPaths \<union> set extra \<longrightarrow>
         node_at d (path_join stack p) = None
         \<or> (\<exists>m s. node_at d (path_join stack p) = Some (File m s) \<and> node_at d' (path_join snap p) = Some (File m s)))
    \<and> (\<forall>snap. r = Inr snap \<longrightarrow> validateBackupOperation operation = None
         \<and> (\<exists>n. snap = path_join (backupRoot stack) (snapshotName n operation)) \<and> (\<exists>k. node_at d' snap = Some (Dir k)))"
proof -
  let ?us = "clean_abs stack @ [BackupDirName]" and ?root = "backupRoot stack"
  have bk: "plain_comp BackupDirName" by (simp add: plain_comp_def BackupDirName_def)
  have us: "list_all plain_comp ?us" "?us \<noteq> []" using clean_abs_plain [of stack] bk by simp_all
  have root: "?root = abs_of ?us" using join_plain [OF assms(1,2), of "[BackupDirName]"] bk by (simp add: backupRoot_def)
  note rabs = abs_of_clean [OF us(1)]
  obtain rv dv where v: "validateBackupStackPath io stack d = (rv, dv)" by fastforce
  have "keeps (\<lambda>q. True) (validateBackupStackPath io stack)"
    unfolding validateBackupStackPath_def by (intro keeps_intros)
  from keepsD [OF this TrueI v] have dv: "node_at dv q = node_at d q" for q .
  obtain re de where e: "ensureBackupRootDirectory io stack ?root dv = (re, de)" by fastforce
  have "keeps (\<lambda>q. q \<noteq> ?root) (ensureBackupRootDirectory io stack ?root)"
    unfolding ensureBackupRootDirectory_def by (intro keeps_intros) auto
  from keepsD [OF this _ e] have de: "q \<noteq> ?root \<Longrightarrow> node_at de q = node_at dv q" for q .
  let ?name = "snapshotName (io_now io (dk_calls de)) operation"
  let ?S = "path_join ?root ?name"
  obtain rc dc where c: "createBackupSnapshotDirectory io ?root ?S de = (rc, dc)" by fastforce
  let ?fill = "cleanupD (fill_snapshot io stack ?S extra) (cleanupFailedSnapshotDirectory io ?root ?S)"
  have run: "(r, d') = (case rv of Inl x \<Rightarrow> (Inl x, dv) | Inr _ \<Rightarrow>
      (case validateBackupOperation operation of Some x \<Rightarrow> (Inl x, dv) | None \<Rightarrow>
      (case re of Inl x \<Rightarrow> (Inl x, de) | Inr _ \<Rightarrow> (case rc of Inl x \<Rightarrow> (Inl x, dc) | Inr _ \<Rightarrow> ?fill dc))))"
    using assms(3,4) v e c
    by (auto simp: CreateConfigBackup_def bindD_def failD_def backupNowUTC_def Let_def split: sum.splits option.splits)
  show ?thesis
  proof (cases "validateBackupOperation operation")
    case (Some x)
    with run dv show ?thesis by (cases rv) auto
  next
    case None
    note name = snapshot_name_plain [OF None, of "io_now io (dk_calls de)"]
    have S: "?S = abs_of (?us @ [?name])"
      using join_plain [OF rabs(1,2), of "[?name]"] name rabs(3) root by simp
    have plainS: "list_all plain_comp (?us @ [?name])" "?us @ [?name] \<noteq> []" using us(1) name by simp_all
    have "below (abs_of ?us) (abs_of (?us @ [?name]))" by (rule below_abs_of) simp_all
    then have "below ?root ?S" unfolding S [symmetric] root [symmetric] .
    then have in_root: "\<not> at_or_below ?root q \<Longrightarrow> \<not> at_or_below ?S q \<and> \<not> below ?S q" for q
      by (auto simp: at_or_below_def below_def has_prefix_iff)
    have out: "\<not> at_or_below ?root q \<Longrightarrow> q \<noteq> ?root" for q by (auto simp: at_or_below_def)
    have "keeps (\<lambda>q. \<not> at_or_below ?S q) (createBackupSnapshotDirectory io ?root ?S)"
      by (rule keeps_create_snapshot)
    from keepsD [OF this _ c] have dc: "\<not> at_or_below ?S q \<Longrightarrow> node_at dc q = node_at de q" for q .
    have before: "\<not> at_or_below ?root q \<Longrightarrow> node_at de q = node_at d q \<and> node_at dc q = node_at d q" for q
      using dv de dc in_root out by metis
    consider "rv = rv \<and> (\<exists>x. r = Inl x) \<and> d' \<in> {dv, de, dc}" | u where "rc = Inr u" "?fill dc = (r, d')"
      using run None by (auto split: sum.splits)
    then show ?thesis
    proof cases
      case 1
      with dv before show ?thesis by auto
    next
      case 2
      obtain k where k: "node_at dc ?S = Some (Dir k)" using created_snapshot c 2(1) by blast
      have extra: "copied_path p" if "p \<in> set extra" for p using additional_copied [OF assms(4) that] .
      obtain rf df where f: "fill_snapshot io stack ?S extra dc = (rf, df)" by fastforce
      have df: "\<not> below ?S q \<Longrightarrow> node_at df q = node_at dc q" for q
        using fill_frame [OF plainS, where d = dc and k = k and extra = extra and io = io and stack = stack and q = q] k f S extra
        by simp
      have "keeps (\<lambda>q. \<not> at_or_below ?S q) (cleanupFailedSnapshotDirectory io ?root ?S)"
        by (rule keeps_cleanup_failed)
      then have cl: "\<not> at_or_below ?S q \<Longrightarrow> node_at (snd (cleanupFailedSnapshotDirectory io ?root ?S x)) q = node_at x q" for q x
        unfolding keeps_def by blast
      have frame: "node_at d' q = node_at d q" if "\<not> at_or_below ?root q" for q
        using 2(2) f df cl before [OF that] in_root [OF that]
        by (auto simp: cleanupD_def case_prod_beta split: sum.splits if_splits)
      have "node_at d (path_join stack p) = None
          \<or> (\<exists>m s. node_at d (path_join stack p) = Some (File m s) \<and> node_at d' (path_join snap p) = Some (File m s))"
        if r: "r = Inr snap" and p: "p \<in> set standardPaths \<union> set extra" for snap p
      proof -
        from 2(2) r have fill: "fill_snapshot io stack ?S extra dc = (Inr snap, d')" by (simp add: cleanupD_Inr)
        have src: "\<not> at_or_below ?root (path_join stack q)" if "copied_path q" for q
          using copied_outside(1) [OF assms(1,2) that] .
        then have "\<not> below ?S (path_join stack q)" if "copied_path q" for q using in_root that by blast
        from filled [OF plainS assms(1,2), folded S, OF k extra this fill p] before [OF src] p standard_copied extra
        show ?thesis by (metis UnE)
      qed
      moreover have "snap = ?S \<and> (\<exists>k. node_at d' snap = Some (Dir k))" if r: "r = Inr snap" for snap
      proof -
        from 2(2) r have fill: "fill_snapshot io stack ?S extra dc = (Inr snap, d')" by (simp add: cleanupD_Inr)
        then have "snap = ?S" by (auto simp: fill_snapshot_def bindD_Inr returnD_def)
        moreover have "\<not> below ?S ?S" by (simp add: below_def has_prefix_iff)
        ultimately show ?thesis using df k f fill by auto
      qed
      ultimately show ?thesis using frame None by blast
    qed
  qed
qed

text \<open>
  C36: a snapshot is complete and disturbs nothing. Whatever calls fail, \<open>CreateConfigBackup\<close> changes nothing outside
  the backup directory of the stack. When it returns a snapshot, every configuration file of the stack and every
  additional path that was asked for either does not exist or is a regular file that the snapshot holds under
  the same relative path with the same bytes and the same mode.
\<close>

theorem backup_complete:
  assumes "is_abs stack" "path_clean stack = stack"
    and "CreateConfigBackup io stack operation additional d = (r, d')"
    and "normalizeBackupAdditionalPaths additional = Inr extra"
  shows "(\<forall>q. \<not> at_or_below (backupRoot stack) q \<longrightarrow> node_at d' q = node_at d q)
    \<and> (\<forall>snap p. r = Inr snap \<longrightarrow> p \<in> set standardPaths \<union> set extra \<longrightarrow>
         node_at d (path_join stack p) = None
         \<or> (\<exists>m s. node_at d (path_join stack p) = Some (File m s) \<and> node_at d' (path_join snap p) = Some (File m s)))"
  using snapshot_outcome [OF assms] by (elim conjE) (intro conjI)

subsection \<open>What pruning removes\<close>

definition unpinned :: "string \<Rightarrow> snapshot_dir list \<Rightarrow> snapshot_dir list" where
  "unpinned pinnedName ss = filter (\<lambda>s. \<not> (pinnedName \<noteq> [] \<and> sd_name s = pinnedName)) ss"

definition without :: "string list \<Rightarrow> disk \<Rightarrow> string \<Rightarrow> node option" where
  "without removed d q = (if \<exists>r \<in> set removed. at_or_below r q then None else node_at d q)"

lemma removed_snapshot:
  assumes "removeBackupSnapshot io p d = (Inr u, d')"
  shows "node_at d' q = (if at_or_below p q then None else node_at d q)"
proof -
  from assms obtain n d1 where l: "os_Lstat io p d = (Inr n, d1)" and r: "os_RemoveAll io p d1 = (Inr u, d')"
    by (auto simp: removeBackupSnapshot_def bindD_Inr callD_Inr refuseD_def returnD_def failD_def split: if_splits)
  have "node_at d1 q = node_at d q" using keepsD [OF keeps_reads(1) TrueI l] .
  with r show ?thesis
    by (auto simp: os_RemoveAll_def syscall_def Let_def map_of_filter_key split: option.splits)
qed

lemma pruned:
  "prune_loop io pinnedName n ss d = ((removed, None, n'), d')
     \<Longrightarrow> removed = map sd_path (take n (unpinned pinnedName ss)) \<and> n' = n - length (unpinned pinnedName ss)
       \<and> (\<forall>q. node_at d' q = without removed d q)"
proof (induction io pinnedName n ss d arbitrary: removed n' d' rule: prune_loop.induct)
  case (1 io pinnedName n d)
  then show ?case by (simp add: unpinned_def without_def)
next
  case (2 io pinnedName n s ss d)
  consider (zero) "n = 0" | (pin) "n \<noteq> 0" "pinnedName \<noteq> [] \<and> sd_name s = pinnedName"
    | (rm) "n \<noteq> 0" "\<not> (pinnedName \<noteq> [] \<and> sd_name s = pinnedName)" by blast
  then show ?case
  proof cases
    case zero
    with 2(3) show ?thesis by (simp add: without_def)
  next
    case pin
    with 2(3) have "prune_loop io pinnedName n ss d = ((removed, None, n'), d')" by simp
    from 2(1) [OF pin this] pin show ?thesis by (simp add: unpinned_def)
  next
    case rm
    with 2(3) obtain u d1 rest where r: "removeBackupSnapshot io (sd_path s) d = (Inr u, d1)"
      and lp: "prune_loop io pinnedName (n - 1) ss d1 = ((rest, None, n'), d')" and removed: "removed = sd_path s # rest"
      by (auto split: prod.splits sum.splits)
    from 2(2) [OF rm r [symmetric] refl lp] have IH: "rest = map sd_path (take (n - 1) (unpinned pinnedName ss))"
      "n' = n - 1 - length (unpinned pinnedName ss)" "\<forall>q. node_at d' q = without rest d1 q" by auto
    have u: "unpinned pinnedName (s # ss) = s # unpinned pinnedName ss" using rm(2) by (auto simp: unpinned_def)
    obtain k where n: "n = Suc k" using rm(1) by (cases n) auto
    have "node_at d' q = without removed d q" for q
      using IH(3) removed_snapshot [OF r, of q] removed by (simp add: without_def)
    with IH removed u n show ?thesis by simp
  qed
qed

text \<open>The calls are counted upwards, so that a time can be placed within a run.\<close>

definition ticks :: "(disk \<Rightarrow> 'r \<times> disk) \<Rightarrow> bool" where
  "ticks m \<longleftrightarrow> (\<forall>d. dk_calls d \<le> dk_calls (snd (m d)))"

named_theorems ticks_intros \<open>programs that only count upwards\<close>

lemma ticksD: "ticks m \<Longrightarrow> m d = (r, d') \<Longrightarrow> dk_calls d \<le> dk_calls d'"
  unfolding ticks_def by (metis snd_conv)

lemma ticks_os [ticks_intros]:
  "ticks (os_Lstat io p)" "ticks (os_Stat io p)" "ticks (os_ReadDir io p)" "ticks (os_Open io p)" "ticks (os_Sync io p)"
  "ticks (os_Close io p)" "ticks (os_RemoveAll io p)"
  unfolding os_Lstat_def os_Stat_def os_ReadDir_def os_Open_def os_Sync_def os_Close_def
  by (auto simp: ticks_def os_RemoveAll_def call_on_def Let_def split: option.splits sum.splits)

lemma ticks_bind [ticks_intros]: "ticks m \<Longrightarrow> (\<And>x. ticks (f x)) \<Longrightarrow> ticks (bindD m f)"
  unfolding ticks_def bindD_def by (auto simp: case_prod_beta split: sum.splits intro: order_trans)

lemma ticks_parts [ticks_intros]:
  "ticks (returnD x)" "ticks (failD e)" "ticks (refuseD b e)"
  by (simp_all add: ticks_def returnD_def failD_def refuseD_def)

lemma ticks_wrapped [ticks_intros]:
  "ticks m \<Longrightarrow> ticks (callD what m)" "ticks m \<Longrightarrow> ticks (noteD what m)"
  by (simp_all add: ticks_def callD_def noteD_def case_prod_beta split: sum.splits)

lemma ticks_noteP [ticks_intros]: "ticks m \<Longrightarrow> ticks (noteP m)"
  by (simp add: ticks_def noteP_def case_prod_beta split: sum.splits)

lemma ticks_try [ticks_intros]:
  "ticks m \<Longrightarrow> (\<And>e. ticks (f e)) \<Longrightarrow> (\<And>x. ticks (g x)) \<Longrightarrow> ticks (tryD m (\<lambda>r. case r of Inl e \<Rightarrow> f e | Inr x \<Rightarrow> g x))"
  unfolding ticks_def tryD_def by (auto simp: case_prod_beta split: sum.splits intro: order_trans)

lemma ticks_if [ticks_intros]: "ticks a \<Longrightarrow> ticks b \<Longrightarrow> ticks (if c then a else b)"
  by simp

lemma ticks_cleanup [ticks_intros]: "ticks m \<Longrightarrow> ticks c \<Longrightarrow> ticks (cleanupD m c)"
  unfolding ticks_def cleanupD_def by (auto simp: case_prod_beta split: sum.splits intro: order_trans)

lemma ticks_sync [ticks_intros]: "ticks (SyncDirectory io p)"
  unfolding SyncDirectory_def by (intro ticks_intros)

lemma ticks_prune: "prune_loop io pinnedName n ss d = (r, d') \<Longrightarrow> dk_calls d \<le> dk_calls d'"
proof (induction io pinnedName n ss d arbitrary: r d' rule: prune_loop.induct)
  case (2 io pinnedName n s ss d)
  have rm: "ticks (removeBackupSnapshot io (sd_path s))" unfolding removeBackupSnapshot_def by (intro ticks_intros)
  consider "n = 0" | "n \<noteq> 0" "pinnedName \<noteq> [] \<and> sd_name s = pinnedName"
    | "n \<noteq> 0" "\<not> (pinnedName \<noteq> [] \<and> sd_name s = pinnedName)" by blast
  then show ?case
  proof cases
    case 3
    obtain r1 d1 where r1: "removeBackupSnapshot io (sd_path s) d = (r1, d1)" by fastforce
    from ticksD [OF rm r1] 2(2) [OF 3 r1 [symmetric]] 2(3) r1 3 show ?thesis
      by (cases r1) (auto split: prod.splits intro: order_trans)
  qed (use 2 in auto)
qed simp

text \<open>The time of a snapshot is the one the system reports for its directory during the run.\<close>

definition timed :: "io \<Rightarrow> disk \<Rightarrow> disk \<Rightarrow> snapshot_dir \<Rightarrow> bool" where
  "timed io d d' s \<longleftrightarrow> (\<exists>k. dk_calls d \<le> k \<and> k \<le> dk_calls d' \<and> sd_modified_at s = io_mtime io k (sd_path s))"

lemma timed_later: "timed io d1 d2 s \<Longrightarrow> dk_calls d \<le> dk_calls d1 \<Longrightarrow> dk_calls d2 \<le> dk_calls d' \<Longrightarrow> timed io d d' s"
  unfolding timed_def by (meson order_trans)

lemma collected_times:
  "collect_snapshots io root names d = (Inr ss, d') \<Longrightarrow> dk_calls d \<le> dk_calls d' \<and> (\<forall>s \<in> set ss. timed io d d' s)"
proof (induction names arbitrary: d ss)
  case (Cons n ns)
  from Cons.prems obtain x d1 where l: "os_Lstat io (path_join root n) d = (Inr x, d1)"
    and r: "(case x of Link q \<Rightarrow> failD (FsRefused ''snapshot entry must not be a symlink'')
           | Dir m \<Rightarrow> bindD (os_ModTime io (path_join root n)) (\<lambda>t. bindD (collect_snapshots io root ns) (\<lambda>ss.
                 returnD (\<lparr>sd_name = n, sd_path = path_join root n, sd_modified_at = t\<rparr> # ss)))
           | _ \<Rightarrow> collect_snapshots io root ns) d1 = (Inr ss, d')"
    by (auto simp: Let_def bindD_Inr callD_Inr)
  note le = ticksD [OF ticks_os(1) l]
  show ?case
  proof (cases x)
    case (Dir m)
    with r obtain ss' where c: "collect_snapshots io root ns d1 = (Inr ss', d')"
      "ss = \<lparr>sd_name = n, sd_path = path_join root n, sd_modified_at = io_mtime io (dk_calls d1) (path_join root n)\<rparr> # ss'"
      by (auto simp: bindD_Inr returnD_def os_ModTime_def)
    from Cons.IH [OF c(1)] c(2) le show ?thesis
      by (auto intro: timed_later) (auto simp: timed_def)
  next
    case (File m s)
    with r have "collect_snapshots io root ns d1 = (Inr ss, d')" by simp
    from Cons.IH [OF this] le show ?thesis by (auto intro: timed_later)
  next
    case Special
    with r have "collect_snapshots io root ns d1 = (Inr ss, d')" by simp
    from Cons.IH [OF this] le show ?thesis by (auto intro: timed_later)
  qed (use r in \<open>simp add: failD_def\<close>)
qed (simp add: returnD_def)

text \<open>The older of two snapshots, the one with the smaller name where the times are equal.\<close>

definition older :: "snapshot_dir \<Rightarrow> snapshot_dir \<Rightarrow> bool" where
  "older s t \<longleftrightarrow> sd_modified_at s < sd_modified_at t \<or> (sd_modified_at s = sd_modified_at t \<and> sd_name s \<le> sd_name t)"

lemma insort_older:
  "sorted_wrt older ss \<Longrightarrow> \<forall>t \<in> set ss. sd_name s \<le> sd_name t \<Longrightarrow> sorted_wrt older (insort_key sd_modified_at s ss)"
  by (induction ss) (auto simp: set_insort_key older_def)

lemma oldest_first_sorted: "sorted_wrt older (oldest_first ss)"
proof -
  have "sorted (map sd_name ss) \<Longrightarrow> sorted_wrt older (sort_key sd_modified_at ss)" for ss
    by (induction ss) (auto intro!: insort_older)
  then show ?thesis by (simp add: oldest_first_def)
qed

lemma collected_names:
  "collect_snapshots io root names d = (Inr ss, d') \<Longrightarrow>
     (\<forall>q. node_at d' q = node_at d q) \<and> map sd_name ss = filter (\<lambda>n. \<exists>m. node_at d (path_join root n) = Some (Dir m)) names
     \<and> (\<forall>s \<in> set ss. sd_path s = path_join root (sd_name s))"
proof (induction names arbitrary: d ss)
  case Nil
  then show ?case by (simp add: returnD_def)
next
  case (Cons n ns)
  from Cons.prems obtain x d1 where l: "os_Lstat io (path_join root n) d = (Inr x, d1)"
    and r: "(case x of Link q \<Rightarrow> failD (FsRefused ''snapshot entry must not be a symlink'')
           | Dir m \<Rightarrow> bindD (os_ModTime io (path_join root n)) (\<lambda>t. bindD (collect_snapshots io root ns) (\<lambda>ss.
                 returnD (\<lparr>sd_name = n, sd_path = path_join root n, sd_modified_at = t\<rparr> # ss)))
           | _ \<Rightarrow> collect_snapshots io root ns) d1 = (Inr ss, d')"
    by (auto simp: Let_def bindD_Inr callD_Inr)
  have same: "\<forall>q. node_at d1 q = node_at d q" using keepsD [OF keeps_reads(1) TrueI l] by blast
  from l have x: "node_at d (path_join root n) = Some x"
    by (auto simp: os_Lstat_def syscall_def look_def Let_def split: option.splits)
  show ?case
  proof (cases x)
    case (Dir m)
    with r obtain t ss' where c: "collect_snapshots io root ns d1 = (Inr ss', d')"
      "ss = \<lparr>sd_name = n, sd_path = path_join root n, sd_modified_at = t\<rparr> # ss'"
      by (auto simp: bindD_Inr returnD_def os_ModTime_def)
    from Cons.IH [OF c(1)] c(2) Dir x same show ?thesis by auto
  next
    case (File m s)
    with r have "collect_snapshots io root ns d1 = (Inr ss, d')" by simp
    from Cons.IH [OF this] File x same show ?thesis by simp
  next
    case Special
    with r have "collect_snapshots io root ns d1 = (Inr ss, d')" by simp
    from Cons.IH [OF this] Special x same show ?thesis by simp
  qed (use r in \<open>simp add: failD_def\<close>)
qed

definition in_directory :: "disk \<Rightarrow> string \<Rightarrow> string \<Rightarrow> bool" where
  "in_directory d dir n \<longleftrightarrow> n \<noteq> [] \<and> CHR ''/'' \<notin> set n \<and> node_at d (dir @ ''/'' @ n) \<noteq> None"

lemma child_name_Some: "child_name dir p = Some n \<longleftrightarrow> p = dir @ ''/'' @ n \<and> n \<noteq> [] \<and> CHR ''/'' \<notin> set n"
  by (auto simp: child_name_def has_prefix_iff)

lemma names_in_directory: "set (names_in (dk_tree d) dir) = {n. in_directory d dir n}" "distinct (names_in (dk_tree d) dir)"
proof -
  have "n \<in> set (names_in (dk_tree d) dir) \<longleftrightarrow> (\<exists>p \<in> fst ` set (dk_tree d). child_name dir p = Some n)" for n
    by (auto simp: names_in_def List.map_filter_def split: prod.splits) force+
  then show "set (names_in (dk_tree d) dir) = {n. in_directory d dir n}"
    by (auto simp: in_directory_def child_name_Some map_of_eq_None_iff)
  show "distinct (names_in (dk_tree d) dir)" by (simp add: names_in_def)
qed

lemma keeps_join_sync: "keeps P (joinPruneBackupRootSyncError io root removed err)"
  using keeps_noteP [OF keeps_sync, of P io root]
  by (auto simp: keeps_def joinPruneBackupRootSyncError_def case_prod_beta split: list.splits)

lemma ticks_join_sync: "joinPruneBackupRootSyncError io root removed err d = (e, d') \<Longrightarrow> dk_calls d \<le> dk_calls d'"
  using ticks_noteP [OF ticks_sync, of io root]
  by (auto simp: ticks_def joinPruneBackupRootSyncError_def split: if_splits prod.splits list.splits) (metis snd_conv)+

text \<open>
  C37: pruning removes exactly the oldest snapshots. When \<open>PruneConfigBackups\<close> reports no error and there is a
  backup root, take the directories in it in the order of the times the system reports for them during the
  run, oldest first, and by name where the times are equal. What was removed are the first of them that are not
  pinned, as many as there are directories above ten; so nothing is removed when there are at most ten, otherwise
  exactly ten stay, and the pinned one always does. Nothing but the removed directories is gone. When there is no
  backup root nothing is removed.
\<close>

theorem prune_oldest:
  assumes "PruneConfigBackups io stack pinned d = ((removed, None), d')"
    and "normalizePinnedSnapshotName (backupRoot stack) pinned = Inr pinnedName"
  shows "(\<forall>q. node_at d' q = without removed d q)
    \<and> (if node_at d (backupRoot stack) = None then removed = []
       else \<exists>snaps. sorted_wrt older snaps \<and> distinct (map sd_name snaps)
         \<and> sd_name ` set snaps = {n. in_directory d (backupRoot stack) n \<and> (\<exists>m. node_at d (path_join (backupRoot stack) n) = Some (Dir m))}
         \<and> (\<forall>s \<in> set snaps. sd_path s = path_join (backupRoot stack) (sd_name s) \<and> timed io d d' s)
         \<and> removed = map sd_path (take (length snaps - 10) (unpinned pinnedName snaps))
         \<and> length removed = length snaps - 10)"
proof -
  let ?root = "backupRoot stack"
  let ?check = "bindD (validateBackupStackPath io stack) (\<lambda>_. validatePruneBackupRoot io ?root)"
  obtain rc d1 where c: "?check d = (rc, d1)" by fastforce
  have "keeps (\<lambda>q. True) ?check"
    unfolding validateBackupStackPath_def validatePruneBackupRoot_def by (intro keeps_intros)
  from keepsD [OF this TrueI c] have d1: "node_at d1 q = node_at d q" for q .
  have "ticks ?check" unfolding validateBackupStackPath_def validatePruneBackupRoot_def by (intro ticks_intros)
  from ticksD [OF this c] have t1: "dk_calls d \<le> dk_calls d1" .
  have kv: "keeps (\<lambda>q. True) (validateBackupStackPath io stack)"
    unfolding validateBackupStackPath_def by (intro keeps_intros)
  have absent: "b \<longleftrightarrow> node_at d ?root \<noteq> None" if ok: "rc = Inr b" for b
  proof -
    from c ok obtain u d0 where v: "validateBackupStackPath io stack d = (Inr u, d0)"
      and p: "validatePruneBackupRoot io ?root d0 = (Inr b, d1)" by (auto simp: bindD_Inr)
    have "node_at d0 ?root = node_at d ?root" using keepsD [OF kv TrueI v] .
    with p ok show ?thesis
      by (auto simp: validatePruneBackupRoot_def tryD_Inr os_Lstat_def call_on_def look_def Let_def failD_def returnD_def
          bindD_Inr refuseD_def split: option.splits if_splits)
  qed
  from assms c have rc: "rc = Inr False \<and> removed = [] \<and> d' = d1 \<or> rc = Inr True"
    by (auto simp: PruneConfigBackups_def split: sum.splits bool.splits)
  show ?thesis
  proof (cases "rc = Inr True")
    case False
    with rc have "rc = Inr False" "removed = []" "d' = d1" by simp_all
    with d1 absent [of False] show ?thesis by (simp add: without_def)
  next
    case True
    obtain rs d2 where co: "collectBackupSnapshotDirectories io ?root d1 = (rs, d2)" by fastforce
    with assms c True obtain snaps where rs: "rs = Inr snaps"
      by (auto simp: PruneConfigBackups_def split: sum.splits)
    with co obtain names d3 where rd: "os_ReadDir io ?root d1 = (Inr names, d3)"
      and cs: "collect_snapshots io ?root names d3 = (Inr snaps, d2)"
      by (auto simp: collectBackupSnapshotDirectories_def bindD_Inr callD_Inr)
    have d3: "node_at d3 q = node_at d1 q" for q using keepsD [OF keeps_reads(4) TrueI rd] .
    from rd have names: "names = names_in (dk_tree d1) ?root"
      by (auto simp: os_ReadDir_def syscall_def look_def Let_def split: option.splits node.splits)
    from collected_names [OF cs] d1 d3 have d2: "node_at d2 q = node_at d q"
      and ns: "map sd_name snaps = filter (\<lambda>n. \<exists>m. node_at d (path_join ?root n) = Some (Dir m)) names"
      and ps: "\<forall>s \<in> set snaps. sd_path s = path_join ?root (sd_name s)" for q by auto
    have dir: "in_directory d1 ?root n \<longleftrightarrow> in_directory d ?root n" for n using d1 by (simp add: in_directory_def)
    have dist: "distinct (map sd_name snaps)" unfolding ns names using names_in_directory(2) by (rule distinct_filter)
    have all: "sd_name ` set snaps = {n. in_directory d ?root n \<and> (\<exists>m. node_at d (path_join ?root n) = Some (Dir m))}"
      using arg_cong [OF ns, of set] names_in_directory(1) [of d1 ?root] dir names by auto
    have t3: "dk_calls d \<le> dk_calls d3" using ticksD [OF ticks_os(3) rd] t1 by simp
    have times: "timed io d d' s" if "s \<in> set snaps" "dk_calls d2 \<le> dk_calls d'" for s
      using collected_times [OF cs] that t3 by (blast intro: timed_later)
    let ?old = "oldest_first snaps"
    have old: "sorted_wrt older ?old" "distinct (map sd_name ?old)" "set ?old = set snaps" "length ?old = length snaps"
      using dist oldest_first_sorted by (auto simp: oldest_first_def distinct_map)
    have root: "node_at d ?root \<noteq> None" using absent [OF True] by simp
    show ?thesis
    proof (cases "length snaps \<le> BackupRetentionLimit")
      case le: True
      with assms c True co rs have r: "removed = [] \<and> d' = d2"
        by (auto simp: PruneConfigBackups_def split: sum.splits)
      have "sorted_wrt older ?old \<and> distinct (map sd_name ?old)
         \<and> sd_name ` set ?old = {n. in_directory d ?root n \<and> (\<exists>m. node_at d (path_join ?root n) = Some (Dir m))}
         \<and> (\<forall>s \<in> set ?old. sd_path s = path_join ?root (sd_name s) \<and> timed io d d' s)
         \<and> removed = map sd_path (take (length ?old - 10) (unpinned pinnedName ?old)) \<and> length removed = length ?old - 10"
        using old all ps times r le by (auto simp: BackupRetentionLimit_def)
      with root r d2 show ?thesis by (auto simp: without_def)
    next
      case False
      let ?n = "length snaps - BackupRetentionLimit"
      obtain rem e n' d4 where lp: "prune_loop io pinnedName ?n ?old d2 = ((rem, e, n'), d4)"
        by (metis prod_cases3 surj_pair)
      obtain e' d5 where j: "joinPruneBackupRootSyncError io ?root rem
          (case e of Some e \<Rightarrow> Some e | None \<Rightarrow> if n' > 0 then Some (FsRefused ''unable to satisfy retention limit'') else None) d4
          = (e', d5)" by fastforce
      from assms c \<open>rc = Inr True\<close> co rs False lp j have r: "removed = rem \<and> e' = None \<and> d' = d5"
        by (auto simp: PruneConfigBackups_def split: sum.splits prod.splits)
      with j have "e = None" "n' = 0"
        by (auto simp: joinPruneBackupRootSyncError_def split: option.splits if_splits prod.splits list.splits)
      with lp pruned have pr: "rem = map sd_path (take ?n (unpinned pinnedName ?old))"
        "?n \<le> length (unpinned pinnedName ?old)" "\<forall>q. node_at d4 q = without rem d2 q" by fastforce+
      from keepsD [OF keeps_join_sync TrueI j] have "node_at d5 q = node_at d4 q" for q .
      with pr(3) d2 r have gone: "\<forall>q. node_at d' q = without removed d q" by (simp add: without_def)
      have "dk_calls d2 \<le> dk_calls d'" using ticks_prune [OF lp] ticks_join_sync [OF j] r by simp
      with old all ps times pr(1,2) r
      have "sorted_wrt older ?old \<and> distinct (map sd_name ?old)
         \<and> sd_name ` set ?old = {n. in_directory d ?root n \<and> (\<exists>m. node_at d (path_join ?root n) = Some (Dir m))}
         \<and> (\<forall>s \<in> set ?old. sd_path s = path_join ?root (sd_name s) \<and> timed io d d' s)
         \<and> removed = map sd_path (take (length ?old - 10) (unpinned pinnedName ?old)) \<and> length removed = length ?old - 10"
        by (auto simp: BackupRetentionLimit_def)
      with root gone show ?thesis by auto
    qed
  qed
qed

definition eleven_names :: "string list" where
  "eleven_names = map (\<lambda>c. [c]) ''abcdefghijk''"

definition eleven_backups :: "nat \<Rightarrow> disk" where
  "eleven_backups k = \<lparr>dk_tree = map (\<lambda>p. (p, Dir 0x1ED)) ([''/'', ''/srv'', ''/srv/.wdm-backups'']
     @ map (\<lambda>n. ''/srv/.wdm-backups/'' @ n) eleven_names), dk_calls = k, dk_unsynced = []\<rparr>"

definition calm_snapshot :: "string \<Rightarrow> snapshot_dir" where
  "calm_snapshot n = \<lparr>sd_name = n, sd_path = path_join ''/srv/.wdm-backups'' n, sd_modified_at = 0\<rparr>"

lemma calm_lstat: "map_of (dk_tree d) p = Some n \<Longrightarrow> os_Lstat calm_io p d = (Inr n, d\<lparr>dk_calls := Suc (dk_calls d)\<rparr>)"
  by (simp add: os_Lstat_def syscall_def look_def calm_io_def)

lemma calm_collect:
  "\<forall>n \<in> set names. map_of (dk_tree d) (path_join ''/srv/.wdm-backups'' n) = Some (Dir 0x1ED) \<Longrightarrow>
     collect_snapshots calm_io ''/srv/.wdm-backups'' names d = (Inr (map calm_snapshot names), d\<lparr>dk_calls := dk_calls d + length names\<rparr>)"
proof (induction names arbitrary: d)
  case (Cons n ns)
  then have "collect_snapshots calm_io ''/srv/.wdm-backups'' ns (d\<lparr>dk_calls := Suc (dk_calls d)\<rparr>)
      = (Inr (map calm_snapshot ns), d\<lparr>dk_calls := dk_calls d + length (n # ns)\<rparr>)" by simp
  with Cons.prems show ?case
    by (simp add: Let_def bindD_def callD_def calm_lstat returnD_def os_ModTime_def calm_snapshot_def)
      (simp add: calm_io_def)
qed (simp add: returnD_def)

lemma eleven_run:
  "bindD (validateBackupStackPath calm_io ''/srv'') (\<lambda>_. validatePruneBackupRoot calm_io ''/srv/.wdm-backups'') (eleven_backups 0)
     = (Inr True, eleven_backups 2)"
  "os_ReadDir calm_io ''/srv/.wdm-backups'' (eleven_backups 2) = (Inr eleven_names, eleven_backups 3)"
  "list_all (\<lambda>n. map_of (dk_tree (eleven_backups 3)) (path_join ''/srv/.wdm-backups'' n) = Some (Dir 0x1ED)) eleven_names"
  "oldest_first (map calm_snapshot eleven_names)
     = calm_snapshot ''a'' # calm_snapshot ''b'' # map calm_snapshot (drop 2 eleven_names)"
  "fst (removeBackupSnapshot calm_io (sd_path (calm_snapshot ''b'')) (eleven_backups 14)) = Inr ()"
  "fst (SyncDirectory calm_io ''/srv/.wdm-backups''
     (snd (removeBackupSnapshot calm_io (sd_path (calm_snapshot ''b'')) (eleven_backups 14)))) = Inr ()"
  "backupRoot ''/srv'' = ''/srv/.wdm-backups''" "normalizePinnedSnapshotName ''/srv/.wdm-backups'' ''a'' = Inr ''a''"
  "length eleven_names = 11"
  by code_simp+

lemma eleven_collected:
  "collectBackupSnapshotDirectories calm_io ''/srv/.wdm-backups'' (eleven_backups 2)
     = (Inr (map calm_snapshot eleven_names), eleven_backups 14)"
proof -
  have "(eleven_backups 3)\<lparr>dk_calls := dk_calls (eleven_backups 3) + length eleven_names\<rparr> = eleven_backups 14"
    unfolding eleven_run(9) by (simp only: eleven_backups_def disk.simps) simp
  with calm_collect [of eleven_names "eleven_backups 3"] eleven_run(3)
  have "collect_snapshots calm_io ''/srv/.wdm-backups'' eleven_names (eleven_backups 3)
      = (Inr (map calm_snapshot eleven_names), eleven_backups 14)" by (simp only: list_all_iff)
  then show ?thesis unfolding collectBackupSnapshotDirectories_def bindD_def callD_def eleven_run(2) by simp
qed

lemma eleven_pruned: "\<exists>removed d'. PruneConfigBackups calm_io ''/srv'' ''a'' (eleven_backups 0) = ((removed, None), d') \<and> removed \<noteq> []"
proof -
  let ?p = "sd_path (calm_snapshot ''b'')"
  obtain d1 where rm: "removeBackupSnapshot calm_io ?p (eleven_backups 14) = (Inr (), d1)"
    using eleven_run(5) by (metis prod.collapse)
  then obtain d2 where sy: "SyncDirectory calm_io ''/srv/.wdm-backups'' d1 = (Inr (), d2)"
    using eleven_run(6) by (metis prod.collapse snd_conv)
  have "sd_name (calm_snapshot n) = n" for n by (simp add: calm_snapshot_def)
  then have lp: "prune_loop calm_io ''a'' 1 (oldest_first (map calm_snapshot eleven_names)) (eleven_backups 14) = (([?p], None, 0), d1)"
    unfolding eleven_run(4) using rm by (cases "map calm_snapshot (drop 2 eleven_names)") simp_all
  have one: "length (map calm_snapshot eleven_names) - BackupRetentionLimit = 1"
    "\<not> length (map calm_snapshot eleven_names) \<le> BackupRetentionLimit"
    by (simp_all add: eleven_run(9) BackupRetentionLimit_def)
  show ?thesis
    unfolding PruneConfigBackups_def eleven_run(7) eleven_run(1)
    by (simp add: eleven_run(8) eleven_collected one lp joinPruneBackupRootSyncError_def noteP_def sy del: length_map One_nat_def)
qed

definition two_files :: disk where
  "two_files = \<lparr>dk_tree = [(''/'', Dir 0x1ED), (''/srv'', Dir 0x1ED), (''/srv/.env'', File 0x180 ''A=1''),
     (''/srv/secrets.env'', File 0x180 ''K=2'')], dk_calls = 0, dk_unsynced = []\<rparr>"

theorem backup_complete_witness:
  "\<exists>snap d'. CreateConfigBackup calm_io ''/srv'' ''update'' [''secrets.env''] two_files = (Inr snap, d')
     \<and> node_at d' (path_join snap ''secrets.env'') = Some (File 0x180 ''K=2'')"
proof -
  have "\<exists>snap. fst (CreateConfigBackup calm_io ''/srv'' ''update'' [''secrets.env''] two_files) = Inr snap"
    by (rule exI [of _ "''/srv/.wdm-backups/8-update''"]) code_simp
  then obtain snap d' where c: "CreateConfigBackup calm_io ''/srv'' ''update'' [''secrets.env''] two_files = (Inr snap, d')"
    by (metis prod.collapse)
  have n: "is_abs ''/srv''" "path_clean ''/srv'' = ''/srv''" "normalizeBackupAdditionalPaths [''secrets.env''] = Inr [''secrets.env'']"
    and p: "path_join ''/srv'' ''secrets.env'' = ''/srv/secrets.env''"
    and there: "node_at two_files ''/srv/secrets.env'' = Some (File 0x180 ''K=2'')" by code_simp+
  from backup_complete [OF n(1,2) c n(3)] p there c show ?thesis by fastforce
qed

theorem prune_oldest_witness:
  "\<exists>removed d' snaps. PruneConfigBackups calm_io ''/srv'' ''a'' (eleven_backups 0) = ((removed, None), d')
     \<and> removed \<noteq> [] \<and> sorted_wrt older snaps \<and> removed = map sd_path (take (length snaps - 10) (unpinned ''a'' snaps))"
proof -
  obtain removed d' where p: "PruneConfigBackups calm_io ''/srv'' ''a'' (eleven_backups 0) = ((removed, None), d')" "removed \<noteq> []"
    using eleven_pruned by blast
  have n: "normalizePinnedSnapshotName (backupRoot ''/srv'') ''a'' = Inr ''a''" by code_simp
  from prune_oldest [OF p(1) n] p show ?thesis by (auto split: if_splits)
qed

end
