(* ===== verification/Config_Restore.thy ===== *)
theory Config_Restore
  imports Config_Backups
begin

text \<open>
  The restoration of a config snapshot (\<open>internal/state/backup_restore.go\<close>): which names a snapshot may hold, the
  walk over it, and the writes into the stack. A snapshot that holds anything else is refused as a whole.
\<close>

subsection \<open>Managed names\<close>

text \<open>\<open>filepath.Ext\<close>: from the last dot of the last element.\<close>

definition path_ext :: "string \<Rightarrow> string" where
  "path_ext p =
     (let ws = split_on (CHR ''.'') (last (split_on (CHR ''/'') p))
      in if length ws < 2 then [] else ''.'' @ last ws)"

definition data_components :: "string list" where
  "data_components = [''app'', ''app-data'', ''apps'', ''cache'', ''data'', ''database'', ''databases'', ''db'', ''file'',
     ''files'', ''log'', ''logs'', ''mariadb'', ''media'', ''mysql'', ''postgres'', ''postgresql'', ''redis'', ''storage'',
     ''upload'', ''uploads'', ''volume'', ''volumes'']"

definition hasConfigRestoreDataComponent :: "string \<Rightarrow> bool" where
  "hasConfigRestoreDataComponent relativePath \<longleftrightarrow>
     list_ex (\<lambda>component. to_lower component \<in> set data_components) (split_on (CHR ''/'') relativePath)"

definition isManagedConfigRestorePath :: "string \<Rightarrow> bool" where
  "isManagedConfigRestorePath relativePath =
     (if hasConfigRestoreDataComponent relativePath then False
      else let baseName = path_base relativePath
           in if relativePath \<in> set [''docker-compose.yml'', ''.env'', ''.env.user'', ''.wdm.lock'', ''Caddyfile'',
                   ''init-data.sh'', ''nginx.conf''] then True
              else if baseName \<in> set [''Caddyfile'', ''docker-compose.yml'', ''guidance.txt'', ''init-data.sh'', ''nginx.conf'']
                then True
              else path_ext baseName \<in> set [''.conf'', ''.json'', ''.sh'', ''.toml'', ''.yaml'', ''.yml''])"

definition validateConfigRestoreRelativePath :: "string \<Rightarrow> fs_error option" where
  "validateConfigRestoreRelativePath relativePath =
     (let cleaned = path_clean relativePath
      in if relativePath = [] \<or> cleaned = ''.'' \<or> cleaned = ''..'' \<or> is_abs relativePath \<or> has_prefix cleaned ''../''
         then Some (FsRefused ''entry must stay inside the snapshot'')
         else if cleaned = BackupDirName \<or> has_prefix cleaned (BackupDirName @ ''/'')
         then Some (FsRefused ''entry must not target .wdm-backups'') else None)"

subsection \<open>Checks before the walk\<close>

definition validateRestoreStackPath :: "io \<Rightarrow> string \<Rightarrow> unit prog" where
  "validateRestoreStackPath io stackPath =
     bindD (refuseD (stackPath = [] \<or> \<not> is_abs stackPath) (FsRefused ''stackPath must be absolute'')) (\<lambda>_.
     bindD (callD ''stating stackPath'' (os_Stat io stackPath)) (\<lambda>n.
       refuseD (\<not> dir_node n) (FsRefused ''stackPath is not a directory'')))"

definition validateRestoreBackupRoot :: "io \<Rightarrow> string \<Rightarrow> unit prog" where
  "validateRestoreBackupRoot io root =
     bindD (callD ''stating backup root'' (os_Lstat io root)) (\<lambda>n.
       refuseD (\<not> dir_node n) (FsRefused ''backup root is not a directory''))"

definition normalizeRestoreSnapshotName :: "string \<Rightarrow> string \<Rightarrow> fs_error + string" where
  "normalizeRestoreSnapshotName root snapshotPath =
     (if snapshotPath = [] then Inl (FsRefused ''snapshot must be non-empty'')
      else if contains snapshotPath ''./'' \<or> contains snapshotPath ''/..'' then
        Inl (FsRefused ''snapshot must not contain traversal components'')
      else if \<not> is_abs snapshotPath then
        (if contains snapshotPath ''/'' then Inl (FsRefused ''snapshot must be a direct snapshot basename'')
         else let normalized = path_clean snapshotPath
              in if normalized = ''.'' \<or> normalized = ''..'' \<or> normalized = []
                 then Inl (FsRefused ''snapshot must be a direct snapshot basename'') else Inr normalized)
      else let relativeToRoot = rel_abs root (path_clean snapshotPath)
           in if relativeToRoot = ''.'' \<or> relativeToRoot = ''..'' \<or> is_abs relativeToRoot \<or> has_prefix relativeToRoot ''../''
              then Inl (FsRefused ''snapshot must be inside backup root'')
              else let normalized = path_clean relativeToRoot
                   in if normalized = ''.'' \<or> normalized = ''..'' \<or> normalized = [] \<or> contains normalized ''/''
                      then Inl (FsRefused ''snapshot must resolve to a snapshot basename'') else Inr normalized)"

definition validateRestoreSnapshotDirectory :: "io \<Rightarrow> string \<Rightarrow> unit prog" where
  "validateRestoreSnapshotDirectory io snapshotDir =
     bindD (callD ''stating snapshot'' (os_Lstat io snapshotDir)) (\<lambda>n.
       refuseD (\<not> dir_node n) (FsRefused ''snapshot is not a directory''))"

subsection \<open>The walk\<close>

text \<open>
  \<open>filepath.WalkDir\<close> visits what is below a directory in lexical order, a directory before its entries; it does
  not follow symbolic links. Reading changes nothing, so the order is a function of the tree.
\<close>

definition entry_below :: "tree \<Rightarrow> string \<Rightarrow> string \<Rightarrow> (string list) option" where
  "entry_below t dir p =
     (let us = clean_abs dir; ws = drop (length us) (clean_abs p)
      in if p = abs_of (us @ ws) \<and> ws \<noteq> [] \<and> list_all plain_comp (us @ ws)
           \<and> list_all (\<lambda>k. case map_of t (abs_of (us @ take k ws)) of Some n \<Rightarrow> dir_node n | None \<Rightarrow> False) [0..<length ws]
         then Some ws else None)"

definition walk_order :: "tree \<Rightarrow> string \<Rightarrow> string list" where
  "walk_order t dir =
     map (\<lambda>ws. abs_of (clean_abs dir @ ws)) (sort (remdups (List.map_filter (\<lambda>(p, n). entry_below t dir p) t)))"

record restore_file =
  rf_relative_path :: string
  rf_source_path :: string
  rf_mode :: mode

text \<open>The callback on an entry; \<open>WalkDir\<close> then reads the entry's own list when it is a directory.\<close>

definition visit_entry :: "io \<Rightarrow> string \<Rightarrow> string \<Rightarrow> (restore_file option) prog" where
  "visit_entry io snapshotDir path =
     (let relativePath = rel_abs snapshotDir path
      in case validateConfigRestoreRelativePath relativePath of
           Some e \<Rightarrow> failD e
         | None \<Rightarrow>
             bindD (callD ''stating snapshot entry'' (os_Lstat io path)) (\<lambda>n.
               case n of
                 Link q \<Rightarrow> failD (FsRefused ''entry must not be a symlink'')
               | Dir m \<Rightarrow> bindD (callD ''walking snapshot'' (os_ReadDir io path)) (\<lambda>_. returnD None)
               | Special \<Rightarrow> failD (FsRefused ''entry must be a regular file'')
               | File m s \<Rightarrow>
                   (if \<not> isManagedConfigRestorePath (path_clean relativePath) then failD (FsRefused ''entry is not a managed config path'')
                    else returnD (Some \<lparr>rf_relative_path = path_clean relativePath, rf_source_path = path, rf_mode = m\<rparr>))))"

definition collectConfigRestoreFiles :: "io \<Rightarrow> string \<Rightarrow> (restore_file list) prog" where
  "collectConfigRestoreFiles io snapshotDir =
     bindD (callD ''walking snapshot'' (os_Lstat io snapshotDir)) (\<lambda>_.
     bindD (callD ''walking snapshot'' (os_ReadDir io snapshotDir)) (\<lambda>_.
     bindD (\<lambda>d. collect_each (visit_entry io snapshotDir) (walk_order (dk_tree d) snapshotDir) d) (\<lambda>files.
       returnD (sort_key rf_relative_path files))))"

subsection \<open>The restoration\<close>

definition validateRestoreDestinationAncestors :: "io \<Rightarrow> string \<Rightarrow> string \<Rightarrow> unit prog" where
  "validateRestoreDestinationAncestors io stackPath relativePath =
     (let parentPath = path_dir (path_clean relativePath)
      in if parentPath = ''.'' then returnD ()
         else check_components io stackPath (split_on (CHR ''/'') parentPath))"

definition restore_file_to :: "io \<Rightarrow> string \<Rightarrow> restore_file \<Rightarrow> unit prog" where
  "restore_file_to io stackPath f =
     bindD (validateRestoreDestinationAncestors io stackPath (rf_relative_path f)) (\<lambda>_.
     bindD (callD ''reading config restore source'' (os_ReadFile io (rf_source_path f))) (\<lambda>data.
       WriteFileAtomic io (path_join stackPath (rf_relative_path f)) data (rf_mode f)))"

definition RestoreConfigBackup :: "io \<Rightarrow> string \<Rightarrow> string \<Rightarrow> unit prog" where
  "RestoreConfigBackup io stackPath snapshotPath =
     bindD (validateRestoreStackPath io stackPath) (\<lambda>_.
     let root = backupRoot stackPath
     in bindD (validateRestoreBackupRoot io root) (\<lambda>_.
        case normalizeRestoreSnapshotName root snapshotPath of
          Inl e \<Rightarrow> failD e
        | Inr name \<Rightarrow>
            (let snapshotDir = path_join root name
             in bindD (validateRestoreSnapshotDirectory io snapshotDir) (\<lambda>_.
                bindD (collectConfigRestoreFiles io snapshotDir) (\<lambda>files.
                bindD (refuseD (files = []) (FsRefused ''snapshot has no config files'')) (\<lambda>_.
                  eachD (restore_file_to io stackPath) files))))))"

subsection \<open>Relative paths\<close>

lemma relative_join:
  assumes "list_all plain_comp ws" "ws \<noteq> []"
  shows "path_clean (join_with ''/'' ws) = join_with ''/'' ws" "\<not> is_abs (join_with ''/'' ws)"
    "join_with ''/'' ws \<noteq> []"
proof -
  have "hd ws \<noteq> []" "CHR ''/'' \<notin> set (hd ws)" using assms by (auto simp: list_all_iff plain_comp_def)
  then show *: "\<not> is_abs (join_with ''/'' ws)" "join_with ''/'' ws \<noteq> []"
    using assms(2) by (cases ws; cases "tl ws"; cases "hd ws"; auto simp: is_abs_iff)+
  have "clean_comps False [] (split_on (CHR ''/'') (join_with ''/'' ws)) = ws"
    using split_plain [OF assms] clean_comps_dotdots [OF assms(1), of 0 0] by simp
  with * show "path_clean (join_with ''/'' ws) = join_with ''/'' ws" by (simp add: path_clean_def)
qed

lemma rel_of_below:
  assumes "list_all plain_comp (us @ ws)" "ws \<noteq> []"
  shows "rel_abs (abs_of us) (abs_of (us @ ws)) = join_with ''/'' ws"
proof -
  have "list_all plain_comp us" using assms(1) by simp
  then show ?thesis using assms by (simp add: rel_abs_def abs_of_clean)
qed

text \<open>The name that is found for a snapshot of the stack is its own.\<close>

lemma restored_name:
  assumes "list_all plain_comp us" "plain_comp name" "normalizeRestoreSnapshotName (abs_of us) (abs_of (us @ [name])) = Inr n"
  shows "n = name"
proof -
  have plain: "list_all plain_comp (us @ [name])" using assms(1,2) by simp
  note s = abs_of_clean [OF plain]
  have one: "path_clean name = name" using relative_join [of "[name]"] assms(2) by simp
  have "rel_abs (abs_of us) (path_clean (abs_of (us @ [name]))) = name"
    using rel_of_below [OF plain] s(2) by simp
  with assms(3) s(1) one show ?thesis
    by (auto simp: normalizeRestoreSnapshotName_def Let_def split: if_splits)
qed

subsection \<open>What the walk visits\<close>

text \<open>What the components of a visited path satisfy: the directories above it are there.\<close>

definition in_dirs :: "tree \<Rightarrow> string list \<Rightarrow> string list \<Rightarrow> bool" where
  "in_dirs t us ws \<longleftrightarrow> ws \<noteq> [] \<and> list_all plain_comp ws
     \<and> (\<forall>k < length ws. \<exists>m. map_of t (abs_of (us @ take k ws)) = Some (Dir m))"

lemma entry_below_iff:
  assumes "list_all plain_comp us"
  shows "entry_below t (abs_of us) q = Some ws \<longleftrightarrow> q = abs_of (us @ ws) \<and> in_dirs t us ws"
proof -
  have dir: "(case x of Some n \<Rightarrow> dir_node n | None \<Rightarrow> False) \<longleftrightarrow> (\<exists>m. x = Some (Dir m))" for x
    by (auto split: option.splits elim: dir_node.elims)
  have upto: "list_all P [0..<n] \<longleftrightarrow> (\<forall>k < n. P k)" for P and n :: nat by (auto simp: list_all_iff)
  let ?vs = "drop (length us) (clean_abs q)"
  have E: "entry_below t (abs_of us) q = (if q = abs_of (us @ ?vs) \<and> in_dirs t us ?vs then Some ?vs else None)"
    unfolding entry_below_def Let_def abs_of_clean(3) [OF assms] dir upto in_dirs_def using assms by simp
  have V: "?vs = ws" if "q = abs_of (us @ ws)" "in_dirs t us ws"
    using that assms abs_of_clean [of "us @ ws"] by (simp add: in_dirs_def)
  show ?thesis
  proof (cases "?vs = ws")
    case True
    show ?thesis unfolding E True by simp
  next
    case False
    with E V show ?thesis by (metis option.inject option.distinct(1))
  qed
qed

lemma walk_order_iff:
  assumes "list_all plain_comp us"
  shows "p \<in> set (walk_order t (abs_of us)) \<longleftrightarrow> (\<exists>ws. p = abs_of (us @ ws) \<and> in_dirs t us ws \<and> map_of t p \<noteq> None)"
proof -
  have "set (List.map_filter (\<lambda>(p, n). entry_below t (abs_of us) p) t)
      = {ws. \<exists>q \<in> fst ` set t. entry_below t (abs_of us) q = Some ws}"
    by (force simp: List.map_filter_def)
  then have "p \<in> set (walk_order t (abs_of us)) \<longleftrightarrow> p \<in> (\<lambda>ws. abs_of (us @ ws)) ` {ws. \<exists>q \<in> fst ` set t. entry_below t (abs_of us) q = Some ws}"
    unfolding walk_order_def abs_of_clean(3) [OF assms] by simp
  also have "\<dots> \<longleftrightarrow> (\<exists>ws. p = abs_of (us @ ws) \<and> in_dirs t us ws \<and> p \<in> fst ` set t)"
    unfolding entry_below_iff [OF assms] by (simp add: image_iff conj_comms Bex_def) (metis (no_types))
  finally show ?thesis by (simp only: map_of_eq_None_iff not_not)
qed

lemma walk_order_distinct:
  assumes "list_all plain_comp us"
  shows "distinct (walk_order t (abs_of us))"
proof -
  let ?W = "set (List.map_filter (\<lambda>(p, n). entry_below t (abs_of us) p) t)"
  have W: "list_all plain_comp (us @ ws)" if "ws \<in> ?W" for ws
  proof -
    from that obtain q where "entry_below t (abs_of us) q = Some ws" by (force simp: List.map_filter_def)
    with entry_below_iff [OF assms] assms show ?thesis by (simp add: in_dirs_def)
  qed
  have "inj_on (\<lambda>ws. abs_of (us @ ws)) ?W"
  proof (rule inj_onI)
    fix ws vs
    assume "ws \<in> ?W" "vs \<in> ?W" "abs_of (us @ ws) = abs_of (us @ vs)"
    with abs_of_inject [OF W W] show "ws = vs" by blast
  qed
  then show ?thesis
    unfolding walk_order_def abs_of_clean(3) [OF assms] by (simp add: distinct_map)
qed

subsection \<open>What is collected\<close>

definition visited :: "disk \<Rightarrow> string \<Rightarrow> restore_file option \<Rightarrow> bool" where
  "visited d path c \<longleftrightarrow>
     (case c of
        None \<Rightarrow> \<exists>m. node_at d path = Some (Dir m)
      | Some f \<Rightarrow> rf_source_path f = path \<and> copied_path (rf_relative_path f) \<and> isManagedConfigRestorePath (rf_relative_path f)
          \<and> (\<exists>s. node_at d path = Some (File (rf_mode f) s)))"

lemma entry_valid:
  assumes "validateConfigRestoreRelativePath (join_with ''/'' ws) = None" "list_all plain_comp ws" "ws \<noteq> []"
  shows "hd ws \<noteq> BackupDirName"
proof
  assume h: "hd ws = BackupDirName"
  have bk: "CHR ''/'' \<notin> set BackupDirName" by (simp add: BackupDirName_def)
  have "tl ws \<noteq> []"
  proof
    assume "tl ws = []"
    with h assms(3) have "join_with ''/'' ws = BackupDirName" by (cases ws) auto
    with assms relative_join(1) [OF assms(2,3)] show False
      by (simp add: validateConfigRestoreRelativePath_def Let_def split: if_splits)
  qed
  with h prefix_split [OF assms(2,3) bk] have "has_prefix (join_with ''/'' ws) (BackupDirName @ ''/'')" by simp
  with assms relative_join(1) [OF assms(2,3)] show False
    by (simp add: validateConfigRestoreRelativePath_def Let_def split: if_splits)
qed

lemma visited_entry:
  assumes "visit_entry io (abs_of us) (abs_of (us @ ws)) d = (Inr c, d')" "list_all plain_comp (us @ ws)" "ws \<noteq> []"
  shows "visited d (abs_of (us @ ws)) c" "\<forall>f. c = Some f \<longrightarrow> rf_relative_path f = join_with ''/'' ws"
proof -
  let ?p = "abs_of (us @ ws)"
  have ws: "list_all plain_comp ws" using assms(2) by simp
  have rel: "rel_abs (abs_of us) ?p = join_with ''/'' ws" by (rule rel_of_below [OF assms(2,3)])
  note clean = relative_join(1) [OF ws assms(3)]
  from assms(1) have v: "validateConfigRestoreRelativePath (join_with ''/'' ws) = None"
    by (auto simp: visit_entry_def rel failD_def Let_def split: option.splits)
  have c: "copied_path (join_with ''/'' ws)"
    unfolding copied_path_def using ws assms(3) entry_valid [OF v ws assms(3)] by blast
  from assms(1) obtain n d1 where l: "os_Lstat io ?p d = (Inr n, d1)"
    and k: "(case n of Link q \<Rightarrow> failD (FsRefused ''entry must not be a symlink'')
       | Dir m \<Rightarrow> bindD (callD ''walking snapshot'' (os_ReadDir io ?p)) (\<lambda>_. returnD None)
       | Special \<Rightarrow> failD (FsRefused ''entry must be a regular file'')
       | File m s \<Rightarrow>
           (if \<not> isManagedConfigRestorePath (join_with ''/'' ws) then failD (FsRefused ''entry is not a managed config path'')
            else returnD (Some \<lparr>rf_relative_path = join_with ''/'' ws, rf_source_path = ?p, rf_mode = m\<rparr>))) d1 = (Inr c, d')"
    unfolding visit_entry_def Let_def rel v option.case clean bindD_Inr callD_Inr by blast
  from l have n: "node_at d ?p = Some n" by (auto simp: os_Lstat_def syscall_def look_def Let_def split: option.splits)
  show "visited d ?p c" "\<forall>f. c = Some f \<longrightarrow> rf_relative_path f = join_with ''/'' ws"
    using k n \<open>copied_path (join_with ''/'' ws)\<close>
    by (auto simp: visited_def failD_def returnD_def bindD_Inr split: node.splits if_splits)
qed

lemma keeps_visit [keeps_intros]: "keeps P (visit_entry io dir p)"
  unfolding visit_entry_def Let_def by (intro keeps_intros)

text \<open>The files that are collected are the files that are visited, each once.\<close>

definition collected_from :: "disk \<Rightarrow> string list \<Rightarrow> restore_file list \<Rightarrow> bool" where
  "collected_from d ps fs \<longleftrightarrow>
     (\<forall>p \<in> set ps. visited d p None \<or> (\<exists>f \<in> set fs. visited d p (Some f)))
     \<and> (\<forall>f \<in> set fs. visited d (rf_source_path f) (Some f) \<and> rf_source_path f \<in> set ps)
     \<and> distinct (map rf_source_path fs)"

lemma visited_same: "\<forall>q. node_at d' q = node_at d q \<Longrightarrow> visited d' p c \<longleftrightarrow> visited d p c"
  by (simp add: visited_def split: option.split)

lemma collected_walk:
  assumes "\<And>p d c d'. p \<in> S \<Longrightarrow> f p d = (Inr c, d') \<Longrightarrow> visited d p c" and "\<And>p. keeps (\<lambda>q. True) (f p)"
  shows "collect_each f ps d = (Inr fs, d') \<Longrightarrow> set ps \<subseteq> S \<Longrightarrow> distinct ps \<Longrightarrow> collected_from d ps fs"
proof (induction ps arbitrary: d fs)
  case Nil
  then show ?case by (simp add: returnD_def collected_from_def)
next
  case (Cons p ps)
  from Cons.prems(1) obtain c d1 fs' where c: "f p d = (Inr c, d1)" and r: "collect_each f ps d1 = (Inr fs', d')"
    and fs: "fs = (case c of None \<Rightarrow> fs' | Some x \<Rightarrow> x # fs')"
    by (auto simp: bindD_Inr returnD_def)
  have v: "visited d p c" using assms(1) c Cons.prems(2) by simp
  have same: "visited d1 q x \<longleftrightarrow> visited d q x" for q x
    using keepsD [OF assms(2) TrueI c] by (intro visited_same) blast
  have "collected_from d1 ps fs'" using Cons.IH [OF r] Cons.prems(2,3) by simp
  then have IH: "collected_from d ps fs'" by (simp add: collected_from_def same)
  show ?case
  proof (cases c)
    case None
    with IH v fs show ?thesis by (auto simp: collected_from_def)
  next
    case (Some x)
    with v have "rf_source_path x = p" by (simp add: visited_def)
    with IH v fs Some Cons.prems(3) show ?thesis by (auto simp: collected_from_def)
  qed
qed

lemma collected_relative:
  assumes "\<And>p d c d'. p \<in> S \<Longrightarrow> f p d = (Inr c, d') \<Longrightarrow> visited d p c \<and> (\<forall>x. c = Some x \<longrightarrow> rf_relative_path x = g p)"
    and "\<And>p. keeps (\<lambda>q. True) (f p)"
  shows "collect_each f ps d = (Inr fs, d') \<Longrightarrow> set ps \<subseteq> S \<Longrightarrow> \<forall>x \<in> set fs. rf_relative_path x = g (rf_source_path x)"
proof (induction ps arbitrary: d fs)
  case (Cons p ps)
  from Cons.prems(1) obtain c d1 fs' where c: "f p d = (Inr c, d1)" and r: "collect_each f ps d1 = (Inr fs', d')"
    and fs: "fs = (case c of None \<Rightarrow> fs' | Some x \<Rightarrow> x # fs')"
    by (auto simp: bindD_Inr returnD_def)
  from assms(1) [OF _ c] Cons.prems(2) Cons.IH [OF r] fs show ?case
    by (auto simp: visited_def split: option.splits)
qed (simp add: returnD_def)

lemma keeps_walk: "keeps (\<lambda>q. True) (\<lambda>d. collect_each (visit_entry io dir) (walk_order (dk_tree d) dir) d)"
proof -
  have "keeps (\<lambda>q. True) (collect_each (visit_entry io dir) ps)" for ps by (rule keeps_collect [OF keeps_visit])
  then show ?thesis unfolding keeps_def by simp
qed

lemma collected_files:
  assumes "collectConfigRestoreFiles io (abs_of us) d = (Inr fs, d')" "list_all plain_comp us"
  shows "collected_from d (walk_order (dk_tree d) (abs_of us)) fs"
    "\<forall>f \<in> set fs. rf_relative_path f = rel_abs (abs_of us) (rf_source_path f)"
proof -
  let ?S = "abs_of us"
  let ?W = "\<lambda>d. set (walk_order (dk_tree d) ?S)"
  let ?visited = "\<lambda>d p c. visited d p c \<and> (\<forall>f. c = Some f \<longrightarrow> rf_relative_path f = rel_abs ?S p)"
  from assms(1) obtain u d1 v d2 gs where l: "os_Lstat io ?S d = (Inr u, d1)" and rd: "os_ReadDir io ?S d1 = (Inr v, d2)"
    and c: "collect_each (visit_entry io ?S) (walk_order (dk_tree d2) ?S) d2 = (Inr gs, d')"
    and fs: "fs = sort_key rf_relative_path gs"
    by (auto simp: collectConfigRestoreFiles_def bindD_Inr callD_Inr returnD_def)
  have same: "\<forall>q. node_at d2 q = node_at d q"
    using keepsD [OF keeps_reads(1) TrueI l] keepsD [OF keeps_reads(4) TrueI rd] by simp
  have tree: "dk_tree d2 = dk_tree d"
    using l rd by (auto simp: os_Lstat_def os_ReadDir_def syscall_def look_def Let_def split: option.splits node.splits)
  have W: "?visited d' p c" if "p \<in> ?W d2" "visit_entry io ?S p d' = (Inr c, d'')" for p d' c d''
  proof -
    from that(1) walk_order_iff [OF assms(2)] obtain ws where ws: "p = abs_of (us @ ws)" "in_dirs (dk_tree d2) us ws" by blast
    then have plain: "list_all plain_comp (us @ ws)" "ws \<noteq> []" using assms(2) by (auto simp: in_dirs_def)
    from visited_entry [OF that(2) [unfolded ws(1)] plain] rel_of_below [OF plain] ws(1) show ?thesis by simp
  qed
  have "collected_from d2 (walk_order (dk_tree d2) ?S) gs"
    by (rule collected_walk [OF _ keeps_visit c subset_refl walk_order_distinct [OF assms(2)]]) (use W in blast)
  then show "collected_from d (walk_order (dk_tree d) ?S) fs"
    unfolding tree fs using visited_same [OF same]
    by (auto simp: collected_from_def distinct_map)
  have "\<forall>f \<in> set gs. rf_relative_path f = rel_abs ?S (rf_source_path f)"
    by (rule collected_relative [OF _ keeps_visit c subset_refl]) (use W in blast)
  then show "\<forall>f \<in> set fs. rf_relative_path f = rel_abs ?S (rf_source_path f)" by (simp add: fs)
qed

subsection \<open>What is restored\<close>

abbreviation destination :: "string \<Rightarrow> restore_file \<Rightarrow> string" where
  "destination stack f \<equiv> path_join stack (rf_relative_path f)"

lemma destination_inject:
  assumes "is_abs stack" "path_clean stack = stack" "copied_path p" "copied_path q" "path_join stack p = path_join stack q"
  shows "p = q"
proof -
  obtain ws vs where ws: "p = join_with ''/'' ws" "list_all plain_comp ws" "ws \<noteq> []"
    and vs: "q = join_with ''/'' vs" "list_all plain_comp vs" "vs \<noteq> []"
    using assms(3,4) unfolding copied_path_def by blast
  have "abs_of (clean_abs stack @ ws) = abs_of (clean_abs stack @ vs)"
    using join_plain [OF assms(1,2) ws(2,3)] join_plain [OF assms(1,2) vs(2,3)] ws(1) vs(1) assms(5) by simp
  then show ?thesis using abs_of_inject [of "clean_abs stack @ ws" "clean_abs stack @ vs"] clean_abs_plain ws vs by simp
qed

text \<open>A path that cannot be written to: something on the way to it, below the stack, is there and not a directory.\<close>

definition blocked :: "disk \<Rightarrow> string \<Rightarrow> string \<Rightarrow> bool" where
  "blocked d stack p \<longleftrightarrow> (\<exists>us vs n. us \<noteq> [] \<and> vs \<noteq> [] \<and> list_all plain_comp (us @ vs) \<and> p = join_with ''/'' (us @ vs)
     \<and> node_at d (path_join stack (join_with ''/'' us)) = Some n \<and> \<not> dir_node n
     \<and> (\<forall>ps qs. us = ps @ qs \<and> ps \<noteq> [] \<longrightarrow> node_at d (path_join stack (join_with ''/'' ps)) \<noteq> None))"

definition inside :: "string \<Rightarrow> string \<Rightarrow> bool" where
  "inside p q \<longleftrightarrow> (\<exists>us vs. us \<noteq> [] \<and> vs \<noteq> [] \<and> list_all plain_comp (us @ vs) \<and> p = join_with ''/'' us \<and> q = join_with ''/'' (us @ vs))"

lemma dir_of_relative:
  assumes "list_all plain_comp (ws @ [w])"
  shows "path_dir (join_with ''/'' (ws @ [w])) = (if ws = [] then ''.'' else join_with ''/'' ws)"
proof -
  from assms have w: "CHR ''/'' \<notin> set w" and ws: "list_all plain_comp ws" by (auto simp: plain_comp_def)
  let ?s = "if ws = [] then [] else join_with ''/'' ws @ ''/''"
  have eq: "join_with ''/'' (ws @ [w]) = ?s @ w" by (simp add: join_with_snoc)
  have drop: "dropWhile (\<lambda>c. c \<noteq> CHR ''/'') (rev w @ CHR ''/'' # r) = CHR ''/'' # r" for r
    using w by (subst dropWhile_append2) auto
  have "dropWhile (\<lambda>c. c \<noteq> CHR ''/'') (rev w) = []" using w by (auto simp: dropWhile_eq_Nil_conv)
  then have cut: "rev (dropWhile (\<lambda>c. c \<noteq> CHR ''/'') (rev (?s @ w))) = ?s"
    using drop by (cases "ws = []") simp_all
  have "path_clean ?s = (if ws = [] then ''.'' else join_with ''/'' ws)"
  proof (cases "ws = []")
    case True
    then show ?thesis by (simp add: path_clean_def is_abs_def Let_def)
  next
    case False
    have "\<forall>w \<in> set ws. CHR ''/'' \<notin> set w" using ws by (auto simp: list_all_iff plain_comp_def)
    with False have j: "split_on (CHR ''/'') (join_with ''/'' ws) = ws" using split_join by blast
    have "clean_comps False out (ws @ [[]]) = rev out @ ws" for out
      using ws by (induction ws arbitrary: out) (auto simp: plain_comp_def)
    then have "clean_comps False [] (split_on (CHR ''/'') (join_with ''/'' ws @ ''/'')) = ws"
      using j split_on_append_sep [of "CHR ''/''" "join_with ''/'' ws" "[]"] by simp
    with False relative_join(2,3) [OF ws False] show ?thesis
      by (simp add: path_clean_def is_abs_iff) (auto simp: neq_Nil_conv)
  qed
  with cut show ?thesis unfolding path_dir_def eq by simp
qed

lemma components_passed:
  "check_components io (abs_of base) cs d = (Inr u, d') \<Longrightarrow> list_all plain_comp (base @ cs) \<Longrightarrow> us \<noteq> [] \<Longrightarrow> cs = us @ vs
    \<Longrightarrow> node_at d (abs_of (base @ us)) = Some n \<Longrightarrow> \<forall>ps qs. us = ps @ qs \<and> ps \<noteq> [] \<longrightarrow> node_at d (abs_of (base @ ps)) \<noteq> None
    \<Longrightarrow> dir_node n"
proof (induction cs arbitrary: base d us)
  case (Cons c cs)
  then obtain us' where us: "us = c # us'" "cs = us' @ vs" by (cases us) auto
  have plain: "list_all plain_comp base" "plain_comp c" using Cons.prems(2) by simp_all
  have cur: "path_join (abs_of base) c = abs_of (base @ [c])"
    using join_plain [OF abs_of_clean(1,2) [OF plain(1)], of "[c]"] abs_of_clean(3) [OF plain(1)] plain(2) by simp
  from Cons.prems(6) us have "node_at d (abs_of (base @ [c])) \<noteq> None" by (metis append_Cons append_Nil list.distinct(1))
  then obtain x where x: "node_at d (abs_of (base @ [c])) = Some x" by blast
  obtain y d1 where l: "os_Lstat io (abs_of (base @ [c])) d = (y, d1)" by fastforce
  have same: "node_at d1 q = node_at d q" for q using keepsD [OF keeps_reads(1) TrueI l] .
  from Cons.prems(1) plain(2) cur l x obtain m where m: "x = Dir m" and rest: "check_components io (abs_of (base @ [c])) cs d1 = (Inr u, d')"
    by (auto simp: plain_comp_def Let_def tryD_def failD_def os_Lstat_def call_on_def look_def
        split: option.splits node.splits sum.splits if_splits)
  show ?case
  proof (cases "us' = []")
    case True
    with us m x Cons.prems(5) show ?thesis by auto
  next
    case False
    have "\<forall>ps qs. us' = ps @ qs \<and> ps \<noteq> [] \<longrightarrow> node_at d1 (abs_of ((base @ [c]) @ ps)) \<noteq> None"
    proof (intro allI impI)
      fix ps qs assume "us' = ps @ qs \<and> ps \<noteq> []"
      with us(1) have "us = (c # ps) @ qs \<and> c # ps \<noteq> []" by simp
      with Cons.prems(6) have "node_at d (abs_of (base @ c # ps)) \<noteq> None" by blast
      with same show "node_at d1 (abs_of ((base @ [c]) @ ps)) \<noteq> None" by simp
    qed
    from Cons.IH [OF rest _ False us(2) _ this] Cons.prems(2,5) us(1) same show ?thesis by simp
  qed
qed simp

lemma ancestors_open:
  assumes "is_abs stack" "path_clean stack = stack" "copied_path p"
    and "validateRestoreDestinationAncestors io stack p d = (Inr u, d')"
  shows "\<not> blocked d stack p"
proof
  assume "blocked d stack p"
  then obtain us vs n where b: "us \<noteq> []" "vs \<noteq> []" "list_all plain_comp (us @ vs)" "p = join_with ''/'' (us @ vs)"
    "node_at d (path_join stack (join_with ''/'' us)) = Some n" "\<not> dir_node n"
    "\<forall>ps qs. us = ps @ qs \<and> ps \<noteq> [] \<longrightarrow> node_at d (path_join stack (join_with ''/'' ps)) \<noteq> None"
    unfolding blocked_def by blast
  let ?base = "clean_abs stack"
  obtain ws v where vs: "vs = ws @ [v]" using b(2) by (metis rev_exhaust)
  have stack: "stack = abs_of ?base" using clean_path [OF assms(1,2)] .
  have plain: "list_all plain_comp ((us @ ws) @ [v])" using b(3) vs by simp
  have "path_clean p = p" using relative_join(1) [OF plain] b(4) vs by simp
  moreover have "path_dir p = join_with ''/'' (us @ ws)" using dir_of_relative [OF plain] b(1,4) vs by simp
  moreover have split: "split_on (CHR ''/'') (join_with ''/'' (us @ ws)) = us @ ws" using split_plain [of "us @ ws"] plain b(1) by simp
  moreover have "join_with ''/'' (us @ ws) \<noteq> ''.''"
  proof
    assume "join_with ''/'' (us @ ws) = ''.''"
    with split have "us @ ws = [''.'']" by simp
    with plain show False by (cases us) (auto simp: plain_comp_def)
  qed
  ultimately have check: "check_components io (abs_of ?base) (us @ ws) d = (Inr u, d')"
    using assms(4) stack by (simp add: validateRestoreDestinationAncestors_def Let_def)
  have path: "path_join stack (join_with ''/'' ps) = abs_of (?base @ ps)" if "us = ps @ qs" "ps \<noteq> []" for ps qs
    using join_plain [OF assms(1,2), of ps] b(3) that by simp
  have "dir_node n"
    by (rule components_passed [OF check _ b(1) refl]) (use b path plain clean_abs_plain [of stack] in auto)
  with b(6) show False ..
qed

lemma blocked_kept:
  assumes "is_abs stack" "path_clean stack = stack" "copied_path f" "copied_path g" "\<not> inside f g" "blocked d stack g"
    and "\<And>q. node_at d q \<noteq> None \<Longrightarrow> q \<noteq> path_join stack f \<Longrightarrow> node_at d1 q = node_at d q"
  shows "blocked d1 stack g"
proof -
  from assms(6) obtain us vs n where b: "us \<noteq> []" "vs \<noteq> []" "list_all plain_comp (us @ vs)" "g = join_with ''/'' (us @ vs)"
    "node_at d (path_join stack (join_with ''/'' us)) = Some n" "\<not> dir_node n"
    "\<forall>ps qs. us = ps @ qs \<and> ps \<noteq> [] \<longrightarrow> node_at d (path_join stack (join_with ''/'' ps)) \<noteq> None"
    unfolding blocked_def by blast
  obtain ws where ws: "g = join_with ''/'' ws" "list_all plain_comp ws" "ws \<noteq> []" "hd ws \<noteq> BackupDirName"
    using assms(4) unfolding copied_path_def by blast
  have "us @ vs = ws" using split_plain [of "us @ vs"] split_plain [of ws] b(1,3,4) ws by simp
  with ws(4) b(1) have hd: "hd us \<noteq> BackupDirName" by auto
  have kept: "node_at d1 (path_join stack (join_with ''/'' ps)) = node_at d (path_join stack (join_with ''/'' ps))"
    if ps: "us = ps @ qs" "ps \<noteq> []" for ps qs
  proof (rule assms(7))
    show "node_at d (path_join stack (join_with ''/'' ps)) \<noteq> None" using b(7) ps by blast
    have plain: "list_all plain_comp ps" "list_all plain_comp (ps @ qs @ vs)" using b(3) ps(1) by simp_all
    moreover have "hd ps \<noteq> BackupDirName" using hd ps by auto
    ultimately have "copied_path (join_with ''/'' ps)" using ps(2) unfolding copied_path_def by blast
    moreover have "inside (join_with ''/'' ps) g"
      unfolding inside_def using plain(2) ps b(2,4) by (intro exI [of _ ps] exI [of _ "qs @ vs"]) simp
    ultimately show "path_join stack (join_with ''/'' ps) \<noteq> path_join stack f"
      using destination_inject [OF assms(1,2) _ assms(3)] assms(5) by metis
  qed
  with b show ?thesis unfolding blocked_def by (metis append_Nil2)
qed

text \<open>
  A change is a destination that holds what the snapshot holds, the temporary file beside it, or a directory that was
  missing; and it is on a way without obstacles.
\<close>

definition ready :: "disk \<Rightarrow> string \<Rightarrow> restore_file \<Rightarrow> bool" where
  "ready d stack f \<longleftrightarrow> copied_path (rf_relative_path f) \<and> at_or_below (backupRoot stack) (rf_source_path f)
     \<and> (\<exists>s. node_at d (rf_source_path f) = Some (File (rf_mode f) s))"

definition changed :: "disk \<Rightarrow> string \<Rightarrow> restore_file list \<Rightarrow> disk \<Rightarrow> string \<Rightarrow> bool" where
  "changed d stack fs d' q \<longleftrightarrow>
     (\<exists>f \<in> set fs. \<not> blocked d stack (rf_relative_path f)
        \<and> (q = destination stack f \<and> node_at d' q = node_at d (rf_source_path f) \<or> q = tempPath (destination stack f)))
     \<or> (node_at d q = None \<and> (\<exists>k. node_at d' q = Some (Dir k)))"

lemma restored_one:
  assumes "is_abs stack" "path_clean stack = stack" "ready d stack f" "restore_file_to io stack f d = (r, d')"
  shows "node_at d' q = node_at d q \<or> changed d stack [f] d' q"
    and "r = Inr u \<Longrightarrow> \<not> blocked d stack (rf_relative_path f)"
    and "r = Inr u \<Longrightarrow> node_at d p \<noteq> None \<Longrightarrow> p \<noteq> destination stack f \<Longrightarrow> node_at d' p = node_at d p"
proof -
  let ?src = "rf_source_path f"
  from assms(3) obtain s where cp: "copied_path (rf_relative_path f)" and s: "node_at d ?src = Some (File (rf_mode f) s)"
    unfolding ready_def by blast
  note path = copied_outside(3,4,2) [OF assms(1,2) cp]
  obtain r1 d1 where a: "validateRestoreDestinationAncestors io stack (rf_relative_path f) d = (r1, d1)" by fastforce
  have "keeps (\<lambda>q. True) (validateRestoreDestinationAncestors io stack (rf_relative_path f))"
    unfolding validateRestoreDestinationAncestors_def Let_def by (intro keeps_intros)
  from keepsD [OF this TrueI a] have d1: "node_at d1 q = node_at d q" for q .
  obtain r2 d2 where rd: "os_ReadFile io ?src d1 = (r2, d2)" by fastforce
  have d2: "node_at d2 q = node_at d q" for q using keepsD [OF keeps_reads(3) TrueI rd] d1 by simp
  have data: "x = s" if "r2 = Inr x" for x
    using rd that s d1 [of ?src] by (auto simp: os_ReadFile_def syscall_def look_def followed_def Let_def split: option.splits)
  consider (early) e where "r = Inl e" "d' = d1 \<or> d' = d2"
    | (written) u where "r1 = Inr u" "WriteFileAtomic io (destination stack f) s (rf_mode f) d2 = (r, d')"
    using assms(4) a rd data by (auto simp: restore_file_to_def bindD_def callD_def split: prod.splits sum.splits)
  then have "(node_at d' q = node_at d q \<or> changed d stack [f] d' q) \<and> (r = Inr u \<longrightarrow> \<not> blocked d stack (rf_relative_path f))
    \<and> (r = Inr u \<longrightarrow> node_at d p \<noteq> None \<longrightarrow> p \<noteq> destination stack f \<longrightarrow> node_at d' p = node_at d p)" for u
  proof cases
    case early
    with d1 d2 show ?thesis by auto
  next
    case written
    note free = ancestors_open [OF assms(1,2) cp a [unfolded written(1)]]
    note w = write_outcome [OF path written(2)]
    have "node_at d' q = node_at d q \<or> changed d stack [f] d' q"
    proof (cases "q = destination stack f \<or> q = tempPath (destination stack f)")
      case True
      with w(1) free s d2 show ?thesis by (auto simp: changed_def whole_or_old_def)
    next
      case False
      with w(3) [of q] d2 show ?thesis by (auto simp: changed_def)
    qed
    moreover have "node_at d' p = node_at d p" if "r = Inr u" "node_at d p \<noteq> None" "p \<noteq> destination stack f" for u
      using write_keeps_present [OF path _ that(3)] written(2) that(1,2) d2 by simp
    ultimately show ?thesis using free by blast
  qed
  then show "node_at d' q = node_at d q \<or> changed d stack [f] d' q"
    "r = Inr u \<Longrightarrow> \<not> blocked d stack (rf_relative_path f)"
    "r = Inr u \<Longrightarrow> node_at d p \<noteq> None \<Longrightarrow> p \<noteq> destination stack f \<Longrightarrow> node_at d' p = node_at d p" by blast+
qed

lemma ready_apart:
  assumes "is_abs stack" "path_clean stack = stack" "ready d stack f" "ready d' stack g"
  shows "rf_source_path f \<noteq> destination stack g"
  using copied_outside(1) [OF assms(1,2), of "rf_relative_path g"] assms(3,4) unfolding ready_def by metis

lemma restored_frame:
  assumes "is_abs stack" "path_clean stack = stack"
  shows "\<forall>f \<in> set fs. ready d stack f \<Longrightarrow> \<forall>f \<in> set fs. \<forall>g \<in> set fs. \<not> inside (rf_relative_path f) (rf_relative_path g)
    \<Longrightarrow> eachD (restore_file_to io stack) fs d = (r, d')
    \<Longrightarrow> (r = Inr () \<longrightarrow> (\<forall>f \<in> set fs. \<not> blocked d stack (rf_relative_path f))) \<and> (node_at d' q = node_at d q \<or> changed d stack fs d' q)"
proof (induction fs arbitrary: d)
  case Nil
  then show ?case by (simp add: returnD_def)
next
  case (Cons f fs)
  obtain r1 d1 where one: "restore_file_to io stack f d = (r1, d1)" by fastforce
  have f: "ready d stack f" and fs: "ready d stack x" if "x \<in> set fs" for x using Cons.prems(1) that by auto
  have f: "ready d stack f" using Cons.prems(1) by simp
  note o1 = restored_one [OF assms f one]
  show ?case
  proof (cases r1)
    case (Inl e)
    with Cons.prems(3) one o1(1) [of q] show ?thesis by (auto simp: bindD_def changed_def)
  next
    case (Inr u)
    with Cons.prems(3) one have rest: "eachD (restore_file_to io stack) fs d1 = (r, d')" by (simp add: bindD_def)
    note kept = o1(3) [OF Inr]
    have src: "node_at d1 (rf_source_path x) = node_at d (rf_source_path x)" if "x \<in> set fs" for x
      using kept [of "rf_source_path x"] ready_apart [OF assms fs [OF that] f] fs [OF that] by (auto simp: ready_def)
    have "\<forall>x \<in> set fs. ready d1 stack x" using fs src by (auto simp: ready_def)
    from Cons.IH [OF this _ rest] Cons.prems(2)
    have IH: "r = Inr () \<longrightarrow> (\<forall>x \<in> set fs. \<not> blocked d1 stack (rf_relative_path x))"
      "node_at d' q = node_at d1 q \<or> changed d1 stack fs d' q" by auto
    have open1: "\<not> blocked d stack (rf_relative_path x)" if x: "x \<in> set fs" "\<not> blocked d1 stack (rf_relative_path x)" for x
    proof
      assume b: "blocked d stack (rf_relative_path x)"
      have "copied_path (rf_relative_path f)" "copied_path (rf_relative_path x)" using f fs [OF x(1)] by (simp_all add: ready_def)
      moreover have "\<not> inside (rf_relative_path f) (rf_relative_path x)" using Cons.prems(2) x(1) by simp
      ultimately have "blocked d1 stack (rf_relative_path x)" using blocked_kept [OF assms _ _ _ b kept] by blast
      with x(2) show False ..
    qed
    have "changed d stack (f # fs) d' q \<or> node_at d' q = node_at d q"
      using IH(2)
    proof
      assume "node_at d' q = node_at d1 q"
      with o1(1) [of q] show ?thesis by (auto simp: changed_def)
    next
      assume "changed d1 stack fs d' q"
      then consider x where "x \<in> set fs" "\<not> blocked d1 stack (rf_relative_path x)"
          "q = destination stack x \<and> node_at d' q = node_at d1 (rf_source_path x) \<or> q = tempPath (destination stack x)"
        | k where "node_at d1 q = None" "node_at d' q = Some (Dir k)" unfolding changed_def by blast
      then show ?thesis
      proof cases
        case 1
        with open1 src show ?thesis unfolding changed_def by (metis list.set_intros(2))
      next
        case 2
        with o1(1) [of q] f show ?thesis by (auto simp: changed_def ready_def)
      qed
    qed
    with IH(1) open1 o1(2) [OF Inr] show ?thesis by auto
  qed
qed

lemma restored:
  assumes "is_abs stack" "path_clean stack = stack"
  shows "eachD (restore_file_to io stack) fs d = (Inr (), d') \<Longrightarrow> distinct (map rf_relative_path fs)
    \<Longrightarrow> \<forall>f \<in> set fs. copied_path (rf_relative_path f) \<and> at_or_below (backupRoot stack) (rf_source_path f)
          \<and> (\<exists>s. node_at d (rf_source_path f) = Some (File (rf_mode f) s))
    \<Longrightarrow> (\<forall>f \<in> set fs. node_at d' (destination stack f) = node_at d (rf_source_path f))
      \<and> (\<forall>q. node_at d q \<noteq> None \<and> (\<forall>f \<in> set fs. q \<noteq> destination stack f) \<longrightarrow> node_at d' q = node_at d q)"
proof (induction fs arbitrary: d)
  case Nil
  then show ?case by (simp add: returnD_def)
next
  case (Cons f fs)
  let ?t = "destination stack f" and ?src = "rf_source_path f"
  have cp: "copied_path (rf_relative_path x)" if "x \<in> set (f # fs)" for x using Cons.prems(3) that by blast
  note path = copied_outside(3,4,2) [OF assms cp [of f, simplified]]
  have apart: "rf_source_path x \<noteq> destination stack y" if "x \<in> set (f # fs)" "y \<in> set (f # fs)" for x y
    using copied_outside(1) [OF assms cp [OF that(2)]] Cons.prems(3) that(1) by metis
  from Cons.prems(1) obtain u d1 where one: "restore_file_to io stack f d = (Inr u, d1)"
    and rest: "eachD (restore_file_to io stack) fs d1 = (Inr (), d')" by (auto simp: bindD_Inr)
  from one obtain v d0 data d2 where a: "validateRestoreDestinationAncestors io stack (rf_relative_path f) d = (Inr v, d0)"
    and rd: "os_ReadFile io ?src d0 = (Inr data, d2)" and wr: "WriteFileAtomic io ?t data (rf_mode f) d2 = (Inr (), d1)"
    by (auto simp: restore_file_to_def bindD_Inr callD_Inr)
  have "keeps (\<lambda>q. True) (validateRestoreDestinationAncestors io stack (rf_relative_path f))"
    unfolding validateRestoreDestinationAncestors_def Let_def by (intro keeps_intros)
  from keepsD [OF this TrueI a] have d0: "node_at d0 q = node_at d q" for q .
  have d2: "node_at d2 q = node_at d q" for q using keepsD [OF keeps_reads(3) TrueI rd] d0 by simp
  obtain s where s: "node_at d ?src = Some (File (rf_mode f) s)" using Cons.prems(3) by auto
  with rd d0 [of ?src] have "data = s"
    by (auto simp: os_ReadFile_def syscall_def look_def followed_def Let_def split: option.splits)
  with write_outcome(2) [OF path wr refl] s have here: "node_at d1 ?t = node_at d ?src" by simp
  have present: "node_at d1 q = node_at d q" if "node_at d q \<noteq> None" "q \<noteq> ?t" for q
    using write_keeps_present [OF path wr, of q] that d2 by simp
  have "\<forall>x \<in> set fs. copied_path (rf_relative_path x) \<and> at_or_below (backupRoot stack) (rf_source_path x)
      \<and> (\<exists>s. node_at d1 (rf_source_path x) = Some (File (rf_mode x) s))"
  proof
    fix x
    assume x: "x \<in> set fs"
    then have "rf_source_path x \<noteq> ?t" using apart by simp
    with Cons.prems(3) x present [of "rf_source_path x"] show "copied_path (rf_relative_path x)
        \<and> at_or_below (backupRoot stack) (rf_source_path x) \<and> (\<exists>s. node_at d1 (rf_source_path x) = Some (File (rf_mode x) s))"
      by auto
  qed
  from Cons.IH [OF rest _ this] Cons.prems(2)
  have IH: "\<forall>x \<in> set fs. node_at d' (destination stack x) = node_at d1 (rf_source_path x)"
    "\<And>q. node_at d1 q \<noteq> None \<Longrightarrow> (\<forall>x \<in> set fs. q \<noteq> destination stack x) \<Longrightarrow> node_at d' q = node_at d1 q" by auto
  have other: "?t \<noteq> destination stack x" if "x \<in> set fs" for x
    using destination_inject [OF assms cp cp, of f x] that Cons.prems(2) by force
  have "node_at d' ?t = node_at d ?src" using IH(2) [of ?t] other here s by auto
  moreover have "node_at d' (destination stack x) = node_at d (rf_source_path x)" if "x \<in> set fs" for x
    using IH(1) that present [of "rf_source_path x"] apart [of x f] Cons.prems(3) by auto
  moreover have "node_at d' q = node_at d q" if "node_at d q \<noteq> None" "\<forall>x \<in> set (f # fs). q \<noteq> destination stack x" for q
    using IH(2) [of q] present [of q] that by auto
  ultimately show ?case by auto
qed

lemma bindD_assoc: "bindD (bindD m f) g = bindD m (\<lambda>x. bindD (f x) g)"
  by (simp add: bindD_def fun_eq_iff split: sum.splits prod.splits)

lemma normalized_plain: "normalizeRestoreSnapshotName root s = Inr n \<Longrightarrow> plain_comp n"
proof -
  assume n: "normalizeRestoreSnapshotName root s = Inr n"
  have free: "CHR ''/'' \<notin> set x" if "\<not> contains x ''/''" for x
    using that by (auto simp: contains_iff in_set_conv_decomp)
  show "plain_comp n"
  proof (cases "is_abs s")
    case True
    with n have "n \<noteq> ''.''" "n \<noteq> ''..''" "n \<noteq> []" "\<not> contains n ''/''"
      by (auto simp: normalizeRestoreSnapshotName_def Let_def split: if_splits)
    with free show ?thesis by (simp add: plain_comp_def)
  next
    case False
    with n have s: "s \<noteq> []" "\<not> contains s ''/''" "n = path_clean s" "n \<noteq> ''.''" "n \<noteq> ''..''" "n \<noteq> []"
      by (auto simp: normalizeRestoreSnapshotName_def Let_def split: if_splits)
    have "path_clean s \<in> {''.'', ''..'', s}"
      using split_on_free [OF free [OF s(2)]] False by (auto simp: path_clean_def Let_def)
    with s free have "n = s" by auto
    with s free show ?thesis by (simp add: plain_comp_def)
  qed
qed

text \<open>An entry of a snapshot that a restoration accepts.\<close>

definition restorable :: "disk \<Rightarrow> string \<Rightarrow> string \<Rightarrow> bool" where
  "restorable d snapshotDir p \<longleftrightarrow>
     (case node_at d p of
        Some (Dir m) \<Rightarrow> True
      | Some (File m s) \<Rightarrow> isManagedConfigRestorePath (rel_abs snapshotDir p)
      | _ \<Rightarrow> False)"

abbreviation restored_to :: "string \<Rightarrow> string \<Rightarrow> string \<Rightarrow> string" where
  "restored_to stack snapshotDir p \<equiv> path_join stack (rel_abs snapshotDir p)"

lemma restore_outcome:
  assumes "is_abs stack" "path_clean stack = stack"
    and "RestoreConfigBackup io stack snapshot d = (r, d')"
    and "normalizeRestoreSnapshotName (backupRoot stack) snapshot = Inr name"
    and "dir = path_join (backupRoot stack) name" "entries = set (walk_order (dk_tree d) dir)"
  shows "((\<exists>p \<in> entries. \<not> restorable d dir p) \<longrightarrow> (\<exists>e. r = Inl e) \<and> (\<forall>q. node_at d' q = node_at d q))
    \<and> (r = Inr () \<longrightarrow> (\<forall>p \<in> entries. \<forall>m s. node_at d p = Some (File m s) \<longrightarrow>
         node_at d' (restored_to stack dir p) = Some (File m s) \<and> \<not> blocked d stack (rel_abs dir p)))
    \<and> (\<forall>q. node_at d' q = node_at d q
         \<or> (\<exists>p \<in> entries. \<not> blocked d stack (rel_abs dir p)
              \<and> (q = restored_to stack dir p \<and> node_at d' q = node_at d p \<or> q = tempPath (restored_to stack dir p)))
         \<or> (node_at d q = None \<and> (\<exists>k. node_at d' q = Some (Dir k))))"
proof -
  let ?root = "backupRoot stack"
  let ?us = "clean_abs stack @ [BackupDirName] @ [name]"
  have bk: "plain_comp BackupDirName" by (simp add: plain_comp_def BackupDirName_def)
  note name = normalized_plain [OF assms(4)]
  have root: "?root = abs_of (clean_abs stack @ [BackupDirName])"
    using join_plain [OF assms(1,2), of "[BackupDirName]"] bk by (simp add: backupRoot_def)
  have plain: "list_all plain_comp (clean_abs stack @ [BackupDirName])" "list_all plain_comp ?us"
    using clean_abs_plain [of stack] bk name by simp_all
  have dir: "dir = abs_of ?us"
    using join_plain [OF abs_of_clean(1,2) [OF plain(1)], of "[name]"] abs_of_clean(3) [OF plain(1)] name assms(5) root by simp
  let ?pre = "bindD (validateRestoreStackPath io stack) (\<lambda>_. bindD (validateRestoreBackupRoot io ?root) (\<lambda>_.
      validateRestoreSnapshotDirectory io dir))"
  let ?tail = "\<lambda>files. bindD (refuseD (files = []) (FsRefused ''snapshot has no config files'')) (\<lambda>_.
      eachD (restore_file_to io stack) files)"
  have run: "bindD ?pre (\<lambda>_. bindD (collectConfigRestoreFiles io dir) ?tail) d = (r, d')"
    using assms(3,4,5) by (simp add: RestoreConfigBackup_def Let_def bindD_assoc)
  obtain rp dp where p: "?pre d = (rp, dp)" by fastforce
  have "keeps (\<lambda>q. True) ?pre"
    unfolding validateRestoreStackPath_def validateRestoreBackupRoot_def validateRestoreSnapshotDirectory_def
    by (intro keeps_intros)
  from keepsD [OF this TrueI p] have dp: "\<forall>q. node_at dp q = node_at d q" by blast
  have W: "set (walk_order (dk_tree dp) dir) = entries"
    unfolding assms(6) dir using dp walk_order_iff [OF plain(2)] by (auto simp: in_dirs_def)
  obtain rc dc where c: "collectConfigRestoreFiles io dir dp = (rc, dc)" by fastforce
  have "keeps (\<lambda>q. True) (collectConfigRestoreFiles io dir)"
    unfolding collectConfigRestoreFiles_def by (intro keeps_intros keeps_walk)
  from keepsD [OF this TrueI c] dp have dc: "node_at dc q = node_at d q" for q by simp
  consider (failed) e where "r = Inl e" "d' = dp \<or> d' = dc" | (through) fs where "rc = Inr fs" "?tail fs dc = (r, d')"
    using run p c by (cases rp; cases rc) (auto simp: bindD_def)
  then show ?thesis
  proof cases
    case failed
    then have "\<forall>q. node_at d' q = node_at d q" using dp dc by metis
    with failed(1) show ?thesis by simp
  next
    case (through fs)
    from collected_files [OF c [unfolded through(1) dir] plain(2)] W dir
    have cf: "collected_from dp (walk_order (dk_tree dp) dir) fs"
      and rel: "\<forall>f \<in> set fs. rf_relative_path f = rel_abs dir (rf_source_path f)" by auto
    have vis: "visited dp p x \<longleftrightarrow> visited d p x" for p x using visited_same [OF dp] .
    from cf W have all: "\<forall>p \<in> entries. visited d p None \<or> (\<exists>f \<in> set fs. visited d p (Some f))"
      and src: "\<forall>f \<in> set fs. visited d (rf_source_path f) (Some f) \<and> rf_source_path f \<in> entries"
      and dist: "distinct (map rf_source_path fs)" by (auto simp: collected_from_def vis)
    have ok: "\<forall>p \<in> entries. restorable d dir p"
      using all rel by (fastforce simp: visited_def restorable_def)
    have dest: "destination stack f = restored_to stack dir (rf_source_path f)" if "f \<in> set fs" for f using rel that by simp
    have cp: "\<forall>f \<in> set fs. copied_path (rf_relative_path f)" using src by (auto simp: visited_def)
    have loop: "(\<exists>e. r = Inl e) \<and> d' = dc \<or> eachD (restore_file_to io stack) fs dc = (r, d')"
      using through(2) by (auto simp: bindD_def refuseD_def failD_def returnD_def split: if_splits)
    have comps: "\<exists>ws. p = abs_of (?us @ ws) \<and> list_all plain_comp ws \<and> ws \<noteq> []" if "p \<in> entries" for p
      using that walk_order_iff [OF plain(2)] unfolding assms(6) dir by (auto simp: in_dirs_def)
    have relp: "rel_abs dir (abs_of (?us @ ws)) = join_with ''/'' ws" if "list_all plain_comp ws" "ws \<noteq> []" for ws
      using rel_of_below [of ?us ws] plain(2) that dir by simp
    have "inj_on (rel_abs dir) entries"
    proof (rule inj_onI)
      fix p q
      assume "p \<in> entries" "q \<in> entries" "rel_abs dir p = rel_abs dir q"
      with comps relp split_plain show "p = q" by metis
    qed
    then have "inj_on (rel_abs dir) (rf_source_path ` set fs)" using src by (auto intro: inj_on_subset)
    then have "distinct (map (rel_abs dir) (map rf_source_path fs))" using dist by (simp only: distinct_map set_map)
    moreover have "map (rel_abs dir) (map rf_source_path fs) = map rf_relative_path fs" using rel by simp
    ultimately have dr: "distinct (map rf_relative_path fs)" by (simp only:)
    have below: "at_or_below ?root p" if "p \<in> entries" for p
    proof -
      from comps [OF that] obtain ws where "p = abs_of ((clean_abs stack @ [BackupDirName]) @ [name] @ ws)" by auto
      with below_abs_of [of "clean_abs stack @ [BackupDirName]" "[name] @ ws"] root show ?thesis
        by (simp add: at_or_below_def below_def)
    qed
    have ready: "\<forall>f \<in> set fs. ready dc stack f"
      using src dc below by (auto simp: visited_def ready_def)
    have apart: "\<not> inside (rf_relative_path f) (rf_relative_path g)" if fg: "f \<in> set fs" "g \<in> set fs" for f g
    proof
      assume "inside (rf_relative_path f) (rf_relative_path g)"
      then obtain us vs where i: "us \<noteq> []" "vs \<noteq> []" "list_all plain_comp (us @ vs)" "rf_relative_path f = join_with ''/'' us"
        "rf_relative_path g = join_with ''/'' (us @ vs)" unfolding inside_def by blast
      have fe: "rf_source_path f \<in> entries" and ge: "rf_source_path g \<in> entries" using src fg by auto
      from comps [OF fe] obtain wf where wf: "rf_source_path f = abs_of (?us @ wf)" "list_all plain_comp wf" "wf \<noteq> []" by blast
      from ge obtain wg where wg: "rf_source_path g = abs_of (?us @ wg)" "in_dirs (dk_tree d) ?us wg"
        unfolding assms(6) dir walk_order_iff [OF plain(2)] by blast
      then have wg': "list_all plain_comp wg" "wg \<noteq> []" by (simp_all add: in_dirs_def)
      have us: "list_all plain_comp us" "us @ vs \<noteq> []" using i(1,3) by simp_all
      have "rf_relative_path f = join_with ''/'' wf" using bspec [OF rel fg(1)] relp [OF wf(2,3)] wf(1) by (simp only:)
      then have "join_with ''/'' wf = join_with ''/'' us" using i(4) by simp
      then have f: "wf = us" using split_plain [OF wf(2,3)] split_plain [OF us(1) i(1)] by metis
      have "rf_relative_path g = join_with ''/'' wg" using bspec [OF rel fg(2)] relp [OF wg'] wg(1) by (simp only:)
      then have "join_with ''/'' wg = join_with ''/'' (us @ vs)" using i(5) by simp
      then have g: "wg = us @ vs" using split_plain [OF wg'] split_plain [OF i(3) us(2)] by metis
      have "length us < length wg" "take (length us) wg = us" using i(2) g by simp_all
      with wg(2) have "\<exists>m. node_at d (abs_of (?us @ us)) = Some (Dir m)" unfolding in_dirs_def by (metis (no_types))
      then have "\<exists>m. node_at d (rf_source_path f) = Some (Dir m)" by (simp only: wf(1) f)
      moreover have "\<exists>s. node_at d (rf_source_path f) = Some (File (rf_mode f) s)" using src fg(1) by (auto simp: visited_def)
      ultimately show False by auto
    qed
    have blk: "blocked dc stack p \<longleftrightarrow> blocked d stack p" for p by (simp add: blocked_def dc)
    have guard: "(r = Inr () \<longrightarrow> (\<forall>f \<in> set fs. \<not> blocked d stack (rf_relative_path f))) \<and> (node_at d' q = node_at d q \<or> changed d stack fs d' q)" for q
    proof -
      have "eachD (restore_file_to io stack) fs dc = (r, d') \<Longrightarrow> ?thesis"
        using restored_frame [OF assms(1,2) ready, of io r d' q] apart blk dc by (simp add: changed_def)
      with loop dc show ?thesis by auto
    qed
    have frame: "node_at d' q = node_at d q
         \<or> (\<exists>p \<in> entries. \<not> blocked d stack (rel_abs dir p)
              \<and> (q = restored_to stack dir p \<and> node_at d' q = node_at d p \<or> q = tempPath (restored_to stack dir p)))
         \<or> (node_at d q = None \<and> (\<exists>k. node_at d' q = Some (Dir k)))" for q
    proof -
      have "changed d stack fs d' q \<Longrightarrow> ?thesis"
      proof -
        assume "changed d stack fs d' q"
        then consider f where "f \<in> set fs" "\<not> blocked d stack (rf_relative_path f)"
            "q = destination stack f \<and> node_at d' q = node_at d (rf_source_path f) \<or> q = tempPath (destination stack f)"
          | k where "node_at d q = None" "node_at d' q = Some (Dir k)" unfolding changed_def by blast
        then show ?thesis
        proof cases
          case 1
          with src rel dest [OF 1(1)] show ?thesis by (intro disjI2 disjI1 bexI [of _ "rf_source_path f"]) auto
        qed blast
      qed
      with guard [of q] show ?thesis by blast
    qed
    have "node_at d' (restored_to stack dir p) = Some (File m s) \<and> \<not> blocked d stack (rel_abs dir p)"
      if r: "r = Inr ()" and p: "p \<in> entries" "node_at d p = Some (File m s)" for p m s
    proof -
      from all p obtain f where f: "f \<in> set fs" "visited d p (Some f)" by (fastforce simp: visited_def)
      then have "rf_source_path f = p" by (simp add: visited_def)
      moreover have "node_at d' (destination stack f) = node_at dc (rf_source_path f)"
        using restored [OF assms(1,2) _ dr] ready loop r f(1) by (auto simp: ready_def)
      moreover have "\<not> blocked d stack (rf_relative_path f)" using guard r f(1) by blast
      ultimately show ?thesis using dest [OF f(1)] dc p(2) rel f(1) by simp
    qed
    then have complete: "r = Inr () \<longrightarrow> (\<forall>p \<in> entries. \<forall>m s. node_at d p = Some (File m s) \<longrightarrow>
         node_at d' (restored_to stack dir p) = Some (File m s) \<and> \<not> blocked d stack (rel_abs dir p))" by (intro impI ballI allI)
    have refused: "(\<exists>p \<in> entries. \<not> restorable d dir p) \<longrightarrow> (\<exists>e. r = Inl e) \<and> (\<forall>q. node_at d' q = node_at d q)"
      using ok by blast
    show ?thesis by (rule conjI [OF refused conjI [OF complete allI [OF frame]]])
  qed
qed

subsection \<open>Backup and restoration\<close>

lemma restore_refused_name:
  assumes "normalizeRestoreSnapshotName (backupRoot stack) snapshot = Inl e" "RestoreConfigBackup io stack snapshot d = (r, d')"
  shows "(\<exists>e. r = Inl e) \<and> (\<forall>q. node_at d' q = node_at d q)"
proof -
  let ?pre = "bindD (validateRestoreStackPath io stack) (\<lambda>_. bindD (validateRestoreBackupRoot io (backupRoot stack)) (\<lambda>_. failD e))"
  have "keeps (\<lambda>q. True) ?pre"
    unfolding validateRestoreStackPath_def validateRestoreBackupRoot_def by (intro keeps_intros)
  moreover have run: "?pre d = (r, d')" using assms by (simp add: RestoreConfigBackup_def Let_def)
  ultimately have "\<forall>q. node_at d' q = node_at d q" by (blast dest: keepsD)
  moreover have "\<exists>e. r = Inl e" using run by (cases r) (auto simp: bindD_Inr failD_def)
  ultimately show ?thesis by blast
qed

text \<open>A top-level file of a snapshot is visited, under its own name.\<close>

lemma snapshot_entry:
  assumes "is_abs stack" "path_clean stack = stack" "copied_path p" "CHR ''/'' \<notin> set p"
    and "validateBackupOperation operation = None" "snap = path_join (backupRoot stack) (snapshotName n operation)"
    and "node_at d snap = Some (Dir k)" "node_at d (path_join snap p) \<noteq> None"
  shows "path_join snap p \<in> set (walk_order (dk_tree d) snap)" "rel_abs snap (path_join snap p) = p"
    "at_or_below snap (path_join snap p)" "at_or_below snap snap"
    "normalizeRestoreSnapshotName (backupRoot stack) snap = Inr name \<Longrightarrow> path_join (backupRoot stack) name = snap"
proof -
  let ?us = "clean_abs stack @ [BackupDirName]" and ?n = "snapshotName n operation"
  have bk: "plain_comp BackupDirName" by (simp add: plain_comp_def BackupDirName_def)
  note nm = snapshot_name_plain [OF assms(5), of n]
  have root: "backupRoot stack = abs_of ?us"
    using join_plain [OF assms(1,2), of "[BackupDirName]"] bk by (simp add: backupRoot_def)
  have plain: "list_all plain_comp ?us" "list_all plain_comp (?us @ [?n])" using clean_abs_plain [of stack] bk nm by simp_all
  note u = abs_of_clean [OF plain(1)] and v = abs_of_clean [OF plain(2)]
  have snap: "snap = abs_of (?us @ [?n])"
    using join_plain [OF u(1,2), of "[?n]"] u(3) nm assms(6) root by simp
  obtain ws where ws: "p = join_with ''/'' ws" "list_all plain_comp ws" "ws \<noteq> []"
    using assms(3) unfolding copied_path_def by blast
  have "ws = [p]" using split_plain [OF ws(2,3)] split_on_free [OF assms(4)] ws(1) by simp
  with ws have p: "plain_comp p" by (metis list.pred_inject(2))
  have path: "path_join snap p = abs_of ((?us @ [?n]) @ [p])"
    using join_plain [OF v(1,2), of "[p]"] v(3) p snap by simp
  have "in_dirs (dk_tree d) (?us @ [?n]) [p]" using p assms(7) snap by (simp add: in_dirs_def)
  with assms(8) path show "path_join snap p \<in> set (walk_order (dk_tree d) snap)"
    unfolding walk_order_iff [OF plain(2), folded snap] by blast
  show "rel_abs snap (path_join snap p) = p"
    using rel_of_below [of "?us @ [?n]" "[p]"] plain(2) p path snap by simp
  show "at_or_below snap (path_join snap p)" "at_or_below snap snap"
    using below_abs_of [of "?us @ [?n]" "[p]"] path snap by (simp_all add: at_or_below_def below_def)
  show "path_join (backupRoot stack) name = snap" if "normalizeRestoreSnapshotName (backupRoot stack) snap = Inr name"
    using restored_name [OF plain(1) nm, of name] that root snap assms(6) by simp
qed

text \<open>
  C38: a restoration writes what the snapshot holds, where the stack allows it, and nothing else. Whatever calls fail,
  a snapshot with an entry that is not a directory or a managed regular file is refused before anything is written, and
  nothing is changed; when \<open>RestoreConfigBackup\<close> returns no error, every file below the snapshot is in the
  stack at its relative path with its bytes and mode. A restoration that fails later may have restored some of the
  files: at every moment a path that differs from what it was is the destination of a file and holds all of it, or
  is the temporary file beside one, or is a directory that was missing. No file is written, and no restoration succeeds, where
  something on the way from the stack to the destination is there and is no directory, such as a symbolic link that leads out of the stack.
\<close>

theorem restore_exact:
  assumes "is_abs stack" "path_clean stack = stack"
    and "RestoreConfigBackup io stack snapshot d = (r, d')"
    and "normalizeRestoreSnapshotName (backupRoot stack) snapshot = Inr name"
    and "dir = path_join (backupRoot stack) name" "entries = set (walk_order (dk_tree d) dir)"
  shows "((\<exists>p \<in> entries. \<not> restorable d dir p) \<longrightarrow> (\<exists>e. r = Inl e) \<and> (\<forall>q. node_at d' q = node_at d q))
    \<and> (r = Inr () \<longrightarrow> (\<forall>p \<in> entries. \<forall>m s. node_at d p = Some (File m s) \<longrightarrow>
         node_at d' (restored_to stack dir p) = Some (File m s) \<and> \<not> blocked d stack (rel_abs dir p)))
    \<and> (\<forall>q. node_at d' q = node_at d q
         \<or> (\<exists>p \<in> entries. \<not> blocked d stack (rel_abs dir p)
              \<and> (q = restored_to stack dir p \<and> node_at d' q = node_at d p \<or> q = tempPath (restored_to stack dir p)))
         \<or> (node_at d q = None \<and> (\<exists>k. node_at d' q = Some (Dir k))))"
  by (rule restore_outcome [OF assms])

text \<open>
  C39: a backup that is restored gives the configuration back. After a snapshot was taken the stack and the
  other snapshots may be changed at will, only the snapshot itself stays as it is; if the snapshot then is restored without an error, every configuration file and every additional file
  in the stack directory itself that was there when the snapshot was taken is there again, with its bytes and its mode.
\<close>

theorem backup_restore_roundtrip:
  assumes "is_abs stack" "path_clean stack = stack"
    and "CreateConfigBackup io stack operation additional d = (Inr snap, d1)"
    and "normalizeBackupAdditionalPaths additional = Inr extra"
    and "\<forall>q. at_or_below snap q \<longrightarrow> node_at d2 q = node_at d1 q"
    and "RestoreConfigBackup io' stack snap d2 = (Inr (), d3)"
    and "p \<in> set standardPaths \<union> set extra" "CHR ''/'' \<notin> set p" "node_at d (path_join stack p) = Some n"
  shows "node_at d3 (path_join stack p) = Some n"
proof -
  have cp: "copied_path p" using assms(7) standard_copied additional_copied [OF assms(4)] by blast
  from snapshot_outcome [OF assms(1-4)] assms(7,9) obtain k m s nn where op: "validateBackupOperation operation = None"
    and snap: "snap = path_join (backupRoot stack) (snapshotName nn operation)" "node_at d1 snap = Some (Dir k)"
    and n: "n = File m s" "node_at d1 (path_join snap p) = Some (File m s)" by fastforce
  have "node_at d1 (path_join snap p) \<noteq> None" using n(2) by simp
  note e1 = snapshot_entry(3,4) [OF assms(1,2) cp assms(8) op snap this]
  have d2: "node_at d2 snap = Some (Dir k)" "node_at d2 (path_join snap p) = Some (File m s)"
    using e1 assms(5) snap(2) n(2) by auto
  have "node_at d2 (path_join snap p) \<noteq> None" using d2(2) by simp
  note e2 = snapshot_entry(1,2,5) [OF assms(1,2) cp assms(8) op snap(1) d2(1) this]
  obtain name where name: "normalizeRestoreSnapshotName (backupRoot stack) snap = Inr name"
    using restore_refused_name [OF _ assms(6)] by (cases "normalizeRestoreSnapshotName (backupRoot stack) snap") blast+
  from restore_outcome [OF assms(1,2,6) name e2(3) [OF name, symmetric] refl] e2(1,2) d2(2) n(1) show ?thesis by fastforce
qed

text \<open>
  C40: some backups can never be restored. When a file in the stack directory itself that is asked for by an additional path is there
  and its name is not on the list of managed names (as \<open>secrets.env\<close>, an artifact of the stable catalog), a
  snapshot that was created without an error cannot be restored: as long as the snapshot itself is not touched, every
  restoration of it fails and restores nothing, whatever the stack and the other snapshots look like by then. That such a snapshot
  is created without an error is shown by the witness, for \<open>secrets.env\<close>.
\<close>

theorem backup_not_restorable:
  assumes "is_abs stack" "path_clean stack = stack"
    and "CreateConfigBackup io stack operation additional d = (Inr snap, d1)"
    and "normalizeBackupAdditionalPaths additional = Inr extra"
    and "\<forall>q. at_or_below snap q \<longrightarrow> node_at d2 q = node_at d1 q"
    and "RestoreConfigBackup io' stack snap d2 = (r, d3)"
    and "p \<in> set extra" "CHR ''/'' \<notin> set p" "node_at d (path_join stack p) \<noteq> None" "\<not> isManagedConfigRestorePath p"
  shows "(\<exists>e. r = Inl e) \<and> (\<forall>q. node_at d3 q = node_at d2 q)"
proof (cases "normalizeRestoreSnapshotName (backupRoot stack) snap")
  case (Inl e)
  from restore_refused_name [OF this assms(6)] show ?thesis .
next
  case (Inr name)
  have cp: "copied_path p" using additional_copied [OF assms(4,7)] .
  from snapshot_outcome [OF assms(1-4)] assms(7,9) obtain k m s nn where op: "validateBackupOperation operation = None"
    and snap: "snap = path_join (backupRoot stack) (snapshotName nn operation)" "node_at d1 snap = Some (Dir k)"
    and n: "node_at d1 (path_join snap p) = Some (File m s)" by fastforce
  have "node_at d1 (path_join snap p) \<noteq> None" using n by simp
  note e1 = snapshot_entry(3,4) [OF assms(1,2) cp assms(8) op snap this]
  have d2: "node_at d2 snap = Some (Dir k)" "node_at d2 (path_join snap p) = Some (File m s)"
    using e1 assms(5) snap(2) n by auto
  have "node_at d2 (path_join snap p) \<noteq> None" using d2(2) by simp
  note e2 = snapshot_entry(1,2,5) [OF assms(1,2) cp assms(8) op snap(1) d2(1) this]
  have "\<not> restorable d2 snap (path_join snap p)" using d2(2) e2(2) assms(10) by (simp add: restorable_def)
  with restore_outcome [OF assms(1,2,6) Inr e2(3) [OF Inr, symmetric] refl] e2(1) show ?thesis by blast
qed

text \<open>A snapshot of one file, taken and restored.\<close>

definition one_backup :: disk where
  "one_backup = snd (CreateConfigBackup calm_io ''/srv'' ''update'' [] demo_disk)"

lemma one_backup_taken: "CreateConfigBackup calm_io ''/srv'' ''update'' [] demo_disk = (Inr ''/srv/.wdm-backups/8-update'', one_backup)"
proof -
  have "fst (CreateConfigBackup calm_io ''/srv'' ''update'' [] demo_disk) = Inr ''/srv/.wdm-backups/8-update''" by code_simp
  then show ?thesis unfolding one_backup_def by (metis prod.collapse)
qed

definition env_lost :: disk where
  "env_lost = one_backup\<lparr>dk_tree := AList.delete ''/srv/.env'' (dk_tree one_backup)\<rparr>"

definition env_back :: "(fs_error + unit) \<times> disk" where
  "env_back = RestoreConfigBackup calm_io ''/srv'' ''/srv/.wdm-backups/8-update'' env_lost"

lemma env_paths:
  "is_abs ''/srv''" "path_clean ''/srv'' = ''/srv''" "backupRoot ''/srv'' = ''/srv/.wdm-backups''"
  "path_join ''/srv'' ''.env'' = ''/srv/.env''" "path_join ''/srv/.wdm-backups'' ''8-update'' = ''/srv/.wdm-backups/8-update''"
  "normalizeRestoreSnapshotName ''/srv/.wdm-backups'' ''/srv/.wdm-backups/8-update'' = Inr ''8-update''"
  "rel_abs ''/srv/.wdm-backups/8-update'' ''/srv/.wdm-backups/8-update/.env'' = ''.env''"
  "normalizeBackupAdditionalPaths [] = Inr []" "node_at demo_disk ''/srv/.env'' = Some (File 0x180 ''A=1'')"
  "\<not> at_or_below ''/srv/.wdm-backups/8-update'' ''/srv/.env''"
  by code_simp+

lemma env_restored:
  "RestoreConfigBackup calm_io ''/srv'' ''/srv/.wdm-backups/8-update'' env_lost = (Inr (), snd env_back)"
  "node_at env_lost ''/srv/.env'' = None"
  "''/srv/.wdm-backups/8-update/.env'' \<in> set (walk_order (dk_tree env_lost) ''/srv/.wdm-backups/8-update'')"
  "node_at env_lost ''/srv/.wdm-backups/8-update/.env'' = Some (File 0x180 ''A=1'')"
proof -
  have "fst env_back = Inr ()" by code_simp
  then show "RestoreConfigBackup calm_io ''/srv'' ''/srv/.wdm-backups/8-update'' env_lost = (Inr (), snd env_back)"
    unfolding env_back_def by (metis prod.collapse)
  show "node_at env_lost ''/srv/.env'' = None" by (simp add: env_lost_def delete_conv)
  show "''/srv/.wdm-backups/8-update/.env'' \<in> set (walk_order (dk_tree env_lost) ''/srv/.wdm-backups/8-update'')" by code_simp
  show "node_at env_lost ''/srv/.wdm-backups/8-update/.env'' = Some (File 0x180 ''A=1'')" by code_simp
qed

theorem restore_exact_witness:
  "\<exists>d'. RestoreConfigBackup calm_io ''/srv'' ''/srv/.wdm-backups/8-update'' env_lost = (Inr (), d')
     \<and> node_at env_lost ''/srv/.env'' = None \<and> node_at d' ''/srv/.env'' = Some (File 0x180 ''A=1'')"
proof -
  let ?dir = "''/srv/.wdm-backups/8-update''"
  have n: "normalizeRestoreSnapshotName (backupRoot ''/srv'') ?dir = Inr ''8-update''" "?dir = path_join (backupRoot ''/srv'') ''8-update''"
    by (simp_all only: env_paths)
  from restore_exact [OF env_paths(1,2) env_restored(1) n refl]
  have "\<forall>p \<in> set (walk_order (dk_tree env_lost) ?dir). \<forall>m s. node_at env_lost p = Some (File m s)
      \<longrightarrow> node_at (snd env_back) (restored_to ''/srv'' ?dir p) = Some (File m s) \<and> \<not> blocked env_lost ''/srv'' (rel_abs ?dir p)"
    by (elim conjE) (rule mp, assumption, rule refl)
  from bspec [OF this env_restored(3)] env_restored(4) have "node_at (snd env_back) ''/srv/.env'' = Some (File 0x180 ''A=1'')"
    by (simp only: env_paths)
  with env_restored(1,2) show ?thesis by blast
qed

theorem backup_restore_roundtrip_witness:
  "node_at env_lost ''/srv/.env'' = None \<and> node_at (snd env_back) ''/srv/.env'' = Some (File 0x180 ''A=1'')"
proof -
  have kept: "\<forall>q. at_or_below ''/srv/.wdm-backups/8-update'' q \<longrightarrow> node_at env_lost q = node_at one_backup q"
    using env_paths(10) by (auto simp: env_lost_def delete_conv)
  have "''.env'' \<in> set standardPaths \<union> set []" "CHR ''/'' \<notin> set ''.env''" by (simp_all add: standardPaths_def)
  from backup_restore_roundtrip [OF env_paths(1,2) one_backup_taken env_paths(8) kept env_restored(1) this]
  show ?thesis using env_restored(2) env_paths(4,9) by simp
qed

theorem backup_not_restorable_witness:
  "\<exists>snap d1 e d2. CreateConfigBackup calm_io ''/srv'' ''update'' [''secrets.env''] two_files = (Inr snap, d1)
     \<and> RestoreConfigBackup calm_io ''/srv'' snap d1 = (Inl e, d2) \<and> (\<forall>q. node_at d2 q = node_at d1 q)"
proof -
  have "\<exists>snap. fst (CreateConfigBackup calm_io ''/srv'' ''update'' [''secrets.env''] two_files) = Inr snap"
    by (rule exI [of _ "''/srv/.wdm-backups/8-update''"]) code_simp
  then obtain snap d1 where c: "CreateConfigBackup calm_io ''/srv'' ''update'' [''secrets.env''] two_files = (Inr snap, d1)"
    by (metis prod.collapse)
  have n: "normalizeBackupAdditionalPaths [''secrets.env''] = Inr [''secrets.env'']" "\<not> isManagedConfigRestorePath ''secrets.env''"
    "node_at two_files (path_join ''/srv'' ''secrets.env'') = Some (File 0x180 ''K=2'')" by code_simp+
  obtain r d2 where r: "RestoreConfigBackup calm_io ''/srv'' snap d1 = (r, d2)" by fastforce
  have "''secrets.env'' \<in> set [''secrets.env'']" "CHR ''/'' \<notin> set ''secrets.env''"
    "node_at two_files (path_join ''/srv'' ''secrets.env'') \<noteq> None" using n(3) by simp_all
  from backup_not_restorable [OF env_paths(1,2) c n(1) _ r this n(2)] c r show ?thesis by blast
qed

end
