(* ===== verification/Backup_List.thy ===== *)
theory Backup_List
  imports Config_Restore
begin

text \<open>
  The list of the config snapshots of a stack (\<open>internal/state/backup_list.go\<close>): a read-only view, newest first, that
  skips what is not a snapshot. A creation time is a number of nanoseconds.
\<close>

record backup_snapshot =
  bs_id :: string
  bs_operation :: string
  bs_created_at :: int
  bs_path :: string
  bs_files :: "string list"

definition parseSnapshotName :: "string \<Rightarrow> (int \<times> string) option" where
  "parseSnapshotName name =
     (case cut (CHR ''-'') name of
        (nanosField, operationField, found) \<Rightarrow>
          (if \<not> found \<or> nanosField = [] \<or> operationField = [] then None
           else case atoi nanosField of
                  None \<Rightarrow> None
                | Some nanos \<Rightarrow>
                    (if nanos < 0 \<or> \<not> backupOperationRegex operationField then None else Some (nanos, operationField))))"

text \<open>The types of the entries come with the list.\<close>

definition regular_in :: "tree \<Rightarrow> string \<Rightarrow> string \<Rightarrow> bool" where
  "regular_in t dir n = (case map_of t (dir @ ''/'' @ n) of Some (File m s) \<Rightarrow> True | _ \<Rightarrow> False)"

definition listSnapshotFiles :: "io \<Rightarrow> string \<Rightarrow> (string list) prog" where
  "listSnapshotFiles io snapshotDir =
     tryD (os_ReadDir io snapshotDir) (\<lambda>r d.
       case r of
         Inl e \<Rightarrow> (if e = NotExist then returnD [] else failD (FsOs ''reading snapshot directory'' e)) d
       | Inr names \<Rightarrow> returnD (sort (filter (regular_in (dk_tree d) snapshotDir) names)) d)"

definition collectListSnapshot :: "io \<Rightarrow> string \<Rightarrow> string \<Rightarrow> (backup_snapshot option) prog" where
  "collectListSnapshot io root name =
     (let entryPath = path_join root name
      in tryD (os_Lstat io entryPath) (\<lambda>r.
           case r of
             Inl e \<Rightarrow> (if e = NotExist then returnD None else failD (FsOs ''stating backup entry'' e))
           | Inr n \<Rightarrow>
               (if \<not> dir_node n then returnD None
                else case parseSnapshotName name of
                       None \<Rightarrow> returnD None
                     | Some (createdAt, operation) \<Rightarrow>
                         bindD (listSnapshotFiles io entryPath) (\<lambda>files.
                           returnD (Some \<lparr>bs_id = name, bs_operation = operation, bs_created_at = createdAt,
                             bs_path = entryPath, bs_files = files\<rparr>)))))"

text \<open>Descending by creation time, then by name: two stable sorts, reversed.\<close>

definition sortConfigBackupSnapshotsNewestFirst :: "backup_snapshot list \<Rightarrow> backup_snapshot list" where
  "sortConfigBackupSnapshotsNewestFirst ss = rev (sort_key bs_created_at (sort_key bs_id ss))"

definition ListConfigBackups :: "io \<Rightarrow> string \<Rightarrow> (backup_snapshot list) prog" where
  "ListConfigBackups io stackPath =
     bindD (validateBackupStackPath io stackPath) (\<lambda>_.
     tryD (os_Lstat io (backupRoot stackPath)) (\<lambda>r.
       case r of
         Inl e \<Rightarrow> (if e = NotExist then returnD [] else failD (FsOs ''stating backup root'' e))
       | Inr n \<Rightarrow>
           bindD (refuseD (\<not> dir_node n) (FsRefused ''backup root is not a directory'')) (\<lambda>_.
           bindD (callD ''reading backup root'' (os_ReadDir io (backupRoot stackPath))) (\<lambda>names.
           bindD (collect_each (collectListSnapshot io (backupRoot stackPath)) names) (\<lambda>ss.
             returnD (sortConfigBackupSnapshotsNewestFirst ss))))))"

subsection \<open>What is listed\<close>

text \<open>The name of a snapshot is read back as its time and its operation.\<close>

lemma parse_snapshot_name:
  assumes "0 \<le> nanos" "int64_range nanos" "validateBackupOperation operation = None"
  shows "parseSnapshotName (snapshotName nanos operation) = Some (nanos, operation)"
proof -
  have "operation \<noteq> []" "backupOperationRegex operation"
    using assms(3) by (auto simp: validateBackupOperation_def split: if_splits)
  moreover have "itoa nanos \<noteq> []" using itoa_first [OF assms(1)] by auto
  ultimately show ?thesis
    using cut_found [of "CHR ''-''" "itoa nanos" operation] itoa_nonneg_free [OF assms(1)] atoi_itoa [OF assms(2)] assms(1)
    by (simp add: parseSnapshotName_def snapshotName_def)
qed

lemma newest_first:
  "sorted_wrt (\<lambda>s s'. bs_created_at s' \<le> bs_created_at s) (sortConfigBackupSnapshotsNewestFirst ss)"
proof -
  have "sorted (map bs_created_at (sort_key bs_created_at (sort_key bs_id ss)))" by (rule sorted_sort_key)
  then show ?thesis
    by (simp add: sortConfigBackupSnapshotsNewestFirst_def sorted_wrt_rev sorted_map)
qed

lemma keeps_list_files [keeps_intros]: "keeps P (listSnapshotFiles io dir)"
proof -
  have "keeps P (os_ReadDir io dir)" by (rule keeps_reads)
  then show ?thesis
    by (auto simp: keeps_def listSnapshotFiles_def tryD_def returnD_def failD_def case_prod_beta split: sum.splits)
qed

lemma keeps_list_snapshot [keeps_intros]: "keeps P (collectListSnapshot io root name)"
  unfolding collectListSnapshot_def Let_def by (auto intro!: keeps_intros split: option.split prod.split)

text \<open>One entry: it is shown exactly when it is a directory with the name of a snapshot.\<close>

lemma listed_entry:
  assumes "collectListSnapshot io root name d = (Inr c, d')"
  shows "c \<noteq> None \<longleftrightarrow> (\<exists>m. node_at d (path_join root name) = Some (Dir m)) \<and> parseSnapshotName name \<noteq> None"
    "\<forall>s. c = Some s \<longrightarrow> bs_id s = name \<and> bs_path s = path_join root name
       \<and> parseSnapshotName name = Some (bs_created_at s, bs_operation s)"
proof -
  obtain r d1 where l: "os_Lstat io (path_join root name) d = (r, d1)" by fastforce
  from l have n: "r = Inr x \<Longrightarrow> node_at d (path_join root name) = Some x"
    and e: "r = Inl NotExist \<Longrightarrow> node_at d (path_join root name) = None" for x
    by (auto simp: os_Lstat_def syscall_def look_def Let_def split: option.splits)
  have dir: "dir_node x \<longleftrightarrow> (\<exists>m. x = Dir m)" for x by (cases x) auto
  have run: "(case r of Inl e \<Rightarrow> (if e = NotExist then returnD None else failD (FsOs ''stating backup entry'' e))
      | Inr n \<Rightarrow> (if \<not> dir_node n then returnD None
         else case parseSnapshotName name of None \<Rightarrow> returnD None
           | Some (t, operation) \<Rightarrow> bindD (listSnapshotFiles io (path_join root name)) (\<lambda>files.
               returnD (Some \<lparr>bs_id = name, bs_operation = operation, bs_created_at = t,
                 bs_path = path_join root name, bs_files = files\<rparr>)))) d1 = (Inr c, d')"
    using assms l by (simp add: collectListSnapshot_def Let_def tryD_def)
  show "c \<noteq> None \<longleftrightarrow> (\<exists>m. node_at d (path_join root name) = Some (Dir m)) \<and> parseSnapshotName name \<noteq> None"
    "\<forall>s. c = Some s \<longrightarrow> bs_id s = name \<and> bs_path s = path_join root name
       \<and> parseSnapshotName name = Some (bs_created_at s, bs_operation s)"
    using run n e
    by (auto simp: dir returnD_def failD_def bindD_Inr split: sum.splits if_splits option.splits prod.splits)
qed

definition shows_entry :: "(string \<Rightarrow> node option) \<Rightarrow> string \<Rightarrow> string \<Rightarrow> backup_snapshot option \<Rightarrow> bool" where
  "shows_entry t root name c \<longleftrightarrow>
     (c \<noteq> None \<longleftrightarrow> (\<exists>m. t (path_join root name) = Some (Dir m)) \<and> parseSnapshotName name \<noteq> None)
     \<and> (\<forall>s. c = Some s \<longrightarrow> bs_id s = name \<and> bs_path s = path_join root name
          \<and> parseSnapshotName name = Some (bs_created_at s, bs_operation s))"

lemma collect_each_exact:
  assumes "\<And>p d c d'. f p d = (Inr c, d') \<Longrightarrow> (\<forall>q. node_at d q = t q) \<Longrightarrow> R p c" "\<And>p. keeps (\<lambda>q. True) (f p)"
  shows "collect_each f ps d = (Inr xs, d') \<Longrightarrow> (\<forall>q. node_at d q = t q) \<Longrightarrow>
    (\<forall>p \<in> set ps. R p None \<or> (\<exists>x \<in> set xs. R p (Some x))) \<and> (\<forall>x \<in> set xs. \<exists>p \<in> set ps. R p (Some x))"
proof (induction ps arbitrary: d xs)
  case (Cons p ps)
  from Cons.prems(1) obtain c d1 ys where c: "f p d = (Inr c, d1)" and r: "collect_each f ps d1 = (Inr ys, d')"
    and xs: "xs = (case c of None \<Rightarrow> ys | Some x \<Rightarrow> x # ys)"
    by (auto simp: bindD_Inr returnD_def)
  have "\<forall>q. node_at d1 q = t q" using keepsD [OF assms(2) TrueI c] Cons.prems(2) by simp
  with Cons.IH [OF r] assms(1) [OF c Cons.prems(2)] xs show ?case by (cases c) auto
qed (simp add: returnD_def)

text \<open>
  The list shows, newest first, exactly the directories below the backup root whose names are those of
  snapshots, and reading it changes nothing.
\<close>

lemma list_exact:
  assumes "ListConfigBackups io stack d = (Inr ss, d')"
  shows "(\<forall>q. node_at d' q = node_at d q)
    \<and> sorted_wrt (\<lambda>s s'. bs_created_at s' \<le> bs_created_at s) ss
    \<and> (\<forall>s \<in> set ss. bs_path s = path_join (backupRoot stack) (bs_id s)
        \<and> parseSnapshotName (bs_id s) = Some (bs_created_at s, bs_operation s))
    \<and> (node_at d (backupRoot stack) \<noteq> None \<longrightarrow>
        bs_id ` set ss = {n. in_directory d (backupRoot stack) n
          \<and> (\<exists>m. node_at d (path_join (backupRoot stack) n) = Some (Dir m)) \<and> parseSnapshotName n \<noteq> None})"
proof -
  let ?root = "backupRoot stack"
  have "keeps (\<lambda>q. True) (ListConfigBackups io stack)"
    unfolding ListConfigBackups_def validateBackupStackPath_def by (intro keeps_intros)
  from keepsD [OF this TrueI assms] have same: "node_at d' q = node_at d q" for q .
  have "keeps (\<lambda>q. True) (validateBackupStackPath io stack)"
    unfolding validateBackupStackPath_def by (intro keeps_intros)
  note kv = keepsD [OF this TrueI]
  from assms obtain u d1 where v: "validateBackupStackPath io stack d = (Inr u, d1)"
    and t: "tryD (os_Lstat io ?root) (\<lambda>r. case r of
         Inl e \<Rightarrow> (if e = NotExist then returnD [] else failD (FsOs ''stating backup root'' e))
       | Inr n \<Rightarrow> bindD (refuseD (\<not> dir_node n) (FsRefused ''backup root is not a directory'')) (\<lambda>_.
           bindD (callD ''reading backup root'' (os_ReadDir io ?root)) (\<lambda>names.
           bindD (collect_each (collectListSnapshot io ?root) names) (\<lambda>ss.
             returnD (sortConfigBackupSnapshotsNewestFirst ss))))) d1 = (Inr ss, d')"
    unfolding ListConfigBackups_def bindD_Inr by blast
  show ?thesis
  proof (cases "node_at d ?root")
    case None
    with t kv [OF v] have "ss = []"
      by (auto simp: tryD_def os_Lstat_def syscall_def look_def Let_def returnD_def failD_def split: option.splits if_splits)
    with same None show ?thesis by simp
  next
    case (Some x)
    from t Some kv [OF v] obtain n d2 names d3 xs where l: "os_Lstat io ?root d1 = (Inr n, d2)"
      and rd: "os_ReadDir io ?root d2 = (Inr names, d3)"
      and c: "collect_each (collectListSnapshot io ?root) names d3 = (Inr xs, d')"
      and ss: "ss = sortConfigBackupSnapshotsNewestFirst xs"
      by (auto simp: tryD_Inr bindD_Inr callD_Inr refuseD_def returnD_def failD_def os_Lstat_def syscall_def look_def Let_def
          split: sum.splits option.splits if_splits)
    have tree: "node_at d3 q = node_at d q" "node_at d2 q = node_at d q" for q
      using keepsD [OF keeps_reads(1) TrueI l] keepsD [OF keeps_reads(4) TrueI rd] kv [OF v] by simp_all
    from rd have names: "names = names_in (dk_tree d2) ?root"
      by (auto simp: os_ReadDir_def syscall_def look_def Let_def split: option.splits node.splits)
    have nm: "set names = {n. in_directory d ?root n}"
      unfolding names using names_in_directory(1) [of d2 ?root] tree(2) by (simp add: in_directory_def)
    let ?R = "shows_entry (node_at d) ?root"
    have "\<forall>q. node_at d3 q = node_at d q" using tree(1) by blast
    have "(\<forall>p \<in> set names. ?R p None \<or> (\<exists>x \<in> set xs. ?R p (Some x))) \<and> (\<forall>x \<in> set xs. \<exists>p \<in> set names. ?R p (Some x))"
      by (rule collect_each_exact [OF _ keeps_list_snapshot c \<open>\<forall>q. node_at d3 q = node_at d q\<close>])
        (use listed_entry in \<open>simp add: shows_entry_def\<close>)
    moreover have "set ss = set xs" by (simp add: ss sortConfigBackupSnapshotsNewestFirst_def)
    ultimately show ?thesis using same nm newest_first [of xs] ss by (auto simp: image_iff shows_entry_def)
  qed
qed

end
