(* ===== verification/Spec2Isabelle.thy ===== *)
theory Spec2Isabelle
  imports Image_Pins Public_Binds Privilege Socket_Policy Module_Mount Ipam_Policy Completed_Services
    Leak_Check Security_Paths Placeholders Port_Safety Resources Registry_Reference Checksums Secrets
    Install_Render Docker_Inspect Status_Report Lock_Protocol Engine_Host State_Env Lifecycle Atomic_Write Config_Backups Config_Restore Backup_List
begin

text \<open>
  Verification library for \<open>wdm\<close>, a manager of self-hosted Docker Compose stacks written in Go. Its engine
  (\<open>internal/core\<close>) installs an application of a signed catalog into a directory below the stack base, and then
  reports on, restarts, redeploys and removes that stack. The library models the engine and the packages below it
  that decide something; every theory opens with the files of \<open>src/\<close> it is about, and its definitions have the names
  of the functions and types they translate.

  \<^bold>\<open>How the program works, and where it is modelled.\<close>

  Foundations. \<open>Wdm_Prelude\<close> has the error codes and exit classes (\<open>pkg/types/error.go\<close>), results as sums, the folds
  over them, and Go maps as association lists with their lemma collections (\<open>err_simps\<close>, \<open>gomap_simps\<close>).
  \<open>Go_Strings\<close>, \<open>Go_Strconv\<close>, \<open>Go_Float\<close>, \<open>Go_Paths\<close>, \<open>Go_Net\<close> and \<open>Go_Encoding\<close> are the parts of Go's standard library
  that the code calls, on strings of bytes; integers have their width where a wrap-around can be seen.
  \<open>Yaml_Tree\<close> and \<open>Compose_Yaml\<close> are the node tree of the YAML library and the code's own \<open>UnmarshalYAML\<close> methods.

  Planning an installation (\<open>install_phase_plan.go\<close>, \<open>options.go\<close>). \<open>Catalog\<close> and \<open>Install_Plan\<close> are the data;
  \<open>Placeholders\<close> chooses the application, the stack directory and every placeholder value; \<open>Port_Ranges\<close>,
  \<open>Port_Plan\<close> and \<open>Port_Safety\<close> expand the ports, apply overrides, probe and move them; \<open>Resources\<close> selects the limits.
  The lemmas show which values a plan can contain, that no two bindings collide, that public binds are the declared
  ones, and how often ports are probed.

  Rendering and its checks (\<open>install_phase_render.go\<close>, \<open>install_phase_secrets.go\<close>, \<open>install_phase_validate.go\<close>,
  \<open>internal/render\<close>, \<open>internal/security\<close>). \<open>Secrets\<close> generates, \<open>Render\<close> renders, \<open>Compose_Remap\<close> moves ports in a
  rendered compose, \<open>Guidance\<close> tells the operator; \<open>Image_Pins\<close>, \<open>Public_Binds\<close>, \<open>Privilege\<close>, \<open>Socket_Policy\<close>,
  \<open>Module_Mount\<close>, \<open>Ipam_Policy\<close>, \<open>Completed_Services\<close> and \<open>Leak_Check\<close> are the passes that refuse a stack. Each pass has
  a declarative policy, and its main lemma says that the pass accepts exactly what satisfies the policy;
  \<open>Verify_Contract\<close> states that contract once, as a locale whose instances compose, and \<open>Install_Render\<close> runs the whole
  phase and shows that a plan leaves it verified. \<open>Redactor\<close> is the scrubber of secrets.

  Docker (\<open>internal/docker\<close>). \<open>Docker_Argv\<close> has the closed set of invocations, their validation and the allow-list of
  argument vectors; \<open>Docker_Grammar\<close> says what the allow-list accepts, as an inductive grammar; \<open>Docker_Client\<close> runs a
  command; \<open>Docker_Network\<close> and \<open>Docker_Inspect\<close> are the operations on networks, containers and volumes.

  Installed stacks (\<open>internal/core\<close>, \<open>internal/state\<close>). \<open>Stack_Lookup\<close> finds a stack through its manifest,
  \<open>Stack_Status\<close> and \<open>Status_Report\<close> compute its status, \<open>State_Env\<close> reads and edits its environment files.
  \<open>Engine_Host\<close> is the environment of the operations that change a stack: the world is the history of what was done
  so far, and every answer (Docker, the file system, the person at the prompt, the clock) is a function of it, so a
  statement about all hosts is one about every behaviour of them. \<open>Lifecycle\<close> has restart, redeployment and removal.
  The predicates \<open>adds\<close>, \<open>consented\<close> and \<open>does\<close> are a small calculus for such steps: what they may add to the history,
  that no change precedes a consent, and which changes belong to which result.

  The runtime lock (\<open>runtime_lock.go\<close>, \<open>runtime_lock_clear.go\<close>). \<open>Runtime_Lock\<close> has liveness and staleness,
  \<open>Lock_Protocol\<close> interleaves processes system call by system call as a step relation, with an invariant by rule
  induction over the reachable worlds and the schedules on which exclusion fails.

  Files. \<open>File_Tree\<close> models the calls of package \<open>os\<close> on a tree of files in which any call may fail, and hence a
  crash at any call. The disk also records what a loss of power may still undo: the files whose data and the directories
  whose entries were changed since their last \<open>Sync\<close> (\<open>dk_unsynced\<close>). A symbolic link is followed at the end of a path, not
  in the middle of one. \<open>Atomic_Write\<close> is \<open>WriteFileAtomic\<close> with the policy on modes; \<open>Config_Backups\<close>,
  \<open>Config_Restore\<close> and \<open>Backup_List\<close> (\<open>internal/state/backup.go\<close>, \<open>backup_restore.go\<close>, \<open>backup_list.go\<close>) create, prune,
  restore and list the config snapshots of a stack, with the lemmas that a snapshot is complete, that pruning removes
  the oldest ones, that a restoration gives the files back and writes nothing behind a link, and which snapshots are
  refused. Such an operation is a function of the disk; \<open>keeps\<close> is the calculus for what it leaves alone, \<open>soils\<close> for
  what it leaves unsynced and \<open>ticks\<close> for the calls it counts.

  Releases and images. \<open>Checksums\<close> (\<open>internal/release/checksum.go\<close>) and \<open>Registry_Reference\<close>
  (\<open>internal/registry/reference.go\<close>).

  \<^bold>\<open>Bounds.\<close> Loops are structural recursions or have termination proofs. The search for a free port makes at most 64
  attempts in a window of 1024 ports, and the acquisition of the runtime lock two; both numbers are the code's, and no
  definition has fuel of its own.

  \<^bold>\<open>Arguments of the model.\<close> The YAML and JSON libraries, \<open>text/template\<close>, \<open>net/url\<close>, SHA-256 and Argon2, the source of
  entropy, the probing of ports, \<open>EvalSymlinks\<close>, the docker process, process liveness and the clock are arguments of
  the definitions that use them; what a property needs of one is a hypothesis in it.

  \<^bold>\<open>Not modelled.\<close> Cancellation of contexts, progress callbacks, log records, the closed engine and streaming of logs
  are left out of the operations. Deletion, stop-all and uninstallation, update, reconfiguration and
  the write and deployment phases of an installation are not translated; the steps they share with the modelled
  operations are. Catalog loading and storage, network clients, signature verification and self-update, readiness
  probes, logging, the command line and the terminal interface are input and output around that core.
\<close>

end
